(* ===== verification/Prelude.thy ===== *)
theory Prelude
  imports Main "HOL-Library.Word" "HOL-Library.Monad_Syntax"
begin

text \<open>
  Shared vocabulary of the development: the machine types of \<open>include/Common.h\<close>, the
  convention for faults, checked accesses to arrays, and the list and word lemmas that the
  component theories use.

  A C++ operation that can fail an \<open>assert\<close>, call \<open>panic\<close>, dereference a null pointer or
  touch memory outside an object is a function into \<^typ>\<open>'a option\<close> here: \<^term>\<open>None\<close> means
  that such a \<^emph>\<open>fault\<close> happened.  A result that the C++ code itself marks as missing
  (\<open>std::nullopt\<close>, \<open>false\<close>, a negative number) is an ordinary value inside the \<^term>\<open>Some\<close>.
\<close>

unbundle bit_operations_syntax

section \<open>Machine types\<close>

type_synonym u8 = "8 word"
type_synonym u16 = "16 word"
type_synonym u32 = "32 word"
type_synonym u64 = "64 word"
type_synonym bytes = "u8 list"

named_theorems fault_simps \<open>unfolding rules for checked accesses\<close>
named_theorems len_simps \<open>lengths of buffers after an operation\<close>

section \<open>Checked accesses\<close>

text \<open>Reading \<open>xs[i]\<close>: a fault when \<open>i\<close> is outside the array.\<close>

definition rd :: "'a list \<Rightarrow> nat \<Rightarrow> 'a option" where
  "rd xs i = (if i < length xs then Some (xs ! i) else None)"

text \<open>Writing \<open>xs[i] = v\<close>.\<close>

definition wr :: "'a list \<Rightarrow> nat \<Rightarrow> 'a \<Rightarrow> 'a list option" where
  "wr xs i v = (if i < length xs then Some (xs[i := v]) else None)"

text \<open>The \<open>n\<close> elements from offset \<open>i\<close> (the source of a \<open>memcpy\<close>).\<close>

definition rd_n :: "'a list \<Rightarrow> nat \<Rightarrow> nat \<Rightarrow> 'a list option" where
  "rd_n xs i n = (if i + n \<le> length xs then Some (take n (drop i xs)) else None)"

text \<open>Overwriting the elements from offset \<open>i\<close> (the destination of a \<open>memcpy\<close>).\<close>

definition splice :: "'a list \<Rightarrow> nat \<Rightarrow> 'a list \<Rightarrow> 'a list" where
  "splice xs i ys = take i xs @ ys @ drop (i + length ys) xs"

definition wr_n :: "'a list \<Rightarrow> nat \<Rightarrow> 'a list \<Rightarrow> 'a list option" where
  "wr_n xs i ys = (if i + length ys \<le> length xs then Some (splice xs i ys) else None)"

text \<open>\<open>assert(b)\<close>.\<close>

definition ensure :: "bool \<Rightarrow> unit option" where
  "ensure b = (if b then Some () else None)"

lemma rd_Some_iff [fault_simps]: "rd xs i = Some v \<longleftrightarrow> i < length xs \<and> xs ! i = v"
  by (auto simp: rd_def)

lemma rd_None_iff [fault_simps]: "rd xs i = None \<longleftrightarrow> length xs \<le> i"
  by (auto simp: rd_def)

lemma rd_in_range [simp]: "i < length xs \<Longrightarrow> rd xs i = Some (xs ! i)"
  by (simp add: rd_def)

lemma wr_Some_iff [fault_simps]: "wr xs i v = Some ys \<longleftrightarrow> i < length xs \<and> ys = xs[i := v]"
  by (auto simp: wr_def)

lemma wr_in_range [simp]: "i < length xs \<Longrightarrow> wr xs i v = Some (xs[i := v])"
  by (simp add: wr_def)

lemma rd_n_in_range [simp]: "i + n \<le> length xs \<Longrightarrow> rd_n xs i n = Some (take n (drop i xs))"
  by (simp add: rd_n_def)

lemma rd_n_Some_iff [fault_simps]:
  "rd_n xs i n = Some ys \<longleftrightarrow> i + n \<le> length xs \<and> ys = take n (drop i xs)"
  by (auto simp: rd_n_def)

lemma rd_n_None_iff [fault_simps]: "rd_n xs i n = None \<longleftrightarrow> length xs < i + n"
  by (auto simp: rd_n_def)

lemma wr_n_in_range [simp]: "i + length ys \<le> length xs \<Longrightarrow> wr_n xs i ys = Some (splice xs i ys)"
  by (simp add: wr_n_def)

lemma wr_n_Some_iff [fault_simps]:
  "wr_n xs i ys = Some zs \<longleftrightarrow> i + length ys \<le> length xs \<and> zs = splice xs i ys"
  by (auto simp: wr_n_def)

lemma wr_n_None_iff [fault_simps]: "wr_n xs i ys = None \<longleftrightarrow> length xs < i + length ys"
  by (auto simp: wr_n_def)

lemma ensure_Some_iff [simp]: "ensure b = Some u \<longleftrightarrow> b"
  by (simp add: ensure_def)

lemma ensure_None_iff [simp]: "ensure b = None \<longleftrightarrow> \<not> b"
  by (simp add: ensure_def)

lemma ensure_True [simp]: "ensure True = Some ()"
  by (simp add: ensure_def)

lemma ensure_False [simp]: "ensure False = None"
  by (simp add: ensure_def)

lemma length_splice [len_simps]:
  "i + length ys \<le> length xs \<Longrightarrow> length (splice xs i ys) = length xs"
  by (simp add: splice_def)

lemma splice_Nil [simp]: "splice xs i [] = xs"
  by (simp add: splice_def)

lemma take_splice_before: "j \<le> i \<Longrightarrow> i \<le> length xs \<Longrightarrow> take j (splice xs i ys) = take j xs"
  by (simp add: splice_def min_def)

lemma take_splice_through:
  "i + length ys \<le> length xs \<Longrightarrow> take (i + length ys) (splice xs i ys) = take i xs @ ys"
  by (simp add: splice_def)

lemma drop_splice_after:
  assumes "i + length ys \<le> length xs" and "i + length ys \<le> j"
  shows "drop j (splice xs i ys) = drop j xs"
proof -
  have "length (take i xs) = i" using assms(1) by simp
  with assms show ?thesis by (simp add: splice_def)
qed

lemma splice_read_back:
  "i + length ys \<le> length xs \<Longrightarrow> take (length ys) (drop i (splice xs i ys)) = ys"
  by (simp add: splice_def)

section \<open>Bind rules for faults\<close>

lemma bind_Some_iff [fault_simps]: "Option.bind m f = Some y \<longleftrightarrow> (\<exists>x. m = Some x \<and> f x = Some y)"
  by (cases m) auto

lemma bind_None_iff [fault_simps]:
  "Option.bind m f = None \<longleftrightarrow> (m = None \<or> (\<exists>x. m = Some x \<and> f x = None))"
  by (cases m) auto

section \<open>Words\<close>

text \<open>
  The PowerPC shift \<open>slw\<close>, which the compiler emits for \<open>1 << n\<close> on 32-bit integers: the
  low six bits of the amount count, and an amount of 32 to 63 gives zero.
\<close>

definition slw :: "u32 \<Rightarrow> nat \<Rightarrow> u32" where
  "slw x n = (if n mod 64 < 32 then push_bit (n mod 64) x else 0)"

lemma slw_small [simp]: "n < 32 \<Longrightarrow> slw x n = push_bit n x"
  by (simp add: slw_def)

lemma bit_slw_1: "n < 32 \<Longrightarrow> bit (slw 1 n) k \<longleftrightarrow> k = n"
  by (auto simp: bit_simps)

lemma and_shift_1_eq_0_iff:
  fixes x :: "'a::len word"
  shows "x AND push_bit n 1 = 0 \<longleftrightarrow> \<not> bit x n"
proof
  assume "x AND push_bit n 1 = 0"
  then have "\<not> bit (x AND push_bit n 1) n" by simp
  then show "\<not> bit x n" by (auto simp: bit_simps dest: bit_imp_le_length)
next
  assume "\<not> bit x n"
  then show "x AND push_bit n 1 = 0"
    by (auto intro!: bit_word_eqI simp: bit_simps)
qed

lemma unat_u8_less [simp]: "unat (x :: u8) < 256"
  using unsigned_less [of x] by simp

lemma unat_u16_less [simp]: "unat (x :: u16) < 65536"
  using unsigned_less [of x] by simp


lemma unat_ucast_upcast:
  "LENGTH('a::len) \<le> LENGTH('b::len) \<Longrightarrow> unat (ucast (v :: 'a word) :: 'b word) = unat v"
proof -
  assume le: "LENGTH('a) \<le> LENGTH('b)"
  have "unat v < 2 ^ LENGTH('a)" by (rule unsigned_less)
  also have "\<dots> \<le> 2 ^ LENGTH('b)" using le by simp
  finally show ?thesis by (simp add: unsigned_ucast_eq take_bit_nat_eq_self)
qed

lemma unat_ucast_u8 [simp]:
  "unat (ucast (v :: u8) :: u16) = unat v" "unat (ucast (v :: u8) :: u32) = unat v"
  by (simp_all add: unat_ucast_upcast)

section \<open>Nibbles, group flags and back references\<close>

text \<open>The bit arithmetic that the sliding-window decoders share.\<close>

lemma nibble_high: "unat (drop_bit 4 (v :: u8)) = unat v div 16"
  by (simp add: drop_bit_eq_div unat_div_distrib)

lemma nibble_low: "unat (push_bit 8 (ucast (v :: u8) :: u16) AND 0xf00) = (unat v mod 16) * 256"
proof -
  have "(0xf00 :: u16) = push_bit 8 (mask 4)" by (simp add: mask_eq_exp_minus_1 push_bit_eq_mult)
  then have *: "push_bit 8 (ucast v :: u16) AND 0xf00 = push_bit 8 (take_bit 4 (ucast v))"
    by (simp only: push_bit_and [symmetric] take_bit_eq_mask)
  have "unat (take_bit 4 (ucast v) :: u16) = unat v mod 16"
    by (simp only: unsigned_take_bit_eq) (simp add: take_bit_eq_mod)
  moreover have "unat v mod 16 * 256 < 65536" by (simp add: mult.commute less_mult_imp_div_less)
  ultimately show ?thesis
    unfolding * by (simp only: push_bit_eq_mult unat_word_ariths) simp
qed

lemma nibble_low_le: "unat (push_bit 8 (ucast (v :: u8) :: u16) AND 0xf00) \<le> 0xf00"
  by (simp add: nibble_low)

lemma back_ref_add:
  "unat o1 \<le> 0xf00 \<Longrightarrow> unat (o1 + (ucast (v :: u8) + 1) :: u16) = unat o1 + unat v + 1"
proof -
  assume "unat o1 \<le> 0xf00"
  moreover have v: "unat v + 1 < 65536" "unat v < 256" using unat_u8_less [of v] by linarith+
  moreover have "unat (ucast v + 1 :: u16) = unat v + 1"
    using v(1) by (simp add: unat_word_ariths)
  moreover have "unat o1 + (unat v + 1) < 65536" using \<open>unat o1 \<le> 0xf00\<close> v by linarith
  ultimately show ?thesis by (simp add: unat_word_ariths)
qed

lemma group_index_wraps: "x + 1 = (8 :: u8) \<longleftrightarrow> x = 7"
  by (simp flip: eq_diff_eq)

lemma group_bit: "drop_bit k (h :: u8) AND 1 = 0 \<longleftrightarrow> \<not> bit h k"
  by (simp add: and_one_eq bit_iff_odd_drop_bit even_iff_mod_2_eq_zero)

lemma group_shift: "unat i \<le> 7 \<Longrightarrow> unat (7 - i) = 7 - unat (i :: u8)"
  by (subst unat_sub) (simp_all add: word_le_nat_alt)

lemma group_next: "unat i \<le> 7 \<Longrightarrow> i \<noteq> 7 \<Longrightarrow> unat (i + 1) = unat (i :: u8) + 1 \<and> unat i < 7"
proof -
  assume le: "unat i \<le> 7" and ne: "i \<noteq> 7"
  have "unat i \<noteq> unat (7 :: u8)" using ne by (metis word_unat_eq_iff)
  with le have "unat i < 7" by simp
  then show ?thesis by (simp add: unat_word_ariths)
qed

end
