(* ===== verification/Byte_IO.thy ===== *)
theory Byte_IO
  imports Prelude
begin

text \<open>
  Reading and writing integers in byte buffers: the templates \<open>Bytes::Read\<close> and
  \<open>Bytes::Write\<close> of \<open>common/Bytes.hh\<close>, for any word width, and the inline functions of
  \<open>payload/sp/Bytes.h\<close>.  The lemmas give every bit of the integer read, the round trip between
  \<open>Write\<close> and \<open>Read\<close>, and the agreement of the two files.
\<close>

section \<open>The templates of Bytes.hh\<close>

datatype endian = Big_Endian | Little_Endian

text \<open>\<open>sizeof(T)\<close>, and the shift of byte \<open>i\<close>.\<close>

definition size_of :: "'a::len itself \<Rightarrow> nat" where
  "size_of _ = LENGTH('a) div 8"

fun byte_shift :: "endian \<Rightarrow> nat \<Rightarrow> nat \<Rightarrow> nat" where
  "byte_shift Big_Endian n i = 8 * (n - i - 1)"
| "byte_shift Little_Endian n i = 8 * i"

text \<open>\<open>read_loop E n src offset i\<close> is \<open>val\<close> after the first \<open>i\<close> iterations of the loop.\<close>

primrec read_loop :: "endian \<Rightarrow> nat \<Rightarrow> bytes \<Rightarrow> nat \<Rightarrow> nat \<Rightarrow> 'a::len word option" where
  "read_loop E n src offset 0 = Some 0"
| "read_loop E n src offset (Suc i) = do {
     val \<leftarrow> read_loop E n src offset i;
     b \<leftarrow> rd src (offset + i);
     Some (val OR push_bit (byte_shift E n i) (ucast b))
   }"

definition Bytes_Read :: "endian \<Rightarrow> bytes \<Rightarrow> nat \<Rightarrow> 'a::len word option" where
  "Bytes_Read E src offset = read_loop E (size_of TYPE('a)) src offset (size_of TYPE('a))"

primrec write_loop :: "endian \<Rightarrow> nat \<Rightarrow> nat \<Rightarrow> 'a::len word \<Rightarrow> nat \<Rightarrow> bytes \<Rightarrow> bytes option" where
  "write_loop E n offset val 0 dst = Some dst"
| "write_loop E n offset val (Suc i) dst = do {
     dst' \<leftarrow> write_loop E n offset val i dst;
     wr dst' (offset + i) (ucast (drop_bit (byte_shift E n i) val))
   }"

definition Bytes_Write :: "endian \<Rightarrow> bytes \<Rightarrow> nat \<Rightarrow> 'a::len word \<Rightarrow> bytes option" where
  "Bytes_Write E dst offset val =
     write_loop E (size_of TYPE('a)) offset val (size_of TYPE('a)) dst"

section \<open>The functions of Bytes.h\<close>

definition read_u8 :: "bytes \<Rightarrow> nat \<Rightarrow> u8 option" where
  "read_u8 data offset = rd data offset"

definition read_u16 :: "bytes \<Rightarrow> nat \<Rightarrow> u16 option" where
  "read_u16 data offset = do {
     b0 \<leftarrow> rd data offset; b1 \<leftarrow> rd data (offset + 1);
     Some (push_bit 8 (ucast b0) OR ucast b1)
   }"

definition read_u32 :: "bytes \<Rightarrow> nat \<Rightarrow> u32 option" where
  "read_u32 data offset = do {
     b0 \<leftarrow> rd data offset; b1 \<leftarrow> rd data (offset + 1);
     b2 \<leftarrow> rd data (offset + 2); b3 \<leftarrow> rd data (offset + 3);
     Some (push_bit 24 (ucast b0) OR push_bit 16 (ucast b1) OR push_bit 8 (ucast b2) OR ucast b3)
   }"

definition read_u32_le :: "bytes \<Rightarrow> nat \<Rightarrow> u32 option" where
  "read_u32_le data offset = do {
     b0 \<leftarrow> rd data offset; b1 \<leftarrow> rd data (offset + 1);
     b2 \<leftarrow> rd data (offset + 2); b3 \<leftarrow> rd data (offset + 3);
     Some (push_bit 24 (ucast b3) OR push_bit 16 (ucast b2) OR push_bit 8 (ucast b1) OR ucast b0)
   }"

primrec read_u64_le_loop :: "bytes \<Rightarrow> nat \<Rightarrow> nat \<Rightarrow> u64 option" where
  "read_u64_le_loop data offset 0 = Some 0"
| "read_u64_le_loop data offset (Suc i) = do {
     val \<leftarrow> read_u64_le_loop data offset i;
     b \<leftarrow> rd data (offset + i);
     Some (val OR push_bit (8 * i) (ucast b))
   }"

definition read_u64_le :: "bytes \<Rightarrow> nat \<Rightarrow> u64 option" where
  "read_u64_le data offset = read_u64_le_loop data offset 8"

definition write_u8 :: "bytes \<Rightarrow> nat \<Rightarrow> u8 \<Rightarrow> bytes option" where
  "write_u8 data offset val = wr data offset val"

definition write_u16 :: "bytes \<Rightarrow> nat \<Rightarrow> u16 \<Rightarrow> bytes option" where
  "write_u16 data offset val = do {
     d \<leftarrow> wr data offset (ucast (drop_bit 8 val));
     wr d (offset + 1) (ucast val)
   }"

definition write_u32 :: "bytes \<Rightarrow> nat \<Rightarrow> u32 \<Rightarrow> bytes option" where
  "write_u32 data offset val = do {
     d0 \<leftarrow> wr data offset (ucast (drop_bit 24 val));
     d1 \<leftarrow> wr d0 (offset + 1) (ucast (drop_bit 16 val));
     d2 \<leftarrow> wr d1 (offset + 2) (ucast (drop_bit 8 val));
     wr d2 (offset + 3) (ucast val)
   }"

definition write_u32_le :: "bytes \<Rightarrow> nat \<Rightarrow> u32 \<Rightarrow> bytes option" where
  "write_u32_le data offset val = do {
     d0 \<leftarrow> wr data (offset + 3) (ucast (drop_bit 24 val));
     d1 \<leftarrow> wr d0 (offset + 2) (ucast (drop_bit 16 val));
     d2 \<leftarrow> wr d1 (offset + 1) (ucast (drop_bit 8 val));
     wr d2 offset (ucast val)
   }"

lemma read_u32_total: "i + 4 \<le> length xs \<Longrightarrow> \<exists>v. read_u32 xs i = Some v"
  by (simp add: read_u32_def)

section \<open>The bits of an integer read\<close>

text \<open>The position in the buffer of byte \<open>q\<close>, counted from the least significant one.\<close>

fun byte_pos :: "endian \<Rightarrow> nat \<Rightarrow> nat \<Rightarrow> nat" where
  "byte_pos Big_Endian n q = n - 1 - q"
| "byte_pos Little_Endian n q = q"

lemma byte_pos_less: "q < n \<Longrightarrow> byte_pos E n q < n"
  by (cases E) auto

lemma byte_shift_eq: "i < n \<Longrightarrow> byte_shift E n i = 8 * byte_pos E n i"
  by (cases E) auto

lemma byte_pos_invol: "q < n \<Longrightarrow> byte_pos E n (byte_pos E n q) = q"
  by (cases E) auto

lemma bit_shifted_byte:
  "bit (push_bit (8 * p) (ucast (b :: u8) :: 'a::len word)) k \<longleftrightarrow>
     k < LENGTH('a) \<and> k div 8 = p \<and> bit b (k mod 8)"
proof -
  have "k - 8 * p = k mod 8" if "k div 8 = p" using minus_mult_div_eq_mod [of k 8] that by simp
  moreover have "k div 8 = p" if "8 * p \<le> k" "bit b (k - 8 * p)"
    using that bit_imp_le_length [of b "k - 8 * p"] by auto
  moreover have "8 * p \<le> k" if "k div 8 = p" using that by auto
  ultimately show ?thesis by (auto simp: bit_simps)
qed

lemma read_loop_bits:
  assumes "i \<le> n" and "offset + i \<le> length src"
  shows "\<exists>v :: 'a::len word. read_loop E n src offset i = Some v \<and>
    (\<forall>k. bit v k \<longleftrightarrow> k < LENGTH('a) \<and>
       (\<exists>j < i. k div 8 = byte_pos E n j \<and> bit (src ! (offset + j)) (k mod 8)))"
  using assms
proof (induction i)
  case 0
  then show ?case by simp
next
  case (Suc i)
  then obtain v :: "'a word" where v: "read_loop E n src offset i = Some v"
    "\<forall>k. bit v k \<longleftrightarrow> k < LENGTH('a) \<and>
       (\<exists>j < i. k div 8 = byte_pos E n j \<and> bit (src ! (offset + j)) (k mod 8))"
    by auto
  have "bit (v OR push_bit (byte_shift E n i) (ucast (src ! (offset + i)))) k \<longleftrightarrow> k < LENGTH('a) \<and>
       (\<exists>j < Suc i. k div 8 = byte_pos E n j \<and> bit (src ! (offset + j)) (k mod 8))" for k
    using v(2) Suc.prems(1) bit_shifted_byte [where 'a='a]
    by (auto simp: bit_or_iff byte_shift_eq less_Suc_eq)
  then show ?case using v(1) Suc.prems(2) by simp
qed

lemma read_loop_None: "read_loop E n src offset i = (None :: 'a::len word option) \<longleftrightarrow> 0 < i \<and> length src < offset + i"
proof (induction i)
  case (Suc i)
  then show ?case by (cases "read_loop E n src offset i :: 'a word option") (auto simp: fault_simps)
qed simp

lemma Bytes_Read_None: "Bytes_Read E src offset = (None :: 'a::len word option) \<longleftrightarrow> 0 < size_of TYPE('a) \<and> length src < offset + size_of TYPE('a)"
  by (simp add: Bytes_Read_def read_loop_None)

lemma Bytes_Read_bits:
  assumes "LENGTH('a::len) = 8 * n" and "offset + n \<le> length src"
  shows "\<exists>v :: 'a word. Bytes_Read E src offset = Some v \<and>
    (\<forall>k < 8 * n. bit v k \<longleftrightarrow> bit (src ! (offset + byte_pos E n (k div 8))) (k mod 8))"
proof -
  have n: "size_of TYPE('a) = n" using assms(1) by (simp add: size_of_def)
  obtain v :: "'a word" where v: "read_loop E n src offset n = Some v"
    "\<forall>k. bit v k \<longleftrightarrow> k < LENGTH('a) \<and>
       (\<exists>j < n. k div 8 = byte_pos E n j \<and> bit (src ! (offset + j)) (k mod 8))"
    using read_loop_bits [of n n offset src E, where 'a='a] assms(2) by auto
  have "bit v k \<longleftrightarrow> bit (src ! (offset + byte_pos E n (k div 8))) (k mod 8)" if "k < 8 * n" for k
  proof -
    have q: "k div 8 < n" using that by auto
    have "k div 8 = byte_pos E n j \<longleftrightarrow> j = byte_pos E n (k div 8)" if "j < n" for j
      using byte_pos_invol [OF q, of E] byte_pos_invol [OF that, of E] by auto
    then show ?thesis
      using v(2) assms(1) that byte_pos_less [OF q, of E] by auto
  qed
  with v(1) n show ?thesis by (auto simp: Bytes_Read_def)
qed

section \<open>The bytes written\<close>

lemma write_loop_bytes:
  assumes "i \<le> n" and "offset + i \<le> length dst"
  shows "\<exists>d. write_loop E n offset (val :: 'a::len word) i dst = Some d \<and> length d = length dst \<and>
    (\<forall>j < length dst. d ! j =
       (if offset \<le> j \<and> j < offset + i then ucast (drop_bit (byte_shift E n (j - offset)) val)
        else dst ! j))"
  using assms
proof (induction i)
  case 0
  then show ?case by auto
next
  case (Suc i)
  then obtain d where d: "write_loop E n offset val i dst = Some d" "length d = length dst"
    "\<forall>j < length dst. d ! j =
       (if offset \<le> j \<and> j < offset + i then ucast (drop_bit (byte_shift E n (j - offset)) val)
        else dst ! j)"
    by auto
  then show ?case
    using Suc.prems by (auto simp: nth_list_update)
qed

text \<open>C32: Reading back what Write stored, at the same offset, width and endianness, gives the value
  written, and no other byte has changed.\<close>

theorem Write_then_Read:
  assumes "LENGTH('a::len) = 8 * n" and "offset + n \<le> length dst"
  shows "\<exists>d. Bytes_Write E dst offset (val :: 'a word) = Some d \<and> length d = length dst \<and>
    Bytes_Read E d offset = Some val \<and>
    (\<forall>j < length dst. j < offset \<or> offset + n \<le> j \<longrightarrow> d ! j = dst ! j)"
proof -
  have n: "size_of TYPE('a) = n" using assms(1) by (simp add: size_of_def)
  obtain d where d: "write_loop E n offset val n dst = Some d" "length d = length dst"
    and dj: "\<forall>j < length dst. d ! j =
       (if offset \<le> j \<and> j < offset + n then ucast (drop_bit (byte_shift E n (j - offset)) val)
        else dst ! j)"
    using write_loop_bytes [of n n offset dst E val] assms(2) by auto
  obtain v :: "'a word" where v: "Bytes_Read E d offset = Some v"
    and vk: "\<forall>k < 8 * n. bit v k \<longleftrightarrow> bit (d ! (offset + byte_pos E n (k div 8))) (k mod 8)"
    using Bytes_Read_bits [OF assms(1), of offset d E] assms(2) d(2) by auto
  have "v = val"
  proof (rule bit_word_eqI)
    fix k assume k: "k < LENGTH('a)"
    then have q: "k div 8 < n" using assms(1) by auto
    have "d ! (offset + byte_pos E n (k div 8)) = ucast (drop_bit (8 * (k div 8)) val)"
      using dj byte_pos_less [OF q, of E] assms(2) byte_pos_invol [OF q, of E]
      by (auto simp: byte_shift_eq)
    then have "bit v k \<longleftrightarrow> bit val (8 * (k div 8) + k mod 8)"
      using vk k assms(1) by (auto simp: bit_simps)
    then show "bit v k \<longleftrightarrow> bit val k" by simp
  qed
  then show ?thesis using d dj v n by (auto simp: Bytes_Write_def)
qed


section \<open>The two files agree\<close>

lemma size_of_16: "size_of TYPE(16) = Suc (Suc 0)" by (simp add: size_of_def)
lemma size_of_32: "size_of TYPE(32) = Suc (Suc (Suc (Suc 0)))" by (simp add: size_of_def)
lemma size_of_64: "size_of TYPE(64) = 8" by (simp add: size_of_def)

lemmas fixed_width_simps = Bytes_Read_def Bytes_Write_def size_of_16 size_of_32
  rd_def wr_def numeral_2_eq_2 numeral_3_eq_3

lemma read_u16_is_Read: "read_u16 data offset = Bytes_Read Big_Endian data offset"
  by (auto simp: read_u16_def fixed_width_simps split: if_splits)

lemma read_u32_is_Read: "read_u32 data offset = Bytes_Read Big_Endian data offset"
  by (auto simp: read_u32_def fixed_width_simps ac_simps split: if_splits)

lemma read_u32_le_is_Read: "read_u32_le data offset = Bytes_Read Little_Endian data offset"
  by (auto simp: read_u32_le_def fixed_width_simps ac_simps split: if_splits)

lemma read_u64_le_loop_is_Read:
  "read_u64_le_loop data offset i = read_loop Little_Endian 8 data offset i"
  by (induction i) simp_all

lemma read_u64_le_is_Read: "read_u64_le data offset = Bytes_Read Little_Endian data offset"
  by (simp add: read_u64_le_def Bytes_Read_def size_of_64 read_u64_le_loop_is_Read)

lemma write_u16_is_Write: "write_u16 data offset val = Bytes_Write Big_Endian data offset val"
  by (auto simp: write_u16_def fixed_width_simps split: if_splits)

lemma write_u32_is_Write: "write_u32 data offset val = Bytes_Write Big_Endian data offset val"
  by (auto simp: write_u32_def fixed_width_simps split: if_splits)

lemma write_u32_le_is_Write: "write_u32_le data offset val = Bytes_Write Little_Endian data offset val"
  by (auto simp: write_u32_le_def fixed_width_simps list_update_swap split: if_splits)

section \<open>Integers in structs\<close>

text \<open>The bytes of an integer member of a struct, in the order the big-endian console stores them.\<close>

definition to_be :: "'a::len word \<Rightarrow> bytes" where
  "to_be v = map (\<lambda>i. ucast (drop_bit (byte_shift Big_Endian (size_of TYPE('a)) i) v)) [0..<size_of TYPE('a)]"

lemma length_to_be [simp]: "length (to_be (v :: 'a::len word)) = size_of TYPE('a)"
  by (simp add: to_be_def)

lemma read_loop_prefix:
  "i \<le> n \<Longrightarrow> length pre = off \<Longrightarrow> length src = n \<Longrightarrow>
   read_loop E n (pre @ src @ post) off i = (read_loop E n src 0 i :: 'a::len word option)"
  by (induction i) (auto simp: rd_def nth_append)

lemma Bytes_Read_prefix:
  assumes "length pre = off" and "length src = size_of TYPE('a::len)"
  shows "Bytes_Read E (pre @ src @ post) off = (Bytes_Read E src 0 :: 'a word option)"
  using assms by (simp add: Bytes_Read_def read_loop_prefix)

lemma Bytes_Read_to_be:
  assumes "LENGTH('a::len) = 8 * n"
  shows "Bytes_Read Big_Endian (to_be v) 0 = Some (v :: 'a word)"
proof -
  have n: "size_of TYPE('a) = n" using assms by (simp add: size_of_def)
  then have "0 + n \<le> length (to_be v)" by simp
  then obtain w :: "'a word" where w: "Bytes_Read Big_Endian (to_be v) 0 = Some w"
    "\<forall>k < 8 * n. bit w k \<longleftrightarrow> bit (to_be v ! (0 + byte_pos Big_Endian n (k div 8))) (k mod 8)"
    using Bytes_Read_bits [OF assms] by blast
  have "w = v"
  proof (rule bit_word_eqI)
    fix k assume k: "k < LENGTH('a)"
    then have q: "k div 8 < n" using assms by (simp add: div_less_iff_less_mult mult.commute)
    let ?i = "byte_pos Big_Endian n (k div 8)"
    have i: "?i < n" using q by (rule byte_pos_less)
    have "to_be v ! ?i = ucast (drop_bit (8 * (k div 8)) v)"
      using i q byte_shift_eq [OF i, of Big_Endian] byte_pos_invol [OF q, of Big_Endian] n
      by (simp add: to_be_def)
    then show "bit w k \<longleftrightarrow> bit v k"
      using w(2) k assms by (simp add: bit_unsigned_iff bit_drop_bit_eq)
  qed
  then show ?thesis using w(1) by simp
qed

lemma Bytes_Read_struct:
  assumes "LENGTH('a::len) = 8 * n" and "length pre = off"
  shows "Bytes_Read Big_Endian (pre @ to_be v @ post) off = Some (v :: 'a word)"
  using Bytes_Read_prefix [OF assms(2) length_to_be [of v], of Big_Endian post] Bytes_Read_to_be [OF assms(1), of v]
  by simp

section \<open>A write at work\<close>

theorem Write_then_Read_witness:
  "\<exists>d. Bytes_Write Little_Endian [1, 2, 3, 4, 5, 6] 1 (0xa1b2c3d4 :: u32) = Some d \<and>
     Bytes_Read Little_Endian d 1 = Some (0xa1b2c3d4 :: u32)"
  using Write_then_Read [of 4 1 "[1, 2, 3, 4, 5, 6]" Little_Endian "0xa1b2c3d4 :: u32"] by auto

end
