(* ===== verification/IOS_World.thy ===== *)
theory IOS_World
  imports Byte_IO
begin

text \<open>
  The calls to the operating system of the console's security processor, \<open>payload/revolution/ios.h\<close>.
  The system is not part of the program: its functions are the record \<open>ios_sdk\<close>, \<open>'w\<close> is the world
  behind them.  A call gets the bytes of its input buffers and gives the bytes that its output buffers
  hold afterwards.
\<close>

record 'w ios_sdk =
  IOS_Open :: "string \<Rightarrow> 'w \<Rightarrow> int \<times> 'w"
  IOS_Close :: "int \<Rightarrow> 'w \<Rightarrow> int \<times> 'w"
  IOS_Ioctl :: "int \<Rightarrow> nat \<Rightarrow> bytes \<Rightarrow> nat \<Rightarrow> 'w \<Rightarrow> (int \<times> bytes) \<times> 'w"
  IOS_Ioctlv :: "int \<Rightarrow> nat \<Rightarrow> nat \<Rightarrow> nat \<Rightarrow> bytes list \<Rightarrow> 'w \<Rightarrow> (int \<times> bytes list) \<times> 'w"

text \<open>
  \<open>IOS_Ioctl fd command input size\<close> has an output buffer of \<open>size\<close> bytes; \<open>IOS_Ioctlv fd command i o vec\<close>
  has \<open>i\<close> input and \<open>o\<close> output vectors and gives what all of them hold afterwards, since a device may also
  write to a buffer that has been passed as an input.
\<close>

text \<open>The members of a struct of 32-bit integers.\<close>

definition words32 :: "u32 list \<Rightarrow> bytes" where
  "words32 vs = concat (map to_be vs)"

lemma length_to_be_u32 [simp]: "length (to_be (v :: u32)) = 4"
  by (simp add: to_be_def size_of_def)

lemma length_words32 [len_simps]: "length (words32 vs) = 4 * length vs"
  by (induction vs) (simp_all add: words32_def size_of_def)

lemma words32_append: "words32 (us @ vs) = words32 us @ words32 vs"
  by (simp add: words32_def)

lemma words32_Cons: "words32 (v # vs) = to_be v @ words32 vs"
  by (simp add: words32_def)

lemma read_words32:
  assumes "i < length vs"
  shows "read_u32 (words32 vs) (4 * i) = Some (vs ! i)"
proof -
  have "words32 vs = words32 (take i vs) @ to_be (vs ! i) @ words32 (drop (Suc i) vs)"
    using assms by (simp flip: words32_append words32_Cons add: Cons_nth_drop_Suc)
  then show ?thesis
    using Bytes_Read_struct [of 4 "words32 (take i vs)" "4 * i" "vs ! i" "words32 (drop (Suc i) vs)"] assms
    by (simp add: read_u32_is_Read len_simps)
qed

lemma take_words32: "take 4 (words32 (v # vs)) = to_be v"
  by (simp add: words32_Cons size_of_def)

lemma to_be_eq_iff: "to_be (u :: u32) = to_be v \<longleftrightarrow> u = v"
proof -
  have "Bytes_Read Big_Endian (to_be w) 0 = Some w" for w :: u32
    by (rule Bytes_Read_to_be [of 4]) simp
  then show ?thesis by (metis option.inject)
qed

lemma unat_u32_of_nat: "k < 2 ^ 32 \<Longrightarrow> unat (of_nat k :: u32) = k"
  by (simp add: unat_of_nat take_bit_nat_eq_self_iff)

end
