(* ===== verification/Main_Memory.thy ===== *)
theory Main_Memory
  imports IOS_World
begin

text \<open>
  The memory of the main processor, for the code that works on addresses: a function from addresses to bytes.
  A write changes the bytes of its range and no others; ranges may wrap around at the end of the address space.
\<close>

type_synonym memory = "u32 \<Rightarrow> u8"

definition mem_write :: "u32 \<Rightarrow> bytes \<Rightarrow> memory \<Rightarrow> memory" where
  "mem_write a bs m = (\<lambda>x. if unat (x - a) < length bs then bs ! unat (x - a) else m x)"

definition mem_read :: "memory \<Rightarrow> u32 \<Rightarrow> nat \<Rightarrow> bytes" where
  "mem_read m a n = map (\<lambda>i. m (a + of_nat i)) [0..<n]"

definition mem_fill :: "u32 \<Rightarrow> u8 \<Rightarrow> nat \<Rightarrow> memory \<Rightarrow> memory" where
  "mem_fill a v n m = (\<lambda>x. if unat (x - a) < n then v else m x)"

definition mem_u16 :: "memory \<Rightarrow> u32 \<Rightarrow> u16" where
  "mem_u16 m a = push_bit 8 (ucast (m a)) OR ucast (m (a + 1))"

definition mem_u32 :: "memory \<Rightarrow> u32 \<Rightarrow> u32" where
  "mem_u32 m a = push_bit 24 (ucast (m a)) OR push_bit 16 (ucast (m (a + 1))) OR push_bit 8 (ucast (m (a + 2))) OR ucast (m (a + 3))"

definition write_words :: "u32 \<Rightarrow> u32 list \<Rightarrow> memory \<Rightarrow> memory" where
  "write_words a vs = mem_write a (words32 vs)"

lemma mem_write_far: "unat (x - a) \<ge> length bs \<Longrightarrow> mem_write a bs m x = m x"
  by (simp add: mem_write_def)

lemma mem_read_cong: "(\<And>i. i < n \<Longrightarrow> m (a + of_nat i) = m' (a + of_nat i)) \<Longrightarrow> mem_read m a n = mem_read m' a n"
  by (simp add: mem_read_def)

lemma length_mem_read [simp]: "length (mem_read m a n) = n"
  by (simp add: mem_read_def)

lemma mem_read_written:
  assumes "length bs < 2 ^ 32"
  shows "mem_read (mem_write a bs m) a (length bs) = bs"
  using assms by (intro nth_equalityI) (auto simp: mem_read_def mem_write_def unat_u32_of_nat)

text \<open>A write to \<open>b\<close> does not touch the range of \<open>a\<close> when it starts behind it and does not wrap around.\<close>

lemma mem_read_disjoint:
  assumes "unat a + n \<le> unat b" and "unat b + length bs \<le> 2 ^ 32"
  shows "mem_read (mem_write b bs m) a n = mem_read m a n"
proof (rule mem_read_cong)
  fix i assume i: "i < n"
  have b: "unat b < 2 ^ LENGTH(32)" by (rule unsigned_less)
  then have "unat (a + of_nat i) = unat a + i"
    using assms i by (simp add: unat_word_ariths unat_u32_of_nat)
  then have "unat (a + of_nat i - b) = 2 ^ 32 - unat b + unat a + i"
    using assms i b by (simp add: unat_sub_if' )
  then show "mem_write b bs m (a + of_nat i) = m (a + of_nat i)"
    using assms by (intro mem_write_far) simp
qed

text \<open>The addresses of a range.\<close>

definition span :: "u32 \<Rightarrow> nat \<Rightarrow> u32 set" where
  "span a n = {x. unat (x - a) < n}"

lemma mem_write_outside: "x \<notin> span a (length bs) \<Longrightarrow> mem_write a bs m x = m x"
  by (simp add: span_def mem_write_def)

lemma in_span: "i < n \<Longrightarrow> n \<le> 2 ^ 32 \<Longrightarrow> a + of_nat i \<in> span a n"
  by (simp add: span_def unat_u32_of_nat)

lemma mem_read_eq: "n \<le> 2 ^ 32 \<Longrightarrow> (\<And>x. x \<in> span a n \<Longrightarrow> m x = m' x) \<Longrightarrow> mem_read m a n = mem_read m' a n"
  by (intro mem_read_cong) (simp add: in_span)

lemma mem_u32_eq: "(\<And>x. x \<in> span a 4 \<Longrightarrow> m x = m' x) \<Longrightarrow> mem_u32 m a = mem_u32 m' a"
  using in_span [of 0 4 a] in_span [of 1 4 a] in_span [of 2 4 a] in_span [of 3 4 a] by (simp add: mem_u32_def)

lemma mem_u32_read: "read_u32 (mem_read m a 4) 0 = Some (mem_u32 m a)"
  by (simp add: read_u32_def mem_read_def mem_u32_def rd_def numeral_eq_Suc)

lemma mem_u32_words:
  assumes "i < length ws" and "length ws < 2 ^ 20"
  shows "mem_u32 (write_words a ws m) (a + of_nat (4 * i)) = ws ! i"
proof -
  let ?w = "words32 ws"
  have "mem_read (mem_write a ?w m) (a + of_nat (4 * i)) 4 = take 4 (drop (4 * i) ?w)"
  proof (intro nth_equalityI)
    fix j assume "j < length (mem_read (mem_write a ?w m) (a + of_nat (4 * i)) 4)"
    then have j: "j < 4" by simp
    have "unat (of_nat (4 * i + j) :: u32) = 4 * i + j" using assms j by (intro unat_u32_of_nat) simp
    then have "unat (a + of_nat (4 * i) + of_nat j - a) = 4 * i + j" by (simp add: algebra_simps)
    then show "mem_read (mem_write a ?w m) (a + of_nat (4 * i)) 4 ! j = take 4 (drop (4 * i) ?w) ! j"
      using j assms by (simp add: mem_read_def mem_write_def len_simps del: of_nat_mult)
  qed (use assms in \<open>simp add: len_simps\<close>)
  then have "Some (mem_u32 (write_words a ws m) (a + of_nat (4 * i))) = read_u32 (take 4 (drop (4 * i) ?w)) 0"
    by (simp add: write_words_def flip: mem_u32_read)
  also have "\<dots> = read_u32 ?w (4 * i)"
    using assms by (simp add: read_u32_def rd_def len_simps)
  finally show ?thesis using read_words32 [OF assms(1)] by simp
qed

end
