(* ===== verification/Starlet.thy ===== *)
theory Starlet
  imports Main_Memory
begin

text \<open>
  \<open>common/IOS.cc\<close>: how the stub and the loader, which run without the game's library, talk to the security
  processor of the console (the Starlet).  The processor, its shared words and its work memory are the record
  \<open>starlet\<close>, \<open>'w\<close> is the world behind them; the registers through which a request travels are the subject of
  theory \<open>Ipc_Sync\<close>.  Buffers are passed as values: what the processor writes comes back in the reply, flushes
  of the caches and translations of the addresses of buffers are not part of the state.
\<close>

datatype Mode = Mode_None | Mode_Read | Mode_Write | Mode_Both

text \<open>A vector of \<open>ioctlv\<close>: an input buffer, an output buffer of a size, or a bare address and size.\<close>

datatype iovec = In_Buf bytes | Out_Buf nat | Raw u32 u32

datatype request =
    Req_Open string Mode
  | Req_Close int
  | Req_Read int nat
  | Req_Write int bytes
  | Req_Ioctl int nat bytes nat
  | Req_Ioctlv int nat nat nat "iovec list"

text \<open>
  A reply is the result and what the processor has written at the front of each output buffer.  \<open>uninit n\<close> is
  what a local array of \<open>n\<close> bytes holds before it is written.
\<close>

record 'w starlet =
  ipc :: "request \<Rightarrow> 'w \<Rightarrow> (int \<times> bytes list) \<times> 'w"
  arm_read :: "nat \<Rightarrow> 'w \<Rightarrow> u32 \<times> 'w"
  arm_write :: "nat \<Rightarrow> u32 \<Rightarrow> 'w \<Rightarrow> 'w"
  wait_ms :: "nat \<Rightarrow> 'w \<Rightarrow> 'w"
  sram_at :: "'w \<Rightarrow> nat \<Rightarrow> u32"
  sram_set :: "nat \<Rightarrow> u32 \<Rightarrow> 'w \<Rightarrow> 'w"
  uninit :: "nat \<Rightarrow> bytes"
  armCode_at :: u32

definition local_buf :: "'w starlet \<Rightarrow> nat \<Rightarrow> bytes" where
  "local_buf s n = take n (uninit s n @ replicate n 0)"

lemma length_local_buf [simp]: "length (local_buf s n) = n"
  by (simp add: local_buf_def)

section \<open>Resources\<close>

text \<open>An object of the class is its \<open>m_fd\<close>.\<close>

definition first_out :: "bytes list \<Rightarrow> bytes" where
  "first_out os = (case os of [] \<Rightarrow> [] | b # _ \<Rightarrow> b)"

definition Resource_open :: "'w starlet \<Rightarrow> string \<Rightarrow> Mode \<Rightarrow> 'w \<Rightarrow> int \<times> 'w" where
  "Resource_open s path mode w = (let ((result, _), w) = ipc s (Req_Open path mode) w in (result, w))"

definition Resource_close :: "'w starlet \<Rightarrow> int \<Rightarrow> 'w \<Rightarrow> int \<times> 'w" where
  "Resource_close s fd w = (let ((result, _), w) = ipc s (Req_Close fd) w in (result, w))"

definition Resource_destroy :: "'w starlet \<Rightarrow> int \<Rightarrow> 'w \<Rightarrow> 'w" where
  "Resource_destroy s fd w = (if fd \<ge> 0 then snd (Resource_close s fd w) else w)"

definition Resource_ok :: "int \<Rightarrow> bool" where
  "Resource_ok fd \<longleftrightarrow> fd \<ge> 0"

definition Resource_ioctl :: "'w starlet \<Rightarrow> int \<Rightarrow> nat \<Rightarrow> bytes \<Rightarrow> nat \<Rightarrow> 'w \<Rightarrow> (int \<times> bytes) \<times> 'w" where
  "Resource_ioctl s fd cmd inp outputSize w =
     (let ((result, os), w) = ipc s (Req_Ioctl fd cmd inp outputSize) w in ((result, first_out os), w))"

definition VirtualToPhysical :: "u32 \<Rightarrow> u32" where
  "VirtualToPhysical a = a AND 0x7fffffff"

definition physical_pair :: "iovec \<Rightarrow> iovec" where
  "physical_pair p = (case p of Raw a n \<Rightarrow> (if a \<noteq> 0 \<and> n \<noteq> 0 then Raw (VirtualToPhysical a) n else p) | _ \<Rightarrow> p)"

definition Resource_ioctlv :: "'w starlet \<Rightarrow> int \<Rightarrow> nat \<Rightarrow> nat \<Rightarrow> nat \<Rightarrow> iovec list \<Rightarrow> 'w \<Rightarrow> (int \<times> bytes list) \<times> 'w" where
  "Resource_ioctlv s fd cmd inputCount outputCount pairs w =
     ipc s (Req_Ioctlv fd cmd inputCount outputCount (map physical_pair (take (inputCount + outputCount) pairs))) w"

definition File_read :: "'w starlet \<Rightarrow> int \<Rightarrow> nat \<Rightarrow> 'w \<Rightarrow> (int \<times> bytes) \<times> 'w" where
  "File_read s fd outputSize w = (let ((result, os), w) = ipc s (Req_Read fd outputSize) w in ((result, first_out os), w))"

definition File_write :: "'w starlet \<Rightarrow> int \<Rightarrow> bytes \<Rightarrow> 'w \<Rightarrow> int \<times> 'w" where
  "File_write s fd inp w = (let ((result, _), w) = ipc s (Req_Write fd inp) w in (result, w))"

definition IsDolphin :: "'w starlet \<Rightarrow> 'w \<Rightarrow> bool \<times> 'w" where
  "IsDolphin s w =
     (let (dolphin, w) = Resource_open s ''/dev/dolphin'' Mode_None w
      in if Resource_ok dolphin then (True, Resource_destroy s dolphin w)
         else
           let (sha, w) = Resource_open s ''/dev/sha'' Mode_None w;
               old = \<not> Resource_ok sha
           in (old, Resource_destroy s dolphin (Resource_destroy s sha w)))"

section \<open>The main processor\<close>

record 'w cpu =
  io :: 'w
  mem :: memory

section \<open>Privileges\<close>

text \<open>The code for the security processor: its word 1 is the message, in the loader its word 2 the new key.\<close>

datatype SC = IOS_SetUid | IOS_InvalidateDCache | IOS_FlushDCache

primrec SC_number :: "SC \<Rightarrow> u32" where
  "SC_number IOS_SetUid = 0x2B"
| "SC_number IOS_InvalidateDCache = 0x3F"
| "SC_number IOS_FlushDCache = 0x40"

definition syscall :: "SC \<Rightarrow> u32" where
  "syscall n = 0xE6000010 OR push_bit 5 (SC_number n AND 0xff)"

definition armCode_loader :: "u32 list" where
  "armCode_loader =
    [0xEA000000, 0x00000000, 0x00000000, 0xE3A0000F, 0xE3A01000, syscall IOS_SetUid, 0xE3A05536, 0xE5954060,
     0xE3841008, 0xE5851060, 0xE5953064, 0xE3831EDF, 0xE381113A, 0xE5851064, 0xE24F003C, 0xE3A01001, 0xE5801000,
     0xE3A01004, syscall IOS_FlushDCache, 0xE24F0050, 0xE5902000, 0xE3520002, 0x0A000001,
     syscall IOS_InvalidateDCache, 0xEAFFFFF9, 0xE5900004, 0xE3A01024, syscall IOS_InvalidateDCache, 0xE5853064,
     0xE5854060, 0xE3A0000F, 0xE3A0100F, syscall IOS_SetUid, 0xE24F0088, 0xE3A01003, 0xE5801000, 0xE3A01004,
     syscall IOS_FlushDCache, 0xE12FFF1E]"

definition armCode_stub :: "u32 list" where
  "armCode_stub =
    [0xEA000000, 0x00000000, 0xE3A0000F, 0xE3A01000, syscall IOS_SetUid, 0xE24F0018, 0xE3A01001, 0xE5801000,
     0xE3A01004, syscall IOS_FlushDCache, 0xE24F002C, 0xE5902000, 0xE3520002, 0x0A000001,
     syscall IOS_InvalidateDCache, 0xEAFFFFF9, 0xE3A0000F, 0xE3A0100F, syscall IOS_SetUid, 0xE24F0050, 0xE3A01003,
     0xE5801000, 0xE3A01004, syscall IOS_FlushDCache, 0xE12FFF1E]"

definition armCode :: "bool \<Rightarrow> u32 list" where
  "armCode loader = (if loader then armCode_loader else armCode_stub)"

definition SafeFlush :: "'w starlet \<Rightarrow> bytes \<Rightarrow> 'w \<Rightarrow> 'w" where
  "SafeFlush s buf w = snd (File_write s (-1) buf w)"

text \<open>The loops that poll the message; \<^term>\<open>None\<close> is a loop that does not end.\<close>

partial_function (option) await_message :: "'w starlet \<Rightarrow> u32 \<Rightarrow> 'w \<Rightarrow> 'w option" where
  "await_message s v w = (case arm_read s 1 w of (m, w) \<Rightarrow> if m = v then Some w else await_message s v (wait_ms s 1 w))"

definition mem1_code :: "bool \<Rightarrow> u32 \<Rightarrow> u32 list" where
  "mem1_code again entrypoint = (if again then [0xFAFFFFFF] else []) @
     [0x4903468D, 0x49034788, 0x49036209, 0x47080000, 0x10100000, VirtualToPhysical entrypoint, 0xFFFF0014]"

definition EscalatePrivileges :: "'w starlet \<Rightarrow> bool \<Rightarrow> bool \<Rightarrow> 'w cpu \<Rightarrow> (bool \<times> 'w cpu) option" where
  "EscalatePrivileges s loader again c =
     (let (dolphin, w) = IsDolphin s (io c)
      in if dolphin then Some (True, c\<lparr>io := w\<rparr>)
         else
           let w = SafeFlush s (words32 (armCode loader)) w;
               (sha, w) = Resource_open s ''/dev/sha'' Mode_None w
           in if \<not> Resource_ok sha then Some (False, c\<lparr>io := w\<rparr>)
              else
                let m = write_words 0x80000000 (mem1_code again (armCode_at s)) (mem c);
                    pairs = [Raw 0 0, Raw 0xFFFE0028 0, Raw 0x80000000 0x40];
                    ((result, _), w) = Resource_ioctlv s sha 0 1 2 pairs w
                in if result < 0 then Some (False, c\<lparr>io := Resource_destroy s sha w, mem := m\<rparr>)
                   else do {
                     w \<leftarrow> await_message s 1 w;
                     Some (True, c\<lparr>io := Resource_destroy s sha w, mem := m\<rparr>)
                   })"

text \<open>The loader passes the address of the new key, the stub passes nothing.\<close>

definition DeescalatePrivileges :: "'w starlet \<Rightarrow> u32 option option \<Rightarrow> 'w \<Rightarrow> 'w option" where
  "DeescalatePrivileges s newKeyAddress w =
     (let (dolphin, w) = IsDolphin s w
      in if dolphin then Some w
         else
           let w = (case newKeyAddress of None \<Rightarrow> w
                    | Some key \<Rightarrow> arm_write s 2 (case key of None \<Rightarrow> 0 | Some a \<Rightarrow> a) w)
           in await_message s 3 (arm_write s 1 2 w))"

section \<open>The new common key\<close>

text \<open>The work memory of the security processor is read as the words from \<open>0xCD410000\<close> on.\<close>

fun Compare :: "u32 list \<Rightarrow> u32 list \<Rightarrow> (nat \<Rightarrow> u32) \<Rightarrow> nat \<Rightarrow> bool" where
  "Compare (m # ms) (p # ps) r i = (if r i AND m \<noteq> p then False else Compare ms ps r (i + 1))"
| "Compare _ _ r i = True"

function Find :: "u32 list \<Rightarrow> u32 list \<Rightarrow> (nat \<Rightarrow> u32) \<Rightarrow> nat \<Rightarrow> nat \<Rightarrow> nat option" where
  "Find ms ps r i stop = (if i + length ms \<le> stop then if Compare ms ps r i then Some i else Find ms ps r (i + 1) stop else None)"
  by pat_completeness auto
termination
  by (relation "measure (\<lambda>(ms, ps, r, i, stop). stop + 1 - (i + length ms))") auto

declare Find.simps [simp del]

fun Copy :: "'w starlet \<Rightarrow> u32 list \<Rightarrow> u32 list \<Rightarrow> nat \<Rightarrow> 'w \<Rightarrow> 'w" where
  "Copy s (m # ms) (p # ps) i w = Copy s ms ps (i + 1) (sram_set s i ((sram_at s w i AND NOT m) OR (p AND m)) w)"
| "Copy s _ _ i w = w"

definition full_mask :: "u32 list" where
  "full_mask = replicate 9 0xFFFFFFFF"

definition keyPattern :: "u32 list" where
  "keyPattern = [0x01EBE42A, 0x225E8593, 0xE448D9C5, 0x457381AA, 0xF7000000, 0, 0, 0, 0]"

definition newKeyPattern :: "u32 list" where
  "newKeyPattern = [0x0163B82B, 0xB4F4614E, 0x2E13F2FE, 0xFBBA4C9B, 0x7E000000, 0, 0, 0, 0]"

definition noKeyPattern :: "u32 list" where
  "noKeyPattern = [0x01000000, 0, 0, 0, 0, 0, 0, 0, 0]"

definition ImportNewCommonKey :: "'w starlet \<Rightarrow> 'w \<Rightarrow> u32 option option \<times> 'w" where
  "ImportNewCommonKey s w =
     (let (dolphin, w) = IsDolphin s w
      in if dolphin then (Some None, w)
         else
           case Find full_mask keyPattern (sram_at s w) 0 0x4000 of None \<Rightarrow> (None, w)
           | Some i \<Rightarrow>
               let start = i + 27
               in if Compare full_mask newKeyPattern (sram_at s w) start then (Some None, w)
                  else if \<not> Compare full_mask noKeyPattern (sram_at s w) start then (None, w)
                  else (Some (Some (of_nat (0xCD410000 + 4 * start) AND 0xffff0000)), Copy s full_mask newKeyPattern start w))"

section \<open>What the import writes\<close>

definition words_at :: "(nat \<Rightarrow> u32) \<Rightarrow> nat \<Rightarrow> u32 list \<Rightarrow> bool" where
  "words_at r i p \<longleftrightarrow> (\<forall>k < length p. r (i + k) = p ! k)"

lemma words_at_Cons: "words_at r i (x # p) \<longleftrightarrow> r i = x \<and> words_at r (i + 1) p"
  by (auto simp: words_at_def less_Suc_eq_0_disj)

lemma and_full_mask: "(x :: u32) AND 0xFFFFFFFF = x" "(x :: u32) AND - 4294967296 = 0"
proof -
  have one: "(0xFFFFFFFF :: u32) = - 1" and zero: "(- 4294967296 :: u32) = 0" by code_simp+
  show "x AND 0xFFFFFFFF = x" unfolding one by (rule and.right_neutral)
  show "x AND - 4294967296 = 0" unfolding zero by (rule and_zero_eq)
qed

lemma Compare_full: "length p = n \<Longrightarrow> Compare (replicate n 0xFFFFFFFF) p r i \<longleftrightarrow> words_at r i p"
proof (induction n arbitrary: p i)
  case 0
  then show ?case by (simp add: words_at_def)
next
  case (Suc n)
  then show ?case by (cases p) (simp_all add: words_at_Cons and_full_mask)
qed

lemma Find_Some: "Find ms ps r i stop = Some j \<Longrightarrow> Compare ms ps r j \<and> i \<le> j \<and> j + length ms \<le> stop"
proof (induction ms ps r i stop rule: Find.induct)
  case (1 ms ps r i stop)
  then show ?case by (cases "i + length ms \<le> stop \<and> \<not> Compare ms ps r i") (auto simp: Find.simps [of ms ps r i] split: if_splits)
qed

text \<open>The work memory behaves as a memory, and requests to the processor's devices do not change it.\<close>

definition sram_laws :: "'w starlet \<Rightarrow> bool" where
  "sram_laws s \<longleftrightarrow> (\<forall>i v w j. sram_at s (sram_set s i v w) j = (if j = i then v else sram_at s w j)) \<and>
     (\<forall>r w j. sram_at s (snd (ipc s r w)) j = sram_at s w j)"

lemma Copy_sram:
  assumes "sram_laws s"
  shows "length p = n \<Longrightarrow> sram_at s (Copy s (replicate n 0xFFFFFFFF) p i w) j =
    (if i \<le> j \<and> j < i + n then p ! (j - i) else sram_at s w j)"
proof (induction n arbitrary: p i w)
  case (Suc n)
  then obtain x q where p: "p = x # q" "length q = n" by (cases p) auto
  have "sram_at s (sram_set s i v w) j = (if j = i then v else sram_at s w j)" for v w j
    using assms by (simp add: sram_laws_def)
  then show ?case using Suc.IH [OF p(2)] p by (auto simp: and_full_mask nth_Cons' not_le)
next
  case 0
  then show ?case by auto
qed

lemma IsDolphin_sram: "sram_laws s \<Longrightarrow> sram_at s (snd (IsDolphin s w)) = sram_at s w"
  by (auto simp: IsDolphin_def Resource_open_def Resource_destroy_def Resource_close_def Let_def case_prod_beta sram_laws_def fun_eq_iff)

lemma new_key_imported:
  assumes "sram_laws s" and "ImportNewCommonKey s w = (result, w')"
  shows "case result of
      Some (Some a) \<Rightarrow> \<exists>i. words_at (sram_at s w) i keyPattern \<and> i + 9 \<le> 0x4000 \<and> words_at (sram_at s w) (i + 27) noKeyPattern \<and>
        words_at (sram_at s w') (i + 27) newKeyPattern \<and>
        (\<forall>j. j < i + 27 \<or> i + 36 \<le> j \<longrightarrow> sram_at s w' j = sram_at s w j) \<and>
        a = of_nat (0xCD410000 + 4 * (i + 27)) AND 0xffff0000
    | _ \<Rightarrow> sram_at s w' = sram_at s w"
proof -
  obtain dolphin w1 where d: "IsDolphin s w = (dolphin, w1)" by (metis surj_pair)
  have w1: "sram_at s w1 = sram_at s w" using IsDolphin_sram [OF assms(1), of w] d by simp
  have lens: "length keyPattern = 9" "length newKeyPattern = 9" "length noKeyPattern = 9"
    by (simp_all add: keyPattern_def newKeyPattern_def noKeyPattern_def)
  have full: "Compare full_mask p r i \<longleftrightarrow> words_at r i p" if "length p = 9" for p r i
    using Compare_full [OF that] by (simp add: full_mask_def)
  show ?thesis
  proof (cases "\<exists>a. result = Some (Some a)")
    case False
    then show ?thesis using assms(2) d w1
      by (auto simp: ImportNewCommonKey_def Let_def split: option.splits if_splits)
  next
    case True
    then obtain a i where i: "result = Some (Some a)" "Find full_mask keyPattern (sram_at s w) 0 0x4000 = Some i"
      "Compare full_mask noKeyPattern (sram_at s w) (i + 27)" "w' = Copy s full_mask newKeyPattern (i + 27) w1"
      "a = of_nat (0xCD410000 + 4 * (i + 27)) AND 0xffff0000"
      using assms(2) d w1 by (auto simp: ImportNewCommonKey_def Let_def split: option.splits if_splits)
    have sram: "sram_at s w' j = (if i + 27 \<le> j \<and> j < i + 27 + 9 then newKeyPattern ! (j - (i + 27)) else sram_at s w j)" for j
      using Copy_sram [OF assms(1) lens(2)] by (simp add: i(4) full_mask_def w1)
    then have "words_at (sram_at s w') (i + 27) newKeyPattern" by (simp add: words_at_def lens)
    then show ?thesis using i(1,3,5) Find_Some [OF i(2)] sram unfolding full [OF lens(1)] full [OF lens(3)]
      by (auto simp: full_mask_def intro!: exI [of _ i])
  qed
qed

definition key_starlet :: "(nat \<Rightarrow> u32) starlet" where
  "key_starlet = \<lparr>ipc = (\<lambda>r w. ((if r = Req_Open ''/dev/sha'' Mode_None then 3 else -1, []), w)), arm_read = (\<lambda>i w. (0, w)),
     arm_write = (\<lambda>i x w. w), wait_ms = (\<lambda>n w. w), sram_at = (\<lambda>w i. w i), sram_set = (\<lambda>i x w. w(i := x)),
     uninit = (\<lambda>n. []), armCode_at = 0x80b00100\<rparr>"

definition key_sram :: "nat \<Rightarrow> u32" where
  "key_sram i = (if i < 9 then keyPattern ! i else if 27 \<le> i \<and> i < 36 then noKeyPattern ! (i - 27) else 0)"

lemma new_key_imported_witness:
  "\<exists>w' i. ImportNewCommonKey key_starlet key_sram = (Some (Some 0xCD410000), w') \<and> words_at w' (i + 27) newKeyPattern"
proof -
  have lens: "length keyPattern = 9" "length newKeyPattern = 9" "length noKeyPattern = 9"
    by (simp_all add: keyPattern_def newKeyPattern_def noKeyPattern_def)
  have sram: "sram_at key_starlet w = w" for w by (simp add: key_starlet_def fun_eq_iff)
  have dolphin: "IsDolphin key_starlet w = (False, w)" for w
    by (simp add: IsDolphin_def Resource_open_def Resource_ok_def Resource_destroy_def Resource_close_def key_starlet_def)
  have pats: "words_at key_sram 0 keyPattern" "words_at key_sram 27 noKeyPattern"
    by (simp_all add: words_at_def lens key_sram_def)
  have "\<not> words_at key_sram 27 newKeyPattern"
    by (auto simp: words_at_def lens key_sram_def noKeyPattern_def newKeyPattern_def intro!: exI [of _ 0])
  then have run: "\<exists>w'. ImportNewCommonKey key_starlet key_sram = (Some (Some 0xCD410000), w')"
    using pats by (simp add: ImportNewCommonKey_def dolphin sram Find.simps full_mask_def Compare_full lens)
  have "sram_laws key_starlet" by (simp add: sram_laws_def key_starlet_def)
  from new_key_imported [OF this] run show ?thesis unfolding sram by fastforce
qed

end
