(* ===== verification/Ipc_Sync.thy ===== *)
theory Ipc_Sync
  imports Starlet
begin

text \<open>
  \<open>common/IOS.cc\<close>: the registers through which a request travels to the security processor (\<open>Init\<close>, \<open>Sync\<close>,
  \<open>ioctlvReboot\<close>).  Every access to a register is a step, and between two accesses the other processor may
  acknowledge and answer.  The registers are the record \<open>ipc_regs\<close>; what is documented of them is the predicate
  \<open>follows\<close>.
\<close>

abbreviation X1 :: u32 where "X1 \<equiv> 1"
abbreviation Y2 :: u32 where "Y2 \<equiv> 2"
abbreviation Y1 :: u32 where "Y1 \<equiv> 4"
abbreviation X2 :: u32 where "X2 \<equiv> 8"

record 'w ipc_regs =
  ppcmsg_set :: "u32 \<Rightarrow> 'w \<Rightarrow> 'w"
  ppcctrl_get :: "'w \<Rightarrow> u32 \<times> 'w"
  ppcctrl_set :: "u32 \<Rightarrow> 'w \<Rightarrow> 'w"
  armmsg_get :: "'w \<Rightarrow> u32 \<times> 'w"
  irqmask_set :: "u32 \<Rightarrow> 'w \<Rightarrow> 'w"
  wait_1ms :: "'w \<Rightarrow> 'w"

definition IOS_Init :: "'w ipc_regs \<Rightarrow> bool \<Rightarrow> 'w \<Rightarrow> 'w" where
  "IOS_Init r channel w =
     (if channel then ppcctrl_set r X2 (irqmask_set r (push_bit 30 1) w)
      else ppcctrl_set r Y1 (ppcctrl_set r Y2 w))"

text \<open>The loops of \<open>Sync\<close>; \<^term>\<open>None\<close> is a loop that does not end.\<close>

partial_function (option) await_ack :: "'w ipc_regs \<Rightarrow> 'w \<Rightarrow> 'w option" where
  "await_ack r w = (case ppcctrl_get r w of (c, w) \<Rightarrow>
     if c AND Y2 = Y2 then Some w
     else case ppcctrl_get r w of (c, w) \<Rightarrow>
       await_ack r (if c AND Y1 = Y1 then ppcctrl_set r X2 (ppcctrl_set r Y1 w) else w))"

partial_function (option) await_reply :: "'w ipc_regs \<Rightarrow> 'w \<Rightarrow> 'w option" where
  "await_reply r w = (case ppcctrl_get r w of (c, w) \<Rightarrow>
     if c AND Y1 = Y1 then Some w
     else case ppcctrl_get r w of (c, w) \<Rightarrow>
       await_reply r (wait_1ms r (if c AND Y2 = Y2 then ppcctrl_set r Y2 w else w)))"

partial_function (option) await_own :: "'w ipc_regs \<Rightarrow> u32 \<Rightarrow> 'w \<Rightarrow> 'w option" where
  "await_own r addr w = (case await_reply r w of None \<Rightarrow> None | Some w \<Rightarrow>
     (case armmsg_get r w of (reply, w) \<Rightarrow>
       (let w = ppcctrl_set r X2 (ppcctrl_set r Y1 w)
        in if reply \<noteq> addr then await_own r addr w else Some w)))"

definition Sync :: "'w ipc_regs \<Rightarrow> u32 \<Rightarrow> 'w \<Rightarrow> 'w option" where
  "Sync r addr w =
     (case await_ack r (ppcctrl_set r X1 (ppcmsg_set r addr w)) of None \<Rightarrow> None
      | Some w \<Rightarrow> await_own r addr (ppcctrl_set r Y2 w))"

text \<open>\<open>ioctlvReboot\<close> has two equal loops: \<^term>\<open>False\<close> when the request itself is answered.\<close>

partial_function (option) await_reboot :: "'w ipc_regs \<Rightarrow> u32 \<Rightarrow> 'w \<Rightarrow> (bool \<times> 'w) option" where
  "await_reboot r addr w = (case ppcctrl_get r w of (c, w) \<Rightarrow>
     if c AND Y2 = Y2 then Some (True, w)
     else case ppcctrl_get r w of (c, w) \<Rightarrow>
       if c AND Y1 = Y1 then
         case armmsg_get r w of (reply, w) \<Rightarrow>
           let w = ppcctrl_set r Y1 w in if reply = addr then Some (False, w) else await_reboot r addr w
       else await_reboot r addr w)"

definition Sync_reboot :: "'w ipc_regs \<Rightarrow> u32 \<Rightarrow> 'w \<Rightarrow> (bool \<times> 'w) option" where
  "Sync_reboot r addr w =
     (case await_reboot r addr (ppcctrl_set r X1 (ppcmsg_set r addr w)) of None \<Rightarrow> None
      | Some (False, w) \<Rightarrow> Some (False, w)
      | Some (True, w) \<Rightarrow>
          (case await_reboot r addr (ppcctrl_set r Y2 w) of None \<Rightarrow> None
           | Some (False, w) \<Rightarrow> Some (False, w)
           | Some (True, w) \<Rightarrow> Some (True, ppcctrl_set r X2 (ppcctrl_set r Y2 w))))"

section \<open>Titles and time\<close>

text \<open>
  \<open>common/ES.cc\<close>, an object of which is its descriptor, and \<open>common/Clock.cc\<close>.  The address of the request is
  the one of the static variable.
\<close>

definition ES_getTicketViewCount :: "'w starlet \<Rightarrow> int \<Rightarrow> u64 \<Rightarrow> 'w \<Rightarrow> u32 option \<times> 'w" where
  "ES_getTicketViewCount s fd titleID w =
     (let ((result, os), w) = Resource_ioctlv s fd 0x12 1 1 [In_Buf (to_be titleID), Out_Buf 4] w
      in (if result < 0 then None else read_u32 (splice (local_buf s 4) 0 (take 4 (first_out os))) 0, w))"

definition TicketView_size :: nat where
  "TicketView_size = 0xd8"

definition ES_getTicketViews :: "'w starlet \<Rightarrow> int \<Rightarrow> u64 \<Rightarrow> u32 \<Rightarrow> 'w \<Rightarrow> (bool \<times> bytes) \<times> 'w" where
  "ES_getTicketViews s fd titleID count w =
     (let ((result, os), w) = Resource_ioctlv s fd 0x13 2 1
        [In_Buf (to_be titleID), In_Buf (to_be count), Out_Buf (unat count * TicketView_size)] w
      in ((result \<ge> 0, first_out os), w))"

definition ES_launchTitle :: "'w ipc_regs \<Rightarrow> u32 \<Rightarrow> int \<Rightarrow> 'w \<Rightarrow> (bool \<times> int \<times> 'w) option" where
  "ES_launchTitle r request m_fd w = map_option (\<lambda>(result, w). (result, -1, w)) (Sync_reboot r request w)"

text \<open>\<open>mftbl\<close> reads the counter of the processor.\<close>

partial_function (option) wait_loop :: "('w \<Rightarrow> u32 \<times> 'w) \<Rightarrow> u32 \<Rightarrow> u32 \<Rightarrow> u32 \<Rightarrow> 'w \<Rightarrow> 'w option" where
  "wait_loop mftbl start duration current w =
     (if current - start < duration then case mftbl w of (current, w) \<Rightarrow> wait_loop mftbl start duration current w
      else Some w)"

definition WaitMilliseconds :: "('w \<Rightarrow> u32 \<times> 'w) \<Rightarrow> u32 \<Rightarrow> 'w \<Rightarrow> 'w option" where
  "WaitMilliseconds mftbl milliseconds w =
     (let duration = milliseconds * 60750; (start, w) = mftbl w in wait_loop mftbl start duration start w)"

text \<open>With a counter that advances by at least one and at most \<open>2 ^ 31\<close> between two readings, the wait ends.\<close>

lemma wait_loop_ends:
  assumes "\<And>w. fst (mftbl w) = now (snd (mftbl w))" and "\<And>w. \<exists>k. 0 < k \<and> k \<le> 2 ^ 31 \<and> now (snd (mftbl w)) = now w + of_nat k"
    and "duration \<le> 2 ^ 31"
  shows "current = now w \<Longrightarrow> \<exists>w'. wait_loop mftbl start duration current w = Some w' \<and> duration \<le> now w' - start"
proof (induction "2 ^ 32 - unat (current - start)" arbitrary: current w rule: less_induct)
  case less
  show ?case
  proof (cases "current - start < duration")
    case False
    then have "wait_loop mftbl start duration current w = Some w" by (simp add: wait_loop.simps [of mftbl start duration current])
    then show ?thesis using False less.prems by (auto simp: not_less)
  next
    case True
    obtain c w1 where m: "mftbl w = (c, w1)" by (metis surj_pair)
    obtain k where k: "0 < k" "k \<le> 2 ^ 31" "now w1 = now w + of_nat k" using assms(2) [of w] m by auto
    have c: "c = now w1" using assms(1) [of w] m by simp
    have "unat (current - start) < 2 ^ 31" using True assms(3) by (simp add: word_less_nat_alt word_le_nat_alt)
    moreover have "c - start = (current - start) + of_nat k" using c k(3) less.prems by (simp add: algebra_simps)
    moreover have "unat (a + of_nat k) = unat a + k" if "unat a < 2 ^ 31" for a :: u32
      using that k(2) by (simp add: unat_word_ariths unat_of_nat)
    ultimately have "unat (c - start) = unat (current - start) + k" by metis
    moreover have "unat (c - start) < 2 ^ 32" using unsigned_less [of "c - start"] by simp
    ultimately have "2 ^ 32 - unat (c - start) < 2 ^ 32 - unat (current - start)" using k(1) by linarith
    from less.hyps [OF this c] show ?thesis using True m by (simp add: wait_loop.simps [of mftbl start duration current])
  qed
qed

section \<open>The other side of the registers\<close>

text \<open>
  The processor delivers the events of a queue in order, each after a number of accesses.  An acknowledgement
  sets \<open>Y2\<close>, a reply sets \<open>Y1\<close> and \<open>armmsg\<close>; it waits until the previous one has been cleared.
\<close>

datatype arm_event = Ack | Reply u32

record arm =
  arm_y1 :: bool
  arm_y2 :: bool
  arm_msg :: u32
  arm_request :: u32
  arm_queue :: "(nat \<times> arm_event) list"
  arm_service :: "u32 \<Rightarrow> (nat \<times> arm_event) list"

fun run_queue :: "(nat \<times> arm_event) list \<Rightarrow> arm \<Rightarrow> arm" where
  "run_queue [] a = a\<lparr>arm_queue := []\<rparr>"
| "run_queue ((Suc n, e) # q) a = a\<lparr>arm_queue := (n, e) # q\<rparr>"
| "run_queue ((0, Ack) # q) a =
     (if arm_y2 a then a\<lparr>arm_queue := (0, Ack) # q\<rparr> else run_queue q (a\<lparr>arm_y2 := True\<rparr>))"
| "run_queue ((0, Reply m) # q) a =
     (if arm_y1 a then a\<lparr>arm_queue := (0, Reply m) # q\<rparr> else run_queue q (a\<lparr>arm_y1 := True, arm_msg := m\<rparr>))"

definition tick :: "arm \<Rightarrow> arm" where
  "tick a = run_queue (arm_queue a) a"

text \<open>Writing 1 to \<open>Y1\<close> or \<open>Y2\<close> clears it, \<open>X1\<close> hands the request over.\<close>

definition arm_ctrl :: "u32 \<Rightarrow> arm \<Rightarrow> arm" where
  "arm_ctrl v a =
     (let a = (if v AND Y1 = Y1 then a\<lparr>arm_y1 := False\<rparr> else a);
          a = (if v AND Y2 = Y2 then a\<lparr>arm_y2 := False\<rparr> else a)
      in if v AND X1 = X1 then a\<lparr>arm_queue := arm_queue a @ arm_service a (arm_request a)\<rparr> else a)"

definition follows :: "'w ipc_regs \<Rightarrow> ('w \<Rightarrow> arm) \<Rightarrow> bool" where
  "follows r view \<longleftrightarrow>
     (\<forall>v w. view (ppcmsg_set r v w) = (tick (view w))\<lparr>arm_request := v\<rparr>) \<and>
     (\<forall>c w w'. ppcctrl_get r w = (c, w') \<longrightarrow> view w' = tick (view w) \<and>
        (c AND Y1 = Y1) = arm_y1 (view w') \<and> (c AND Y2 = Y2) = arm_y2 (view w')) \<and>
     (\<forall>v w. view (ppcctrl_set r v w) = arm_ctrl v (tick (view w))) \<and>
     (\<forall>m w w'. armmsg_get r w = (m, w') \<longrightarrow> view w' = tick (view w) \<and> m = arm_msg (view w')) \<and>
     (\<forall>v w. view (irqmask_set r v w) = tick (view w)) \<and>
     (\<forall>w. view (wait_1ms r w) = tick (view w))"

text \<open>Replies to other requests.\<close>

fun stale :: "u32 \<Rightarrow> (nat \<times> arm_event) list \<Rightarrow> bool" where
  "stale addr [] \<longleftrightarrow> True"
| "stale addr ((n, Ack) # q) \<longleftrightarrow> False"
| "stale addr ((n, Reply m) # q) \<longleftrightarrow> m \<noteq> addr \<and> stale addr q"

definition none_own :: "u32 \<Rightarrow> arm \<Rightarrow> bool" where
  "none_own addr a \<longleftrightarrow> (arm_y1 a \<longrightarrow> arm_msg a \<noteq> addr)"

text \<open>The request is acknowledged and then answered, the answer not together with the acknowledgement.\<close>

definition unanswered :: "u32 \<Rightarrow> arm \<Rightarrow> bool" where
  "unanswered addr a \<longleftrightarrow> \<not> arm_y2 a \<and> none_own addr a \<and>
     (\<exists>pre n mid d. arm_queue a = pre @ (n, Ack) # mid @ [(d, Reply addr)] \<and> stale addr pre \<and> stale addr mid \<and>
        (mid = [] \<longrightarrow> d \<noteq> 0))"

definition in_queue :: "u32 \<Rightarrow> arm \<Rightarrow> bool" where
  "in_queue addr a \<longleftrightarrow> none_own addr a \<and> (\<exists>mid d. arm_queue a = mid @ [(d, Reply addr)] \<and> stale addr mid)"

definition arrived :: "u32 \<Rightarrow> arm \<Rightarrow> bool" where
  "arrived addr a \<longleftrightarrow> arm_queue a = [] \<and> arm_y1 a \<and> arm_msg a = addr"

fun work :: "(nat \<times> arm_event) list \<Rightarrow> nat" where
  "work [] = 0"
| "work ((n, e) # q) = Suc n + work q"

lemma work_append [simp]: "work (p @ q) = work p + work q"
  by (induction p rule: work.induct) auto

lemma stale_append [simp]: "stale addr (p @ q) \<longleftrightarrow> stale addr p \<and> stale addr q"
  by (induction addr p rule: stale.induct) auto

lemma arm_ctrl_simps [simp]:
  "arm_ctrl Y1 a = a\<lparr>arm_y1 := False\<rparr>" "arm_ctrl Y2 a = a\<lparr>arm_y2 := False\<rparr>" "arm_ctrl X2 a = a"
  "arm_ctrl X1 a = a\<lparr>arm_queue := arm_queue a @ arm_service a (arm_request a)\<rparr>"
  by (simp_all add: arm_ctrl_def)

lemma run_queue_request [simp]:
  "arm_request (run_queue q a) = arm_request a" "arm_service (run_queue q a) = arm_service a"
  by (induction q a rule: run_queue.induct) auto

lemma run_queue_y1: "arm_y1 a \<Longrightarrow> arm_y1 (run_queue q a) \<and> arm_msg (run_queue q a) = arm_msg a"
  by (induction q a rule: run_queue.induct) auto

lemma run_queue_y2: "arm_y2 a \<Longrightarrow> arm_y2 (run_queue q a)"
  by (induction q a rule: run_queue.induct) auto

lemma run_queue_in:
  assumes "stale addr mid" "none_own addr a"
  shows "(in_queue addr (run_queue (mid @ [(d, Reply addr)]) a) \<or> \<not> arm_y1 a \<and> arrived addr (run_queue (mid @ [(d, Reply addr)]) a)) \<and>
    arm_y2 (run_queue (mid @ [(d, Reply addr)]) a) = arm_y2 a"
  using assms
proof (induction mid a rule: run_queue.induct)
  case (1 a)
  then show ?case by (cases d) (auto simp: in_queue_def none_own_def arrived_def)
next
  case (2 n e q a)
  then have "stale addr ((n, e) # q)" by (cases e) auto
  then show ?case using 2 by (auto simp: in_queue_def none_own_def intro: exI [of _ "(n, e) # q"])
next
  case (4 m q a)
  then show ?case by (auto simp: none_own_def) (auto simp: in_queue_def none_own_def intro: exI [of _ "(0, Reply m) # q"])
qed simp

lemma work_run_queue: "work (arm_queue (run_queue q a)) \<le> work q"
  by (induction q a rule: run_queue.induct) auto

lemma work_tick: "work (arm_queue (tick a)) \<le> work (arm_queue a)"
  by (simp add: tick_def work_run_queue)

lemma work_tick_less:
  assumes "arm_queue a \<noteq> []" "\<not> arm_y1 a" "\<not> arm_y2 a \<or> (\<exists>n m q. arm_queue a = (n, Reply m) # q)"
  shows "work (arm_queue (tick a)) < work (arm_queue a)"
proof -
  obtain n e q where q: "arm_queue a = (n, e) # q" using assms(1) by (cases "arm_queue a") auto
  show ?thesis
    using assms(2,3) work_run_queue [of q] by (cases n; cases e) (auto simp: tick_def q le_imp_less_Suc)
qed

lemma tick_in_queue:
  assumes "in_queue addr a"
  shows "in_queue addr (tick a) \<or> \<not> arm_y1 a \<and> arrived addr (tick a)" "arm_y2 (tick a) = arm_y2 a"
  using assms run_queue_in unfolding in_queue_def [of addr a] tick_def by metis+

lemma tick_arrived: "arrived addr a \<Longrightarrow> tick a = a"
  by (simp add: arrived_def tick_def)

lemma run_queue_unanswered:
  assumes "stale addr pre" "none_own addr a" "\<not> arm_y2 a" "stale addr mid" "mid = [] \<longrightarrow> d \<noteq> 0"
  shows "unanswered addr (run_queue (pre @ (n, Ack) # mid @ [(d, Reply addr)]) a) \<or>
    in_queue addr (run_queue (pre @ (n, Ack) # mid @ [(d, Reply addr)]) a) \<and> arm_y2 (run_queue (pre @ (n, Ack) # mid @ [(d, Reply addr)]) a)"
  using assms(1-3)
proof (induction pre a rule: run_queue.induct)
  case (1 a)
  show ?case
  proof (cases n)
    case (Suc k)
    then show ?thesis using 1 assms(4,5)
      by (auto simp: unanswered_def none_own_def intro!: exI [of _ "[]"])
  next
    case 0
    let ?b = "a\<lparr>arm_y2 := True\<rparr>"
    have own: "none_own addr ?b" using 1 by (simp add: none_own_def)
    have "in_queue addr (run_queue (mid @ [(d, Reply addr)]) ?b)"
    proof (cases mid)
      case Nil
      then show ?thesis using assms(5) own by (cases d) (auto simp: in_queue_def none_own_def)
    next
      case (Cons x mid')
      show ?thesis
      proof (cases "\<exists>m. x = (0, Reply m)")
        case True
        then obtain m where x: "x = (0, Reply m)" by blast
        with Cons assms(4) have m: "m \<noteq> addr" "stale addr mid'" by auto
        then have "none_own addr (?b\<lparr>arm_y1 := True, arm_msg := m\<rparr>)" by (simp add: none_own_def)
        from run_queue_in [OF m(2) this, of d] show ?thesis using own m Cons x
          by (auto simp: in_queue_def none_own_def intro: exI [of _ "(0, Reply m) # mid'"])
      next
        case False
        then obtain k e where x: "x = (Suc k, e)" using Cons assms(4) by (cases x; cases "fst x"; cases "snd x") auto
        then have "stale addr ((k, e) # mid')" using assms(4) Cons by (cases e) auto
        then show ?thesis using own Cons x by (auto simp: in_queue_def none_own_def intro: exI [of _ "(k, e) # mid'"])
      qed
    qed
    then show ?thesis using 0 1 by (simp add: run_queue_y2)
  qed
next
  case (2 k e q a)
  then have "stale addr ((k, e) # q)" by (cases e) auto
  then show ?case using 2 assms(4,5)
    by (auto simp: unanswered_def none_own_def intro!: exI [of _ "(k, e) # q"])
next
  case (4 m q a)
  show ?case
  proof (cases "arm_y1 a")
    case True
    then show ?thesis using 4 assms(4,5)
      by (auto simp: unanswered_def none_own_def intro!: exI [of _ "(0, Reply m) # q"])
  next
    case False
    then show ?thesis using 4 by (simp add: none_own_def)
  qed
qed simp

lemma tick_unanswered:
  assumes "unanswered addr a"
  shows "unanswered addr (tick a) \<or> in_queue addr (tick a) \<and> arm_y2 (tick a)"
proof -
  from assms obtain pre n mid d where q: "arm_queue a = pre @ (n, Ack) # mid @ [(d, Reply addr)]"
    and "stale addr pre" "none_own addr a" "\<not> arm_y2 a" "stale addr mid" "mid = [] \<longrightarrow> d \<noteq> 0"
    unfolding unanswered_def by blast
  from run_queue_unanswered [OF this(2-6), of n] show ?thesis unfolding tick_def q .
qed

section \<open>Every request is answered\<close>

definition coming :: "u32 \<Rightarrow> arm \<Rightarrow> bool" where
  "coming addr a \<longleftrightarrow> in_queue addr a \<or> arrived addr a"

lemma tick_coming: "coming addr a \<Longrightarrow> coming addr (tick a) \<and> arm_y2 (tick a) = arm_y2 a"
  using tick_in_queue tick_arrived unfolding coming_def by metis

lemma tick_in_queue_y1: "in_queue addr a \<Longrightarrow> arm_y1 a \<Longrightarrow> in_queue addr (tick a) \<and> arm_y1 (tick a)"
  using tick_in_queue(1) run_queue_y1 unfolding tick_def by blast

lemma clear_y1:
  "in_queue addr a \<Longrightarrow> in_queue addr (a\<lparr>arm_y1 := False\<rparr>)"
  "unanswered addr a \<Longrightarrow> unanswered addr (a\<lparr>arm_y1 := False\<rparr>)"
  by (auto simp: in_queue_def unanswered_def none_own_def)

lemma clear_y2: "coming addr a \<Longrightarrow> coming addr (a\<lparr>arm_y2 := False\<rparr>)"
  by (auto simp: coming_def in_queue_def arrived_def none_own_def)

lemma in_queue_head:
  assumes "in_queue addr a"
  shows "arm_queue a \<noteq> []" "\<exists>n m q. arm_queue a = (n, Reply m) # q"
proof -
  obtain mid d where q: "arm_queue a = mid @ [(d, Reply addr)]" "stale addr mid" using assms by (auto simp: in_queue_def)
  then show "arm_queue a \<noteq> []" by simp
  show "\<exists>n m q. arm_queue a = (n, Reply m) # q" using q by (cases "(addr, mid)" rule: stale.cases) auto
qed

lemma followsD:
  assumes "follows r view"
  shows "view (ppcmsg_set r v w) = (tick (view w))\<lparr>arm_request := v\<rparr>"
    and "ppcctrl_get r w = (c, w') \<Longrightarrow> view w' = tick (view w)"
    and "ppcctrl_get r w = (c, w') \<Longrightarrow> (c AND Y1 = Y1) = arm_y1 (view w')"
    and "ppcctrl_get r w = (c, w') \<Longrightarrow> (c AND Y2 = Y2) = arm_y2 (view w')"
    and "view (ppcctrl_set r v w) = arm_ctrl v (tick (view w))"
    and "armmsg_get r w = (m, w') \<Longrightarrow> view w' = tick (view w)"
    and "armmsg_get r w = (m, w') \<Longrightarrow> m = arm_msg (view w')"
    and "view (wait_1ms r w) = tick (view w)"
  using assms unfolding follows_def by blast+

lemma await_ack_acked:
  assumes "follows r view" "coming addr (view w)" "arm_y2 (view w)"
  shows "\<exists>w'. await_ack r w = Some w' \<and> coming addr (view w') \<and> arm_y2 (view w')"
proof -
  obtain c w1 where g: "ppcctrl_get r w = (c, w1)" by (metis surj_pair)
  note f = followsD [OF assms(1)]
  show ?thesis using tick_coming [OF assms(2)] assms(3) f(2,4) [OF g] by (simp add: await_ack.simps g)
qed

lemma await_ack_unanswered:
  assumes "follows r view" "unanswered addr (view w)"
  shows "\<exists>w'. await_ack r w = Some w' \<and> coming addr (view w') \<and> arm_y2 (view w')"
  using assms(2)
proof (induction "work (arm_queue (view w))" arbitrary: w rule: less_induct)
  case less
  note f = followsD [OF assms(1)]
  obtain c1 w1 where g1: "ppcctrl_get r w = (c1, w1)" by (metis surj_pair)
  obtain c2 w2 where g2: "ppcctrl_get r w1 = (c2, w2)" by (metis surj_pair)
  let ?w4 = "ppcctrl_set r X2 (ppcctrl_set r Y1 w2)"
  let ?w' = "if arm_y1 (view w2) then ?w4 else w2"
  have w4: "view ?w4 = tick ((tick (view w2))\<lparr>arm_y1 := False\<rparr>)" by (simp add: f(5))
  show ?case
  proof (cases "arm_y2 (view w1)")
    case True
    then have "coming addr (view w1)" using tick_unanswered [OF less.prems] f(2) [OF g1] by (auto simp: unanswered_def coming_def)
    then show ?thesis using True f(4) [OF g1] by (simp add: await_ack.simps g1)
  next
    case False
    then have u1: "unanswered addr (view w1)" using tick_unanswered [OF less.prems] f(2) [OF g1] by auto
    have step: "await_ack r w = await_ack r ?w'"
      using False f(4) [OF g1] f(3) [OF g2] by (simp add: await_ack.simps [of r w] g1 g2)
    have u2: "unanswered addr (view w2) \<or> in_queue addr (view w2) \<and> arm_y2 (view w2)"
      using tick_unanswered [OF u1] f(2) [OF g2] by simp
    have nonempty: "arm_queue a \<noteq> []" if "unanswered addr a" for a using that by (auto simp: unanswered_def)
    have le: "work (arm_queue (view w2)) \<le> work (arm_queue (view w1))" "work (arm_queue (view w1)) \<le> work (arm_queue (view w))"
      using work_tick f(2) [OF g1] f(2) [OF g2] by auto
    have "unanswered addr (view ?w') \<and> work (arm_queue (view ?w')) < work (arm_queue (view w)) \<or>
        coming addr (view ?w') \<and> arm_y2 (view ?w')"
    proof (cases "arm_y1 (view w2)")
      case True
      let ?a = "tick (view w2)"
      let ?b = "?a\<lparr>arm_y1 := False\<rparr>"
      have b: "unanswered addr ?b \<or> in_queue addr ?b \<and> arm_y2 ?b"
        using u2 tick_unanswered tick_in_queue_y1 [OF _ True] tick_in_queue(2) clear_y1 by fastforce
      then have "unanswered addr (tick ?b) \<or> coming addr (tick ?b) \<and> arm_y2 (tick ?b)"
        using tick_unanswered tick_coming by (metis coming_def)
      moreover have "work (arm_queue (tick ?b)) < work (arm_queue (view w))" if "unanswered addr (tick ?b)"
      proof -
        have "unanswered addr ?b" using b that run_queue_y2 [of ?b] by (auto simp: unanswered_def tick_def)
        then have "work (arm_queue (tick ?b)) < work (arm_queue ?b)"
          using work_tick_less [of ?b] nonempty by (auto simp: unanswered_def)
        also have "\<dots> \<le> work (arm_queue (view w2))" using work_tick by simp
        finally show ?thesis using le by simp
      qed
      ultimately show ?thesis using True w4 by auto
    next
      case False
      have "\<not> arm_y1 (view w1)" using False run_queue_y1 f(2) [OF g2] unfolding tick_def by metis
      then have "work (arm_queue (view w2)) < work (arm_queue (view w1))"
        using work_tick_less nonempty [OF u1] u1 f(2) [OF g2] by (simp add: unanswered_def)
      then show ?thesis using False u2 le by (auto simp: coming_def)
    qed
    then show ?thesis unfolding step using less.hyps await_ack_acked [OF assms(1)] by blast
  qed
qed

lemma await_reply_returns:
  assumes "follows r view" "coming addr (view w)" "\<not> arm_y2 (view w)"
  shows "\<exists>w'. await_reply r w = Some w' \<and> coming addr (view w') \<and> arm_y1 (view w') \<and> \<not> arm_y2 (view w') \<and>
    work (arm_queue (view w')) \<le> work (arm_queue (view w))"
  using assms(2,3)
proof (induction "work (arm_queue (view w))" arbitrary: w rule: less_induct)
  case less
  note f = followsD [OF assms(1)]
  obtain c1 w1 where g1: "ppcctrl_get r w = (c1, w1)" by (metis surj_pair)
  obtain c2 w2 where g2: "ppcctrl_get r w1 = (c2, w2)" by (metis surj_pair)
  have c1: "coming addr (view w1)" "\<not> arm_y2 (view w1)" using tick_coming [OF less.prems(1)] less.prems(2) f(2) [OF g1] by auto
  have c2: "coming addr (view w2)" "\<not> arm_y2 (view w2)" using tick_coming [OF c1(1)] c1(2) f(2) [OF g2] by auto
  have c3: "coming addr (view (wait_1ms r w2))" "\<not> arm_y2 (view (wait_1ms r w2))"
    using tick_coming [OF c2(1)] c2(2) by (auto simp: f(8))
  have le: "work (arm_queue (view w1)) \<le> work (arm_queue (view w))" using work_tick f(2) [OF g1] by simp
  show ?case
  proof (cases "arm_y1 (view w1)")
    case True
    then show ?thesis using c1 f(3) [OF g1] le by (simp add: await_reply.simps g1)
  next
    case False
    then have q: "in_queue addr (view w1)" using c1(1) by (auto simp: coming_def arrived_def)
    have "work (arm_queue (view (wait_1ms r w2))) \<le> work (arm_queue (view w2))" using work_tick by (simp add: f(8))
    also have "\<dots> < work (arm_queue (view w1))"
      using work_tick_less False c1(2) in_queue_head [OF q] f(2) [OF g2] by simp
    finally have lt: "work (arm_queue (view (wait_1ms r w2))) < work (arm_queue (view w))" using le by simp
    have "await_reply r w = await_reply r (wait_1ms r w2)"
      using False f(3) [OF g1] f(4) [OF g2] c2(2) by (simp add: await_reply.simps [of r w] g1 g2)
    with less.hyps [OF lt c3] lt show ?thesis by (metis le_trans less_imp_le)
  qed
qed

definition quiet :: "arm \<Rightarrow> bool" where
  "quiet a \<longleftrightarrow> \<not> arm_y1 a \<and> \<not> arm_y2 a \<and> arm_queue a = []"

lemma await_own_returns:
  assumes "follows r view" "coming addr (view w)" "\<not> arm_y2 (view w)"
  shows "\<exists>w'. await_own r addr w = Some w' \<and> quiet (view w')"
  using assms(2,3)
proof (induction "work (arm_queue (view w))" arbitrary: w rule: less_induct)
  case less
  note f = followsD [OF assms(1)]
  obtain w1 where w1: "await_reply r w = Some w1" "coming addr (view w1)" "arm_y1 (view w1)" "\<not> arm_y2 (view w1)"
    "work (arm_queue (view w1)) \<le> work (arm_queue (view w))"
    using await_reply_returns [OF assms(1) less.prems] by blast
  obtain m w2 where g: "armmsg_get r w1 = (m, w2)" by (metis surj_pair)
  let ?a = "tick (view w2)"
  let ?w3 = "ppcctrl_set r X2 (ppcctrl_set r Y1 w2)"
  have w3: "view ?w3 = tick (?a\<lparr>arm_y1 := False\<rparr>)" by (simp add: f(5))
  show ?case
  proof (cases "arrived addr (view w1)")
    case True
    then have "view w2 = view w1" "m = addr" using tick_arrived f(6,7) [OF g] by (auto simp: arrived_def)
    then show ?thesis using True w1(1,4) g w3 tick_arrived [OF True]
      by (simp add: await_own.simps Let_def quiet_def tick_def arrived_def)
  next
    case False
    then have q: "in_queue addr (view w1)" using w1(2) by (simp add: coming_def)
    then have q2: "in_queue addr (view w2)" "arm_y1 (view w2)" using tick_in_queue_y1 [OF q w1(3)] f(6) [OF g] by auto
    then have m: "m \<noteq> addr" using f(7) [OF g] by (auto simp: in_queue_def none_own_def)
    have a: "in_queue addr (?a\<lparr>arm_y1 := False\<rparr>)" using tick_in_queue_y1 [OF q2] clear_y1 by blast
    have y2: "\<not> arm_y2 ?a" using w1(4) tick_in_queue(2) q q2 f(6) [OF g] by metis
    have "work (arm_queue (view ?w3)) < work (arm_queue ?a)" unfolding w3
      using work_tick_less [of "?a\<lparr>arm_y1 := False\<rparr>"] in_queue_head [OF a] y2 by simp
    also have "\<dots> \<le> work (arm_queue (view w))" using work_tick w1(5) f(6) [OF g] by (metis le_trans)
    finally have lt: "work (arm_queue (view ?w3)) < work (arm_queue (view w))" .
    have "coming addr (view ?w3)" "\<not> arm_y2 (view ?w3)" unfolding w3
      using tick_coming a y2 by (auto simp: coming_def tick_in_queue(2))
    from less.hyps [OF lt this] show ?thesis using w1(1) g m by (simp add: await_own.simps [of r addr w] Let_def)
  qed
qed

lemma run_queue_stale:
  assumes "stale addr q" "none_own addr a"
  shows "stale addr (arm_queue (run_queue q a)) \<and> none_own addr (run_queue q a) \<and> arm_y2 (run_queue q a) = arm_y2 a"
  using assms
proof (induction q a rule: run_queue.induct)
  case (2 n e q a)
  then show ?case by (cases e) (auto simp: none_own_def)
qed (auto simp: none_own_def)

lemma tick_stale:
  "stale addr (arm_queue a) \<Longrightarrow> none_own addr a \<Longrightarrow>
    stale addr (arm_queue (tick a)) \<and> none_own addr (tick a) \<and> arm_y2 (tick a) = arm_y2 a \<and> arm_service (tick a) = arm_service a"
  using run_queue_stale unfolding tick_def by simp

lemma submitted:
  assumes "follows r view" "none_own addr (view w)" "stale addr (arm_queue (view w))" "\<not> arm_y2 (view w)"
  shows "\<exists>q. stale addr q \<and> none_own addr (view (ppcctrl_set r X1 (ppcmsg_set r addr w))) \<and>
    \<not> arm_y2 (view (ppcctrl_set r X1 (ppcmsg_set r addr w))) \<and>
    arm_queue (view (ppcctrl_set r X1 (ppcmsg_set r addr w))) = q @ arm_service (view w) addr"
proof -
  note f = followsD [OF assms(1)]
  let ?b = "(tick (view w))\<lparr>arm_request := addr\<rparr>"
  have b: "stale addr (arm_queue ?b)" "none_own addr ?b" "arm_service ?b = arm_service (view w)" "\<not> arm_y2 ?b"
    using tick_stale [OF assms(3,2)] assms(4) by (auto simp: none_own_def)
  have "arm_request (tick ?b) = addr" by (simp add: tick_def)
  then show ?thesis using tick_stale [OF b(1,2)] b(3,4)
    by (auto simp: f(1,5) none_own_def intro!: exI [of _ "arm_queue (tick ?b)"])
qed

lemma submitted_unanswered:
  assumes "follows r view" "\<not> arm_y2 (view w)" "none_own addr (view w)" "stale addr (arm_queue (view w))"
    and "arm_service (view w) addr = pre @ (n, Ack) # mid @ [(d, Reply addr)]"
    and "stale addr pre" "stale addr mid" "mid = [] \<longrightarrow> d \<noteq> 0"
  shows "unanswered addr (view (ppcctrl_set r X1 (ppcmsg_set r addr w)))"
proof -
  obtain q where "stale addr q" "none_own addr (view (ppcctrl_set r X1 (ppcmsg_set r addr w)))"
    "\<not> arm_y2 (view (ppcctrl_set r X1 (ppcmsg_set r addr w)))"
    "arm_queue (view (ppcctrl_set r X1 (ppcmsg_set r addr w))) = q @ arm_service (view w) addr"
    using submitted [OF assms(1,3,4,2)] by blast
  then show ?thesis using assms(5-8) unfolding unanswered_def by (auto intro!: exI [of _ "q @ pre"])
qed

text \<open>C40: A request to the security processor is answered and leaves the registers as the next one needs them.  From
  registers in which no acknowledgement waits, whatever replies to other requests are still on their way, and
  whatever number of accesses lies between the events, \<open>Sync\<close> returns when the request is acknowledged and
  then answered, unless both fall between the same two accesses; then all replies have been taken, and neither
  an acknowledgement nor a reply is left.\<close>

text \<open>C11: Sync returns. If the processor acknowledges a request and sends its reply later, with any
  number of replies to other addresses before, between and any delays, except that the reply comes
  at the same moment as the acknowledgement, then Sync ends and leaves the registers ready for the
  next request.\<close>

theorem Sync_gets_reply:
  assumes "follows r view" "\<not> arm_y2 (view w)" "none_own addr (view w)" "stale addr (arm_queue (view w))"
    and "arm_service (view w) addr = pre @ (n, Ack) # mid @ [(d, Reply addr)]"
    and "stale addr pre" "stale addr mid" "mid = [] \<longrightarrow> d \<noteq> 0"
  shows "\<exists>w'. Sync r addr w = Some w' \<and> quiet (view w')"
proof -
  let ?w1 = "ppcctrl_set r X1 (ppcmsg_set r addr w)"
  note f = followsD [OF assms(1)]
  have "unanswered addr (view ?w1)" using submitted_unanswered [OF assms] .
  from await_ack_unanswered [OF assms(1) this]
  obtain w2 where w2: "await_ack r ?w1 = Some w2" "coming addr (view w2)" "arm_y2 (view w2)" by blast
  have "coming addr (view (ppcctrl_set r Y2 w2))" "\<not> arm_y2 (view (ppcctrl_set r Y2 w2))"
    using tick_coming [OF w2(2)] by (auto simp: f(5) clear_y2)
  from await_own_returns [OF assms(1) this] show ?thesis by (simp add: Sync_def w2(1))
qed

text \<open>The registers by themselves.\<close>

definition arm_regs :: "arm ipc_regs" where
  "arm_regs = \<lparr>ppcmsg_set = (\<lambda>v a. (tick a)\<lparr>arm_request := v\<rparr>),
     ppcctrl_get = (\<lambda>a. ((if arm_y1 (tick a) then Y1 else 0) OR (if arm_y2 (tick a) then Y2 else 0), tick a)),
     ppcctrl_set = (\<lambda>v a. arm_ctrl v (tick a)), armmsg_get = (\<lambda>a. (arm_msg (tick a), tick a)),
     irqmask_set = (\<lambda>v a. tick a), wait_1ms = tick\<rparr>"

lemma follows_arm_regs: "follows arm_regs (\<lambda>a. a)"
  unfolding follows_def arm_regs_def by auto

definition answering :: "(nat \<times> arm_event) list \<Rightarrow> arm" where
  "answering q = \<lparr>arm_y1 = False, arm_y2 = False, arm_msg = 0, arm_request = 0, arm_queue = [], arm_service = (\<lambda>_. q)\<rparr>"

theorem Sync_gets_reply_witness:
  "\<exists>a. Sync arm_regs 0x00b3ff80 (answering [(2, Reply 0x00b40000), (5, Ack), (3, Reply 0x00b3ff80)]) = Some a \<and> quiet a"
  by (rule Sync_gets_reply [where view = "\<lambda>a. a" and pre = "[(2, Reply 0x00b40000)]" and n = 5 and mid = "[]" and d = 3])
    (simp_all add: follows_arm_regs answering_def none_own_def)

section \<open>The answer that is lost\<close>

text \<open>
  While it waits for the acknowledgement, \<open>Sync\<close> drops every reply without reading it.  When the
  acknowledgement and the answer both come after it has read the register without an acknowledgement and before
  it reads it again, it drops its own answer and waits forever.
\<close>

lemma await_reply_never:
  assumes "follows r view" "arm_queue (view w) = []" "\<not> arm_y1 (view w)"
  shows "await_reply r w = None"
proof -
  have "follows r view \<longrightarrow> arm_queue (view w) = [] \<longrightarrow> arm_y1 (view w)" if "await_reply r w = Some w'" for w'
  proof (rule await_reply.raw_induct [where P = "\<lambda>r w w'. follows r view \<longrightarrow> arm_queue (view w) = [] \<longrightarrow> arm_y1 (view w)", OF _ that])
    fix g r w w'
    assume IH: "\<And>r w w'. g r w = Some w' \<Longrightarrow> follows r view \<longrightarrow> arm_queue (view w) = [] \<longrightarrow> arm_y1 (view w)"
      and run: "(case ppcctrl_get r w of (c, w) \<Rightarrow> if c AND Y1 = Y1 then Some w else case ppcctrl_get r w of (c, w) \<Rightarrow>
        g r (wait_1ms r (if c AND Y2 = Y2 then ppcctrl_set r Y2 w else w))) = Some w'"
    show "follows r view \<longrightarrow> arm_queue (view w) = [] \<longrightarrow> arm_y1 (view w)"
    proof (intro impI, rule ccontr)
      assume r: "follows r view" and q: "arm_queue (view w) = []" "\<not> arm_y1 (view w)"
      note f = followsD [OF r]
      obtain c1 w1 where g1: "ppcctrl_get r w = (c1, w1)" by (metis surj_pair)
      obtain c2 w2 where g2: "ppcctrl_get r w1 = (c2, w2)" by (metis surj_pair)
      have still: "tick a = a" if "arm_queue a = []" for a using that by (simp add: tick_def)
      let ?w3 = "wait_1ms r (if c2 AND Y2 = Y2 then ppcctrl_set r Y2 w2 else w2)"
      have v: "view w1 = view w" "view w2 = view w" using still q f(2) [OF g1] f(2) [OF g2] by auto
      then have "g r ?w3 = Some w'" using run q f(3) [OF g1] by (simp add: g1 g2)
      moreover have "arm_queue (view ?w3) = []" "\<not> arm_y1 (view ?w3)" using q v still by (auto simp: f(5,8))
      ultimately show False using IH r by blast
    qed
  qed
  then show ?thesis using assms by fastforce
qed

lemma Sync_loses_reply: "Sync arm_regs addr (answering [(1, Ack), (0, Reply addr)]) = None"
proof -
  let ?a = "(answering [(1, Ack), (0, Reply addr)])\<lparr>arm_request := addr, arm_msg := addr, arm_y2 := True\<rparr>"
  have "await_ack arm_regs (ppcctrl_set arm_regs X1 (ppcmsg_set arm_regs addr (answering [(1, Ack), (0, Reply addr)]))) = Some ?a"
    by (subst await_ack.simps, subst await_ack.simps) (simp add: arm_regs_def tick_def answering_def)
  moreover have "await_reply arm_regs (ppcctrl_set arm_regs Y2 ?a) = None"
    by (rule await_reply_never [OF follows_arm_regs]) (simp_all add: arm_regs_def tick_def answering_def)
  ultimately show ?thesis by (simp add: Sync_def await_own.simps)
qed

lemma IOS_Init_quiet:
  assumes "follows r view" "arm_queue (view w) = []"
  shows "quiet (view (IOS_Init r False w))"
  using assms(2) by (simp add: IOS_Init_def followsD(5) [OF assms(1)] tick_def quiet_def)

section \<open>Requests that reboot the processor\<close>

text \<open>A request that is answered makes \<open>ioctlvReboot\<close> return \<^term>\<open>False\<close>; this loop reads the replies it takes.\<close>

lemma await_reboot_acked:
  assumes "follows r view" "arm_y2 (view w)"
  shows "\<exists>w'. await_reboot r addr w = Some (True, w') \<and> view w' = tick (view w)"
proof -
  obtain c w1 where g: "ppcctrl_get r w = (c, w1)" by (metis surj_pair)
  note f = followsD [OF assms(1)]
  show ?thesis using f(2,4) [OF g] run_queue_y2 [OF assms(2)] by (simp add: await_reboot.simps g tick_def)
qed

definition reboot_work :: "arm \<Rightarrow> nat" where
  "reboot_work a = 2 * work (arm_queue a) + (if arm_y1 a then 1 else 0)"

lemma await_reboot_step:
  assumes "follows r view" "\<not> arm_y2 (tick (view w))"
    and "\<not> arm_y1 (view w) \<Longrightarrow> work (arm_queue (tick (view w))) < work (arm_queue (view w))"
  shows "(\<exists>w'. await_reboot r addr w = await_reboot r addr w' \<and> reboot_work (view w') < reboot_work (view w) \<and>
      (view w' = tick (tick (view w)) \<and> \<not> arm_y1 (view w') \<or>
       arm_msg (tick (tick (tick (view w)))) \<noteq> addr \<and> arm_y1 (tick (tick (view w))) \<and>
       view w' = (tick (tick (tick (tick (view w)))))\<lparr>arm_y1 := False\<rparr>)) \<or>
    arm_y1 (tick (tick (view w))) \<and> arm_msg (tick (tick (tick (view w)))) = addr \<and> (\<exists>w'. await_reboot r addr w = Some (False, w'))"
proof -
  note f = followsD [OF assms(1)]
  obtain c1 w1 where g1: "ppcctrl_get r w = (c1, w1)" by (metis surj_pair)
  obtain c2 w2 where g2: "ppcctrl_get r w1 = (c2, w2)" by (metis surj_pair)
  obtain m w3 where g3: "armmsg_get r w2 = (m, w3)" by (metis surj_pair)
  let ?w4 = "ppcctrl_set r Y1 w3"
  have v1: "view w1 = tick (view w)" and v2: "view w2 = tick (tick (view w))" and v3: "view w3 = tick (tick (tick (view w)))"
    using f(2) [OF g1] f(2) [OF g2] f(6) [OF g3] by simp_all
  have v4: "view ?w4 = (tick (view w3))\<lparr>arm_y1 := False\<rparr>" by (simp add: f(5))
  have le: "work (arm_queue (view w2)) \<le> work (arm_queue (view w1))" "work (arm_queue (view w1)) \<le> work (arm_queue (view w))"
    "work (arm_queue (view ?w4)) \<le> work (arm_queue (view w2))"
    using le_trans [OF work_tick work_tick, of "view w2"] by (simp_all add: v1 v2 v3 v4 work_tick)
  have n2: "c1 AND Y2 \<noteq> Y2" using f(4) [OF g1] v1 assms(2) by simp
  show ?thesis
  proof (cases "arm_y1 (view w2)")
    case y1: True
    have less: "reboot_work (view ?w4) < reboot_work (view w)"
      using assms(3) le v1 unfolding reboot_work_def by (auto simp: v4)
    show ?thesis
    proof (cases "m = addr")
      case True
      have "await_reboot r addr w = Some (False, ?w4)"
        using True y1 n2 f(3) [OF g2] by (simp add: await_reboot.simps [of r addr w] g1 g2 g3 Let_def)
      then show ?thesis using y1 True f(7) [OF g3] v2 v3 by simp
    next
      case False
      have "await_reboot r addr w = await_reboot r addr ?w4"
        using False y1 n2 f(3) [OF g2] by (simp add: await_reboot.simps [of r addr w] g1 g2 g3 Let_def)
      then show ?thesis using less y1 False f(7) [OF g3] v2 v3 v4 by (intro disjI1 exI [of _ ?w4]) simp
    qed
  next
    case n1: False
    have "\<not> arm_y1 (view w)" using n1 run_queue_y1 unfolding v2 tick_def by metis
    then have "reboot_work (view w2) < reboot_work (view w)" using assms(3) le n1 v1 by (simp add: reboot_work_def)
    moreover have "await_reboot r addr w = await_reboot r addr w2"
      using n1 n2 f(3) [OF g2] by (simp add: await_reboot.simps [of r addr w] g1 g2)
    ultimately show ?thesis using n1 v2 by (intro disjI1 exI [of _ w2]) simp
  qed
qed

lemma await_reboot_arrives:
  assumes "follows r view" "coming addr (view w)" "\<not> arm_y2 (view w)"
  shows "\<exists>w'. await_reboot r addr w = Some (False, w')"
  using assms(2,3)
proof (induction "reboot_work (view w)" arbitrary: w rule: less_induct)
  case less
  let ?t = "\<lambda>a. coming addr a \<and> \<not> arm_y2 a"
  have t: "?t (tick a)" if "?t a" for a using that tick_coming by metis
  have c: "?t (view w)" using less.prems by simp
  have dec: "work (arm_queue (tick (view w))) < work (arm_queue (view w))" if "\<not> arm_y1 (view w)"
    using work_tick_less in_queue_head that c by (auto simp: coming_def arrived_def)
  have cleared: "?t (a\<lparr>arm_y1 := False\<rparr>)" if "?t a" "arm_y1 a" "arm_msg a \<noteq> addr" for a
    using that clear_y1(1) by (auto simp: coming_def arrived_def)
  from await_reboot_step [OF assms(1) _ dec, of addr] t [OF c]
  consider (answered) "\<exists>w'. await_reboot r addr w = Some (False, w')"
    | (again) w' where "await_reboot r addr w = await_reboot r addr w'" "reboot_work (view w') < reboot_work (view w)"
      "view w' = tick (tick (view w)) \<or> arm_msg (tick (tick (tick (view w)))) \<noteq> addr \<and> arm_y1 (tick (tick (view w))) \<and>
        view w' = (tick (tick (tick (tick (view w)))))\<lparr>arm_y1 := False\<rparr>" by blast
  then show ?case
  proof cases
    case again
    have "?t (view w')" using again(3)
    proof
      assume "view w' = tick (tick (view w))"
      then show ?thesis using t c by simp
    next
      let ?b = "tick (tick (tick (view w)))"
      assume b: "arm_msg ?b \<noteq> addr \<and> arm_y1 (tick (tick (view w))) \<and> view w' = (tick ?b)\<lparr>arm_y1 := False\<rparr>"
      then have y: "arm_y1 ?b" using run_queue_y1 by (metis tick_def)
      then have "arm_y1 (tick ?b)" "arm_msg (tick ?b) \<noteq> addr" using b run_queue_y1 [OF y] by (auto simp: tick_def [of ?b])
      then show ?thesis using b cleared [of "tick ?b"] t c by simp
    qed
    then show ?thesis using less.hyps again(1,2) by simp
  qed simp
qed

text \<open>Acknowledgements that are still to be taken: none is lost, and replies to other requests do not count.\<close>

fun acks :: "(nat \<times> arm_event) list \<Rightarrow> nat" where
  "acks [] = 0"
| "acks ((n, Ack) # q) = Suc (acks q)"
| "acks ((n, Reply m) # q) = acks q"

fun foreign :: "u32 \<Rightarrow> (nat \<times> arm_event) list \<Rightarrow> bool" where
  "foreign addr [] \<longleftrightarrow> True"
| "foreign addr ((n, e) # q) \<longleftrightarrow> e \<noteq> Reply addr \<and> foreign addr q"

definition owed :: "arm \<Rightarrow> nat" where
  "owed a = acks (arm_queue a) + (if arm_y2 a then 1 else 0)"

lemma acks_Suc: "acks ((Suc n, e) # q) = acks ((n, e) # q)"
  by (cases e) auto

lemma run_queue_owed: "acks (arm_queue (run_queue q a)) + (if arm_y2 (run_queue q a) then 1 else 0) = acks q + (if arm_y2 a then 1 else 0)"
  by (induction q a rule: run_queue.induct) (auto simp: acks_Suc)

lemma tick_owed [simp]: "owed (tick a) = owed a"
  by (simp add: owed_def tick_def run_queue_owed)

lemma run_queue_foreign:
  "foreign addr q \<Longrightarrow> none_own addr a \<Longrightarrow> foreign addr (arm_queue (run_queue q a)) \<and> none_own addr (run_queue q a)"
  by (induction q a rule: run_queue.induct) (auto simp: none_own_def)

lemma tick_foreign:
  "foreign addr (arm_queue a) \<and> none_own addr a \<Longrightarrow> foreign addr (arm_queue (tick a)) \<and> none_own addr (tick a)"
  using run_queue_foreign by (simp add: tick_def)

lemma await_reboot_acks:
  assumes "follows r view" "foreign addr (arm_queue (view w)) \<and> none_own addr (view w)" "owed (view w) = Suc k"
  shows "\<exists>w'. await_reboot r addr w = Some (True, w') \<and> foreign addr (arm_queue (view w')) \<and> none_own addr (view w') \<and>
    owed (view w') = Suc k \<and> arm_y2 (view w')"
  using assms(2,3)
proof (induction "reboot_work (view w)" arbitrary: w rule: less_induct)
  case less
  let ?t = "\<lambda>a. (foreign addr (arm_queue a) \<and> none_own addr a) \<and> owed a = Suc k"
  have t: "?t (tick a)" if "?t a" for a using that tick_foreign by auto
  have c: "?t (view w)" using less.prems by simp
  show ?case
  proof (cases "arm_y2 (tick (view w))")
    case True
    obtain c1 w1 where g: "ppcctrl_get r w = (c1, w1)" by (metis surj_pair)
    note f = followsD [OF assms(1)]
    show ?thesis using True f(2,4) [OF g] t [OF c] by (simp add: await_reboot.simps g)
  next
    case False
    then have n: "\<not> arm_y2 (view w)" using run_queue_y2 unfolding tick_def by blast
    then have "arm_queue (view w) \<noteq> []" using c by (auto simp: owed_def)
    then have dec: "work (arm_queue (tick (view w))) < work (arm_queue (view w))" if "\<not> arm_y1 (view w)"
      using work_tick_less n that by blast
    have "arm_msg (tick (tick (tick (view w)))) \<noteq> addr" if "arm_y1 (tick (tick (view w)))"
      using t [OF t [OF t [OF c]]] run_queue_y1 that by (metis none_own_def tick_def)
    with await_reboot_step [OF assms(1) False dec, of addr]
    obtain w' where w': "await_reboot r addr w = await_reboot r addr w'" "reboot_work (view w') < reboot_work (view w)"
      "view w' = tick (tick (view w)) \<or> view w' = (tick (tick (tick (tick (view w)))))\<lparr>arm_y1 := False\<rparr>" by blast
    note c2 = t [OF t [OF c]]
    have "?t (view w')" using w'(3) c2 t [OF t [OF c2]] by (elim disjE) (simp_all add: none_own_def owed_def)
    then show ?thesis using less.hyps [OF w'(2)] w'(1) by simp
  qed
qed

lemma await_reboot_unanswered:
  assumes "follows r view" "unanswered addr (view w)"
  shows "(\<exists>w'. await_reboot r addr w = Some (False, w')) \<or>
    (\<exists>w'. await_reboot r addr w = Some (True, w') \<and> coming addr (view w') \<and> arm_y2 (view w'))"
  using assms(2)
proof (induction "reboot_work (view w)" arbitrary: w rule: less_induct)
  case less
  let ?t = "\<lambda>a. unanswered addr a \<or> coming addr a \<and> arm_y2 a"
  have t: "?t (tick a)" if "?t a" for a using that tick_coming tick_unanswered by (metis coming_def)
  have c1: "?t (tick (view w))" using t less.prems by blast
  note c4 = t [OF t [OF t [OF c1]]]
  have taken: "\<exists>w'. await_reboot r addr w = Some (True, w') \<and> coming addr (view w') \<and> arm_y2 (view w')"
    if "arm_y2 (tick (view w))" "?t (tick (view w))" for w
  proof -
    obtain c w1 where g: "ppcctrl_get r w = (c, w1)" by (metis surj_pair)
    note f = followsD [OF assms(1)]
    show ?thesis using that f(2,4) [OF g] by (auto simp: await_reboot.simps g unanswered_def)
  qed
  show ?case
  proof (cases "arm_y2 (tick (view w))")
    case True
    then show ?thesis using taken c1 by blast
  next
    case False
    have dec: "work (arm_queue (tick (view w))) < work (arm_queue (view w))" if "\<not> arm_y1 (view w)"
      using work_tick_less [of "view w"] that less.prems by (auto simp: unanswered_def)
    from await_reboot_step [OF assms(1) False dec, of addr]
    consider (answered) "\<exists>w'. await_reboot r addr w = Some (False, w')"
      | (again) w' where "await_reboot r addr w = await_reboot r addr w'" "reboot_work (view w') < reboot_work (view w)"
        "view w' = tick (tick (view w)) \<or> arm_msg (tick (tick (tick (view w)))) \<noteq> addr \<and> arm_y1 (tick (tick (view w))) \<and>
          view w' = (tick (tick (tick (tick (view w)))))\<lparr>arm_y1 := False\<rparr>" by blast
    then show ?thesis
    proof cases
      case again
      have "?t (view w')" using again(3)
      proof
        assume "view w' = tick (tick (view w))"
        then show ?thesis using t [OF c1] by simp
      next
        let ?b = "tick (tick (tick (view w)))"
        assume b: "arm_msg ?b \<noteq> addr \<and> arm_y1 (tick (tick (view w))) \<and> view w' = (tick ?b)\<lparr>arm_y1 := False\<rparr>"
        then have y: "arm_y1 ?b" using run_queue_y1 by (metis tick_def)
        then have "arm_y1 (tick ?b)" "arm_msg (tick ?b) \<noteq> addr" using b run_queue_y1 [OF y] by (auto simp: tick_def [of ?b])
        then show ?thesis using b c4 clear_y1 by (auto simp: coming_def arrived_def)
      qed
      then show ?thesis
      proof
        assume "unanswered addr (view w')"
        then show ?thesis using less.hyps [OF again(2)] again(1) by simp
      next
        assume b: "coming addr (view w') \<and> arm_y2 (view w')"
        then have "arm_y2 (tick (view w'))" "?t (tick (view w'))" using tick_coming by auto
        then show ?thesis using taken again(1) by simp
      qed
    qed simp
  qed
qed

text \<open>The two outcomes of a request that may reboot the processor.\<close>

lemma Sync_reboot_acked:
  assumes "follows r view" "\<not> arm_y2 (view w)" "none_own addr (view w)" "stale addr (arm_queue (view w))"
    and "foreign addr (arm_service (view w) addr)" "acks (arm_service (view w) addr) = 2"
  shows "\<exists>w'. Sync_reboot r addr w = Some (True, w') \<and> \<not> arm_y2 (view w')"
proof -
  let ?w1 = "ppcctrl_set r X1 (ppcmsg_set r addr w)"
  note f = followsD [OF assms(1)]
  obtain q where q: "stale addr q" "none_own addr (view ?w1)" "\<not> arm_y2 (view ?w1)"
    "arm_queue (view ?w1) = q @ arm_service (view w) addr"
    using submitted [OF assms(1,3,4,2)] by blast
  have stale: "foreign addr (q @ p) = foreign addr p \<and> acks (q @ p) = acks p" if "stale addr q" for q p
    using that by (induction addr q rule: stale.induct) auto
  have "owed (view ?w1) = Suc 1" "foreign addr (arm_queue (view ?w1)) \<and> none_own addr (view ?w1)"
    using q stale [OF q(1)] assms(5,6) by (simp_all add: owed_def)
  from await_reboot_acks [OF assms(1) this(2,1)]
  obtain w2 where w2: "await_reboot r addr ?w1 = Some (True, w2)" "foreign addr (arm_queue (view w2)) \<and> none_own addr (view w2)"
    "owed (view w2) = Suc 1" "arm_y2 (view w2)" by blast
  let ?w3 = "ppcctrl_set r Y2 w2"
  have y: "arm_y2 (tick (view w2))" using run_queue_y2 [OF w2(4)] by (simp add: tick_def)
  have "owed (tick (view w2)) = Suc 1" using w2(3) by simp
  then have "owed (view ?w3) = Suc 0" using y by (simp add: f(5) owed_def)
  moreover have "foreign addr (arm_queue (view ?w3)) \<and> none_own addr (view ?w3)"
    using tick_foreign [OF w2(2)] by (simp add: f(5) none_own_def)
  ultimately obtain w4 where w4: "await_reboot r addr ?w3 = Some (True, w4)" "owed (view w4) = Suc 0" "arm_y2 (view w4)"
    using await_reboot_acks [OF assms(1)] by blast
  have "acks (arm_queue (tick (view w4))) = 0"
    using w4(2) tick_owed [of "view w4"] run_queue_y2 [OF w4(3)] unfolding owed_def tick_def [symmetric] by (simp add: tick_def)
  then have "owed (tick ((tick (view w4))\<lparr>arm_y2 := False\<rparr>)) = 0" unfolding tick_owed by (simp add: owed_def)
  then show ?thesis using w2(1) w4(1) by (auto simp: Sync_reboot_def f(5) owed_def split: if_splits)
qed

lemma Sync_reboot_answered:
  assumes "follows r view" "\<not> arm_y2 (view w)" "none_own addr (view w)" "stale addr (arm_queue (view w))"
    and "arm_service (view w) addr = pre @ (n, Ack) # mid @ [(d, Reply addr)]"
    and "stale addr pre" "stale addr mid" "mid = [] \<longrightarrow> d \<noteq> 0"
  shows "\<exists>w'. Sync_reboot r addr w = Some (False, w')"
proof -
  let ?w1 = "ppcctrl_set r X1 (ppcmsg_set r addr w)"
  note f = followsD [OF assms(1)]
  have "unanswered addr (view ?w1)" using submitted_unanswered [OF assms] .
  from await_reboot_unanswered [OF assms(1) this] show ?thesis
  proof
    assume "\<exists>w2. await_reboot r addr ?w1 = Some (True, w2) \<and> coming addr (view w2) \<and> arm_y2 (view w2)"
    then obtain w2 where w2: "await_reboot r addr ?w1 = Some (True, w2)" "coming addr (view w2)" by blast
    have "coming addr (view (ppcctrl_set r Y2 w2))" "\<not> arm_y2 (view (ppcctrl_set r Y2 w2))"
      using tick_coming [OF w2(2)] by (auto simp: f(5) clear_y2)
    from await_reboot_arrives [OF assms(1) this] show ?thesis using w2(1) by (auto simp: Sync_reboot_def)
  qed (auto simp: Sync_reboot_def)
qed

end
