(* ===== verification/Settings_Page.thy ===== *)
theory Settings_Page
  imports Prelude
begin

text \<open>
  \<open>payload/game/ui/page/SettingsPage.cc\<close> and \<open>payload/sp/settings/Settings.hh\<close>: the page that shows the
  settings on sheets of six.  The table of settings is an argument, so that what is shown of the sheets holds
  for any table; \<open>settings\<close> is the one of the program.  Controls and texts of the game are what they have last
  been told, calls that move the selection or leave the page are a log.
\<close>

section \<open>Settings\<close>

datatype Category = Online

primrec category_number :: "Category \<Rightarrow> nat" where
  "category_number Online = 0"

record setting_entry =
  se_category :: nat
  se_name :: string
  se_messageId :: int
  se_valueOffset :: u32
  se_defaultValue :: u32
  se_valueCount :: u32
  se_valueNames :: "string list option"
  se_valueMessageIds :: "int list"
  se_valueExplanationMessageIds :: "int list"
  se_hidden :: bool
  se_selectedValue :: u32

definition categoryMessageIds :: "int list" where
  "categoryMessageIds = [10002]"

definition settings :: "setting_entry list" where
  "settings = [\<lparr>se_category = category_number Online, se_name = ''Ping'', se_messageId = 10003, se_valueOffset = 0,
     se_defaultValue = 0, se_valueCount = 2, se_valueNames = Some [''Disabled'', ''Enabled''],
     se_valueMessageIds = [10004, 10005], se_valueExplanationMessageIds = [10006, 10007], se_hidden = False,
     se_selectedValue = 0\<rparr>]"

definition setSetting :: "nat \<Rightarrow> u32 \<Rightarrow> setting_entry list \<Rightarrow> setting_entry list option" where
  "setSetting setting opt ss = do { e \<leftarrow> rd ss setting; wr ss setting (e\<lparr>se_selectedValue := opt\<rparr>) }"

definition getSetting :: "nat \<Rightarrow> setting_entry list \<Rightarrow> u32 option" where
  "getSetting i ss = map_option se_selectedValue (rd ss i)"

section \<open>The page\<close>

text \<open>A message with its numbers and messages to fill in.\<close>

record message =
  msg_id :: int
  msg_intVals :: "u32 list"
  msg_messageIds :: "int list"

abbreviation plain :: "int \<Rightarrow> message" where
  "plain i \<equiv> \<lparr>msg_id = i, msg_intVals = [], msg_messageIds = []\<rparr>"

record setting_control =
  sc_id :: u32
  sc_message :: message
  sc_count :: u32
  sc_chosen :: u32
  sc_visible :: bool
  sc_playerFlags :: u32
  sc_shownText :: message
  sc_hiddenText :: message

datatype page_call =
    Select_Category nat
  | Select_Default_Category nat
  | Select_Setting nat nat
  | Call_Handler bool
  | Replace_Prev nat

record settings_page =
  sp_settings :: "setting_entry list"
  sp_instruction :: message
  sp_categoryText :: message
  sp_controls :: "setting_control list"
  sp_handler :: bool
  sp_calls :: "page_call list"

record CategoryInfo =
  categoryIndex :: nat
  categorySheetIndex :: nat
  categorySheetCount :: nat
  settingIndex :: nat

definition controlCount :: nat where
  "controlCount = 6"

text \<open>The number of settings of a category that have values.\<close>

fun settingCount :: "nat \<Rightarrow> setting_entry list \<Rightarrow> nat \<Rightarrow> nat" where
  "settingCount c [] n = n"
| "settingCount c (e # es) n =
     (if se_category e \<noteq> c then settingCount c es n
      else if se_valueCount e = 0 then settingCount c es n
      else settingCount c es (n + 1))"

definition getSheetCount :: "nat \<Rightarrow> setting_entry list \<Rightarrow> nat" where
  "getSheetCount categories ss =
     fold (\<lambda>c sheetCount. sheetCount + (settingCount c ss 0 + controlCount - 1) div controlCount) [0..<categories] 0"

text \<open>The inner loop of \<open>getCategoryInfo\<close>: the counts of sheets and of settings and the info.\<close>

fun info_settings :: "nat \<Rightarrow> nat \<Rightarrow> nat \<Rightarrow> setting_entry list \<Rightarrow> nat \<Rightarrow> nat \<Rightarrow> CategoryInfo \<Rightarrow> nat \<times> nat \<times> CategoryInfo" where
  "info_settings sheetIndex c i [] sheets n info = (sheets, n, info)"
| "info_settings sheetIndex c i (e # es) sheets n info =
     (if se_category e \<noteq> c then info_settings sheetIndex c (i + 1) es sheets n info
      else if se_valueCount e = 0 then info_settings sheetIndex c (i + 1) es sheets n info
      else if n mod controlCount = 0 then
        info_settings sheetIndex c (i + 1) es (sheets + 1) (n + 1)
          (if sheets = sheetIndex then info\<lparr>categorySheetIndex := n div controlCount, settingIndex := i\<rparr> else info)
      else info_settings sheetIndex c (i + 1) es sheets (n + 1) info)"

fun info_categories :: "nat \<Rightarrow> setting_entry list \<Rightarrow> nat list \<Rightarrow> nat \<Rightarrow> CategoryInfo \<Rightarrow> CategoryInfo" where
  "info_categories sheetIndex ss [] sheets info = info"
| "info_categories sheetIndex ss (c # cs) sheets info =
     (case info_settings sheetIndex c 0 ss sheets 0 info of (sheets, n, info) \<Rightarrow>
        if sheets > sheetIndex then info\<lparr>categorySheetCount := (n + controlCount - 1) div controlCount\<rparr>
        else info_categories sheetIndex ss cs sheets (info\<lparr>categoryIndex := c + 1\<rparr>))"

definition getCategoryInfo :: "nat \<Rightarrow> setting_entry list \<Rightarrow> nat \<Rightarrow> CategoryInfo" where
  "getCategoryInfo categories ss sheetIndex = info_categories sheetIndex ss [0..<categories] 0
     \<lparr>categoryIndex = 0, categorySheetIndex = 0, categorySheetCount = 0, settingIndex = 0\<rparr>"

definition show_setting :: "nat \<Rightarrow> nat \<Rightarrow> setting_entry \<Rightarrow> settings_page \<Rightarrow> settings_page option" where
  "show_setting j i e p = do {
     ctrl \<leftarrow> rd (sp_controls p) i;
     let chosen = se_selectedValue e - se_valueOffset e;
     let ctrl = ctrl\<lparr>sc_id := push_bit 16 (of_nat j) OR of_nat i, sc_message := plain (se_messageId e),
       sc_count := se_valueCount e, sc_chosen := chosen, sc_visible := True, sc_playerFlags := 1\<rparr>;
     text \<leftarrow> (if se_valueNames e \<noteq> None then map_option plain (rd (se_valueMessageIds e) (unat chosen))
             else map_option (\<lambda>m. (plain m)\<lparr>msg_intVals := [chosen + se_valueOffset e]\<rparr>) (rd (se_valueMessageIds e) 0));
     controls \<leftarrow> wr (sp_controls p) i (ctrl\<lparr>sc_shownText := text, sc_hiddenText := text\<rparr>);
     Some (p\<lparr>sp_controls := controls\<rparr>) }"

fun show_settings :: "nat \<Rightarrow> nat \<Rightarrow> setting_entry list \<Rightarrow> nat \<Rightarrow> settings_page \<Rightarrow> (nat \<times> settings_page) option" where
  "show_settings c j [] i p = Some (i, p)"
| "show_settings c j (e # es) i p =
     (if i < controlCount then
        if se_category e \<noteq> c then show_settings c (j + 1) es i p
        else if se_valueCount e = 0 then show_settings c (j + 1) es i p
        else do { p \<leftarrow> show_setting j i e p; show_settings c (j + 1) es (i + 1) p }
      else Some (i, p))"

text \<open>The controls from \<open>i\<close> on are hidden.\<close>

definition hide_controls :: "nat \<Rightarrow> settings_page \<Rightarrow> settings_page" where
  "hide_controls i p =
     p\<lparr>sp_controls := take i (sp_controls p) @ map (\<lambda>c. c\<lparr>sc_visible := False, sc_playerFlags := 0\<rparr>) (drop i (sp_controls p))\<rparr>"

definition onCategoryValueChange :: "int list \<Rightarrow> nat \<Rightarrow> settings_page \<Rightarrow> settings_page option" where
  "onCategoryValueChange categories index p = do {
     let info = getCategoryInfo (length categories) (sp_settings p) index;
     m \<leftarrow> rd categories (categoryIndex info);
     let p = p\<lparr>sp_categoryText :=
       (if categorySheetCount info \<ge> 2
        then \<lparr>msg_id = 10182, msg_intVals = [of_nat (categorySheetIndex info) + 1, of_nat (categorySheetCount info)], msg_messageIds = [m]\<rparr>
        else plain m)\<rparr>;
     (i, p) \<leftarrow> show_settings (categoryIndex info) (settingIndex info) (drop (settingIndex info) (sp_settings p)) 0 p;
     Some (hide_controls i p) }"

definition call_page :: "page_call \<Rightarrow> settings_page \<Rightarrow> settings_page" where
  "call_page c p = p\<lparr>sp_calls := sp_calls p @ [c]\<rparr>"

definition SettingsPage_onActivate :: "settings_page \<Rightarrow> settings_page" where
  "SettingsPage_onActivate p = call_page (Select_Default_Category 0) (p\<lparr>sp_instruction := plain 0\<rparr>)"

definition SettingsPage_onBack :: "settings_page \<Rightarrow> settings_page" where
  "SettingsPage_onBack p = call_page (Replace_Prev 0) (if sp_handler p then call_page (Call_Handler False) p else p)"

definition onCategoryControlFront :: "nat \<Rightarrow> settings_page \<Rightarrow> settings_page" where
  "onCategoryControlFront localPlayerId = call_page (Select_Setting 0 localPlayerId)"

definition onCategoryControlSelect :: "settings_page \<Rightarrow> settings_page" where
  "onCategoryControlSelect p = p\<lparr>sp_instruction := plain 0\<rparr>"

definition control_setting :: "setting_control \<Rightarrow> nat" where
  "control_setting c = unat (drop_bit 16 (sc_id c))"

definition control_index :: "setting_control \<Rightarrow> nat" where
  "control_index c = unat (sc_id c AND 0xffff)"

definition onSettingControlChange :: "setting_control \<Rightarrow> u32 \<Rightarrow> settings_page \<Rightarrow> settings_page option" where
  "onSettingControlChange control index p = do {
     ctrl \<leftarrow> rd (sp_controls p) (control_index control);
     e \<leftarrow> rd (sp_settings p) (control_setting control);
     (text, explanation, index) \<leftarrow>
       (if se_valueNames e \<noteq> None then do {
          t \<leftarrow> rd (se_valueMessageIds e) (unat index);
          x \<leftarrow> rd (se_valueExplanationMessageIds e) (unat index);
          Some (plain t, plain x, index) }
        else do {
          t \<leftarrow> rd (se_valueMessageIds e) 0;
          x \<leftarrow> rd (se_valueExplanationMessageIds e) 0;
          let index = index + se_valueOffset e;
          Some ((plain t)\<lparr>msg_intVals := [index]\<rparr>, (plain x)\<lparr>msg_intVals := [index]\<rparr>, index) });
     controls \<leftarrow> wr (sp_controls p) (control_index control) (ctrl\<lparr>sc_shownText := text\<rparr>);
     ss \<leftarrow> setSetting (control_setting control) index (sp_settings p);
     Some (p\<lparr>sp_controls := controls, sp_instruction := explanation, sp_settings := ss\<rparr>) }"

definition onSettingControlFront :: "setting_control \<Rightarrow> nat \<Rightarrow> settings_page \<Rightarrow> settings_page option" where
  "onSettingControlFront control localPlayerId p =
     (let index = control_index control
      in if index + 1 = controlCount then Some (call_page (Select_Category localPlayerId) p)
         else do {
           below \<leftarrow> rd (sp_controls p) (index + 1);
           Some (call_page (if \<not> sc_visible below then Select_Category localPlayerId else Select_Setting (index + 1) localPlayerId) p) })"

definition onSettingControlSelect :: "setting_control \<Rightarrow> settings_page \<Rightarrow> settings_page option" where
  "onSettingControlSelect control p = do {
     e \<leftarrow> rd (sp_settings p) (control_setting control);
     explanation \<leftarrow>
       (if se_valueNames e \<noteq> None then map_option plain (rd (se_valueExplanationMessageIds e) (unat (sc_chosen control)))
        else map_option (\<lambda>m. (plain m)\<lparr>msg_intVals := [sc_chosen control + se_valueOffset e]\<rparr>) (rd (se_valueExplanationMessageIds e) 0));
     Some (p\<lparr>sp_instruction := explanation\<rparr>) }"

definition onBackButtonFront :: "nat \<Rightarrow> settings_page \<Rightarrow> settings_page" where
  "onBackButtonFront delay p = call_page (Replace_Prev delay) (if sp_handler p then call_page (Call_Handler True) p else p)"

text \<open>The pages that are settings pages: one in a window above another page, one in the menu.\<close>

definition settings_configure :: "bool \<Rightarrow> settings_page \<Rightarrow> settings_page" where
  "settings_configure handler p = p\<lparr>sp_handler := handler\<rparr>"

record settings_popup =
  pp_page :: settings_page
  pp_anim :: nat
  pp_popRequested :: bool

definition Popup_onInit :: "settings_popup \<Rightarrow> settings_popup" where
  "Popup_onInit p = p\<lparr>pp_popRequested := False\<rparr>"

definition Popup_pop :: "nat \<Rightarrow> settings_popup \<Rightarrow> settings_popup" where
  "Popup_pop anim p = p\<lparr>pp_anim := anim, pp_popRequested := True\<rparr>"

text \<open>\<open>state4\<close>: the page is in \<open>State4\<close>, in which it can be left.\<close>

definition Popup_beforeCalc :: "bool \<Rightarrow> settings_popup \<Rightarrow> settings_popup" where
  "Popup_beforeCalc state4 p =
     (if state4 \<and> pp_popRequested p
      then p\<lparr>pp_page := call_page (Replace_Prev 0) (pp_page p), pp_popRequested := False\<rparr> else p)"

text \<open>The replacement is the number of a page; \<open>none\<close> is \<open>PageId::None\<close>.\<close>

record menu_settings =
  ms_page :: settings_page
  ms_replacement :: nat

definition Menu_onInit :: "nat \<Rightarrow> menu_settings \<Rightarrow> menu_settings" where
  "Menu_onInit none p = p\<lparr>ms_replacement := none\<rparr>"

definition Menu_configure :: "bool \<Rightarrow> nat \<Rightarrow> menu_settings \<Rightarrow> menu_settings" where
  "Menu_configure handler replacement p = p\<lparr>ms_page := settings_configure handler (ms_page p), ms_replacement := replacement\<rparr>"

lemma Popup_leaves_once: "Popup_beforeCalc s (Popup_beforeCalc True p) = Popup_beforeCalc True p"
  by (simp add: Popup_beforeCalc_def)

section \<open>What the sheets show\<close>

definition has_values :: "nat \<Rightarrow> setting_entry \<Rightarrow> bool" where
  "has_values c e \<longleftrightarrow> se_category e = c \<and> se_valueCount e \<noteq> 0"

text \<open>The settings of a category in the order of the table, from index \<open>i\<close> on.\<close>

fun of_category :: "nat \<Rightarrow> nat \<Rightarrow> setting_entry list \<Rightarrow> nat list" where
  "of_category c i [] = []"
| "of_category c i (e # es) = (if has_values c e then i # of_category c (i + 1) es else of_category c (i + 1) es)"

definition sheets_of :: "nat \<Rightarrow> nat" where
  "sheets_of n = (n + controlCount - 1) div controlCount"

lemma settingCount_length: "settingCount c es n = n + length (of_category c i es)"
proof (induction es arbitrary: n i)
  case (Cons e es)
  then show ?case by (simp add: has_values_def Cons [of _ "i + 1"])
qed simp

lemma of_category_filter: "of_category c i es = filter (\<lambda>j. has_values c (es ! (j - i))) [i..<i + length es]"
proof (induction es arbitrary: i)
  case (Cons e es)
  have "filter (\<lambda>j. has_values c ((e # es) ! (j - i))) [Suc i..<Suc i + length es] =
    filter (\<lambda>j. has_values c (es ! (j - Suc i))) [Suc i..<Suc i + length es]"
    by (rule filter_cong) (auto simp: nth_Cons')
  moreover have "[i..<i + length (e # es)] = i # [Suc i..<Suc i + length es]" by (simp add: upt_conv_Cons del: upt_Suc)
  ultimately show ?case using Cons.IH [of "Suc i"] by (simp del: upt_Suc)
qed simp

lemma getSheetCount_sum: "getSheetCount k ss = (\<Sum>c\<leftarrow>[0..<k]. sheets_of (length (of_category c 0 ss)))"
proof -
  have "fold (\<lambda>c n. n + (settingCount c ss 0 + controlCount - 1) div controlCount) cs m =
    m + (\<Sum>c\<leftarrow>cs. sheets_of (length (of_category c 0 ss)))" for cs m
    by (induction cs arbitrary: m) (simp_all add: sheets_of_def settingCount_length [of _ _ _ 0])
  then show ?thesis by (simp add: getSheetCount_def)
qed

lemma sheets_of_Suc: "sheets_of (Suc n) = n div controlCount + 1"
  by (simp add: sheets_of_def controlCount_def)

lemma sheets_of_full: "n mod controlCount = 0 \<Longrightarrow> sheets_of n = n div controlCount"
  by (auto simp: sheets_of_def controlCount_def dvd_def mod_eq_0_iff_dvd)

lemma sheets_of_part: "n mod controlCount \<noteq> 0 \<Longrightarrow> sheets_of n = n div controlCount + 1"
proof (cases n)
  case (Suc m)
  moreover assume "n mod controlCount \<noteq> 0"
  ultimately show ?thesis by (simp add: sheets_of_Suc div_Suc)
qed (simp add: controlCount_def)

text \<open>The inner loop sees only the settings of its category; the start of sheet \<open>t\<close> is at position \<open>6 t\<close>.\<close>

fun info_steps :: "nat \<Rightarrow> nat list \<Rightarrow> nat \<Rightarrow> nat \<Rightarrow> CategoryInfo \<Rightarrow> nat \<times> nat \<times> CategoryInfo" where
  "info_steps s [] sheets n info = (sheets, n, info)"
| "info_steps s (j # js) sheets n info =
     (if n mod controlCount = 0 then
        info_steps s js (sheets + 1) (n + 1)
          (if sheets = s then info\<lparr>categorySheetIndex := n div controlCount, settingIndex := j\<rparr> else info)
      else info_steps s js sheets (n + 1) info)"

lemma info_settings_steps: "info_settings s c i es sheets n info = info_steps s (of_category c i es) sheets n info"
  by (induction es arbitrary: i sheets n info) (auto simp: has_values_def)

lemma info_steps_append:
  "info_steps s (is @ js) sheets n info = (case info_steps s is sheets n info of (sheets, n, info) \<Rightarrow> info_steps s js sheets n info)"
  by (induction "is" arbitrary: sheets n info) auto

lemma info_steps_found:
  "info_steps s js s0 0 info = (s0 + sheets_of (length js), length js,
     if s0 \<le> s \<and> s < s0 + sheets_of (length js)
     then info\<lparr>categorySheetIndex := s - s0, settingIndex := js ! (controlCount * (s - s0))\<rparr> else info)"
proof (induction js rule: rev_induct)
  case Nil
  show ?case by (simp add: sheets_of_def controlCount_def)
next
  case (snoc j js)
  let ?n = "length js"
  show ?case
  proof (cases "?n mod controlCount = 0")
    case True
    have start: "controlCount * (?n div controlCount) = ?n" using True by (auto simp: mod_eq_0_iff_dvd)
    have before: "controlCount * (s - s0) < ?n" if "s < s0 + ?n div controlCount" "s0 \<le> s"
    proof -
      have "s - s0 < ?n div controlCount" using that by arith
      then have "controlCount * (s - s0) < controlCount * (?n div controlCount)" by (simp add: controlCount_def)
      then show ?thesis unfolding start .
    qed
    show ?thesis using True start before
      by (auto simp: info_steps_append snoc sheets_of_Suc sheets_of_full nth_append not_less)
  next
    case False
    have before: "controlCount * (s - s0) < ?n" if "s < s0 + sheets_of ?n" "s0 \<le> s"
    proof -
      have "s - s0 \<le> ?n div controlCount" using that sheets_of_part [OF False] by linarith
      then have "controlCount * (s - s0) \<le> controlCount * (?n div controlCount)" by (rule mult_le_mono2)
      moreover have "controlCount * (?n div controlCount) < ?n" using False mult_div_mod_eq [of controlCount ?n] by linarith
      ultimately show ?thesis by (rule le_less_trans)
    qed
    show ?thesis using False before by (auto simp: info_steps_append snoc sheets_of_Suc sheets_of_part nth_append)
  qed
qed

text \<open>The sheets of all categories: the category and the number within it.\<close>

definition all_sheets :: "setting_entry list \<Rightarrow> nat list \<Rightarrow> (nat \<times> nat) list" where
  "all_sheets ss cs = concat (map (\<lambda>c. map (Pair c) [0..<sheets_of (length (of_category c 0 ss))]) cs)"

lemma length_all_sheets: "length (all_sheets ss [0..<k]) = getSheetCount k ss"
  by (simp add: all_sheets_def length_concat getSheetCount_sum comp_def)

lemma info_categories_sheet:
  assumes "s0 \<le> s" "s - s0 < length (all_sheets ss cs)" "cs = [k..<m]" "categoryIndex info = k"
  shows "\<exists>c t. all_sheets ss cs ! (s - s0) = (c, t) \<and> t < sheets_of (length (of_category c 0 ss)) \<and>
    info_categories s ss cs s0 info = info\<lparr>categoryIndex := c, categorySheetIndex := t,
      categorySheetCount := sheets_of (length (of_category c 0 ss)), settingIndex := of_category c 0 ss ! (controlCount * t)\<rparr>"
  using assms
proof (induction cs arbitrary: s0 info k)
  case Nil
  then show ?case by (simp add: all_sheets_def)
next
  case (Cons c cs)
  let ?L = "of_category c 0 ss"
  let ?n = "sheets_of (length ?L)"
  have k: "c = k" "cs = [Suc k..<m]" using Cons.prems(3) [symmetric] by (auto simp: upt_eq_Cons_conv)
  have all: "all_sheets ss (c # cs) = map (Pair c) [0..<?n] @ all_sheets ss cs" by (simp add: all_sheets_def)
  show ?case
  proof (cases "s < s0 + ?n")
    case True
    then have "s - s0 < ?n" using Cons.prems(1) by simp
    then show ?thesis using Cons.prems(1,4) k(1) unfolding all
      by (simp add: nth_append info_settings_steps info_steps_found) (simp add: sheets_of_def)
  next
    case False
    have "\<exists>d t. all_sheets ss cs ! (s - (s0 + ?n)) = (d, t) \<and> t < sheets_of (length (of_category d 0 ss)) \<and>
      info_categories s ss cs (s0 + ?n) (info\<lparr>categoryIndex := Suc k\<rparr>) =
        (info\<lparr>categoryIndex := Suc k\<rparr>)\<lparr>categoryIndex := d, categorySheetIndex := t,
        categorySheetCount := sheets_of (length (of_category d 0 ss)), settingIndex := of_category d 0 ss ! (controlCount * t)\<rparr>"
      by (rule Cons.IH [of _ "Suc k"]) (use False Cons.prems(1,2) k all in \<open>auto\<close>)
    moreover have "\<not> s - s0 < ?n" using False Cons.prems(1) by linarith
    ultimately show ?thesis using False k unfolding all
      by (simp add: nth_append info_settings_steps info_steps_found)
  qed
qed

section \<open>What a sheet shows\<close>

lemma of_category_drop:
  "k < length (of_category c i es) \<Longrightarrow> i \<le> of_category c i es ! k \<and> of_category c i es ! k - i < length es \<and>
    of_category c (of_category c i es ! k) (drop (of_category c i es ! k - i) es) = drop k (of_category c i es)"
proof (induction es arbitrary: i k)
  case (Cons e es)
  show ?case
  proof (cases "has_values c e \<and> k = 0")
    case False
    let ?k = "if has_values c e then k - 1 else k"
    have eq: "of_category c i (e # es) ! k = of_category c (Suc i) es ! ?k" "drop k (of_category c i (e # es)) = drop ?k (of_category c (Suc i) es)"
      using False by (auto simp: nth_Cons' drop_Cons')
    have "?k < length (of_category c (Suc i) es)" using Cons.prems False by (auto split: if_splits)
    from Cons.IH [OF this] show ?thesis unfolding eq by (auto simp: drop_Cons' simp del: of_category.simps)
  qed simp
qed simp

lemma chunks: "concat (map (\<lambda>t. take n (drop (n * t) xs)) [0..<m]) = take (n * m) xs"
  by (induction m) (simp_all add: take_add add.commute [of n])

lemma sheets_of_enough: "n \<le> controlCount * sheets_of n"
proof (cases "n mod controlCount = 0")
  case True
  then show ?thesis by (auto simp: sheets_of_full mod_eq_0_iff_dvd)
next
  case False
  then show ?thesis using mult_div_mod_eq [of controlCount n] mod_less_divisor [of controlCount n]
    by (simp add: sheets_of_part) (simp add: controlCount_def)
qed

text \<open>The texts of the value that is selected exist.\<close>

definition texts_ok :: "setting_entry \<Rightarrow> bool" where
  "texts_ok e \<longleftrightarrow> (if se_valueNames e \<noteq> None then unat (se_selectedValue e - se_valueOffset e) < length (se_valueMessageIds e)
     else se_valueMessageIds e \<noteq> [])"

definition visible_settings :: "settings_page \<Rightarrow> nat list" where
  "visible_settings p = map control_setting (filter sc_visible (sp_controls p))"

lemma control_setting_id:
  assumes "j < 2 ^ 16" "i < 2 ^ 16"
  shows "unat (drop_bit 16 (push_bit 16 (of_nat j) OR of_nat i :: u32)) = j"
proof -
  have "unat (drop_bit 16 (of_nat i :: u32)) = 0" using assms(2)
    by (simp add: unat_drop_bit_eq unat_of_nat) (simp add: drop_bit_eq_div)
  then have "drop_bit 16 (of_nat i :: u32) = 0" by (simp add: unat_eq_0)
  moreover have "unat (push_bit 16 (of_nat j :: u32)) = j * 2 ^ 16"
    using assms(1) by (simp add: push_bit_eq_mult unat_word_ariths unat_of_nat)
  ultimately show ?thesis by (simp add: unat_drop_bit_eq) (simp add: drop_bit_eq_div)
qed

lemma show_setting_visible:
  assumes "length (sp_controls p) = controlCount" "i < controlCount" "texts_ok e" "j < 2 ^ 16"
  shows "\<exists>ctrl. show_setting j i e p = Some (p\<lparr>sp_controls := (sp_controls p)[i := ctrl]\<rparr>) \<and> sc_visible ctrl \<and> control_setting ctrl = j"
proof -
  have i: "i < 2 ^ 16" using assms(2) by (simp add: controlCount_def)
  show ?thesis
    using assms control_setting_id [OF assms(4) i]
    by (cases "se_valueNames e = None") (auto simp: show_setting_def rd_def wr_def texts_ok_def control_setting_def Let_def)
qed

lemma show_settings_visible:
  assumes "length (sp_controls p) = controlCount" "i \<le> controlCount" "\<forall>e \<in> set es. texts_ok e" "j + length es \<le> 2 ^ 16"
  shows "\<exists>ctrls. show_settings c j es i p = Some (i + length ctrls, p\<lparr>sp_controls := take i (sp_controls p) @ ctrls @ drop (i + length ctrls) (sp_controls p)\<rparr>) \<and>
    (\<forall>x \<in> set ctrls. sc_visible x) \<and> map control_setting ctrls = take (controlCount - i) (of_category c j es) \<and> i + length ctrls \<le> controlCount"
  using assms
proof (induction es arbitrary: i j p)
  case Nil
  then show ?case by (intro exI [of _ "[]"]) simp
next
  case (Cons e es)
  have IH: "\<exists>ctrls. show_settings c (j + 1) es i p = Some (i + length ctrls, p\<lparr>sp_controls := take i (sp_controls p) @ ctrls @ drop (i + length ctrls) (sp_controls p)\<rparr>) \<and>
    (\<forall>x \<in> set ctrls. sc_visible x) \<and> map control_setting ctrls = take (controlCount - i) (of_category c (j + 1) es) \<and> i + length ctrls \<le> controlCount"
    if "length (sp_controls p) = controlCount" "i \<le> controlCount" for i p
    using Cons.IH [OF that, of "j + 1"] Cons.prems(3,4) by simp
  consider (full) "i = controlCount" | (other) "i < controlCount" "\<not> has_values c e" | (shown) "i < controlCount" "has_values c e"
    using Cons.prems(2) by linarith
  then show ?case
  proof cases
    case full
    then show ?thesis by (intro exI [of _ "[]"]) simp
  next
    case other
    then show ?thesis using IH [OF Cons.prems(1,2)] by (simp add: has_values_def)
  next
    case shown
    obtain ctrl where ctrl: "show_setting j i e p = Some (p\<lparr>sp_controls := (sp_controls p)[i := ctrl]\<rparr>)" "sc_visible ctrl" "control_setting ctrl = j"
      using show_setting_visible [OF Cons.prems(1) shown(1), of e j] Cons.prems(3,4) by auto
    let ?p = "p\<lparr>sp_controls := (sp_controls p)[i := ctrl]\<rparr>"
    obtain ctrls where c: "show_settings c (j + 1) es (i + 1) ?p = Some (i + 1 + length ctrls, ?p\<lparr>sp_controls := take (i + 1) (sp_controls ?p) @ ctrls @ drop (i + 1 + length ctrls) (sp_controls ?p)\<rparr>)"
      "\<forall>x \<in> set ctrls. sc_visible x" "map control_setting ctrls = take (controlCount - (i + 1)) (of_category c (j + 1) es)" "i + 1 + length ctrls \<le> controlCount"
      using IH [of ?p "i + 1"] Cons.prems(1) shown(1) by auto
    have "take (i + 1) ((sp_controls p)[i := ctrl]) = take i (sp_controls p) @ [ctrl]"
      using shown(1) Cons.prems(1) by (simp add: take_Suc_conv_app_nth)
    moreover have "controlCount - i = Suc (controlCount - (i + 1))" using shown(1) by simp
    ultimately show ?thesis using shown c ctrl
      by (intro exI [of _ "ctrl # ctrls"]) (simp add: has_values_def)
  qed
qed

lemma sheet_visible:
  assumes "index < getSheetCount (length categories) (sp_settings p)" "length (sp_controls p) = controlCount"
    and "\<forall>e \<in> set (sp_settings p). texts_ok e" "length (sp_settings p) \<le> 2 ^ 16"
  shows "\<exists>p'. onCategoryValueChange categories index p = Some p' \<and>
    visible_settings p' = (case all_sheets (sp_settings p) [0..<length categories] ! index of (c, t) \<Rightarrow>
      take controlCount (drop (controlCount * t) (of_category c 0 (sp_settings p))))"
proof -
  let ?ss = "sp_settings p"
  let ?info = "getCategoryInfo (length categories) ?ss index"
  obtain c t where ct: "all_sheets ?ss [0..<length categories] ! index = (c, t)" "t < sheets_of (length (of_category c 0 ?ss))"
    "?info = \<lparr>categoryIndex = c, categorySheetIndex = t, categorySheetCount = sheets_of (length (of_category c 0 ?ss)),
      settingIndex = of_category c 0 ?ss ! (controlCount * t)\<rparr>"
    using info_categories_sheet [of 0 index ?ss "[0..<length categories]" 0 "length categories"
      "\<lparr>categoryIndex = 0, categorySheetIndex = 0, categorySheetCount = 0, settingIndex = 0\<rparr>"] assms(1)
    by (auto simp: length_all_sheets getCategoryInfo_def)
  have "(c, t) \<in> set (all_sheets ?ss [0..<length categories])"
    using assms(1) ct(1) nth_mem [of index "all_sheets ?ss [0..<length categories]"] by (simp add: length_all_sheets)
  then have c: "c < length categories" by (auto simp: all_sheets_def)
  let ?L = "of_category c 0 ?ss"
  have t: "controlCount * t < length ?L" using ct(2) by (auto simp: sheets_of_def controlCount_def less_eq_div_iff_mult_less_eq)
  let ?j = "?L ! (controlCount * t)"
  have j: "?j < length ?ss" "of_category c ?j (drop ?j ?ss) = drop (controlCount * t) ?L" using of_category_drop [OF t] by auto
  let ?p = "p\<lparr>sp_categoryText := (if sheets_of (length ?L) \<ge> 2
    then \<lparr>msg_id = 10182, msg_intVals = [of_nat t + 1, of_nat (sheets_of (length ?L))], msg_messageIds = [categories ! c]\<rparr>
    else plain (categories ! c))\<rparr>"
  have "\<forall>e \<in> set (drop ?j ?ss). texts_ok e" using assms(3) by (auto dest: in_set_dropD)
  then obtain ctrls where s: "show_settings c ?j (drop ?j ?ss) 0 ?p = Some (length ctrls, ?p\<lparr>sp_controls := ctrls @ drop (length ctrls) (sp_controls p)\<rparr>)"
    "\<forall>x \<in> set ctrls. sc_visible x" "map control_setting ctrls = take controlCount (drop (controlCount * t) ?L)"
    using show_settings_visible [of ?p 0 "drop ?j ?ss" ?j c] assms(2,4) j by auto
  have "filter sc_visible (map (\<lambda>c. c\<lparr>sc_visible := False, sc_playerFlags := 0\<rparr>) xs) = []" for xs :: "setting_control list"
    by (induction xs) auto
  then show ?thesis using s c ct(1)
    by (simp add: onCategoryValueChange_def ct(3) rd_def Let_def hide_controls_def visible_settings_def filter_id_conv split del: if_split cong: if_cong)
qed

text \<open>C40: The sheets of the settings page show every setting once: going through all the sheets there
  are, the visible controls are the settings of each category that have values, in the order of
  the table, and none is missing or repeated.\<close>

theorem sheets_show_all:
  assumes "length (sp_controls p) = controlCount" "\<forall>e \<in> set (sp_settings p). texts_ok e" "length (sp_settings p) \<le> 2 ^ 16"
  shows "\<exists>pages. length pages = getSheetCount (length categories) (sp_settings p) \<and>
    (\<forall>i < length pages. onCategoryValueChange categories i p = Some (pages ! i)) \<and>
    concat (map visible_settings pages) =
      concat (map (\<lambda>c. filter (\<lambda>j. has_values c (sp_settings p ! j)) [0..<length (sp_settings p)]) [0..<length categories])"
proof -
  let ?ss = "sp_settings p"
  let ?n = "getSheetCount (length categories) ?ss"
  let ?P = "all_sheets ?ss [0..<length categories]"
  let ?sheet = "\<lambda>(c, t). take controlCount (drop (controlCount * t) (of_category c 0 ?ss))"
  obtain page where page: "onCategoryValueChange categories i p = Some (page i)" "visible_settings (page i) = ?sheet (?P ! i)" if "i < ?n" for i
    using sheet_visible [OF _ assms, of _ categories] by metis
  have "map visible_settings (map page [0..<?n]) = map (\<lambda>i. ?sheet (?P ! i)) [0..<?n]"
    using page(2) by simp
  also have "\<dots> = map ?sheet ?P" unfolding length_all_sheets [of ?ss "length categories", symmetric]
    by (rule nth_equalityI) auto
  finally have "concat (map visible_settings (map page [0..<?n])) = concat (map ?sheet ?P)" by simp
  also have "concat (map ?sheet (all_sheets ?ss cs)) = concat (map (\<lambda>c. of_category c 0 ?ss) cs)" for cs
    by (induction cs) (simp_all add: all_sheets_def comp_def chunks sheets_of_enough)
  finally have "concat (map visible_settings (map page [0..<?n])) = concat (map (\<lambda>c. of_category c 0 ?ss) [0..<length categories])" .
  then show ?thesis using page(1)
    by (intro exI [of _ "map page [0..<?n]"]) (simp add: of_category_filter)
qed

text \<open>A table of eight settings like the one of the program: two sheets.\<close>

definition eight_settings :: settings_page where
  "eight_settings = \<lparr>sp_settings = replicate 8 (hd settings), sp_instruction = plain 0, sp_categoryText = plain 0,
     sp_controls = replicate 6 \<lparr>sc_id = 0, sc_message = plain 0, sc_count = 0, sc_chosen = 0, sc_visible = False,
       sc_playerFlags = 0, sc_shownText = plain 0, sc_hiddenText = plain 0\<rparr>, sp_handler = False, sp_calls = []\<rparr>"

theorem sheets_show_all_witness:
  "\<exists>p p'. onCategoryValueChange categoryMessageIds 0 eight_settings = Some p \<and>
    onCategoryValueChange categoryMessageIds 1 eight_settings = Some p' \<and>
    visible_settings p @ visible_settings p' = [0, 1, 2, 3, 4, 5, 6, 7]"
proof -
  have len: "length categoryMessageIds = 1" by (simp add: categoryMessageIds_def)
  have count: "getSheetCount 1 (sp_settings eight_settings) = 2" and
    all: "concat (map (\<lambda>c. filter (\<lambda>j. has_values c (sp_settings eight_settings ! j)) [0..<length (sp_settings eight_settings)]) [0..<1]) =
      [0, 1, 2, 3, 4, 5, 6, 7]" by code_simp+
  obtain pages where pages: "length pages = 2" "\<forall>i < 2. onCategoryValueChange categoryMessageIds i eight_settings = Some (pages ! i)"
    "concat (map visible_settings pages) = [0, 1, 2, 3, 4, 5, 6, 7]"
    using sheets_show_all [of eight_settings categoryMessageIds] unfolding len count all
    by (auto simp: eight_settings_def controlCount_def texts_ok_def settings_def)
  from pages(1) obtain p p' where "pages = [p, p']" by (auto simp: length_Suc_conv numeral_2_eq_2)
  then show ?thesis using pages(2,3) by (intro exI [of _ p] exI [of _ p']) auto
qed

end
