(* ===== verification/Fst_Dirs.thy ===== *)
theory Fst_Dirs
  imports Prelude
begin

text \<open>
  Directories of file tables: \<open>payload/revolution/dvd.c\<close> for the disc and \<open>payload/revolution/arc.c\<close> for
  archives.  A table is a list of entries in which a directory is followed by everything below it and names the
  entry behind that.  \<open>None\<close> is an access outside the table.
\<close>

record FstEntry =
  fe_isDir :: bool
  fe_stringOffset :: u32
  fe_next :: u32

text \<open>\<open>fe_next\<close> is \<open>dir.next\<close> of a directory and \<open>file.length\<close> of a file, which share their place.\<close>

record DVDDir =
  dd_entryNum :: u32
  dd_location :: u32
  dd_next :: u32

record DVDDirEntry =
  de_entry :: u32
  de_directory :: bool
  de_nameOffset :: u32

section \<open>The disc\<close>

text \<open>\<open>MaxEntryNum\<close> is the length of the table.\<close>

definition fst_DVDFastOpenDir :: "FstEntry list \<Rightarrow> int \<Rightarrow> DVDDir \<Rightarrow> (bool \<times> DVDDir) option" where
  "fst_DVDFastOpenDir tab entrynum dir =
     (if entrynum < 0 then Some (False, dir)
      else if nat entrynum \<ge> length tab then Some (False, dir)
      else do {
        e \<leftarrow> rd tab (nat entrynum);
        if \<not> fe_isDir e then Some (False, dir)
        else Some (True, \<lparr>dd_entryNum = of_int entrynum, dd_location = of_int entrynum + 1, dd_next = fe_next e\<rparr>) })"

definition fst_DVDReadDir :: "FstEntry list \<Rightarrow> DVDDir \<Rightarrow> (DVDDirEntry option \<times> DVDDir) option" where
  "fst_DVDReadDir tab dir =
     (if dd_location dir \<le> dd_entryNum dir then Some (None, dir)
      else if dd_location dir \<ge> dd_next dir then Some (None, dir)
      else do {
        e \<leftarrow> rd tab (unat (dd_location dir));
        Some (Some \<lparr>de_entry = dd_location dir, de_directory = fe_isDir e, de_nameOffset = fe_stringOffset e\<rparr>,
          dir\<lparr>dd_location := (if fe_isDir e then fe_next e else dd_location dir + 1)\<rparr>) })"

definition fst_DVDOpen :: "(bytes \<Rightarrow> int) \<Rightarrow> (int \<Rightarrow> 'f \<Rightarrow> bool \<times> 'f) \<Rightarrow> bytes \<Rightarrow> 'f \<Rightarrow> bool \<times> 'f" where
  "fst_DVDOpen convert fastOpen fileName fileInfo = fastOpen (convert fileName) fileInfo"

definition fst_DVDOpenDir :: "(bytes \<Rightarrow> int) \<Rightarrow> FstEntry list \<Rightarrow> bytes \<Rightarrow> DVDDir \<Rightarrow> (bool \<times> DVDDir) option" where
  "fst_DVDOpenDir convert tab dirName dir = fst_DVDFastOpenDir tab (convert dirName) dir"

definition fst_DVDCloseDir :: "DVDDir \<Rightarrow> bool" where
  "fst_DVDCloseDir dir = True"

record DVDFileInfo =
  df_state :: int
  df_startAddr :: u32
  df_length :: u32
  df_callback :: u32

definition fst_DVDExClone :: "DVDFileInfo \<Rightarrow> DVDFileInfo \<Rightarrow> DVDFileInfo" where
  "fst_DVDExClone src dst = dst\<lparr>df_startAddr := df_startAddr src, df_length := df_length src, df_callback := 0, df_state := 0\<rparr>"

definition fst_DVDExCloneDir :: "DVDDir \<Rightarrow> DVDDir \<Rightarrow> DVDDir" where
  "fst_DVDExCloneDir src dst = dst\<lparr>dd_entryNum := dd_entryNum src, dd_location := dd_entryNum src + 1, dd_next := dd_next src\<rparr>"

section \<open>Archives\<close>

text \<open>A handle is its number, its count of entries and its table.\<close>

record ARCHandle =
  ah_number :: nat
  ah_entryNum :: u32
  ah_FSTStart :: "FstEntry list"

record ARCDir = DVDDir +
  ad_handle :: ARCHandle

record ARCFileInfo =
  af_handle :: ARCHandle
  af_startOffset :: u32
  af_length :: u32

definition fst_ARCFastOpenDir :: "ARCHandle \<Rightarrow> int \<Rightarrow> ARCDir \<Rightarrow> (bool \<times> ARCDir) option" where
  "fst_ARCFastOpenDir handle entrynum dir =
     (if entrynum < 0 then Some (False, dir)
      else if of_int entrynum > ah_entryNum handle then Some (False, dir)
      else do {
        e \<leftarrow> rd (ah_FSTStart handle) (nat entrynum);
        if \<not> fe_isDir e then Some (False, dir)
        else Some (True, \<lparr>dd_entryNum = of_int entrynum, dd_location = of_int entrynum + 1, dd_next = fe_next e, ad_handle = handle\<rparr>) })"

definition fst_ARCExClone :: "ARCFileInfo \<Rightarrow> ARCFileInfo \<Rightarrow> ARCFileInfo" where
  "fst_ARCExClone src dst = src"

definition fst_ARCExCloneDir :: "ARCDir \<Rightarrow> ARCDir \<Rightarrow> ARCDir" where
  "fst_ARCExCloneDir src dst = dst\<lparr>ad_handle := ad_handle src, dd_entryNum := dd_entryNum src,
     dd_location := dd_entryNum src + 1, dd_next := dd_next src\<rparr>"

section \<open>The tree a table holds\<close>

datatype fst_node = Fst_File u32 u32 | Fst_Dir u32 "fst_node list"

fun node_size :: "fst_node \<Rightarrow> nat" and nodes_size :: "fst_node list \<Rightarrow> nat" where
  "node_size (Fst_File name len) = 1"
| "node_size (Fst_Dir name ns) = 1 + nodes_size ns"
| "nodes_size [] = 0"
| "nodes_size (n # ns) = node_size n + nodes_size ns"

text \<open>The entries of a tree whose first one has the index \<open>i\<close>.\<close>

fun table_of :: "nat \<Rightarrow> fst_node \<Rightarrow> FstEntry list" and tables_of :: "nat \<Rightarrow> fst_node list \<Rightarrow> FstEntry list" where
  "table_of i (Fst_File name len) = [\<lparr>fe_isDir = False, fe_stringOffset = name, fe_next = len\<rparr>]"
| "table_of i (Fst_Dir name ns) =
     \<lparr>fe_isDir = True, fe_stringOffset = name, fe_next = of_nat (i + 1 + nodes_size ns)\<rparr> # tables_of (i + 1) ns"
| "tables_of i [] = []"
| "tables_of i (n # ns) = table_of i n @ tables_of (i + node_size n) ns"

text \<open>What reading a directory should give: its children in order, with the index of each.\<close>

fun children :: "nat \<Rightarrow> fst_node list \<Rightarrow> DVDDirEntry list" where
  "children i [] = []"
| "children i (Fst_File name len # ns) = \<lparr>de_entry = of_nat i, de_directory = False, de_nameOffset = name\<rparr> # children (i + 1) ns"
| "children i (Fst_Dir name ms # ns) =
     \<lparr>de_entry = of_nat i, de_directory = True, de_nameOffset = name\<rparr> # children (i + 1 + nodes_size ms) ns"

lemma length_table_of: "length (table_of i n) = node_size n" "length (tables_of i ns) = nodes_size ns"
  by (induction i n and i ns rule: table_of_tables_of.induct) auto

text \<open>Reading until there is no entry left, at most \<open>n\<close> times.\<close>

fun read_all :: "nat \<Rightarrow> FstEntry list \<Rightarrow> DVDDir \<Rightarrow> DVDDirEntry list option" where
  "read_all 0 tab dir = None"
| "read_all (Suc n) tab dir = do {
     (e, dir) \<leftarrow> fst_DVDReadDir tab dir;
     case e of None \<Rightarrow> Some [] | Some e \<Rightarrow> map_option ((#) e) (read_all n tab dir) }"

lemma read_all_children:
  assumes "tab = xs @ tables_of i ns @ ys" "length xs = i" "length tab < 2 ^ 32" "d < i" "i + nodes_size ns = stop" "length ns < n"
  shows "read_all n tab \<lparr>dd_entryNum = of_nat d, dd_location = of_nat i, dd_next = of_nat stop\<rparr> = Some (children i ns)"
  using assms
proof (induction ns arbitrary: n i xs)
  case Nil
  then show ?case by (cases n) (auto simp: fst_DVDReadDir_def)
next
  case (Cons m ns)
  obtain k where n: "n = Suc k" using Cons.prems(6) by (cases n) auto
  have small: "i + node_size m + nodes_size ns < 2 ^ 32" "stop < 2 ^ 32"
    using Cons.prems by (auto simp: length_table_of)
  have size: "0 < node_size m" by (cases m) auto
  let ?dir = "\<lparr>dd_entryNum = of_nat d, dd_location = of_nat i, dd_next = of_nat stop\<rparr> :: DVDDir"
  have unats: "unat (of_nat i :: u32) = i" "unat (of_nat d :: u32) = d" "unat (of_nat stop :: u32) = stop"
    using small Cons.prems(4,5) by (simp_all add: unat_of_nat)
  have in_dir: "\<not> (of_nat i :: u32) \<le> of_nat d" "\<not> (of_nat i :: u32) \<ge> of_nat stop"
    using Cons.prems(4,5) size unats by (simp_all add: word_le_nat_alt)
  have "read_all k tab (?dir\<lparr>dd_location := of_nat (i + node_size m)\<rparr>) = Some (children (i + node_size m) ns)"
    using Cons.IH [of "xs @ table_of i m" "i + node_size m" k] Cons.prems n by (simp add: length_table_of add.assoc)
  moreover have "rd tab i = Some (hd (table_of i m))" using Cons.prems(1,2) size
    by (cases m) (auto simp: rd_def nth_append length_table_of)
  ultimately show ?case using in_dir unats unfolding n
    by (cases m) (simp_all add: fst_DVDReadDir_def ac_simps)
qed

text \<open>C25: For every directory in a file table that was laid out from a tree, opening it and reading it
  entry by entry gives its children in order, with files and subdirectories told apart and the
  contents of subdirectories skipped, and then the end; a copy of the open directory reads the
  same.\<close>

theorem directory_read_back:
  assumes "tab = xs @ table_of (length xs) (Fst_Dir name ns) @ ys" "length tab < 2 ^ 31"
  shows "\<exists>dir. fst_DVDFastOpenDir tab (int (length xs)) dir0 = Some (True, dir) \<and>
    read_all (length ns + 1) tab dir = Some (children (length xs + 1) ns) \<and>
    read_all (length ns + 1) tab (fst_DVDExCloneDir dir dir1) = Some (children (length xs + 1) ns)"
proof -
  let ?i = "length xs"
  let ?e = "hd (table_of ?i (Fst_Dir name ns))"
  let ?dir = "\<lparr>dd_entryNum = of_nat ?i, dd_location = of_nat (?i + 1), dd_next = of_nat (?i + 1 + nodes_size ns)\<rparr> :: DVDDir"
  have all: "read_all (length ns + 1) tab ?dir = Some (children (?i + 1) ns)"
    by (rule read_all_children [of _ "xs @ [?e]" _ _ ys]) (use assms in simp_all)
  have opened: "fst_DVDFastOpenDir tab (int ?i) dir0 = Some (True, ?dir)"
    using assms(1) by (simp add: fst_DVDFastOpenDir_def rd_def nth_append add.commute)
  have "fst_DVDExCloneDir ?dir dir1 = ?dir" by (cases dir1) (simp add: fst_DVDExCloneDir_def add.commute)
  with all opened show ?thesis by metis
qed

text \<open>The root directory of the example holds a file, a directory with one file, and a file.\<close>

definition example_table :: "FstEntry list" where
  "example_table = table_of 0 (Fst_Dir 0 [Fst_File 1 100, Fst_Dir 7 [Fst_File 11 5], Fst_File 20 0])"

theorem directory_read_back_witness:
  "\<exists>dir. fst_DVDFastOpenDir example_table 0 \<lparr>dd_entryNum = 0, dd_location = 0, dd_next = 0\<rparr> = Some (True, dir) \<and>
    map_option (map de_entry) (read_all 4 example_table dir) = Some [1, 2, 4]"
proof -
  let ?dir0 = "\<lparr>dd_entryNum = 0, dd_location = 0, dd_next = 0\<rparr> :: DVDDir"
  let ?ns = "[Fst_File 1 100, Fst_Dir 7 [Fst_File 11 5], Fst_File 20 0]"
  have "length example_table < 2 ^ 31" by (simp add: example_table_def)
  then obtain dir where dir: "fst_DVDFastOpenDir example_table (int (length ([] :: FstEntry list))) ?dir0 = Some (True, dir)"
    "read_all (length ?ns + 1) example_table dir = Some (children (length ([] :: FstEntry list) + 1) ?ns)"
    using directory_read_back [of example_table "[]" 0 ?ns "[]" ?dir0] by (auto simp: example_table_def)
  have n: "length ?ns + 1 = 4" "map de_entry (children (length ([] :: FstEntry list) + 1) ?ns) = [1, 2, 4]" by simp_all
  have "map_option (map de_entry) (read_all 4 example_table dir) = Some [1, 2, 4]"
    using arg_cong [OF dir(2), of "map_option (map de_entry)"] unfolding n(1) option.map n(2) .
  then show ?thesis using dir(1) by auto
qed

lemma ARCFastOpenDir_behind:
  "ah_entryNum handle = of_nat (length (ah_FSTStart handle)) \<Longrightarrow> length (ah_FSTStart handle) < 2 ^ 31 \<Longrightarrow>
    fst_ARCFastOpenDir handle (int (length (ah_FSTStart handle))) dir = None"
  by (simp add: fst_ARCFastOpenDir_def rd_def)

end
