(* ===== verification/Boot_Font.thy ===== *)
theory Boot_Font
  imports Prelude
begin

text \<open>
  \<open>common/Font.c\<close> and \<open>common/Font.cc\<close>: the glyphs of the console of the stub and the loader, sixteen rows of
  eight pixels for each of the characters 32 to 126.  The elements of the array that the source does not name are
  zero.
\<close>

definition font_32 :: "bytes list" where
  "font_32 =
    [[0, 0, 0, 0, 0, 0, 0, 0, 0, 0, 0, 0, 0, 0, 0, 0],
     [0, 0, 0x10, 0x10, 0x10, 0x10, 0x10, 0x10, 0x10, 0, 0x10, 0x10, 0, 0, 0, 0],
     [0, 0x24, 0x24, 0x24, 0, 0, 0, 0, 0, 0, 0, 0, 0, 0, 0, 0],
     [0, 0, 0x24, 0x24, 0x24, 0x7e, 0x24, 0x24, 0x7e, 0x24, 0x24, 0x24, 0, 0, 0, 0],
     [0, 0x10, 0x10, 0x7c, 0x92, 0x90, 0x90, 0x7c, 0x12, 0x12, 0x92, 0x7c, 0x10, 0x10, 0, 0],
     [0, 0, 0x64, 0x94, 0x68, 8, 0x10, 0x10, 0x20, 0x2c, 0x52, 0x4c, 0, 0, 0, 0],
     [0, 0, 0x18, 0x24, 0x24, 0x18, 0x30, 0x4a, 0x44, 0x44, 0x44, 0x3a, 0, 0, 0, 0],
     [0, 0x10, 0x10, 0x10, 0, 0, 0, 0, 0, 0, 0, 0, 0, 0, 0, 0],
     [0, 0, 8, 0x10, 0x20, 0x20, 0x20, 0x20, 0x20, 0x20, 0x10, 8, 0, 0, 0, 0],
     [0, 0, 0x20, 0x10, 8, 8, 8, 8, 8, 8, 0x10, 0x20, 0, 0, 0, 0],
     [0, 0, 0, 0, 0, 0x24, 0x18, 0x7e, 0x18, 0x24, 0, 0, 0, 0, 0, 0],
     [0, 0, 0, 0, 0, 0x10, 0x10, 0x7c, 0x10, 0x10, 0, 0, 0, 0, 0, 0],
     [0, 0, 0, 0, 0, 0, 0, 0, 0, 0, 0x10, 0x10, 0x20, 0, 0, 0],
     [0, 0, 0, 0, 0, 0, 0, 0x7e, 0, 0, 0, 0, 0, 0, 0, 0],
     [0, 0, 0, 0, 0, 0, 0, 0, 0, 0, 0x10, 0x10, 0, 0, 0, 0],
     [0, 0, 4, 4, 8, 8, 0x10, 0x10, 0x20, 0x20, 0x40, 0x40, 0, 0, 0, 0],
     [0, 0, 0x3c, 0x42, 0x42, 0x46, 0x4a, 0x52, 0x62, 0x42, 0x42, 0x3c, 0, 0, 0, 0],
     [0, 0, 8, 0x18, 0x28, 8, 8, 8, 8, 8, 8, 0x3e, 0, 0, 0, 0],
     [0, 0, 0x3c, 0x42, 0x42, 2, 4, 8, 0x10, 0x20, 0x40, 0x7e, 0, 0, 0, 0],
     [0, 0, 0x3c, 0x42, 0x42, 2, 0x1c, 2, 2, 0x42, 0x42, 0x3c, 0, 0, 0, 0],
     [0, 0, 2, 6, 0xa, 0x12, 0x22, 0x42, 0x7e, 2, 2, 2, 0, 0, 0, 0],
     [0, 0, 0x7e, 0x40, 0x40, 0x40, 0x7c, 2, 2, 2, 0x42, 0x3c, 0, 0, 0, 0],
     [0, 0, 0x1c, 0x20, 0x40, 0x40, 0x7c, 0x42, 0x42, 0x42, 0x42, 0x3c, 0, 0, 0, 0],
     [0, 0, 0x7e, 2, 2, 4, 4, 8, 8, 0x10, 0x10, 0x10, 0, 0, 0, 0],
     [0, 0, 0x3c, 0x42, 0x42, 0x42, 0x3c, 0x42, 0x42, 0x42, 0x42, 0x3c, 0, 0, 0, 0],
     [0, 0, 0x3c, 0x42, 0x42, 0x42, 0x42, 0x3e, 2, 2, 4, 0x38, 0, 0, 0, 0],
     [0, 0, 0, 0, 0, 0x10, 0x10, 0, 0, 0, 0x10, 0x10, 0, 0, 0, 0],
     [0, 0, 0, 0, 0, 0x10, 0x10, 0, 0, 0, 0x10, 0x10, 0x20, 0, 0, 0],
     [0, 0, 0, 4, 8, 0x10, 0x20, 0x40, 0x20, 0x10, 8, 4, 0, 0, 0, 0],
     [0, 0, 0, 0, 0, 0x7e, 0, 0, 0x7e, 0, 0, 0, 0, 0, 0, 0],
     [0, 0, 0, 0x40, 0x20, 0x10, 8, 4, 8, 0x10, 0x20, 0x40, 0, 0, 0, 0],
     [0, 0, 0x3c, 0x42, 0x42, 0x42, 4, 8, 8, 0, 8, 8, 0, 0, 0, 0]]"

definition font_64 :: "bytes list" where
  "font_64 =
    [[0, 0, 0x7c, 0x82, 0x9e, 0xa2, 0xa2, 0xa2, 0xa6, 0x9a, 0x80, 0x7e, 0, 0, 0, 0],
     [0, 0, 0x3c, 0x42, 0x42, 0x42, 0x42, 0x7e, 0x42, 0x42, 0x42, 0x42, 0, 0, 0, 0],
     [0, 0, 0x7c, 0x42, 0x42, 0x42, 0x7c, 0x42, 0x42, 0x42, 0x42, 0x7c, 0, 0, 0, 0],
     [0, 0, 0x3c, 0x42, 0x42, 0x40, 0x40, 0x40, 0x40, 0x42, 0x42, 0x3c, 0, 0, 0, 0],
     [0, 0, 0x78, 0x44, 0x42, 0x42, 0x42, 0x42, 0x42, 0x42, 0x44, 0x78, 0, 0, 0, 0],
     [0, 0, 0x7e, 0x40, 0x40, 0x40, 0x78, 0x40, 0x40, 0x40, 0x40, 0x7e, 0, 0, 0, 0],
     [0, 0, 0x7e, 0x40, 0x40, 0x40, 0x78, 0x40, 0x40, 0x40, 0x40, 0x40, 0, 0, 0, 0],
     [0, 0, 0x3c, 0x42, 0x42, 0x40, 0x40, 0x4e, 0x42, 0x42, 0x42, 0x3c, 0, 0, 0, 0],
     [0, 0, 0x42, 0x42, 0x42, 0x42, 0x7e, 0x42, 0x42, 0x42, 0x42, 0x42, 0, 0, 0, 0],
     [0, 0, 0x38, 0x10, 0x10, 0x10, 0x10, 0x10, 0x10, 0x10, 0x10, 0x38, 0, 0, 0, 0],
     [0, 0, 0xe, 4, 4, 4, 4, 4, 4, 0x44, 0x44, 0x38, 0, 0, 0, 0],
     [0, 0, 0x42, 0x44, 0x48, 0x50, 0x60, 0x60, 0x50, 0x48, 0x44, 0x42, 0, 0, 0, 0],
     [0, 0, 0x40, 0x40, 0x40, 0x40, 0x40, 0x40, 0x40, 0x40, 0x40, 0x7e, 0, 0, 0, 0],
     [0, 0, 0x82, 0xc6, 0xaa, 0x92, 0x92, 0x82, 0x82, 0x82, 0x82, 0x82, 0, 0, 0, 0],
     [0, 0, 0x42, 0x42, 0x42, 0x62, 0x52, 0x4a, 0x46, 0x42, 0x42, 0x42, 0, 0, 0, 0],
     [0, 0, 0x3c, 0x42, 0x42, 0x42, 0x42, 0x42, 0x42, 0x42, 0x42, 0x3c, 0, 0, 0, 0],
     [0, 0, 0x7c, 0x42, 0x42, 0x42, 0x42, 0x7c, 0x40, 0x40, 0x40, 0x40, 0, 0, 0, 0],
     [0, 0, 0x3c, 0x42, 0x42, 0x42, 0x42, 0x42, 0x42, 0x42, 0x4a, 0x3c, 2, 0, 0, 0],
     [0, 0, 0x7c, 0x42, 0x42, 0x42, 0x42, 0x7c, 0x50, 0x48, 0x44, 0x42, 0, 0, 0, 0],
     [0, 0, 0x3c, 0x42, 0x40, 0x40, 0x3c, 2, 2, 0x42, 0x42, 0x3c, 0, 0, 0, 0],
     [0, 0, 0xfe, 0x10, 0x10, 0x10, 0x10, 0x10, 0x10, 0x10, 0x10, 0x10, 0, 0, 0, 0],
     [0, 0, 0x42, 0x42, 0x42, 0x42, 0x42, 0x42, 0x42, 0x42, 0x42, 0x3c, 0, 0, 0, 0],
     [0, 0, 0x42, 0x42, 0x42, 0x42, 0x42, 0x24, 0x24, 0x24, 0x18, 0x18, 0, 0, 0, 0],
     [0, 0, 0x82, 0x82, 0x82, 0x82, 0x82, 0x92, 0x92, 0xaa, 0xc6, 0x82, 0, 0, 0, 0],
     [0, 0, 0x42, 0x42, 0x24, 0x24, 0x18, 0x18, 0x24, 0x24, 0x42, 0x42, 0, 0, 0, 0],
     [0, 0, 0x82, 0x82, 0x44, 0x44, 0x28, 0x10, 0x10, 0x10, 0x10, 0x10, 0, 0, 0, 0],
     [0, 0, 0x7e, 2, 2, 4, 8, 0x10, 0x20, 0x40, 0x40, 0x7e, 0, 0, 0, 0],
     [0, 0, 0x38, 0x20, 0x20, 0x20, 0x20, 0x20, 0x20, 0x20, 0x20, 0x38, 0, 0, 0, 0],
     [0, 0, 0x40, 0x40, 0x20, 0x20, 0x10, 0x10, 8, 8, 4, 4, 0, 0, 0, 0],
     [0, 0, 0x38, 8, 8, 8, 8, 8, 8, 8, 8, 0x38, 0, 0, 0, 0],
     [0, 0x10, 0x28, 0x44, 0, 0, 0, 0, 0, 0, 0, 0, 0, 0, 0, 0],
     [0, 0, 0, 0, 0, 0, 0, 0, 0, 0, 0, 0, 0, 0x7e, 0, 0]]"

definition font_96 :: "bytes list" where
  "font_96 =
    [[0x10, 8, 0, 0, 0, 0, 0, 0, 0, 0, 0, 0, 0, 0, 0, 0],
     [0, 0, 0, 0, 0, 0x3c, 2, 0x3e, 0x42, 0x42, 0x42, 0x3e, 0, 0, 0, 0],
     [0, 0, 0x40, 0x40, 0x40, 0x7c, 0x42, 0x42, 0x42, 0x42, 0x42, 0x7c, 0, 0, 0, 0],
     [0, 0, 0, 0, 0, 0x3c, 0x42, 0x40, 0x40, 0x40, 0x42, 0x3c, 0, 0, 0, 0],
     [0, 0, 2, 2, 2, 0x3e, 0x42, 0x42, 0x42, 0x42, 0x42, 0x3e, 0, 0, 0, 0],
     [0, 0, 0, 0, 0, 0x3c, 0x42, 0x42, 0x7e, 0x40, 0x40, 0x3c, 0, 0, 0, 0],
     [0, 0, 0xe, 0x10, 0x10, 0x7c, 0x10, 0x10, 0x10, 0x10, 0x10, 0x10, 0, 0, 0, 0],
     [0, 0, 0, 0, 0, 0x3e, 0x42, 0x42, 0x42, 0x42, 0x42, 0x3e, 2, 2, 0x3c, 0],
     [0, 0, 0x40, 0x40, 0x40, 0x7c, 0x42, 0x42, 0x42, 0x42, 0x42, 0x42, 0, 0, 0, 0],
     [0, 0, 0x10, 0x10, 0, 0x30, 0x10, 0x10, 0x10, 0x10, 0x10, 0x38, 0, 0, 0, 0],
     [0, 0, 4, 4, 0, 0xc, 4, 4, 4, 4, 4, 4, 0x44, 0x44, 0x38, 0],
     [0, 0, 0x40, 0x40, 0x40, 0x42, 0x44, 0x48, 0x70, 0x48, 0x44, 0x42, 0, 0, 0, 0],
     [0, 0, 0x30, 0x10, 0x10, 0x10, 0x10, 0x10, 0x10, 0x10, 0x10, 0x38, 0, 0, 0, 0],
     [0, 0, 0, 0, 0, 0xfc, 0x92, 0x92, 0x92, 0x92, 0x92, 0x92, 0, 0, 0, 0],
     [0, 0, 0, 0, 0, 0x7c, 0x42, 0x42, 0x42, 0x42, 0x42, 0x42, 0, 0, 0, 0],
     [0, 0, 0, 0, 0, 0x3c, 0x42, 0x42, 0x42, 0x42, 0x42, 0x3c, 0, 0, 0, 0],
     [0, 0, 0, 0, 0, 0x7c, 0x42, 0x42, 0x42, 0x42, 0x42, 0x7c, 0x40, 0x40, 0x40, 0],
     [0, 0, 0, 0, 0, 0x3e, 0x42, 0x42, 0x42, 0x42, 0x42, 0x3e, 2, 2, 2, 0],
     [0, 0, 0, 0, 0, 0x5e, 0x60, 0x40, 0x40, 0x40, 0x40, 0x40, 0, 0, 0, 0],
     [0, 0, 0, 0, 0, 0x3e, 0x40, 0x40, 0x3c, 2, 2, 0x7c, 0, 0, 0, 0],
     [0, 0, 0x10, 0x10, 0x10, 0x7c, 0x10, 0x10, 0x10, 0x10, 0x10, 0xe, 0, 0, 0, 0],
     [0, 0, 0, 0, 0, 0x42, 0x42, 0x42, 0x42, 0x42, 0x42, 0x3e, 0, 0, 0, 0],
     [0, 0, 0, 0, 0, 0x42, 0x42, 0x42, 0x24, 0x24, 0x18, 0x18, 0, 0, 0, 0],
     [0, 0, 0, 0, 0, 0x82, 0x82, 0x92, 0x92, 0x92, 0x92, 0x7c, 0, 0, 0, 0],
     [0, 0, 0, 0, 0, 0x42, 0x42, 0x24, 0x18, 0x24, 0x42, 0x42, 0, 0, 0, 0],
     [0, 0, 0, 0, 0, 0x42, 0x42, 0x42, 0x42, 0x42, 0x42, 0x3e, 2, 2, 0x3c, 0],
     [0, 0, 0, 0, 0, 0x7e, 4, 8, 0x10, 0x20, 0x40, 0x7e, 0, 0, 0, 0],
     [0, 0, 0xc, 0x10, 0x10, 0x10, 0x20, 0x10, 0x10, 0x10, 0x10, 0xc, 0, 0, 0, 0],
     [0, 0, 0x10, 0x10, 0x10, 0x10, 0x10, 0x10, 0x10, 0x10, 0x10, 0x10, 0, 0, 0, 0],
     [0, 0, 0x30, 8, 8, 8, 4, 8, 8, 8, 8, 0x30, 0, 0, 0, 0],
     [0, 0x62, 0x92, 0x8c, 0, 0, 0, 0, 0, 0, 0, 0, 0, 0, 0, 0]]"

definition font :: "bytes list" where
  "font = replicate 32 (replicate 16 0) @ font_32 @ font_64 @ font_96 @ [replicate 16 0]"

definition GetGlyphWidth :: u8 where "GetGlyphWidth = 8"

definition GetGlyphHeight :: u8 where "GetGlyphHeight = 16"

definition GetGlyph :: "u8 \<Rightarrow> bytes" where
  "GetGlyph c = (if c < 128 then font ! unat c else font ! 32)"

text \<open>Every glyph has its sixteen rows, and none has a pixel in its last column.\<close>

definition glyph_ok :: "bytes \<Rightarrow> bool" where
  "glyph_ok g \<longleftrightarrow> length g = 16 \<and> list_all (\<lambda>b. b AND 1 = 0) g"

lemma font_parts_ok: "list_all glyph_ok font_32" "list_all glyph_ok font_64" "list_all glyph_ok font_96"
  by code_simp+

lemma length_font: "length font = 128"
  by (simp add: font_def font_32_def font_64_def font_96_def)

lemma font_ok: "list_all glyph_ok font"
proof -
  have "glyph_ok (replicate 16 0)" by (simp add: glyph_ok_def list_all_iff)
  then show ?thesis using font_parts_ok by (auto simp: font_def list_all_iff)
qed

lemma glyph_ok_GetGlyph: "glyph_ok (GetGlyph c)"
proof -
  have "unat c < 128" if "c < 128" using that by (simp add: word_less_nat_alt)
  then show ?thesis using font_ok by (auto simp: GetGlyph_def list_all_length length_font)
qed

lemma GetGlyph_space: "GetGlyph 32 = replicate 16 0"
  by code_simp

end
