(* ===== verification/Early_Console.thy ===== *)
theory Early_Console
  imports Boot_Font
begin

text \<open>
  \<open>common/VI.cc\<close> and \<open>common/Console.cc\<close>: the picture the stub and the loader write their messages to, and the
  console on it.  The registers of the video interface and the memory of the picture, as its words from
  \<open>0x81600000\<close> on, are the record \<open>vi\<close>.
\<close>

section \<open>The picture\<close>

record vi =
  visel :: u16
  dcr :: u16
  vtr :: u16
  vto :: u32
  vte :: u32
  tfbl :: u32
  bfbl :: u32
  hsw :: u16
  hsr :: u16
  xfbWidth :: u16
  xfbHeight :: u16
  xfb :: "nat \<Rightarrow> u32"

definition IsProgressive :: "'a vi_scheme \<Rightarrow> bool" where
  "IsProgressive v \<longleftrightarrow> visel v AND 1 \<noteq> 0 \<or> dcr v AND 4 \<noteq> 0"

definition xfb_index :: "'a vi_scheme \<Rightarrow> u16 \<Rightarrow> u16 \<Rightarrow> nat" where
  "xfb_index v x y = unat y * (unat (xfbWidth v) div 2) + unat x div 2"

definition ReadGrayscaleFromXFB :: "'a vi_scheme \<Rightarrow> u16 \<Rightarrow> u16 \<Rightarrow> u8" where
  "ReadGrayscaleFromXFB v x y =
     (if x > xfbWidth v \<or> y > xfbHeight v then 16
      else let val = xfb v (xfb_index v x y) in if x AND 1 \<noteq> 0 then ucast (drop_bit 8 val) else ucast (drop_bit 24 val))"

definition pack_pixels :: "u8 \<Rightarrow> u8 \<Rightarrow> u32" where
  "pack_pixels y0 y1 = push_bit 24 (ucast y0) OR push_bit 16 127 OR push_bit 8 (ucast y1) OR 127"

definition WriteGrayscaleToXFB :: "u16 \<Rightarrow> u16 \<Rightarrow> u8 \<Rightarrow> 'a vi_scheme \<Rightarrow> 'a vi_scheme" where
  "WriteGrayscaleToXFB x y intensity v =
     (if x > xfbWidth v \<or> y > xfbHeight v then v
      else let i = xfb_index v x y;
               val = xfb v i;
               y0 = (if x AND 1 \<noteq> 0 then ucast (drop_bit 24 val) else intensity);
               y1 = (if x AND 1 \<noteq> 0 then intensity else ucast (drop_bit 8 val))
           in v\<lparr>xfb := (xfb v)(i := pack_pixels y0 y1)\<rparr>)"

definition VI_Init :: "'a vi_scheme \<Rightarrow> 'a vi_scheme" where
  "VI_Init v =
     (let isProgressive = IsProgressive v;
          isNtsc = drop_bit 8 (dcr v) AND 3 = 0;
          v = v\<lparr>xfbWidth := 640, xfbHeight := (if isProgressive \<or> isNtsc then 480 else 574)\<rparr>;
          v = fold (\<lambda>y. fold (\<lambda>x. WriteGrayscaleToXFB (of_nat x) (of_nat y) 16) [0..<unat (xfbWidth v)]) [0..<unat (xfbHeight v)] v;
          v = v\<lparr>vtr := push_bit (3 + (if isProgressive then 1 else 0)) (xfbHeight v) OR (vtr v AND 0xf)\<rparr>;
          v = (if isProgressive then v\<lparr>vto := push_bit 16 0x6 OR 0x30, vte := push_bit 16 0x6 OR 0x30\<rparr>
               else if isNtsc then v\<lparr>vto := push_bit 16 0x3 OR 0x18, vte := push_bit 16 0x2 OR 0x19\<rparr>
               else v\<lparr>vto := push_bit 16 0x1 OR 0x23, vte := push_bit 16 0x0 OR 0x24\<rparr>)
      in v\<lparr>hsw := 0x2828, hsr := 0x10f5, tfbl := push_bit 28 1 OR drop_bit 5 0x81600000,
           bfbl := push_bit 28 1 OR drop_bit 5 0x81600000\<rparr>)"

section \<open>The console\<close>

record boot_console = vi +
  cols :: u8
  rows :: u8
  col :: u8
  row :: u8

definition Console_bg :: u8 where "Console_bg = 16"

definition Console_fg :: u8 where "Console_fg = 235"

definition BootConsole_Init :: "boot_console \<Rightarrow> boot_console" where
  "BootConsole_Init c = c\<lparr>
     cols := of_int (int (unat (xfbWidth c) div unat GetGlyphWidth) - 1),
     rows := of_int (int (unat (xfbHeight c) div unat GetGlyphHeight div (if IsProgressive c then 1 else 2)) - 1),
     col := 0, row := 0\<rparr>"

definition scroll :: "boot_console \<Rightarrow> boot_console" where
  "scroll c = fold (\<lambda>r. fold (\<lambda>y. fold (\<lambda>x c.
       let y0 = of_nat (r * unat GetGlyphHeight + unat GetGlyphHeight div 2);
           intensity = ReadGrayscaleFromXFB c (of_nat x) (y0 + ucast GetGlyphHeight + of_nat y)
       in WriteGrayscaleToXFB (of_nat x) (y0 + of_nat y) intensity c)
     [0..<unat (xfbWidth c)]) [0..<unat GetGlyphHeight]) [0..<unat (rows c)] c"

text \<open>\<^term>\<open>None\<close> is the loop without end of a console that has no rows.\<close>

partial_function (option) scroll_loop :: "boot_console \<Rightarrow> boot_console option" where
  "scroll_loop c = (if row c \<ge> rows c then scroll_loop (let c = scroll c in c\<lparr>row := row c - 1\<rparr>) else Some c)"

definition glyph_intensity :: "bytes \<Rightarrow> nat \<Rightarrow> nat \<Rightarrow> u8" where
  "glyph_intensity glyph x y =
     (if (ucast (glyph ! ((y * unat GetGlyphWidth + x) div 8)) :: u32) AND push_bit (8 - x mod 8) 1 \<noteq> 0 then Console_fg else Console_bg)"

definition draw_glyph :: "u8 \<Rightarrow> boot_console \<Rightarrow> boot_console" where
  "draw_glyph ch c = (let glyph = GetGlyph ch in
     fold (\<lambda>y. fold (\<lambda>x.
       WriteGrayscaleToXFB (of_nat (unat (col c) * unat GetGlyphWidth + unat GetGlyphWidth div 2) + of_nat x)
         (of_nat (unat (row c) * unat GetGlyphHeight + unat GetGlyphHeight div 2) + of_nat y) (glyph_intensity glyph x y))
     [0..<unat GetGlyphWidth]) [0..<unat GetGlyphHeight] c)"

definition Print_char :: "u8 \<Rightarrow> boot_console \<Rightarrow> boot_console option" where
  "Print_char ch c =
     (if col c \<ge> cols c then Some c
      else if ch = 10 then Some (c\<lparr>col := 0, row := row c + 1\<rparr>)
      else if ch = 13 then Some (c\<lparr>col := 0\<rparr>)
      else do {
        c \<leftarrow> scroll_loop c;
        let c = draw_glyph ch c;
        Some (c\<lparr>col := col c + 1\<rparr>) })"

text \<open>The string ends at its zero, which is not in the list.\<close>

fun Print_string :: "bytes \<Rightarrow> boot_console \<Rightarrow> boot_console option" where
  "Print_string [] c = Some c"
| "Print_string (ch # s) c = do { c \<leftarrow> Print_char ch c; Print_string s c }"

definition print_digit :: "u32 \<Rightarrow> u8" where
  "print_digit digit = (if digit < 0xa then ucast digit + 48 else ucast (digit - 0xa) + 65)"

definition Print_u32 :: "u32 \<Rightarrow> boot_console \<Rightarrow> boot_console option" where
  "Print_u32 val = Print_string (map (\<lambda>i. print_digit (drop_bit ((7 - i) * 4) val AND 0xf)) [0..<8])"

text \<open>A full line takes nothing any more, not even its own end.\<close>

lemma Print_string_full: "col c \<ge> cols c \<Longrightarrow> Print_string s c = Some c"
  by (induction s) (simp_all add: Print_char_def)

section \<open>Pixels\<close>

definition pixel :: "'a vi_scheme \<Rightarrow> nat \<Rightarrow> nat \<Rightarrow> u8" where
  "pixel v x y = ReadGrayscaleFromXFB v (of_nat x) (of_nat y)"

lemma pack_bytes: "ucast (drop_bit 24 (pack_pixels a b)) = a" "ucast (drop_bit 8 (pack_pixels a b)) = b"
proof -
  have m: "(127 :: u32) = mask 7" by (simp add: mask_eq_exp_minus_1)
  show "ucast (drop_bit 24 (pack_pixels a b)) = a" "ucast (drop_bit 8 (pack_pixels a b)) = b"
    unfolding pack_pixels_def m by (rule bit_word_eqI; auto simp: bit_simps dest: bit_imp_le_length)+
qed

lemma Write_fields [simp]:
  "xfbWidth (WriteGrayscaleToXFB x y i v) = xfbWidth v" "xfbHeight (WriteGrayscaleToXFB x y i v) = xfbHeight v"
  "visel (WriteGrayscaleToXFB x y i v) = visel v" "dcr (WriteGrayscaleToXFB x y i v) = dcr v"
  by (simp_all add: WriteGrayscaleToXFB_def Let_def)

lemma Write_console [simp]:
  "cols (WriteGrayscaleToXFB x y i c) = cols c" "rows (WriteGrayscaleToXFB x y i c) = rows c"
  "col (WriteGrayscaleToXFB x y i c) = col c" "row (WriteGrayscaleToXFB x y i c) = row c"
  by (simp_all add: WriteGrayscaleToXFB_def Let_def)

lemma odd_word: "(of_nat x :: u16) AND 1 \<noteq> 0 \<longleftrightarrow> odd x"
proof -
  have "bit (of_nat x :: u16) 0 \<longleftrightarrow> odd x" by (simp add: bit_simps bit_0)
  then show ?thesis by (simp add: and_one_eq mod_2_eq_odd)
qed

lemma pixel_Write:
  assumes "xfbWidth v = 640" "x < 640" "x' < 640" "y < 2 ^ 16" "y' \<le> unat (xfbHeight v)"
  shows "pixel (WriteGrayscaleToXFB (of_nat x') (of_nat y') i v) x y = (if x = x' \<and> y = y' then i else pixel v x y)"
proof -
  have "unat (xfbHeight v) < 2 ^ 16" using unsigned_less [of "xfbHeight v"] by simp
  with assms(5) have y': "y' < 2 ^ 16" by (rule le_less_trans)
  have idx: "unat (of_nat n :: u16) = n" if "n < 2 ^ 16" for n using that by (simp add: unat_of_nat)
  have le: "(of_nat z > (640 :: u16)) = False" if "z < 640" for z
    using that by (simp add: word_less_nat_alt idx)
  have "(of_nat z > xfbHeight v) = (z > unat (xfbHeight v))" if "z < 2 ^ 16" for z :: nat
    using that by (simp add: word_less_nat_alt idx)
  note h = this
  have i: "xfb_index v (of_nat z) (of_nat q) = q * 320 + z div 2" if "z < 640" "q < 2 ^ 16" for z q
    using that assms(1) by (simp add: xfb_index_def idx)
  have inj: "q * 320 + z div 2 = q' * 320 + z' div 2 \<longleftrightarrow> q = q' \<and> z div 2 = z' div 2" if "z < 640" "z' < 640" for q q' z z' :: nat
  proof -
    have "z div 2 < 320" "z' div 2 < 320" using that by auto
    then have "(q * 320 + z div 2) div 320 = q" "(q' * 320 + z' div 2) div 320 = q'" by simp_all
    then have "q = q'" if "q * 320 + z div 2 = q' * 320 + z' div 2" using that by metis
    then show ?thesis by auto
  qed
  have half: "z = z' \<longleftrightarrow> z div 2 = z' div 2 \<and> (odd z \<longleftrightarrow> odd z')" for z z' :: nat by presburger
  have same: "xfb_index (v\<lparr>xfb := f\<rparr>) a b = xfb_index v a b" for f a b by (simp add: xfb_index_def)
  let ?i = "y' * 320 + x' div 2"
  let ?val = "pack_pixels (if odd x' then ucast (drop_bit 24 (xfb v ?i)) else i) (if odd x' then i else ucast (drop_bit 8 (xfb v ?i)))"
  have "\<not> unat (xfbHeight v) < y'" using assms(5) by simp
  then have w: "WriteGrayscaleToXFB (of_nat x') (of_nat y') i v = v\<lparr>xfb := (xfb v)(?i := ?val)\<rparr>"
    using assms(1,3) y' by (simp add: WriteGrayscaleToXFB_def le h i odd_word Let_def)
  have read: "pixel u x y = (if unat (xfbHeight v) < y then 16 else
      if odd x then ucast (drop_bit 8 (xfb u (y * 320 + x div 2))) else ucast (drop_bit 24 (xfb u (y * 320 + x div 2))))"
    if "u = v\<lparr>xfb := f\<rparr>" for u f
    unfolding that using assms(1,2,4) by (simp add: pixel_def ReadGrayscaleFromXFB_def le h same i odd_word Let_def)
  have "v = v\<lparr>xfb := xfb v\<rparr>" by simp
  note v = read [OF this]
  show ?thesis unfolding w read [OF refl] v
    using half [of x x'] inj [OF assms(2,3), of y y'] assms(5) by (auto simp: pack_bytes)
qed

section \<open>Loops over pixels\<close>

definition same_frame :: "boot_console \<Rightarrow> boot_console \<Rightarrow> bool" where
  "same_frame c c' \<longleftrightarrow> xfbWidth c' = xfbWidth c \<and> xfbHeight c' = xfbHeight c \<and> cols c' = cols c \<and> rows c' = rows c \<and>
     col c' = col c \<and> row c' = row c"

lemma same_frame_Write [simp]: "same_frame c (WriteGrayscaleToXFB x y i c)"
  by (simp add: same_frame_def)

lemma same_frame_fold: "(\<And>a c. same_frame c (f a c)) \<Longrightarrow> same_frame c (fold f xs c)"
  by (induction xs arbitrary: c) (auto simp: same_frame_def)

lemma fold_product: "fold (\<lambda>y. fold (g y) xs) ys c = fold (\<lambda>(y, x). g y x) (List.product ys xs) c"
  by (induction ys arbitrary: c) (simp_all add: fold_map comp_def)

lemma fold_Write:
  assumes "xfbWidth c = 640" "\<forall>(y, x) \<in> set ps. X + x < 640 \<and> Y + y \<le> unat (xfbHeight c)" "a < 640" "b < 2 ^ 16"
  shows "pixel (fold (\<lambda>(y, x). WriteGrayscaleToXFB (of_nat (X + x)) (of_nat (Y + y)) (f x y)) ps c) a b =
    (if X \<le> a \<and> Y \<le> b \<and> (b - Y, a - X) \<in> set ps then f (a - X) (b - Y) else pixel c a b)"
  using assms(1,2)
proof (induction ps arbitrary: c)
  case (Cons p ps)
  obtain y x where p: "p = (y, x)" by (metis surj_pair)
  let ?c = "WriteGrayscaleToXFB (of_nat (X + x)) (of_nat (Y + y)) (f x y) c"
  have "pixel ?c a b = (if a = X + x \<and> b = Y + y then f x y else pixel c a b)"
    using pixel_Write [of c a "X + x" b "Y + y" "f x y"] Cons.prems assms(3,4) p by simp
  then show ?case using Cons.IH [of ?c] Cons.prems p by (auto simp del: of_nat_add)
qed simp

definition row_copy :: "nat \<Rightarrow> boot_console \<Rightarrow> boot_console" where
  "row_copy Y c = fold (\<lambda>x c. WriteGrayscaleToXFB (of_nat x) (of_nat Y) (pixel c x (Y + 16)) c) [0..<640] c"

lemma same_frame_row_copy: "same_frame c (row_copy Y c)"
  unfolding row_copy_def by (rule same_frame_fold) simp

lemma pixel_row_copy:
  assumes "xfbWidth c = 640" "Y \<le> unat (xfbHeight c)" "a < 640" "b < 2 ^ 16" "Y + 16 < 2 ^ 16"
  shows "pixel (row_copy Y c) a b = (if b = Y then pixel c a (Y + 16) else pixel c a b)"
proof -
  let ?f = "\<lambda>n. fold (\<lambda>x c. WriteGrayscaleToXFB (of_nat x) (of_nat Y) (pixel c x (Y + 16)) c) [0..<n] c"
  have "pixel (?f n) a b = (if b = Y \<and> a < n then pixel c a (Y + 16) else pixel c a b)" if "n \<le> 640" "a < 640" "b < 2 ^ 16" for n a b
    using that
  proof (induction n arbitrary: a b)
    case (Suc n)
    have "same_frame c (?f n)" by (rule same_frame_fold) simp
    then have f: "xfbWidth (?f n) = 640" "Y \<le> unat (xfbHeight (?f n))" using assms(1,2) by (simp_all add: same_frame_def)
    have "pixel (?f n) n (Y + 16) = pixel c n (Y + 16)" using Suc.IH [of n "Y + 16"] Suc.prems assms(5) by simp
    then have "?f (Suc n) = WriteGrayscaleToXFB (of_nat n) (of_nat Y) (pixel c n (Y + 16)) (?f n)" by simp
    then have "pixel (?f (Suc n)) a b = (if a = n \<and> b = Y then pixel c n (Y + 16) else pixel (?f n) a b)"
      using pixel_Write [OF f(1) Suc.prems(2) _ Suc.prems(3) f(2), of n "pixel c n (Y + 16)"] Suc.prems(1) by simp
    then show ?case using Suc.IH [OF _ Suc.prems(2,3)] Suc.prems(1) by (auto simp: less_Suc_eq)
  qed simp
  from this [of 640] show ?thesis using assms(3,4) by (simp add: row_copy_def)
qed

lemma pixel_rows_copy:
  assumes "xfbWidth c = 640" "s \<le> e" "e \<le> Suc (unat (xfbHeight c))" "a < 640" "b < 2 ^ 16" "e + 16 < 2 ^ 16"
  shows "pixel (fold row_copy [s..<e] c) a b = (if s \<le> b \<and> b < e then pixel c a (b + 16) else pixel c a b)"
  using assms(2,3,5,6)
proof (induction "e - s" arbitrary: e b)
  case 0
  then show ?case by auto
next
  case (Suc n)
  then obtain k where e: "e = Suc k" "s \<le> k" by (cases e) auto
  let ?c = "fold row_copy [s..<k] c"
  have "same_frame c ?c" by (rule same_frame_fold) (rule same_frame_row_copy)
  then have f: "xfbWidth ?c = 640" "k \<le> unat (xfbHeight ?c)" using assms(1) Suc.prems(2) e by (simp_all add: same_frame_def)
  have IH: "pixel ?c a b = (if s \<le> b \<and> b < k then pixel c a (b + 16) else pixel c a b)" if "b < 2 ^ 16" for b
    using Suc.hyps(1) [of k b] Suc.hyps(2) Suc.prems e that by simp
  have "pixel (row_copy k ?c) a b = (if b = k then pixel ?c a (k + 16) else pixel ?c a b)"
    using pixel_row_copy [OF f assms(4) Suc.prems(3)] Suc.prems(4) e by simp
  then show ?case using IH [of b] IH [of "k + 16"] Suc.prems(3,4) e by auto
qed

lemma scroll_rows:
  assumes "xfbWidth c = 640"
  shows "scroll c = fold row_copy [8..<16 * unat (rows c) + 8] c"
proof -
  have h: "unat GetGlyphHeight = 16" "ucast GetGlyphHeight = (16 :: u16)" by (simp_all add: GetGlyphHeight_def)
  have w: "unat (xfbWidth c) = 640" by (simp add: assms)
  have target: "of_nat (r * 16 + 16 div 2) + of_nat y = (of_nat (16 * r + 8 + y) :: u16)" for r y by (simp add: mult.commute)
  have source: "of_nat (r * 16 + 16 div 2) + 16 + of_nat y = (of_nat (16 * r + 8 + y + 16) :: u16)" for r y
    by (simp add: mult.commute add.commute)
  have block: "fold (\<lambda>y. row_copy (k + y)) [0..<m] = fold row_copy [k..<k + m]" for k m
  proof -
    have "[k..<k + m] = map (\<lambda>y. k + y) [0..<m]" using map_add_upt [of k m] by (simp add: add.commute)
    then show ?thesis by (simp add: fold_map comp_def)
  qed
  have "fold (\<lambda>r. fold (\<lambda>y. row_copy (16 * r + 8 + y)) [0..<16]) [0..<n] c = fold row_copy [8..<16 * n + 8] c" for n
  proof (induction n)
    case (Suc n)
    have "[8..<16 * Suc n + 8] = [8..<16 * n + 8] @ [16 * n + 8..<16 * n + 8 + 16]"
      using upt_add_eq_append [of 8 "16 * n + 8" 16] by (simp only: mult_Suc_right add.commute add.left_commute le_add2)
    then show ?case using Suc by (simp add: block del: upt_rec_numeral)
  qed simp
  moreover have "scroll c = fold (\<lambda>r. fold (\<lambda>y. row_copy (16 * r + 8 + y)) [0..<16]) [0..<unat (rows c)] c"
    unfolding scroll_def Let_def h w target source row_copy_def pixel_def by (rule refl)
  ultimately show ?thesis by simp
qed

section \<open>The console shows a terminal\<close>

text \<open>A terminal of text: lines of characters and the place of the next one.\<close>

record terminal =
  t_cols :: nat
  t_rows :: nat
  t_col :: nat
  t_row :: nat
  t_text :: "nat \<Rightarrow> nat \<Rightarrow> u8"

definition t_scroll :: "nat \<Rightarrow> terminal \<Rightarrow> terminal" where
  "t_scroll n t = t\<lparr>t_text := (\<lambda>r q. if r + n < t_rows t then t_text t (r + n) q else 32), t_row := t_row t - n\<rparr>"

definition t_print :: "u8 \<Rightarrow> terminal \<Rightarrow> terminal" where
  "t_print ch t =
     (if t_col t \<ge> t_cols t then t
      else if ch = 10 then t\<lparr>t_col := 0, t_row := (t_row t + 1) mod 256\<rparr>
      else if ch = 13 then t\<lparr>t_col := 0\<rparr>
      else let t = t_scroll (t_row t + 1 - t_rows t) t
           in t\<lparr>t_text := (t_text t)(t_row t := (t_text t (t_row t))(t_col t := ch)), t_col := t_col t + 1\<rparr>)"

text \<open>The picture of a console shows a text: every cell has the pixels of its glyph, the line below is empty.\<close>

definition shows_text :: "boot_console \<Rightarrow> (nat \<Rightarrow> nat \<Rightarrow> u8) \<Rightarrow> bool" where
  "shows_text c g \<longleftrightarrow> (\<forall>r < unat (rows c). \<forall>q < unat (cols c). \<forall>y < 16. \<forall>x < 8.
     pixel c (8 * q + 4 + x) (16 * r + 8 + y) = glyph_intensity (GetGlyph (g r q)) x y)"

definition line_below_empty :: "boot_console \<Rightarrow> bool" where
  "line_below_empty c \<longleftrightarrow> (\<forall>a < 640. \<forall>y < 16. pixel c a (16 * unat (rows c) + 8 + y) = Console_bg)"

definition console_ok :: "boot_console \<Rightarrow> bool" where
  "console_ok c \<longleftrightarrow> xfbWidth c = 640 \<and> cols c = 79 \<and> 0 < rows c \<and> unat (rows c) * 16 + 8 \<le> unat (xfbHeight c)"

definition displays :: "boot_console \<Rightarrow> terminal \<Rightarrow> bool" where
  "displays c t \<longleftrightarrow> console_ok c \<and> line_below_empty c \<and> shows_text c (t_text t) \<and> t_cols t = unat (cols c) \<and>
     t_rows t = unat (rows c) \<and> t_col t = unat (col c) \<and> t_row t = unat (row c)"

lemma rows_small: "unat (rows c) * 16 + 40 < 2 ^ 16"
proof -
  have "unat (rows c) < 256" by (rule unat_u8_less)
  then have "unat (rows c) * 16 + 40 < 256 * 16 + 40" by linarith
  also have "\<dots> < (2 :: nat) ^ 16" by simp
  finally show ?thesis .
qed

lemma same_frame_scroll: "console_ok c \<Longrightarrow> same_frame c (scroll c)"
  unfolding console_ok_def using scroll_rows by (simp add: same_frame_fold same_frame_row_copy)

lemma pixel_scroll:
  assumes "console_ok c" "a < 640" "b < 16 * unat (rows c) + 24"
  shows "pixel (scroll c) a b = (if 8 \<le> b \<and> b < 16 * unat (rows c) + 8 then pixel c a (b + 16) else pixel c a b)"
proof -
  have "xfbWidth c = 640" "16 * unat (rows c) + 8 \<le> Suc (unat (xfbHeight c))" using assms(1) by (simp_all add: console_ok_def)
  then show ?thesis using pixel_rows_copy [of c 8 "16 * unat (rows c) + 8" a b] assms(2,3) rows_small [of c]
    by (simp add: scroll_rows)
qed

lemma glyph_space: "x < 8 \<Longrightarrow> y < 16 \<Longrightarrow> glyph_intensity (GetGlyph 32) x y = Console_bg"
  by (simp add: glyph_intensity_def GetGlyph_space GetGlyphWidth_def)

lemma scroll_shows:
  assumes "console_ok c" "line_below_empty c" "shows_text c g"
  shows "console_ok (scroll c) \<and> line_below_empty (scroll c) \<and> shows_text (scroll c) (\<lambda>r q. if r + 1 < unat (rows c) then g (r + 1) q else 32)"
proof -
  have f: "same_frame c (scroll c)" using same_frame_scroll [OF assms(1)] .
  then have ok: "console_ok (scroll c)" using assms(1) by (simp add: same_frame_def console_ok_def)
  have "line_below_empty (scroll c)" using assms(2) f pixel_scroll [OF assms(1)]
    by (auto simp: line_below_empty_def same_frame_def)
  moreover have "pixel (scroll c) (8 * q + 4 + x) (16 * r + 8 + y) = glyph_intensity (GetGlyph (if r + 1 < unat (rows c) then g (r + 1) q else 32)) x y"
    if r: "r < unat (rows c)" "q < unat (cols c)" "y < 16" "x < 8" for r q y x
  proof -
    have q: "8 * q + 4 + x < 640" using r(2,4) assms(1) by (simp add: console_ok_def)
    have "pixel (scroll c) (8 * q + 4 + x) (16 * r + 8 + y) = pixel c (8 * q + 4 + x) (16 * r + 8 + y + 16)"
      using pixel_scroll [OF assms(1) q, of "16 * r + 8 + y"] r(1,3) by simp
    also have "\<dots> = pixel c (8 * q + 4 + x) (16 * (r + 1) + 8 + y)" by (rule arg_cong [of _ _ "\<lambda>b. pixel c _ b"]) simp
    also have "\<dots> = glyph_intensity (GetGlyph (if r + 1 < unat (rows c) then g (r + 1) q else 32)) x y"
    proof (cases "r + 1 < unat (rows c)")
      case True
      then have "pixel c (8 * q + 4 + x) (16 * (r + 1) + 8 + y) = glyph_intensity (GetGlyph (g (r + 1) q)) x y"
        using assms(3) r(2-4) unfolding shows_text_def by blast
      then show ?thesis using True by simp
    next
      case False
      then have "r + 1 = unat (rows c)" using r(1) by simp
      then show ?thesis using assms(2) q r(3,4) unfolding line_below_empty_def by (simp add: glyph_space del: of_nat_add)
    qed
    finally show ?thesis .
  qed
  ultimately show ?thesis using ok f by (simp add: shows_text_def same_frame_def)
qed

lemma same_frame_update: "row (scroll c) = row c" "col (scroll c) = col c" "rows (scroll c) = rows c" "cols (scroll c) = cols c"
  if "console_ok c"
  using same_frame_scroll [OF that] by (simp_all add: same_frame_def)

lemma pixel_update [simp]: "pixel (c\<lparr>row := r\<rparr>) x y = pixel c x y" "pixel (c\<lparr>col := q\<rparr>) x y = pixel c x y"
  by (simp_all add: pixel_def ReadGrayscaleFromXFB_def xfb_index_def)

lemma t_scroll_fields: "t_rows (t_scroll n t) = t_rows t" "t_cols (t_scroll n t) = t_cols t" "t_col (t_scroll n t) = t_col t"
    "t_row (t_scroll n t) = t_row t - n"
  by (simp_all add: t_scroll_def)

lemma t_scroll_add: "t_scroll n (t_scroll m t) = t_scroll (n + m) t"
  by (cases t) (auto simp: t_scroll_def fun_eq_iff add.assoc add.commute [of n] cong: if_cong)

lemma displays_col: "displays c t \<Longrightarrow> unat q = k \<Longrightarrow> displays (c\<lparr>col := q\<rparr>) (t\<lparr>t_col := k\<rparr>)"
  by (simp add: displays_def console_ok_def line_below_empty_def shows_text_def)

lemma t_scroll_0: "t_row t < t_rows t \<Longrightarrow> displays c t \<Longrightarrow> displays c (t_scroll 0 t)"
  by (auto simp: displays_def t_scroll_def shows_text_def)

lemma scroll_loop_displays:
  assumes "displays c t"
  shows "\<exists>c'. scroll_loop c = Some c' \<and> displays c' (t_scroll (t_row t + 1 - t_rows t) t)"
  using assms
proof (induction "t_row t" arbitrary: c t rule: less_induct)
  case less
  note d = less.prems [unfolded displays_def]
  show ?case
  proof (cases "row c \<ge> rows c")
    case False
    then have "t_row t < t_rows t" using d by (simp add: not_le word_less_nat_alt)
    then show ?thesis using False less.prems t_scroll_0 by (simp add: scroll_loop.simps)
  next
    case True
    let ?c = "(scroll c)\<lparr>row := row c - 1\<rparr>"
    let ?t = "t_scroll 1 t"
    have ok: "console_ok c" "0 < rows c" using d by (simp_all add: console_ok_def)
    have "0 < row c" using True ok(2) by (rule order_less_le_trans [rotated])
    then have row: "unat (row c - 1) = unat (row c) - 1" "0 < t_row t" "t_rows t \<le> t_row t"
      using True d by (simp_all add: unat_minus_one word_gt_0 word_le_nat_alt unat_gt_0)
    have "displays ?c ?t"
      using scroll_shows [of c "t_text t"] d row same_frame_update [OF ok(1)]
      by (simp add: displays_def t_scroll_def console_ok_def line_below_empty_def shows_text_def)
    then obtain c' where c': "scroll_loop ?c = Some c'" "displays c' (t_scroll (t_row ?t + 1 - t_rows ?t) ?t)"
      using less.hyps [of ?t ?c] row by (auto simp: t_scroll_def)
    have "t_row ?t + 1 - t_rows ?t + 1 = t_row t + 1 - t_rows t" using row(2,3) by (simp add: t_scroll_fields)
    then have "t_scroll (t_row ?t + 1 - t_rows ?t) ?t = t_scroll (t_row t + 1 - t_rows t) t" unfolding t_scroll_add by simp
    then show ?thesis using c' True by (simp add: scroll_loop.simps [of c] Let_def same_frame_update [OF ok(1)])
  qed
qed

lemma draw_glyph_fold:
  "draw_glyph ch c = fold (\<lambda>(y, x). WriteGrayscaleToXFB (of_nat (unat (col c) * 8 + 4 + x)) (of_nat (unat (row c) * 16 + 8 + y))
     (glyph_intensity (GetGlyph ch) x y)) (List.product [0..<16] [0..<8]) c"
proof -
  have w: "unat GetGlyphWidth = 8" "unat GetGlyphHeight = 16" "(8 :: nat) div 2 = 4" "(16 :: nat) div 2 = 8"
    by (simp_all add: GetGlyphWidth_def GetGlyphHeight_def)
  show ?thesis unfolding draw_glyph_def Let_def w of_nat_add [symmetric] fold_product by (rule refl)
qed

lemma draw_glyph_displays:
  assumes "displays c t" "t_row t < t_rows t" "t_col t < t_cols t"
  shows "displays (draw_glyph ch c) (t\<lparr>t_text := (t_text t)(t_row t := (t_text t (t_row t))(t_col t := ch))\<rparr>)"
proof -
  note d = assms(1) [unfolded displays_def console_ok_def]
  let ?X = "unat (col c) * 8 + 4" and ?Y = "unat (row c) * 16 + 8"
  have f: "same_frame c (draw_glyph ch c)" unfolding draw_glyph_fold by (rule same_frame_fold) auto
  have cols: "unat (cols c) = 79" using d by simp
  have at: "unat (col c) < 79" "unat (row c) < unat (rows c)" using d assms(2,3) cols by simp_all
  have px: "pixel (draw_glyph ch c) a b = (if ?X \<le> a \<and> a < ?X + 8 \<and> ?Y \<le> b \<and> b < ?Y + 16
      then glyph_intensity (GetGlyph ch) (a - ?X) (b - ?Y) else pixel c a b)" if "a < 640" "b < 2 ^ 16" for a b
  proof -
    have "\<forall>(y, x) \<in> set (List.product [0..<16] [0..<8]). ?X + x < 640 \<and> ?Y + y \<le> unat (xfbHeight c)"
      using at d by auto
    from fold_Write [OF _ this that, of "glyph_intensity (GetGlyph ch)"] d show ?thesis unfolding draw_glyph_fold by auto
  qed
  have b: "16 * r + 8 + y < 2 ^ 16" if "r \<le> unat (rows c)" "y < 16" for r y using that rows_small [of c] by linarith
  have "line_below_empty (draw_glyph ch c)" using d f at px b by (auto simp: line_below_empty_def same_frame_def)
  moreover have "shows_text (draw_glyph ch c) ((t_text t)(unat (row c) := (t_text t (unat (row c)))(unat (col c) := ch)))"
    unfolding shows_text_def
  proof (intro allI impI)
    fix r q y x :: nat
    assume r: "r < unat (rows (draw_glyph ch c))" "q < unat (cols (draw_glyph ch c))" "y < 16" "x < 8"
    then have r': "r < unat (rows c)" "q < 79" using f cols by (simp_all add: same_frame_def)
    have "pixel c (8 * q + 4 + x) (16 * r + 8 + y) = glyph_intensity (GetGlyph (t_text t r q)) x y"
      using d r' r(3,4) cols by (simp add: shows_text_def)
    then show "pixel (draw_glyph ch c) (8 * q + 4 + x) (16 * r + 8 + y) =
        glyph_intensity (GetGlyph (((t_text t)(unat (row c) := (t_text t (unat (row c)))(unat (col c) := ch))) r q)) x y"
      using px [of "8 * q + 4 + x" "16 * r + 8 + y"] b [of r y] r' r(3,4) by auto
  qed
  ultimately show ?thesis using d f by (simp add: displays_def console_ok_def same_frame_def)
qed

lemma pixel_below: "unat (xfbHeight v) < b \<Longrightarrow> b < 2 ^ 16 \<Longrightarrow> pixel v a b = 16"
  by (simp add: pixel_def ReadGrayscaleFromXFB_def word_less_nat_alt unat_of_nat)

text \<open>The check of the coordinates lets the line and the column behind the picture pass.\<close>

lemma pixel_behind: "xfbWidth v = 640 \<Longrightarrow> xfbHeight v = 480 \<Longrightarrow> pixel v 0 480 = ucast (drop_bit 24 (xfb v (320 * 480)))"
  by (simp add: pixel_def ReadGrayscaleFromXFB_def xfb_index_def)

text \<open>Init fills the picture; a console on it shows an empty text.\<close>

lemma pixel_cong: "xfbWidth c = xfbWidth d \<Longrightarrow> xfbHeight c = xfbHeight d \<Longrightarrow> xfb c = xfb d \<Longrightarrow> pixel c a b = pixel d a b"
  by (simp add: pixel_def ReadGrayscaleFromXFB_def xfb_index_def)

definition fill_picture :: "boot_console \<Rightarrow> boot_console" where
  "fill_picture c = fold (\<lambda>y. fold (\<lambda>x. WriteGrayscaleToXFB (of_nat x) (of_nat y) 16) [0..<unat (xfbWidth c)]) [0..<unat (xfbHeight c)] c"

lemma pixel_fill_picture:
  assumes "xfbWidth c = 640" "a < 640" "b < unat (xfbHeight c)"
  shows "pixel (fill_picture c) a b = 16"
proof -
  have "unat (xfbHeight c) < 2 ^ 16" using unsigned_less [of "xfbHeight c"] by simp
  with assms(3) have b: "b < 2 ^ 16" by (rule less_trans)
  have w: "unat (xfbWidth c) = 640" using assms(1) by simp
  have "\<forall>(y, x) \<in> set (List.product [0..<unat (xfbHeight c)] [0..<640]). 0 + x < 640 \<and> 0 + y \<le> unat (xfbHeight c)" by auto
  from fold_Write [OF assms(1) this assms(2) b, of "\<lambda>x y. 16"] show ?thesis
    using assms(2,3) by (simp add: fill_picture_def w fold_product)
qed

lemma fill_picture_fields:
  "xfbWidth (fill_picture c) = xfbWidth c" "xfbHeight (fill_picture c) = xfbHeight c"
  "visel (fill_picture c) = visel c" "dcr (fill_picture c) = dcr c"
proof -
  have keep: "g (fold f xs c) = g c" if "\<And>a c. g (f a c) = g c" for g :: "boot_console \<Rightarrow> 'b" and f and xs :: "nat list" and c
    using that by (induction xs arbitrary: c) simp_all
  show "xfbWidth (fill_picture c) = xfbWidth c" "xfbHeight (fill_picture c) = xfbHeight c"
    "visel (fill_picture c) = visel c" "dcr (fill_picture c) = dcr c"
    unfolding fill_picture_def by (rule keep, rule keep, simp)+
qed

lemma Init_displays:
  assumes "c' = BootConsole_Init (VI_Init c)" "\<forall>a < 640. IsProgressive c \<longrightarrow> pixel c' a 480 = 16"
  shows "displays c' \<lparr>t_cols = 79, t_rows = (if IsProgressive c then 29 else if drop_bit 8 (dcr c) AND 3 = 0 then 14 else 16),
    t_col = 0, t_row = 0, t_text = (\<lambda>r q. 32)\<rparr>"
proof -
  let ?h = "if IsProgressive c \<or> drop_bit 8 (dcr c) AND 3 = 0 then 480 else 574 :: u16"
  let ?f = "fill_picture (c\<lparr>xfbWidth := 640, xfbHeight := ?h\<rparr>)"
  have px: "pixel c' a b = pixel ?f a b" for a b
    by (rule pixel_cong) (simp_all add: assms(1) BootConsole_Init_def VI_Init_def Let_def fill_picture_def)
  have wh: "xfbWidth c' = 640" "xfbHeight c' = ?h" "IsProgressive c' = IsProgressive c"
    by (simp_all add: assms(1) BootConsole_Init_def VI_Init_def Let_def fill_picture_def [symmetric] fill_picture_fields IsProgressive_def)
  have pv: "IsProgressive (VI_Init c) = IsProgressive c"
    by (simp add: VI_Init_def Let_def fill_picture_def [symmetric] fill_picture_fields IsProgressive_def)
  have rc: "cols c' = 79" "rows c' = (if IsProgressive c then 29 else if drop_bit 8 (dcr c) AND 3 = 0 then 14 else 16)"
    "col c' = 0" "row c' = 0"
    using wh pv by (simp_all add: assms(1) BootConsole_Init_def GetGlyphWidth_def GetGlyphHeight_def)
  have inside: "pixel c' a b = Console_bg" if "a < 640" "b < unat ?h" for a b
    using pixel_fill_picture [of "c\<lparr>xfbWidth := 640, xfbHeight := ?h\<rparr>" a b] that by (simp add: px Console_bg_def)
  have "console_ok c'" using wh rc by (simp add: console_ok_def)
  moreover have "shows_text c' (\<lambda>r q. 32)" unfolding shows_text_def
    using wh rc by (auto simp: glyph_space intro!: inside)
  moreover have "pixel c' a (16 * unat (rows c') + 8 + y) = Console_bg" if "a < 640" "y < 16" for a y
  proof (cases "IsProgressive c \<and> 480 \<le> 16 * unat (rows c') + 8 + y")
    case False
    then show ?thesis using that rc by (intro inside) auto
  next
    case True
    then have Y: "16 * unat (rows c') + 8 + y = 472 + y" "8 \<le> y" using rc(2) by auto
    show ?thesis
    proof (cases "y = 8")
      case True
      then show ?thesis using assms(2) \<open>a < 640\<close> \<open>IsProgressive c \<and> _\<close> Y(1) by (simp add: Console_bg_def)
    next
      case False
      then show ?thesis using pixel_below [of c' "472 + y" a] Y wh(2) that(2) \<open>IsProgressive c \<and> _\<close> by (simp add: Console_bg_def)
    qed
  qed
  ultimately show ?thesis using rc by (simp add: displays_def line_below_empty_def)
qed


definition dark_console :: boot_console where
  "dark_console = \<lparr>visel = 0, dcr = 0, vtr = 0, vto = 0, vte = 0, tfbl = 0, bfbl = 0, hsw = 0, hsr = 0, xfbWidth = 0, xfbHeight = 0,
     xfb = (\<lambda>i. 0), cols = 0, rows = 0, col = 0, row = 0\<rparr>"


end
