(* ===== verification/Disc_Drive.thy ===== *)
theory Disc_Drive
  imports Starlet
begin

text \<open>
  \<open>loader/DI.cc\<close>: the disc drive, as the loader drives it.
\<close>

datatype DI_Command = DI_ReadDiskID | DI_Read | DI_GetCoverStatus | DI_Reset | DI_ReadUnencrypted | DI_OpenPartition

primrec di_cmd :: "DI_Command \<Rightarrow> nat" where
  "di_cmd DI_ReadDiskID = 0x70"
| "di_cmd DI_Read = 0x71"
| "di_cmd DI_GetCoverStatus = 0x88"
| "di_cmd DI_Reset = 0x8a"
| "di_cmd DI_ReadUnencrypted = 0x8d"
| "di_cmd DI_OpenPartition = 0x8b"

definition DI_Success :: int where
  "DI_Success = 1"

text \<open>The array \<open>in\<close> of eight words, of which the first ones are set.\<close>

definition di_in :: "'w starlet \<Rightarrow> DI_Command \<Rightarrow> u32 list \<Rightarrow> bytes" where
  "di_in s cmd args = splice (local_buf s 32) 0 (words32 (push_bit 24 (of_nat (di_cmd cmd)) # args))"

text \<open>A local output buffer of \<open>n\<close> bytes after a call that has written \<open>out\<close> to its front.\<close>

definition filled :: "'w starlet \<Rightarrow> nat \<Rightarrow> bytes \<Rightarrow> bytes" where
  "filled s n out = splice (local_buf s n) 0 (take n out)"

definition DI_new :: "'w starlet \<Rightarrow> 'w \<Rightarrow> int \<times> 'w" where
  "DI_new s w = Resource_open s ''/dev/di'' Mode_None w"

definition diskID_at :: u32 where
  "diskID_at = 0x80000000"

definition DI_readDiskID :: "'w starlet \<Rightarrow> int \<Rightarrow> 'w cpu \<Rightarrow> bool \<times> 'w cpu" where
  "DI_readDiskID s di c =
     (let ((result, out), w) = Resource_ioctl s di (di_cmd DI_ReadDiskID) (di_in s DI_ReadDiskID []) 32 (io c)
      in (result = DI_Success, c\<lparr>io := w, mem := mem_write diskID_at (take 32 out) (mem c)\<rparr>))"

definition DI_readUnencrypted :: "'w starlet \<Rightarrow> int \<Rightarrow> nat \<Rightarrow> u32 \<Rightarrow> 'w \<Rightarrow> (bool \<times> bytes) \<times> 'w" where
  "DI_readUnencrypted s di sz offset w =
     (let ((result, out), w) =
        Resource_ioctl s di (di_cmd DI_ReadUnencrypted) (di_in s DI_ReadUnencrypted [of_nat sz, drop_bit 2 offset]) sz w
      in ((result = DI_Success, filled s sz out), w))"

definition DI_openPartition :: "'w starlet \<Rightarrow> int \<Rightarrow> u32 \<Rightarrow> 'w \<Rightarrow> bool \<times> 'w" where
  "DI_openPartition s di offset w =
     (let pairs = [In_Buf (di_in s DI_OpenPartition [drop_bit 2 offset]), Raw 0 0, Raw 0 0, Out_Buf 0x49e4, Out_Buf 32];
          ((result, _), w) = Resource_ioctlv s di (di_cmd DI_OpenPartition) 3 2 pairs w
      in (result = DI_Success, w))"

text \<open>\<open>read\<close> into a local buffer and into memory.\<close>

definition DI_read_local :: "'w starlet \<Rightarrow> int \<Rightarrow> nat \<Rightarrow> u32 \<Rightarrow> 'w \<Rightarrow> (bool \<times> bytes) \<times> 'w" where
  "DI_read_local s di sz offset w =
     (let ((result, out), w) = Resource_ioctl s di (di_cmd DI_Read) (di_in s DI_Read [of_nat sz, drop_bit 2 offset]) sz w
      in ((result = DI_Success, filled s sz out), w))"

definition DI_read :: "'w starlet \<Rightarrow> int \<Rightarrow> u32 \<Rightarrow> u32 \<Rightarrow> u32 \<Rightarrow> 'w cpu \<Rightarrow> bool \<times> 'w cpu" where
  "DI_read s di dst sz offset c =
     (let ((result, out), w) = Resource_ioctl s di (di_cmd DI_Read) (di_in s DI_Read [sz, drop_bit 2 offset]) (unat sz) (io c)
      in (result = DI_Success, c\<lparr>io := w, mem := mem_write dst (take (unat sz) out) (mem c)\<rparr>))"

definition DI_isInserted :: "'w starlet \<Rightarrow> int \<Rightarrow> 'w \<Rightarrow> (bool \<times> 'w) option" where
  "DI_isInserted s di w =
     (let ((result, out), w) = Resource_ioctl s di (di_cmd DI_GetCoverStatus) (di_in s DI_GetCoverStatus []) 32 w
      in if result \<noteq> DI_Success then Some (False, w)
         else do { v \<leftarrow> read_u32 (filled s 32 out) 0; Some (v = 2, w) })"

definition DI_reset :: "'w starlet \<Rightarrow> int \<Rightarrow> 'w \<Rightarrow> bool \<times> 'w" where
  "DI_reset s di w =
     (let ((result, _), w) = Resource_ioctl s di (di_cmd DI_Reset) (di_in s DI_Reset [1]) 0 w in (result = DI_Success, w))"

lemma length_filled [simp]: "length (filled s n out) = n"
  by (simp add: filled_def splice_def)

lemma DI_isInserted_total: "\<exists>b w'. DI_isInserted s di w = Some (b, w')"
proof -
  obtain result out w' where r: "Resource_ioctl s di (di_cmd DI_GetCoverStatus) (di_in s DI_GetCoverStatus []) 32 w = ((result, out), w')"
    by (metis surj_pair)
  obtain v where "read_u32 (filled s 32 out) 0 = Some v" using read_u32_total [of 0 "filled s 32 out"] by auto
  then show ?thesis using r by (auto simp: DI_isInserted_def)
qed

end
