(* ===== verification/Apploader.thy ===== *)
theory Apploader
  imports Disc_Drive
begin

text \<open>
  \<open>loader/Apploader.cc\<close> and \<open>loader/Dol.cc\<close>: the game is loaded from the disc by the program that is on the
  disc for this purpose, the apploader, and its executable is compared with the original one of the region.
  The code on the disc is the record \<open>disc_code\<close>; the hash function is a parameter.
\<close>

record 'w disc_code =
  ap_entry :: "u32 \<Rightarrow> 'w cpu \<Rightarrow> 'w cpu"
  ap_init :: "'w cpu \<Rightarrow> 'w cpu"
  ap_main :: "'w cpu \<Rightarrow> (u32 \<times> u32 \<times> u32) option \<times> 'w cpu"
  ap_close :: "'w cpu \<Rightarrow> u32 \<times> 'w cpu"

section \<open>The executable\<close>

record ModuleInfo =
  mi_hash :: bytes
  mi_size :: u32

definition moduleInfoArray :: "ModuleInfo list" where
  "moduleInfoArray = [
     \<lparr>mi_hash = [0x3C, 0x0E, 0xB6, 0x78, 0xBC, 0x11, 0x86, 0x93, 0x71, 0xE7,
        0x2D, 0x46, 0xA6, 0xBB, 0xC3, 0xA1, 0x69, 0x5A, 0x48, 0x48], mi_size = 0x00385140\<rparr>,
     \<lparr>mi_hash = [0x28, 0xDA, 0xFA, 0x4C, 0xD2, 0x8A, 0xB7, 0x1C, 0xC8, 0xC4,
        0x4E, 0x64, 0xC8, 0x4B, 0x27, 0x66, 0x5B, 0x68, 0x36, 0x97], mi_size = 0x00380DC0\<rparr>,
     \<lparr>mi_hash = [0x3E, 0x4F, 0x90, 0x52, 0xCA, 0xF1, 0xCB, 0xF0, 0xC8, 0x71,
        0xA3, 0x10, 0x60, 0xE1, 0x17, 0x67, 0xFE, 0x09, 0x31, 0xAE], mi_size = 0x00384AC0\<rparr>,
     \<lparr>mi_hash = [0xF5, 0x88, 0x03, 0x23, 0x1F, 0x60, 0x1C, 0xFC, 0x02, 0x64,
        0xF0, 0xBA, 0xDD, 0x0C, 0x7C, 0x2D, 0x35, 0xBF, 0x29, 0xA6], mi_size = 0x00373160\<rparr>]"

definition GetRegionIndex :: "memory \<Rightarrow> nat option" where
  "GetRegionIndex m =
     (let c = m 0x80000003
      in if c = 0x50 then Some 0 else if c = 0x45 then Some 1 else if c = 0x4A then Some 2 else if c = 0x4B then Some 3 else None)"

definition GetStartAddress :: u32 where
  "GetStartAddress = 0x80004000"

definition GetSize :: "memory \<Rightarrow> u32 option" where
  "GetSize m = map_option (\<lambda>i. mi_size (moduleInfoArray ! i)) (GetRegionIndex m)"

definition IsClean :: "(bytes \<Rightarrow> bytes) \<Rightarrow> memory \<Rightarrow> bool option" where
  "IsClean sha1 m =
     map_option (\<lambda>i. mi_hash (moduleInfoArray ! i) = sha1 (mem_read m GetStartAddress (unat (mi_size (moduleInfoArray ! i)))))
       (GetRegionIndex m)"

section \<open>The disc\<close>

definition IsDiskIDValid :: "u32 \<Rightarrow> bool" where
  "IsDiskIDValid diskID \<longleftrightarrow>
     drop_bit 8 diskID = (push_bit 16 0x52 OR push_bit 8 0x4D OR 0x43) \<and> diskID AND 0xFF \<in> {0x45, 0x50, 0x4A, 0x4B}"

definition IsDevelopmentConsole :: "memory \<Rightarrow> bool" where
  "IsDevelopmentConsole m \<longleftrightarrow> mem_u32 m 0x80003118 > 0x04000000"

text \<open>A partition is its shifted offset and its type; the loops over the partitions of a group and over the groups.\<close>

function data_partition :: "bytes \<Rightarrow> nat \<Rightarrow> nat \<Rightarrow> (u32 \<times> u32) option option" where
  "data_partition parts j n =
     (if j < n then do {
        off \<leftarrow> read_u32 parts (8 * j);
        type \<leftarrow> read_u32 parts (8 * j + 4);
        if type = 0 then Some (Some (off, type)) else data_partition parts (j + 1) n
      }
      else Some None)"
  by pat_completeness auto
termination
  by (relation "measure (\<lambda>(parts, j, n). n - j)") auto

function find_in_groups :: "'w starlet \<Rightarrow> int \<Rightarrow> bytes \<Rightarrow> nat \<Rightarrow> 'w \<Rightarrow> ((u32 \<times> u32) option \<times> 'w) option" where
  "find_in_groups s di groups i w =
     (if i < 4 then do {
        partitionCount \<leftarrow> read_u32 groups (8 * i);
        shifted \<leftarrow> read_u32 groups (8 * i + 4);
        let offset = push_bit 2 shifted;
        if partitionCount = 0 \<or> partitionCount > 4 \<or> offset = 0 then find_in_groups s di groups (i + 1) w
        else
          let ((ok, parts), w) = DI_readUnencrypted s di 32 offset w
          in if \<not> ok then Some (None, w)
             else do {
               p \<leftarrow> data_partition parts 0 (unat partitionCount);
               case p of Some p \<Rightarrow> Some (Some p, w) | None \<Rightarrow> find_in_groups s di groups (i + 1) w
             }
      }
      else Some (None, w))"
  by pat_completeness auto
termination
  by (relation "measure (\<lambda>(s, di, groups, i, w). 4 - i)") auto

declare data_partition.simps [simp del] find_in_groups.simps [simp del]

definition FindGamePartition :: "'w starlet \<Rightarrow> int \<Rightarrow> 'w \<Rightarrow> ((u32 \<times> u32) option \<times> 'w) option" where
  "FindGamePartition s di w =
     (let ((ok, groups), w) = DI_readUnencrypted s di 32 0x40000 w
      in if \<not> ok then Some (None, w) else find_in_groups s di groups 0 w)"

section \<open>Loading\<close>

text \<open>Polls the cover until a disc is, or is not, inserted; \<^term>\<open>None\<close> is a loop that does not end.\<close>

partial_function (option) await_inserted :: "'w starlet \<Rightarrow> int \<Rightarrow> bool \<Rightarrow> 'w \<Rightarrow> 'w option" where
  "await_inserted s di b w = do {
     (inserted, w) \<leftarrow> DI_isInserted s di w;
     if inserted = b then Some w else await_inserted s di b (wait_ms s 100 w)
   }"

partial_function (option) load_sections :: "'w starlet \<Rightarrow> 'w disc_code \<Rightarrow> int \<Rightarrow> 'w cpu \<Rightarrow> (bool \<times> 'w cpu) option" where
  "load_sections s code di c =
     (case ap_main code c of (r, c) \<Rightarrow>
        (case r of None \<Rightarrow> Some (True, c)
         | Some (dst, sz, shiftedOffset) \<Rightarrow>
             (case DI_read s di dst sz (push_bit 2 shiftedOffset) c of (ok, c) \<Rightarrow>
                if \<not> ok then Some (False, c) else load_sections s code di c)))"

text \<open>What follows once the partition is found.\<close>

definition run_apploader :: "'w starlet \<Rightarrow> 'w disc_code \<Rightarrow> int \<Rightarrow> u32 \<Rightarrow> 'w cpu \<Rightarrow> (u32 option \<times> 'w cpu) option" where
  "run_apploader s code di shiftedOffset c =
     (let (ok, w) = DI_openPartition s di (push_bit 2 shiftedOffset) (io c);
          c = c\<lparr>io := w\<rparr>
      in if \<not> ok then Some (None, c)
         else
           let ((ok, header), w) = DI_read_local s di 0x20 0x2440 (io c);
               c = c\<lparr>io := w\<rparr>
           in if \<not> ok then Some (None, c)
              else do {
                entry \<leftarrow> read_u32 header 0x10;
                sz \<leftarrow> read_u32 header 0x14;
                trailer \<leftarrow> read_u32 header 0x18;
                let (ok, c) = DI_read s di 0x81200000 (sz + trailer) 0x2460 c;
                if \<not> ok then Some (None, c)
                else do {
                  let c = ap_init code (ap_entry code entry c);
                  let c = (case GetSize (mem c) of None \<Rightarrow> c
                    | Some n \<Rightarrow> c\<lparr>mem := mem_fill GetStartAddress 0 (unat n) (mem c)\<rparr>);
                  (ok, c) \<leftarrow> load_sections s code di c;
                  if \<not> ok then Some (None, c)
                  else let (entry, c) = ap_close code c in Some (Some entry, c)
                }
              })"

definition LoadAndRun :: "'w starlet \<Rightarrow> 'w disc_code \<Rightarrow> int \<Rightarrow> 'w cpu \<Rightarrow> (u32 option \<times> 'w cpu) option" where
  "LoadAndRun s code di c =
     (let (ok, c) = DI_readDiskID s di c
      in if \<not> ok then
           let (dolphin, w) = IsDolphin s (io c)
           in Some (None, c\<lparr>io := if \<not> dolphin \<and> IsDevelopmentConsole (mem c) then wait_ms s 10000 w else w\<rparr>)
         else
           let diskID = mem_u32 (mem c) diskID_at;
               c = c\<lparr>mem := write_words 0x80003180 [diskID] (mem c)\<rparr>
           in if \<not> IsDiskIDValid diskID then do {
                w \<leftarrow> await_inserted s di False (io c);
                Some (None, c\<lparr>io := w\<rparr>)
              }
              else do {
                (p, w) \<leftarrow> FindGamePartition s di (io c);
                let c = c\<lparr>io := w\<rparr>;
                case p of None \<Rightarrow> Some (None, c) | Some (shiftedOffset, _) \<Rightarrow> run_apploader s code di shiftedOffset c
              })"

end
