(* ===== verification/Boot_FS.thy ===== *)
theory Boot_FS
  imports Starlet
begin

text \<open>
  \<open>common/FS.cc\<close>: the file system of the console's flash memory, as the stub and the loader use it.  The
  device of the security processor is specified by a relation on an abstract file system, with every error it
  may report; over it a copy is proved to be a copy.
\<close>

section \<open>The code\<close>

datatype FS_Ioctl = FS_CreateDir | FS_Delete | FS_Rename | FS_CreateFile | FS_GetFileStats

primrec fs_cmd :: "FS_Ioctl \<Rightarrow> nat" where
  "fs_cmd FS_CreateDir = 0x3"
| "fs_cmd FS_Delete = 0x7"
| "fs_cmd FS_Rename = 0x8"
| "fs_cmd FS_CreateFile = 0x9"
| "fs_cmd FS_GetFileStats = 0xb"

primrec mode_byte :: "Mode \<Rightarrow> u8" where
  "mode_byte Mode_None = 0"
| "mode_byte Mode_Read = 1"
| "mode_byte Mode_Write = 2"
| "mode_byte Mode_Both = 3"

definition chars :: "string \<Rightarrow> bytes" where
  "chars = map of_char"

text \<open>
  \<open>strlcpy\<close> of \<open>common/Strlcpy.c\<close> into \<open>dst\<close> from offset \<open>i\<close> on, with \<open>n\<close> bytes of room: the loop copies until one
  byte is left or the source ends, then writes the zero.  The result is the length of the source.
\<close>

definition strlcpy :: "bytes \<Rightarrow> nat \<Rightarrow> string \<Rightarrow> nat \<Rightarrow> bytes \<times> nat" where
  "strlcpy dst i src n = (if n > 0 then splice dst i (take (n - 1) (chars src) @ [0]) else dst, length src)"

definition FS_new :: "'w starlet \<Rightarrow> 'w \<Rightarrow> int \<times> 'w" where
  "FS_new s w = Resource_open s ''/dev/fs'' Mode_None w"

definition path_and_perms :: "bytes \<Rightarrow> u8 \<Rightarrow> Mode \<Rightarrow> Mode \<Rightarrow> Mode \<Rightarrow> bytes" where
  "path_and_perms inp attrs ownerPerms groupPerms otherPerms =
     inp[0x46 := mode_byte ownerPerms, 0x47 := mode_byte groupPerms, 0x48 := mode_byte otherPerms, 0x49 := attrs]"

definition FS_createDir :: "'w starlet \<Rightarrow> int \<Rightarrow> string \<Rightarrow> u8 \<Rightarrow> Mode \<Rightarrow> Mode \<Rightarrow> Mode \<Rightarrow> 'w \<Rightarrow> bool \<times> 'w" where
  "FS_createDir s fs path attrs ownerPerms groupPerms otherPerms w =
     (let (inp, n) = strlcpy (local_buf s 0x4c) 0x6 path 0x40
      in if n \<ge> 0x40 then (False, w)
         else
           let ((result, _), w) =
             Resource_ioctl s fs (fs_cmd FS_CreateDir) (path_and_perms inp attrs ownerPerms groupPerms otherPerms) 0 w
           in (result = 0, w))"

definition FS_rename :: "'w starlet \<Rightarrow> int \<Rightarrow> string \<Rightarrow> string \<Rightarrow> 'w \<Rightarrow> bool \<times> 'w" where
  "FS_rename s fs srcPath dstPath w =
     (let (inp, n) = strlcpy (local_buf s 0x80) 0 srcPath 0x40
      in if n \<ge> 0x40 then (False, w)
         else
           let (inp, n) = strlcpy inp 0x40 dstPath 0x40
           in if n \<ge> 0x40 then (False, w)
              else let ((result, _), w) = Resource_ioctl s fs (fs_cmd FS_Rename) inp 0 w in (result = 0, w))"

definition FS_erase :: "'w starlet \<Rightarrow> int \<Rightarrow> string \<Rightarrow> 'w \<Rightarrow> bool \<times> 'w" where
  "FS_erase s fs path w =
     (let (inp, n) = strlcpy (local_buf s 0x40) 0 path 0x40
      in if n \<ge> 0x40 then (False, w)
         else let ((result, _), w) = Resource_ioctl s fs (fs_cmd FS_Delete) inp 0 w in (result = 0, w))"

definition FS_createFile :: "'w starlet \<Rightarrow> int \<Rightarrow> string \<Rightarrow> u8 \<Rightarrow> Mode \<Rightarrow> Mode \<Rightarrow> Mode \<Rightarrow> 'w \<Rightarrow> bool \<times> 'w" where
  "FS_createFile s fs path attrs ownerPerms groupPerms otherPerms w =
     (let (inp, n) = strlcpy (local_buf s 0x4c) 0x6 path 0x40
      in if n \<ge> 0x40 then (False, w)
         else
           let ((result, _), w) =
             Resource_ioctl s fs (fs_cmd FS_CreateFile) (path_and_perms inp attrs ownerPerms groupPerms otherPerms) 0 w
           in (result = 0, w))"

text \<open>The default arguments.\<close>

definition FS_createFile' :: "'w starlet \<Rightarrow> int \<Rightarrow> string \<Rightarrow> 'w \<Rightarrow> bool \<times> 'w" where
  "FS_createFile' s fs path w = FS_createFile s fs path 0 Mode_Both Mode_Both Mode_Both w"

text \<open>The size and the offset of an open file, when the call succeeds.\<close>

definition File_getStats :: "'w starlet \<Rightarrow> int \<Rightarrow> 'w \<Rightarrow> ((int \<times> (u32 \<times> u32)) \<times> 'w) option" where
  "File_getStats s fd w =
     (let ((result, out), w) = Resource_ioctl s fd (fs_cmd FS_GetFileStats) [] 8 w
      in if result \<ge> 0 then do {
           sz \<leftarrow> read_u32 out 0;
           offset \<leftarrow> read_u32 out 4;
           Some ((result, sz, offset), w)
         }
         else Some ((result, 0, 0), w))"

text \<open>
  \<open>return false\<close> in a function whose result is an \<open>optional\<close> of \<open>u32\<close> is the value 0, not the empty
  optional.  The bytes are those written to \<open>dst\<close>; every exit closes the file.
\<close>

definition FS_readFile :: "'w starlet \<Rightarrow> string \<Rightarrow> u32 \<Rightarrow> 'w \<Rightarrow> ((u32 option \<times> bytes) \<times> 'w) option" where
  "FS_readFile s path sz w =
     (let (f, w) = Resource_open s path Mode_Read w
      in if \<not> Resource_ok f then Some ((Some 0, []), w)
         else do {
           ((result, stats), w) \<leftarrow> File_getStats s f w;
           if result < 0 \<or> fst stats > sz then Some ((Some 0, []), Resource_destroy s f w)
           else
             let ((result, out), w) = File_read s f (unat sz) w
             in Some ((if result < 0 then None else Some (word_of_int result), out), Resource_destroy s f w)
         })"

definition FS_writeFile :: "'w starlet \<Rightarrow> int \<Rightarrow> string \<Rightarrow> bytes \<Rightarrow> 'w \<Rightarrow> bool \<times> 'w" where
  "FS_writeFile s fs path src w =
     (let (_, w) = FS_erase s fs path w;
          (_, w) = FS_createFile' s fs path w;
          (f, w) = Resource_open s path Mode_Write w
      in if \<not> Resource_ok f then (False, w)
         else
           let (result, w) = File_write s f src w
           in (result \<ge> 0 \<and> result = int (length src), Resource_destroy s f w))"

text \<open>The loop of \<open>copyFile\<close> over chunks of 8192 bytes, which are what the source file has given.\<close>

definition CHUNK_SIZE :: nat where
  "CHUNK_SIZE = 8192"

function file_copy_loop :: "'w starlet \<Rightarrow> int \<Rightarrow> int \<Rightarrow> nat \<Rightarrow> 'w \<Rightarrow> bool \<times> 'w" where
  "file_copy_loop s srcFile dstFile sz w =
     (if sz > 0 then
        let chunkSize = min sz CHUNK_SIZE;
            ((result, out), w) = File_read s srcFile chunkSize w
        in if result < 0 \<or> result \<noteq> int chunkSize then (False, w)
           else
             let (result, w) = File_write s dstFile (splice (local_buf s chunkSize) 0 (take chunkSize out)) w
             in if result < 0 \<or> result \<noteq> int chunkSize then (False, w)
                else file_copy_loop s srcFile dstFile (sz - chunkSize) w
      else (True, w))"
  by pat_completeness auto
termination
  by (relation "measure (\<lambda>(s, f, g, sz, w). sz)") (auto simp: CHUNK_SIZE_def)

declare file_copy_loop.simps [simp del]

definition FS_copyFile :: "'w starlet \<Rightarrow> int \<Rightarrow> string \<Rightarrow> string \<Rightarrow> 'w \<Rightarrow> (bool \<times> 'w) option" where
  "FS_copyFile s fs srcPath dstPath w =
     (let (_, w) = FS_erase s fs dstPath w;
          (_, w) = FS_createFile' s fs dstPath w;
          (dstFile, w) = Resource_open s dstPath Mode_Write w
      in if \<not> Resource_ok dstFile then Some (False, w)
         else
           let (srcFile, w) = Resource_open s srcPath Mode_Read w
           in if \<not> Resource_ok srcFile then Some (False, Resource_destroy s dstFile w)
              else do {
                ((result, stats), w) \<leftarrow> File_getStats s srcFile w;
                if result < 0 then Some (False, Resource_destroy s dstFile (Resource_destroy s srcFile w))
                else
                  let (copied, w) = file_copy_loop s srcFile dstFile (unat (fst stats)) w
                  in Some (copied, Resource_destroy s dstFile (Resource_destroy s srcFile w))
              })"

section \<open>The device\<close>

text \<open>
  An abstract file system: the content of each path and, for each handle in use, its path, its position and its
  mode.  \<open>fs_step\<close> is what one request may do: it may fail and change nothing, it may write less than it has
  been asked, otherwise it does what its name says.  Requests to other devices leave the file system alone.
\<close>

record nand =
  files :: "bytes \<Rightarrow> bytes option"
  handles :: "int \<Rightarrow> (bytes \<times> nat \<times> Mode) option"

definition path_at :: "bytes \<Rightarrow> nat \<Rightarrow> bytes" where
  "path_at inp i = takeWhile (\<lambda>c. c \<noteq> 0) (drop i inp)"

fun request_fd :: "request \<Rightarrow> int option" where
  "request_fd (Req_Open path m) = None"
| "request_fd (Req_Close fd) = Some fd"
| "request_fd (Req_Read fd n) = Some fd"
| "request_fd (Req_Write fd b) = Some fd"
| "request_fd (Req_Ioctl fd cmd inp n) = Some fd"
| "request_fd (Req_Ioctlv fd cmd i n pairs) = Some fd"

definition is_device :: "string \<Rightarrow> bool" where
  "is_device path \<longleftrightarrow> take 5 path = ''/dev/''"

inductive fs_step :: "int \<Rightarrow> request \<Rightarrow> nand \<Rightarrow> int \<Rightarrow> bytes list \<Rightarrow> nand \<Rightarrow> bool" for fs where
  Fail: "result < 0 \<Longrightarrow> (\<nexists>fd. r = Req_Close fd) \<Longrightarrow> fs_step fs r v result outs v"
| Device: "is_device path \<Longrightarrow> fs_step fs (Req_Open path m) v result outs v"
| Other: "request_fd r = Some fd \<Longrightarrow> fd \<noteq> fs \<Longrightarrow> handles v fd = None \<Longrightarrow> fs_step fs r v result outs v"
| Open: "files v (chars path) \<noteq> None \<Longrightarrow> fd \<ge> 0 \<Longrightarrow> fd \<noteq> fs \<Longrightarrow> handles v fd = None \<Longrightarrow>
    fs_step fs (Req_Open path m) v fd outs (v\<lparr>handles := (handles v)(fd \<mapsto> (chars path, 0, m))\<rparr>)"
| Close: "fs_step fs (Req_Close fd) v result outs (v\<lparr>handles := (handles v)(fd := None)\<rparr>)"
| Read: "handles v fd = Some (p, k, m) \<Longrightarrow> m \<in> {Mode_Read, Mode_Both} \<Longrightarrow> files v p = Some c \<Longrightarrow>
    out = take n (drop k c) \<Longrightarrow>
    fs_step fs (Req_Read fd n) v (int (length out)) [out] (v\<lparr>handles := (handles v)(fd \<mapsto> (p, k + length out, m))\<rparr>)"
| Write: "handles v fd = Some (p, k, m) \<Longrightarrow> m \<in> {Mode_Write, Mode_Both} \<Longrightarrow> files v p = Some c \<Longrightarrow> n \<le> length b \<Longrightarrow>
    fs_step fs (Req_Write fd b) v (int n) outs
      (v\<lparr>files := (files v)(p \<mapsto> take k c @ take n b @ drop (k + n) c), handles := (handles v)(fd \<mapsto> (p, k + n, m))\<rparr>)"
| Stats: "handles v fd = Some (p, k, m) \<Longrightarrow> files v p = Some c \<Longrightarrow> length c < 2 ^ 32 \<Longrightarrow>
    fs_step fs (Req_Ioctl fd 0xb inp 8) v 0 [words32 [of_nat (length c), of_nat k]] v"
| Delete: "fs_step fs (Req_Ioctl fs 7 inp n) v 0 outs (v\<lparr>files := (files v)(path_at inp 0 := None)\<rparr>)"
| Create: "files v (path_at inp 6) = None \<Longrightarrow>
    fs_step fs (Req_Ioctl fs 9 inp n) v 0 outs (v\<lparr>files := (files v)(path_at inp 6 \<mapsto> [])\<rparr>)"

definition nand_device :: "'w starlet \<Rightarrow> int \<Rightarrow> ('w \<Rightarrow> nand) \<Rightarrow> bool" where
  "nand_device s fs view \<longleftrightarrow> (\<forall>r w result outs w'. ipc s r w = ((result, outs), w') \<longrightarrow> fs_step fs r (view w) result outs (view w'))"

lemma device_step: "nand_device s fs view \<Longrightarrow> ipc s r w = ((result, outs), w') \<Longrightarrow> fs_step fs r (view w) result outs (view w')"
  by (simp add: nand_device_def)

inductive_cases OpenE: "fs_step fs (Req_Open path m) v result outs v'"
inductive_cases CloseE: "fs_step fs (Req_Close fd) v result outs v'"
inductive_cases ReadE: "fs_step fs (Req_Read fd n) v result outs v'"
inductive_cases WriteE: "fs_step fs (Req_Write fd b) v result outs v'"
inductive_cases IoctlE: "fs_step fs (Req_Ioctl fd cmd inp n) v result outs v'"

definition nul_free :: "string \<Rightarrow> bool" where
  "nul_free path \<longleftrightarrow> 0 \<notin> set (chars path)"

lemma takeWhile_nul:
  assumes "take (length q + 1) xs = q @ [0 :: u8]" and "0 \<notin> set q"
  shows "takeWhile (\<lambda>c. c \<noteq> 0) xs = q"
proof -
  have "xs = q @ 0 # drop (length q + 1) xs" using append_take_drop_id [of "length q + 1" xs] unfolding assms(1) by simp
  moreover have "takeWhile (\<lambda>c. c \<noteq> 0) (q @ 0 # ys) = q" for ys
    using assms(2) by (subst takeWhile_append2) auto
  ultimately show ?thesis by metis
qed

lemma path_at_strlcpy:
  assumes "nul_free path" and "length path < n" and "i + n \<le> length dst"
  shows "path_at (fst (strlcpy dst i path n)) i = chars path"
proof -
  have len: "length (chars path) = length path" by (simp add: chars_def)
  have "drop i (splice dst i (take (n - 1) (chars path) @ [0])) = chars path @ 0 # drop (i + length path + 1) dst"
    using assms len by (simp add: splice_def)
  then show ?thesis using assms(1,2)
    by (auto simp: strlcpy_def path_at_def nul_free_def takeWhile_append takeWhile_eq_all_conv [THEN iffD2])
qed

section \<open>The operations on the device\<close>

lemma erase_view:
  assumes "nand_device s fs view" and "nul_free path" and "length path < 0x40" and "FS_erase s fs path w = (b, w')"
  shows "handles (view w') = handles (view w) \<and> files (view w') \<in> {files (view w), (files (view w))(chars path := None)}"
proof -
  obtain result outs where "ipc s (Req_Ioctl fs 7 (fst (strlcpy (local_buf s 0x40) 0 path 0x40)) 0) w = ((result, outs), w')"
    using assms(3,4) by (auto simp: FS_erase_def Resource_ioctl_def strlcpy_def split: prod.splits)
  from device_step [OF assms(1) this] show ?thesis
    using path_at_strlcpy [OF assms(2,3), of 0 "local_buf s 0x40"] by (auto elim!: IoctlE)
qed

lemma createFile_view:
  assumes "nand_device s fs view" and "nul_free path" and "length path < 0x40" and "FS_createFile' s fs path w = (b, w')"
  shows "handles (view w') = handles (view w) \<and>
    (files (view w') = files (view w) \<or> files (view w) (chars path) = None \<and> files (view w') = (files (view w))(chars path \<mapsto> []))"
proof -
  let ?inp = "path_and_perms (fst (strlcpy (local_buf s 0x4c) 6 path 0x40)) 0 Mode_Both Mode_Both Mode_Both"
  have "path_at ?inp 6 = chars path"
  proof -
    let ?b = "fst (strlcpy (local_buf s 0x4c) 6 path 0x40)"
    have len: "length (chars path) = length path" by (simp add: chars_def)
    have "take (length path + 1) (drop 6 ?b) = chars path @ [0]"
      using assms(3) len by (simp add: strlcpy_def splice_def)
    moreover have "take (length path + 1) (drop 6 ?inp) = take (length path + 1) (drop 6 ?b)"
      using assms(3) by (simp add: path_and_perms_def drop_update_swap)
    ultimately show ?thesis using assms(2) len takeWhile_nul [of "chars path" "drop 6 ?inp"]
      by (simp add: path_at_def nul_free_def)
  qed
  moreover obtain result outs where "ipc s (Req_Ioctl fs 9 ?inp 0) w = ((result, outs), w')"
    using assms(3,4) by (auto simp: FS_createFile'_def FS_createFile_def Resource_ioctl_def strlcpy_def split: prod.splits)
  ultimately show ?thesis using device_step [OF assms(1), of "Req_Ioctl fs 9 ?inp 0" w result outs w'] by (auto elim!: IoctlE)
qed

lemma open_view:
  assumes "nand_device s fs view" and "Resource_open s path m w = (fd, w')" and "\<not> is_device path"
  shows "(fd < 0 \<and> view w' = view w) \<or> (fd \<ge> 0 \<and> fd \<noteq> fs \<and> handles (view w) fd = None \<and> files (view w) (chars path) \<noteq> None \<and>
    view w' = (view w)\<lparr>handles := (handles (view w))(fd \<mapsto> (chars path, 0, m))\<rparr>)"
proof -
  obtain outs where "ipc s (Req_Open path m) w = ((fd, outs), w')"
    using assms(2) by (auto simp: Resource_open_def split: prod.splits)
  from device_step [OF assms(1) this] show ?thesis using assms(3) by (auto elim: OpenE)
qed

lemma destroy_view:
  assumes "nand_device s fs view" and "fd \<ge> 0"
  shows "view (Resource_destroy s fd w) = (view w)\<lparr>handles := (handles (view w))(fd := None)\<rparr>"
proof -
  obtain result outs w' where ipc: "ipc s (Req_Close fd) w = ((result, outs), w')" by (metis surj_pair)
  from device_step [OF assms(1) this] have "view w' = (view w)\<lparr>handles := (handles (view w))(fd := None)\<rparr>"
    by (auto elim!: CloseE simp: fun_upd_idem)
  then show ?thesis using ipc assms(2) by (simp add: Resource_destroy_def Resource_close_def)
qed

lemma read_view:
  assumes "nand_device s fs view" and "File_read s fd n w = ((result, out), w')"
    and "handles (view w) fd = Some (p, k, m)" and "files (view w) p = Some c"
  shows "(result < 0 \<and> view w' = view w) \<or> (out = take n (drop k c) \<and> result = int (length out) \<and>
    view w' = (view w)\<lparr>handles := (handles (view w))(fd \<mapsto> (p, k + length out, m))\<rparr>)"
proof -
  obtain outs where ipc: "ipc s (Req_Read fd n) w = ((result, outs), w')" and out: "out = first_out outs"
    using assms(2) by (auto simp: File_read_def split: prod.splits)
  from device_step [OF assms(1) ipc] show ?thesis using assms(3,4) out by (auto elim: ReadE simp: first_out_def)
qed

lemma write_view:
  assumes "nand_device s fs view" and "File_write s fd b w = (result, w')"
    and "handles (view w) fd = Some (p, k, m)" and "files (view w) p = Some c"
  shows "(result < 0 \<and> view w' = view w) \<or> (\<exists>n \<le> length b. result = int n \<and>
    view w' = (view w)\<lparr>files := (files (view w))(p \<mapsto> take k c @ take n b @ drop (k + n) c),
      handles := (handles (view w))(fd \<mapsto> (p, k + n, m))\<rparr>)"
proof -
  obtain outs where ipc: "ipc s (Req_Write fd b) w = ((result, outs), w')"
    using assms(2) by (auto simp: File_write_def split: prod.splits)
  from device_step [OF assms(1) ipc] show ?thesis using assms(3,4) by (auto elim!: WriteE)
qed

lemma stats_view:
  assumes "nand_device s fs view" and "handles (view w) fd = Some (p, k, m)" and "files (view w) p = Some c" and "fd \<noteq> fs"
  shows "\<exists>result stats w'. File_getStats s fd w = Some ((result, stats), w') \<and> view w' = view w \<and>
    (result \<ge> 0 \<longrightarrow> fst stats = of_nat (length c) \<and> length c < 2 ^ 32)"
proof -
  obtain result outs w' where ipc: "ipc s (Req_Ioctl fd 0xb [] 8) w = ((result, outs), w')" by (metis surj_pair)
  have r: "(result < 0 \<or> result = 0 \<and> outs = [words32 [of_nat (length c), of_nat k]] \<and> length c < 2 ^ 32) \<and> view w' = view w"
    using device_step [OF assms(1) ipc] assms(2-4) by (auto elim: IoctlE)
  have reads: "read_u32 (words32 [of_nat (length c), of_nat k]) 0 = Some (of_nat (length c))"
    "read_u32 (words32 [of_nat (length c), of_nat k]) 4 = Some (of_nat k)"
    using read_words32 [of 0 "[of_nat (length c), of_nat k]"] read_words32 [of 1 "[of_nat (length c), of_nat k]"] by simp_all
  show ?thesis using r ipc reads by (auto simp: File_getStats_def Resource_ioctl_def first_out_def)
qed

section \<open>Copies\<close>

text \<open>
  While a copy runs: \<open>i\<close> bytes of the content \<open>c\<close> have been read, \<open>k\<close> bytes have been written over what the
  target held, \<open>d\<close>.
\<close>

definition copying :: "bytes \<Rightarrow> bytes \<Rightarrow> int \<Rightarrow> int \<Rightarrow> bytes \<Rightarrow> bytes \<Rightarrow> nat \<Rightarrow> nat \<Rightarrow> nand \<Rightarrow> nand \<Rightarrow> bool" where
  "copying src dst f g c d i k v0 v \<longleftrightarrow> f \<noteq> g \<and> src \<noteq> dst \<and> i \<le> length c \<and> k \<le> length c \<and> files v src = Some c \<and>
     handles v f = Some (src, i, Mode_Read) \<and> handles v g = Some (dst, k, Mode_Write) \<and>
     (\<forall>h. h \<noteq> f \<longrightarrow> h \<noteq> g \<longrightarrow> handles v h = handles v0 h) \<and>
     (\<forall>p. p \<noteq> dst \<longrightarrow> files v p = files v0 p) \<and> files v dst = Some (take k c @ drop k d)"

text \<open>What a copy that has stopped leaves behind.\<close>

definition copied :: "bytes \<Rightarrow> int \<Rightarrow> int \<Rightarrow> bytes \<Rightarrow> bytes \<Rightarrow> bool \<Rightarrow> nand \<Rightarrow> nand \<Rightarrow> bool" where
  "copied dst f g c d b v0 v \<longleftrightarrow>
     (\<forall>h. h \<noteq> f \<longrightarrow> h \<noteq> g \<longrightarrow> handles v h = handles v0 h) \<and> (\<forall>p. p \<noteq> dst \<longrightarrow> files v p = files v0 p) \<and>
     (b \<longrightarrow> files v dst = Some (c @ drop (length c) d))"

lemma copying_stop: "copying src dst f g c d i k v0 v \<Longrightarrow> b \<longrightarrow> k = length c \<Longrightarrow> copied dst f g c d b v0 v"
  by (auto simp: copying_def copied_def)

lemma copy_read:
  assumes dev: "nand_device s fs view" and inv: "copying src dst f g c d k k v0 (view w)"
    and n: "n \<le> length c - k" and r: "File_read s f n w = ((result, out), w1)"
  shows "if result = int n then copying src dst f g c d (k + n) k v0 (view w1) \<and> out = take n (drop k c)
    else copying src dst f g c d k k v0 (view w1)"
proof -
  have f: "handles (view w) f = Some (src, k, Mode_Read)" "files (view w) src = Some c"
    using inv by (auto simp: copying_def)
  from read_view [OF dev r f] consider "result < 0" "view w1 = view w"
    | "out = take n (drop k c)" "result = int n" "view w1 = (view w)\<lparr>handles := (handles (view w))(f \<mapsto> (src, k + n, Mode_Read))\<rparr>"
    using n by auto
  then show ?thesis using inv n by cases (auto simp: copying_def)
qed

lemma copy_write:
  assumes dev: "nand_device s fs view" and inv: "copying src dst f g c d (k + n) k v0 (view w)"
    and wr: "File_write s g (take n (drop k c)) w = (result, w1)"
  shows "if result = int n then copying src dst f g c d (k + n) (k + n) v0 (view w1) else copied dst f g c d False v0 (view w1)"
proof -
  have g: "handles (view w) g = Some (dst, k, Mode_Write)" "files (view w) dst = Some (take k c @ drop k d)"
    and k: "k + n \<le> length c" using inv by (auto simp: copying_def)
  have kept: "copied dst f g c d False v0 ((view w)\<lparr>files := (files (view w))(dst := x), handles := (handles (view w))(g := y)\<rparr>)" for x y
    using inv by (auto simp: copying_def copied_def)
  from write_view [OF dev wr g] consider "result < 0" "view w1 = view w"
    | m where "result = int m" "m \<le> n" "view w1 = (view w)\<lparr>files := (files (view w))(dst \<mapsto> take k (take k c @ drop k d) @
        take m (take n (drop k c)) @ drop (k + m) (take k c @ drop k d)), handles := (handles (view w))(g \<mapsto> (dst, k + m, Mode_Write))\<rparr>"
    using k by auto
  then show ?thesis
  proof cases
    case 1
    then show ?thesis using copying_stop [OF inv, of False] by auto
  next
    case 2
    have "take k (take k c @ drop k d) @ take n (take n (drop k c)) @ drop (k + n) (take k c @ drop k d) = take (k + n) c @ drop (k + n) d"
      using k by (simp add: take_add add.commute)
    then show ?thesis using 2 inv kept by (auto simp: copying_def)
  qed
qed

lemma file_copy_loop_view:
  assumes dev: "nand_device s fs view"
  shows "copying src dst f g c d k k v0 (view w) \<Longrightarrow> sz = length c - k \<Longrightarrow> file_copy_loop s f g sz w = (b, w') \<Longrightarrow>
    copied dst f g c d b v0 (view w')"
proof (induction sz arbitrary: k w rule: less_induct)
  case (less sz)
  define n where "n = min sz CHUNK_SIZE"
  have n: "n \<le> length c - k" using less.prems(2) by (simp add: n_def)
  obtain result out w1 where r: "File_read s f n w = ((result, out), w1)" by (metis surj_pair)
  note read = copy_read [OF dev less.prems(1) n r]
  let ?b = "splice (local_buf s n) 0 (take n out)"
  obtain written w2 where wr: "File_write s g ?b w1 = (written, w2)" by (metis surj_pair)
  have loop: "file_copy_loop s f g sz w = (if sz > 0 then if result \<noteq> int n then (False, w1)
      else if written \<noteq> int n then (False, w2) else file_copy_loop s f g (sz - n) w2 else (True, w))"
    using r wr by (subst file_copy_loop.simps) (auto simp: n_def Let_def)
  show ?case
  proof (cases "sz > 0 \<and> result = int n")
    case False
    then show ?thesis using less.prems read loop copying_stop [of src dst f g c d k k v0]
      by (auto simp: copying_def split: if_splits)
  next
    case True
    then have b: "?b = take n (drop k c)" using read n by (simp add: splice_def min_def)
    have "copying src dst f g c d (k + n) k v0 (view w1)" using True read by simp
    from copy_write [OF dev this wr [unfolded b]]
    show ?thesis using less.IH [of "sz - n" "k + n" w2] less.prems(2,3) loop True
      by (auto simp: n_def CHUNK_SIZE_def split: if_splits)
  qed
qed

section \<open>Files\<close>

definition plain_path :: "string \<Rightarrow> bool" where
  "plain_path path \<longleftrightarrow> nul_free path \<and> length path < 0x40 \<and> \<not> is_device path"

text \<open>Deleting and creating the target leaves either an empty file or, when it could not be deleted, the old one.\<close>

lemma fresh_file_view:
  assumes dev: "nand_device s fs view" and p: "plain_path path"
    and w': "w' = snd (FS_createFile' s fs path (snd (FS_erase s fs path w)))"
  shows "handles (view w') = handles (view w) \<and> (\<forall>q. q \<noteq> chars path \<longrightarrow> files (view w') q = files (view w) q) \<and>
    files (view w') (chars path) \<in> {None, Some [], files (view w) (chars path)}"
proof -
  have path: "nul_free path" "length path < 0x40" using p by (simp_all add: plain_path_def)
  obtain b1 w1 where e: "FS_erase s fs path w = (b1, w1)" by (metis surj_pair)
  obtain b2 where c: "FS_createFile' s fs path w1 = (b2, w')" using w' e by (metis snd_conv surj_pair)
  show ?thesis using erase_view [OF dev path e] createFile_view [OF dev path c] by auto
qed

lemma start_copy:
  assumes dev: "nand_device s fs view" and p: "plain_path srcPath" "plain_path dstPath" "chars srcPath \<noteq> chars dstPath"
    and g: "Resource_open s dstPath Mode_Write w0 = (g, w1)" "g \<ge> 0" and f: "Resource_open s srcPath Mode_Read w1 = (f, w2)" "f \<ge> 0"
  shows "\<exists>c d. files (view w0) (chars dstPath) = Some d \<and> handles (view w0) f = None \<and> handles (view w0) g = None \<and> f \<noteq> fs \<and>
    copying (chars srcPath) (chars dstPath) f g c d 0 0 (view w0) (view w2)"
proof -
  have dev_paths: "\<not> is_device srcPath" "\<not> is_device dstPath" using p by (simp_all add: plain_path_def)
  from open_view [OF dev g(1) dev_paths(2)] open_view [OF dev f(1) dev_paths(1)] g(2) f(2) p(3)
  show ?thesis by (auto simp: copying_def split: if_splits)
qed

lemma close_copied:
  assumes dev: "nand_device s fs view" and "f \<ge> 0" "g \<ge> 0" and "copied dst f g c d b v0 (view w)"
    and "handles v0 f = None" "handles v0 g = None"
  shows "handles (view (Resource_destroy s g (Resource_destroy s f w))) = handles v0 \<and>
    (\<forall>p. p \<noteq> dst \<longrightarrow> files (view (Resource_destroy s g (Resource_destroy s f w))) p = files v0 p) \<and>
    (b \<longrightarrow> files (view (Resource_destroy s g (Resource_destroy s f w))) dst = Some (c @ drop (length c) d))"
  using assms(4-6) by (auto simp: destroy_view [OF dev] assms(2,3) copied_def fun_eq_iff)

lemma copy_opened:
  assumes dev: "nand_device s fs view" and fg: "f \<ge> 0" "g \<ge> 0" "f \<noteq> fs" "handles v0 f = None" "handles v0 g = None"
    and inv: "copying src dst f g c d 0 0 v0 (view w)"
  shows "\<exists>b w'. do {
        ((result, stats), w) \<leftarrow> File_getStats s f w;
        if result < 0 then Some (False, Resource_destroy s g (Resource_destroy s f w))
        else
          let (copied, w) = file_copy_loop s f g (unat (fst stats)) w
          in Some (copied, Resource_destroy s g (Resource_destroy s f w))
      } = Some (b, w') \<and> handles (view w') = handles v0 \<and> (\<forall>q. q \<noteq> dst \<longrightarrow> files (view w') q = files v0 q) \<and>
      (b \<longrightarrow> files (view w') dst = Some (c @ drop (length c) d))"
proof -
  have f: "handles (view w) f = Some (src, 0, Mode_Read)" "files (view w) src = Some c" using inv by (simp_all add: copying_def)
  obtain result stats w1 where stats: "File_getStats s f w = Some ((result, stats), w1)" "view w1 = view w"
    "result \<ge> 0 \<longrightarrow> fst stats = of_nat (length c) \<and> length c < 2 ^ 32"
    using stats_view [OF dev f fg(3)] by blast
  show ?thesis
  proof (cases "result < 0")
    case True
    then show ?thesis using stats close_copied [OF dev fg(1,2), of dst c d False v0 w1] fg(4,5) copying_stop [OF inv, of False] by auto
  next
    case False
    then have sz: "unat (fst stats) = length c" using stats(3) by (simp add: unat_u32_of_nat)
    obtain b w2 where loop: "file_copy_loop s f g (length c) w1 = (b, w2)" by (metis surj_pair)
    have "copied dst f g c d b v0 (view w2)" using file_copy_loop_view [OF dev, of src dst f g c d 0 v0 w1] inv stats(2) loop by simp
    from close_copied [OF dev fg(1,2) this fg(4,5)] show ?thesis using False stats sz loop by simp
  qed
qed

text \<open>C22: copyFile copies a file in chunks. With a file system that may fail at any request and may
  write less than asked, it ends, leaves no handle open and changes no other file; when it reports
  success the target begins with the whole content of the source, and has nothing behind it unless
  the old target could not be deleted.\<close>

theorem copyFile_copies:
  assumes dev: "nand_device s fs view" and p: "plain_path srcPath" "plain_path dstPath" "chars srcPath \<noteq> chars dstPath"
  shows "\<exists>b w'. FS_copyFile s fs srcPath dstPath w = Some (b, w') \<and> handles (view w') = handles (view w) \<and>
    (\<forall>q. q \<noteq> chars dstPath \<longrightarrow> files (view w') q = files (view w) q) \<and>
    (b \<longrightarrow> (\<exists>c d. files (view w) (chars srcPath) = Some c \<and> (d = [] \<or> files (view w) (chars dstPath) = Some d) \<and>
       files (view w') (chars dstPath) = Some (c @ drop (length c) d)))"
proof -
  obtain b1 wa where e: "FS_erase s fs dstPath w = (b1, wa)" by (metis surj_pair)
  obtain b2 w0 where c: "FS_createFile' s fs dstPath wa = (b2, w0)" by (metis surj_pair)
  obtain g w1 where g: "Resource_open s dstPath Mode_Write w0 = (g, w1)" by (metis surj_pair)
  obtain f w2 where f: "Resource_open s srcPath Mode_Read w1 = (f, w2)" by (metis surj_pair)
  have fresh: "handles (view w0) = handles (view w)" "\<forall>q. q \<noteq> chars dstPath \<longrightarrow> files (view w0) q = files (view w) q"
    "files (view w0) (chars dstPath) \<in> {None, Some [], files (view w) (chars dstPath)}"
    using fresh_file_view [OF dev p(2), of w0 w] e c by auto
  have paths: "\<not> is_device srcPath" "\<not> is_device dstPath" using p by (simp_all add: plain_path_def)
  note run = FS_copyFile_def e c g f Let_def prod.case
  consider "g < 0" | "g \<ge> 0" "f < 0" | "g \<ge> 0" "f \<ge> 0" by linarith
  then show ?thesis
  proof cases
    case 1
    then show ?thesis using fresh open_view [OF dev g paths(2)] unfolding run by (auto simp: Resource_ok_def)
  next
    case 2
    then show ?thesis using fresh open_view [OF dev g paths(2)] open_view [OF dev f paths(1)]
      unfolding run by (auto simp: Resource_ok_def destroy_view [OF dev] fun_upd_idem)
  next
    case 3
    obtain c d where inv: "files (view w0) (chars dstPath) = Some d" "handles (view w0) f = None" "handles (view w0) g = None"
      "f \<noteq> fs" "copying (chars srcPath) (chars dstPath) f g c d 0 0 (view w0) (view w2)"
      using start_copy [OF dev p g 3(1) f 3(2)] by blast
    have src: "files (view w) (chars srcPath) = Some c" using inv(5) p(3) fresh(2) by (auto simp: copying_def)
    show ?thesis using copy_opened [OF dev 3(2,1) inv(4,2,3,5)] fresh 3 src inv(1)
      unfolding run by (fastforce simp: Resource_ok_def)
  qed
qed

text \<open>A device in memory with eight handles, for the witnesses; \<open>/dev/fs\<close> is handle 0.\<close>

definition ram_ipc :: "request \<Rightarrow> nand \<Rightarrow> (int \<times> bytes list) \<times> nand" where
  "ram_ipc r v = (case r of
     Req_Open path m \<Rightarrow>
       if is_device path then ((if path = ''/dev/fs'' then 0 else -6, []), v)
       else (case (files v (chars path), find (\<lambda>fd. handles v fd = None) (map int [1..<9])) of
           (Some _, Some fd) \<Rightarrow> ((fd, []), v\<lparr>handles := (handles v)(fd \<mapsto> (chars path, 0, m))\<rparr>)
         | _ \<Rightarrow> ((-106, []), v))
   | Req_Close fd \<Rightarrow> ((0, []), v\<lparr>handles := (handles v)(fd := None)\<rparr>)
   | Req_Read fd n \<Rightarrow>
       (case handles v fd of
          Some (p, k, m) \<Rightarrow>
            (case files v p of
               Some c \<Rightarrow>
                 if m \<in> {Mode_Read, Mode_Both}
                 then let out = take n (drop k c)
                      in ((int (length out), [out]), v\<lparr>handles := (handles v)(fd \<mapsto> (p, k + length out, m))\<rparr>)
                 else ((-1, []), v)
             | None \<Rightarrow> ((-1, []), v))
        | None \<Rightarrow> ((-1, []), v))
   | Req_Write fd b \<Rightarrow>
       (case handles v fd of
          Some (p, k, m) \<Rightarrow>
            (case files v p of
               Some c \<Rightarrow>
                 if m \<in> {Mode_Write, Mode_Both}
                 then ((int (length b), []), v\<lparr>files := (files v)(p \<mapsto> take k c @ take (length b) b @ drop (k + length b) c),
                    handles := (handles v)(fd \<mapsto> (p, k + length b, m))\<rparr>)
                 else ((-1, []), v)
             | None \<Rightarrow> ((-1, []), v))
        | None \<Rightarrow> ((-1, []), v))
   | Req_Ioctl fd cmd inp n \<Rightarrow>
       if fd = 0 \<and> cmd = 7 then ((0, []), v\<lparr>files := (files v)(path_at inp 0 := None)\<rparr>)
       else if fd = 0 \<and> cmd = 9 \<and> files v (path_at inp 6) = None then ((0, []), v\<lparr>files := (files v)(path_at inp 6 \<mapsto> [])\<rparr>)
       else if cmd = 0xb \<and> n = 8 then
         (case handles v fd of
            Some (p, k, m) \<Rightarrow>
              (case files v p of
                 Some c \<Rightarrow> if length c < 2 ^ 32 then ((0, [words32 [of_nat (length c), of_nat k]]), v) else ((-1, []), v)
               | None \<Rightarrow> ((-1, []), v))
          | None \<Rightarrow> ((-1, []), v))
       else ((-1, []), v)
   | Req_Ioctlv fd cmd i n pairs \<Rightarrow> ((-1, []), v))"

definition ram_starlet :: "nand starlet" where
  "ram_starlet = \<lparr>ipc = ram_ipc, arm_read = (\<lambda>i v. (0, v)), arm_write = (\<lambda>i x v. v), wait_ms = (\<lambda>n v. v), sram_at = (\<lambda>v i. 0),
     sram_set = (\<lambda>i x v. v), uninit = (\<lambda>n. replicate n 0xcd), armCode_at = 0x80b00100\<rparr>"

lemma find_free: "find (\<lambda>fd. handles v fd = None) (map int [Suc 0..<9]) = Some fd \<Longrightarrow> fd \<ge> 0 \<and> fd \<noteq> 0 \<and> handles v fd = None"
  by (auto simp: find_Some_iff)

lemma write_all: "handles v fd = Some (p, k, m) \<Longrightarrow> m \<in> {Mode_Write, Mode_Both} \<Longrightarrow> files v p = Some c \<Longrightarrow>
    fs_step fs (Req_Write fd b) v (int (length b)) outs
      (v\<lparr>files := (files v)(p \<mapsto> take k c @ b @ drop (k + length b) c), handles := (handles v)(fd \<mapsto> (p, k + length b, m))\<rparr>)"
  using fs_step.Write [of v fd p k m c "length b" b fs outs] by simp

lemma ram_device: "nand_device ram_starlet 0 id"
  unfolding nand_device_def
proof (intro allI impI)
  fix r :: request and w :: nand and result :: int and outs :: "bytes list" and w' :: nand
  assume ipc: "ipc ram_starlet r w = ((result, outs), w')"
  show "fs_step 0 r (id w) result outs (id w')"
  proof (cases r)
    case (Req_Open path m)
    then show ?thesis using ipc
      by (auto simp: ram_starlet_def ram_ipc_def split: if_splits option.splits dest!: find_free intro: fs_step.intros)
  next
    case (Req_Close fd)
    then show ?thesis using ipc by (auto simp: ram_starlet_def ram_ipc_def intro: fs_step.intros)
  next
    case (Req_Read fd n)
    then show ?thesis using ipc
      by (auto simp: ram_starlet_def ram_ipc_def Let_def simp del: length_take split: if_splits option.splits prod.splits
          intro: fs_step.intros)
  next
    case (Req_Write fd b)
    then show ?thesis using ipc
      by (auto simp: ram_starlet_def ram_ipc_def split: if_splits option.splits prod.splits intro: fs_step.Fail write_all)
  next
    case (Req_Ioctl fd cmd inp n)
    then show ?thesis using ipc
      by (auto simp: ram_starlet_def ram_ipc_def split: if_splits option.splits prod.splits intro: fs_step.intros)
  next
    case (Req_Ioctlv fd cmd i n pairs)
    then show ?thesis using ipc by (auto simp: ram_starlet_def ram_ipc_def intro: fs_step.intros)
  qed
qed

definition ram_example :: nand where
  "ram_example = \<lparr>files = (\<lambda>p. if p = chars ''/a'' then Some [1, 2, 3] else if p = chars ''/b'' then Some [9, 9, 9, 9, 9] else None),
     handles = (\<lambda>fd. None)\<rparr>"

lemma example_paths: "plain_path ''/a''" "plain_path ''/b''" "chars ''/a'' \<noteq> chars ''/b''"
  by code_simp+

lemma example_stats: "read_u32 (words32 [3, 0]) 0 = Some 3" "read_u32 (words32 [3, 0]) 4 = Some 0"
  using read_words32 [of 0 "[3, 0]"] read_words32 [of 1 "[3, 0]"] by simp_all

lemma example_copy: "map_option (\<lambda>(b, w'). (b, files w' (chars ''/b''))) (FS_copyFile ram_starlet 0 ''/a'' ''/b'' ram_example) =
    Some (True, Some [1, 2, 3])"
  by (simp add: FS_copyFile_def FS_erase_def FS_createFile'_def FS_createFile_def strlcpy_def chars_def Resource_ioctl_def
    Resource_open_def ram_starlet_def ram_example_def path_at_def splice_def local_buf_def ram_ipc_def is_device_def
    path_and_perms_def drop_update_swap Let_def upt_rec File_getStats_def first_out_def Resource_ok_def example_stats
    file_copy_loop.simps File_read_def File_write_def CHUNK_SIZE_def Resource_destroy_def Resource_close_def)

theorem copyFile_copies_witness:
  "\<exists>w'. FS_copyFile ram_starlet 0 ''/a'' ''/b'' ram_example = Some (True, w') \<and> handles w' = handles ram_example \<and>
    files w' (chars ''/b'') = Some [1, 2, 3]"
proof -
  obtain b w' where "FS_copyFile ram_starlet 0 ''/a'' ''/b'' ram_example = Some (b, w')" "handles w' = handles ram_example"
    using copyFile_copies [OF ram_device example_paths, of ram_example] unfolding id_apply by blast
  then show ?thesis using example_copy by auto
qed

end
