(* ===== verification/Loader.thy ===== *)
theory Loader
  imports Apploader Boot_FS
begin

text \<open>
  \<open>loader/Loader.cc\<close>: the second program of the boot chain.  It gets its privileges, loads the game from the
  disc, refuses every executable but the original ones, puts the payload of the region behind it and lets the
  payload patch the game.  The payloads embedded in the loader and the call of their entry are parameters.
\<close>

section \<open>The code\<close>

datatype Region = Region_P | Region_E | Region_J | Region_K

primrec region_code :: "Region \<Rightarrow> u16" where
  "region_code Region_P = 0x54a9"
| "region_code Region_E = 0x5409"
| "region_code Region_J = 0x53cd"
| "region_code Region_K = 0x5511"

definition region_of :: "u16 \<Rightarrow> Region option" where
  "region_of v = find (\<lambda>r. region_code r = v) [Region_P, Region_E, Region_J, Region_K]"

definition payloadDst :: "Region \<Rightarrow> u32" where
  "payloadDst r = (case r of Region_P \<Rightarrow> 0x809C4FA0 | _ \<Rightarrow> 0x809C5000)"

record 'w loader_env =
  le_starlet :: "'w starlet"
  le_code :: "'w disc_code"
  le_sha1 :: "bytes \<Rightarrow> bytes"
  le_payload :: "Region \<Rightarrow> bytes"
  le_payloadEntry :: "u32 \<Rightarrow> 'w cpu \<Rightarrow> 'w cpu"

definition TMP_NAND_LOADER_PATH :: string where
  "TMP_NAND_LOADER_PATH = ''/tmp/00000002.app''"

definition nand_loader_paths :: "string list" where
  "nand_loader_paths = [
     ''/title/00010008/48414c50/content/0000000b.app'', ''/title/00010008/48414c45/content/0000000b.app'',
     ''/title/00010008/48414c4a/content/0000000b.app'', ''/title/00010008/48414c4b/content/00000006.app'',
     ''/title/00010008/48414c50/content/00000006.app'', ''/title/00010008/48414c45/content/00000006.app'',
     ''/title/00010008/48414c4a/content/00000006.app'']"

primrec copy_first :: "'w starlet \<Rightarrow> int \<Rightarrow> string list \<Rightarrow> 'w \<Rightarrow> (bool \<times> 'w) option" where
  "copy_first s fs [] w = Some (False, snd (FS_erase s fs TMP_NAND_LOADER_PATH w))"
| "copy_first s fs (path # paths) w = do {
     (ok, w) \<leftarrow> FS_copyFile s fs path TMP_NAND_LOADER_PATH w;
     if ok then Some (True, w) else copy_first s fs paths w
   }"

definition CopyNANDLoader :: "'w starlet \<Rightarrow> int \<Rightarrow> 'w \<Rightarrow> (bool \<times> 'w) option" where
  "CopyNANDLoader s fs w = copy_first s fs nand_loader_paths w"

text \<open>The loop until the game is loaded.\<close>

partial_function (option) load_game :: "'w starlet \<Rightarrow> 'w disc_code \<Rightarrow> int \<Rightarrow> 'w cpu \<Rightarrow> (u32 \<times> 'w cpu) option" where
  "load_game s code di c = do {
     (gameEntry, c) \<leftarrow> LoadAndRun s code di c;
     case gameEntry of
       Some entry \<Rightarrow> Some (entry, c)
     | None \<Rightarrow> do {
         (inserted, w) \<leftarrow> DI_isInserted s di (io c);
         w \<leftarrow> (if inserted then Some w else await_inserted s di True (snd (IsDolphin s w)));
         load_game s code di (c\<lparr>io := snd (DI_reset s di (wait_ms s 100 w))\<rparr>)
       }
   }"

text \<open>From the check of the executable on; the file system object is closed on every way out.\<close>

definition start_payload :: "'w loader_env \<Rightarrow> u32 \<Rightarrow> 'w cpu \<Rightarrow> u32 option \<times> 'w cpu" where
  "start_payload env gameEntry c =
     (case IsClean (le_sha1 env) (mem c) of
        None \<Rightarrow> (None, c)
      | Some clean \<Rightarrow>
          if \<not> clean then (None, c)
          else
            case region_of (mem_u16 (mem c) 0x8000620a) of
              None \<Rightarrow> (None, c)
            | Some region \<Rightarrow>
                let c = c\<lparr>mem := mem_write (payloadDst region) (le_payload env region) (mem c)\<rparr>
                in (Some gameEntry, le_payloadEntry env (payloadDst region) c))"

definition load_and_start :: "'w loader_env \<Rightarrow> 'w cpu \<Rightarrow> (u32 option \<times> 'w cpu) option" where
  "load_and_start env c =
     (let (di, w) = DI_new (le_starlet env) (io c)
      in do {
        (gameEntry, c) \<leftarrow> load_game (le_starlet env) (le_code env) di (c\<lparr>io := w\<rparr>);
        Some (start_payload env gameEntry (c\<lparr>io := Resource_destroy (le_starlet env) di (io c)\<rparr>))
      })"

definition versionInfo_at :: u32 where
  "versionInfo_at = 0x80003f00"

definition BUILD_TYPE_RELEASE :: u16 where
  "BUILD_TYPE_RELEASE = 2"

definition Loader_Run :: "'w loader_env \<Rightarrow> 'w cpu \<Rightarrow> (u32 option \<times> 'w cpu) option" where
  "Loader_Run env c =
     (let s = le_starlet env;
          iosNumber = mem_u16 (mem c) 0x80003140
      in if iosNumber \<noteq> 58 \<and> iosNumber \<noteq> 59 then Some (None, c)
         else do {
           (ok, c) \<leftarrow> EscalatePrivileges s True True c;
           if \<not> ok then Some (None, c)
           else
             let (fs, w) = FS_new s (io c)
             in if \<not> Resource_ok fs then Some (None, c\<lparr>io := w\<rparr>)
                else do {
                  w \<leftarrow> (if mem_u16 (mem c) versionInfo_at = BUILD_TYPE_RELEASE
                       then map_option snd (CopyNANDLoader s fs w) else Some w);
                  let (newKey, w) = ImportNewCommonKey s w;
                  w \<leftarrow> DeescalatePrivileges s (Some (case newKey of None \<Rightarrow> None | Some k \<Rightarrow> k)) w;
                  (r, c) \<leftarrow> load_and_start env (c\<lparr>io := w\<rparr>);
                  Some (r, c\<lparr>io := Resource_destroy s fs (io c)\<rparr>)
                }
         })"

section \<open>Only the original game is started\<close>

lemma run_apploader_closes: "run_apploader s code di off c = Some (Some entry, c') \<Longrightarrow> \<exists>c0. ap_close code c0 = (entry, c')"
  by (auto simp: run_apploader_def Let_def bind_eq_Some_conv case_prod_beta prod_eq_iff split: if_split_asm)

lemma LoadAndRun_closes: "LoadAndRun s code di c = Some (Some entry, c') \<Longrightarrow> \<exists>c0. ap_close code c0 = (entry, c')"
  by (auto simp: LoadAndRun_def Let_def bind_eq_Some_conv dest!: run_apploader_closes split: prod.splits if_splits option.splits)

lemma load_game_closes:
  assumes "load_game s code di c = Some r"
  shows "\<exists>c0. ap_close code c0 = r"
proof (rule load_game.raw_induct [where P = "\<lambda>s code di c r. \<exists>c0. ap_close code c0 = r", OF _ assms])
  fix f :: "'a starlet \<Rightarrow> 'a disc_code \<Rightarrow> int \<Rightarrow> 'a cpu \<Rightarrow> (u32 \<times> 'a cpu) option" and s code di c r
  assume IH: "\<And>s code di c r. f s code di c = Some r \<Longrightarrow> \<exists>c0. ap_close code c0 = r"
    and step: "do {
     (gameEntry, c) \<leftarrow> LoadAndRun s code di c;
     case gameEntry of
       Some entry \<Rightarrow> Some (entry, c)
     | None \<Rightarrow> do {
         (inserted, w) \<leftarrow> DI_isInserted s di (io c);
         w \<leftarrow> (if inserted then Some w else await_inserted s di True (snd (IsDolphin s w)));
         f s code di (c\<lparr>io := snd (DI_reset s di (wait_ms s 100 w))\<rparr>)
       }
   } = Some r"
  obtain gameEntry c1 where run: "LoadAndRun s code di c = Some (gameEntry, c1)"
    using step by (auto simp: bind_eq_Some_conv)
  show "\<exists>c0. ap_close code c0 = r"
  proof (cases gameEntry)
    case None
    then show ?thesis using step run by (auto simp: bind_eq_Some_conv intro: IH)
  next
    case (Some entry)
    then show ?thesis using step run LoadAndRun_closes by auto
  qed
qed

lemma region_of_Some: "region_of v = Some r \<Longrightarrow> region_code r = v"
  by (auto simp: region_of_def split: if_splits)

lemma moduleInfo_sizes: "GetRegionIndex m = Some i \<Longrightarrow> unat (mi_size (moduleInfoArray ! i)) \<le> 0x00385140"
  by (auto simp: GetRegionIndex_def Let_def moduleInfoArray_def split: if_splits)

lemma payload_beside_dol:
  assumes "GetRegionIndex m = Some i" and "length bs \<le> 0x01000000"
  shows "mem_read (mem_write (payloadDst r) bs m) GetStartAddress (unat (mi_size (moduleInfoArray ! i))) =
    mem_read m GetStartAddress (unat (mi_size (moduleInfoArray ! i)))"
  using moduleInfo_sizes [OF assms(1)] assms(2)
  by (intro mem_read_disjoint) (auto simp: GetStartAddress_def payloadDst_def split: Region.splits)

text \<open>
  The state in which the payload is entered: the executable in memory is the original one of the region and the
  payload of the region is at its place.
\<close>

definition original_game :: "'w loader_env \<Rightarrow> Region \<Rightarrow> memory \<Rightarrow> bool" where
  "original_game env r m \<longleftrightarrow> (\<exists>i. GetRegionIndex m = Some i \<and>
     le_sha1 env (mem_read m GetStartAddress (unat (mi_size (moduleInfoArray ! i)))) = mi_hash (moduleInfoArray ! i)) \<and>
     mem_read m (payloadDst r) (length (le_payload env r)) = le_payload env r"

lemma mem_write_below:
  assumes "unat x < unat b" and "unat b + length bs \<le> 2 ^ 32"
  shows "mem_write b bs m x = m x"
proof (rule mem_write_far)
  have "unat b < 2 ^ LENGTH(32)" by (rule unsigned_less)
  then have "unat (x - b) = 2 ^ 32 - unat b + unat x" using assms by (simp add: unat_sub_if')
  then show "unat (x - b) \<ge> length bs" using assms by simp
qed

lemma start_payload_original:
  assumes "start_payload env gameEntry c = (Some entry, c')" and "\<And>r. length (le_payload env r) \<le> 0x01000000"
  shows "entry = gameEntry \<and> (\<exists>r c1. region_code r = mem_u16 (mem c) 0x8000620a \<and>
    mem c1 = mem_write (payloadDst r) (le_payload env r) (mem c) \<and> original_game env r (mem c1) \<and>
    c' = le_payloadEntry env (payloadDst r) c1)"
proof -
  obtain r i where r: "region_of (mem_u16 (mem c) 0x8000620a) = Some r" "GetRegionIndex (mem c) = Some i"
    "mi_hash (moduleInfoArray ! i) = le_sha1 env (mem_read (mem c) GetStartAddress (unat (mi_size (moduleInfoArray ! i))))"
    "entry = gameEntry" "c' = le_payloadEntry env (payloadDst r) (c\<lparr>mem := mem_write (payloadDst r) (le_payload env r) (mem c)\<rparr>)"
    using assms(1) by (auto simp: start_payload_def IsClean_def Let_def split: option.splits if_splits)
  let ?m = "mem_write (payloadDst r) (le_payload env r) (mem c)"
  have fits: "unat (payloadDst r) + length (le_payload env r) \<le> 2 ^ 32" "unat (0x80000003 :: u32) < unat (payloadDst r)"
    using assms(2) [of r] by (auto simp: payloadDst_def split: Region.splits)
  have "GetRegionIndex ?m = Some i" using r(2) mem_write_below [OF fits(2,1)] by (simp add: GetRegionIndex_def)
  then have "original_game env r ?m"
    using r(3) payload_beside_dol [OF r(2) assms(2)] mem_read_written assms(2) [of r] by (auto simp: original_game_def)
  then show ?thesis using r(4,5) region_of_Some [OF r(1)]
    by (intro conjI exI [of _ r] exI [of _ "c\<lparr>mem := ?m\<rparr>"]) simp_all
qed


section \<open>A console with a disc\<close>

text \<open>
  For the witness: an emulator with the European disc, whose apploader loads one section; the world counts
  the sections.  The hash function gives the hash of the original executable.
\<close>

definition example_ipc :: "request \<Rightarrow> nat \<Rightarrow> (int \<times> bytes list) \<times> nat" where
  "example_ipc r w = (case r of
     Req_Ioctl fd cmd inp n \<Rightarrow>
       ((1, [if cmd = 0x70 then [0x52, 0x4D, 0x43, 0x50]
             else if cmd = 0x8d then if take 4 (drop 8 inp) = [0, 1, 0, 0] then [0, 0, 0, 1, 0, 1, 0, 8] else [0, 1, 0x40, 0, 0, 0, 0, 0]
             else [0x54, 0xa9]]), w)
   | Req_Ioctlv fd cmd i n pairs \<Rightarrow> ((1, []), w)
   | _ \<Rightarrow> ((3, []), w))"

definition example_env :: "nat loader_env" where
  "example_env = \<lparr>
     le_starlet = \<lparr>ipc = example_ipc, arm_read = (\<lambda>i w. (0, w)), arm_write = (\<lambda>i x w. w), wait_ms = (\<lambda>n w. w), sram_at = (\<lambda>w i. 0),
       sram_set = (\<lambda>i x w. w), uninit = (\<lambda>n. replicate n 0), armCode_at = 0x80b00100\<rparr>,
     le_code = \<lparr>ap_entry = (\<lambda>a c. c), ap_init = (\<lambda>c. c),
       ap_main = (\<lambda>c. if io c = 0 then (Some (0x8000620a, 2, 0), c\<lparr>io := 1\<rparr>) else (None, c)), ap_close = (\<lambda>c. (0x800060a4, c))\<rparr>,
     le_sha1 = (\<lambda>bs. mi_hash (moduleInfoArray ! 0)),
     le_payload = (\<lambda>r. [0x48, 0, 0, 4]), le_payloadEntry = (\<lambda>a c. c)\<rparr>"

definition example_cpu :: "nat cpu" where
  "example_cpu = \<lparr>io = 0, mem = (\<lambda>a. if a = 0x80003141 then 58 else 0)\<rparr>"

lemma example_dolphin: "IsDolphin (le_starlet example_env) w = (True, w)"
  by (simp add: IsDolphin_def Resource_open_def Resource_ok_def Resource_destroy_def Resource_close_def example_env_def example_ipc_def)

lemma example_partition: "FindGamePartition (le_starlet example_env) 3 0 = Some (Some (0x14000, 0), 0)"
  by code_simp

lemmas example_simps = example_env_def example_ipc_def Resource_ioctl_def Resource_ioctlv_def Resource_open_def
  Resource_ok_def Resource_destroy_def Resource_close_def first_out_def

lemma example_disk_id: "DI_readDiskID (le_starlet example_env) di c = (True, c\<lparr>mem := mem_write 0x80000000 [0x52, 0x4D, 0x43, 0x50] (mem c)\<rparr>)"
  by (simp add: DI_readDiskID_def DI_Success_def diskID_at_def example_simps)

lemma example_open: "DI_openPartition (le_starlet example_env) di off w = (True, w)"
  by (simp add: DI_openPartition_def DI_Success_def example_simps)

lemma example_read: "2 \<le> unat sz \<Longrightarrow> DI_read (le_starlet example_env) di dst sz off c = (True, c\<lparr>mem := mem_write dst [0x54, 0xa9] (mem c)\<rparr>)"
  by (simp add: DI_read_def DI_Success_def example_simps)

lemma example_read_none: "DI_read (le_starlet example_env) di dst 0 off c = (True, c\<lparr>mem := mem_write dst [] (mem c)\<rparr>)"
  by (simp add: DI_read_def DI_Success_def example_simps)

lemma example_header: "DI_read_local (le_starlet example_env) di 0x20 off w = ((True, [0x54, 0xa9] @ replicate 30 0), w)"
  by (simp add: DI_read_local_def DI_Success_def example_simps filled_def splice_def local_buf_def)

lemma example_code:
  "ap_main (le_code example_env) c = (if io c = 0 then (Some (0x8000620a, 2, 0), c\<lparr>io := 1\<rparr>) else (None, c))"
  "ap_entry (le_code example_env) a c = c" "ap_init (le_code example_env) c = c" "ap_close (le_code example_env) c = (0x800060a4, c)"
  by (simp_all add: example_env_def)

lemma example_sections: "io c = 0 \<Longrightarrow> load_sections (le_starlet example_env) (le_code example_env) di c =
    Some (True, c\<lparr>io := 1, mem := mem_write 0x8000620a [0x54, 0xa9] (mem c)\<rparr>)"
  by (subst load_sections.simps, subst load_sections.simps) (simp add: example_read example_code)

lemma example_run: "mem c 0x80000003 = 0x50 \<Longrightarrow> io c = 0 \<Longrightarrow>
   run_apploader (le_starlet example_env) (le_code example_env) di off c = Some (Some 0x800060a4,
     c\<lparr>io := 1, mem := mem_write 0x8000620a [0x54, 0xa9] (mem_fill 0x80004000 0 0x385140 (mem_write 0x81200000 [] (mem c)))\<rparr>)"
  by (simp add: run_apploader_def example_open example_header example_code example_read_none example_sections read_u32_def
    GetSize_def GetRegionIndex_def moduleInfoArray_def GetStartAddress_def mem_write_def)

lemma example_load: "\<exists>c. load_game (le_starlet example_env) (le_code example_env) 3 example_cpu = Some (0x800060a4, c) \<and>
    mem c 0x80000003 = 0x50 \<and> mem_u16 (mem c) 0x8000620a = 0x54a9"
proof -
  let ?m = "write_words 0x80003180 [0x524D4350] (mem_write 0x80000000 [0x52, 0x4D, 0x43, 0x50] (mem example_cpu))"
  have disk: "mem_u32 (mem_write 0x80000000 [0x52, 0x4D, 0x43, 0x50] m) diskID_at = 0x524D4350" for m
    by (simp add: mem_u32_def mem_write_def diskID_at_def)
  have region: "?m 0x80000003 = 0x50"
    by (simp add: write_words_def mem_write_def words32_def size_of_def)
  have io: "io example_cpu = 0" by (simp add: example_cpu_def)
  have valid: "IsDiskIDValid 0x524D4350" by code_simp
  define m where "m = mem_write 0x8000620a [0x54, 0xa9] (mem_fill 0x80004000 0 0x385140 (mem_write 0x81200000 [] ?m))"
  have "LoadAndRun (le_starlet example_env) (le_code example_env) 3 example_cpu = Some (Some 0x800060a4, \<lparr>io = 1, mem = m\<rparr>)"
    by (simp add: LoadAndRun_def example_disk_id disk valid example_partition io example_run region m_def)
  then have "load_game (le_starlet example_env) (le_code example_env) 3 example_cpu = Some (0x800060a4, \<lparr>io = 1, mem = m\<rparr>)"
    by (subst load_game.simps) simp
  moreover have "m 0x80000003 = 0x50" unfolding m_def using region by (subst mem_write_def) (simp add: mem_fill_def mem_write_def)
  moreover have "mem_u16 m 0x8000620a = 0x54a9" by (simp add: m_def mem_u16_def mem_write_def)
  ultimately show ?thesis by auto
qed

lemma example_resource: "Resource_open (le_starlet example_env) p mode w = (3, w)" "Resource_destroy (le_starlet example_env) fd w = w"
  "Resource_ok 3"
  by (simp_all add: example_simps)

lemma example_privileges: "EscalatePrivileges (le_starlet example_env) True True c = Some (True, c)"
  "ImportNewCommonKey (le_starlet example_env) w = (Some None, w)" "DeescalatePrivileges (le_starlet example_env) key w = Some w"
  by (simp_all add: EscalatePrivileges_def ImportNewCommonKey_def DeescalatePrivileges_def example_dolphin)

lemma example_start: "\<exists>c'. Loader_Run example_env example_cpu = Some (Some 0x800060a4, c')"
proof -
  obtain cg where cg: "load_game (le_starlet example_env) (le_code example_env) 3 example_cpu = Some (0x800060a4, cg)"
    "mem cg 0x80000003 = 0x50" "mem_u16 (mem cg) 0x8000620a = 0x54a9" using example_load by blast
  have region: "GetRegionIndex (mem cg) = Some 0" using cg(2) by (simp add: GetRegionIndex_def)
  have "\<exists>c'. start_payload example_env 0x800060a4 cg = (Some 0x800060a4, c')"
    using cg(3) by (simp add: start_payload_def IsClean_def region region_of_def) (simp add: example_env_def)
  moreover have "mem_u16 (mem example_cpu) 0x80003140 = 58" "mem_u16 (mem example_cpu) versionInfo_at = 0"
    by (simp_all add: example_cpu_def mem_u16_def versionInfo_at_def)
  ultimately show ?thesis using cg(1)
    by (auto simp: Loader_Run_def load_and_start_def example_privileges example_resource FS_new_def DI_new_def
        BUILD_TYPE_RELEASE_def Let_def)
qed


end
