(* ===== verification/Patcher.thy ===== *)
theory Patcher
  imports Main_Memory
begin

text \<open>
  \<open>payload/sp/Patcher.c\<close>: the payload takes effect by writing data and branches into the game.  A branch may
  have a thunk, two instructions that run the overwritten one and go on behind it.  Over the encoding of the
  processor's branch instruction the patches are proved to lead where they say.
\<close>

section \<open>The code\<close>

text \<open>A patch: data, a branch with its thunk (0 is a null pointer), or an unknown type.\<close>

datatype patch = Patch_Write u32 bytes | Patch_Branch u32 u32 bool u32 | Patch_Unknown u32

datatype Binary = PATCHER_BINARY_NONE | PATCHER_BINARY_DOL | PATCHER_BINARY_REL

text \<open>The bounds of the two binaries, symbols of the linker script.\<close>

record binaries =
  dol_start :: u32
  dol_end :: u32
  rel_start :: u32
  rel_end :: u32

definition getBinary :: "binaries \<Rightarrow> u32 \<Rightarrow> Binary" where
  "getBinary b address =
     (if address \<ge> dol_start b \<and> address < dol_end b then PATCHER_BINARY_DOL
      else if address \<ge> rel_start b \<and> address < rel_end b then PATCHER_BINARY_REL
      else PATCHER_BINARY_NONE)"

definition branch_inst :: "u32 \<Rightarrow> u32 \<Rightarrow> u32" where
  "branch_inst src dst = push_bit 26 0x12 OR ((dst - src) AND 0x3fffffc)"

text \<open>The destination and the bytes of a patch that is not skipped for its type.\<close>

definition patch_target :: "patch \<Rightarrow> (u32 \<times> bytes) option" where
  "patch_target p = (case p of
     Patch_Write dst src \<Rightarrow> Some (dst, src)
   | Patch_Branch src to link thunk \<Rightarrow> Some (src, words32 [branch_inst src to OR (if link then 1 else 0)])
   | Patch_Unknown t \<Rightarrow> None)"

text \<open>The first word of the thunk is the one that is about to be overwritten.\<close>

definition write_thunk :: "patch \<Rightarrow> memory \<Rightarrow> memory" where
  "write_thunk p m = (case p of
     Patch_Branch src to link thunk \<Rightarrow>
       if thunk \<noteq> 0 then write_words thunk [mem_u32 m src, branch_inst thunk src] m else m
   | _ \<Rightarrow> m)"

definition patch_one :: "binaries \<Rightarrow> Binary \<Rightarrow> patch \<Rightarrow> memory \<Rightarrow> memory" where
  "patch_one b binary p m = (case patch_target p of
     None \<Rightarrow> m
   | Some (dst, src) \<Rightarrow> if getBinary b dst \<noteq> binary then m else mem_write dst src (write_thunk p m))"

definition Patcher_patch :: "binaries \<Rightarrow> patch list \<Rightarrow> Binary \<Rightarrow> memory \<Rightarrow> memory" where
  "Patcher_patch b patches binary m = fold (patch_one b binary) patches m"

section \<open>Branches of the processor\<close>

text \<open>
  What the instruction \<open>inst\<close> at address \<open>at\<close> branches to, and whether it saves the return address: the
  opcode 18 with a displacement of 26 bits, relative to the instruction.
\<close>

definition branches_to :: "u32 \<Rightarrow> u32 \<Rightarrow> (u32 \<times> bool) option" where
  "branches_to at inst =
     (if drop_bit 26 inst = 0x12 \<and> \<not> bit inst 1 then Some (at + signed_take_bit 25 (inst AND 0x3fffffc), bit inst 0) else None)"

definition reachable_branch :: "u32 \<Rightarrow> u32 \<Rightarrow> bool" where
  "reachable_branch src dst \<longleftrightarrow> (dst - src) AND 3 = 0 \<and> signed_take_bit 25 (dst - src) = dst - src"

lemma bit_3fffffc: "bit (0x3fffffc :: u32) n \<longleftrightarrow> 2 \<le> n \<and> n < 26"
proof -
  have "(0x3fffffc :: u32) = push_bit 2 (mask 24)" by (simp add: mask_eq_exp_minus_1 push_bit_eq_mult)
  then show ?thesis by (simp only: bit_simps) auto
qed

lemma low_bits:
  assumes "(d :: u32) AND 3 = 0" and "n < 2"
  shows "\<not> bit d n"
proof
  assume "bit d n"
  moreover have "(3 :: u32) = mask 2" by (simp add: mask_eq_exp_minus_1)
  then have "bit (3 :: u32) n" using assms(2) by (simp only: bit_simps) simp
  ultimately have "bit (d AND 3) n" by (simp add: bit_simps)
  then show False using assms(1) by simp
qed

lemma displacement:
  assumes "(d :: u32) AND 3 = 0" and "signed_take_bit 25 d = d"
  shows "signed_take_bit 25 (d AND 0x3fffffc) = d"
proof (rule bit_word_eqI)
  fix n assume n: "n < LENGTH(32)"
  have masked: "bit (d AND 0x3fffffc) k \<longleftrightarrow> bit d k \<and> 2 \<le> k \<and> k < 26" for k
    by (simp only: bit_and_iff bit_3fffffc)
  have "bit (signed_take_bit 25 d) n \<longleftrightarrow> bit d n" using assms(2) by simp
  moreover have low: "bit d n \<Longrightarrow> 2 \<le> n" using low_bits [OF assms(1), of n] by (cases "n < 2") auto
  moreover have "bit (signed_take_bit 25 (d AND 0x3fffffc)) n \<longleftrightarrow> bit (signed_take_bit 25 d) n"
    using low n by (simp only: bit_signed_take_bit_iff masked) (auto simp: min_def)
  ultimately show "bit (signed_take_bit 25 (d AND 0x3fffffc)) n \<longleftrightarrow> bit d n" by simp
qed

lemma branches_to_inst:
  assumes "reachable_branch src dst"
  shows "branches_to at (branch_inst src dst OR (if link then 1 else 0)) = Some (at + (dst - src), link)"
proof -
  define d where "d = dst - src"
  let ?l = "if link then 1 else 0 :: u32"
  have cs: "push_bit 26 0x12 = (0x48000000 :: u32)" "drop_bit 26 (0x48000000 :: u32) = 0x12" "drop_bit 26 (0x3fffffc :: u32) = 0"
    "(0x48000000 :: u32) AND 0x3fffffc = 0" "(1 :: u32) AND 0x3fffffc = 0" "drop_bit 26 (1 :: u32) = 0"
    "\<not> bit (0x48000000 :: u32) 0" "\<not> bit (0x48000000 :: u32) 1" "\<not> bit (0x3fffffc :: u32) 0" "\<not> bit (0x3fffffc :: u32) 1"
    "bit (1 :: u32) 0" "\<not> bit (1 :: u32) 1"
    by code_simp+
  have inst: "branch_inst src dst OR ?l = 0x48000000 OR (d AND 0x3fffffc) OR ?l"
    by (simp only: branch_inst_def d_def cs or.assoc)
  have link: "drop_bit 26 ?l = 0" "?l AND 0x3fffffc = 0" "bit ?l 0 = link" "\<not> bit ?l 1"
    using cs by (cases link; simp)+
  have "drop_bit 26 (0x48000000 OR (d AND 0x3fffffc) OR ?l) = 0x12"
    unfolding drop_bit_or drop_bit_and cs link by simp
  moreover have "(0x48000000 OR (d AND 0x3fffffc) OR ?l) AND 0x3fffffc = d AND 0x3fffffc"
    unfolding bit.conj_disj_distrib2 cs link by (simp only: and.assoc and.idem or.left_neutral or.right_neutral)
  moreover have "bit (0x48000000 OR (d AND 0x3fffffc) OR ?l) 0 = link" "\<not> bit (0x48000000 OR (d AND 0x3fffffc) OR ?l) 1"
    using cs link unfolding bit_or_iff bit_and_iff by (simp_all only: simp_thms)
  moreover have "signed_take_bit 25 (d AND 0x3fffffc) = d"
    using assms displacement [of d] by (simp add: reachable_branch_def d_def)
  ultimately show ?thesis unfolding branches_to_def inst by (simp add: d_def)
qed

section \<open>The effect of the patches\<close>

text \<open>The bytes a patch writes: its destination and its thunk.\<close>

definition applies :: "binaries \<Rightarrow> Binary \<Rightarrow> patch \<Rightarrow> bool" where
  "applies b binary p \<longleftrightarrow> (case patch_target p of None \<Rightarrow> False | Some (dst, _) \<Rightarrow> getBinary b dst = binary)"

definition thunk_span :: "patch \<Rightarrow> u32 set" where
  "thunk_span p = (case p of Patch_Branch _ _ _ thunk \<Rightarrow> if thunk = 0 then {} else span thunk 8 | _ \<Rightarrow> {})"

definition target_span :: "patch \<Rightarrow> u32 set" where
  "target_span p = (case patch_target p of None \<Rightarrow> {} | Some (dst, src) \<Rightarrow> span dst (length src))"

definition footprint :: "binaries \<Rightarrow> Binary \<Rightarrow> patch \<Rightarrow> u32 set" where
  "footprint b binary p = (if applies b binary p then target_span p \<union> thunk_span p else {})"

text \<open>
  The patches of a list do not write to the same bytes, nor over the thunk of each other, and a thunk is not at the
  place that is patched.
\<close>

fun separate :: "binaries \<Rightarrow> Binary \<Rightarrow> patch list \<Rightarrow> bool" where
  "separate b binary [] = True"
| "separate b binary (p # ps) =
     (target_span p \<inter> thunk_span p = {} \<and> (\<forall>q \<in> set ps. footprint b binary p \<inter> footprint b binary q = {}) \<and> separate b binary ps)"

lemma write_thunk_outside: "x \<notin> thunk_span p \<Longrightarrow> write_thunk p m x = m x"
  by (auto simp: write_thunk_def thunk_span_def write_words_def mem_write_outside len_simps split: patch.splits)

lemma patch_one_outside: "x \<notin> footprint b binary p \<Longrightarrow> patch_one b binary p m x = m x"
  by (auto simp: patch_one_def footprint_def applies_def target_span_def mem_write_outside write_thunk_outside split: option.splits if_splits)

lemma Patcher_patch_outside: "(\<And>p. p \<in> set ps \<Longrightarrow> x \<notin> footprint b binary p) \<Longrightarrow> Patcher_patch b ps binary m x = m x"
  unfolding Patcher_patch_def by (induction ps arbitrary: m) (auto simp: patch_one_outside)

lemma Patcher_patch_Cons: "Patcher_patch b (p # ps) binary m = Patcher_patch b ps binary (patch_one b binary p m)"
  by (simp add: Patcher_patch_def)

text \<open>On its own bytes a patch acts as if it were the only one.\<close>

lemma Patcher_patch_own:
  "separate b binary ps \<Longrightarrow> p \<in> set ps \<Longrightarrow>
   \<exists>m'. (\<forall>x \<in> footprint b binary p. m' x = m x) \<and> (\<forall>x \<in> footprint b binary p. Patcher_patch b ps binary m x = patch_one b binary p m' x)"
proof (induction ps arbitrary: m)
  case (Cons q ps)
  show ?case
  proof (cases "p = q \<and> p \<notin> set ps")
    case True
    then have "x \<in> footprint b binary p \<Longrightarrow> Patcher_patch b ps binary m1 x = m1 x" for x m1
      using Cons.prems(1) by (intro Patcher_patch_outside) auto
    then show ?thesis using True by (auto simp: Patcher_patch_Cons)
  next
    case False
    then have p: "p \<in> set ps" "separate b binary ps" using Cons.prems by auto
    then have disjoint: "footprint b binary q \<inter> footprint b binary p = {}" using Cons.prems by auto
    obtain m' where m': "\<forall>x \<in> footprint b binary p. m' x = patch_one b binary q m x"
      "\<forall>x \<in> footprint b binary p. Patcher_patch b ps binary (patch_one b binary q m) x = patch_one b binary p m' x"
      using Cons.IH [OF p(2,1)] by blast
    have "\<forall>x \<in> footprint b binary p. m' x = m x" using m'(1) disjoint patch_one_outside [of _ b binary q m] by fastforce
    then show ?thesis using m'(2) by (auto simp: Patcher_patch_Cons)
  qed
qed simp

lemma span_offset: "k + n \<le> l \<Longrightarrow> k < 2 ^ 32 \<Longrightarrow> span (a + of_nat k) n \<subseteq> span a l"
proof
  fix x assume l: "k + n \<le> l" "k < 2 ^ 32" and x: "x \<in> span (a + of_nat k) n"
  have "x - a = (x - (a + of_nat k)) + of_nat k" by simp
  then have "unat (x - a) \<le> unat (x - (a + of_nat k)) + k"
    using l(2) by (metis unat_u32_of_nat unat_word_ariths(1) mod_less_eq_dividend)
  then show "x \<in> span a l" using l x by (simp add: span_def)
qed

lemma patch_one_branch:
  assumes p: "p = Patch_Branch src to link thunk" and a: "applies b binary p" and sep: "target_span p \<inter> thunk_span p = {}"
  shows "mem_u32 (patch_one b binary p m) src = branch_inst src to OR (if link then 1 else 0)"
    and "thunk \<noteq> 0 \<Longrightarrow> mem_u32 (patch_one b binary p m) thunk = mem_u32 m src \<and>
      mem_u32 (patch_one b binary p m) (thunk + 4) = branch_inst thunk src"
proof -
  let ?i = "branch_inst src to OR (if link then 1 else 0)"
  let ?t = "write_words thunk [mem_u32 m src, branch_inst thunk src] m"
  have one: "patch_one b binary p m = write_words src [?i] (write_thunk p m)"
    using a by (auto simp: patch_one_def applies_def p patch_target_def write_words_def)
  show "mem_u32 (patch_one b binary p m) src = ?i"
    using mem_u32_words [of 0 "[?i]" src "write_thunk p m"] by (simp add: one)
  assume t: "thunk \<noteq> 0"
  have spans: "target_span p = span src 4" "thunk_span p = span thunk 8"
    using t by (simp_all add: p target_span_def patch_target_def thunk_span_def len_simps)
  have spans4: "span thunk 4 \<subseteq> span thunk 8" "span (thunk + 4) 4 \<subseteq> span thunk 8"
    using span_offset [of 0 4 8 thunk] span_offset [of 4 4 8 thunk] by simp_all
  have "write_thunk p m = ?t" using t by (simp add: write_thunk_def p)
  then have "patch_one b binary p m x = ?t x" if "x \<in> span thunk 8" for x
    using that sep spans one mem_write_outside [of x src "words32 [?i]" ?t] by (auto simp: write_words_def len_simps)
  then have "mem_u32 (patch_one b binary p m) thunk = mem_u32 ?t thunk" "mem_u32 (patch_one b binary p m) (thunk + 4) = mem_u32 ?t (thunk + 4)"
    using spans4 by (auto intro!: mem_u32_eq)
  then show "mem_u32 (patch_one b binary p m) thunk = mem_u32 m src \<and> mem_u32 (patch_one b binary p m) (thunk + 4) = branch_inst thunk src"
    using mem_u32_words [of 0 "[mem_u32 m src, branch_inst thunk src]" thunk m] mem_u32_words [of 1 "[mem_u32 m src, branch_inst thunk src]" thunk m]
    by simp
qed

lemma separate_own: "separate b binary ps \<Longrightarrow> p \<in> set ps \<Longrightarrow> target_span p \<inter> thunk_span p = {}"
  by (induction ps) auto

text \<open>What a patch of each kind leaves in memory, where \<open>m\<close> is the memory before and \<open>m'\<close> the one after.\<close>

definition in_effect :: "patch \<Rightarrow> memory \<Rightarrow> memory \<Rightarrow> bool" where
  "in_effect p m m' = (case p of
     Patch_Write dst bs \<Rightarrow> length bs < 2 ^ 32 \<longrightarrow> mem_read m' dst (length bs) = bs
   | Patch_Branch src to link thunk \<Rightarrow>
       (reachable_branch src to \<longrightarrow> branches_to src (mem_u32 m' src) = Some (to, link)) \<and>
       (thunk \<noteq> 0 \<longrightarrow> mem_u32 m' thunk = mem_u32 m src \<and>
         (reachable_branch thunk src \<longrightarrow> branches_to (thunk + 4) (mem_u32 m' (thunk + 4)) = Some (src + 4, False)))
   | Patch_Unknown t \<Rightarrow> False)"

lemma patch_one_in_effect:
  assumes "applies b binary p" and "target_span p \<inter> thunk_span p = {}"
  shows "in_effect p m (patch_one b binary p m)"
proof (cases p)
  case (Patch_Write dst bs)
  then have "patch_one b binary p m = mem_write dst bs m"
    using assms(1) by (simp add: patch_one_def applies_def patch_target_def write_thunk_def)
  then show ?thesis using Patch_Write by (simp add: in_effect_def mem_read_written)
next
  case (Patch_Branch src to link thunk)
  then show ?thesis
    using patch_one_branch [OF Patch_Branch assms] branches_to_inst [of src to src link] branches_to_inst [of thunk src "thunk + 4" False]
    by (auto simp: in_effect_def)
next
  case (Patch_Unknown t)
  then show ?thesis using assms(1) by (simp add: applies_def patch_target_def)
qed

lemma in_effect_cong:
  assumes "applies b binary p" and "\<And>x. x \<in> footprint b binary p \<Longrightarrow> m1 x = m2 x \<and> n1 x = n2 x" and "in_effect p m1 n1"
  shows "in_effect p m2 n2"
proof (cases p)
  case (Patch_Write dst bs)
  then have "x \<in> span dst (length bs) \<Longrightarrow> n1 x = n2 x" for x
    using assms(1,2) by (auto simp: footprint_def target_span_def patch_target_def)
  then show ?thesis using assms(3) Patch_Write mem_read_eq [of "length bs" dst n1 n2] by (simp add: in_effect_def)
next
  case (Patch_Branch src to link thunk)
  then have foot: "footprint b binary p = span src 4 \<union> (if thunk = 0 then {} else span thunk 8)"
    using assms(1) by (auto simp: footprint_def target_span_def thunk_span_def patch_target_def len_simps)
  have "mem_u32 m1 src = mem_u32 m2 src" "mem_u32 n1 src = mem_u32 n2 src"
    using assms(2) foot by (auto intro!: mem_u32_eq)
  moreover have "thunk \<noteq> 0 \<Longrightarrow> mem_u32 n1 thunk = mem_u32 n2 thunk \<and> mem_u32 n1 (thunk + 4) = mem_u32 n2 (thunk + 4)"
    using assms(2) foot span_offset [of 0 4 8 thunk] span_offset [of 4 4 8 thunk] by (auto intro!: mem_u32_eq)
  ultimately show ?thesis using assms(3) Patch_Branch by (auto simp: in_effect_def)
next
  case (Patch_Unknown t)
  then show ?thesis using assms(1) by (simp add: applies_def patch_target_def)
qed

text \<open>C3: The patches of a binary take effect together. If they write to different bytes, then after
  Patcher_patch every data patch is in memory, every branch patch whose target is in reach is an
  instruction that branches there, with the return address saved if asked for; a thunk holds the
  instruction that was overwritten and a branch to the one behind it; no other byte has changed.\<close>

theorem patches_take_effect:
  assumes "separate b binary ps"
  shows "(\<forall>p \<in> set ps. applies b binary p \<longrightarrow> in_effect p m (Patcher_patch b ps binary m)) \<and>
    (\<forall>x. (\<forall>p \<in> set ps. x \<notin> footprint b binary p) \<longrightarrow> Patcher_patch b ps binary m x = m x)"
proof (intro conjI ballI impI allI)
  fix p assume p: "p \<in> set ps" "applies b binary p"
  obtain m' where m': "\<forall>x \<in> footprint b binary p. m' x = m x"
    "\<forall>x \<in> footprint b binary p. Patcher_patch b ps binary m x = patch_one b binary p m' x"
    using Patcher_patch_own [OF assms p(1)] by blast
  have "in_effect p m' (patch_one b binary p m')" by (rule patch_one_in_effect [OF p(2) separate_own [OF assms p(1)]])
  then show "in_effect p m (Patcher_patch b ps binary m)"
    using m' by (intro in_effect_cong [OF p(2), of m' m "patch_one b binary p m'"]) auto
next
  fix x assume "\<forall>p \<in> set ps. x \<notin> footprint b binary p"
  then show "Patcher_patch b ps binary m x = m x" by (intro Patcher_patch_outside) auto
qed

section \<open>An example\<close>

lemma spans_apart:
  assumes "n \<le> unat (c - a)" and "k \<le> unat (a - c)"
  shows "span a n \<inter> span c k = {}"
proof -
  have False if x: "unat (x - a) < n" "unat (x - c) < k" for x
  proof (cases "x - c \<le> x - a")
    case True
    have "c - a = (x - a) - (x - c)" by simp
    then have "unat (c - a) \<le> unat (x - a)" using True by (metis unat_sub diff_le_self)
    then show False using x assms by simp
  next
    case False
    have "a - c = (x - c) - (x - a)" by simp
    then have "unat (a - c) \<le> unat (x - c)" using False by (metis linear unat_sub diff_le_self)
    then show False using x assms by simp
  qed
  then show ?thesis by (auto simp: span_def)
qed

definition example_binaries :: binaries where
  "example_binaries = \<lparr>dol_start = 0x80004000, dol_end = 0x80389140, rel_start = 0x805102e0, rel_end = 0x809C4F90\<rparr>"

definition example_patches :: "patch list" where
  "example_patches = [Patch_Branch 0x80008ef0 0x809C5000 True 0x809C6000, Patch_Write 0x80005000 [0x60, 0, 0, 0], Patch_Branch 0x80600000 0x809C5100 False 0]"

lemma example_separate: "separate example_binaries PATCHER_BINARY_DOL example_patches"
proof -
  have "span 0x80008ef0 4 \<inter> span 0x809C6000 8 = {}" "span 0x80008ef0 4 \<inter> span 0x80005000 4 = {}" "span 0x809C6000 8 \<inter> span 0x80005000 4 = {}"
    by (rule spans_apart; simp)+
  moreover have "span a (Suc (Suc (Suc (Suc 0)))) = span a 4" for a by (simp add: numeral_eq_Suc)
  ultimately show ?thesis
    by (auto simp: example_patches_def footprint_def applies_def patch_target_def target_span_def thunk_span_def len_simps
        getBinary_def example_binaries_def)
qed

theorem patches_take_effect_witness:
  "branches_to 0x80008ef0 (mem_u32 (Patcher_patch example_binaries example_patches PATCHER_BINARY_DOL (\<lambda>a. 1)) 0x80008ef0) = Some (0x809C5000, True) \<and>
   mem_u32 (Patcher_patch example_binaries example_patches PATCHER_BINARY_DOL (\<lambda>a. 1)) 0x809C6000 = 0x01010101 \<and>
   branches_to 0x809C6004 (mem_u32 (Patcher_patch example_binaries example_patches PATCHER_BINARY_DOL (\<lambda>a. 1)) 0x809C6004) = Some (0x80008ef4, False)"
proof -
  let ?p = "Patch_Branch 0x80008ef0 0x809C5000 True 0x809C6000"
  have "?p \<in> set example_patches" by (simp add: example_patches_def)
  moreover have "applies example_binaries PATCHER_BINARY_DOL ?p" by code_simp
  moreover have "reachable_branch 0x80008ef0 0x809C5000" "reachable_branch 0x809C6000 0x80008ef0" by code_simp+
  moreover have "mem_u32 (\<lambda>a. 1) 0x80008ef0 = 0x01010101" by code_simp
  ultimately show ?thesis
    using patches_take_effect [OF example_separate, of "\<lambda>a. 1"] by (auto simp: in_effect_def)
qed

end
