(* ===== verification/Platform.thy ===== *)
theory Platform
  imports IOS_World
begin

text \<open>
  \<open>payload/sp/IOSDolphin.cc\<close> and \<open>payload/sp/Host.cc\<close>: the commands an emulator offers, and the detection of the
  machine the program runs on.  An operation of \<open>IOSDolphin\<close> asserts that the device is open; logging is left out.
\<close>

section \<open>The device of the emulator\<close>

datatype Ioctlv = GetElapsedTime | GetVersion | GetSpeedLimit | SetSpeedLimit | GetCPUSpeed | GetRealProductCode
  | DiscordSetClient | DiscordSetPresence | DiscordReset | GetSystemTime

primrec ioctlv_number :: "Ioctlv \<Rightarrow> nat" where
  "ioctlv_number GetElapsedTime = 1"
| "ioctlv_number GetVersion = 2"
| "ioctlv_number GetSpeedLimit = 3"
| "ioctlv_number SetSpeedLimit = 4"
| "ioctlv_number GetCPUSpeed = 5"
| "ioctlv_number GetRealProductCode = 6"
| "ioctlv_number DiscordSetClient = 7"
| "ioctlv_number DiscordSetPresence = 8"
| "ioctlv_number DiscordReset = 9"
| "ioctlv_number GetSystemTime = 10"

definition IPC_OK :: int where "IPC_OK = 0"

definition IPC_EINVAL :: int where "IPC_EINVAL = -4"

text \<open>The state is \<open>sDevDolphin\<close> and the world.\<close>

type_synonym 'w dolphin = "int \<times> 'w"

definition Dolphin_Open :: "'w ios_sdk \<Rightarrow> 'w dolphin \<Rightarrow> bool \<times> 'w dolphin" where
  "Dolphin_Open sdk = (\<lambda>(fd, w).
     let (fd, w) = (if fd < 0 then IOS_Open sdk ''/dev/dolphin'' w else (fd, w)) in (fd \<ge> 0, (fd, w)))"

definition Dolphin_IsOpen :: "'w dolphin \<Rightarrow> bool" where
  "Dolphin_IsOpen d \<longleftrightarrow> fst d \<ge> 0"

definition Dolphin_Close :: "'w ios_sdk \<Rightarrow> 'w dolphin \<Rightarrow> 'w dolphin" where
  "Dolphin_Close sdk = (\<lambda>(fd, w). if fd \<ge> 0 then let (_, w) = IOS_Close sdk fd w in (-1, w) else (fd, w))"

definition IssueCommand :: "'w ios_sdk \<Rightarrow> Ioctlv \<Rightarrow> nat \<Rightarrow> nat \<Rightarrow> bytes list \<Rightarrow> 'w dolphin \<Rightarrow> ((int \<times> bytes list) \<times> 'w dolphin) option" where
  "IssueCommand sdk cmd inputs outputs vec = (\<lambda>(fd, w). do {
     ensure (inputs + outputs = length vec);
     let (r, w) = IOS_Ioctlv sdk fd (ioctlv_number cmd) inputs outputs vec w;
     Some (r, (fd, w)) })"

text \<open>A result is the error of the command or the bytes of its only output, of a number in the order of memory.\<close>

definition dolphin_get :: "'w ios_sdk \<Rightarrow> Ioctlv \<Rightarrow> nat \<Rightarrow> 'w dolphin \<Rightarrow> ((int + bytes) \<times> 'w dolphin) option" where
  "dolphin_get sdk cmd n d = do {
     ensure (Dolphin_IsOpen d);
     ((result, vec), d) \<leftarrow> IssueCommand sdk cmd 0 1 [replicate n 0] d;
     out \<leftarrow> rd vec 0;
     Some (if result \<noteq> IPC_OK then Inl result else Inr out, d) }"

definition Dolphin_GetElapsedTime :: "'w ios_sdk \<Rightarrow> 'w dolphin \<Rightarrow> ((int + bytes) \<times> 'w dolphin) option" where
  "Dolphin_GetElapsedTime sdk = dolphin_get sdk GetElapsedTime 4"

definition Dolphin_GetCPUSpeed :: "'w ios_sdk \<Rightarrow> 'w dolphin \<Rightarrow> ((int + bytes) \<times> 'w dolphin) option" where
  "Dolphin_GetCPUSpeed sdk = dolphin_get sdk GetCPUSpeed 4"

definition Dolphin_GetSpeedLimit :: "'w ios_sdk \<Rightarrow> 'w dolphin \<Rightarrow> ((int + bytes) \<times> 'w dolphin) option" where
  "Dolphin_GetSpeedLimit sdk = dolphin_get sdk GetSpeedLimit 4"

definition Dolphin_GetSystemTime :: "'w ios_sdk \<Rightarrow> 'w dolphin \<Rightarrow> ((int + bytes) \<times> 'w dolphin) option" where
  "Dolphin_GetSystemTime sdk = dolphin_get sdk GetSystemTime 8"

definition Dolphin_GetVersion :: "'w ios_sdk \<Rightarrow> 'w dolphin \<Rightarrow> ((int + bytes) \<times> 'w dolphin) option" where
  "Dolphin_GetVersion sdk d = do {
     (r, d) \<leftarrow> dolphin_get sdk GetVersion 64 d;
     case r of Inl e \<Rightarrow> Some (Inl e, d)
     | Inr query \<Rightarrow> do {
         l \<leftarrow> rd query 63;
         Some (if l \<noteq> 0 then Inl IPC_EINVAL else Inr query, d) } }"

definition Dolphin_GetRealProductCode :: "'w ios_sdk \<Rightarrow> 'w dolphin \<Rightarrow> ((int + bytes) \<times> 'w dolphin) option" where
  "Dolphin_GetRealProductCode sdk d = do {
     (r, d) \<leftarrow> dolphin_get sdk GetRealProductCode 4 d;
     case r of Inl e \<Rightarrow> Some (Inl e, d)
     | Inr query \<Rightarrow> do {
         l \<leftarrow> rd query 3;
         Some (if l \<noteq> 0 then Inl IPC_EINVAL else Inr (take 3 query), d) } }"

definition dolphin_put :: "'w ios_sdk \<Rightarrow> Ioctlv \<Rightarrow> bytes list \<Rightarrow> 'w dolphin \<Rightarrow> (int \<times> 'w dolphin) option" where
  "dolphin_put sdk cmd vec d = do {
     ensure (Dolphin_IsOpen d);
     ((result, _), d) \<leftarrow> IssueCommand sdk cmd (length vec) 0 vec d;
     Some (result, d) }"

definition Dolphin_SetSpeedLimit :: "'w ios_sdk \<Rightarrow> u32 \<Rightarrow> 'w dolphin \<Rightarrow> (int \<times> 'w dolphin) option" where
  "Dolphin_SetSpeedLimit sdk percent = dolphin_put sdk SetSpeedLimit [to_be percent]"

definition Dolphin_DiscordSetClient :: "'w ios_sdk \<Rightarrow> bytes \<Rightarrow> 'w dolphin \<Rightarrow> (int \<times> 'w dolphin) option" where
  "Dolphin_DiscordSetClient sdk client = dolphin_put sdk DiscordSetClient [client]"

record DolphinDiscordPresence =
  dp_state :: bytes
  dp_details :: bytes
  startTimestamp :: u64
  endTimestamp :: u64
  largeImageKey :: bytes
  largeImageText :: bytes
  smallImageKey :: bytes
  smallImageText :: bytes
  partySize :: u32
  partyMax :: u32

definition Dolphin_DiscordSetPresence :: "'w ios_sdk \<Rightarrow> DolphinDiscordPresence \<Rightarrow> 'w dolphin \<Rightarrow> (int \<times> 'w dolphin) option" where
  "Dolphin_DiscordSetPresence sdk p = dolphin_put sdk DiscordSetPresence
     [dp_details p, dp_state p, largeImageKey p, largeImageText p, smallImageKey p, smallImageText p,
      to_be (startTimestamp p), to_be (endTimestamp p), to_be (partySize p), to_be (partyMax p)]"

definition Dolphin_DiscordReset :: "'w ios_sdk \<Rightarrow> 'w dolphin \<Rightarrow> (int \<times> 'w dolphin) option" where
  "Dolphin_DiscordReset sdk = dolphin_put sdk DiscordReset []"

section \<open>The machine\<close>

datatype HostPlatform = HOST_UNKNOWN | HOST_REVOLUTION | HOST_WII_MINI | HOST_CAFE
  | HOST_DOLPHIN_PREHISTORIC | HOST_DOLPHIN_UNKNOWN | HOST_DOLPHIN | HOST_WINDOWS | HOST_APPLE | HOST_LINUX

text \<open>The places in the enumeration, with the marks that begin and end each kind of machine.\<close>

primrec platform_number :: "HostPlatform \<Rightarrow> nat" where
  "platform_number HOST_UNKNOWN = 0"
| "platform_number HOST_REVOLUTION = 2"
| "platform_number HOST_WII_MINI = 3"
| "platform_number HOST_CAFE = 4"
| "platform_number HOST_DOLPHIN_PREHISTORIC = 7"
| "platform_number HOST_DOLPHIN_UNKNOWN = 8"
| "platform_number HOST_DOLPHIN = 9"
| "platform_number HOST_WINDOWS = 12"
| "platform_number HOST_APPLE = 13"
| "platform_number HOST_LINUX = 14"

definition HostPlatform_IsKnown :: "HostPlatform \<Rightarrow> bool" where
  "HostPlatform_IsKnown p \<longleftrightarrow> p \<noteq> HOST_UNKNOWN"

definition HostPlatform_IsConsole :: "HostPlatform \<Rightarrow> bool" where
  "HostPlatform_IsConsole p \<longleftrightarrow> platform_number p > 1 \<and> platform_number p < 5"

definition HostPlatform_IsDolphin :: "HostPlatform \<Rightarrow> bool" where
  "HostPlatform_IsDolphin p \<longleftrightarrow> platform_number p > 6 \<and> platform_number p < 10"

definition HostPlatform_IsPC :: "HostPlatform \<Rightarrow> bool" where
  "HostPlatform_IsPC p \<longleftrightarrow> platform_number p > 11 \<and> platform_number p < 15"

record host =
  sHostIsInit :: bool
  sPlatform :: HostPlatform
  sDolphinTag :: bytes

record RawCPU_ID =
  cpu_924 :: u32
  ECID_H :: u32
  ECID_M :: u32
  ECID_L :: u32

definition sCpuId_PrehistoricDolphin :: RawCPU_ID where
  "sCpuId_PrehistoricDolphin = \<lparr>cpu_924 = 0, ECID_H = 0, ECID_M = 0, ECID_L = 0\<rparr>"

definition sCpuId_Dolphin :: RawCPU_ID where
  "sCpuId_Dolphin = \<lparr>cpu_924 = 0xd96e200, ECID_H = 0x1840c00d, ECID_M = 0x82bb08e8, ECID_L = 0\<rparr>"

text \<open>The special registers of the processor by their numbers.\<close>

definition Host_GetCPUID :: "(nat \<Rightarrow> u32) \<Rightarrow> RawCPU_ID" where
  "Host_GetCPUID spr = \<lparr>cpu_924 = spr 0x39c, ECID_H = spr 0x39d, ECID_M = spr 0x39e, ECID_L = spr 0x39f\<rparr>"

definition Host_SetCPUID :: "RawCPU_ID \<Rightarrow> (nat \<Rightarrow> u32) \<Rightarrow> nat \<Rightarrow> u32" where
  "Host_SetCPUID i spr = spr(0x39c := cpu_924 i, 0x39d := ECID_H i, 0x39e := ECID_M i, 0x39f := ECID_L i)"

text \<open>The characters of a string before its zero; \<open>snprintf\<close> into an array of \<open>n\<close> bytes keeps \<open>n - 1\<close> of them.\<close>

definition cstring :: "bytes \<Rightarrow> bytes" where
  "cstring = takeWhile (\<lambda>b. b \<noteq> 0)"

definition HOST_PLATFORM_BUFFER_SIZE :: nat where
  "HOST_PLATFORM_BUFFER_SIZE = 32"

definition text_bytes :: "string \<Rightarrow> bytes" where
  "text_bytes = map (\<lambda>c. of_char c)"

definition snprintf_text :: "nat \<Rightarrow> bytes \<Rightarrow> bytes" where
  "snprintf_text n s = take (n - 1) s"

text \<open>\<open>installed\<close> stands for \<open>OSIsTitleInstalled\<close>.\<close>

definition DetectPlatform ::
  "'w ios_sdk \<Rightarrow> (nat \<Rightarrow> u32) \<Rightarrow> (u64 \<Rightarrow> 'w \<Rightarrow> bool \<times> 'w) \<Rightarrow> 'w dolphin \<Rightarrow> host \<Rightarrow> (host \<times> 'w dolphin) option" where
  "DetectPlatform sdk spr installed d h =
     (let (opened, d) = Dolphin_Open sdk d
      in if opened then do {
           let h = h\<lparr>sPlatform := HOST_DOLPHIN\<rparr>;
           (q, d) \<leftarrow> Dolphin_GetVersion sdk d;
           Some (case q of Inl e \<Rightarrow> h\<lparr>sPlatform := HOST_DOLPHIN_UNKNOWN\<rparr>
             | Inr v \<Rightarrow> h\<lparr>sDolphinTag := snprintf_text HOST_PLATFORM_BUFFER_SIZE (text_bytes ''Dolphin '' @ cstring v)\<rparr>, d) }
         else
           let cpuid = Host_GetCPUID spr
           in if cpuid = sCpuId_Dolphin then Some (h\<lparr>sPlatform := HOST_DOLPHIN_UNKNOWN\<rparr>, d)
              else if cpuid = sCpuId_PrehistoricDolphin then Some (h\<lparr>sPlatform := HOST_DOLPHIN_PREHISTORIC\<rparr>, d)
              else
                let (fd, w) = d;
                    (macaddr, w) = IOS_Open sdk ''/title/00000001/00000002/data/macaddr.bin'' w
                in if macaddr \<ge> 0 then let (_, w) = IOS_Close sdk macaddr w in Some (h\<lparr>sPlatform := HOST_WII_MINI\<rparr>, (fd, w))
                   else
                     let (cafe, w) = installed 0x0000000100000200 w
                     in Some (h\<lparr>sPlatform := (if cafe then HOST_CAFE else HOST_REVOLUTION)\<rparr>, (fd, w)))"

definition Host_Init ::
  "'w ios_sdk \<Rightarrow> (nat \<Rightarrow> u32) \<Rightarrow> (u64 \<Rightarrow> 'w \<Rightarrow> bool \<times> 'w) \<Rightarrow> 'w dolphin \<Rightarrow> host \<Rightarrow> (host \<times> 'w dolphin) option" where
  "Host_Init sdk spr installed d h =
     (if sHostIsInit h then Some (h, d) else DetectPlatform sdk spr installed d (h\<lparr>sHostIsInit := True\<rparr>))"

definition Host_GetPlatform ::
  "'w ios_sdk \<Rightarrow> (nat \<Rightarrow> u32) \<Rightarrow> (u64 \<Rightarrow> 'w \<Rightarrow> bool \<times> 'w) \<Rightarrow> 'w dolphin \<Rightarrow> host \<Rightarrow> (HostPlatform \<times> host \<times> 'w dolphin) option" where
  "Host_GetPlatform sdk spr installed d h = do { (h, d) \<leftarrow> Host_Init sdk spr installed d h; Some (sPlatform h, h, d) }"

definition Host_GetDolphinTag ::
  "'w ios_sdk \<Rightarrow> (nat \<Rightarrow> u32) \<Rightarrow> (u64 \<Rightarrow> 'w \<Rightarrow> bool \<times> 'w) \<Rightarrow> 'w dolphin \<Rightarrow> host \<Rightarrow> (bytes \<times> host \<times> 'w dolphin) option" where
  "Host_GetDolphinTag sdk spr installed d h = do { (h, d) \<leftarrow> Host_Init sdk spr installed d h; Some (sDolphinTag h, h, d) }"

text \<open>\<open>consoleType\<close> is what \<open>OSGetConsoleType\<close> gives.\<close>

definition GetWiiTag :: "u32 \<Rightarrow> bytes" where
  "GetWiiTag consoleType = text_bytes (if consoleType AND 0xF0000000 = 0 then ''Wii (Retail)'' else ''Wii (Development)'')"

definition Host_PlatformString :: "u32 \<Rightarrow> bytes \<Rightarrow> HostPlatform \<Rightarrow> bytes" where
  "Host_PlatformString consoleType tag p = (case p of
     HOST_REVOLUTION \<Rightarrow> GetWiiTag consoleType
   | HOST_WII_MINI \<Rightarrow> text_bytes ''Wii Mini''
   | HOST_CAFE \<Rightarrow> text_bytes ''Wii U''
   | HOST_DOLPHIN_PREHISTORIC \<Rightarrow> text_bytes ''Ancient Dolphin (Unsupported)''
   | HOST_DOLPHIN_UNKNOWN \<Rightarrow> text_bytes ''Dolphin (Unsupported)''
   | HOST_DOLPHIN \<Rightarrow> tag
   | HOST_WINDOWS \<Rightarrow> text_bytes ''Windows''
   | HOST_APPLE \<Rightarrow> text_bytes ''Apple''
   | HOST_LINUX \<Rightarrow> text_bytes ''Linux''
   | HOST_UNKNOWN \<Rightarrow> text_bytes ''Unknown host'')"

definition Host_IsGeckoEnabled :: "(u32 \<Rightarrow> u8) \<Rightarrow> bool" where
  "Host_IsGeckoEnabled m \<longleftrightarrow> m 0x800018A8 = 0x94"

text \<open>The name of the system in the banner: the platform, with a star when Gecko codes are enabled.\<close>

definition Host_SystemName :: "u32 \<Rightarrow> bytes \<Rightarrow> (u32 \<Rightarrow> u8) \<Rightarrow> HostPlatform \<Rightarrow> bytes" where
  "Host_SystemName consoleType tag m p =
     (let system = take (HOST_PLATFORM_BUFFER_SIZE - 1) (Host_PlatformString consoleType tag p)
      in if Host_IsGeckoEnabled m then system @ snprintf_text (HOST_PLATFORM_BUFFER_SIZE - length system) (text_bytes ''*'') else system)"

section \<open>What the detection gives\<close>

lemma platform_kinds:
  "HostPlatform_IsKnown p \<longleftrightarrow> HostPlatform_IsConsole p \<or> HostPlatform_IsDolphin p \<or> HostPlatform_IsPC p"
  "\<not> (HostPlatform_IsConsole p \<and> HostPlatform_IsDolphin p)"
  "\<not> (HostPlatform_IsConsole p \<and> HostPlatform_IsPC p)"
  "\<not> (HostPlatform_IsDolphin p \<and> HostPlatform_IsPC p)"
  by (cases p; simp add: HostPlatform_IsKnown_def HostPlatform_IsConsole_def HostPlatform_IsDolphin_def HostPlatform_IsPC_def)+

text \<open>A device gives an output as long as the buffer.\<close>

definition keeps_lengths :: "'w ios_sdk \<Rightarrow> bool" where
  "keeps_lengths sdk \<longleftrightarrow> (\<forall>fd cmd i n vec w. map length (snd (fst (IOS_Ioctlv sdk fd cmd i n vec w))) = map length vec)"

lemma dolphin_get_runs:
  assumes "keeps_lengths sdk" "Dolphin_IsOpen d"
  shows "\<exists>r d'. dolphin_get sdk cmd n d = Some (r, d') \<and> fst d' = fst d \<and> (\<forall>out. r = Inr out \<longrightarrow> length out = n)"
proof -
  obtain fd w where d: "d = (fd, w)" by (metis surj_pair)
  obtain result vec w' where r: "IOS_Ioctlv sdk fd (ioctlv_number cmd) 0 1 [replicate n 0] w = ((result, vec), w')" by (metis surj_pair)
  have "map length vec = [n]" using assms(1) r unfolding keeps_lengths_def by (metis fst_conv snd_conv length_replicate list.simps(8,9))
  then obtain out where "vec = [out]" "length out = n" by (cases vec) auto
  then show ?thesis using assms(2) d r by (auto simp: dolphin_get_def IssueCommand_def ensure_def rd_def)
qed

text \<open>
  The detection never runs into an assertion; it gives a platform that is known and leaves the device of the
  emulator open exactly if there is one, and only then the tag may change.
\<close>

lemma DetectPlatform_known:
  assumes "keeps_lengths sdk" "DetectPlatform sdk spr installed d h = r"
  shows "\<exists>h' d'. r = Some (h', d') \<and> HostPlatform_IsKnown (sPlatform h') \<and> sHostIsInit h' = sHostIsInit h \<and>
    (Dolphin_IsOpen d' \<longrightarrow> HostPlatform_IsDolphin (sPlatform h')) \<and>
    (sPlatform h' \<noteq> HOST_DOLPHIN \<longrightarrow> sDolphinTag h' = sDolphinTag h)"
proof -
  obtain opened d1 where op: "Dolphin_Open sdk d = (opened, d1)" by (metis surj_pair)
  then have is_open: "Dolphin_IsOpen d1 = opened" by (auto simp: Dolphin_Open_def Dolphin_IsOpen_def Let_def split: prod.splits if_splits)
  note kinds = HostPlatform_IsKnown_def HostPlatform_IsDolphin_def
  show ?thesis
  proof (cases opened)
    case True
    obtain q d2 where q: "dolphin_get sdk GetVersion 64 d1 = Some (q, d2)" "\<forall>out. q = Inr out \<longrightarrow> length out = 64"
      using dolphin_get_runs [OF assms(1), of d1 GetVersion 64] True is_open by blast
    then show ?thesis using True op assms(2)
      by (cases q) (auto simp: DetectPlatform_def Dolphin_GetVersion_def rd_def kinds)
  next
    case False
    then show ?thesis using op assms(2) is_open
      by (auto simp: DetectPlatform_def Dolphin_IsOpen_def kinds Let_def split: prod.splits)
  qed
qed

lemma Host_Init_once:
  assumes "Host_Init sdk spr installed d h = Some (h', d')" "keeps_lengths sdk"
  shows "Host_Init sdk spr' installed' d'' h' = Some (h', d'')"
  using assms DetectPlatform_known [OF assms(2) refl, of spr installed d "h\<lparr>sHostIsInit := True\<rparr>"]
  by (auto simp: Host_Init_def split: if_splits)

lemma Host_SystemName_fits: "length (Host_SystemName consoleType tag m p) < HOST_PLATFORM_BUFFER_SIZE"
  by (auto simp: Host_SystemName_def snprintf_text_def HOST_PLATFORM_BUFFER_SIZE_def Let_def min_def)

end
