(* ===== verification/Handle_Pool.thy ===== *)
theory Handle_Pool
  imports Prelude
begin

text \<open>
  The handle pools of the storage back ends (\<open>payload/sp/storage\<close>): each back end has 32 file
  objects and 32 directory objects, a flag \<open>m_isOpen\<close> in each, and gives out pointers to them.  This
  theory has the pool operations the back ends share, the interface they promise to the holders of
  handles, and what follows from it for any sequence of openings, clonings and closings.
\<close>

section \<open>Wide strings\<close>

text \<open>
  \<open>wchar_t\<close> strings without their terminator.  A format \<open>%ls\<close> or \<open>%s\<close> that changes the width of
  characters is modelled for characters below 256, where both widths have the same codes.
  A \<open>swprintf\<close> or \<open>snprintf\<close> into an array of \<open>n\<close> elements keeps the first \<open>n - 1\<close>.
\<close>

type_synonym wstr = "u16 list"

definition wide :: "string \<Rightarrow> wstr" where
  "wide s = map of_char s"

definition narrow :: "wstr \<Rightarrow> bytes" where
  "narrow s = map ucast s"

definition widen :: "bytes \<Rightarrow> wstr" where
  "widen s = map ucast s"

definition printed :: "nat \<Rightarrow> 'c list \<Rightarrow> 'c list" where
  "printed n s = take (n - 1) s"

text \<open>\<open>wcsncmp(s, p, wcslen(p)) == 0\<close>.\<close>

definition starts_with :: "'c list \<Rightarrow> 'c list \<Rightarrow> bool" where
  "starts_with p s \<longleftrightarrow> take (length p) s = p"

lemma starts_with_append [simp]: "starts_with p (p @ s)"
  by (simp add: starts_with_def)

lemma length_wide [simp]: "length (wide s) = length s"
  by (simp add: wide_def)

text \<open>What follows the last \<open>/\<close>; the whole string if there is none.\<close>

fun after_slash :: "wstr \<Rightarrow> wstr \<Rightarrow> wstr" where
  "after_slash bare [] = bare"
| "after_slash bare (c # s) = after_slash (if c = of_char (CHR ''/'') then s else bare) s"

definition bare_name :: "wstr \<Rightarrow> wstr" where
  "bare_name path = after_slash path path"

section \<open>Pools\<close>

record 'n slot =
  s_node :: 'n
  s_isOpen :: bool

definition POOL_SIZE :: nat where
  "POOL_SIZE = 32"

text \<open>\<open>FindNode\<close>: the first slot that is not open; the end of the array is \<^term>\<open>None\<close>.\<close>

definition FindNode :: "'n slot list \<Rightarrow> nat option" where
  "FindNode nodes =
     (let i = length (takeWhile s_isOpen nodes) in if i < length nodes then Some i else None)"

text \<open>
  The shape of every opening: look for a free slot, let a function of the library below fill it,
  mark it open when that succeeded.  \<open>fill\<close> gets the old content of the slot and the world.
\<close>

definition claim_slot ::
  "('n \<Rightarrow> 'w \<Rightarrow> (bool \<times> 'n \<times> 'w) option) \<Rightarrow> 'w \<Rightarrow> 'n slot list \<Rightarrow> (nat option \<times> 'w \<times> 'n slot list) option" where
  "claim_slot fill w nodes =
     (case FindNode nodes of
        None \<Rightarrow> Some (None, w, nodes)
      | Some i \<Rightarrow> do {
          node \<leftarrow> rd nodes i;
          (ok, n, w) \<leftarrow> fill (s_node node) w;
          if \<not> ok then Some (None, w, nodes[i := node\<lparr>s_node := n\<rparr>])
          else Some (Some i, w, nodes[i := \<lparr>s_node = n, s_isOpen = True\<rparr>])
        })"

text \<open>Closing marks the slot free when the library agrees.\<close>

definition close_slot ::
  "('n \<Rightarrow> 'w \<Rightarrow> bool \<times> 'n \<times> 'w) \<Rightarrow> nat \<Rightarrow> 'w \<Rightarrow> 'n slot list \<Rightarrow> (bool \<times> 'w \<times> 'n slot list) option" where
  "close_slot shut i w nodes = do {
     node \<leftarrow> rd nodes i;
     let (ok, n, w) = shut (s_node node) w;
     if \<not> ok then Some (False, w, nodes[i := node\<lparr>s_node := n\<rparr>])
     else Some (True, w, nodes[i := \<lparr>s_node = n, s_isOpen = False\<rparr>])
   }"

text \<open>An operation on the object of an open slot.\<close>

definition with_slot ::
  "('n \<Rightarrow> 'w \<Rightarrow> 'r \<times> 'n \<times> 'w) \<Rightarrow> nat \<Rightarrow> 'w \<Rightarrow> 'n slot list \<Rightarrow> ('r \<times> 'w \<times> 'n slot list) option" where
  "with_slot f i w nodes = do {
     node \<leftarrow> rd nodes i;
     let (r, n, w) = f (s_node node) w;
     Some (r, w, nodes[i := node\<lparr>s_node := n\<rparr>])
   }"

definition open_slots :: "'n slot list \<Rightarrow> nat set" where
  "open_slots nodes = {i. i < length nodes \<and> s_isOpen (nodes ! i)}"

lemma mem_open_slots: "i \<in> open_slots nodes \<longleftrightarrow> i < length nodes \<and> s_isOpen (nodes ! i)"
  by (simp add: open_slots_def)

lemma open_slots_update:
  "i < length nodes \<Longrightarrow>
   open_slots (nodes[i := s]) = (if s_isOpen s then insert i (open_slots nodes) else open_slots nodes - {i})"
  by (auto simp: open_slots_def nth_list_update)

lemma FindNode_free: "FindNode nodes = Some i \<Longrightarrow> i < length nodes \<and> \<not> s_isOpen (nodes ! i)"
  by (auto simp: FindNode_def Let_def dest: nth_length_takeWhile split: if_splits)

lemma FindNode_None: "FindNode nodes = None \<longleftrightarrow> (\<forall>s \<in> set nodes. s_isOpen s)"
proof (cases "\<forall>s \<in> set nodes. s_isOpen s")
  case True
  then have "length (takeWhile s_isOpen nodes) = length nodes" by (metis takeWhile_eq_all_conv)
  then show ?thesis using True by (simp add: FindNode_def)
next
  case False
  then have "takeWhile s_isOpen nodes \<noteq> nodes" by (simp add: takeWhile_eq_all_conv)
  then have "length (takeWhile s_isOpen nodes) \<noteq> length nodes" by (metis takeWhile_eq_take take_all order.refl)
  then have "length (takeWhile s_isOpen nodes) < length nodes" using length_takeWhile_le [of s_isOpen nodes] by linarith
  then show ?thesis using False by (simp add: FindNode_def)
qed

text \<open>The effect of an opening on the set of open objects.\<close>

definition claimed :: "'h set \<Rightarrow> 'h option \<Rightarrow> 'h set \<Rightarrow> bool" where
  "claimed A r B \<longleftrightarrow> (case r of None \<Rightarrow> B = A | Some h \<Rightarrow> h \<notin> A \<and> B = insert h A)"

lemma claimed_None [simp]: "claimed A None B \<longleftrightarrow> B = A"
  by (simp add: claimed_def)

lemma claimed_Some [simp]: "claimed A (Some h) B \<longleftrightarrow> h \<notin> A \<and> B = insert h A"
  by (simp add: claimed_def)

lemma claim_slot_open:
  assumes "claim_slot fill w nodes = Some (r, w', nodes')"
  shows "claimed (open_slots nodes) r (open_slots nodes') \<and> length nodes' = length nodes"
proof (cases "FindNode nodes")
  case None
  then show ?thesis using assms by (simp add: claim_slot_def)
next
  case (Some i)
  then show ?thesis
    using assms FindNode_free [OF Some]
    by (auto simp: claim_slot_def open_slots_update fault_simps split: if_splits prod.splits)
      (auto simp: open_slots_def)
qed

lemma close_slot_open:
  "close_slot shut i w nodes = Some (ok, w', nodes') \<Longrightarrow>
   open_slots nodes' = (if ok then open_slots nodes - {i} else open_slots nodes) \<and> length nodes' = length nodes"
  by (auto simp: close_slot_def open_slots_def fault_simps Let_def nth_list_update split: if_splits prod.splits)

lemma with_slot_open:
  "with_slot f i w nodes = Some (r, w', nodes') \<Longrightarrow> open_slots nodes' = open_slots nodes \<and> length nodes' = length nodes"
  by (auto simp: with_slot_def open_slots_def fault_simps Let_def nth_list_update split: prod.splits if_splits)

lemma clone_open:
  assumes "Some j = FindNode nodes" and "s_isOpen x"
  shows "claimed (open_slots nodes) (FindNode nodes) (open_slots (nodes[j := x]))"
  using FindNode_free [of nodes j] assms(2) unfolding assms(1) [symmetric]
  by (simp add: open_slots_update) (simp add: open_slots_def)

lemma open_slots_bound: "finite (open_slots nodes)" "card (open_slots nodes) \<le> length nodes"
proof -
  have sub: "open_slots nodes \<subseteq> {..<length nodes}" by (auto simp: open_slots_def)
  then show "finite (open_slots nodes)" using finite_subset by blast
  show "card (open_slots nodes) \<le> length nodes" using card_mono [OF _ sub] by simp
qed

section \<open>Holders of handles\<close>

text \<open>
  A holder keeps a list of handles.  It opens, clones one it holds, or destroys one: the destructor
  of \<open>FileHandle\<close> closes and forgets the result.
\<close>

datatype 'q handle_op = HOpen 'q | HClone nat | HDestroy nat

fun handle_step ::
  "('q \<Rightarrow> 's \<Rightarrow> ('h option \<times> 's) option) \<Rightarrow> ('h \<Rightarrow> 's \<Rightarrow> ('h option \<times> 's) option) \<Rightarrow> ('h \<Rightarrow> 's \<Rightarrow> (bool \<times> 's) option) \<Rightarrow>
   'q handle_op \<Rightarrow> 'h list \<times> 's \<Rightarrow> ('h list \<times> 's) option" where
  "handle_step acquire duplicate release (HOpen q) (hs, s) = do {
     (r, s') \<leftarrow> acquire q s;
     Some (case r of None \<Rightarrow> hs | Some h \<Rightarrow> hs @ [h], s')
   }"
| "handle_step acquire duplicate release (HClone k) (hs, s) = do {
     h \<leftarrow> rd hs k;
     (r, s') \<leftarrow> duplicate h s;
     Some (case r of None \<Rightarrow> hs | Some h' \<Rightarrow> hs @ [h'], s')
   }"
| "handle_step acquire duplicate release (HDestroy k) (hs, s) = do {
     h \<leftarrow> rd hs k;
     (ok, s') \<leftarrow> release h s;
     Some (take k hs @ drop (k + 1) hs, s')
   }"

primrec handle_run ::
  "('q \<Rightarrow> 's \<Rightarrow> ('h option \<times> 's) option) \<Rightarrow> ('h \<Rightarrow> 's \<Rightarrow> ('h option \<times> 's) option) \<Rightarrow> ('h \<Rightarrow> 's \<Rightarrow> (bool \<times> 's) option) \<Rightarrow>
   'q handle_op list \<Rightarrow> 'h list \<times> 's \<Rightarrow> ('h list \<times> 's) option" where
  "handle_run acquire duplicate release [] c = Some c"
| "handle_run acquire duplicate release (p # ps) c =
     do { c' \<leftarrow> handle_step acquire duplicate release p c; handle_run acquire duplicate release ps c' }"

definition exclusive :: "('s \<Rightarrow> 'h set) \<Rightarrow> 'h list \<times> 's \<Rightarrow> bool" where
  "exclusive opened = (\<lambda>(hs, s). distinct hs \<and> set hs \<subseteq> opened s)"

section \<open>The interface of a storage\<close>

locale handle_store =
  fixes opened :: "'s \<Rightarrow> 'h set"
    and acquire :: "'q \<Rightarrow> 's \<Rightarrow> ('h option \<times> 's) option"
    and duplicate :: "'h \<Rightarrow> 's \<Rightarrow> ('h option \<times> 's) option"
    and release :: "'h \<Rightarrow> 's \<Rightarrow> (bool \<times> 's) option"
  assumes acquire_law: "acquire q s = Some (r, s') \<Longrightarrow> claimed (opened s) r (opened s')"
    and duplicate_law: "h \<in> opened s \<Longrightarrow> duplicate h s = Some (r, s') \<Longrightarrow> claimed (opened s) r (opened s')"
    and release_law: "release h s = Some (ok, s') \<Longrightarrow>
      opened s' = (if ok then opened s - {h} else opened s)"
begin

lemma claimed_exclusive:
  "exclusive opened (hs, s) \<Longrightarrow> claimed (opened s) r (opened s') \<Longrightarrow>
   exclusive opened (case r of None \<Rightarrow> hs | Some h \<Rightarrow> hs @ [h], s')"
  by (cases r) (auto simp: exclusive_def)

lemma step_exclusive:
  assumes "exclusive opened c" and "handle_step acquire duplicate release p c = Some c'"
  shows "exclusive opened c'"
proof -
  obtain hs s where c: "c = (hs, s)" by force
  show ?thesis
  proof (cases p)
    case (HOpen q)
    then obtain r s' where "acquire q s = Some (r, s')" "c' = (case r of None \<Rightarrow> hs | Some h \<Rightarrow> hs @ [h], s')"
      using assms(2) c by (auto simp: fault_simps)
    then show ?thesis using claimed_exclusive [of hs s r s'] acquire_law assms(1) c by auto
  next
    case (HClone k)
    then obtain r s' where r: "k < length hs" "duplicate (hs ! k) s = Some (r, s')"
      "c' = (case r of None \<Rightarrow> hs | Some h \<Rightarrow> hs @ [h], s')"
      using assms(2) c by (auto simp: fault_simps)
    then have "claimed (opened s) r (opened s')"
      using assms(1) c duplicate_law [of "hs ! k" s r s'] nth_mem by (auto simp: exclusive_def)
    then show ?thesis using claimed_exclusive [of hs s r s'] assms(1) c r(3) by auto
  next
    case (HDestroy k)
    then obtain ok s' where r: "k < length hs" "release (hs ! k) s = Some (ok, s')"
      "c' = (take k hs @ drop (k + 1) hs, s')"
      using assms(2) c by (auto simp: fault_simps)
    have hs: "hs = take k hs @ hs ! k # drop (k + 1) hs" using r(1) by (simp add: id_take_nth_drop)
    have d: "distinct (take k hs @ hs ! k # drop (k + 1) hs)" using assms(1) c hs by (simp add: exclusive_def)
    have "set (take k hs @ drop (k + 1) hs) \<subseteq> set hs - {hs ! k}"
      using d set_take_subset [of k hs] set_drop_subset [of "k + 1" hs] by auto
    then show ?thesis
      using release_law [OF r(2)] assms(1) c r(3) d by (auto simp: exclusive_def)
  qed
qed

text \<open>Whatever the holder does, two handles never share an object and every handle's object is open.\<close>

lemma run_exclusive:
  "exclusive opened c \<Longrightarrow> handle_run acquire duplicate release ps c = Some c' \<Longrightarrow> exclusive opened c'"
proof (induction ps arbitrary: c)
  case (Cons p ps)
  then obtain c1 where "handle_step acquire duplicate release p c = Some c1"
    "handle_run acquire duplicate release ps c1 = Some c'"
    by (auto simp: fault_simps)
  then show ?case using Cons.IH step_exclusive [OF Cons.prems(1)] by blast
qed simp

lemma handles_bounded:
  assumes "exclusive opened (hs, s)" and "finite (opened s)"
  shows "length hs \<le> card (opened s)"
  using assms card_mono [of "opened s" "set hs"] by (simp add: exclusive_def distinct_card)

end

end
