(* ===== verification/Storage_Types.thy ===== *)
theory Storage_Types
  imports Handle_Pool
begin

text \<open>
  What the back ends of \<open>payload/sp/storage\<close> have in common: the types of \<open>Storage.hh\<close> and the
  alignment helper of \<open>Common.hh\<close>.
\<close>

datatype StorageType = ST_FAT | ST_NANDArchive | ST_DVD

datatype NodeType = NT_File | NT_Dir

text \<open>A \<open>NodeId\<close>'s pointer to its storage is the storage's tag, null is \<^term>\<open>None\<close>.\<close>

record node_id =
  nid_storage :: "StorageType option"
  nid_id :: u64

record node_info =
  ni_id :: node_id
  ni_type :: NodeType
  ni_size :: u64
  ni_tick :: u64
  ni_name :: wstr

text \<open>\<open>NodeInfo info{}\<close>.\<close>

definition node_info_zero :: node_info where
  "node_info_zero = \<lparr>ni_id = \<lparr>nid_storage = None, nid_id = 0\<rparr>, ni_type = NT_File, ni_size = 0, ni_tick = 0, ni_name = []\<rparr>"

definition NODE_NAME_SIZE :: nat where
  "NODE_NAME_SIZE = 255 + 1"

definition AlignDown :: "'a::len word \<Rightarrow> nat \<Rightarrow> 'a word" where
  "AlignDown val alignment = val div of_nat alignment * of_nat alignment"

definition AlignUp :: "'a::len word \<Rightarrow> nat \<Rightarrow> 'a word" where
  "AlignUp val alignment = AlignDown (val + of_nat alignment - 1) alignment"

text \<open>Rounding up to 32: a multiple of 32, at most 31 above, unless the sum wraps.\<close>

lemma AlignDown_32: "unat (AlignDown (v :: u32) 32) = unat v div 32 * 32"
proof -
  have "unat v div 32 * 32 \<le> unat v" by (simp add: div_times_less_eq_dividend)
  moreover have "unat v < 2 ^ LENGTH(32)" by (rule unsigned_less)
  ultimately have "unat v div 32 * 32 < 2 ^ LENGTH(32)" by linarith
  then show ?thesis by (simp add: AlignDown_def unat_word_ariths unat_div_distrib)
qed

lemma AlignUp_32:
  assumes "unat (v :: u32) \<le> 2 ^ 32 - 32"
  shows "unat (AlignUp v 32) mod 32 = 0" "unat v \<le> unat (AlignUp v 32)" "unat (AlignUp v 32) < unat v + 32"
proof -
  have "unat (v + 31) = unat v + 31" using assms by (subst unat_add_lem [THEN iffD1]) simp_all
  then have eq: "unat (AlignUp v 32) = (unat v + 31) div 32 * 32"
    using AlignDown_32 [of "v + 31"] by (simp add: AlignUp_def add.commute)
  show "unat (AlignUp v 32) mod 32 = 0" "unat v \<le> unat (AlignUp v 32)" "unat (AlignUp v 32) < unat v + 32"
    unfolding eq by presburger+
qed

end
