(* ===== verification/DVD_Storage.thy ===== *)
theory DVD_Storage
  imports Storage_Types
begin

text \<open>
  \<open>payload/sp/storage/DVDStorage.cc\<close>: the game disc as a read-only storage.  The DVD library of the
  game is the record \<open>dvd_sdk\<close> of parameters; \<open>'f\<close> and \<open>'d\<close> are its \<open>DVDFileInfo\<close> and \<open>DVDDir\<close>, \<open>'w\<close>
  the drive.  Each function of the model that the code runs under \<open>m_mutex\<close> is one step.
\<close>

record dir_entry =
  de_entryNum :: u32
  de_isDir :: bool
  de_name :: bytes

record ('f, 'd, 'w) dvd_sdk =
  DVDOpen :: "bytes \<Rightarrow> 'f \<Rightarrow> 'w \<Rightarrow> bool \<times> 'f \<times> 'w"
  DVDFastOpen :: "int \<Rightarrow> 'f \<Rightarrow> 'w \<Rightarrow> bool \<times> 'f \<times> 'w"
  DVDRead :: "u32 \<Rightarrow> u32 \<Rightarrow> 'f \<Rightarrow> 'w \<Rightarrow> (int \<times> bytes) \<times> 'f \<times> 'w"
  DVDClose :: "'f \<Rightarrow> 'w \<Rightarrow> bool \<times> 'f \<times> 'w"
  DVDConvertPathToEntrynum :: "bytes \<Rightarrow> 'w \<Rightarrow> int"
  DVDOpenDir :: "bytes \<Rightarrow> 'd \<Rightarrow> 'w \<Rightarrow> bool \<times> 'd \<times> 'w"
  DVDFastOpenDir :: "int \<Rightarrow> 'd \<Rightarrow> 'w \<Rightarrow> bool \<times> 'd \<times> 'w"
  DVDReadDir :: "'d \<Rightarrow> 'w \<Rightarrow> dir_entry option \<times> 'd \<times> 'w"
  DVDCloseDir :: "'d \<Rightarrow> 'w \<Rightarrow> bool \<times> 'd \<times> 'w"
  DVDExClone :: "'f \<Rightarrow> 'f \<Rightarrow> 'f"
  DVDExCloneDir :: "'d \<Rightarrow> 'd \<Rightarrow> 'd"
  dvd_file_length :: "'f \<Rightarrow> u32"
  dvd_stack_file :: 'f
  dvd_stack_dir :: 'd

record ('f, 'd) dvd_storage =
  dvd_files :: "'f slot list"
  dvd_dirs :: "'d slot list"

type_synonym ('f, 'd, 'w) dvd_state = "'w \<times> ('f, 'd) dvd_storage"

text \<open>The constructor: all slots closed; \<open>fs\<close> and \<open>ds\<close> are what the static storage holds.\<close>

definition DVDStorage_new :: "'f list \<Rightarrow> 'd list \<Rightarrow> ('f, 'd) dvd_storage" where
  "DVDStorage_new fs ds =
     \<lparr>dvd_files = map (\<lambda>n. \<lparr>s_node = n, s_isOpen = False\<rparr>) fs,
      dvd_dirs = map (\<lambda>n. \<lparr>s_node = n, s_isOpen = False\<rparr>) ds\<rparr>"

definition ro_prefix :: wstr where
  "ro_prefix = wide ''ro:/''"

definition DVD_ConvertPath :: "wstr \<Rightarrow> bytes option" where
  "DVD_ConvertPath path =
     (if \<not> starts_with ro_prefix path then None else Some (printed 128 (narrow (drop (length ro_prefix) path))))"

text \<open>The conversion of a \<open>u64\<close> id to the \<open>s32\<close> entry number.\<close>

definition entrynum :: "u64 \<Rightarrow> int" where
  "entrynum i = sint (ucast i :: u32)"

text \<open>The pool operations on the two arrays.\<close>

definition dvd_claim_file ::
  "('f \<Rightarrow> 'w \<Rightarrow> (bool \<times> 'f \<times> 'w) option) \<Rightarrow> ('f, 'd, 'w) dvd_state \<Rightarrow> (nat option \<times> ('f, 'd, 'w) dvd_state) option" where
  "dvd_claim_file fill = (\<lambda>(w, s). do {
     (r, w, fs) \<leftarrow> claim_slot fill w (dvd_files s);
     Some (r, w, s\<lparr>dvd_files := fs\<rparr>)
   })"

definition dvd_claim_dir ::
  "('d \<Rightarrow> 'w \<Rightarrow> (bool \<times> 'd \<times> 'w) option) \<Rightarrow> ('f, 'd, 'w) dvd_state \<Rightarrow> (nat option \<times> ('f, 'd, 'w) dvd_state) option" where
  "dvd_claim_dir fill = (\<lambda>(w, s). do {
     (r, w, ds) \<leftarrow> claim_slot fill w (dvd_dirs s);
     Some (r, w, s\<lparr>dvd_dirs := ds\<rparr>)
   })"

definition DVD_fastOpen :: "('f, 'd, 'w) dvd_sdk \<Rightarrow> u64 \<Rightarrow> ('f, 'd, 'w) dvd_state \<Rightarrow> (nat option \<times> ('f, 'd, 'w) dvd_state) option" where
  "DVD_fastOpen sdk i = dvd_claim_file (\<lambda>n w. Some (DVDFastOpen sdk (entrynum i) n w))"

definition DVD_open :: "('f, 'd, 'w) dvd_sdk \<Rightarrow> wstr \<Rightarrow> string \<Rightarrow> ('f, 'd, 'w) dvd_state \<Rightarrow> (nat option \<times> ('f, 'd, 'w) dvd_state) option" where
  "DVD_open sdk path mode st =
     (if mode \<noteq> ''r'' then Some (None, st)
      else case DVD_ConvertPath path of None \<Rightarrow> Some (None, st)
      | Some p \<Rightarrow> dvd_claim_file (\<lambda>n w. Some (DVDOpen sdk p n w)) st)"

definition DVD_createDir :: "wstr \<Rightarrow> bool \<Rightarrow> ('f, 'd, 'w) dvd_state \<Rightarrow> (bool \<times> ('f, 'd, 'w) dvd_state) option" where
  "DVD_createDir path allowNop st = Some (False, st)"

definition DVD_fastOpenDir :: "('f, 'd, 'w) dvd_sdk \<Rightarrow> u64 \<Rightarrow> ('f, 'd, 'w) dvd_state \<Rightarrow> (nat option \<times> ('f, 'd, 'w) dvd_state) option" where
  "DVD_fastOpenDir sdk i = dvd_claim_dir (\<lambda>n w. Some (DVDFastOpenDir sdk (entrynum i) n w))"

definition DVD_openDir :: "('f, 'd, 'w) dvd_sdk \<Rightarrow> wstr \<Rightarrow> ('f, 'd, 'w) dvd_state \<Rightarrow> (nat option \<times> ('f, 'd, 'w) dvd_state) option" where
  "DVD_openDir sdk path st =
     (case DVD_ConvertPath path of None \<Rightarrow> Some (None, st)
      | Some p \<Rightarrow> dvd_claim_dir (\<lambda>n w. Some (DVDOpenDir sdk p n w)) st)"

text \<open>\<open>stat\<close> opens and closes objects on the stack; the results of the closings are not used.\<close>

definition DVD_stat :: "('f, 'd, 'w) dvd_sdk \<Rightarrow> wstr \<Rightarrow> ('f, 'd, 'w) dvd_state \<Rightarrow> (node_info option \<times> ('f, 'd, 'w) dvd_state) option" where
  "DVD_stat sdk path = (\<lambda>(w, s).
     case DVD_ConvertPath path of None \<Rightarrow> Some (None, w, s)
     | Some p \<Rightarrow>
         let num = DVDConvertPathToEntrynum sdk p w
         in if num < 0 then Some (None, w, s)
            else
              let info = node_info_zero\<lparr>ni_id := \<lparr>nid_storage = Some ST_DVD, nid_id = word_of_int num\<rparr>,
                    ni_name := printed NODE_NAME_SIZE (bare_name path)\<rparr>;
                  (isFile, f, w) = DVDFastOpen sdk num (dvd_stack_file sdk) w
              in if isFile then
                   let (_, _, w) = DVDClose sdk f w
                   in Some (Some (info\<lparr>ni_type := NT_File, ni_size := ucast (AlignUp (dvd_file_length sdk f) 32)\<rparr>), w, s)
                 else
                   let (isDir, d, w) = DVDFastOpenDir sdk num (dvd_stack_dir sdk) w
                   in if isDir then
                        let (_, _, w) = DVDCloseDir sdk d w
                        in Some (Some (info\<lparr>ni_type := NT_Dir\<rparr>), w, s)
                      else Some (None, w, s))"

definition DVD_rename :: "wstr \<Rightarrow> wstr \<Rightarrow> ('f, 'd, 'w) dvd_state \<Rightarrow> (bool \<times> ('f, 'd, 'w) dvd_state) option" where
  "DVD_rename srcPath dstPath st = Some (False, st)"

definition DVD_remove :: "wstr \<Rightarrow> bool \<Rightarrow> ('f, 'd, 'w) dvd_state \<Rightarrow> (bool \<times> ('f, 'd, 'w) dvd_state) option" where
  "DVD_remove path allowNop st = Some (False, st)"

definition DVD_startBenchmark :: "('f, 'd, 'w) dvd_state \<Rightarrow> (nat option \<times> ('f, 'd, 'w) dvd_state) option" where
  "DVD_startBenchmark st = Some (None, st)"

definition DVD_endBenchmark :: "('f, 'd, 'w) dvd_state \<Rightarrow> ('f, 'd, 'w) dvd_state" where
  "DVD_endBenchmark st = st"

definition DVD_getMessageId :: u32 where
  "DVD_getMessageId = 0"

section \<open>Files\<close>

text \<open>\<open>clone\<close>: the object of slot \<open>i\<close> is \<open>this\<close>.\<close>

definition DVD_file_clone :: "('f, 'd, 'w) dvd_sdk \<Rightarrow> nat \<Rightarrow> ('f, 'd, 'w) dvd_state \<Rightarrow> (nat option \<times> ('f, 'd, 'w) dvd_state) option" where
  "DVD_file_clone sdk i = (\<lambda>(w, s). do {
     this \<leftarrow> rd (dvd_files s) i;
     dvd_claim_file (\<lambda>n w. Some (True, DVDExClone sdk (s_node this) n, w)) (w, s)
   })"

definition DVD_file_close :: "('f, 'd, 'w) dvd_sdk \<Rightarrow> nat \<Rightarrow> ('f, 'd, 'w) dvd_state \<Rightarrow> (bool \<times> ('f, 'd, 'w) dvd_state) option" where
  "DVD_file_close sdk i = (\<lambda>(w, s). do {
     (ok, w, fs) \<leftarrow> close_slot (DVDClose sdk) i w (dvd_files s);
     Some (ok, w, s\<lparr>dvd_files := fs\<rparr>)
   })"

text \<open>
  \<open>read\<close> asserts the alignment of all three arguments.  It returns the \<open>s32\<close> of \<open>DVDRead\<close> as a
  \<open>bool\<close>; the bytes are what has been written at \<open>dst\<close>.
\<close>

definition DVD_file_read :: "('f, 'd, 'w) dvd_sdk \<Rightarrow> u32 \<Rightarrow> u32 \<Rightarrow> u32 \<Rightarrow> nat \<Rightarrow> ('f, 'd, 'w) dvd_state \<Rightarrow> ((bool \<times> bytes) \<times> ('f, 'd, 'w) dvd_state) option" where
  "DVD_file_read sdk dst n offset i = (\<lambda>(w, s). do {
     ensure (dst AND 0x1f = 0);
     ensure (n AND 0x1f = 0);
     ensure (offset AND 0x1f = 0);
     ((r, data), w, fs) \<leftarrow> with_slot (DVDRead sdk n offset) i w (dvd_files s);
     Some ((r \<noteq> 0, data), w, s\<lparr>dvd_files := fs\<rparr>)
   })"

definition DVD_file_write :: "bytes \<Rightarrow> u32 \<Rightarrow> nat \<Rightarrow> ('f, 'd, 'w) dvd_state \<Rightarrow> (bool \<times> ('f, 'd, 'w) dvd_state) option" where
  "DVD_file_write src offset i st = Some (False, st)"

definition DVD_file_sync :: "nat \<Rightarrow> ('f, 'd, 'w) dvd_state \<Rightarrow> (bool \<times> ('f, 'd, 'w) dvd_state) option" where
  "DVD_file_sync i st = Some (False, st)"

definition DVD_file_size :: "('f, 'd, 'w) dvd_sdk \<Rightarrow> nat \<Rightarrow> ('f, 'd, 'w) dvd_state \<Rightarrow> u64 option" where
  "DVD_file_size sdk i = (\<lambda>(w, s). do {
     this \<leftarrow> rd (dvd_files s) i;
     Some (ucast (AlignUp (dvd_file_length sdk (s_node this)) 32))
   })"

section \<open>Directories\<close>

definition DVD_dir_clone :: "('f, 'd, 'w) dvd_sdk \<Rightarrow> nat \<Rightarrow> ('f, 'd, 'w) dvd_state \<Rightarrow> (nat option \<times> ('f, 'd, 'w) dvd_state) option" where
  "DVD_dir_clone sdk i = (\<lambda>(w, s). do {
     this \<leftarrow> rd (dvd_dirs s) i;
     dvd_claim_dir (\<lambda>n w. Some (True, DVDExCloneDir sdk (s_node this) n, w)) (w, s)
   })"

definition DVD_dir_close :: "('f, 'd, 'w) dvd_sdk \<Rightarrow> nat \<Rightarrow> ('f, 'd, 'w) dvd_state \<Rightarrow> (bool \<times> ('f, 'd, 'w) dvd_state) option" where
  "DVD_dir_close sdk i = (\<lambda>(w, s). do {
     (ok, w, ds) \<leftarrow> close_slot (DVDCloseDir sdk) i w (dvd_dirs s);
     Some (ok, w, s\<lparr>dvd_dirs := ds\<rparr>)
   })"

text \<open>The info of an entry; \<^term>\<open>None\<close> when its file cannot be opened or closed.\<close>

definition dvd_entry_info :: "('f, 'd, 'w) dvd_sdk \<Rightarrow> dir_entry \<Rightarrow> 'w \<Rightarrow> node_info option \<times> 'w" where
  "dvd_entry_info sdk e w =
     (let info = node_info_zero\<lparr>ni_id := \<lparr>nid_storage = Some ST_DVD, nid_id = ucast (de_entryNum e)\<rparr>,
            ni_name := printed NODE_NAME_SIZE (widen (de_name e))\<rparr>
      in if de_isDir e then (Some (info\<lparr>ni_type := NT_Dir\<rparr>), w)
         else
           let (ok, f, w) = DVDFastOpen sdk (sint (de_entryNum e)) (dvd_stack_file sdk) w
           in if \<not> ok then (None, w)
              else
                let len = dvd_file_length sdk f; (closed, _, w) = DVDClose sdk f w
                in if \<not> closed then (None, w)
                   else (Some (info\<lparr>ni_type := NT_File, ni_size := ucast (AlignUp len 32)\<rparr>), w))"

definition DVD_dir_read :: "('f, 'd, 'w) dvd_sdk \<Rightarrow> nat \<Rightarrow> ('f, 'd, 'w) dvd_state \<Rightarrow> (node_info option \<times> ('f, 'd, 'w) dvd_state) option" where
  "DVD_dir_read sdk i = (\<lambda>(w, s). do {
     (entry, w, ds) \<leftarrow> with_slot (DVDReadDir sdk) i w (dvd_dirs s);
     let (r, w) = (case entry of None \<Rightarrow> (None, w) | Some e \<Rightarrow> dvd_entry_info sdk e w);
     Some (r, w, s\<lparr>dvd_dirs := ds\<rparr>)
   })"

section \<open>The pools of the disc\<close>

definition dvd_open_files :: "('f, 'd, 'w) dvd_state \<Rightarrow> nat set" where
  "dvd_open_files st = open_slots (dvd_files (snd st))"

definition dvd_open_dirs :: "('f, 'd, 'w) dvd_state \<Rightarrow> nat set" where
  "dvd_open_dirs st = open_slots (dvd_dirs (snd st))"

lemma dvd_claim_open:
  "dvd_claim_file fill st = Some (r, st') \<Longrightarrow> claimed (dvd_open_files st) r (dvd_open_files st') \<and> dvd_dirs (snd st') = dvd_dirs (snd st)"
  "dvd_claim_dir fdir st = Some (r, st') \<Longrightarrow> claimed (dvd_open_dirs st) r (dvd_open_dirs st') \<and> dvd_files (snd st') = dvd_files (snd st)"
  by (auto simp: dvd_claim_file_def dvd_claim_dir_def dvd_open_files_def dvd_open_dirs_def fault_simps
      dest: claim_slot_open split: prod.splits)

text \<open>Both ways to open a file, by path and mode or by id.\<close>

definition DVD_acquire :: "('f, 'd, 'w) dvd_sdk \<Rightarrow> (wstr \<times> string) + u64 \<Rightarrow> ('f, 'd, 'w) dvd_state \<Rightarrow> (nat option \<times> ('f, 'd, 'w) dvd_state) option" where
  "DVD_acquire sdk q = (case q of Inl (path, mode) \<Rightarrow> DVD_open sdk path mode | Inr i \<Rightarrow> DVD_fastOpen sdk i)"

definition DVD_acquire_dir :: "('f, 'd, 'w) dvd_sdk \<Rightarrow> wstr + u64 \<Rightarrow> ('f, 'd, 'w) dvd_state \<Rightarrow> (nat option \<times> ('f, 'd, 'w) dvd_state) option" where
  "DVD_acquire_dir sdk q = (case q of Inl path \<Rightarrow> DVD_openDir sdk path | Inr i \<Rightarrow> DVD_fastOpenDir sdk i)"

interpretation dvd_file_pool: handle_store dvd_open_files "DVD_acquire sdk" "DVD_file_clone sdk" "DVD_file_close sdk"
  for sdk :: "('f, 'd, 'w) dvd_sdk"
proof unfold_locales
  fix q and s :: "('f, 'd, 'w) dvd_state" and r s' i ok
  show "DVD_acquire sdk q s = Some (r, s') \<Longrightarrow> claimed (dvd_open_files s) r (dvd_open_files s')"
    by (auto simp: DVD_acquire_def DVD_open_def DVD_fastOpen_def dest: dvd_claim_open(1)
        split: sum.splits if_splits option.splits)
  show "DVD_file_clone sdk i s = Some (r, s') \<Longrightarrow> claimed (dvd_open_files s) r (dvd_open_files s')"
    by (auto simp: DVD_file_clone_def fault_simps dest: dvd_claim_open(1) split: prod.splits)
  show "DVD_file_close sdk i s = Some (ok, s') \<Longrightarrow> dvd_open_files s' = (if ok then dvd_open_files s - {i} else dvd_open_files s)"
    by (auto simp: DVD_file_close_def dvd_open_files_def fault_simps dest!: close_slot_open split: prod.splits)
qed

interpretation dvd_dir_pool: handle_store dvd_open_dirs "DVD_acquire_dir sdk" "DVD_dir_clone sdk" "DVD_dir_close sdk"
  for sdk :: "('f, 'd, 'w) dvd_sdk"
proof unfold_locales
  fix q and s :: "('f, 'd, 'w) dvd_state" and r s' i ok
  show "DVD_acquire_dir sdk q s = Some (r, s') \<Longrightarrow> claimed (dvd_open_dirs s) r (dvd_open_dirs s')"
    by (auto simp: DVD_acquire_dir_def DVD_openDir_def DVD_fastOpenDir_def dest: dvd_claim_open(2)
        split: sum.splits option.splits)
  show "DVD_dir_clone sdk i s = Some (r, s') \<Longrightarrow> claimed (dvd_open_dirs s) r (dvd_open_dirs s')"
    by (auto simp: DVD_dir_clone_def fault_simps dest: dvd_claim_open(2) split: prod.splits)
  show "DVD_dir_close sdk i s = Some (ok, s') \<Longrightarrow> dvd_open_dirs s' = (if ok then dvd_open_dirs s - {i} else dvd_open_dirs s)"
    by (auto simp: DVD_dir_close_def dvd_open_dirs_def fault_simps dest!: close_slot_open split: prod.splits)
qed

end
