(* ===== verification/Payload_Start.thy ===== *)
theory Payload_Start
  imports Loader Patcher Platform DVD_Storage
begin

text \<open>
  \<open>payload/sp/Payload.cc\<close>, \<open>Rel.cc\<close> and \<open>Time.cc\<close>: what the payload does before and when the game's module
  starts.  The clock's bus, the drive and the linker of the console's library are parameters; printing is left
  out.
\<close>

section \<open>The clock\<close>

record 'w exi_sdk =
  EXILock :: "'w \<Rightarrow> bool \<times> 'w"
  EXISelect :: "'w \<Rightarrow> bool \<times> 'w"
  EXIImm_write :: "u32 \<Rightarrow> 'w \<Rightarrow> bool \<times> 'w"
  EXIImm_read :: "'w \<Rightarrow> bool \<times> u32 \<times> 'w"
  EXISync :: "'w \<Rightarrow> bool \<times> 'w"
  EXIDeselect :: "'w \<Rightarrow> bool \<times> 'w"
  EXIUnlock :: "'w \<Rightarrow> bool \<times> 'w"

definition rtc_unlock :: "'w exi_sdk \<Rightarrow> 'w \<Rightarrow> u32 option \<times> 'w" where
  "rtc_unlock s w = (None, snd (EXIUnlock s w))"

definition rtc_deselect :: "'w exi_sdk \<Rightarrow> 'w \<Rightarrow> u32 option \<times> 'w" where
  "rtc_deselect s w = rtc_unlock s (snd (EXIDeselect s w))"

definition ReadRTC :: "'w exi_sdk \<Rightarrow> 'w \<Rightarrow> u32 option \<times> 'w" where
  "ReadRTC s w =
     (let (ok, w) = EXILock s w in if \<not> ok then (None, w) else
      let (ok, w) = EXISelect s w in if \<not> ok then rtc_unlock s w else
      let (ok, w) = EXIImm_write s 0x20000000 w in if \<not> ok then rtc_deselect s w else
      let (ok, w) = EXISync s w in if \<not> ok then rtc_deselect s w else
      let (ok, time, w) = EXIImm_read s w in if \<not> ok then rtc_deselect s w else
      let (ok, w) = EXISync s w in if \<not> ok then rtc_deselect s w else
      let (ok, w) = EXIDeselect s w in if \<not> ok then rtc_unlock s w else
      let (ok, w) = EXIUnlock s w in if \<not> ok then (None, w) else (Some time, w))"

text \<open>The loop ends when two readings in a row are equal; \<^term>\<open>None\<close> is a clock that never gives such readings.\<close>

partial_function (option) rtc_loop :: "'w exi_sdk \<Rightarrow> u32 option \<Rightarrow> u32 option \<Rightarrow> 'w \<Rightarrow> (u32 \<times> 'w) option" where
  "rtc_loop s r0 r1 w =
     (if r0 \<noteq> r1 \<or> r0 = None then case ReadRTC s w of (r, w) \<Rightarrow> rtc_loop s r1 r w
      else Some (the r0, w))"

text \<open>The time that is set, in ticks: the sum wraps around before it is widened.\<close>

definition Time_Init :: "'w exi_sdk \<Rightarrow> u32 \<Rightarrow> u32 \<Rightarrow> 'w \<Rightarrow> (u64 \<times> 'w) option" where
  "Time_Init s bias busClock w = do {
     let (r0, w) = ReadRTC s w;
     let (r1, w) = ReadRTC s w;
     (rtc, w) \<leftarrow> rtc_loop s r0 r1 w;
     Some (ucast (rtc + bias) * ucast (busClock div 4), w) }"

section \<open>The module of the game\<close>

definition rel_moduleInfo :: "Region \<Rightarrow> ModuleInfo" where
  "rel_moduleInfo r = (case r of
     Region_P \<Rightarrow> \<lparr>mi_hash = [0x88, 0x7B, 0xCC, 0x07, 0x67, 0x81, 0xF5, 0xB0, 0x05, 0xCC,
       0x31, 0x7A, 0x6E, 0x3C, 0xC8, 0xFD, 0x5F, 0x91, 0x13, 0x00], mi_size = 0x004AD3C4\<rparr>
   | Region_E \<Rightarrow> \<lparr>mi_hash = [0x07, 0x2B, 0xA4, 0x43, 0x82, 0xFD, 0xCA, 0x9B, 0xF5, 0xC0,
       0xEC, 0x9D, 0x1E, 0x9B, 0x92, 0x2C, 0xAF, 0xD9, 0x92, 0x60], mi_size = 0x004ACF94\<rparr>
   | Region_J \<Rightarrow> \<lparr>mi_hash = [0x20, 0xB4, 0x16, 0x1D, 0x41, 0x5E, 0x40, 0x92, 0xA6, 0x29,
       0x9B, 0xB2, 0x85, 0xFA, 0xA6, 0x22, 0x83, 0x5B, 0x2B, 0x16], mi_size = 0x004ACABC\<rparr>
   | Region_K \<Rightarrow> \<lparr>mi_hash = [0xE0, 0x00, 0x62, 0x50, 0xB1, 0xE5, 0xC1, 0xBD, 0xEE, 0x8B,
       0xDB, 0x0E, 0x78, 0x9E, 0xA2, 0x00, 0xB3, 0xA8, 0x46, 0xE4], mi_size = 0x004AD9FC\<rparr>)"

definition rel_IsClean :: "(bytes \<Rightarrow> bytes) \<Rightarrow> Region \<Rightarrow> memory \<Rightarrow> u32 \<Rightarrow> u32 \<Rightarrow> bool" where
  "rel_IsClean sha1 region m rel roundedRelSize =
     (if roundedRelSize < mi_size (rel_moduleInfo region) then False
      else mi_hash (rel_moduleInfo region) = sha1 (mem_read m rel (unat (mi_size (rel_moduleInfo region)))))"

record rel_env =
  re_region :: Region
  re_sha1 :: "bytes \<Rightarrow> bytes"
  re_start :: u32
  re_bss :: u32
  re_link :: "u32 \<Rightarrow> u32 \<Rightarrow> memory \<Rightarrow> memory"
  re_binaries :: binaries
  re_patches :: "patch list"

datatype rel_error = Rel_Not_Found | Rel_Read_Failed | Rel_Modified

record 'w rel_state =
  rs_world :: 'w
  rs_mem :: memory
  rs_entry :: "u32 option"

definition OSRoundUp32B :: "u32 \<Rightarrow> u32" where
  "OSRoundUp32B x = (x + 32 - 1) AND NOT (32 - 1)"

text \<open>\<open>OSLink\<close> relocates the module; the entry is the word \<open>prolog\<close> of its header.\<close>

definition Rel_Load :: "('f, 'd, 'w) dvd_sdk \<Rightarrow> rel_env \<Rightarrow> 'w rel_state \<Rightarrow> (rel_error + unit) \<times> 'w rel_state" where
  "Rel_Load sdk env s =
     (let src = OSRoundUp32B (re_start env);
          (ok, fileInfo, w) = DVDOpen sdk (text_bytes ''/rel/StaticR.rel'') (dvd_stack_file sdk) (rs_world s)
      in if \<not> ok then (Inl Rel_Not_Found, s\<lparr>rs_world := w\<rparr>)
         else
           let size = OSRoundUp32B (dvd_file_length sdk fileInfo);
               ((result, bs), fileInfo, w) = DVDRead sdk size 0 fileInfo w;
               m = mem_write src bs (rs_mem s);
               (_, _, w) = DVDClose sdk fileInfo w;
               s = s\<lparr>rs_world := w, rs_mem := m\<rparr>
           in if result \<noteq> sint size then (Inl Rel_Read_Failed, s)
              else if \<not> rel_IsClean (re_sha1 env) (re_region env) m src size then (Inl Rel_Modified, s)
              else
                let m = re_link env src (re_bss env) m
                in (Inr (), s\<lparr>rs_mem := m, rs_entry := Some (mem_u32 m (src + 0x34))\<rparr>))"

text \<open>The result is the address that is called and the memory then.\<close>

definition Rel_Run :: "rel_env \<Rightarrow> 'w rel_state \<Rightarrow> (u32 \<times> memory) option" where
  "Rel_Run env s = do {
     entry \<leftarrow> rs_entry s;
     Some (entry, Patcher_patch (re_binaries env) (re_patches env) PATCHER_BINARY_REL (rs_mem s)) }"

section \<open>The payload\<close>

text \<open>\<open>init\<close> is \<open>Storage::Init\<close>, \<open>sleep\<close> a wait of half a second: the loop of at most sixty tries.\<close>

fun storage_retry :: "nat \<Rightarrow> ('s \<Rightarrow> (bool \<times> 's) option) \<Rightarrow> ('s \<Rightarrow> 's) \<Rightarrow> 's \<Rightarrow> (bool \<times> 's) option" where
  "storage_retry 0 init sleep s = Some (False, s)"
| "storage_retry (Suc n) init sleep s = do {
     (ok, s) \<leftarrow> init s;
     if ok then Some (True, s) else storage_retry n init sleep (sleep s) }"

definition init_storage :: "('s \<Rightarrow> (bool \<times> 's) option) \<Rightarrow> ('s \<Rightarrow> 's) \<Rightarrow> 's \<Rightarrow> (bool \<times> 's) option" where
  "init_storage init sleep s = do {
     (ok, s) \<leftarrow> init s;
     if ok then Some (True, s) else storage_retry 60 init sleep s }"

text \<open>The parts \<open>Init\<close> brings up; each is modelled with its component.\<close>

record 's payload_parts =
  pp_time :: "'s \<Rightarrow> 's option"
  pp_host :: "'s \<Rightarrow> 's option"
  pp_usb :: "'s \<Rightarrow> (bool \<times> 's) option"
  pp_storage :: "'s \<Rightarrow> (bool \<times> 's) option"
  pp_sleep :: "'s \<Rightarrow> 's"
  pp_log :: "'s \<Rightarrow> 's"
  pp_decomp :: "'s \<Rightarrow> 's"
  pp_rel :: "'s \<Rightarrow> (rel_error + unit) \<times> 's"

text \<open>\<^term>\<open>Inl\<close> is the payload that hangs with the reason on the screen.\<close>

definition Payload_Init :: "'s payload_parts \<Rightarrow> 's \<Rightarrow> ((rel_error + unit) \<times> 's) option" where
  "Payload_Init p s = do {
     s \<leftarrow> pp_time p s;
     s \<leftarrow> pp_host p s;
     (usbWasInit, s) \<leftarrow> pp_usb p s;
     ensure usbWasInit;
     (_, s) \<leftarrow> init_storage (pp_storage p) (pp_sleep p) s;
     let s = pp_decomp p (pp_log p s);
     Some (pp_rel p s) }"

text \<open>\<open>Run\<close> calls the constructors in order and patches the executable.\<close>

definition Payload_Run :: "binaries \<Rightarrow> patch list \<Rightarrow> (memory \<Rightarrow> memory) list \<Rightarrow> memory \<Rightarrow> memory" where
  "Payload_Run b patches ctors m = Patcher_patch b patches PATCHER_BINARY_DOL (fold (\<lambda>ctor. ctor) ctors m)"

section \<open>What is started\<close>

text \<open>The bus is free again however a reading ends, and the time comes from two readings that agree.\<close>

definition bus_laws :: "'w exi_sdk \<Rightarrow> ('w \<Rightarrow> bool) \<Rightarrow> bool" where
  "bus_laws s locked \<longleftrightarrow> (\<forall>w. locked (snd (EXILock s w)) = (fst (EXILock s w) \<or> locked w)) \<and> (\<forall>w. \<not> locked (snd (EXIUnlock s w)))"

lemma ReadRTC_unlocks:
  assumes "bus_laws s locked" "\<not> locked w"
  shows "\<not> locked (snd (ReadRTC s w))"
proof -
  have unlock: "\<And>w. \<not> locked (snd (EXIUnlock s w))" and lock: "\<not> fst (EXILock s w) \<Longrightarrow> \<not> locked (snd (EXILock s w))"
    using assms by (simp_all add: bus_laws_def)
  show ?thesis
    by (simp add: ReadRTC_def rtc_deselect_def rtc_unlock_def Let_def case_prod_beta unlock lock)
qed

lemma rtc_loop_agrees:
  assumes "rtc_loop s r0 r1 w = Some (rtc, w')"
  shows "r0 = Some rtc \<and> r1 = Some rtc \<and> w' = w \<or>
    (\<exists>w0 w1. ReadRTC s w1 = (Some rtc, w') \<and> (r1 = Some rtc \<and> w1 = w \<or> ReadRTC s w0 = (Some rtc, w1)))"
proof -
  let ?P = "\<lambda>s r0 r1 w p. r0 = Some (fst p) \<and> r1 = Some (fst p) \<and> snd p = w \<or>
    (\<exists>w0 w1. ReadRTC s w1 = (Some (fst p), snd p) \<and> (r1 = Some (fst p) \<and> w1 = w \<or> ReadRTC s w0 = (Some (fst p), w1)))"
  have "?P s r0 r1 w (rtc, w')"
  proof (rule rtc_loop.raw_induct [where P = ?P, OF _ assms])
    fix f s r0 r1 w p
    assume IH: "\<And>s r0 r1 w p. f s r0 r1 w = Some p \<Longrightarrow> ?P s r0 r1 w p"
      and run: "(if r0 \<noteq> r1 \<or> r0 = None then case ReadRTC s w of (r, w) \<Rightarrow> f s r1 r w else Some (the r0, w)) = Some p"
    show "?P s r0 r1 w p"
    proof (cases "r0 \<noteq> r1 \<or> r0 = None")
      case False
      then show ?thesis using run by auto
    next
      case True
      obtain r w2 where r: "ReadRTC s w = (r, w2)" by (metis surj_pair)
      then have "f s r1 r w2 = Some p" using True run by simp
      from IH [OF this] show ?thesis using r by metis
    qed
  qed
  then show ?thesis by simp
qed

lemma Rel_Load_clean:
  assumes "Rel_Load sdk env s = (r, s')"
  shows "case r of
      Inl e \<Rightarrow> rs_entry s' = rs_entry s
    | Inr _ \<Rightarrow> \<exists>m. mi_hash (rel_moduleInfo (re_region env)) =
          re_sha1 env (mem_read m (OSRoundUp32B (re_start env)) (unat (mi_size (rel_moduleInfo (re_region env))))) \<and>
        rs_mem s' = re_link env (OSRoundUp32B (re_start env)) (re_bss env) m \<and>
        rs_entry s' = Some (mem_u32 (rs_mem s') (OSRoundUp32B (re_start env) + 0x34))"
  using assms by (auto simp: Rel_Load_def rel_IsClean_def Let_def split: prod.splits if_splits)

text \<open>A storage that is found has been initialised by the last try.\<close>

lemma storage_retry_found: "storage_retry n init sleep s = Some (True, s') \<Longrightarrow> \<exists>s1. init s1 = Some (True, s')"
proof (induction n arbitrary: s)
  case (Suc n)
  then obtain ok s1 where "init s = Some (ok, s1)" by (auto simp: bind_eq_Some_conv)
  then show ?case using Suc by (cases ok) auto
qed simp

text \<open>
  When the payload goes on with the game's module, this is the original one of its region, linked at its place;
  the memory is patched before its entry is called.
\<close>

lemma payload_links_original:
  assumes "pp_rel p = Rel_Load sdk env" "Payload_Init p s = Some (Inr (), s')"
  shows "\<exists>m entry. mi_hash (rel_moduleInfo (re_region env)) =
        re_sha1 env (mem_read m (OSRoundUp32B (re_start env)) (unat (mi_size (rel_moduleInfo (re_region env))))) \<and>
      entry = mem_u32 (re_link env (OSRoundUp32B (re_start env)) (re_bss env) m) (OSRoundUp32B (re_start env) + 0x34) \<and>
      Rel_Run env s' = Some (entry, Patcher_patch (re_binaries env) (re_patches env) PATCHER_BINARY_REL
        (re_link env (OSRoundUp32B (re_start env)) (re_bss env) m))"
proof -
  obtain s1 where "Rel_Load sdk env s1 = (Inr (), s')"
    using assms by (auto simp: Payload_Init_def bind_eq_Some_conv Let_def)
  from Rel_Load_clean [OF this] show ?thesis by (auto simp: Rel_Run_def)
qed

end
