(* ===== verification/Game_Archives.thy ===== *)
theory Game_Archives
  imports Loader
begin

text \<open>
  The archives of the game's resources: \<open>payload/game/system/DvdArchive.cc\<close>, \<open>MultiDvdArchive.cc\<close>,
  \<open>ResourceManager.cc\<close> and \<open>payload/egg/core/eggDVDRipper.cc\<close>.  The functions of the game they call (\<open>rip\<close>,
  \<open>move\<close>, \<open>mount\<close>, \<open>clear\<close>, heaps) are parameters; an archive is its buffers and its state.
\<close>

section \<open>One archive\<close>

datatype archive_state = AS_Cleared | AS_Ripped | AS_Decompressed | AS_Mounted

record dvd_archive =
  m_archiveBuffer :: u32
  m_archiveSize :: u32
  m_archiveHeap :: u32
  m_fileBuffer :: u32
  m_fileSize :: u32
  m_fileHeap :: u32
  m_state :: archive_state

record 'w archive_fns =
  af_rip :: "string \<Rightarrow> u32 \<Rightarrow> dvd_archive \<Rightarrow> 'w \<Rightarrow> dvd_archive \<times> 'w"
  af_move :: "dvd_archive \<Rightarrow> 'w \<Rightarrow> dvd_archive \<times> 'w"
  af_mount :: "u32 \<Rightarrow> dvd_archive \<Rightarrow> 'w \<Rightarrow> dvd_archive \<times> 'w"
  af_clear :: "dvd_archive \<Rightarrow> 'w \<Rightarrow> dvd_archive \<times> 'w"
  af_LoadRO :: "string \<Rightarrow> u32 \<Rightarrow> 'w \<Rightarrow> (u32 \<times> u32) option \<times> 'w"

definition archive_decompress :: "'w archive_fns \<Rightarrow> string \<Rightarrow> u32 \<Rightarrow> dvd_archive \<Rightarrow> 'w \<Rightarrow> bool \<times> dvd_archive \<times> 'w" where
  "archive_decompress f path archiveHeap a w =
     (let (r, w) = af_LoadRO f path archiveHeap w
      in case r of None \<Rightarrow> (False, a, w)
         | Some (buf, len) \<Rightarrow>
             (True, a\<lparr>m_archiveBuffer := buf, m_archiveSize := len, m_archiveHeap := archiveHeap, m_state := AS_Decompressed\<rparr>, w))"

text \<open>A heap of 0 is the null pointer.\<close>

definition archive_load :: "'w archive_fns \<Rightarrow> string \<Rightarrow> u32 \<Rightarrow> bool \<Rightarrow> u32 \<Rightarrow> dvd_archive \<Rightarrow> 'w \<Rightarrow> dvd_archive \<times> 'w" where
  "archive_load f path archiveHeap isCompressed fileHeap a w =
     (if m_state a \<noteq> AS_Cleared then (a, w)
      else if isCompressed then
        let (ok, a, w) = archive_decompress f path archiveHeap a w
        in if ok then af_mount f archiveHeap a w else (a, w)
      else
        let fileHeap = (if fileHeap = 0 then archiveHeap else fileHeap);
            (a, w) = af_rip f path fileHeap a w
        in if m_state a = AS_Ripped then let (a, w) = af_move f a w in af_mount f archiveHeap a w
           else (a, w))"

definition archive_loadOther :: "'w archive_fns \<Rightarrow> dvd_archive \<Rightarrow> dvd_archive \<Rightarrow> 'w \<Rightarrow> (dvd_archive \<times> dvd_archive) \<times> 'w" where
  "archive_loadOther f other a w =
     (if m_state a \<noteq> AS_Cleared \<or> m_state other \<noteq> AS_Mounted then ((a, other), w)
      else
        let a = a\<lparr>m_archiveBuffer := m_archiveBuffer other, m_archiveSize := m_archiveSize other, m_archiveHeap := m_archiveHeap other\<rparr>;
            (a, w) = af_mount f (m_archiveHeap a) a w;
            other = other\<lparr>m_archiveBuffer := 0, m_archiveSize := 0, m_archiveHeap := 0\<rparr>;
            (other, w) = af_clear f other w
        in ((a, other), w))"

text \<open>The buffer goes from one archive to the other: the old one no longer has it when it is cleared.\<close>

lemma loadOther_moves:
  assumes "m_state a = AS_Cleared" "m_state other = AS_Mounted"
  shows "\<exists>a' w1 other0. af_mount f (m_archiveHeap other)
      (a\<lparr>m_archiveBuffer := m_archiveBuffer other, m_archiveSize := m_archiveSize other, m_archiveHeap := m_archiveHeap other\<rparr>) w = (a', w1) \<and>
    m_archiveBuffer other0 = 0 \<and> archive_loadOther f other a w = (case af_clear f other0 w1 of (o', w') \<Rightarrow> ((a', o'), w'))"
proof -
  obtain a' w1 where "af_mount f (m_archiveHeap other)
      (a\<lparr>m_archiveBuffer := m_archiveBuffer other, m_archiveSize := m_archiveSize other, m_archiveHeap := m_archiveHeap other\<rparr>) w = (a', w1)"
    by (metis surj_pair)
  then show ?thesis using assms
    by (intro exI [of _ a'] exI [of _ w1] exI [of _ "other\<lparr>m_archiveBuffer := 0, m_archiveSize := 0, m_archiveHeap := 0\<rparr>"])
      (simp add: archive_loadOther_def)
qed

lemma load_twice: "m_state a \<noteq> AS_Cleared \<Longrightarrow> archive_load f path h c fh a w = (a, w)"
  by (simp add: archive_load_def)

section \<open>The names of the archives\<close>

datatype language = Japanese | English | German | French | Spanish | Italian | Dutch | SimpChinese | TradChinese | Korean

primrec getBaseLanguageCode :: "Region \<Rightarrow> string" where
  "getBaseLanguageCode Region_P = ''E''"
| "getBaseLanguageCode Region_E = ''U''"
| "getBaseLanguageCode Region_J = ''J''"
| "getBaseLanguageCode Region_K = ''K''"

definition getLanguageCode :: "Region \<Rightarrow> language \<Rightarrow> string" where
  "getLanguageCode r l = (case l of
     Japanese \<Rightarrow> ''J''
   | English \<Rightarrow> if r = Region_E then ''U'' else ''E''
   | SimpChinese \<Rightarrow> ''E''
   | TradChinese \<Rightarrow> ''E''
   | German \<Rightarrow> ''G''
   | French \<Rightarrow> if r = Region_E then ''Q'' else ''F''
   | Spanish \<Rightarrow> if r = Region_E then ''M'' else ''S''
   | Italian \<Rightarrow> ''I''
   | Dutch \<Rightarrow> ''N''
   | Korean \<Rightarrow> ''K'')"

datatype ResourceType = RT_Race | RT_Course | RT_Menu | RT_Font | RT_Other

datatype archive_format = Format_Double | Format_Single

record multi_archive =
  ma_names :: "string list"
  ma_formats :: "archive_format list"

definition race_init :: "Region \<Rightarrow> language \<Rightarrow> multi_archive" where
  "race_init r l = \<lparr>ma_names = [''.szs'',
       if l = Korean then ''_J.szs'' else ''_'' @ getLanguageCode r l @ ''.szs'',
       ''SP.szs'', ''_Dif.szs'', ''_'' @ getLanguageCode r l @ ''_Dif.szs''],
     ma_formats = replicate 5 Format_Double\<rparr>"

definition menu_init :: "Region \<Rightarrow> language \<Rightarrow> multi_archive" where
  "menu_init r l = \<lparr>ma_names = [if r = Region_K then ''_R.szs'' else ''.szs'',
       ''_'' @ getBaseLanguageCode r @ ''.szs'', ''SP.szs'', ''SP_'' @ getLanguageCode r l @ ''.szs'',
       ''_Dif.szs'', ''_'' @ getLanguageCode r l @ ''_Dif.szs''],
     ma_formats = replicate 6 Format_Double\<rparr>"

definition font_init :: "Region \<Rightarrow> multi_archive" where
  "font_init r = \<lparr>ma_names = (if r = Region_K then [''/Scene/UI/Font_K.szs'', ''/Scene/UI/FontSP_R.szs'']
       else [''/Scene/UI/Font.szs'', ''/Scene/UI/FontSP_K.szs'']) @ [''/Scene/UI/Font_Dif.szs''],
     ma_formats = replicate 3 Format_Single\<rparr>"

text \<open>\<open>original\<close> stands for the function of the game that has been replaced.\<close>

definition multi_init :: "(multi_archive \<Rightarrow> multi_archive) \<Rightarrow> multi_archive \<Rightarrow> multi_archive" where
  "multi_init original m =
     (let m = original m
      in if length (ma_names m) \<le> 1 then m
         else m\<lparr>ma_names := (ma_names m)[1 := ''_Dif.szs''], ma_formats := (ma_formats m)[1 := Format_Double]\<rparr>)"

text \<open>\<open>course\<close> is what the game's own constructor makes of the archives of a course.\<close>

definition multi_create ::
  "(multi_archive \<Rightarrow> multi_archive) \<Rightarrow> multi_archive \<Rightarrow> Region \<Rightarrow> language \<Rightarrow> ResourceType \<Rightarrow> multi_archive" where
  "multi_create original course r l t = (case t of
     RT_Race \<Rightarrow> race_init r l
   | RT_Course \<Rightarrow> course
   | RT_Menu \<Rightarrow> menu_init r l
   | RT_Font \<Rightarrow> font_init r
   | RT_Other \<Rightarrow> multi_init original \<lparr>ma_names = [[], []], ma_formats = replicate 2 Format_Double\<rparr>)"

lemma names_fit: "\<forall>n \<in> set (ma_names (race_init r l) @ ma_names (menu_init r l) @ ma_names (font_init r)). length n < 0x80"
  by (cases r; cases l; simp add: race_init_def menu_init_def font_init_def getLanguageCode_def)

lemma formats_match:
  "length (ma_formats (race_init r l)) = length (ma_names (race_init r l))"
  "length (ma_formats (menu_init r l)) = length (ma_names (menu_init r l))"
  "length (ma_formats (font_init r)) = length (ma_names (font_init r))"
  by (simp_all add: race_init_def menu_init_def font_init_def)

section \<open>The archives of the menu\<close>

fun menu_archive_from :: "nat \<Rightarrow> archive_state list \<Rightarrow> nat \<Rightarrow> nat \<Rightarrow> nat option" where
  "menu_archive_from i [] loadedCount idx = None"
| "menu_archive_from i (s # ss) loadedCount idx =
     (if s = AS_Mounted then
        if loadedCount = idx then Some i else menu_archive_from (i + 1) ss (loadedCount + 1) idx
      else menu_archive_from (i + 1) ss loadedCount idx)"

definition getMenuArchive :: "archive_state list \<Rightarrow> nat \<Rightarrow> nat option" where
  "getMenuArchive states idx = menu_archive_from 0 states 0 idx"

definition getMenuArchiveCount :: "archive_state list \<Rightarrow> nat" where
  "getMenuArchiveCount states = fold (\<lambda>s n. if s = AS_Mounted then n + 1 else n) states 0"

lemma menu_archive_from_nth:
  "menu_archive_from i ss k (k + j) =
    (let js = filter (\<lambda>n. ss ! (n - i) = AS_Mounted) [i..<i + length ss] in if j < length js then Some (js ! j) else None)"
proof (induction ss arbitrary: i k j)
  case (Cons s ss)
  have shift: "filter (\<lambda>n. (s # ss) ! (n - i) = AS_Mounted) [Suc i..<Suc i + length ss] =
      filter (\<lambda>n. ss ! (n - Suc i) = AS_Mounted) [Suc i..<Suc i + length ss]"
    by (rule filter_cong) (auto simp: nth_Cons')
  have all: "[i..<i + length (s # ss)] = i # [Suc i..<Suc i + length ss]" by (simp add: upt_conv_Cons del: upt_Suc)
  have js: "filter (\<lambda>n. (s # ss) ! (n - i) = AS_Mounted) [i..<i + length (s # ss)] =
      (if s = AS_Mounted then [i] else []) @ filter (\<lambda>n. ss ! (n - Suc i) = AS_Mounted) [Suc i..<Suc i + length ss]"
    unfolding all filter.simps shift by (simp del: upt_Suc)
  show ?case unfolding js using Cons.IH [of "Suc i" "Suc k" "j - 1"] Cons.IH [of "Suc i" k j]
    by (cases j) (auto simp: Let_def)
qed simp

lemma getMenuArchive_nth:
  "getMenuArchive states idx =
    (let js = filter (\<lambda>n. states ! n = AS_Mounted) [0..<length states] in if idx < length js then Some (js ! idx) else None)"
  using menu_archive_from_nth [of 0 states 0 idx] by (simp add: getMenuArchive_def)

lemma getMenuArchiveCount_length: "getMenuArchiveCount states = length (filter (\<lambda>s. s = AS_Mounted) states)"
proof -
  have "fold (\<lambda>s n. if s = AS_Mounted then n + 1 else n) ss k = k + length (filter (\<lambda>s. s = AS_Mounted) ss)" for ss k
    by (induction ss arbitrary: k) auto
  then show ?thesis by (simp add: getMenuArchiveCount_def)
qed

text \<open>The archives that can be asked for are those that are counted.\<close>

lemma getMenuArchive_iff: "getMenuArchive states idx \<noteq> None \<longleftrightarrow> idx < getMenuArchiveCount states"
proof -
  have "length (filter (\<lambda>n. states ! n = AS_Mounted) [0..<length states]) = length (filter (\<lambda>s. s = AS_Mounted) states)"
    using filter_map [of "\<lambda>s. s = AS_Mounted" "(!) states" "[0..<length states]"] by (simp add: map_nth comp_def)
  then show ?thesis by (simp add: getMenuArchive_nth getMenuArchiveCount_length Let_def)
qed

section \<open>Reading a file into memory\<close>

text \<open>\<open>open\<close> gives the size of a file, \<open>read\<close> reads it into memory, \<open>alloc\<close> gives 0 when the heap is full.\<close>

record 'w ripper_fns =
  rf_open :: "string \<Rightarrow> 'w \<Rightarrow> u32 option \<times> 'w"
  rf_read :: "u32 \<Rightarrow> u32 \<Rightarrow> u32 \<Rightarrow> 'w \<Rightarrow> bool \<times> 'w"
  rf_alloc :: "u32 \<Rightarrow> int \<Rightarrow> 'w \<Rightarrow> u32 \<times> 'w"
  rf_free :: "u32 \<Rightarrow> 'w \<Rightarrow> 'w"
  rf_close :: "'w \<Rightarrow> 'w"

text \<open>The result is the address, the size read and the size of the file, where they are set.\<close>

definition LoadToMainRAM :: "'w ripper_fns \<Rightarrow> string \<Rightarrow> u32 \<Rightarrow> bool \<Rightarrow> u32 \<Rightarrow> 'w \<Rightarrow> (u32 \<times> u32 option \<times> u32 option) \<times> 'w" where
  "LoadToMainRAM f path dst fromTop offset w =
     (let (file, w) = rf_open f path w
      in case file of None \<Rightarrow> ((0, None, None), w)
      | Some fileSize \<Rightarrow>
          let len = fileSize - offset;
              (block, w) = (if dst = 0 then rf_alloc f len (if fromTop then 0x20 else - 0x20) w else (0, w));
              target = (if dst = 0 then block else dst)
          in if target = 0 then ((0, None, Some fileSize), rf_close f w)
             else
               let (ok, w) = rf_read f target len offset w
               in if \<not> ok then ((0, None, Some fileSize), rf_close f (if dst = 0 then rf_free f block w else w))
                  else ((target, Some len, Some fileSize), rf_close f w))"

text \<open>A block is kept exactly when its address is returned.\<close>

lemma LoadToMainRAM_blocks:
  assumes "\<And>n al w. owned (snd (rf_alloc f n al w)) = owned w + (if fst (rf_alloc f n al w) \<noteq> 0 then 1 else 0 :: int)"
    and "\<And>b w. owned (rf_free f b w) = owned w - 1" and "\<And>p w. owned (snd (rf_open f p w)) = owned w"
    and "\<And>a n off w. owned (snd (rf_read f a n off w)) = owned w" and "\<And>w. owned (rf_close f w) = owned w"
    and "LoadToMainRAM f path dst fromTop offset w = ((a, rest), w')"
  shows "owned w' = owned w + (if dst = 0 \<and> a \<noteq> 0 then 1 else 0)"
proof -
  obtain fl w1 where o1: "rf_open f path w = (fl, w1)" by (metis surj_pair)
  have w1: "owned w1 = owned w" using assms(3) [of path w] o1 by simp
  show ?thesis
  proof (cases fl)
    case None
    then show ?thesis using assms(6) o1 w1 by (auto simp: LoadToMainRAM_def)
  next
    case (Some n)
    obtain block w2 where b: "rf_alloc f (n - offset) (if fromTop then 0x20 else - 0x20) w1 = (block, w2)" by (metis surj_pair)
    have w2: "owned w2 = owned w + (if block \<noteq> 0 then 1 else 0)"
      using assms(1) [of "n - offset" "if fromTop then 0x20 else - 0x20" w1] b w1 by (simp split: if_splits)
    have rd: "owned w4 = owned w3" if "rf_read f x y z w3 = (ok, w4)" for x y z w3 ok w4
      using assms(4) [of x y z w3] that by simp
    show ?thesis using assms(6) o1 b Some w1 w2 rd assms(2,5)
      by (auto simp: LoadToMainRAM_def Let_def split: prod.splits if_splits)
  qed
qed

end
