(* ===== verification/Circular_Buffer.thy ===== *)
theory Circular_Buffer
  imports Prelude
begin

text \<open>
  The ring buffer \<open>CircularBuffer<T, N>\<close> of \<open>payload/sp/CircularBuffer.hh\<close>.  The raw storage
  \<open>m_vals\<close> is a list of slots; a slot is \<^term>\<open>None\<close> when no object lives in it.  The interface
  a client relies on is the locale \<open>bounded_deque\<close>: every operation is described by its effect on
  the list of elements from front to back.  The interpretation at the end of the theory proves
  that the ring buffer meets it.
\<close>

section \<open>State and operations\<close>

record 'a cbuf =
  m_vals :: "'a option list"
  m_front :: nat
  m_count :: nat

definition cb_N :: "'a cbuf \<Rightarrow> nat" where
  "cb_N b = length (m_vals b)"

definition cb_slot :: "'a cbuf \<Rightarrow> nat \<Rightarrow> nat" where
  "cb_slot b i = (m_front b + i) mod cb_N b"

definition cb_new :: "nat \<Rightarrow> 'a cbuf" where
  "cb_new n = \<lparr>m_vals = replicate n None, m_front = 0, m_count = 0\<rparr>"

definition cb_empty :: "'a cbuf \<Rightarrow> bool" where
  "cb_empty b \<longleftrightarrow> m_count b = 0"

definition cb_full :: "'a cbuf \<Rightarrow> bool" where
  "cb_full b \<longleftrightarrow> m_count b = cb_N b"

text \<open>\<open>operator[]\<close>: the object in slot \<open>(m_front + index) % N\<close>; the index is not checked.\<close>

definition cb_at :: "'a cbuf \<Rightarrow> nat \<Rightarrow> 'a option" where
  "cb_at b index = do { s \<leftarrow> rd (m_vals b) (cb_slot b index); s }"

text \<open>The inner option of \<open>front\<close> and \<open>back\<close> is the returned pointer, \<^term>\<open>None\<close> for \<open>nullptr\<close>.\<close>

definition cb_front :: "'a cbuf \<Rightarrow> 'a option option" where
  "cb_front b =
     (if cb_empty b then Some None
      else do { s \<leftarrow> rd (m_vals b) (m_front b); v \<leftarrow> s; Some (Some v) })"

definition cb_back :: "'a cbuf \<Rightarrow> 'a option option" where
  "cb_back b =
     (if cb_empty b then Some None
      else do { s \<leftarrow> rd (m_vals b) ((m_front b + m_count b - 1) mod cb_N b); v \<leftarrow> s; Some (Some v) })"

definition cb_push_back :: "'a \<Rightarrow> 'a cbuf \<Rightarrow> (bool \<times> 'a cbuf) option" where
  "cb_push_back val b =
     (if cb_full b then Some (False, b)
      else do {
        vals \<leftarrow> wr (m_vals b) ((m_front b + m_count b) mod cb_N b) (Some val);
        Some (True, b\<lparr>m_vals := vals, m_count := m_count b + 1\<rparr>)
      })"

text \<open>\<open>m_front - 1 + N\<close> is computed in a 32-bit \<open>size_t\<close>: the subtraction wraps at zero.\<close>

definition size_t_pred :: "nat \<Rightarrow> nat" where
  "size_t_pred n = (n + (2 ^ 32 - 1)) mod 2 ^ 32"

definition cb_push_front :: "'a \<Rightarrow> 'a cbuf \<Rightarrow> (bool \<times> 'a cbuf) option" where
  "cb_push_front val b =
     (if cb_full b then Some (False, b)
      else do {
        let f = (size_t_pred (m_front b) + cb_N b) mod 2 ^ 32 mod cb_N b;
        vals \<leftarrow> wr (m_vals b) f (Some val);
        Some (True, b\<lparr>m_vals := vals, m_front := f, m_count := m_count b + 1\<rparr>)
      })"

text \<open>\<open>std::destroy_at\<close>: ends the life of the object in a slot; a fault when none lives there.\<close>

definition destroy_at :: "'a option list \<Rightarrow> nat \<Rightarrow> 'a option list option" where
  "destroy_at vals i = do { s \<leftarrow> rd vals i; v \<leftarrow> s; wr vals i None }"

definition cb_pop_back :: "'a cbuf \<Rightarrow> 'a cbuf option" where
  "cb_pop_back b = do {
     vals \<leftarrow> destroy_at (m_vals b) (size_t_pred ((m_front b + m_count b) mod 2 ^ 32) mod cb_N b);
     Some (b\<lparr>m_vals := vals, m_count := size_t_pred (m_count b)\<rparr>)
   }"

definition cb_pop_front :: "'a cbuf \<Rightarrow> 'a cbuf option" where
  "cb_pop_front b = do {
     vals \<leftarrow> destroy_at (m_vals b) (m_front b);
     Some (b\<lparr>m_vals := vals, m_front := (m_front b + 1) mod cb_N b,
             m_count := size_t_pred (m_count b)\<rparr>)
   }"

primrec cb_contains_from :: "'a cbuf \<Rightarrow> 'a \<Rightarrow> nat \<Rightarrow> nat \<Rightarrow> bool option" where
  "cb_contains_from b needle i 0 = Some False"
| "cb_contains_from b needle i (Suc n) = do {
     v \<leftarrow> cb_at b i;
     if v = needle then Some True else cb_contains_from b needle (i + 1) n
   }"

definition cb_contains :: "'a \<Rightarrow> 'a cbuf \<Rightarrow> bool option" where
  "cb_contains needle b = cb_contains_from b needle 0 (m_count b)"

text \<open>The loop of \<open>remove\<close>: from \<open>index\<close>, move the object of the next slot down, \<open>n\<close> times.\<close>

primrec cb_shift :: "nat \<Rightarrow> nat \<Rightarrow> nat \<Rightarrow> 'a option list \<Rightarrow> 'a option list option" where
  "cb_shift front index 0 vals = Some vals"
| "cb_shift front index (Suc n) vals = do {
     s \<leftarrow> rd vals ((front + index + 1) mod length vals);
     v \<leftarrow> s;
     vals' \<leftarrow> wr vals ((front + index) mod length vals) (Some v);
     cb_shift front (index + 1) n vals'
   }"

definition cb_remove :: "nat \<Rightarrow> 'a cbuf \<Rightarrow> 'a cbuf option" where
  "cb_remove index b = do {
     vals \<leftarrow> destroy_at (m_vals b) (cb_slot b index);
     vals' \<leftarrow> cb_shift (m_front b) index (size_t_pred (m_count b) - index) vals;
     Some (b\<lparr>m_vals := vals', m_count := size_t_pred (m_count b)\<rparr>)
   }"

text \<open>\<open>reset\<close> pops the front until the buffer is empty.\<close>

primrec cb_reset_loop :: "nat \<Rightarrow> 'a cbuf \<Rightarrow> 'a cbuf option" where
  "cb_reset_loop 0 b = Some b"
| "cb_reset_loop (Suc n) b = do { b' \<leftarrow> cb_pop_front b; cb_reset_loop n b' }"

definition cb_reset :: "'a cbuf \<Rightarrow> 'a cbuf option" where
  "cb_reset b = cb_reset_loop (m_count b) b"

section \<open>Abstraction and invariant\<close>

definition cb_list :: "'a cbuf \<Rightarrow> 'a list" where
  "cb_list b = map (\<lambda>i. the (m_vals b ! cb_slot b i)) [0..<m_count b]"

definition cb_inv :: "'a cbuf \<Rightarrow> bool" where
  "cb_inv b \<longleftrightarrow> 0 < cb_N b \<and> cb_N b < 2 ^ 31 \<and> m_front b < cb_N b \<and> m_count b \<le> cb_N b \<and>
     (\<forall>i < m_count b. m_vals b ! cb_slot b i \<noteq> None)"


section \<open>The ring seen from its front\<close>

definition ring_view :: "'a option list \<Rightarrow> nat \<Rightarrow> nat \<Rightarrow> 'a option" where
  "ring_view vals f k = vals ! ((f + k) mod length vals)"

lemma ring_index_eq_iff:
  assumes "i < n" and "k < n"
  shows "(f + i) mod n = (f + k) mod n \<longleftrightarrow> i = (k::nat)"
proof
  assume eq: "(f + i) mod n = (f + k) mod n"
  have "int (f + i) mod int n = int (f + k) mod int n"
    using eq by (metis zmod_int)
  then have "(int (f + i) - int f) mod int n = (int (f + k) - int f) mod int n"
    by (rule mod_diff_cong) simp
  then show "i = k" using assms by simp
qed simp

lemma ring_view_upd:
  assumes "i < length vals" and "k < length vals"
  shows "ring_view (vals[(f + i) mod length vals := s]) f k = (if k = i then s else ring_view vals f k)"
proof -
  have "(f + k) mod length vals < length vals" using assms(1) by (intro mod_less_divisor) linarith
  then show ?thesis
    using ring_index_eq_iff [OF assms, of f] by (auto simp: ring_view_def nth_list_update)
qed

lemma ring_view_next: "ring_view vals ((f + 1) mod length vals) k = ring_view vals f (k + 1)"
  by (simp add: ring_view_def mod_simps ac_simps)

lemma cb_list_view: "cb_list b = map (\<lambda>k. the (ring_view (m_vals b) (m_front b) k)) [0..<m_count b]"
  by (simp add: cb_list_def ring_view_def cb_slot_def cb_N_def)

lemma cb_inv_view:
  "cb_inv b \<longleftrightarrow> 0 < length (m_vals b) \<and> length (m_vals b) < 2 ^ 31 \<and>
     m_front b < length (m_vals b) \<and> m_count b \<le> length (m_vals b) \<and>
     (\<forall>k < m_count b. ring_view (m_vals b) (m_front b) k \<noteq> None)"
  by (simp add: cb_inv_def ring_view_def cb_slot_def cb_N_def)

lemma length_cb_list [simp]: "length (cb_list b) = m_count b"
  by (simp add: cb_list_def)

lemma cb_list_nonempty: "cb_list b \<noteq> [] \<longleftrightarrow> 0 < m_count b"
  by (simp add: cb_list_def)

lemma cb_list_nth:
  "i < m_count b \<Longrightarrow> cb_list b ! i = the (ring_view (m_vals b) (m_front b) i)"
  by (simp add: cb_list_view)

lemma size_t_pred_pos: "0 < n \<Longrightarrow> n < 2 ^ 32 \<Longrightarrow> size_t_pred n = n - 1"
  unfolding size_t_pred_def
  by (cases n) simp_all

lemma size_t_pred_small:
  "cb_inv b \<Longrightarrow> 0 < m_count b \<Longrightarrow> size_t_pred (m_count b) = m_count b - 1"
  by (rule size_t_pred_pos) (auto simp: cb_inv_def)

lemma ring_index_less: "0 < length vals \<Longrightarrow> (i::nat) mod length vals < length vals"
  by simp

lemma cb_new_inv: "0 < n \<Longrightarrow> n < 2 ^ 31 \<Longrightarrow> cb_inv (cb_new n) \<and> cb_list (cb_new n) = []"
  by (simp add: cb_inv_def cb_new_def cb_N_def cb_list_def)

section \<open>Each operation on the list view\<close>

lemma cb_at_nth:
  assumes "cb_inv b" and "i < m_count b"
  shows "cb_at b i = Some (cb_list b ! i)"
proof -
  have "ring_view (m_vals b) (m_front b) i \<noteq> None"
    using assms by (auto simp: cb_inv_view)
  then obtain v where v: "ring_view (m_vals b) (m_front b) i = Some v" by blast
  have "0 < length (m_vals b)" using assms by (simp add: cb_inv_view)
  with v show ?thesis
    using assms(2) by (simp add: cb_at_def cb_list_nth cb_slot_def cb_N_def ring_view_def)
qed

lemma cb_front_hd:
  assumes "cb_inv b"
  shows "cb_front b = Some (if cb_list b = [] then None else Some (hd (cb_list b)))"
proof (cases "m_count b = 0")
  case True
  then show ?thesis by (simp add: cb_front_def cb_empty_def cb_list_def)
next
  case False
  then have "cb_at b 0 = Some (cb_list b ! 0)" using assms by (intro cb_at_nth) auto
  moreover have "cb_slot b 0 = m_front b" using assms by (simp add: cb_slot_def cb_inv_def)
  ultimately show ?thesis
    using False by (auto simp: cb_front_def cb_empty_def cb_at_def hd_conv_nth bind_Some_iff
      simp flip: length_0_conv)
qed

lemma cb_back_last:
  assumes "cb_inv b"
  shows "cb_back b = Some (if cb_list b = [] then None else Some (last (cb_list b)))"
proof (cases "m_count b = 0")
  case True
  then show ?thesis by (simp add: cb_back_def cb_empty_def cb_list_def)
next
  case False
  then have "cb_at b (m_count b - 1) = Some (cb_list b ! (m_count b - 1))"
    using assms by (intro cb_at_nth) auto
  moreover have "cb_slot b (m_count b - 1) = (m_front b + m_count b - 1) mod cb_N b"
    using False by (simp add: cb_slot_def)
  ultimately show ?thesis
    using False by (auto simp: cb_back_def cb_empty_def cb_at_def last_conv_nth bind_Some_iff
      simp flip: length_0_conv)
qed

lemma cb_push_back_correct:
  assumes "cb_inv b" and "length (cb_list b) < cb_N b"
  obtains b' where "cb_push_back v b = Some (True, b')" and "cb_inv b'"
    and "cb_N b' = cb_N b" and "cb_list b' = cb_list b @ [v]"
proof -
  define b' where "b' = b\<lparr>m_vals := (m_vals b)[(m_front b + m_count b) mod cb_N b := Some v],
    m_count := m_count b + 1\<rparr>"
  have N: "0 < length (m_vals b)" "m_count b < length (m_vals b)" using assms by (auto simp: cb_N_def cb_inv_def)
  have view: "ring_view (m_vals b') (m_front b') k =
      (if k = m_count b then Some v else ring_view (m_vals b) (m_front b) k)"
    if "k < length (m_vals b)" for k
    using ring_view_upd [OF N(2) that] by (simp add: b'_def cb_N_def)
  have "cb_push_back v b = Some (True, b')"
    using assms N by (auto simp: cb_push_back_def cb_full_def b'_def cb_N_def)
  moreover have "cb_inv b'"
    using assms N view by (auto simp: cb_inv_view b'_def cb_N_def)
  moreover have "cb_list b' = cb_list b @ [v]"
    using N view by (auto simp: cb_list_view b'_def cb_N_def)
  ultimately show thesis using that by (simp add: b'_def cb_N_def)
qed

lemma cb_push_front_correct:
  assumes "cb_inv b" and "length (cb_list b) < cb_N b"
  obtains b' where "cb_push_front v b = Some (True, b')" and "cb_inv b'"
    and "cb_N b' = cb_N b" and "cb_list b' = v # cb_list b"
proof -
  define N where "N = length (m_vals b)"
  define f where "f = (size_t_pred (m_front b) + cb_N b) mod 2 ^ 32 mod cb_N b"
  define b' where "b' = b\<lparr>m_vals := (m_vals b)[f := Some v], m_front := f, m_count := m_count b + 1\<rparr>"
  have N: "0 < N" "m_count b < N" "m_front b < N" "N < 2 ^ 31"
    using assms by (auto simp: cb_N_def N_def cb_inv_def)
  have f: "f < N" "(f + 1) mod N = m_front b"
  proof -
    show "f < N" using N by (simp add: f_def cb_N_def N_def)
    show "(f + 1) mod N = m_front b"
    proof (cases "m_front b = 0")
      case True
      have "(size_t_pred 0 + N) mod 2 ^ 32 = N - 1"
        using N by (simp add: size_t_pred_def mod_if)
      then have "f = N - 1" using N True by (simp add: f_def cb_N_def N_def)
      then show ?thesis using N True by simp
    next
      case False
      then obtain m where m: "m_front b = Suc m" by (cases "m_front b") auto
      then have "size_t_pred (m_front b) = m" using N by (simp add: size_t_pred_pos)
      then have "f = m" using N m by (simp add: f_def cb_N_def N_def [symmetric])
      then show ?thesis using N m by simp
    qed
  qed
  have view0: "ring_view (m_vals b') (m_front b') 0 = Some v"
    using ring_view_upd [of 0 "m_vals b" 0 f "Some v"] N f by (simp add: b'_def N_def)
  have viewS: "ring_view (m_vals b') (m_front b') (k + 1) = ring_view (m_vals b) (m_front b) k"
    if "k + 1 < N" for k
  proof -
    have "ring_view (m_vals b') f (k + 1) = ring_view (m_vals b) f (k + 1)"
      using ring_view_upd [of 0 "m_vals b" "k + 1" f "Some v"] N f that by (simp add: b'_def N_def)
    also have "\<dots> = ring_view (m_vals b) (m_front b) k"
      using ring_view_next [of "m_vals b" f k] f by (simp add: N_def)
    finally show ?thesis by (simp add: b'_def)
  qed
  have "cb_push_front v b = Some (True, b')"
    using assms N f unfolding cb_push_front_def Let_def f_def [symmetric]
    by (simp add: cb_full_def b'_def N_def cb_N_def)
  moreover have "cb_inv b'"
    unfolding cb_inv_view
  proof (intro conjI allI impI)
    fix k assume "k < m_count b'"
    then show "ring_view (m_vals b') (m_front b') k \<noteq> None"
      using view0 viewS [of "k - 1"] assms(1) N by (cases k) (auto simp: b'_def cb_inv_view)
  qed (use N f in \<open>auto simp: b'_def N_def\<close>)
  moreover have "cb_list b' = v # cb_list b"
  proof (rule nth_equalityI)
    fix i assume "i < length (cb_list b')"
    then show "cb_list b' ! i = (v # cb_list b) ! i"
      using view0 viewS [of "i - 1"] N by (cases i) (auto simp: cb_list_nth b'_def)
  qed (simp add: b'_def)
  ultimately show thesis using that by (simp add: b'_def cb_N_def)
qed


lemma destroy_at_live:
  "i < length vals \<Longrightarrow> vals ! i \<noteq> None \<Longrightarrow> destroy_at vals i = Some (vals[i := None])"
  by (auto simp: destroy_at_def)

lemma cb_pop_front_correct:
  assumes "cb_inv b" and "cb_list b \<noteq> []"
  obtains b' where "cb_pop_front b = Some b'" and "cb_inv b'"
    and "cb_N b' = cb_N b" and "cb_list b' = tl (cb_list b)"
proof -
  define vals where "vals = (m_vals b)[m_front b := None]"
  define b' where "b' = b\<lparr>m_vals := vals, m_front := (m_front b + 1) mod cb_N b, m_count := m_count b - 1\<rparr>"
  have N: "m_front b < length (m_vals b)" "m_count b \<le> length (m_vals b)" "0 < m_count b"
    using assms cb_list_nonempty [of b] by (simp_all add: cb_inv_view)
  then have pos: "0 < length (m_vals b)" by linarith
  have live: "m_vals b ! m_front b \<noteq> None"
  proof -
    have "ring_view (m_vals b) (m_front b) 0 \<noteq> None" using assms N by (simp add: cb_inv_view)
    then show ?thesis using N by (simp add: ring_view_def)
  qed
  have view: "ring_view (m_vals b') (m_front b') k = ring_view (m_vals b) (m_front b) (k + 1)"
    if "k + 1 < m_count b" for k
  proof -
    have "ring_view (m_vals b') (m_front b') k = ring_view vals (m_front b) (k + 1)"
      using ring_view_next [of vals] by (simp add: b'_def vals_def cb_N_def)
    also have "\<dots> = ring_view (m_vals b) (m_front b) (k + 1)"
      using ring_view_upd [OF pos, of "k + 1" "m_front b" None] N that by (simp add: vals_def)
    finally show ?thesis .
  qed
  have "cb_pop_front b = Some b'"
    using N live assms(1) by (simp add: cb_pop_front_def destroy_at_live b'_def vals_def size_t_pred_small)
  moreover have "cb_inv b'"
    using assms N view by (auto simp: cb_inv_view b'_def vals_def cb_N_def)
  moreover have "cb_list b' = tl (cb_list b)"
    by (rule nth_equalityI) (use view in \<open>auto simp: nth_tl cb_list_nth b'_def\<close>)
  ultimately show thesis using that by (simp add: b'_def vals_def cb_N_def)
qed

lemma cb_pop_back_correct:
  assumes "cb_inv b" and "cb_list b \<noteq> []"
  obtains b' where "cb_pop_back b = Some b'" and "cb_inv b'"
    and "cb_N b' = cb_N b" and "cb_list b' = butlast (cb_list b)"
proof -
  define i where "i = m_count b - 1"
  define vals where "vals = (m_vals b)[(m_front b + i) mod length (m_vals b) := None]"
  define b' where "b' = b\<lparr>m_vals := vals, m_count := m_count b - 1\<rparr>"
  have N: "m_front b < length (m_vals b)" "m_count b \<le> length (m_vals b)" "0 < m_count b"
      "length (m_vals b) < 2 ^ 31" "i < length (m_vals b)"
    using assms cb_list_nonempty [of b] by (auto simp: cb_inv_view i_def)
  have idx: "size_t_pred ((m_front b + m_count b) mod 2 ^ 32) = m_front b + i"
    using N by (simp add: size_t_pred_pos i_def)
  have live: "m_vals b ! ((m_front b + i) mod length (m_vals b)) \<noteq> None"
  proof -
    have "ring_view (m_vals b) (m_front b) i \<noteq> None" using assms N by (simp add: cb_inv_view i_def)
    then show ?thesis by (simp add: ring_view_def)
  qed
  have view: "ring_view (m_vals b') (m_front b') k = ring_view (m_vals b) (m_front b) k"
    if "k < i" for k
    using ring_view_upd [of i "m_vals b" k "m_front b" None] N that by (simp add: vals_def b'_def)
  have "(m_front b + i) mod length (m_vals b) < length (m_vals b)"
    using N by (intro mod_less_divisor) linarith
  then have "destroy_at (m_vals b) ((m_front b + i) mod length (m_vals b)) = Some vals"
    using live by (simp add: destroy_at_live vals_def)
  then have "cb_pop_back b = Some b'"
    using N assms(1) idx by (simp add: cb_pop_back_def b'_def size_t_pred_small cb_N_def)
  moreover have "cb_inv b'"
    using assms N view by (auto simp: cb_inv_view b'_def vals_def i_def)
  moreover have "cb_list b' = butlast (cb_list b)"
    by (rule nth_equalityI) (use view in \<open>auto simp: nth_butlast cb_list_nth b'_def i_def\<close>)
  ultimately show thesis using that by (simp add: b'_def vals_def cb_N_def)
qed

lemma cb_shift_view:
  assumes "index + n < length vals"
    and "\<And>k. index < k \<Longrightarrow> k \<le> index + n \<Longrightarrow> ring_view vals f k \<noteq> None"
  shows "\<exists>vals'. cb_shift f index n vals = Some vals' \<and> length vals' = length vals \<and>
    (\<forall>k < length vals. ring_view vals' f k =
       (if index \<le> k \<and> k < index + n then ring_view vals f (k + 1) else ring_view vals f k))"
  using assms
proof (induction n arbitrary: index vals)
  case 0
  then show ?case by auto
next
  case (Suc n)
  obtain v where v: "ring_view vals f (index + 1) = Some v"
    using Suc.prems(2) [of "index + 1"] by auto
  define vals1 where "vals1 = vals[(f + index) mod length vals := Some v]"
  have view1: "ring_view vals1 f k = (if k = index then Some v else ring_view vals f k)"
    if "k < length vals" for k
    using ring_view_upd [of index vals k f] that Suc.prems(1) by (simp add: vals1_def)
  have "\<exists>vals'. cb_shift f (index + 1) n vals1 = Some vals' \<and> length vals' = length vals1 \<and>
    (\<forall>k < length vals1. ring_view vals' f k =
       (if index + 1 \<le> k \<and> k < index + 1 + n then ring_view vals1 f (k + 1) else ring_view vals1 f k))"
  proof (rule Suc.IH)
    show "index + 1 + n < length vals1" using Suc.prems(1) by (simp add: vals1_def)
    fix k assume "index + 1 < k" "k \<le> index + 1 + n"
    then show "ring_view vals1 f k \<noteq> None"
      using view1 [of k] Suc.prems by auto
  qed
  then obtain vals' where vals': "cb_shift f (index + 1) n vals1 = Some vals'" "length vals' = length vals1"
    and view': "\<forall>k < length vals1. ring_view vals' f k =
       (if index + 1 \<le> k \<and> k < index + 1 + n then ring_view vals1 f (k + 1) else ring_view vals1 f k)"
    by blast
  have len: "length vals1 = length vals" "0 < length vals" using Suc.prems(1) by (auto simp: vals1_def)
  have "cb_shift f index (Suc n) vals = Some vals'"
    using v vals'(1) len by (simp add: ring_view_def vals1_def)
  moreover have "ring_view vals' f k =
      (if index \<le> k \<and> k < index + Suc n then ring_view vals f (k + 1) else ring_view vals f k)"
    if k: "k < length vals" for k
    using view' view1 [OF k] view1 [of "k + 1"] k len Suc.prems(1) v
    by (cases "k = index") auto
  ultimately show ?case using vals'(2) len by auto
qed

lemma cb_remove_correct:
  assumes "cb_inv b" and "index < length (cb_list b)"
  obtains b' where "cb_remove index b = Some b'" and "cb_inv b'"
    and "cb_N b' = cb_N b" and "cb_list b' = take index (cb_list b) @ drop (index + 1) (cb_list b)"
proof -
  define vals where "vals = (m_vals b)[(m_front b + index) mod length (m_vals b) := None]"
  define n where "n = m_count b - 1 - index"
  have N: "m_front b < length (m_vals b)" "m_count b \<le> length (m_vals b)" "index < m_count b"
      "index < length (m_vals b)" "0 < m_count b"
    using assms by (auto simp: cb_inv_view)
  have live: "m_vals b ! ((m_front b + index) mod length (m_vals b)) \<noteq> None"
  proof -
    have "ring_view (m_vals b) (m_front b) index \<noteq> None" using assms N by (simp add: cb_inv_view)
    then show ?thesis by (simp add: ring_view_def)
  qed
  have view: "ring_view vals (m_front b) k =
      (if k = index then None else ring_view (m_vals b) (m_front b) k)"
    if "k < length (m_vals b)" for k
    using ring_view_upd [OF N(4) that] by (simp add: vals_def)
  have "\<exists>vals'. cb_shift (m_front b) index n vals = Some vals' \<and> length vals' = length vals \<and>
    (\<forall>k < length vals. ring_view vals' (m_front b) k =
       (if index \<le> k \<and> k < index + n then ring_view vals (m_front b) (k + 1)
        else ring_view vals (m_front b) k))"
  proof (rule cb_shift_view)
    show "index + n < length vals" using N by (simp add: vals_def n_def)
    fix k assume "index < k" "k \<le> index + n"
    then show "ring_view vals (m_front b) k \<noteq> None"
      using view [of k] assms(1) N by (auto simp: n_def cb_inv_view)
  qed
  then obtain vals' where vals': "cb_shift (m_front b) index n vals = Some vals'" "length vals' = length vals"
    and view': "\<forall>k < length vals. ring_view vals' (m_front b) k =
       (if index \<le> k \<and> k < index + n then ring_view vals (m_front b) (k + 1)
        else ring_view vals (m_front b) k)"
    by blast
  define b' where "b' = b\<lparr>m_vals := vals', m_count := m_count b - 1\<rparr>"
  have len: "length vals = length (m_vals b)" by (simp add: vals_def)
  have viewb: "ring_view (m_vals b') (m_front b') k =
      ring_view (m_vals b) (m_front b) (if index \<le> k then k + 1 else k)" if "k < m_count b - 1" for k
    using view' view [of k] view [of "k + 1"] that N len by (auto simp: b'_def n_def)
  have "(m_front b + index) mod length (m_vals b) < length (m_vals b)"
    using N by (intro mod_less_divisor) linarith
  then have "destroy_at (m_vals b) ((m_front b + index) mod length (m_vals b)) = Some vals"
    using live by (simp add: destroy_at_live vals_def)
  then have "cb_remove index b = Some b'"
    using N assms(1) vals'
    by (simp add: cb_remove_def cb_slot_def cb_N_def size_t_pred_small n_def b'_def)
  moreover have "cb_inv b'"
    using assms N viewb vals' len by (auto simp: cb_inv_view b'_def)
  moreover have "cb_list b' = take index (cb_list b) @ drop (index + 1) (cb_list b)"
    by (rule nth_equalityI)
      (use viewb N in \<open>auto simp: cb_list_nth b'_def nth_append min_def\<close>)
  ultimately show thesis using that vals' len by (simp add: b'_def cb_N_def)
qed


lemma cb_contains_from_correct:
  assumes "cb_inv b" and "i + n \<le> m_count b"
  shows "cb_contains_from b needle i n = Some (needle \<in> set (take n (drop i (cb_list b))))"
  using assms(2)
proof (induction n arbitrary: i)
  case 0
  then show ?case by simp
next
  case (Suc n)
  have "cb_at b i = Some (cb_list b ! i)"
    using assms(1) Suc.prems by (intro cb_at_nth) auto
  moreover have "take (Suc n) (drop i (cb_list b)) = cb_list b ! i # take n (drop (Suc i) (cb_list b))"
    using Suc.prems by (simp flip: Cons_nth_drop_Suc)
  ultimately show ?case using Suc.IH [of "Suc i"] Suc.prems by auto
qed

lemma cb_contains_correct: "cb_inv b \<Longrightarrow> cb_contains v b = Some (v \<in> set (cb_list b))"
  by (simp add: cb_contains_def cb_contains_from_correct)

lemma cb_reset_loop_correct:
  "cb_inv b \<Longrightarrow> n = m_count b \<Longrightarrow>
   \<exists>b'. cb_reset_loop n b = Some b' \<and> cb_inv b' \<and> cb_N b' = cb_N b \<and> cb_list b' = []"
proof (induction n arbitrary: b)
  case 0
  then show ?case by (simp add: cb_list_def)
next
  case (Suc n)
  then have "cb_list b \<noteq> []" by (simp add: cb_list_nonempty)
  then obtain b1 where b1: "cb_pop_front b = Some b1" "cb_inv b1" "cb_N b1 = cb_N b"
      "cb_list b1 = tl (cb_list b)"
    using Suc.prems(1) by (elim cb_pop_front_correct [rotated])
  have "m_count b1 = n"
    using b1(4) Suc.prems(2) by (metis length_cb_list length_tl diff_Suc_1)
  then show ?case using Suc.IH [of b1] b1 by auto
qed

section \<open>The interface of a bounded double-ended queue\<close>

locale bounded_deque =
  fixes list :: "'d \<Rightarrow> 'a list"
    and cap :: "'d \<Rightarrow> nat"
    and invar :: "'d \<Rightarrow> bool"
    and push_back :: "'a \<Rightarrow> 'd \<Rightarrow> (bool \<times> 'd) option"
    and push_front :: "'a \<Rightarrow> 'd \<Rightarrow> (bool \<times> 'd) option"
    and pop_back :: "'d \<Rightarrow> 'd option"
    and pop_front :: "'d \<Rightarrow> 'd option"
    and peek_front :: "'d \<Rightarrow> 'a option option"
    and peek_back :: "'d \<Rightarrow> 'a option option"
    and remove :: "nat \<Rightarrow> 'd \<Rightarrow> 'd option"
  assumes within_cap: "invar d \<Longrightarrow> length (list d) \<le> cap d"
    and push_back_room: "invar d \<Longrightarrow> length (list d) < cap d \<Longrightarrow>
      \<exists>d'. push_back v d = Some (True, d') \<and> invar d' \<and> cap d' = cap d \<and> list d' = list d @ [v]"
    and push_back_full: "invar d \<Longrightarrow> length (list d) = cap d \<Longrightarrow> push_back v d = Some (False, d)"
    and push_front_room: "invar d \<Longrightarrow> length (list d) < cap d \<Longrightarrow>
      \<exists>d'. push_front v d = Some (True, d') \<and> invar d' \<and> cap d' = cap d \<and> list d' = v # list d"
    and push_front_full: "invar d \<Longrightarrow> length (list d) = cap d \<Longrightarrow> push_front v d = Some (False, d)"
    and pop_back_law: "invar d \<Longrightarrow> list d \<noteq> [] \<Longrightarrow>
      \<exists>d'. pop_back d = Some d' \<and> invar d' \<and> cap d' = cap d \<and> list d' = butlast (list d)"
    and pop_front_law: "invar d \<Longrightarrow> list d \<noteq> [] \<Longrightarrow>
      \<exists>d'. pop_front d = Some d' \<and> invar d' \<and> cap d' = cap d \<and> list d' = tl (list d)"
    and front_law: "invar d \<Longrightarrow> peek_front d = Some (if list d = [] then None else Some (hd (list d)))"
    and back_law: "invar d \<Longrightarrow> peek_back d = Some (if list d = [] then None else Some (last (list d)))"
    and remove_law: "invar d \<Longrightarrow> i < length (list d) \<Longrightarrow>
      \<exists>d'. remove i d = Some d' \<and> invar d' \<and> cap d' = cap d \<and>
        list d' = take i (list d) @ drop (i + 1) (list d)"
begin

text \<open>Pushing at the back and popping at the same end is a stack.\<close>

lemma push_pop_back:
  assumes "invar d" and "length (list d) < cap d"
  shows "\<exists>d1 d2. push_back v d = Some (True, d1) \<and> peek_back d1 = Some (Some v) \<and>
    pop_back d1 = Some d2 \<and> invar d2 \<and> list d2 = list d"
proof -
  obtain d1 where d1: "push_back v d = Some (True, d1)" "invar d1" "list d1 = list d @ [v]"
    using push_back_room [OF assms] by blast
  then obtain d2 where "pop_back d1 = Some d2" "invar d2" "list d2 = list d"
    using pop_back_law [of d1] by auto
  with d1 show ?thesis using back_law [OF d1(2)] by auto
qed

text \<open>Removing the last index is popping the back.\<close>

lemma remove_last_is_pop_back:
  assumes "invar d" and "list d \<noteq> []"
  shows "\<exists>d'. remove (length (list d) - 1) d = Some d' \<and> invar d' \<and> cap d' = cap d \<and>
    list d' = butlast (list d)"
  using remove_law [OF assms(1), of "length (list d) - 1"] assms(2)
  by (auto simp: butlast_conv_take)

text \<open>A run of pushes at the back and pops at the front is first in, first out.\<close>

primrec push_all :: "'a list \<Rightarrow> 'd \<Rightarrow> 'd option" where
  "push_all [] d = Some d"
| "push_all (v # vs) d = do { r \<leftarrow> push_back v d; push_all vs (snd r) }"

primrec drain :: "nat \<Rightarrow> 'd \<Rightarrow> ('a list \<times> 'd) option" where
  "drain 0 d = Some ([], d)"
| "drain (Suc n) d = do {
     p \<leftarrow> peek_front d; v \<leftarrow> p; d' \<leftarrow> pop_front d; r \<leftarrow> drain n d'; Some (v # fst r, snd r) }"

lemma push_all_list:
  "invar d \<Longrightarrow> length (list d) + length vs \<le> cap d \<Longrightarrow>
   \<exists>d'. push_all vs d = Some d' \<and> invar d' \<and> cap d' = cap d \<and> list d' = list d @ vs"
proof (induction vs arbitrary: d)
  case Nil
  then show ?case by simp
next
  case (Cons v vs)
  then obtain d1 where d1: "push_back v d = Some (True, d1)" "invar d1" "cap d1 = cap d"
      "list d1 = list d @ [v]"
    using push_back_room [of d v] by auto
  with Cons show ?case using Cons.IH [of d1] by auto
qed

lemma drain_list:
  "invar d \<Longrightarrow> n \<le> length (list d) \<Longrightarrow>
   \<exists>d'. drain n d = Some (take n (list d), d') \<and> invar d' \<and> cap d' = cap d \<and>
     list d' = drop n (list d)"
proof (induction n arbitrary: d)
  case 0
  then show ?case by simp
next
  case (Suc n)
  then have ne: "list d \<noteq> []" by auto
  then obtain d1 where d1: "pop_front d = Some d1" "invar d1" "cap d1 = cap d" "list d1 = tl (list d)"
    using pop_front_law Suc.prems(1) by blast
  have "n \<le> length (list d1)" using Suc.prems(2) d1(4) by simp
  then obtain d2 where d2: "drain n d1 = Some (take n (tl (list d)), d2)" "invar d2" "cap d2 = cap d"
      "list d2 = drop n (tl (list d))"
    using Suc.IH [of d1] d1 by auto
  have "peek_front d = Some (Some (hd (list d)))" using front_law [OF Suc.prems(1)] ne by simp
  with d1 d2 ne show ?case by (auto simp: take_Suc drop_Suc)
qed

lemma first_in_first_out:
  assumes "invar d" and "list d = []" and "length vs \<le> cap d"
  shows "\<exists>d1 d2. push_all vs d = Some d1 \<and> drain (length vs) d1 = Some (vs, d2) \<and> list d2 = []"
proof -
  obtain d1 where "push_all vs d = Some d1" "invar d1" "list d1 = vs"
    using push_all_list [of d vs] assms by auto
  then show ?thesis using drain_list [of d1 "length vs"] by auto
qed

end

section \<open>The ring buffer meets the interface\<close>

interpretation ring: bounded_deque cb_list cb_N cb_inv cb_push_back cb_push_front
  cb_pop_back cb_pop_front cb_front cb_back cb_remove
proof unfold_locales
  fix d :: "'a cbuf" and v
  assume "cb_inv d" and "length (cb_list d) < cb_N d"
  then show "\<exists>d'. cb_push_back v d = Some (True, d') \<and> cb_inv d' \<and> cb_N d' = cb_N d \<and> cb_list d' = cb_list d @ [v]"
    and "\<exists>d'. cb_push_front v d = Some (True, d') \<and> cb_inv d' \<and> cb_N d' = cb_N d \<and> cb_list d' = v # cb_list d"
    by (metis cb_push_back_correct, metis cb_push_front_correct)
next
  fix d :: "'a cbuf"
  assume "cb_inv d" and "cb_list d \<noteq> []"
  then show "\<exists>d'. cb_pop_back d = Some d' \<and> cb_inv d' \<and> cb_N d' = cb_N d \<and> cb_list d' = butlast (cb_list d)"
    and "\<exists>d'. cb_pop_front d = Some d' \<and> cb_inv d' \<and> cb_N d' = cb_N d \<and> cb_list d' = tl (cb_list d)"
    by (metis cb_pop_back_correct, metis cb_pop_front_correct)
next
  fix d :: "'a cbuf" and i
  assume "cb_inv d" and "i < length (cb_list d)"
  then show "\<exists>d'. cb_remove i d = Some d' \<and> cb_inv d' \<and> cb_N d' = cb_N d \<and>
      cb_list d' = take i (cb_list d) @ drop (i + 1) (cb_list d)"
    by (metis cb_remove_correct)
qed (auto simp: cb_inv_def cb_push_back_def cb_push_front_def cb_full_def cb_front_hd cb_back_last)

section \<open>The operations on the list\<close>

text \<open>C31: Every operation of the ring buffer is the list operation of its name on the sequence it
  holds. Pushes fail exactly when it is full, front and back are null exactly when it is empty,
  remove takes out the element at the index.\<close>

theorem cb_refines_list:
  assumes inv: "cb_inv b"
  shows "(if length (cb_list b) < cb_N b
      then (\<exists>b'. cb_push_back v b = Some (True, b') \<and> cb_inv b' \<and> cb_list b' = cb_list b @ [v]) \<and>
           (\<exists>b'. cb_push_front v b = Some (True, b') \<and> cb_inv b' \<and> cb_list b' = v # cb_list b)
      else cb_push_back v b = Some (False, b) \<and> cb_push_front v b = Some (False, b)) \<and>
    (if cb_list b = [] then cb_front b = Some None \<and> cb_back b = Some None
      else cb_front b = Some (Some (hd (cb_list b))) \<and> cb_back b = Some (Some (last (cb_list b))) \<and>
        (\<exists>b'. cb_pop_front b = Some b' \<and> cb_inv b' \<and> cb_list b' = tl (cb_list b)) \<and>
        (\<exists>b'. cb_pop_back b = Some b' \<and> cb_inv b' \<and> cb_list b' = butlast (cb_list b))) \<and>
    (i < length (cb_list b) \<longrightarrow> cb_at b i = Some (cb_list b ! i) \<and>
      (\<exists>b'. cb_remove i b = Some b' \<and> cb_inv b' \<and> cb_list b' = take i (cb_list b) @ drop (i + 1) (cb_list b))) \<and>
    cb_contains v b = Some (v \<in> set (cb_list b))"
proof (intro conjI)
  show "if length (cb_list b) < cb_N b
      then (\<exists>b'. cb_push_back v b = Some (True, b') \<and> cb_inv b' \<and> cb_list b' = cb_list b @ [v]) \<and>
           (\<exists>b'. cb_push_front v b = Some (True, b') \<and> cb_inv b' \<and> cb_list b' = v # cb_list b)
      else cb_push_back v b = Some (False, b) \<and> cb_push_front v b = Some (False, b)"
    using ring.push_back_room [OF inv, of v] ring.push_front_room [OF inv, of v] inv
    by (auto simp: cb_inv_def cb_push_back_def cb_push_front_def cb_full_def)
  show "if cb_list b = [] then cb_front b = Some None \<and> cb_back b = Some None
      else cb_front b = Some (Some (hd (cb_list b))) \<and> cb_back b = Some (Some (last (cb_list b))) \<and>
        (\<exists>b'. cb_pop_front b = Some b' \<and> cb_inv b' \<and> cb_list b' = tl (cb_list b)) \<and>
        (\<exists>b'. cb_pop_back b = Some b' \<and> cb_inv b' \<and> cb_list b' = butlast (cb_list b))"
    using ring.front_law [OF inv] ring.back_law [OF inv] ring.pop_front_law [OF inv] ring.pop_back_law [OF inv]
    by auto
  show "i < length (cb_list b) \<longrightarrow> cb_at b i = Some (cb_list b ! i) \<and>
      (\<exists>b'. cb_remove i b = Some b' \<and> cb_inv b' \<and> cb_list b' = take i (cb_list b) @ drop (i + 1) (cb_list b))"
    using ring.remove_law [OF inv, of i] cb_at_nth [OF inv, of i] by auto
  show "cb_contains v b = Some (v \<in> set (cb_list b))" by (rule cb_contains_correct [OF inv])
qed

theorem cb_refines_list_witness:
  "\<exists>b'. cb_push_back (7 :: nat) (cb_new 3) = Some (True, b') \<and> cb_inv b' \<and> cb_list b' = [7]"
proof -
  have "cb_inv (cb_new 3 :: nat cbuf) \<and> cb_list (cb_new 3 :: nat cbuf) = []"
    by (rule cb_new_inv) simp_all
  moreover have "cb_N (cb_new 3 :: nat cbuf) = 3" by (simp add: cb_new_def cb_N_def)
  ultimately show ?thesis using cb_refines_list [of "cb_new 3" "7 :: nat" 0] by simp
qed

end
