(* ===== verification/U8_Reader.thy ===== *)
theory U8_Reader
  imports Circular_Buffer Handle_Pool Byte_IO
begin

text \<open>
  \<open>payload/sp/U8Cursor.cc\<close> and \<open>payload/sp/U8Iterator.cc\<close>: reading the nodes of an archive one after the other,
  with the file that replaces each.  The directories a node is in are a ring buffer of ten.
\<close>

section \<open>The cursor\<close>

record u8_cursor =
  cur_buffer :: bytes
  m_currentPos :: nat

definition cursor_read :: "nat \<Rightarrow> u8_cursor \<Rightarrow> bytes option \<times> u8_cursor" where
  "cursor_read n c =
     (if m_currentPos c + n \<ge> length (cur_buffer c) then (None, c)
      else (Some (take n (drop (m_currentPos c) (cur_buffer c))), c\<lparr>m_currentPos := m_currentPos c + n\<rparr>))"

definition readByte :: "u8_cursor \<Rightarrow> u8 option \<times> u8_cursor" where
  "readByte c = (let (b, c) = cursor_read 1 c in (map_option hd b, c))"

definition readBool :: "u8_cursor \<Rightarrow> bool option \<times> u8_cursor" where
  "readBool c = (let (b, c) = readByte c in (if b = Some 0 then Some False else if b = Some 1 then Some True else None, c))"

definition readU24 :: "u8_cursor \<Rightarrow> u32 option \<times> u8_cursor" where
  "readU24 c = (let (b, c) = cursor_read 3 c in
     (map_option (\<lambda>b. push_bit 16 (ucast (b ! 0)) OR push_bit 8 (ucast (b ! 1)) OR ucast (b ! 2)) b, c))"

definition readU32 :: "u8_cursor \<Rightarrow> u32 option \<times> u8_cursor" where
  "readU32 c = (let (b, c) = cursor_read 4 c in
     (map_option (\<lambda>b. push_bit 24 (ucast (b ! 0)) OR push_bit 16 (ucast (b ! 1)) OR push_bit 8 (ucast (b ! 2)) OR ucast (b ! 3)) b, c))"

text \<open>A string of the table: \<^term>\<open>None\<close> when it has no zero inside the buffer.\<close>

definition readString :: "u8_cursor \<Rightarrow> nat \<Rightarrow> nat \<Rightarrow> bytes option" where
  "readString c tableStart tableOffset =
     (let s = drop (tableStart + tableOffset) (cur_buffer c)
      in if 0 \<in> set s then Some (takeWhile (\<lambda>b. b \<noteq> 0) s) else None)"

record U8Header =
  uh_magic :: u32
  uh_nodeOffset :: u32
  uh_metaSize :: u32
  uh_dataOffset :: u32

record U8Node =
  un_isDir :: bool
  un_nameOffset :: u32
  un_dataOffset :: u32
  un_size :: u32

definition readU8Header :: "u8_cursor \<Rightarrow> U8Header option \<times> u8_cursor" where
  "readU8Header c =
     (let (magic, c) = readU32 c; (nodeOffset, c) = readU32 c; (metaSize, c) = readU32 c; (dataOffset, c) = readU32 c
      in (do { m \<leftarrow> magic; n \<leftarrow> nodeOffset; s \<leftarrow> metaSize; d \<leftarrow> dataOffset;
               Some \<lparr>uh_magic = m, uh_nodeOffset = n, uh_metaSize = s, uh_dataOffset = d\<rparr> }, c))"

definition readNode :: "u8_cursor \<Rightarrow> U8Node option \<times> u8_cursor" where
  "readNode c =
     (let (isDir, c) = readByte c; (nameOffset, c) = readU24 c; (dataOffset, c) = readU32 c; (len, c) = readU32 c
      in (do { i \<leftarrow> isDir; n \<leftarrow> nameOffset; d \<leftarrow> dataOffset; s \<leftarrow> len;
               Some \<lparr>un_isDir = i \<noteq> 0, un_nameOffset = n, un_dataOffset = d, un_size = s\<rparr> }, c))"

section \<open>The iterator\<close>

record u8_iterator =
  m_iteration :: u32
  m_nodeCount :: u32
  m_stringTableStart :: u32
  m_dirStack :: "U8Node cbuf"
  m_cursor :: u8_cursor
  m_fileOut :: "bytes option"

datatype U8IterItem =
    Item_Err
  | Item_Dir
  | Item_File U8Node bytes bool

definition iter_reset :: "nat \<Rightarrow> u8_iterator \<Rightarrow> u8_iterator option" where
  "iter_reset startPos it = do {
     st \<leftarrow> cb_reset (m_dirStack it);
     Some (it\<lparr>m_iteration := 0, m_dirStack := st, m_cursor := (m_cursor it)\<lparr>m_currentPos := startPos\<rparr>\<rparr>) }"

fun path_dirs :: "u8_iterator \<Rightarrow> nat list \<Rightarrow> wstr \<Rightarrow> wstr option" where
  "path_dirs it [] path = Some path"
| "path_dirs it (i # is) path = do {
     d \<leftarrow> cb_at (m_dirStack it) i;
     s \<leftarrow> readString (m_cursor it) (unat (m_stringTableStart it)) (unat (un_nameOffset d));
     path_dirs it is (printed 64 (path @ wide ''/'' @ widen s)) }"

definition iter_getPath :: "u8_iterator \<Rightarrow> bytes option \<Rightarrow> wstr option" where
  "iter_getPath it name = do {
     path \<leftarrow> path_dirs it [0..<m_count (m_dirStack it)] (wide ''autoadd'');
     Some (case name of None \<Rightarrow> path | Some n \<Rightarrow> printed 64 (path @ wide ''/'' @ widen n)) }"

text \<open>The directories that end before the node are left.\<close>

fun leave_dirs :: "nat \<Rightarrow> u32 \<Rightarrow> U8Node cbuf \<Rightarrow> U8Node cbuf option" where
  "leave_dirs 0 index st = Some st"
| "leave_dirs (Suc n) index st = do {
     d \<leftarrow> cb_back st;
     d \<leftarrow> d;
     if un_size d = index then do { st \<leftarrow> cb_remove (m_count st - 1) st; leave_dirs n index st } else Some st }"

text \<open>\<open>open\<close> is the storage: the content of a file, with \<^term>\<open>None\<close> inside for a read that fails.\<close>

function iter_next :: "(wstr \<Rightarrow> bytes option option) \<Rightarrow> bool \<Rightarrow> u8_iterator \<Rightarrow> (U8IterItem option \<times> u8_iterator) option" where
  "iter_next opn skipReadingFile it =
     (if m_iteration it = m_nodeCount it then Some (None, it)
      else
        let it = it\<lparr>m_iteration := m_iteration it + 1\<rparr>;
            (node, c) = readNode (m_cursor it);
            it = it\<lparr>m_cursor := c\<rparr>
        in case node of None \<Rightarrow> Some (Some Item_Err, it)
        | Some node \<Rightarrow>
            if un_nameOffset node = 0 \<or> un_nameOffset node = 1 then iter_next opn skipReadingFile it
            else do {
              st \<leftarrow> leave_dirs (m_count (m_dirStack it)) (m_iteration it - 1) (m_dirStack it);
              let it = it\<lparr>m_dirStack := st\<rparr>;
              name \<leftarrow> readString (m_cursor it) (unat (m_stringTableStart it)) (unat (un_nameOffset node));
              if un_isDir node then do {
                (_, st) \<leftarrow> cb_push_back node (m_dirStack it);
                Some (Some Item_Dir, it\<lparr>m_dirStack := st\<rparr>) }
              else do {
                path \<leftarrow> iter_getPath it (Some name);
                case opn path of None \<Rightarrow> Some (Some (Item_File node name False), it)
                | Some content \<Rightarrow>
                    if skipReadingFile then Some (Some (Item_File node name True), it)
                    else do {
                      _ \<leftarrow> m_fileOut it;
                      case content of None \<Rightarrow> Some (Some Item_Err, it)
                      | Some bs \<Rightarrow> Some (Some (Item_File node name True), it\<lparr>m_fileOut := Some bs\<rparr>) } } })"
  by pat_completeness auto
termination
proof (relation "measure (\<lambda>(opn, s, it). unat (m_nodeCount it - m_iteration it))", goal_cases)
  case (2 opn skip it x y z c node)
  have "m_nodeCount it - m_iteration it \<noteq> 0" using 2(1) by simp
  then have "unat (m_nodeCount it - m_iteration it - 1) < unat (m_nodeCount it - m_iteration it)"
    by (simp add: unat_minus_one unat_gt_0)
  then show ?case using 2 by (auto simp: algebra_simps)
qed simp

declare iter_next.simps [simp del]

section \<open>What is read\<close>

lemma cursor_read_inside:
  "cursor_read n c = (Some b, c') \<Longrightarrow> length b = n \<and> m_currentPos c' = m_currentPos c + n \<and> m_currentPos c' < length (cur_buffer c) \<and>
    cur_buffer c' = cur_buffer c"
  by (auto simp: cursor_read_def split: if_splits)

text \<open>The last byte of a buffer is never read.\<close>

lemma cursor_read_last: "m_currentPos c + n = length (cur_buffer c) \<Longrightarrow> cursor_read n c = (None, c)"
  by (simp add: cursor_read_def)

lemma cursor_reads_keep [simp]:
  "cur_buffer (snd (cursor_read n c)) = cur_buffer c" "cur_buffer (snd (readByte c)) = cur_buffer c"
  "cur_buffer (snd (readU24 c)) = cur_buffer c" "cur_buffer (snd (readU32 c)) = cur_buffer c"
  by (simp_all add: cursor_read_def readByte_def readU24_def readU32_def Let_def split: prod.splits)

lemma readNode_moves:
  assumes "readNode c = (Some node, c')"
  shows "cur_buffer c' = cur_buffer c \<and> m_currentPos c' = m_currentPos c + 12 \<and> m_currentPos c' < length (cur_buffer c)"
  using assms
  by (auto simp: readNode_def readByte_def readU24_def readU32_def Let_def bind_eq_Some_conv dest!: cursor_read_inside split: prod.splits)

text \<open>A path always fits the array of 64 characters.\<close>

lemma path_dirs_fits: "path_dirs it is path = Some p \<Longrightarrow> length path < 64 \<Longrightarrow> length p < 64"
  by (induction "is" arbitrary: path) (auto simp: bind_eq_Some_conv printed_def)

lemma iter_getPath_fits: "iter_getPath it name = Some p \<Longrightarrow> length p < 64"
  by (auto simp: iter_getPath_def bind_eq_Some_conv printed_def dest!: path_dirs_fits split: option.splits)

end
