(* ===== verification/Console_History.thy ===== *)
theory Console_History
  imports Prelude
begin

text \<open>
  \<open>payload/game/system/Console.c\<close>: the lines the console in the game keeps and how long they stay visible; and
  \<open>payload/sp/TypingBuffer.h\<close>: a line that is being typed.  Strings are the bytes before their zero.  The
  transparency of the text, a float in the code, is counted in 120ths and 15ths; the drawing is not modelled.
\<close>

section \<open>The history of lines\<close>

definition LINES :: nat where "LINES = 24"

definition LINE_SIZE :: nat where "LINE_SIZE = 256"

record game_console =
  sInit :: bool
  sLineVisible :: bool
  sConsoleAlpha :: int
  sLineAlpha :: int
  sFramesSinceLastOpen :: u32
  sLastLine :: bytes
  sHistory :: "bytes list"
  sHistoryCursor :: nat

text \<open>The bytes of \<open>&r&f\<close>.\<close>

definition line_prefix :: bytes where
  "line_prefix = [0x26, 0x72, 0x26, 0x66]"

definition AppendToHistory :: "bytes \<Rightarrow> game_console \<Rightarrow> game_console option" where
  "AppendToHistory s c =
     (let c = (if sHistoryCursor c \<ge> LINES
               then c\<lparr>sHistory := drop 1 (sHistory c) @ [last (sHistory c)], sHistoryCursor := sHistoryCursor c - 1\<rparr> else c)
      in do {
        ensure (sHistoryCursor c < LINES);
        h \<leftarrow> wr (sHistory c) (sHistoryCursor c) (take (LINE_SIZE - 2) (line_prefix @ s));
        Some (c\<lparr>sHistory := h, sHistoryCursor := sHistoryCursor c + 1\<rparr>) })"

definition Console_stateDefault :: "int \<Rightarrow> game_console \<Rightarrow> game_console" where
  "Console_stateDefault frames c = c\<lparr>
     sConsoleAlpha := (if frames < 120 then 120 else if frames < 240 then 240 - frames else 0),
     sLineAlpha := (if frames < 15 then 15 - frames else 0),
     sLineVisible := frames < 15\<rparr>"

definition GameConsole_init :: "game_console \<Rightarrow> game_console" where
  "GameConsole_init c = (if sInit c then c else c\<lparr>sInit := True\<rparr>)"

text \<open>The lines a frame draws; the counter of frames stops at its greatest value.\<close>

definition GameConsole_draw :: "game_console \<Rightarrow> bytes list \<times> game_console" where
  "GameConsole_draw c =
     (if \<not> sInit c then ([], c)
      else
        let c = (if sFramesSinceLastOpen c < 0xffffffff then c\<lparr>sFramesSinceLastOpen := sFramesSinceLastOpen c + 1\<rparr> else c);
            c = Console_stateDefault (sint (sFramesSinceLastOpen c)) c
        in if sConsoleAlpha c = 0 \<and> \<not> sLineVisible c then ([], c)
           else ((if sConsoleAlpha c \<noteq> 0 then take (sHistoryCursor c) (sHistory c) else []) @
             (if sLineVisible c then [sLastLine c] else []), c))"

definition GameConsole_addLine :: "bytes \<Rightarrow> game_console \<Rightarrow> game_console option" where
  "GameConsole_addLine s c = AppendToHistory s (c\<lparr>sFramesSinceLastOpen := 0, sLastLine := take 63 s\<rparr>)"

text \<open>\<open>formatted\<close> is what \<open>vsnprintf\<close> makes of the message.\<close>

definition GameConsole_vprintf :: "bytes \<Rightarrow> bytes \<Rightarrow> game_console \<Rightarrow> game_console option" where
  "GameConsole_vprintf pre formatted = GameConsole_addLine (take 511 (pre @ take 511 formatted))"

text \<open>The lines are kept in order, the newest \<open>LINES\<close> of them.\<close>

definition kept_lines :: "game_console \<Rightarrow> bytes list" where
  "kept_lines c = take (sHistoryCursor c) (sHistory c)"

definition history_ok :: "game_console \<Rightarrow> bool" where
  "history_ok c \<longleftrightarrow> length (sHistory c) = LINES \<and> sHistoryCursor c \<le> LINES"

definition newest :: "nat \<Rightarrow> 'a list \<Rightarrow> 'a list" where
  "newest n xs = drop (length xs - n) xs"

lemma AppendToHistory_keeps:
  assumes "history_ok c"
  shows "\<exists>c'. AppendToHistory s c = Some c' \<and> history_ok c' \<and>
    kept_lines c' = newest LINES (kept_lines c @ [take (LINE_SIZE - 2) (line_prefix @ s)])"
proof (cases "sHistoryCursor c \<ge> LINES")
  case True
  then have "sHistoryCursor c = 24" "length (sHistory c) = 24" using assms by (simp_all add: history_ok_def LINES_def)
  then show ?thesis by (simp add: AppendToHistory_def LINES_def history_ok_def kept_lines_def newest_def wr_def ensure_def
      list_update_append Let_def)
next
  case False
  then show ?thesis using assms
    by (simp add: AppendToHistory_def Let_def history_ok_def kept_lines_def newest_def wr_def ensure_def take_Suc_conv_app_nth)
qed

lemma newest_newest: "newest n (newest n xs @ [x]) = newest n (xs @ [x])"
  by (cases "length xs \<le> n") (auto simp: newest_def Suc_diff_le not_le)

lemma add_lines_newest:
  assumes "history_ok c"
  shows "\<exists>c'. fold (\<lambda>s r. Option.bind r (GameConsole_addLine s)) ss (Some c) = Some c' \<and> history_ok c' \<and>
    (kept_lines c = newest LINES xs \<longrightarrow> kept_lines c' = newest LINES (xs @ map (\<lambda>s. take (LINE_SIZE - 2) (line_prefix @ s)) ss))"
  using assms
proof (induction ss arbitrary: c xs)
  case (Cons s ss)
  have ok: "history_ok (c\<lparr>sFramesSinceLastOpen := 0, sLastLine := take 63 s\<rparr>)" using Cons.prems by (simp add: history_ok_def)
  obtain c' where c': "GameConsole_addLine s c = Some c'" "history_ok c'"
    "kept_lines c' = newest LINES (kept_lines c @ [take (LINE_SIZE - 2) (line_prefix @ s)])"
    using AppendToHistory_keeps [OF ok, of s] by (auto simp: GameConsole_addLine_def kept_lines_def)
  show ?case using Cons.IH [OF c'(2), of "xs @ [take (LINE_SIZE - 2) (line_prefix @ s)]"] c'(1,3)
    by (auto simp: newest_newest)
qed auto

text \<open>From the 240th frame without a new line on nothing is drawn.\<close>

lemma state_faded: "240 \<le> frames \<Longrightarrow> sConsoleAlpha (Console_stateDefault frames c) = 0 \<and> \<not> sLineVisible (Console_stateDefault frames c)"
  by (simp add: Console_stateDefault_def)

lemma draw_faded:
  assumes "240 \<le> sint (sFramesSinceLastOpen (snd (GameConsole_draw c)))"
  shows "fst (GameConsole_draw c) = []"
  using assms state_faded by (auto simp: GameConsole_draw_def Let_def Console_stateDefault_def split: if_splits)

section \<open>A line that is being typed\<close>

record TypingBuffer =
  tb_buf :: bytes
  tb_len :: nat

definition TypingBuffer_Init :: TypingBuffer where
  "TypingBuffer_Init = \<lparr>tb_buf = replicate 64 0, tb_len = 0\<rparr>"

definition TypingBuffer_IsExhausted :: "TypingBuffer \<Rightarrow> bool" where
  "TypingBuffer_IsExhausted b \<longleftrightarrow> tb_len b \<ge> 63"

definition TypingBuffer_Append :: "u8 \<Rightarrow> TypingBuffer \<Rightarrow> TypingBuffer option" where
  "TypingBuffer_Append c b =
     (if TypingBuffer_IsExhausted b then Some b
      else do { buf \<leftarrow> wr (tb_buf b) (tb_len b) c; Some (b\<lparr>tb_buf := buf, tb_len := tb_len b + 1\<rparr>) })"

definition TypingBuffer_Backspace :: "TypingBuffer \<Rightarrow> TypingBuffer option" where
  "TypingBuffer_Backspace b = do {
     ensure (tb_len b < 64);
     if tb_len b > 0 then do { buf \<leftarrow> wr (tb_buf b) (tb_len b - 1) 0; Some (b\<lparr>tb_buf := buf, tb_len := tb_len b - 1\<rparr>) }
     else Some b }"

definition TypingBuffer_DeleteFromFront :: "nat \<Rightarrow> TypingBuffer \<Rightarrow> TypingBuffer option" where
  "TypingBuffer_DeleteFromFront n b = do {
     ensure (tb_len b < 64);
     ensure (n < 64);
     ensure (n \<le> tb_len b);
     let remaining = tb_len b - n;
     buf \<leftarrow> (if remaining > 0 then do { xs \<leftarrow> rd_n (tb_buf b) n remaining; wr_n (tb_buf b) 0 xs } else Some (tb_buf b));
     buf \<leftarrow> (if remaining < 64 then wr buf remaining 0 else Some buf);
     Some (b\<lparr>tb_buf := buf, tb_len := remaining\<rparr>) }"

definition typed :: "TypingBuffer \<Rightarrow> bytes" where
  "typed b = take (tb_len b) (tb_buf b)"

definition typing_ok :: "TypingBuffer \<Rightarrow> bool" where
  "typing_ok b \<longleftrightarrow> length (tb_buf b) = 64 \<and> tb_len b \<le> 63"

lemma typing_ok_Init: "typing_ok TypingBuffer_Init" "typed TypingBuffer_Init = []"
  by (simp_all add: typing_ok_def TypingBuffer_Init_def typed_def)

lemma Append_typed:
  "typing_ok b \<Longrightarrow> \<exists>b'. TypingBuffer_Append c b = Some b' \<and> typing_ok b' \<and> typed b' = take 63 (typed b @ [c])"
  by (auto simp: TypingBuffer_Append_def TypingBuffer_IsExhausted_def typing_ok_def typed_def wr_def take_Suc_conv_app_nth min_def)

lemma Backspace_typed: "typing_ok b \<Longrightarrow> \<exists>b'. TypingBuffer_Backspace b = Some b' \<and> typing_ok b' \<and> typed b' = butlast (typed b)"
  by (auto simp: TypingBuffer_Backspace_def typing_ok_def typed_def wr_def ensure_def butlast_take)

lemma DeleteFromFront_typed:
  assumes "typing_ok b" "n \<le> tb_len b"
  shows "\<exists>b'. TypingBuffer_DeleteFromFront n b = Some b' \<and> typing_ok b' \<and> typed b' = drop n (typed b)"
  using assms
  by (auto simp: TypingBuffer_DeleteFromFront_def typing_ok_def typed_def wr_def wr_n_def rd_n_def ensure_def splice_def
      drop_take min_def Let_def)

text \<open>
  As a string that ends at its zero the buffer is not what has been typed: behind the zero that a deletion at the
  front writes are old characters, which the next character brings back.
\<close>

lemma Append_after_delete:
  "map_option (\<lambda>b. (typed b, takeWhile (\<lambda>x. x \<noteq> 0) (tb_buf b)))
     (Option.bind (Option.bind (fold (\<lambda>c r. Option.bind r (TypingBuffer_Append c)) [97, 98, 99, 100] (Some TypingBuffer_Init))
       (TypingBuffer_DeleteFromFront 2)) (TypingBuffer_Append 120)) =
   Some ([99, 100, 120], [99, 100, 120, 100])"
  by code_simp

end
