(* ===== verification/Stub_Archive.thy ===== *)
theory Stub_Archive
  imports Byte_IO
begin

text \<open>
  \<open>stub/Archive.cc\<close>: the archive the stub starts the program from.  It is a list of entries, files and
  directories in the order of a walk through the tree, a table of names, and the contents.  Lookup of paths is
  proved to be the search in the tree.
\<close>

section \<open>The code\<close>

record archive =
  ar_data :: bytes
  ar_size :: u32
  ar_entriesOffset :: u32
  ar_entryCount :: u32
  ar_stringsOffset :: u32
  ar_stringsSize :: u32
  ar_ok :: bool

text \<open>The template \<open>read\<close> at 8 and 32 bits; the offset is an \<open>u32\<close> that wraps.\<close>

definition ar_read8 :: "bytes \<Rightarrow> u32 \<Rightarrow> u8 option" where
  "ar_read8 data offset = rd data (unat offset)"

definition ar_read32 :: "bytes \<Rightarrow> u32 \<Rightarrow> u32 option" where
  "ar_read32 data offset = do {
     b0 \<leftarrow> rd data (unat offset); b1 \<leftarrow> rd data (unat (offset + 1));
     b2 \<leftarrow> rd data (unat (offset + 2)); b3 \<leftarrow> rd data (unat (offset + 3));
     Some (push_bit 24 (ucast b0) OR push_bit 16 (ucast b1) OR push_bit 8 (ucast b2) OR ucast b3)
   }"

definition Archive_new :: "bytes \<Rightarrow> u32 \<Rightarrow> archive option" where
  "Archive_new data sz =
     (let a = \<lparr>ar_data = data, ar_size = sz, ar_entriesOffset = 0, ar_entryCount = 0, ar_stringsOffset = 0, ar_stringsSize = 0, ar_ok = False\<rparr>
      in if sz < 0x20 + 0xc then Some a
         else do {
           magic \<leftarrow> ar_read32 data 0x0;
           if magic \<noteq> 0x55AA382D then Some a
           else do {
             metadataSize \<leftarrow> ar_read32 data 0x8;
             if metadataSize > 0x20 + sz then Some a
             else do {
               entriesOffset \<leftarrow> ar_read32 data 0x4;
               let a = a\<lparr>ar_entriesOffset := entriesOffset\<rparr>;
               if entriesOffset > sz \<or> entriesOffset + 0xc > sz then Some a
               else do {
                 entryCount \<leftarrow> ar_read32 data (entriesOffset + 0x8);
                 let a = a\<lparr>ar_entryCount := entryCount\<rparr>;
                 if entriesOffset + entryCount * 0xc > sz \<or> entryCount * 0xc > metadataSize then Some a
                 else
                   let stringsOffset = entriesOffset + entryCount * 0xc;
                       stringsSize = metadataSize - entryCount * 0xc;
                       a = a\<lparr>ar_stringsOffset := stringsOffset, ar_stringsSize := stringsSize\<rparr>
                   in Some (if stringsOffset > sz \<or> stringsOffset + stringsSize > sz then a else a\<lparr>ar_ok := True\<rparr>)
               }
             }
           }
         })"

text \<open>
  The variants of \<open>get\<close>: nothing, a file with its number, name, offset and size, a directory with its number,
  name, parent and the number behind its last entry.  A name is the string up to its zero.
\<close>

datatype ar_entry = No_Entry | File_Entry u32 bytes u32 u32 | Dir_Entry u32 bytes u32 u32

text \<open>The loop of \<open>getString\<close> over at most \<open>n\<close> characters.\<close>

primrec string_end :: "bytes \<Rightarrow> nat \<Rightarrow> nat \<Rightarrow> nat option option" where
  "string_end data k 0 = Some None"
| "string_end data k (Suc n) = do { c \<leftarrow> rd data k; if c = 0 then Some (Some k) else string_end data (k + 1) n }"

definition ar_getString :: "archive \<Rightarrow> u32 \<Rightarrow> bytes option option" where
  "ar_getString a offset = do {
     e \<leftarrow> string_end (ar_data a) (unat offset) (unat (ar_size a) - unat offset);
     Some (map_option (\<lambda>e. take (e - unat offset) (drop (unat offset) (ar_data a))) e)
   }"

definition ar_get :: "archive \<Rightarrow> u32 \<Rightarrow> ar_entry option" where
  "ar_get a entrynum =
     (if \<not> ar_ok a \<or> entrynum \<ge> ar_entryCount a then Some No_Entry
      else do {
        let offset = ar_entriesOffset a + entrynum * 0xc;
        w \<leftarrow> ar_read32 (ar_data a) offset;
        name \<leftarrow> ar_getString a (ar_stringsOffset a + (w AND 0xffffff));
        case name of None \<Rightarrow> Some No_Entry
        | Some name \<Rightarrow> do {
            isDir \<leftarrow> ar_read8 (ar_data a) offset;
            x \<leftarrow> ar_read32 (ar_data a) (offset + 0x4);
            y \<leftarrow> ar_read32 (ar_data a) (offset + 0x8);
            if isDir \<noteq> 0 then
              Some (if x \<ge> ar_entryCount a \<or> y > ar_entryCount a then No_Entry
                else if y \<le> entrynum then No_Entry
                else Dir_Entry entrynum name x y)
            else Some (if x > ar_size a \<or> x + y > ar_size a then No_Entry else File_Entry entrynum name x y)
          }
      })"

definition entry_name :: "ar_entry \<Rightarrow> bytes option" where
  "entry_name e = (case e of No_Entry \<Rightarrow> None | File_Entry k n s l \<Rightarrow> Some n | Dir_Entry k n p x \<Rightarrow> Some n)"

text \<open>
  The loop over the entries of a directory, from \<open>k\<close> to \<open>stop\<close>: where it ends and with which entry, or
  \<^term>\<open>None\<close> inside when an entry is invalid.  \<open>strncmp\<close> compares the first \<open>n\<close> characters.
\<close>

function find_child :: "archive \<Rightarrow> bytes \<Rightarrow> nat \<Rightarrow> u32 \<Rightarrow> u32 \<Rightarrow> ar_entry \<Rightarrow> (u32 \<times> ar_entry) option option" where
  "find_child a path n stop k entry =
     (if \<not> k < stop then Some (Some (k, entry))
      else do {
        entry \<leftarrow> ar_get a k;
        case entry_name entry of None \<Rightarrow> Some None
        | Some name \<Rightarrow>
            if take n name = take n path then Some (Some (k, entry))
            else find_child a path n stop (case entry of Dir_Entry _ _ _ nxt \<Rightarrow> nxt | _ \<Rightarrow> k + 1) entry
      })"
  by pat_completeness auto

lemma ar_get_Dir: "ar_get a k = Some (Dir_Entry i n p x) \<Longrightarrow> i = k \<and> k < x"
  by (auto simp: ar_get_def Let_def bind_eq_Some_conv split: if_splits option.splits)

lemma unat_Suc_less: "k < (stop :: u32) \<Longrightarrow> unat (k + 1) = unat k + 1"
proof -
  assume less: "k < stop"
  have "unat stop < 2 ^ LENGTH(32)" by (rule unsigned_less)
  then show ?thesis using less by (simp add: word_less_nat_alt unat_word_ariths)
qed

termination find_child
proof (relation "measure (\<lambda>(a, path, n, stop, k, entry). unat stop - unat k)", goal_cases)
  case (2 a path n stop k entry x name)
  then show ?case
    by (auto simp: word_less_nat_alt unat_Suc_less split: ar_entry.splits dest!: ar_get_Dir)
qed simp

declare find_child.simps [simp del]

function get_path_loop :: "archive \<Rightarrow> bytes \<Rightarrow> ar_entry \<Rightarrow> ar_entry option" where
  "get_path_loop a path entry =
     (case entry of
        Dir_Entry num _ _ nxt \<Rightarrow>
          if path = [] then Some entry
          else do {
            let n = length (takeWhile (\<lambda>c. c \<noteq> 0x2f) path);
            r \<leftarrow> find_child a path n nxt (num + 1) entry;
            case r of None \<Rightarrow> Some No_Entry
            | Some (k, entry) \<Rightarrow> if k = nxt then Some No_Entry else get_path_loop a (drop (n + 1) path) entry
          }
      | _ \<Rightarrow> Some (if path \<noteq> [] then No_Entry else entry))"
  by pat_completeness auto
termination
  by (relation "measure (\<lambda>(a, path, entry). length path)") auto

declare get_path_loop.simps [simp del]

definition ar_get_path :: "archive \<Rightarrow> bytes \<Rightarrow> ar_entry option" where
  "ar_get_path a path = do { entry \<leftarrow> ar_get a 0; get_path_loop a path entry }"

section \<open>The tree\<close>

datatype ar_tree = TFile bytes u32 u32 | TDir bytes "ar_tree list"

primrec tree_name :: "ar_tree \<Rightarrow> bytes" where
  "tree_name (TFile n s l) = n"
| "tree_name (TDir n ts) = n"

primrec nodes :: "ar_tree \<Rightarrow> nat" where
  "nodes (TFile n s l) = 1"
| "nodes (TDir n ts) = 1 + sum_list (map nodes ts)"

text \<open>The entry of the root of a tree whose entries start at \<open>k\<close>, and that an archive holds a tree there.\<close>

definition is_entry :: "nat \<Rightarrow> ar_tree \<Rightarrow> ar_entry \<Rightarrow> bool" where
  "is_entry k t e = (case e of
     No_Entry \<Rightarrow> False
   | File_Entry i n s l \<Rightarrow> unat i = k \<and> t = TFile n s l
   | Dir_Entry i n p x \<Rightarrow> unat i = k \<and> (case t of TFile _ _ _ \<Rightarrow> False | TDir n' ts \<Rightarrow> n' = n \<and> unat x = k + nodes t))"

fun ar_holds :: "archive \<Rightarrow> nat \<Rightarrow> ar_tree \<Rightarrow> bool"
  and ar_holds_all :: "archive \<Rightarrow> nat \<Rightarrow> ar_tree list \<Rightarrow> bool" where
  "ar_holds a k (TFile n s l) = (k < unat (ar_entryCount a) \<and> (case ar_get a (of_nat k) of None \<Rightarrow> False | Some e \<Rightarrow> is_entry k (TFile n s l) e))"
| "ar_holds a k (TDir n ts) =
     (k < unat (ar_entryCount a) \<and> (case ar_get a (of_nat k) of None \<Rightarrow> False | Some e \<Rightarrow> is_entry k (TDir n ts) e) \<and> ar_holds_all a (k + 1) ts)"
| "ar_holds_all a k [] = True"
| "ar_holds_all a k (t # ts) = (ar_holds a k t \<and> ar_holds_all a (k + nodes t) ts)"

text \<open>The search: in a directory, the first child whose name starts with the next component of the path.\<close>

function tree_lookup :: "ar_tree \<Rightarrow> bytes \<Rightarrow> ar_tree option" where
  "tree_lookup t path =
     (if path = [] then Some t
      else case t of TFile _ _ _ \<Rightarrow> None
      | TDir _ ts \<Rightarrow>
          let c = takeWhile (\<lambda>c. c \<noteq> 0x2f) path
          in case find (\<lambda>t. take (length c) (tree_name t) = c) ts of
               None \<Rightarrow> None
             | Some t \<Rightarrow> tree_lookup t (drop (length c + 1) path))"
  by pat_completeness auto
termination
  by (relation "measure (\<lambda>(t, path). length path)") auto

declare tree_lookup.simps [simp del]

lemma word_of_nat_unat: "of_nat (unat w) = w"
  by (simp add: word_eq_iff_unsigned)

lemma holds_get: "ar_holds a k t \<Longrightarrow> \<exists>e. ar_get a (of_nat k) = Some e \<and> is_entry k t e \<and> k < unat (ar_entryCount a)"
  by (cases t) (auto split: option.splits)

lemma holds_unat: "ar_holds a k t \<Longrightarrow> unat (of_nat k :: u32) = k"
proof -
  assume "ar_holds a k t"
  moreover have "unat (ar_entryCount a) < 2 ^ LENGTH(32)" by (rule unsigned_less)
  ultimately show "unat (of_nat k :: u32) = k" by (auto dest!: holds_get simp: unsigned_of_nat take_bit_nat_eq_self_iff)
qed

lemma is_entry_name: "is_entry k t e \<Longrightarrow> entry_name e = Some (tree_name t)"
  by (auto simp: is_entry_def entry_name_def split: ar_entry.splits ar_tree.splits)

lemma nodes_pos [simp]: "0 < nodes t"
  by (cases t) auto

lemma is_entry_next:
  assumes "is_entry k t e" and "k < unat (stop :: u32)"
  shows "unat (case e of Dir_Entry i n p x \<Rightarrow> x | _ \<Rightarrow> of_nat k + 1) = k + nodes t"
proof -
  have "unat stop < 2 ^ LENGTH(32)" by (rule unsigned_less)
  then have "unat (of_nat (k + 1) :: u32) = k + 1" using assms(2) by (simp add: unsigned_of_nat take_bit_nat_eq_self_iff del: of_nat_add of_nat_Suc)
  then show ?thesis using assms(1)
    by (auto simp: is_entry_def add.commute split: ar_entry.splits ar_tree.splits)
qed

lemma find_child_holds:
  assumes "ar_holds_all a k ts" and "unat stop = k + sum_list (map nodes ts)"
  shows "\<exists>k' e'. find_child a path n stop (of_nat k) e = Some (Some (k', e')) \<and>
    (case find (\<lambda>t. take n (tree_name t) = take n path) ts of
       None \<Rightarrow> k' = stop
     | Some t \<Rightarrow> k' \<noteq> stop \<and> ar_holds a (unat k') t \<and> is_entry (unat k') t e')"
  using assms
proof (induction ts arbitrary: k e)
  case Nil
  then have "of_nat k = stop" by (metis add.right_neutral sum_list.Nil list.simps(8) word_of_nat_unat)
  then show ?case by (subst find_child.simps) simp
next
  case (Cons t ts)
  obtain e1 where e1: "ar_get a (of_nat k) = Some e1" "is_entry k t e1" and k: "unat (of_nat k :: u32) = k"
    using Cons.prems(1) holds_get [of a k t] holds_unat [of a k t] by auto
  have less: "k < unat stop" using Cons.prems(2) nodes_pos [of t] by simp
  have step: "find_child a path n stop (of_nat k) e =
      (if take n (tree_name t) = take n path then Some (Some (of_nat k, e1))
       else find_child a path n stop (of_nat (k + nodes t)) e1)"
  proof -
    have "(case e1 of Dir_Entry i n p x \<Rightarrow> x | _ \<Rightarrow> of_nat k + 1) = (of_nat (k + nodes t) :: u32)"
      by (metis is_entry_next [OF e1(2) less] word_of_nat_unat)
    then show ?thesis
      using less k e1 by (subst find_child.simps) (simp add: word_less_nat_alt is_entry_name)
  qed
  show ?case
  proof (cases "take n (tree_name t) = take n path")
    case True
    then show ?thesis using step k less e1(2) Cons.prems(1) by auto
  next
    case False
    then show ?thesis using step Cons.IH [of "k + nodes t" e1] Cons.prems by (simp add: add.assoc)
  qed
qed

lemma get_path_dir:
  fixes path :: bytes
  defines "c \<equiv> takeWhile (\<lambda>c. c \<noteq> 0x2f) path"
  assumes "is_entry k (TDir name ts) e" and "ar_holds a k (TDir name ts)" and "path \<noteq> []"
  shows "case find (\<lambda>t. take (length c) (tree_name t) = c) ts of
      None \<Rightarrow> get_path_loop a path e = Some No_Entry
    | Some t \<Rightarrow> \<exists>k' e'. ar_holds a k' t \<and> is_entry k' t e' \<and>
        get_path_loop a path e = get_path_loop a (drop (length c + 1) path) e'"
proof -
  have c: "take (length c) path = c" by (simp add: c_def takeWhile_eq_take [symmetric])
  obtain num p nxt where e: "e = Dir_Entry num name p nxt" "unat num = k" "unat nxt = (k + 1) + sum_list (map nodes ts)"
    using assms(2) by (auto simp: is_entry_def split: ar_entry.splits)
  have num: "num + 1 = of_nat (k + 1)" using e(2) by (auto simp: add.commute)
  obtain k' e' where found: "find_child a path (length c) nxt (num + 1) e = Some (Some (k', e'))"
    and child: "case find (\<lambda>t. take (length c) (tree_name t) = c) ts of None \<Rightarrow> k' = nxt
      | Some t \<Rightarrow> k' \<noteq> nxt \<and> ar_holds a (unat k') t \<and> is_entry (unat k') t e'"
    using find_child_holds [of a "k + 1" ts nxt path "length c" e] assms(3) e(3) num c by auto
  have "get_path_loop a path e = (if k' = nxt then Some No_Entry else get_path_loop a (drop (length c + 1) path) e')"
    using found \<open>path \<noteq> []\<close> by (subst get_path_loop.simps) (simp add: e(1) c_def [symmetric] Let_def)
  then show ?thesis using child by (auto split: option.splits)
qed

lemma get_path_loop_lookup:
  "is_entry k t e \<Longrightarrow> ar_holds a k t \<Longrightarrow>
   \<exists>e'. get_path_loop a path e = Some e' \<and>
     (case tree_lookup t path of None \<Rightarrow> e' = No_Entry | Some t' \<Rightarrow> \<exists>k'. ar_holds a k' t' \<and> is_entry k' t' e')"
proof (induction path arbitrary: k t e rule: length_induct)
  case (1 path)
  show ?case
  proof (cases "path = []")
    case True
    then show ?thesis using 1 by (auto simp: get_path_loop.simps [of a] tree_lookup.simps [of t] split: ar_entry.splits)
  next
    case nonempty: False
    show ?thesis
    proof (cases t)
      case (TFile n s l)
      then show ?thesis using 1 nonempty
        by (auto simp: get_path_loop.simps [of a] tree_lookup.simps [of "TFile n s l"] is_entry_def split: ar_entry.splits)
    next
      case (TDir name ts)
      define c where "c = takeWhile (\<lambda>c. c \<noteq> 0x2f) path"
      have "tree_lookup t path = (case find (\<lambda>t. take (length c) (tree_name t) = c) ts of
          None \<Rightarrow> None | Some t' \<Rightarrow> tree_lookup t' (drop (length c + 1) path))"
        using nonempty by (subst tree_lookup.simps) (simp add: TDir c_def [symmetric] Let_def)
      moreover have "length (drop (length c + 1) path) < length path" using nonempty by (cases path) auto
      ultimately show ?thesis using get_path_dir [of k name ts e a path] 1 nonempty TDir
        by (fastforce simp: c_def [symmetric] split: option.splits)
    qed
  qed
qed

text \<open>C23: Looking up a path in an archive of the stub is the search in the tree the archive holds: in
  each directory the first child whose name starts with the next component is taken, and an entry
  is found exactly when that search finds one.\<close>

theorem archive_lookup:
  assumes "ar_holds a 0 t"
  shows "\<exists>e. ar_get_path a path = Some e \<and>
    (case tree_lookup t path of None \<Rightarrow> e = No_Entry | Some t' \<Rightarrow> \<exists>k. ar_holds a k t' \<and> is_entry k t' e)"
  using holds_get [OF assms] get_path_loop_lookup [OF _ assms] by (auto simp: ar_get_path_def)

section \<open>Safety\<close>

text \<open>What the constructor has checked, when the entries do not wrap around.\<close>

definition ar_safe :: "archive \<Rightarrow> bool" where
  "ar_safe a \<longleftrightarrow> length (ar_data a) = unat (ar_size a) \<and>
     unat (ar_entriesOffset a) + unat (ar_entryCount a) * 12 \<le> unat (ar_size a)"

lemma ar_read32_total:
  "length data < 2 ^ 32 \<Longrightarrow> unat k + 4 \<le> length data \<Longrightarrow> ar_read32 data k \<noteq> None"
  by (simp add: ar_read32_def unat_word_ariths)

lemma string_end_total: "k + n \<le> length data \<Longrightarrow> \<exists>e. string_end data k n = Some e \<and> (\<forall>i. e = Some i \<longrightarrow> i < length data)"
  by (induction n arbitrary: k) (auto simp: rd_def)

lemma ar_getString_total: "ar_safe a \<Longrightarrow> ar_getString a k \<noteq> None"
proof (cases "unat k \<le> unat (ar_size a)")
  case True
  then show "ar_safe a \<Longrightarrow> ar_getString a k \<noteq> None"
    using string_end_total [of "unat k" "unat (ar_size a) - unat k" "ar_data a"]
    by (auto simp: ar_getString_def ar_safe_def)
next
  case False
  then show "ar_safe a \<Longrightarrow> ar_getString a k \<noteq> None" by (simp add: ar_getString_def)
qed

lemma ar_get_total:
  assumes "ar_safe a"
  shows "ar_get a k \<noteq> None"
proof (cases "ar_ok a \<and> k < ar_entryCount a")
  case True
  have less: "unat (ar_size a) < 2 ^ LENGTH(32)" by (rule unsigned_less)
  have fits: "unat (ar_entriesOffset a) + unat k * 12 + 12 \<le> unat (ar_size a)"
    using True assms by (simp add: ar_safe_def word_less_nat_alt)
  have off: "unat (ar_entriesOffset a + k * 0xc) = unat (ar_entriesOffset a) + unat k * 12"
    using fits less by (simp add: unat_word_ariths)
  have off4: "unat (ar_entriesOffset a + k * 0xc + 0x4) = unat (ar_entriesOffset a) + unat k * 12 + 4"
    using fits less off by (simp add: unat_word_ariths)
  have off8: "unat (ar_entriesOffset a + k * 0xc + 0x8) = unat (ar_entriesOffset a) + unat k * 12 + 8"
    using fits less off by (simp add: unat_word_ariths)
  have len: "length (ar_data a) = unat (ar_size a)" using assms by (simp add: ar_safe_def)
  have "ar_read32 (ar_data a) (ar_entriesOffset a + k * 0xc) \<noteq> None"
    by (rule ar_read32_total) (use fits less off len in simp_all)
  moreover have "ar_read32 (ar_data a) (ar_entriesOffset a + k * 0xc + 0x4) \<noteq> None"
    by (rule ar_read32_total) (use fits less off4 len in simp_all)
  moreover have "ar_read32 (ar_data a) (ar_entriesOffset a + k * 0xc + 0x8) \<noteq> None"
    by (rule ar_read32_total) (use fits less off8 len in simp_all)
  moreover have "ar_read8 (ar_data a) (ar_entriesOffset a + k * 0xc) \<noteq> None"
    using fits off len by (simp add: ar_read8_def)
  ultimately show ?thesis using ar_getString_total [OF assms] by (auto simp: ar_get_def Let_def fault_simps simp del: not_None_eq split: option.splits if_splits)
next
  case False
  then show ?thesis by (auto simp: ar_get_def)
qed

lemma find_child_total: "ar_safe a \<Longrightarrow> find_child a path n stop k e \<noteq> None"
proof (induction a path n stop k e rule: find_child.induct)
  case (1 a path n stop k e)
  obtain x where "ar_get a k = Some x" using ar_get_total [OF 1(2)] by fastforce
  then show ?case using 1 by (simp add: find_child.simps [of a] split: option.split del: not_None_eq)
qed

lemma get_path_loop_total: "ar_safe a \<Longrightarrow> get_path_loop a path e \<noteq> None"
proof (induction path arbitrary: e rule: length_induct)
  case (1 path)
  show ?case
  proof (cases "\<exists>i n p x. e = Dir_Entry i n p x \<and> path \<noteq> []")
    case True
    then obtain i n p x where e: "e = Dir_Entry i n p x" "path \<noteq> []" by auto
    define c where "c = length (takeWhile (\<lambda>c. c \<noteq> 0x2f) path)"
    obtain r where r: "find_child a path c x (i + 1) e = Some r"
      using find_child_total [OF 1(2)] by fastforce
    have "length (drop (c + 1) path) < length path" using e(2) by (cases path) auto
    then have "get_path_loop a (drop (c + 1) path) e' \<noteq> None" for e' using 1 by blast
    then show ?thesis using r e
      by (subst get_path_loop.simps) (simp add: c_def [symmetric] Let_def split: option.splits del: not_None_eq)
  next
    case False
    then show ?thesis by (subst get_path_loop.simps) (auto split: ar_entry.splits)
  qed
qed

lemma rejected_iff: "ar_ok a \<Longrightarrow> \<not> ar_ok b \<Longrightarrow> (if c then Some b else r) = Some a \<longleftrightarrow> \<not> c \<and> r = Some a"
  by auto

lemma Archive_new_ok:
  assumes "Archive_new data sz = Some a" and "ar_ok a"
  obtains m e c where "m \<le> 0x20 + sz" and "e \<le> sz" and "e + c * 0xc \<le> sz" and "c * 0xc \<le> m"
    and "ar_data a = data" and "ar_size a = sz" and "ar_entriesOffset a = e" and "ar_entryCount a = c"
proof -
  let ?a = "\<lparr>ar_data = data, ar_size = sz, ar_entriesOffset = 0, ar_entryCount = 0, ar_stringsOffset = 0, ar_stringsSize = 0, ar_ok = False\<rparr>"
  obtain m e c where "\<not> m > 0x20 + sz" and "\<not> (e > sz \<or> e + 0xc > sz)" and "\<not> (e + c * 0xc > sz \<or> c * 0xc > m)"
    and a: "Some (if e + c * 0xc > sz \<or> e + c * 0xc + (m - c * 0xc) > sz
       then ?a\<lparr>ar_entriesOffset := e, ar_entryCount := c, ar_stringsOffset := e + c * 0xc, ar_stringsSize := m - c * 0xc\<rparr>
       else ?a\<lparr>ar_entriesOffset := e, ar_entryCount := c, ar_stringsOffset := e + c * 0xc, ar_stringsSize := m - c * 0xc, ar_ok := True\<rparr>) = Some a"
    using assms(1) unfolding Archive_new_def Let_def
    by (simp only: bind_eq_Some_conv rejected_iff [OF assms(2)] archive.simps simp_thms)
      (elim exE conjE, rule that, simp_all only: archive.simps simp_thms)
  moreover have "ar_data a = data \<and> ar_size a = sz \<and> ar_entriesOffset a = e \<and> ar_entryCount a = c"
    using a by (cases "e + c * 0xc > sz \<or> e + c * 0xc + (m - c * 0xc) > sz") auto
  ultimately show thesis by (intro that [of m e c]) (auto simp: not_less)
qed

lemma Archive_new_safe:
  assumes "Archive_new data sz = Some a" and "ar_ok a" and "length data = unat sz" and "sz < 0x40000000"
    and "unat (ar_entryCount a) * 12 < 2 ^ 32"
  shows "ar_safe a \<and> ar_size a = sz \<and> ar_data a = data"
proof -
  have a: "ar_data a = data" "ar_size a = sz" "ar_entriesOffset a + ar_entryCount a * 0xc \<le> sz" "ar_entriesOffset a \<le> sz"
    and "\<exists>m. m \<le> 0x20 + sz \<and> ar_entryCount a * 0xc \<le> m"
    using assms(1,2) by (auto elim!: Archive_new_ok)
  then obtain m where m: "m \<le> 0x20 + sz" "ar_entryCount a * 0xc \<le> m" by blast
  have count: "unat (ar_entryCount a * 0xc) = unat (ar_entryCount a) * 12" using assms(5) by (simp add: unat_word_ariths)
  have "unat (0x20 + sz) = 0x20 + unat sz" using assms(4) by (simp add: unat_word_ariths word_less_nat_alt)
  then have "unat (ar_entryCount a) * 12 \<le> 0x20 + unat sz" using m count by (simp add: word_le_nat_alt)
  then have "unat (ar_entriesOffset a + ar_entryCount a * 0xc) = unat (ar_entriesOffset a) + unat (ar_entryCount a) * 12"
    using a(4) assms(4) count by (auto simp: unat_word_ariths word_less_nat_alt word_le_nat_alt intro!: mod_less)
  then show ?thesis using a assms(3) by (simp add: ar_safe_def word_le_nat_alt)
qed

lemma ar_get_File: "ar_get a k = Some (File_Entry i n s l) \<Longrightarrow> i = k \<and> s \<le> ar_size a \<and> s + l \<le> ar_size a"
  by (auto simp: ar_get_def Let_def bind_eq_Some_conv split: if_splits option.splits)

lemma ar_get_Dir_range: "ar_get a k = Some (Dir_Entry i n p x) \<Longrightarrow> i = k \<and> k < x \<and> x \<le> ar_entryCount a \<and> p < ar_entryCount a"
  using ar_get_Dir [of a k i n p x]
  by (auto simp: ar_get_def Let_def bind_eq_Some_conv split: if_splits option.splits)

text \<open>C24: An archive that the constructor accepts is never read outside of its bytes, whatever entry or
  path is looked up, if its size is below 1 GiB and the size of its entries does not wrap around.
  A file's content is inside the archive unless its end wraps around, a directory ends behind its
  own entry and inside the list.\<close>

theorem archive_reads_inside:
  assumes "length data = unat sz" and "sz < 0x40000000"
    and "Archive_new data sz = Some a" and "ar_ok a" and "unat (ar_entryCount a) * 12 < 2 ^ 32"
  shows "ar_get_path a path \<noteq> None \<and>
    (case ar_get a k of
       Some (File_Entry i n s l) \<Rightarrow> i = k \<and> unat s \<le> length data \<and> (unat s + unat l < 2 ^ 32 \<longrightarrow> unat s + unat l \<le> length data)
     | Some (Dir_Entry i n p x) \<Rightarrow> i = k \<and> k < x \<and> x \<le> ar_entryCount a \<and> p < ar_entryCount a
     | r \<Rightarrow> r = Some No_Entry)"
proof -
  have a: "ar_safe a" "ar_size a = sz" using Archive_new_safe assms by blast+
  have size: "unat s + unat l < 2 ^ 32 \<longrightarrow> unat s + unat l \<le> unat sz" if "s + l \<le> sz" for s l
    using that by (auto simp: word_le_nat_alt unat_word_ariths)
  obtain e where e: "ar_get a k = Some e" using ar_get_total [OF a(1)] by fastforce
  have "ar_get_path a path \<noteq> None"
    using ar_get_total [OF a(1)] get_path_loop_total [OF a(1)] by (auto simp: ar_get_path_def fault_simps simp del: not_None_eq)
  then show ?thesis
    using e size assms(1) a(2) by (auto simp: word_le_nat_alt split: ar_entry.split dest!: ar_get_File ar_get_Dir_range)
qed

text \<open>An archive with \<open>/bin/a\<close> and \<open>/b\<close>, for the witnesses.\<close>

definition example_archive :: bytes where
  "example_archive = [0x55, 0xAA, 0x38, 0x2D, 0, 0, 0, 0x20, 0, 0, 0, 0x39, 0, 0, 0, 0, 0, 0, 0, 0, 0, 0, 0, 0, 0, 0, 0, 0, 0, 0, 0, 0,
     1, 0, 0, 0, 0, 0, 0, 0, 0, 0, 0, 4,
     1, 0, 0, 1, 0, 0, 0, 0, 0, 0, 0, 3,
     0, 0, 0, 5, 0, 0, 0, 0x59, 0, 0, 0, 2,
     0, 0, 0, 7, 0, 0, 0, 0x5b, 0, 0, 0, 1,
     0, 0x62, 0x69, 0x6e, 0, 0x61, 0, 0x62, 0, 0xde, 0xad, 0xbe]"

definition example_tree :: ar_tree where
  "example_tree = TDir [] [TDir [0x62, 0x69, 0x6e] [TFile [0x61] 0x59 2], TFile [0x62] 0x5b 1]"

lemma example_new: "Archive_new example_archive 0x5c = Some \<lparr>ar_data = example_archive, ar_size = 0x5c, ar_entriesOffset = 0x20,
    ar_entryCount = 4, ar_stringsOffset = 0x50, ar_stringsSize = 9, ar_ok = True\<rparr>"
  by code_simp

theorem archive_reads_inside_witness:
  "ar_get_path \<lparr>ar_data = example_archive, ar_size = 0x5c, ar_entriesOffset = 0x20, ar_entryCount = 4, ar_stringsOffset = 0x50,
    ar_stringsSize = 9, ar_ok = True\<rparr> [0x62, 0x2f, 0x61] \<noteq> None"
  using archive_reads_inside [OF _ _ example_new, of "[0x62, 0x2f, 0x61]" 0] by (simp add: example_archive_def)

theorem archive_lookup_witness:
  "\<exists>e k. ar_get_path \<lparr>ar_data = example_archive, ar_size = 0x5c, ar_entriesOffset = 0x20, ar_entryCount = 4, ar_stringsOffset = 0x50,
    ar_stringsSize = 9, ar_ok = True\<rparr> [0x62, 0x69, 0x6e, 0x2f, 0x61] = Some e \<and> is_entry k (TFile [0x61] 0x59 2) e"
proof -
  let ?a = "\<lparr>ar_data = example_archive, ar_size = 0x5c, ar_entriesOffset = 0x20, ar_entryCount = 4, ar_stringsOffset = 0x50,
    ar_stringsSize = 9, ar_ok = True\<rparr>"
  have "ar_holds ?a 0 example_tree" by code_simp
  moreover have "tree_lookup example_tree [0x62, 0x69, 0x6e, 0x2f, 0x61] = Some (TFile [0x61] 0x59 2)" by code_simp
  ultimately show ?thesis using archive_lookup [of ?a example_tree "[0x62, 0x69, 0x6e, 0x2f, 0x61]"] by auto
qed

end
