(* ===== verification/LZMA_Decoder.thy ===== *)
theory LZMA_Decoder
  imports Byte_IO
begin

text \<open>
  \<open>payload/sp/LZMADecoder.cc\<close>: the decoder that drives the LZMA library.  The library is vendored C
  code; its functions are the record \<open>lzma_sdk\<close>, \<open>'l\<close> is its \<open>CLzmaDec\<close> without the dictionary and
  the positions this code uses itself.
\<close>

datatype ELzmaFinishMode = LZMA_FINISH_ANY | LZMA_FINISH_END

datatype ELzmaStatus = LZMA_STATUS_NOT_SPECIFIED | LZMA_STATUS_FINISHED_WITH_MARK | LZMA_STATUS_NOT_FINISHED
  | LZMA_STATUS_NEEDS_MORE_INPUT | LZMA_STATUS_MAYBE_FINISHED_WITHOUT_MARK

text \<open>
  \<open>LzmaDec_DecodeToDic\<close> gets the dictionary, the position in it, the limit and the source, and gives
  whether it returned \<open>SZ_OK\<close>, the new dictionary and position, how much it has read, and the status.
\<close>

record 'l lzma_sdk =
  LzmaDec_Construct :: 'l
  LzmaDec_AllocateProbs :: "bytes \<Rightarrow> 'l \<Rightarrow> bool \<times> 'l"
  LzmaDec_Init :: "'l \<Rightarrow> 'l"
  LzmaDec_DecodeToDic :: "'l \<Rightarrow> bytes option \<Rightarrow> nat \<Rightarrow> nat \<Rightarrow> bytes \<Rightarrow> ELzmaFinishMode \<Rightarrow>
    bool \<times> 'l \<times> bytes option \<times> nat \<times> nat \<times> ELzmaStatus"

text \<open>
  The heap of the game: an allocation, and the resizing of a block in place, which can fail.  The
  content of memory that has not been written is whatever these functions give.
\<close>

record heap =
  heap_alloc :: "nat \<Rightarrow> bytes option"
  heap_resize :: "bytes \<Rightarrow> nat \<Rightarrow> bytes option"

record 'l lzma =
  z_dec :: 'l
  z_dic :: "bytes option"
  z_dicPos :: nat
  z_dicBufSize :: nat
  z_knownDstSize :: bool
  z_ok :: bool
  z_done :: bool

definition LZMA_PROPS_SIZE :: nat where
  "LZMA_PROPS_SIZE = 5"

definition LZMA_HEADER_SIZE :: nat where
  "LZMA_HEADER_SIZE = LZMA_PROPS_SIZE + 8"

definition LZMA_STEP :: nat where
  "LZMA_STEP = 0x20000"

definition lzma_blank :: "'l lzma_sdk \<Rightarrow> 'l lzma" where
  "lzma_blank sdk = \<lparr>z_dec = LzmaDec_Construct sdk, z_dic = None, z_dicPos = 0, z_dicBufSize = 0,
     z_knownDstSize = True, z_ok = False, z_done = False\<rparr>"

definition lzma_new :: "'l lzma_sdk \<Rightarrow> heap \<Rightarrow> bytes \<Rightarrow> 'l lzma option" where
  "lzma_new sdk heap src =
     (let d = lzma_blank sdk
      in if length src < LZMA_HEADER_SIZE then Some d
         else do {
           dstSize \<leftarrow> Bytes_Read Little_Endian src LZMA_PROPS_SIZE;
           if (dstSize :: u64) \<noteq> - 1 \<and> dstSize > 0xffffffff then Some d
           else
             let known = (dstSize \<noteq> - 1);
                 (ok, dec) = LzmaDec_AllocateProbs sdk (take LZMA_PROPS_SIZE src) (z_dec d);
                 dec = LzmaDec_Init sdk dec;
                 n = (if known then unat dstSize else LZMA_STEP)
             in Some (d\<lparr>z_dec := dec, z_ok := ok, z_knownDstSize := known, z_dicBufSize := n, z_dic := heap_alloc heap n\<rparr>)
         })"

definition lzma_destroy :: "'l lzma \<Rightarrow> 'l lzma" where
  "lzma_destroy d = d\<lparr>z_dic := None, z_dicBufSize := 0\<rparr>"

text \<open>
  The dictionary of a stream of unknown size grows when it is full: in place, or into a new block
  that the old content is copied to.  Copying to a null pointer is a fault.
\<close>

definition lzma_grow :: "heap \<Rightarrow> 'l lzma \<Rightarrow> 'l lzma option" where
  "lzma_grow heap d =
     (if \<not> z_knownDstSize d \<and> z_dicPos d = z_dicBufSize d then do {
        dic \<leftarrow> z_dic d;
        let n = z_dicBufSize d + LZMA_STEP;
        case heap_resize heap dic n of
          Some dic \<Rightarrow> Some (d\<lparr>z_dicBufSize := n, z_dic := Some dic\<rparr>)
        | None \<Rightarrow> do {
            new \<leftarrow> heap_alloc heap n;
            new \<leftarrow> wr_n new 0 (take (z_dicBufSize d) dic);
            Some (d\<lparr>z_dicBufSize := n, z_dic := Some new\<rparr>)
          }
      } else Some d)"

text \<open>The loop of \<open>decode\<close>: the result, the last status and the decoder; a loop that never ends is \<^term>\<open>None\<close>.\<close>

partial_function (option) lzma_loop ::
  "'l lzma_sdk \<Rightarrow> heap \<Rightarrow> bytes \<Rightarrow> 'l lzma \<Rightarrow> (bool \<times> ELzmaStatus \<times> 'l lzma) option" where
  "lzma_loop sdk heap src d = do {
     d \<leftarrow> lzma_grow heap d;
     let finishMode = (if z_knownDstSize d then LZMA_FINISH_END else LZMA_FINISH_ANY);
     let (ok, dec, dic, dicPos, srcOffset, status) =
       LzmaDec_DecodeToDic sdk (z_dec d) (z_dic d) (z_dicPos d) (z_dicBufSize d) src finishMode;
     let d = d\<lparr>z_dec := dec, z_dic := dic, z_dicPos := dicPos\<rparr>;
     if \<not> ok then Some (False, status, d\<lparr>z_ok := False\<rparr>)
     else
       let src = drop srcOffset src
       in if src \<noteq> [] \<and> (z_knownDstSize d \<or> status = LZMA_STATUS_FINISHED_WITH_MARK) then Some (False, status, d\<lparr>z_ok := False\<rparr>)
          else if src \<noteq> [] then lzma_loop sdk heap src d
          else Some (True, status, d)
   }"

declare lzma_loop.simps [code]

definition lzma_decode :: "'l lzma_sdk \<Rightarrow> heap \<Rightarrow> bytes \<Rightarrow> 'l lzma \<Rightarrow> (bool \<times> 'l lzma) option" where
  "lzma_decode sdk heap src d = do {
     ensure (z_ok d \<and> \<not> z_done d);
     (r, status, d) \<leftarrow> lzma_loop sdk heap src d;
     Some (if \<not> r then (False, d)
       else if \<not> z_knownDstSize d \<and> status = LZMA_STATUS_FINISHED_WITH_MARK then (True, d\<lparr>z_done := True\<rparr>)
       else if z_knownDstSize d \<and> z_dicPos d = z_dicBufSize d then
         if status \<noteq> LZMA_STATUS_MAYBE_FINISHED_WITHOUT_MARK then (False, d\<lparr>z_ok := False\<rparr>)
         else (True, d\<lparr>z_done := True\<rparr>)
       else (True, d))
   }"

definition lzma_release :: "heap \<Rightarrow> 'l lzma \<Rightarrow> (bytes \<times> nat \<times> 'l lzma) option" where
  "lzma_release heap d = do {
     ensure (z_ok d \<and> z_done d \<and> z_dic d \<noteq> None \<and> z_dicBufSize d \<noteq> 0);
     dic \<leftarrow> z_dic d;
     let (dic, n) = (if z_knownDstSize d then (dic, z_dicBufSize d)
       else case heap_resize heap dic (z_dicPos d) of Some dic \<Rightarrow> (dic, z_dicPos d) | None \<Rightarrow> (dic, z_dicBufSize d));
     Some (dic, n, d\<lparr>z_dic := None, z_dicBufSize := 0\<rparr>)
   }"

section \<open>Facts\<close>

lemma lzma_new_short: "length src < LZMA_HEADER_SIZE \<Longrightarrow> lzma_new sdk heap src = Some (lzma_blank sdk)"
  by (simp add: lzma_new_def)

end
