(* ===== verification/Stub.thy ===== *)
theory Stub
  imports Stub_Archive Boot_FS LZMA_Decoder
begin

text \<open>
  \<open>stub/Stub.cc\<close> and \<open>stub/LZMA.cc\<close>: the first program of the boot chain.  It has an archive embedded, may find a
  newer one in flash memory, and unpacks the loader of the archive it chooses.  The LZMA library is vendored C
  code and the record \<open>stub_lzma\<close>.
\<close>

section \<open>Decompression\<close>

text \<open>
  \<open>sl_props\<close> is \<open>LzmaProps_Decode\<close>, \<open>sl_lclp\<close> the sum of the fields lc and lp.  \<open>sl_decode\<close> is
  \<open>LzmaDec_Init\<close> and \<open>LzmaDec_DecodeToDic\<close>: whether it has returned \<open>SZ_OK\<close>, what it has written to the front of the
  dictionary, whose length is the position, and the status.
\<close>

record 'l stub_lzma =
  sl_props :: "bytes \<Rightarrow> 'l option"
  sl_lclp :: "'l \<Rightarrow> nat"
  sl_decode :: "'l \<Rightarrow> nat \<Rightarrow> bytes \<Rightarrow> ELzmaFinishMode \<Rightarrow> bool \<times> bytes \<times> ELzmaStatus"

definition GetNumProbs :: "nat \<Rightarrow> u32" where
  "GetNumProbs lclp = 1984 + push_bit lclp 0x300"

text \<open>What has been written to the destination, and the result.\<close>

definition LZMA_Decode :: "'l stub_lzma \<Rightarrow> bytes \<Rightarrow> nat \<Rightarrow> (bytes \<times> nat option) option" where
  "LZMA_Decode sdk src dstSize =
     (if length src < LZMA_HEADER_SIZE then Some ([], None)
      else do {
        expectedDstSize \<leftarrow> Bytes_Read Little_Endian src LZMA_PROPS_SIZE;
        let known = (expectedDstSize :: u64) \<noteq> - 1;
        if known \<and> unat expectedDstSize > dstSize then Some ([], None)
        else
          let dstSize = (if known then unat expectedDstSize else dstSize)
          in case sl_props sdk (take LZMA_PROPS_SIZE src) of None \<Rightarrow> Some ([], None)
             | Some props \<Rightarrow>
                 if unat (GetNumProbs (sl_lclp sdk props)) * 2 > 0x1000000 then Some ([], None)
                 else
                   let (ok, out, status) = sl_decode sdk props dstSize (drop LZMA_HEADER_SIZE src)
                         (if known then LZMA_FINISH_END else LZMA_FINISH_ANY)
                   in if \<not> ok then Some (out, None)
                      else if known \<and> status \<noteq> LZMA_STATUS_MAYBE_FINISHED_WITHOUT_MARK \<or>
                          \<not> known \<and> status \<noteq> LZMA_STATUS_FINISHED_WITH_MARK then Some (out, None)
                      else Some (out, Some (length out))
      })"

section \<open>Archives and versions\<close>

definition LoadArchive :: "bytes \<Rightarrow> archive option option" where
  "LoadArchive data = do { a \<leftarrow> Archive_new data (of_nat (length data)); Some (if ar_ok a then Some a else None) }"

definition file_bytes :: "archive \<Rightarrow> u32 \<Rightarrow> u32 \<Rightarrow> bytes option" where
  "file_bytes a start len = rd_n (ar_data a) (unat start) (unat len)"

definition VersionInfo_size :: nat where
  "VersionInfo_size = 0x60"

definition GetVersionInfo :: "archive \<Rightarrow> bytes option option" where
  "GetVersionInfo a = do {
     e \<leftarrow> ar_get_path a (chars ''./bin/version.bin'');
     case e of
       File_Entry _ _ start len \<Rightarrow>
         if unat len \<noteq> VersionInfo_size then Some None else map_option Some (file_bytes a start len)
     | _ \<Rightarrow> Some None
   }"

text \<open>The comparison of versions: \<open>major\<close>, \<open>minor\<close> and \<open>patch\<close> in this order.\<close>

definition version_number :: "bytes \<Rightarrow> u16 \<times> u16 \<times> u16" where
  "version_number v = (the (read_u16 v 2), the (read_u16 v 4), the (read_u16 v 6))"

definition version_ge :: "bytes \<Rightarrow> bytes \<Rightarrow> bool" where
  "version_ge v w = (case (version_number v, version_number w) of ((a, b, c), (a', b', c')) \<Rightarrow>
     if a \<noteq> a' then a > a' else if b \<noteq> b' then b > b' else c \<ge> c')"

section \<open>Installation\<close>

datatype Build = Build_Other | Build_Release | Build_Channel

definition TITLE_PARENT_PATH :: string where "TITLE_PARENT_PATH = ''/title/00010001''"
definition TITLE_PATH :: string where "TITLE_PATH = ''/title/00010001/53505350''"
definition TITLE_CONTENT_PATH :: string where "TITLE_CONTENT_PATH = TITLE_PATH @ ''/content''"
definition DATA_PATH :: string where "DATA_PATH = TITLE_PATH @ ''/data''"
definition UPDATE_PATH :: string where "UPDATE_PATH = DATA_PATH @ ''/update''"
definition UPDATE_CONTENTS_PATH :: string where "UPDATE_CONTENTS_PATH = UPDATE_PATH @ ''/contents.arc''"
definition TICKET_PARENT_PATH :: string where "TICKET_PARENT_PATH = ''/ticket/00010001''"
definition TICKET_PATH :: string where "TICKET_PATH = ''/ticket/00010001/53505350.tik''"
definition TMD_PATH :: string where "TMD_PATH = TITLE_CONTENT_PATH @ ''/title.tmd''"
definition BANNER_PATH :: string where "BANNER_PATH = DATA_PATH @ ''/banner.bin''"

definition CONTENTS_PATH :: "Build \<Rightarrow> string" where
  "CONTENTS_PATH b = (if b = Build_Other then ''/tmp/contents.arc'' else DATA_PATH @ ''/contents.arc'')"

definition CHANNEL_TITLE_ID :: u64 where
  "CHANNEL_TITLE_ID = 0x0001000153505350"

definition title_ticket :: bytes where
  "title_ticket =
     (let t = replicate 0x2a4 0;
          t = splice t 0 (to_be (0x10001 :: u32));
          t = splice t 0x1dc (to_be CHANNEL_TITLE_ID);
          t = splice t 0x1e4 (to_be (0xffff :: u16))
      in splice t 0x222 (replicate 64 0xff))"

definition tmd_content :: "nat \<Rightarrow> bytes" where
  "tmd_content i = to_be (of_nat i :: u32) @ to_be (of_nat i :: u16) @ to_be (1 :: u16) @ to_be (0 :: u64) @ replicate 20 0"

definition CHANNEL_CONTENT_COUNT :: nat where
  "CHANNEL_CONTENT_COUNT = 3"

definition title_tmd :: bytes where
  "title_tmd =
     (let t = replicate 0x49e4 0;
          t = splice t 0 (to_be (0x10001 :: u32));
          t = splice t 0x184 (to_be (0x000000010000003a :: u64));
          t = splice t 0x18c (to_be CHANNEL_TITLE_ID);
          t = splice t 0x198 (to_be (0x3031 :: u16));
          t = splice t 0x19c (to_be (3 :: u16));
          t = splice t 0x1b2 [1];
          t = splice t 0x1dc (to_be (0x0300 :: u16));
          t = splice t 0x1de (to_be (of_nat CHANNEL_CONTENT_COUNT :: u16));
          t = splice t 0x1e0 (to_be (2 :: u16))
      in splice t 0x1e4 (concat (map tmd_content [0..<CHANNEL_CONTENT_COUNT])))"

definition title_tmd_size :: nat where
  "title_tmd_size = 0x1e4 + 0x24 * CHANNEL_CONTENT_COUNT"

text \<open>The bytes written to the file of the metadata are those of the ticket: \<^const>\<open>title_tmd\<close> is never read.\<close>

definition write_tmd :: "'w starlet \<Rightarrow> int \<Rightarrow> 'w \<Rightarrow> bool \<times> 'w" where
  "write_tmd s fs w =
     (let (f, w) = Resource_open s TMD_PATH Mode_Read w;
          w = Resource_destroy s f w
      in if \<not> Resource_ok f then FS_writeFile s fs TMD_PATH (take title_tmd_size title_ticket) w else (True, w))"

definition create_title_dirs :: "'w starlet \<Rightarrow> int \<Rightarrow> 'w \<Rightarrow> 'w" where
  "create_title_dirs s fs w =
     fold (\<lambda>path w. snd (FS_createDir s fs path 0 Mode_Both Mode_Both Mode_Both w))
       [TITLE_PARENT_PATH, TITLE_PATH, TITLE_CONTENT_PATH, DATA_PATH, UPDATE_PATH, TICKET_PARENT_PATH] w"

definition install_title :: "'w starlet \<Rightarrow> int \<Rightarrow> archive \<Rightarrow> 'w \<Rightarrow> (bool \<times> 'w) option" where
  "install_title s fs a w =
     (let (ok, w) = FS_writeFile s fs TICKET_PATH title_ticket w
      in if \<not> ok then Some (False, w)
         else
           let (ok, w) = write_tmd s fs w
           in if \<not> ok then Some (False, w)
              else do {
                e \<leftarrow> ar_get_path a (chars ''./banner.bin'');
                case e of
                  File_Entry _ _ start len \<Rightarrow> do { banner \<leftarrow> file_bytes a start len; Some (FS_writeFile s fs BANNER_PATH banner w) }
                | _ \<Rightarrow> Some (False, w)
              })"

section \<open>The program\<close>

record ('w, 'l) stub_env =
  se_build :: Build
  se_starlet :: "'w starlet"
  se_embedded :: bytes
  se_lzma :: "'l stub_lzma"

definition NAND_CONTENTS :: u32 where
  "NAND_CONTENTS = 0x90000000"

definition LOADER_ADDRESS :: u32 where
  "LOADER_ADDRESS = 0x80b00000"

definition VERSION_ADDRESS :: u32 where
  "VERSION_ADDRESS = 0x80003f00"

text \<open>The archive in flash memory with its version, if there is one.\<close>

definition load_nand :: "('w, 'l) stub_env \<Rightarrow> int \<Rightarrow> 'w cpu \<Rightarrow> ((archive \<times> bytes) option \<times> 'w cpu) option" where
  "load_nand env fs c =
     (let s = se_starlet env;
          (_, w) = FS_rename s fs UPDATE_CONTENTS_PATH (CONTENTS_PATH (se_build env)) (io c)
      in do {
        ((n, out), w) \<leftarrow> FS_readFile s (CONTENTS_PATH (se_build env)) 0x3000000 w;
        let c = c\<lparr>io := w, mem := mem_write NAND_CONTENTS (take 0x3000000 out) (mem c)\<rparr>;
        a \<leftarrow> (case n of None \<Rightarrow> Some None | Some n \<Rightarrow> LoadArchive (mem_read (mem c) NAND_CONTENTS (unat n)));
        v \<leftarrow> (case a of None \<Rightarrow> Some None | Some a \<Rightarrow> map_option (map_option (Pair a)) (GetVersionInfo a));
        Some (v, c)
      })"

text \<open>The branch without a usable archive in flash memory; the channel has no archive of its own.\<close>

definition use_embedded ::
  "('w, 'l) stub_env \<Rightarrow> int \<Rightarrow> (archive \<times> bytes) option \<Rightarrow> 'w cpu \<Rightarrow> (archive option \<times> 'w cpu) option" where
  "use_embedded env fs embedded c =
     (case embedded of None \<Rightarrow> Some (None, c)
      | Some (a, v) \<Rightarrow>
          let c = c\<lparr>mem := mem_write VERSION_ADDRESS v (mem c)\<rparr>
          in do {
            (ok, w) \<leftarrow> (if se_build env = Build_Release then install_title (se_starlet env) fs a (io c) else Some (True, io c));
            if \<not> ok then Some (None, c\<lparr>io := w\<rparr>)
            else
              let (ok, w) = FS_writeFile (se_starlet env) fs (CONTENTS_PATH (se_build env)) (se_embedded env) w
              in Some (if ok then Some a else None, c\<lparr>io := w\<rparr>)
          })"

definition choose_archive ::
  "('w, 'l) stub_env \<Rightarrow> int \<Rightarrow> (archive \<times> bytes) option \<Rightarrow> 'w cpu \<Rightarrow> (archive option \<times> 'w cpu) option" where
  "choose_archive env fs embedded c = do {
     (nand, c) \<leftarrow> (if se_build env = Build_Other then Some (None, c) else load_nand env fs c);
     case nand of None \<Rightarrow> use_embedded env fs embedded c
     | Some (a, v) \<Rightarrow>
         if (case embedded of None \<Rightarrow> True | Some (_, v') \<Rightarrow> version_ge v v')
         then Some (Some a, c\<lparr>mem := mem_write VERSION_ADDRESS v (mem c)\<rparr>)
         else use_embedded env fs embedded c
   }"

definition unpack_loader :: "('w, 'l) stub_env \<Rightarrow> archive \<Rightarrow> memory \<Rightarrow> (u32 option \<times> memory) option" where
  "unpack_loader env a m = do {
     e \<leftarrow> ar_get_path a (chars ''./bin/loader.bin.lzma'');
     case e of
       File_Entry _ _ start len \<Rightarrow> do {
         src \<leftarrow> file_bytes a start len;
         (out, loaderSize) \<leftarrow> LZMA_Decode (se_lzma env) src 0xb00000;
         Some (if loaderSize = None then None else Some LOADER_ADDRESS, mem_write LOADER_ADDRESS out m)
       }
     | _ \<Rightarrow> Some (None, m)
   }"

text \<open>The embedded archive with its version; the program ends when it is unusable.\<close>

definition load_embedded :: "('w, 'l) stub_env \<Rightarrow> (archive \<times> bytes) option option" where
  "load_embedded env = do {
     a \<leftarrow> LoadArchive (se_embedded env);
     case a of None \<Rightarrow> Some None | Some a \<Rightarrow> map_option (map_option (Pair a)) (GetVersionInfo a)
   }"

definition Stub_Run :: "('w, 'l) stub_env \<Rightarrow> 'w cpu \<Rightarrow> (u32 option \<times> 'w cpu) option" where
  "Stub_Run env c = do {
     embedded \<leftarrow> (if se_build env = Build_Channel then Some None else load_embedded env);
     if se_build env \<noteq> Build_Channel \<and> embedded = None then Some (None, c)
     else do {
       (ok, c) \<leftarrow> EscalatePrivileges (se_starlet env) False False c;
       if \<not> ok then Some (None, c)
       else do {
         let (fs, w) = FS_new (se_starlet env) (io c);
         w \<leftarrow> DeescalatePrivileges (se_starlet env) None w;
         if \<not> Resource_ok fs then Some (None, c\<lparr>io := w\<rparr>)
         else do {
           let w = (if se_build env = Build_Release then create_title_dirs (se_starlet env) fs w else w);
           (a, c) \<leftarrow> choose_archive env fs embedded (c\<lparr>io := w\<rparr>);
           (entry, m) \<leftarrow> (case a of None \<Rightarrow> Some (None, mem c) | Some a \<Rightarrow> unpack_loader env a (mem c));
           Some (entry, c\<lparr>io := Resource_destroy (se_starlet env) fs (io c), mem := m\<rparr>)
         }
       }
     }
   }"

section \<open>The newest loader is started\<close>

text \<open>An archive of a given content, with its version and the loader it unpacks to.\<close>

definition provides :: "'l stub_lzma \<Rightarrow> archive \<Rightarrow> bytes \<Rightarrow> bytes \<Rightarrow> bool" where
  "provides sdk a v loader \<longleftrightarrow> ar_ok a \<and> GetVersionInfo a = Some (Some v) \<and> (\<exists>i n start len src.
     ar_get_path a (chars ''./bin/loader.bin.lzma'') = Some (File_Entry i n start len) \<and> file_bytes a start len = Some src \<and>
     LZMA_Decode sdk src 0xb00000 = Some (loader, Some (length loader)))"

definition lzma_in_bounds :: "'l stub_lzma \<Rightarrow> bool" where
  "lzma_in_bounds sdk \<longleftrightarrow> (\<forall>props n src fin ok out status. sl_decode sdk props n src fin = (ok, out, status) \<longrightarrow> length out \<le> n)"

lemma LZMA_Decode_bound:
  "lzma_in_bounds sdk \<Longrightarrow> LZMA_Decode sdk src n = Some (out, r) \<Longrightarrow> length out \<le> n \<and> (\<forall>k. r = Some k \<longrightarrow> k = length out)"
  by (fastforce simp: LZMA_Decode_def Let_def bind_eq_Some_conv lzma_in_bounds_def split: if_splits option.splits prod.splits)

lemma GetVersionInfo_length: "GetVersionInfo a = Some (Some v) \<Longrightarrow> length v = VersionInfo_size"
  by (clarsimp simp: GetVersionInfo_def bind_eq_Some_conv)
    (auto simp: file_bytes_def rd_n_Some_iff split: ar_entry.split_asm if_split_asm)

lemma LoadArchive_ok: "LoadArchive data = Some (Some a) \<Longrightarrow> ar_ok a"
  by (auto simp: LoadArchive_def bind_eq_Some_conv split: if_splits)

lemma load_embedded_Some: "load_embedded env = Some (Some (a, v)) \<Longrightarrow> ar_ok a \<and> GetVersionInfo a = Some (Some v)"
  by (auto simp: load_embedded_def bind_eq_Some_conv map_option_case dest: LoadArchive_ok split: option.split_asm)

lemma load_nand_Some: "load_nand env fs c = Some (Some (a, v), c') \<Longrightarrow> ar_ok a \<and> GetVersionInfo a = Some (Some v)"
  by (clarsimp simp: load_nand_def Let_def case_prod_beta bind_eq_Some_conv)
    (auto dest: LoadArchive_ok split: option.split_asm)

lemma use_embedded_Some:
  "use_embedded env fs embedded c = Some (Some a, c') \<Longrightarrow>
   \<exists>v. embedded = Some (a, v) \<and> mem c' = mem_write VERSION_ADDRESS v (mem c)"
  by (auto simp: use_embedded_def Let_def case_prod_beta bind_eq_Some_conv split: option.splits if_splits)

lemma version_ge_refl [simp]: "version_ge v v"
  by (simp add: version_ge_def case_prod_beta)

lemma choose_archive_Some:
  assumes "choose_archive env fs embedded c = Some (Some a, c')"
    and "embedded = None \<or> (\<exists>a' v'. embedded = Some (a', v') \<and> ar_ok a' \<and> GetVersionInfo a' = Some (Some v'))"
  shows "\<exists>v m. ar_ok a \<and> GetVersionInfo a = Some (Some v) \<and> mem c' = mem_write VERSION_ADDRESS v m \<and>
    (\<forall>a' v'. embedded = Some (a', v') \<longrightarrow> version_ge v v')"
proof -
  obtain nand c1 where n: "(if se_build env = Build_Other then Some (None, c) else load_nand env fs c) = Some (nand, c1)"
    using assms(1) by (auto simp: choose_archive_def bind_eq_Some_conv)
  show ?thesis
  proof (cases "use_embedded env fs embedded c1 = Some (Some a, c')")
    case True
    then show ?thesis using use_embedded_Some [OF True] assms(2) by fastforce
  next
    case False
    then obtain v where "nand = Some (a, v)" "c' = c1\<lparr>mem := mem_write VERSION_ADDRESS v (mem c1)\<rparr>"
      "\<forall>a' v'. embedded = Some (a', v') \<longrightarrow> version_ge v v'"
      using assms(1) n by (auto simp: choose_archive_def split: option.splits if_splits)
    then show ?thesis using load_nand_Some [of env fs c a v c1] n by (auto split: if_splits)
  qed
qed

lemma unpack_loader_Some:
  assumes "lzma_in_bounds (se_lzma env)" and "unpack_loader env a m = Some (Some entry, m')"
    and "ar_ok a" and "GetVersionInfo a = Some (Some v)"
  shows "entry = LOADER_ADDRESS \<and> (\<exists>out. provides (se_lzma env) a v out \<and> length out \<le> 0xb00000 \<and> m' = mem_write LOADER_ADDRESS out m)"
proof -
  obtain i n start len src out k where r: "ar_get_path a (chars ''./bin/loader.bin.lzma'') = Some (File_Entry i n start len)"
    "file_bytes a start len = Some src" "LZMA_Decode (se_lzma env) src 0xb00000 = Some (out, Some k)"
    "entry = LOADER_ADDRESS" "m' = mem_write LOADER_ADDRESS out m"
    using assms(2)
    by (clarsimp simp: unpack_loader_def bind_eq_Some_conv)
      (auto simp: bind_eq_Some_conv split: ar_entry.split_asm if_split_asm)
  then show ?thesis using LZMA_Decode_bound [OF assms(1) r(3)] assms(3,4) by (auto simp: provides_def)
qed

text \<open>C9: The stub never starts an older loader than its own. When it gives an entry point, the memory
  there holds what a usable archive's loader unpacks to and the version that archive has is in the
  place for it; except for the channel build, which has no archive of its own, this version is at
  least that of the embedded archive.\<close>

theorem stub_runs_newest:
  assumes "lzma_in_bounds (se_lzma env)" and "Stub_Run env c = Some (Some entry, c')"
  shows "entry = LOADER_ADDRESS \<and> (\<exists>a v out. provides (se_lzma env) a v out \<and>
    mem_read (mem c') LOADER_ADDRESS (length out) = out \<and> mem_read (mem c') VERSION_ADDRESS (length v) = v \<and>
    (se_build env \<noteq> Build_Channel \<longrightarrow> (\<exists>a' v'. load_embedded env = Some (Some (a', v')) \<and> version_ge v v')))"
proof -
  obtain embedded c1 fs a c2 m where run:
    "(if se_build env = Build_Channel then Some None else load_embedded env) = Some embedded"
    "se_build env \<noteq> Build_Channel \<longrightarrow> embedded \<noteq> None"
    "choose_archive env fs embedded c1 = Some (Some a, c2)" "unpack_loader env a (mem c2) = Some (Some entry, m)" "mem c' = m"
    using assms(2)
    by (auto simp: Stub_Run_def Let_def case_prod_beta bind_eq_Some_conv split: if_split_asm option.split_asm)
  have "embedded = None \<or> (\<exists>a' v'. embedded = Some (a', v') \<and> ar_ok a' \<and> GetVersionInfo a' = Some (Some v'))"
    using run(1) by (cases embedded) (auto dest!: load_embedded_Some split: if_split_asm)
  then obtain v m0 where v: "ar_ok a" "GetVersionInfo a = Some (Some v)" "mem c2 = mem_write VERSION_ADDRESS v m0"
    "\<forall>a' v'. embedded = Some (a', v') \<longrightarrow> version_ge v v'"
    using choose_archive_Some [OF run(3)] by blast
  obtain out where out: "entry = LOADER_ADDRESS" "provides (se_lzma env) a v out" "length out \<le> 0xb00000"
    "m = mem_write LOADER_ADDRESS out (mem c2)"
    using unpack_loader_Some [OF assms(1) run(4) v(1,2)] by blast
  have "mem_read m LOADER_ADDRESS (length out) = out" using out(3,4) mem_read_written [of out] by simp
  moreover have len: "length v = VersionInfo_size" by (rule GetVersionInfo_length [OF v(2)])
  then have "mem_read m VERSION_ADDRESS (length v) = v"
    using mem_read_disjoint [of VERSION_ADDRESS "length v" LOADER_ADDRESS out "mem c2"] out(3,4) v(3) mem_read_written [of v]
    by (simp add: VERSION_ADDRESS_def LOADER_ADDRESS_def VersionInfo_size_def)
  moreover have "se_build env \<noteq> Build_Channel \<longrightarrow> (\<exists>a' v'. load_embedded env = Some (Some (a', v')) \<and> version_ge v v')"
    using run(1,2) v(4) by (cases embedded) auto
  ultimately show ?thesis using out(1,2) run(5) by blast
qed

section \<open>An example\<close>

text \<open>For the witness: an archive with a version and a loader, and a library that unpacks everything to three bytes.\<close>

definition example_stub_lzma :: "unit stub_lzma" where
  "example_stub_lzma = \<lparr>sl_props = (\<lambda>p. Some ()), sl_lclp = (\<lambda>_. 3),
     sl_decode = (\<lambda>_ n src fin. (True, take n [0x60, 0, 0], LZMA_STATUS_FINISHED_WITH_MARK))\<rparr>"

definition example_version :: bytes where
  "example_version = [0, 0, 0, 1, 0, 2, 0, 3] @ replicate 88 0"

definition example_lzma_file :: bytes where
  "example_lzma_file = [0x5d, 0, 0, 0, 1, 0xff, 0xff, 0xff, 0xff, 0xff, 0xff, 0xff, 0xff, 7]"

definition example_contents :: bytes where
  "example_contents = [0x55, 0xaa, 0x38, 0x2d, 0, 0, 0, 0x20, 0, 0, 0, 0x5f, 0, 0, 0, 0, 0, 0, 0, 0, 0, 0, 0, 0, 0, 0, 0, 0, 0, 0,
     0, 0, 1, 0, 0, 0, 0, 0, 0, 0, 0, 0, 0, 5, 1, 0, 0, 1, 0, 0, 0, 0, 0, 0, 0, 5, 1, 0, 0, 3, 0, 0, 0, 1, 0, 0,
     0, 5, 0, 0, 0, 7, 0, 0, 0, 0x7f, 0, 0, 0, 0x60, 0, 0, 0, 0x13, 0, 0, 0, 0xdf, 0, 0, 0, 0xe, 0, 0x2e, 0, 0x62,
     0x69, 0x6e, 0, 0x76, 0x65, 0x72, 0x73, 0x69, 0x6f, 0x6e, 0x2e, 0x62, 0x69, 0x6e, 0, 0x6c, 0x6f, 0x61, 0x64,
     0x65, 0x72, 0x2e, 0x62, 0x69, 0x6e, 0x2e, 0x6c, 0x7a, 0x6d, 0x61, 0] @
     example_version @ example_lzma_file"

definition example_stub :: "(nand, unit) stub_env" where
  "example_stub = \<lparr>se_build = Build_Other, se_starlet = ram_starlet, se_embedded = example_contents, se_lzma = example_stub_lzma\<rparr>"

definition example_contents_archive :: archive where
  "example_contents_archive = \<lparr>ar_data = example_contents, ar_size = 0xed, ar_entriesOffset = 0x20, ar_entryCount = 5,
     ar_stringsOffset = 0x5c, ar_stringsSize = 35, ar_ok = True\<rparr>"

lemma example_contents_loaded: "LoadArchive example_contents = Some (Some example_contents_archive)"
  by code_simp

lemma example_contents_version: "GetVersionInfo example_contents_archive = Some (Some example_version)"
  by code_simp

lemma example_contents_loader:
  "ar_get_path example_contents_archive (chars ''./bin/loader.bin.lzma'') = Some (File_Entry 4 (chars ''loader.bin.lzma'') 0xdf 14)"
  "file_bytes example_contents_archive 0xdf 14 = Some example_lzma_file"
  by code_simp+

lemma example_stub_lzma_bounds: "lzma_in_bounds (se_lzma example_stub)"
  by (auto simp: lzma_in_bounds_def example_stub_def example_stub_lzma_def)

lemma example_unpack: "LZMA_Decode (se_lzma example_stub) example_lzma_file 0xb00000 = Some ([0x60, 0, 0], Some 3)"
proof -
  have "Bytes_Read Little_Endian example_lzma_file LZMA_PROPS_SIZE = Some (- 1 :: u64)" by code_simp
  moreover have "\<not> length example_lzma_file < LZMA_HEADER_SIZE" by code_simp
  ultimately show ?thesis
    by (simp add: LZMA_Decode_def example_stub_def example_stub_lzma_def GetNumProbs_def)
qed

lemma example_stub_dolphin: "IsDolphin ram_starlet v = (True, v)"
  by (simp add: IsDolphin_def Resource_open_def Resource_ok_def Resource_destroy_def ram_starlet_def ram_ipc_def is_device_def)

lemma example_stub_privileges: "EscalatePrivileges ram_starlet False False c = Some (True, c)" "DeescalatePrivileges ram_starlet key v = Some v"
  by (simp_all add: EscalatePrivileges_def DeescalatePrivileges_def example_stub_dolphin)

lemma example_stub_fs: "FS_new ram_starlet v = (0, v)"
  by (simp add: FS_new_def Resource_open_def ram_starlet_def ram_ipc_def is_device_def)

lemma example_stub_write: "\<exists>v'. FS_writeFile ram_starlet 0 ''/tmp/contents.arc'' b ram_example = (True, v')"
  by (simp add: FS_writeFile_def FS_erase_def FS_createFile'_def FS_createFile_def strlcpy_def chars_def Resource_ioctl_def
    Resource_open_def ram_starlet_def ram_example_def path_at_def splice_def local_buf_def ram_ipc_def is_device_def
    path_and_perms_def drop_update_swap Let_def upt_rec first_out_def Resource_ok_def File_write_def)

lemma example_stub_run: "\<exists>c'. Stub_Run example_stub \<lparr>io = ram_example, mem = (\<lambda>a. 0)\<rparr> = Some (Some LOADER_ADDRESS, c')"
proof -
  have build: "se_build example_stub = Build_Other" "se_starlet example_stub = ram_starlet" "se_embedded example_stub = example_contents"
    by (simp_all add: example_stub_def)
  have "load_embedded example_stub = Some (Some (example_contents_archive, example_version))"
    by (simp add: load_embedded_def build example_contents_loaded example_contents_version)
  moreover have "unpack_loader example_stub example_contents_archive m = Some (Some LOADER_ADDRESS, mem_write LOADER_ADDRESS [0x60, 0, 0] m)" for m
    by (simp add: unpack_loader_def example_contents_loader example_unpack)
  ultimately show ?thesis using example_stub_write [of example_contents]
    by (auto simp: Stub_Run_def build example_stub_privileges example_stub_fs Resource_ok_def choose_archive_def use_embedded_def
        CONTENTS_PATH_def)
qed

theorem stub_runs_newest_witness:
  "\<exists>(c' :: nand cpu) v. Stub_Run example_stub \<lparr>io = ram_example, mem = (\<lambda>a. 0)\<rparr> = Some (Some LOADER_ADDRESS, c') \<and>
    mem_read (mem c') VERSION_ADDRESS (length v) = v \<and> version_ge v example_version"
proof -
  obtain c' where run: "Stub_Run example_stub \<lparr>io = ram_example, mem = (\<lambda>a. 0)\<rparr> = Some (Some LOADER_ADDRESS, c')"
    using example_stub_run by blast
  have "load_embedded example_stub = Some (Some (example_contents_archive, example_version))" "se_build example_stub \<noteq> Build_Channel"
    by (simp_all add: load_embedded_def example_stub_def example_contents_loaded example_contents_version)
  with stub_runs_newest [OF example_stub_lzma_bounds run] run show ?thesis by auto
qed

text \<open>The bytes that the release build installs as the metadata are not the metadata.\<close>

lemma nth_splice: "i + length ys \<le> length xs \<Longrightarrow> k < length xs \<Longrightarrow>
    splice xs i ys ! k = (if i \<le> k \<and> k < i + length ys then ys ! (k - i) else xs ! k)"
  by (auto simp: splice_def nth_append)

lemma length_tmd_contents: "length (concat (map tmd_content [0..<CHANNEL_CONTENT_COUNT])) = 108"
  by (simp add: CHANNEL_CONTENT_COUNT_def tmd_content_def upt_rec size_of_def)

lemma tmd_not_installed: "take title_tmd_size title_ticket \<noteq> take title_tmd_size title_tmd"
proof -
  have "title_ticket ! 0x18b = 0"
    by (simp add: title_ticket_def Let_def nth_splice length_splice size_of_def)
  moreover have "to_be (0x000000010000003a :: u64) ! 7 = 0x3a" by code_simp
  then have "title_tmd ! 0x18b = 0x3a"
    by (simp add: title_tmd_def Let_def nth_splice length_splice size_of_def length_tmd_contents)
  ultimately have "take title_tmd_size title_ticket ! 0x18b \<noteq> take title_tmd_size title_tmd ! 0x18b"
    by (simp add: title_tmd_size_def CHANNEL_CONTENT_COUNT_def)
  then show ?thesis by metis
qed

end
