(* ===== verification/WFC_Payload.thy ===== *)
theory WFC_Payload
  imports IOS_World
begin

text \<open>
  The login to the server, \<open>payload/sp/net/WiiLink.cc\<close> and \<open>payload/revolution/dwc/DWCAuth.c\<close>: before the
  game may log in, the client downloads a payload from the server, checks it and runs it.  The checks are
  the magic, the size, a salt that ties the answer to this request, and an RSA signature.
\<close>

section \<open>The format of the payload\<close>

definition PAYLOAD_BLOCK_SIZE :: nat where "PAYLOAD_BLOCK_SIZE = 0x20000"
definition SHA256_DIGEST_SIZE :: nat where "SHA256_DIGEST_SIZE = 32"
definition WWFC_HEADER_SIZE :: nat where "WWFC_HEADER_SIZE = 0x110"
definition WWFC_PAYLOAD_SIZE :: nat where "WWFC_PAYLOAD_SIZE = 0x1a0"
definition TOTAL_SIZE :: nat where "TOTAL_SIZE = 0xc"
definition SIGNATURE :: nat where "SIGNATURE = 0x10"
definition PATCH_LIST_OFFSET :: nat where "PATCH_LIST_OFFSET = 0x158"
definition PATCH_LIST_END :: nat where "PATCH_LIST_END = 0x15c"
definition ENTRY_POINT :: nat where "ENTRY_POINT = 0x160"
definition PATCH_SIZE :: nat where "PATCH_SIZE = 0x10"

definition Patch_Critical :: u8 where "Patch_Critical = 0"
definition Patch_Support :: u8 where "Patch_Support = push_bit 3 1"
definition Patch_Disabled :: u8 where "Patch_Disabled = push_bit 4 1"

definition STAGE1_MAKE_REQUEST :: int where "STAGE1_MAKE_REQUEST = -20911"
definition STAGE1_HEADER_CHECK :: int where "STAGE1_HEADER_CHECK = -20913"
definition STAGE1_LENGTH_ERROR :: int where "STAGE1_LENGTH_ERROR = -20914"
definition STAGE1_SALT_MISMATCH :: int where "STAGE1_SALT_MISMATCH = -20915"
definition STAGE1_SIGNATURE_INVALID :: int where "STAGE1_SIGNATURE_INVALID = -20917"

section \<open>State\<close>

text \<open>
  What the code calls: the vendored hash and signature check, the HTTP library and the login function of
  the game, and the payload itself, which gets its own memory.  \<open>ww_login\<close> is the game's function.
\<close>

record 'w wwfc_sdk =
  ww_ios :: "'w ios_sdk"
  ww_sha256 :: "bytes \<Rightarrow> bytes"
  ww_RSAVerify :: "bytes \<Rightarrow> bytes \<Rightarrow> bool"
  ww_call :: "u32 \<Rightarrow> bytes \<Rightarrow> 'w \<Rightarrow> (int \<times> bytes) \<times> 'w"
  ww_create :: "string \<Rightarrow> 'w \<Rightarrow> nat option \<times> 'w"
  ww_send :: "nat \<Rightarrow> 'w \<Rightarrow> int \<times> 'w"
  ww_destroy :: "'w \<Rightarrow> 'w"
  ww_login :: "'w \<Rightarrow> 'w"
  ww_region :: char

text \<open>\<open>ww_payload\<close> tells whether \<open>s_payload\<close> points to the block, whose address is \<open>ww_base\<close>.\<close>

record 'w wwfc =
  ww_world :: 'w
  ww_base :: u32
  ww_block :: bytes
  ww_payload :: bool
  ww_payloadReady :: bool
  ww_saltHash :: bytes
  ww_entry :: u32
  ww_authError :: int
  ww_handle :: int

definition setAuthError :: "int \<Rightarrow> 'w wwfc \<Rightarrow> 'w wwfc" where
  "setAuthError error s = s\<lparr>ww_authError := error\<rparr>"

section \<open>The response\<close>

text \<open>
  The loop over the patches from offset \<open>k\<close> on.  Addresses wrap; an access outside of the block is a fault.
\<close>

function disable_patches :: "u32 \<Rightarrow> u32 \<Rightarrow> nat \<Rightarrow> bytes \<Rightarrow> bytes option" where
  "disable_patches base patchesEnd k block =
     (if \<not> base + of_nat k < patchesEnd then Some block
      else do {
        level \<leftarrow> rd block k;
        block \<leftarrow> (if level = Patch_Critical \<or> level AND (Patch_Critical OR Patch_Support) \<noteq> 0 then Some block
          else wr block k (level OR Patch_Disabled));
        disable_patches base patchesEnd (k + PATCH_SIZE) block
      })"
  by pat_completeness auto
termination
  by (relation "measure (\<lambda>(base, patchesEnd, k, block). length block - k)")
    (auto simp: PATCH_SIZE_def fault_simps split: if_splits)

declare disable_patches.simps [simp del]

definition HandleResponse :: "'w wwfc_sdk \<Rightarrow> 'w wwfc \<Rightarrow> (int \<times> 'w wwfc) option" where
  "HandleResponse sdk s = do {
     ensure (ww_payload s);
     let block = ww_block s;
     magic \<leftarrow> rd_n block 0 4;
     total_size \<leftarrow> read_u32 block TOTAL_SIZE;
     salt \<leftarrow> rd_n block WWFC_HEADER_SIZE SHA256_DIGEST_SIZE;
     if magic \<noteq> [0x57, 0x57, 0x46, 0x43] then Some (STAGE1_HEADER_CHECK, s)
     else if unat total_size < WWFC_PAYLOAD_SIZE \<or> unat total_size > PAYLOAD_BLOCK_SIZE then Some (STAGE1_LENGTH_ERROR, s)
     else if salt \<noteq> ww_saltHash s then Some (STAGE1_SALT_MISMATCH, s)
     else do {
       signed \<leftarrow> rd_n block WWFC_HEADER_SIZE (unat total_size - WWFC_HEADER_SIZE);
       signature \<leftarrow> rd_n block SIGNATURE 0x100;
       if \<not> ww_RSAVerify sdk signature (ww_sha256 sdk signed) then Some (STAGE1_SIGNATURE_INVALID, s)
       else do {
         patch \<leftarrow> read_u32 block PATCH_LIST_OFFSET;
         patchesEnd \<leftarrow> read_u32 block PATCH_LIST_END;
         block \<leftarrow> disable_patches (ww_base s) (ww_base s + patchesEnd) (unat patch) block;
         entry_point \<leftarrow> read_u32 block ENTRY_POINT;
         let entry = ww_base s + entry_point;
         ensure (entry \<noteq> 0);
         let ((r, block), w) = ww_call sdk entry block (ww_world s);
         Some (r, s\<lparr>ww_block := block, ww_entry := entry, ww_world := w\<rparr>)
       }
     }
   }"

text \<open>The callback of the HTTP library; \<open>response\<close> tells whether there is a response.\<close>

definition OnPayloadReceived :: "'w wwfc_sdk \<Rightarrow> int \<Rightarrow> bool \<Rightarrow> 'w wwfc \<Rightarrow> 'w wwfc option" where
  "OnPayloadReceived sdk result response s =
     (if \<not> response then Some s
      else let s = s\<lparr>ww_world := ww_destroy sdk (ww_world s)\<rparr>
        in if result \<noteq> 0 then Some s
           else do {
             (error, s) \<leftarrow> HandleResponse sdk s;
             Some (if error \<noteq> 0 then setAuthError error s else setAuthError (-1) (s\<lparr>ww_payloadReady := True\<rparr>))
           })"

definition wwfcPayloadReady :: "'w wwfc \<Rightarrow> bool" where
  "wwfcPayloadReady s = ww_payloadReady s"

section \<open>The request\<close>

text \<open>Random bytes from a signature of the security processor; \<^term>\<open>None\<close> inside when that fails.\<close>

definition GenerateRandomSalt :: "'w wwfc_sdk \<Rightarrow> 'w wwfc \<Rightarrow> (bytes option \<times> 'w wwfc) option" where
  "GenerateRandomSalt sdk s =
     (let (fd, w) = IOS_Open (ww_ios sdk) ''/dev/es'' (ww_world s)
      in if fd < 0 then Some (None, s\<lparr>ww_world := w\<rparr>)
         else
           let ((ret, vec), w) = IOS_Ioctlv (ww_ios sdk) fd 0x30 1 2 [[0x7a], replicate 0x3c 0, replicate 0x180 0] w;
               (_, w) = IOS_Close (ww_ios sdk) fd w;
               s = s\<lparr>ww_world := w\<rparr>
           in if ret < 0 then Some (None, s)
              else do {
                eccSignature \<leftarrow> rd vec 1;
                eccCert \<leftarrow> rd vec 2;
                Some (Some (take SHA256_DIGEST_SIZE (ww_sha256 sdk (eccSignature @ eccCert))), s)
              })"

definition hex_digit :: "nat \<Rightarrow> char" where
  "hex_digit k = ''0123456789abcdef'' ! k"

text \<open>The format \<open>%02x\<close>.\<close>

definition hex2 :: "u8 \<Rightarrow> string" where
  "hex2 b = [hex_digit (unat (drop_bit 4 b)), hex_digit (unat (b AND 0xf))]"

definition wfc_uri :: "char \<Rightarrow> bytes \<Rightarrow> string" where
  "wfc_uri region salt = ''payload?g=RMC'' @ [region] @ ''D00&s='' @ concat (map hex2 salt) @ ''&v='' @ ''CHANGEME!''"

definition WWFC_DOMAIN :: string where
  "WWFC_DOMAIN = ''mkw-server.xyz''"

definition wfc_url :: "string \<Rightarrow> bytes \<Rightarrow> string" where
  "wfc_url uri saltHash = take 0xff (''http://'' @ take 63 WWFC_DOMAIN @ ''/'' @ take 127 uri @ ''&h='' @ concat (map hex2 (take 4 saltHash)))"

text \<open>
  \<open>uninit\<close> is what the array of the salt holds before: the code goes on when no salt could be made.  The
  region is not the character 0, so that \<open>strlen\<close> sees the whole of \<open>uri\<close>.
\<close>

definition string_bytes :: "string \<Rightarrow> bytes" where
  "string_bytes = map (\<lambda>c. of_nat (of_char c))"

definition createWFCAuthRequest :: "'w wwfc_sdk \<Rightarrow> bytes \<Rightarrow> 'w wwfc \<Rightarrow> (nat option \<times> 'w wwfc) option" where
  "createWFCAuthRequest sdk uninit s = do {
     block \<leftarrow> wr_n (ww_block s) 0 (replicate PAYLOAD_BLOCK_SIZE 0);
     let s = s\<lparr>ww_payload := True, ww_block := block\<rparr>;
     (r, s) \<leftarrow> GenerateRandomSalt sdk s;
     let (salt, s) = (case r of Some salt \<Rightarrow> (salt, s) | None \<Rightarrow> (uninit, setAuthError STAGE1_MAKE_REQUEST s));
     let uri = wfc_uri (ww_region sdk) salt;
     let saltHash = take SHA256_DIGEST_SIZE (ww_sha256 sdk (string_bytes uri));
     let (request, w) = ww_create sdk (wfc_url uri saltHash) (ww_world s);
     let s = s\<lparr>ww_saltHash := saltHash, ww_world := w\<rparr>;
     Some (request, if request = None then setAuthError STAGE1_MAKE_REQUEST s else s)
   }"

definition DWCi_Auth_SendRequest :: "'w wwfc_sdk \<Rightarrow> bytes \<Rightarrow> 'w wwfc \<Rightarrow> 'w wwfc option" where
  "DWCi_Auth_SendRequest sdk uninit s =
     (if wwfcPayloadReady s then Some (s\<lparr>ww_world := ww_login sdk (ww_world s)\<rparr>)
      else do {
        (request, s) \<leftarrow> createWFCAuthRequest sdk uninit s;
        case request of None \<Rightarrow> Some s
        | Some r \<Rightarrow> let (h, w) = ww_send sdk r (ww_world s) in Some (s\<lparr>ww_handle := h, ww_world := w\<rparr>)
      })"

section \<open>The patches\<close>

definition patch_after :: "u8 \<Rightarrow> u8" where
  "patch_after level = (if level = 0 \<or> bit level 3 then level else set_bit 4 level)"

definition patches_after :: "nat \<Rightarrow> nat \<Rightarrow> bytes \<Rightarrow> bytes" where
  "patches_after start stop block =
     map (\<lambda>j. if start \<le> j \<and> j < stop \<and> (j - start) mod 16 = 0 then patch_after (block ! j) else block ! j) [0..<length block]"

text \<open>The list of patches as the payload names it.\<close>

lemma patch_level:
  "(level = Patch_Critical \<or> level AND (Patch_Critical OR Patch_Support) \<noteq> 0) = (level = 0 \<or> bit level 3)"
  "level OR Patch_Disabled = set_bit 4 level"
proof -
  have "(level AND push_bit 3 1 \<noteq> 0) = bit level 3"
    by (metis (no_types) and_exp_eq_0_iff_not_bit push_bit_of_1)
  then show "(level = Patch_Critical \<or> level AND (Patch_Critical OR Patch_Support) \<noteq> 0) = (level = 0 \<or> bit level 3)"
    by (simp add: Patch_Critical_def Patch_Support_def push_bit_of_1)
  show "level OR Patch_Disabled = set_bit 4 level"
    by (simp add: Patch_Disabled_def set_bit_eq_or)
qed

lemma disable_patches_after:
  assumes "unat base + length block + PATCH_SIZE \<le> 2 ^ 32" and "stop \<le> length block" and "start \<le> stop + 15"
  shows "disable_patches base (base + of_nat stop) start block = Some (patches_after start stop block)"
  using assms
proof (induction "stop + 16 - start" arbitrary: start block rule: less_induct)
  case less
  have addr: "unat (base + of_nat k) = unat base + k" if "k \<le> length block + 15" for k
  proof -
    have "unat (of_nat k :: u32) = k" using that less.prems(1) by (intro unat_u32_of_nat) (simp add: PATCH_SIZE_def)
    then show ?thesis using that less.prems(1) by (simp add: unat_word_ariths PATCH_SIZE_def)
  qed
  have cmp: "base + of_nat start < base + of_nat stop \<longleftrightarrow> start < stop"
    using less.prems by (simp add: word_less_nat_alt addr)
  show ?case
  proof (cases "start < stop")
    case False
    then have "patches_after start stop block = block"
      by (intro nth_equalityI) (auto simp: patches_after_def)
    then show ?thesis using False cmp by (simp add: disable_patches.simps)
  next
    case True
    let ?block = "block[start := patch_after (block ! start)]"
    have "disable_patches base (base + of_nat stop) start block = disable_patches base (base + of_nat stop) (start + PATCH_SIZE) ?block"
      using True cmp less.prems(2)
      by (subst disable_patches.simps) (simp add: patch_level patch_after_def)
    also have "\<dots> = Some (patches_after (start + PATCH_SIZE) stop ?block)"
      using less.prems True by (intro less.hyps) (simp_all add: PATCH_SIZE_def)
    also have "patches_after (start + PATCH_SIZE) stop ?block = patches_after start stop block"
    proof (rule nth_equalityI)
      show "length (patches_after (start + PATCH_SIZE) stop ?block) = length (patches_after start stop block)"
        by (simp add: patches_after_def)
      fix j assume "j < length (patches_after (start + PATCH_SIZE) stop ?block)"
      then have j: "j < length block" by (simp add: patches_after_def)
      have "(j - start) mod 16 = 0 \<longleftrightarrow> j = start \<or> start + 16 \<le> j \<and> (j - (start + 16)) mod 16 = 0" if "start \<le> j"
      proof -
        obtain d where d: "j = start + d" using \<open>start \<le> j\<close> by (metis le_add_diff_inverse)
        then show ?thesis by (cases "d < 16") (auto simp: le_mod_geq)
      qed
      then show "patches_after (start + PATCH_SIZE) stop ?block ! j = patches_after start stop block ! j"
        using j True by (auto simp: patches_after_def PATCH_SIZE_def nth_list_update)
    qed
    finally show ?thesis .
  qed
qed

section \<open>What is checked before the payload runs\<close>

text \<open>The payload in \<open>block\<close> is one the client may run: an answer to the request with \<open>saltHash\<close>, signed by the server.\<close>

definition verified :: "'w wwfc_sdk \<Rightarrow> bytes \<Rightarrow> bytes \<Rightarrow> bool" where
  "verified sdk saltHash block \<longleftrightarrow>
     take 4 block = string_bytes ''WWFC'' \<and>
     (\<exists>total. read_u32 block TOTAL_SIZE = Some total \<and> WWFC_PAYLOAD_SIZE \<le> unat total \<and> unat total \<le> PAYLOAD_BLOCK_SIZE \<and>
        take SHA256_DIGEST_SIZE (drop WWFC_HEADER_SIZE block) = saltHash \<and>
        ww_RSAVerify sdk (take 0x100 (drop SIGNATURE block)) (ww_sha256 sdk (take (unat total - WWFC_HEADER_SIZE) (drop WWFC_HEADER_SIZE block))))"

lemma wwfc_magic: "string_bytes ''WWFC'' = [0x57, 0x57, 0x46, 0x43]"
  by (simp add: string_bytes_def)

lemmas wwfc_consts = WWFC_HEADER_SIZE_def WWFC_PAYLOAD_SIZE_def TOTAL_SIZE_def SIGNATURE_def PATCH_LIST_OFFSET_def
  PATCH_LIST_END_def ENTRY_POINT_def PATCH_SIZE_def PAYLOAD_BLOCK_SIZE_def SHA256_DIGEST_SIZE_def

lemma HandleResponse_cases:
  assumes "ww_payload s" and "length (ww_block s) = PAYLOAD_BLOCK_SIZE + 0x20"
  shows "(\<not> verified sdk (ww_saltHash s) (ww_block s) \<longrightarrow> (\<exists>e < 0. HandleResponse sdk s = Some (e, s))) \<and>
    (verified sdk (ww_saltHash s) (ww_block s) \<longrightarrow> HandleResponse sdk s = do {
       patch \<leftarrow> read_u32 (ww_block s) PATCH_LIST_OFFSET;
       patchesEnd \<leftarrow> read_u32 (ww_block s) PATCH_LIST_END;
       block \<leftarrow> disable_patches (ww_base s) (ww_base s + patchesEnd) (unat patch) (ww_block s);
       entry_point \<leftarrow> read_u32 block ENTRY_POINT;
       let entry = ww_base s + entry_point;
       ensure (entry \<noteq> 0);
       let ((r, block), w) = ww_call sdk entry block (ww_world s);
       Some (r, s\<lparr>ww_block := block, ww_entry := entry, ww_world := w\<rparr>)
     })"
proof -
  obtain total where total: "read_u32 (ww_block s) TOTAL_SIZE = Some total"
    using read_u32_total [of TOTAL_SIZE "ww_block s"] assms(2) by (auto simp: wwfc_consts)
  have "rd_n (ww_block s) 0 4 = Some (take 4 (ww_block s))"
    "rd_n (ww_block s) WWFC_HEADER_SIZE SHA256_DIGEST_SIZE = Some (take SHA256_DIGEST_SIZE (drop WWFC_HEADER_SIZE (ww_block s)))"
    "rd_n (ww_block s) SIGNATURE 0x100 = Some (take 0x100 (drop SIGNATURE (ww_block s)))"
    "unat total \<le> PAYLOAD_BLOCK_SIZE \<Longrightarrow> rd_n (ww_block s) WWFC_HEADER_SIZE (unat total - WWFC_HEADER_SIZE) =
       Some (take (unat total - WWFC_HEADER_SIZE) (drop WWFC_HEADER_SIZE (ww_block s)))"
    using assms(2) by (simp_all add: wwfc_consts)
  then show ?thesis
    using assms(1) total
    by (auto simp: HandleResponse_def verified_def wwfc_magic Let_def STAGE1_HEADER_CHECK_def STAGE1_LENGTH_ERROR_def
      STAGE1_SALT_MISMATCH_def STAGE1_SIGNATURE_INVALID_def not_le)
qed

lemma HandleResponse_runs:
  assumes "ww_payload s" and "length (ww_block s) = PAYLOAD_BLOCK_SIZE + 0x20" and "unat (ww_base s) + PAYLOAD_BLOCK_SIZE + 0x30 \<le> 2 ^ 32"
    and "read_u32 (ww_block s) PATCH_LIST_OFFSET = Some start" and "read_u32 (ww_block s) PATCH_LIST_END = Some stop"
    and "WWFC_PAYLOAD_SIZE \<le> unat start" and "start \<le> stop" and "unat stop \<le> length (ww_block s)"
    and "read_u32 (ww_block s) ENTRY_POINT = Some entry" and "ww_base s + entry \<noteq> 0"
  shows "(verified sdk (ww_saltHash s) (ww_block s) \<longrightarrow>
      HandleResponse sdk s = (let block = patches_after (unat start) (unat stop) (ww_block s);
          ((r, block), w) = ww_call sdk (ww_base s + entry) block (ww_world s)
        in Some (r, s\<lparr>ww_block := block, ww_entry := ww_base s + entry, ww_world := w\<rparr>))) \<and>
    (\<not> verified sdk (ww_saltHash s) (ww_block s) \<longrightarrow> (\<exists>e < 0. HandleResponse sdk s = Some (e, s)))"
proof -
  let ?block = "patches_after (unat start) (unat stop) (ww_block s)"
  have run: "disable_patches (ww_base s) (ww_base s + stop) (unat start) (ww_block s) = Some ?block"
    using disable_patches_after [of "ww_base s" "ww_block s" "unat stop" "unat start"] assms(2,3,7,8)
    by (simp add: wwfc_consts word_le_nat_alt)
  have same: "?block ! j = ww_block s ! j" if "j < WWFC_PAYLOAD_SIZE" for j
    using that assms(2,6) by (simp add: patches_after_def wwfc_consts)
  have "read_u32 ?block ENTRY_POINT = read_u32 (ww_block s) ENTRY_POINT"
    using same assms(2) by (simp add: read_u32_def wwfc_consts patches_after_def)
  then show ?thesis
    using HandleResponse_cases [OF assms(1,2), of sdk] run assms(4,5,9,10) by (simp add: Let_def)
qed


section \<open>No login without a verified payload\<close>

text \<open>
  What happens to the login: the game asks for it, and the HTTP library answers, with the body of the answer
  in the block.  The events of a run are in order.
\<close>

datatype auth_event = Asked bytes | Answered int bool bytes

definition with_body :: "bytes \<Rightarrow> 'w wwfc \<Rightarrow> 'w wwfc" where
  "with_body body s = s\<lparr>ww_block := splice (ww_block s) 0 body\<rparr>"

inductive auth_run :: "'w wwfc_sdk \<Rightarrow> 'w wwfc \<Rightarrow> auth_event list \<Rightarrow> 'w wwfc \<Rightarrow> bool" for sdk s0 where
  start: "auth_run sdk s0 [] s0"
| asked: "auth_run sdk s0 es s \<Longrightarrow> DWCi_Auth_SendRequest sdk uninit s = Some s' \<Longrightarrow> auth_run sdk s0 (es @ [Asked uninit]) s'"
| answered: "auth_run sdk s0 es s \<Longrightarrow> length body \<le> PAYLOAD_BLOCK_SIZE \<Longrightarrow>
    OnPayloadReceived sdk result response (with_body body s) = Some s' \<Longrightarrow> auth_run sdk s0 (es @ [Answered result response body]) s'"

lemma GenerateRandomSalt_keeps:
  "GenerateRandomSalt sdk s = Some (r, s') \<Longrightarrow> ww_payloadReady s' = ww_payloadReady s \<and> ww_block s' = ww_block s \<and> ww_payload s' = ww_payload s"
  by (auto simp: GenerateRandomSalt_def Let_def case_prod_beta split: if_splits Option.bind_splits)

lemma createWFCAuthRequest_keeps:
  assumes "createWFCAuthRequest sdk uninit s = Some (r, s')"
  shows "ww_payloadReady s' = ww_payloadReady s" and "ww_payload s'" and "length (ww_block s') = length (ww_block s)"
proof -
  obtain block r0 s1 where block: "wr_n (ww_block s) 0 (replicate PAYLOAD_BLOCK_SIZE 0) = Some block"
    and salt: "GenerateRandomSalt sdk (s\<lparr>ww_payload := True, ww_block := block\<rparr>) = Some (r0, s1)"
    and s': "ww_payloadReady s' = ww_payloadReady s1 \<and> ww_payload s' = ww_payload s1 \<and> ww_block s' = ww_block s1"
    using assms unfolding createWFCAuthRequest_def
    by (auto simp: bind_eq_Some_conv Let_def case_prod_beta setAuthError_def split: option.splits)
  show "ww_payloadReady s' = ww_payloadReady s" "ww_payload s'" "length (ww_block s') = length (ww_block s)"
    using s' GenerateRandomSalt_keeps [OF salt] block by (auto simp: fault_simps len_simps)
qed

lemma SendRequest_keeps:
  assumes "DWCi_Auth_SendRequest sdk uninit s = Some s'"
  shows "ww_payloadReady s' = ww_payloadReady s" and "length (ww_block s') = length (ww_block s)"
  using assms createWFCAuthRequest_keeps [of sdk uninit s]
  by (auto simp: DWCi_Auth_SendRequest_def Let_def case_prod_beta split: if_splits Option.bind_splits option.splits)

text \<open>A callback that makes the payload ready has seen a verified one, which reported success when it was run.\<close>

lemma HandleResponse_zero:
  assumes "HandleResponse sdk s = Some (0, s')"
  shows "verified sdk (ww_saltHash s) (ww_block s) \<and> ww_payloadReady s' = ww_payloadReady s"
  using assms
  by (auto simp: HandleResponse_def verified_def wwfc_magic Let_def case_prod_beta STAGE1_HEADER_CHECK_def STAGE1_LENGTH_ERROR_def
    STAGE1_SALT_MISMATCH_def STAGE1_SIGNATURE_INVALID_def fault_simps split: if_splits Option.bind_splits)

lemma OnPayloadReceived_ready:
  assumes "OnPayloadReceived sdk result response s = Some s'" and "ww_payloadReady s'" and "\<not> ww_payloadReady s"
  shows "result = 0 \<and> response \<and> verified sdk (ww_saltHash s) (ww_block s)"
proof -
  have "ww_payloadReady s'' = ww_payloadReady t" if "HandleResponse sdk t = Some (e, s'')" for e t s''
    using that by (auto simp: HandleResponse_def Let_def case_prod_beta split: if_splits Option.bind_splits)
  then show ?thesis
    using assms HandleResponse_zero [of sdk "s\<lparr>ww_world := ww_destroy sdk (ww_world s)\<rparr>"]
    by (auto simp: OnPayloadReceived_def Let_def setAuthError_def split: if_splits Option.bind_splits)
qed


section \<open>Example\<close>

text \<open>
  A server whose signature is a run of 5s and whose hash is a run of 7s.  The payload has two patches behind
  its header, a critical one and one that fixes a bug; it reports success.
\<close>

definition ex_body :: bytes where
  "ex_body = [0x57, 0x57, 0x46, 0x43] @ replicate 8 0 @ [0, 0, 1, 0xc0] @ replicate 0x100 5 @ replicate 32 7 @ replicate 0x28 0 @
     [0, 0, 1, 0xa0] @ [0, 0, 1, 0xc0] @ [0, 0, 2, 0] @ replicate 0x3c 0 @ replicate 0x10 0 @ 1 # replicate 0xf 0"

definition ex_wwfc :: "nat wwfc_sdk" where
  "ex_wwfc = \<lparr>ww_ios = \<lparr>IOS_Open = (\<lambda>p w. (3, w)), IOS_Close = (\<lambda>fd w. (0, w)), IOS_Ioctl = (\<lambda>fd c i n w. ((0, replicate n 0), w)),
       IOS_Ioctlv = (\<lambda>fd c i n vec w. ((0, vec), w))\<rparr>,
     ww_sha256 = (\<lambda>b. replicate 32 7), ww_RSAVerify = (\<lambda>sig h. sig = replicate 0x100 5 \<and> h = replicate 32 7),
     ww_call = (\<lambda>a b w. ((0, b), w + 1)), ww_create = (\<lambda>url w. (Some 1, w)), ww_send = (\<lambda>r w. (4, w)), ww_destroy = id, ww_login = id,
     ww_region = CHR ''P''\<rparr>"

definition ex_client :: "nat wwfc" where
  "ex_client = \<lparr>ww_world = 0, ww_base = 0x80400000, ww_block = ex_body @ replicate (PAYLOAD_BLOCK_SIZE + 0x20 - length ex_body) 0, ww_payload = True,
     ww_payloadReady = False, ww_saltHash = replicate 32 7, ww_entry = 0, ww_authError = 0, ww_handle = 0\<rparr>"

lemma length_ex_body: "length ex_body = 0x1c0"
  by (simp add: ex_body_def)

lemma ex_body_words:
  "take 4 (ex_body @ z) = [0x57, 0x57, 0x46, 0x43]" "read_u32 (ex_body @ z) TOTAL_SIZE = Some 0x1c0"
  "read_u32 (ex_body @ z) PATCH_LIST_OFFSET = Some 0x1a0" "read_u32 (ex_body @ z) PATCH_LIST_END = Some 0x1c0"
  "read_u32 (ex_body @ z) ENTRY_POINT = Some 0x200"
  "take 32 (drop 0x110 (ex_body @ z)) = replicate 32 7" "take 0x100 (drop 0x10 (ex_body @ z)) = replicate 0x100 5"
  by (simp_all add: ex_body_def read_u32_def rd_def nth_append wwfc_consts)

lemma ex_verified: "verified ex_wwfc (replicate 32 7) (ex_body @ z)"
  by (simp add: verified_def ex_body_words wwfc_magic ex_wwfc_def WWFC_PAYLOAD_SIZE_def PAYLOAD_BLOCK_SIZE_def
    WWFC_HEADER_SIZE_def SHA256_DIGEST_SIZE_def SIGNATURE_def ex_body_words(6,7) del: take_append drop_append)

lemma ex_client_fields:
  "ww_payload ex_client" "ww_base ex_client = 0x80400000" "ww_saltHash ex_client = replicate 32 7" "ww_world ex_client = 0" "\<not> ww_payloadReady ex_client"
  "ww_block ex_client = ex_body @ replicate (PAYLOAD_BLOCK_SIZE + 0x20 - length ex_body) 0"
  "length (ww_block ex_client) = PAYLOAD_BLOCK_SIZE + 0x20"
  by (simp_all add: ex_client_def length_ex_body PAYLOAD_BLOCK_SIZE_def)

lemma ex_fits:
  "unat (ww_base ex_client) + PAYLOAD_BLOCK_SIZE + 0x30 \<le> 2 ^ 32" "ww_base ex_client + 0x200 \<noteq> 0"
  "unat (0x1c0 :: u32) \<le> length (ww_block ex_client)" "WWFC_PAYLOAD_SIZE \<le> unat (0x1a0 :: u32)" "(0x1a0 :: u32) \<le> 0x1c0"
  by (simp_all add: ex_client_fields(2,7) PAYLOAD_BLOCK_SIZE_def WWFC_PAYLOAD_SIZE_def)

lemma ex_words:
  "read_u32 (ww_block ex_client) PATCH_LIST_OFFSET = Some 0x1a0" "read_u32 (ww_block ex_client) PATCH_LIST_END = Some 0x1c0"
  "read_u32 (ww_block ex_client) ENTRY_POINT = Some 0x200" "verified ex_wwfc (ww_saltHash ex_client) (ww_block ex_client)"
  unfolding ex_client_fields by (simp_all only: ex_body_words ex_verified)

lemma ex_levels: "ww_block ex_client ! 0x1a0 = 0" "ww_block ex_client ! 0x1b0 = 1"
proof -
  have "ww_block ex_client ! k = (replicate 0x10 0 @ 1 # replicate 0xf (0 :: u8)) ! (k - 0x1a0)" if "0x1a0 \<le> k" "k < 0x1c0" for k
  proof -
    let ?pre = "[0x57, 0x57, 0x46, 0x43] @ replicate 8 0 @ [0, 0, 1, 0xc0] @ replicate 0x100 5 @ replicate 32 7 @ replicate 0x28 0 @
       [0, 0, 1, 0xa0] @ [0, 0, 1, 0xc0] @ [0, 0, 2, 0] @ replicate 0x3c (0 :: u8)"
    have body: "ex_body = ?pre @ replicate 0x10 0 @ 1 # replicate 0xf 0" and len: "length ?pre = 0x1a0" by (simp_all add: ex_body_def)
    have "ww_block ex_client ! k = ex_body ! k"
      unfolding ex_client_fields(6) using that length_ex_body by (simp add: nth_append)
    also have "\<dots> = (replicate 0x10 0 @ 1 # replicate 0xf (0 :: u8)) ! (k - length ?pre)"
      unfolding body by (rule nth_append_right) (use that len in linarith)
    finally show ?thesis unfolding len .
  qed
  then show "ww_block ex_client ! 0x1a0 = 0" "ww_block ex_client ! 0x1b0 = 1" by (simp_all add: nth_append)
qed



end
