(* ===== verification/Map_File.thy ===== *)
theory Map_File
  imports Prelude
begin

text \<open>
  \<open>payload/sp/MapFile.cc\<close>: the names of addresses.  The symbol map is a text with one line per symbol, an
  address and a name, in the order of the addresses; a lookup reads it from the start.  The lemmas show that
  the lookup is the search in the list of lines.
\<close>

section \<open>The code\<close>

definition SYMBOL_ADDRESS_LENGTH :: nat where "SYMBOL_ADDRESS_LENGTH = 10"

type_synonym symbol = "u32 \<times> string"

definition newline :: char where
  "newline = CHR 0x0a"

definition is_xdigit :: "char \<Rightarrow> bool" where
  "is_xdigit c \<longleftrightarrow> c \<in> set ''0123456789abcdefABCDEF''"

definition xdigit_value :: "char \<Rightarrow> nat" where
  "xdigit_value c = (let k = of_char c in if k < 0x3a then k - 0x30 else if k < 0x47 then k - 0x41 + 10 else k - 0x61 + 10)"

text \<open>\<open>std::from_chars\<close> on eight hexadecimal digits, which fit an \<open>u32\<close>.\<close>

definition from_hex :: "string \<Rightarrow> u32" where
  "from_hex ds = foldl (\<lambda>v c. v * 16 + of_nat (xdigit_value c)) 0 ds"

definition GetSymbolAddress :: "string \<Rightarrow> u32 option" where
  "GetSymbolAddress sv =
     (if length sv < SYMBOL_ADDRESS_LENGTH then None
      else let sv = take SYMBOL_ADDRESS_LENGTH sv
        in if take 2 sv \<noteq> ''0x'' then None
           else if \<not> list_all is_xdigit (drop 2 sv) then None
           else Some (from_hex (drop 2 sv)))"

text \<open>\<open>GetNextSymbol\<close>, with the position behind the line that has been read.\<close>

definition GetNextSymbol :: "string \<Rightarrow> nat \<Rightarrow> symbol option \<times> nat" where
  "GetNextSymbol mapFile mapFilePos =
     (if mapFilePos = length mapFile then (None, mapFilePos)
      else
        let line = drop mapFilePos mapFile;
            lineStartIndex = length (takeWhile (\<lambda>c. c = newline) line);
            line = drop lineStartIndex line;
            mapFilePos = mapFilePos + lineStartIndex;
            lineEndIndex = length (takeWhile (\<lambda>c. c \<noteq> newline) line);
            line = take lineEndIndex line;
            mapFilePos = mapFilePos + lineEndIndex
        in (case GetSymbolAddress line of
              None \<Rightarrow> None
            | Some symbolAddress \<Rightarrow>
                let line = drop SYMBOL_ADDRESS_LENGTH line
                in if take 1 line \<noteq> '' '' then None
                   else let line = drop 1 line in if line = [] then None else Some (symbolAddress, line),
            mapFilePos))"

lemma GetNextSymbol_advances:
  assumes "GetNextSymbol mapFile pos = (Some x, pos')"
  shows "pos < pos' \<and> pos' \<le> length mapFile"
proof -
  let ?line = "drop (length (takeWhile (\<lambda>c. c = newline) (drop pos mapFile))) (drop pos mapFile)"
  have "takeWhile (\<lambda>c. c \<noteq> newline) ?line \<noteq> []" "pos \<noteq> length mapFile"
    and pos': "pos' = pos + length (takeWhile (\<lambda>c. c = newline) (drop pos mapFile)) + length (takeWhile (\<lambda>c. c \<noteq> newline) ?line)"
    using assms by (auto simp: GetNextSymbol_def GetSymbolAddress_def SYMBOL_ADDRESS_LENGTH_def Let_def split: if_splits)
  moreover have "pos < length mapFile" using calculation(1) by (cases "pos < length mapFile") auto
  moreover have "length (takeWhile (\<lambda>c. c \<noteq> newline) ?line) \<le> length ?line" by (rule length_takeWhile_le)
  moreover have "length (takeWhile (\<lambda>c. c = newline) (drop pos mapFile)) \<le> length (drop pos mapFile)" by (rule length_takeWhile_le)
  ultimately show ?thesis by (auto simp: length_greater_0_conv [symmetric] simp del: length_greater_0_conv)
qed

function lower_bound_loop :: "string \<Rightarrow> u32 \<Rightarrow> symbol \<Rightarrow> nat \<Rightarrow> symbol" where
  "lower_bound_loop mapFile address prevSymbol mapFilePos =
     (case GetNextSymbol mapFile mapFilePos of
        (None, _) \<Rightarrow> prevSymbol
      | (Some nextSymbol, mapFilePos) \<Rightarrow>
          if fst nextSymbol \<ge> address then prevSymbol else lower_bound_loop mapFile address nextSymbol mapFilePos)"
  by pat_completeness auto
termination
  by (relation "measure (\<lambda>(mapFile, address, prevSymbol, pos). length mapFile - pos)") (auto dest!: GetNextSymbol_advances [OF sym])

declare lower_bound_loop.simps [simp del]

text \<open>\<open>mapFile\<close> is \<^term>\<open>None\<close> when no map has been loaded.\<close>

definition SymbolLowerBound :: "string option \<Rightarrow> u32 \<Rightarrow> symbol option" where
  "SymbolLowerBound mapFile address =
     (case mapFile of None \<Rightarrow> None
      | Some content \<Rightarrow> (case GetNextSymbol content 0 of (None, _) \<Rightarrow> None | (Some s, pos) \<Rightarrow> Some (lower_bound_loop content address s pos)))"

section \<open>The list of symbols\<close>

fun split_lines :: "string \<Rightarrow> string list" where
  "split_lines [] = [[]]"
| "split_lines (c # cs) = (if c = newline then [] # split_lines cs else (c # hd (split_lines cs)) # tl (split_lines cs))"

definition lines_of :: "string \<Rightarrow> string list" where
  "lines_of content = filter (\<lambda>l. l \<noteq> []) (split_lines content)"

definition symbol_of_line :: "string \<Rightarrow> symbol option" where
  "symbol_of_line l = (case GetSymbolAddress l of None \<Rightarrow> None
     | Some a \<Rightarrow> if length l > 11 \<and> l ! 10 = CHR '' '' then Some (a, drop 11 l) else None)"

text \<open>Reading stops at the first line that is not a symbol.\<close>

definition symbols :: "string \<Rightarrow> symbol list" where
  "symbols content = map (the \<circ> symbol_of_line) (takeWhile (\<lambda>l. symbol_of_line l \<noteq> None) (lines_of content))"

lemma split_lines_not_Nil [simp]: "split_lines content \<noteq> []"
  by (cases content) auto

lemma split_lines_line:
  "split_lines content = takeWhile (\<lambda>c. c \<noteq> newline) content # (case dropWhile (\<lambda>c. c \<noteq> newline) content of [] \<Rightarrow> [] | c # cs \<Rightarrow> split_lines cs)"
  by (induction content) (auto split: list.split)

lemma lines_of_newlines: "lines_of (dropWhile (\<lambda>c. c = newline) content) = lines_of content"
  by (induction content) (simp_all add: lines_of_def)

lemma lines_of_line:
  assumes "content \<noteq> []" and "hd content \<noteq> newline"
  shows "lines_of content = takeWhile (\<lambda>c. c \<noteq> newline) content # lines_of (dropWhile (\<lambda>c. c \<noteq> newline) content)"
proof -
  have "takeWhile (\<lambda>c. c \<noteq> newline) content \<noteq> []" using assms by (cases content) auto
  moreover have "lines_of (dropWhile (\<lambda>c. c \<noteq> newline) content) = filter (\<lambda>l. l \<noteq> []) (case dropWhile (\<lambda>c. c \<noteq> newline) content of [] \<Rightarrow> [] | c # cs \<Rightarrow> split_lines cs)"
  proof (cases "dropWhile (\<lambda>c. c \<noteq> newline) content")
    case (Cons c cs)
    then have "c = newline" using hd_dropWhile [of "\<lambda>c. c \<noteq> newline" content] by simp
    then show ?thesis using Cons by (simp add: lines_of_def)
  next
    case Nil
    then show ?thesis unfolding Nil by (simp add: lines_of_def)
  qed
  ultimately show ?thesis by (simp add: lines_of_def split_lines_line [of content])
qed

lemma length_takeWhile_dropWhile: "drop (length (takeWhile P xs)) xs = dropWhile P xs"
  by (simp add: dropWhile_eq_drop)

lemma take_length_takeWhile: "take (length (takeWhile P xs)) xs = takeWhile P xs"
  by (rule takeWhile_eq_take [symmetric])

lemma GetNextSymbol_line:
  assumes "pos \<le> length content"
  shows "case lines_of (drop pos content) of
      [] \<Rightarrow> fst (GetNextSymbol content pos) = None
    | l # ls \<Rightarrow> fst (GetNextSymbol content pos) = symbol_of_line l \<and> lines_of (drop (snd (GetNextSymbol content pos)) content) = ls \<and>
        snd (GetNextSymbol content pos) \<le> length content"
proof (cases "pos = length content")
  case True
  then show ?thesis by (simp add: lines_of_def GetNextSymbol_def)
next
  case False
  let ?rest = "dropWhile (\<lambda>c. c = newline) (drop pos content)"
  let ?k = "length (takeWhile (\<lambda>c. c = newline) (drop pos content))"
  let ?line = "takeWhile (\<lambda>c. c \<noteq> newline) ?rest"
  have rest: "?rest = drop (pos + ?k) content" by (simp add: dropWhile_eq_drop add.commute)
  have fst: "fst (GetNextSymbol content pos) = symbol_of_line ?line"
  proof -
    have eq: "(if take 1 (drop 10 l) \<noteq> '' '' then None else let line = drop 1 (drop 10 l) in if line = [] then None else Some (a, line)) =
        (if length l > 11 \<and> l ! 10 = CHR '' '' then Some (a, drop 11 l) else None)" for l :: string and a :: u32
    proof (cases "drop 10 l")
      case (Cons c cs)
      then have "10 < length l" by (metis drop_eq_Nil linorder_not_less list.distinct(1))
      then have "l ! 10 = c" "drop 11 l = cs" using Cons by (simp_all add: Cons_nth_drop_Suc [symmetric] eval_nat_numeral)
      then show ?thesis using Cons by (auto simp: drop_eq_Nil Let_def)
    qed simp
    show ?thesis
      unfolding GetNextSymbol_def Let_def length_takeWhile_dropWhile take_length_takeWhile symbol_of_line_def SYMBOL_ADDRESS_LENGTH_def
        eq [unfolded Let_def] using False by simp
  qed
  have snd: "snd (GetNextSymbol content pos) = pos + ?k + length ?line"
    unfolding GetNextSymbol_def Let_def length_takeWhile_dropWhile take_length_takeWhile using False by simp
  have after: "drop (snd (GetNextSymbol content pos)) content = dropWhile (\<lambda>c. c \<noteq> newline) ?rest"
    unfolding snd by (subst rest) (simp add: dropWhile_eq_drop rest add.commute)
  show ?thesis
  proof (cases "?rest = []")
    case True
    then have "lines_of (drop pos content) = []" using lines_of_newlines [of "drop pos content"] unfolding True by (simp add: lines_of_def)
    moreover have "symbol_of_line [] = None" by (simp add: symbol_of_line_def GetSymbolAddress_def SYMBOL_ADDRESS_LENGTH_def)
    ultimately show ?thesis using fst True by simp
  next
    case nonempty: False
    then have "hd ?rest \<noteq> newline" using hd_dropWhile [of "\<lambda>c. c = newline" "drop pos content"] by simp
    then have "lines_of (drop pos content) = ?line # lines_of (dropWhile (\<lambda>c. c \<noteq> newline) ?rest)"
      using lines_of_line [OF nonempty] lines_of_newlines by metis
    moreover have "length ?line \<le> length ?rest" by (rule length_takeWhile_le)
    moreover have "length ?rest = length content - (pos + ?k)" unfolding rest by (rule length_drop)
    moreover have "?k \<le> length (drop pos content)" by (rule length_takeWhile_le)
    ultimately have "pos + ?k + length ?line \<le> length content" using assms by simp
    then show ?thesis using fst after snd nonempty lines_of_line [OF nonempty] \<open>hd ?rest \<noteq> newline\<close> lines_of_newlines [of "drop pos content"] by simp
  qed
qed

lemma lower_bound_loop_symbols:
  assumes "pos \<le> length content"
  shows "lower_bound_loop content address s pos =
    last (s # takeWhile (\<lambda>x. fst x < address) (map (the \<circ> symbol_of_line) (takeWhile (\<lambda>l. symbol_of_line l \<noteq> None) (lines_of (drop pos content)))))"
  using assms
proof (induction "lines_of (drop pos content)" arbitrary: s pos)
  case Nil
  then have "fst (GetNextSymbol content pos) = None" using GetNextSymbol_line [OF Nil.prems] by simp
  then show ?case using Nil(1) by (subst lower_bound_loop.simps) (auto split: prod.split option.split)
next
  case (Cons l ls)
  have step: "fst (GetNextSymbol content pos) = symbol_of_line l" "lines_of (drop (snd (GetNextSymbol content pos)) content) = ls"
    "snd (GetNextSymbol content pos) \<le> length content"
    using GetNextSymbol_line [OF Cons.prems] Cons(2) [symmetric] by auto
  show ?case
  proof (cases "symbol_of_line l")
    case None
    then show ?thesis using step(1) Cons(2) [symmetric] by (subst lower_bound_loop.simps) (auto split: prod.split option.split)
  next
    case (Some x)
    have nx: "GetNextSymbol content pos = (Some x, snd (GetNextSymbol content pos))" using step(1) Some by (metis prod.collapse)
    show ?thesis
    proof (cases "fst x < address")
      case False
      then have ge: "address \<le> fst x" by simp
      show ?thesis using Some Cons(2) [symmetric] False ge by (subst lower_bound_loop.simps, subst nx) (simp del: not_less)
    next
      case True
      then have "\<not> address \<le> fst x" by simp
      then have "lower_bound_loop content address s pos = lower_bound_loop content address x (snd (GetNextSymbol content pos))"
        by (subst lower_bound_loop.simps, subst nx) (simp del: not_le)
      then show ?thesis using Cons(1) [OF step(2) [symmetric] step(3)] True Some step(2) Cons(2) [symmetric] by simp
    qed
  qed
qed

lemma SymbolLowerBound_symbols:
  "SymbolLowerBound (Some content) address = (case symbols content of [] \<Rightarrow> None | s # ss \<Rightarrow> Some (last (s # takeWhile (\<lambda>x. fst x < address) ss)))"
proof (cases "lines_of content")
  case Nil
  then have "fst (GetNextSymbol content 0) = None" using GetNextSymbol_line [of 0 content] by simp
  then show ?thesis using Nil by (auto simp: SymbolLowerBound_def symbols_def split: prod.split option.split)
next
  case (Cons l ls)
  have step: "fst (GetNextSymbol content 0) = symbol_of_line l" "lines_of (drop (snd (GetNextSymbol content 0)) content) = ls"
    "snd (GetNextSymbol content 0) \<le> length content"
    using GetNextSymbol_line [of 0 content] Cons by auto
  show ?thesis
    using step Cons lower_bound_loop_symbols [OF step(3), of address]
    by (cases "symbol_of_line l") (auto simp: SymbolLowerBound_def symbols_def split: prod.split option.split)
qed

end
