(* ===== verification/Stack_Trace.thy ===== *)
theory Stack_Trace
  imports Map_File
begin

text \<open>
  \<open>payload/sp/StackTrace.cc\<close> and the rest of \<open>payload/sp/MapFile.cc\<close>: which binary an address belongs to, which
  symbol is its, and the text of a stack trace in a buffer of limited size.
\<close>

section \<open>Symbols in order\<close>

lemma last_takeWhile_less:
  fixes a :: u32
  assumes "sorted_wrt (<) (map fst (s # ss))"
  shows "let r = last (s # takeWhile (\<lambda>x. fst x < a) ss) in r \<in> set (s # ss) \<and> (\<forall>t \<in> set (s # ss). fst t < a \<longrightarrow> fst t \<le> fst r) \<and>
    (fst r < a \<or> (\<forall>t \<in> set (s # ss). a \<le> fst t \<and> fst r \<le> fst t))"
  using assms
proof (induction ss arbitrary: s)
  case (Cons x xs)
  show ?case
  proof (cases "fst x < a")
    case False
    then have "\<forall>t \<in> set (x # xs). a \<le> fst t" "\<forall>t \<in> set (x # xs). fst s \<le> fst t"
      using Cons.prems by (auto simp: not_less dest: order_trans less_imp_le)
    then show ?thesis using False by (auto simp: not_less not_le dest: leD)
  next
    case True
    then have s: "fst s < a" "fst s < fst x" using Cons.prems by auto
    let ?r = "last (x # takeWhile (\<lambda>y. fst y < a) xs)"
    have eq: "last (s # takeWhile (\<lambda>y. fst y < a) (x # xs)) = ?r" using True by simp
    have r: "?r \<in> set (x # xs)" "\<forall>t \<in> set (x # xs). fst t < a \<longrightarrow> fst t \<le> fst ?r" "fst ?r < a \<or> (\<forall>t \<in> set (x # xs). a \<le> fst t \<and> fst ?r \<le> fst t)"
      using Cons.IH [of x] Cons.prems unfolding Let_def by (simp_all del: last.simps)
    have "fst ?r < a" using r(3) True by auto
    moreover have "fst x \<le> fst ?r" using r(2) True by simp
    then have "fst s \<le> fst ?r" using s by simp
    ultimately show ?thesis unfolding Let_def eq using r(1,2) by auto
  qed
qed auto

text \<open>C35: On a map whose symbols are in the order of their addresses, the lookup gives the symbol with
  the greatest address below the given one, or the first symbol if there is none below. The symbol
  that has exactly the given address is not found unless it is the first.\<close>

theorem symbol_lower_bound:
  assumes "sorted_wrt (<) (map fst (symbols content))"
  shows "case SymbolLowerBound (Some content) address of
      None \<Rightarrow> symbols content = []
    | Some s \<Rightarrow> s \<in> set (symbols content) \<and> (\<forall>t \<in> set (symbols content). fst t < address \<longrightarrow> fst t \<le> fst s) \<and>
        (fst s < address \<or> (\<forall>t \<in> set (symbols content). address \<le> fst t \<and> fst s \<le> fst t))"
proof (cases "symbols content")
  case (Cons s ss)
  then show ?thesis
    using last_takeWhile_less [of s ss address] assms unfolding SymbolLowerBound_symbols Cons Let_def list.case option.case by simp
qed (simp add: SymbolLowerBound_symbols)

section \<open>Binaries\<close>

datatype binary_type = BINARY_SP | BINARY_REL | BINARY_DOL | BINARY_ILLEGAL

text \<open>The addresses that the linker gives.\<close>

record sections =
  payload_text_start :: u32
  payload_replacements_end :: u32
  rel_text_start :: u32
  rel_text_end :: u32
  dol_init_start :: u32
  dol_text_end :: u32

definition ClassifyPointer :: "sections \<Rightarrow> u32 \<Rightarrow> binary_type" where
  "ClassifyPointer b p =
     (if p \<ge> payload_text_start b \<and> p < payload_replacements_end b then BINARY_SP
      else if p \<ge> rel_text_start b \<and> p < rel_text_end b then BINARY_REL
      else if p \<ge> dol_init_start b \<and> p < dol_text_end b then BINARY_DOL
      else BINARY_ILLEGAL)"

definition REGION_P :: u16 where "REGION_P = 0x54a9"
definition REGION_E :: u16 where "REGION_E = 0x5409"
definition REGION_J :: u16 where "REGION_J = 0x53cd"
definition REGION_K :: u16 where "REGION_K = 0x5511"

definition PortPointer :: "sections \<Rightarrow> u16 \<Rightarrow> u32 \<Rightarrow> u32" where
  "PortPointer b region p =
     (if ClassifyPointer b p = BINARY_REL then
        let portedPointer = p - rel_text_start b
        in if region = REGION_E then portedPointer + 0x8050C034
           else if region = REGION_P then portedPointer + 0x805103B4
           else if region = REGION_J then portedPointer + 0x8050FD34
           else if region = REGION_K then portedPointer + 0x804FE3D4
           else p
      else p)"

text \<open>
  \<open>mem\<close> gives the word at an address, whether aligned or not.  The loop looks for the instruction \<open>blr\<close> at
  every address, not at every fourth one.
\<close>

function blr_between :: "(u32 \<Rightarrow> u32 option) \<Rightarrow> u32 \<Rightarrow> u32 \<Rightarrow> bool option" where
  "blr_between mem it lr =
     (if it < lr then do { ins \<leftarrow> mem it; if ins = 0x4E800020 then Some True else blr_between mem (it + 1) lr } else Some False)"
  by pat_completeness auto
termination
proof (relation "measure (\<lambda>(mem, it, lr). unat lr - unat it)")
  fix mem :: "u32 \<Rightarrow> u32 option" and it lr ins :: u32
  assume less: "it < lr"
  moreover have "unat lr < 2 ^ LENGTH(32)" by (rule unsigned_less)
  ultimately have "unat (it + 1) = unat it + 1"
    by (simp add: word_less_nat_alt unat_word_ariths)
  then show "((mem, it + 1, lr), mem, it, lr) \<in> measure (\<lambda>(mem, it, lr). unat lr - unat it)"
    using less by (simp add: word_less_nat_alt)
qed simp

declare blr_between.simps [simp del]

definition ScoreMatch :: "sections \<Rightarrow> (u32 \<Rightarrow> u32 option) \<Rightarrow> u32 \<Rightarrow> u32 \<Rightarrow> bool option" where
  "ScoreMatch b mem symbol lr =
     (if lr < symbol then Some False
      else case ClassifyPointer b lr of
        BINARY_SP \<Rightarrow> Some True
      | BINARY_ILLEGAL \<Rightarrow> Some False
      | _ \<Rightarrow> if lr - symbol > 0x4D14 then Some False
             else do { found \<leftarrow> blr_between mem symbol lr; Some (\<not> found) })"

section \<open>Walking the stack\<close>

text \<open>What a trace depends on: memory and its sizes, the register \<open>IABR\<close>, the region, the map, and how \<open>%p\<close> is printed.\<close>

record trace_env =
  te_mem :: "u32 \<Rightarrow> u32 option"
  te_mem1 :: u32
  te_mem2 :: u32
  te_iabr :: u32
  te_region :: u16
  te_sections :: sections
  te_map :: "string option"
  te_p :: "u32 \<Rightarrow> string"

record trace_it =
  ti_cur :: u32
  ti_depth :: int
  ti_maxDepth :: int

definition OS_MEM_REGION_ID_MASK :: u32 where "OS_MEM_REGION_ID_MASK = 0x30000000"
definition OS_MEM1_REGION_PREFIX :: u32 where "OS_MEM1_REGION_PREFIX = 0x00000000"
definition OS_MEM2_REGION_PREFIX :: u32 where "OS_MEM2_REGION_PREFIX = 0x10000000"

definition CheckPointer :: "trace_env \<Rightarrow> u32 \<Rightarrow> bool" where
  "CheckPointer e addr =
     (if addr = 0 \<or> addr = NOT 0 then False
      else if addr AND OS_MEM_REGION_ID_MASK = OS_MEM1_REGION_PREFIX then addr AND 0x0FFFFFFF < te_mem1 e
      else if addr AND OS_MEM_REGION_ID_MASK = OS_MEM2_REGION_PREFIX then addr AND 0x0FFFFFFF < te_mem2 e
      else False)"

definition StackTraceIterator_create :: "u32 \<Rightarrow> trace_it" where
  "StackTraceIterator_create start = \<lparr>ti_cur = start, ti_depth = 0, ti_maxDepth = 15\<rparr>"

definition StackCanary_IsLinkRegisterEncrypted :: "u32 \<Rightarrow> bool" where
  "StackCanary_IsLinkRegisterEncrypted lr \<longleftrightarrow> lr AND push_bit 31 1 = 0"

definition StackCanary_XORLinkRegister :: "trace_env \<Rightarrow> u32 \<Rightarrow> u32" where
  "StackCanary_XORLinkRegister e lr = lr XOR te_iabr e"

definition StackTraceIterator_read :: "trace_env \<Rightarrow> trace_it \<Rightarrow> (u32 option \<times> trace_it) option" where
  "StackTraceIterator_read e it =
     (if ti_depth it \<ge> ti_maxDepth it then Some (None, it)
      else if \<not> CheckPointer e (ti_cur it) then Some (None, it)
      else do {
        lr \<leftarrow> te_mem e (ti_cur it + 4);
        let addr = (if StackCanary_IsLinkRegisterEncrypted lr then StackCanary_XORLinkRegister e lr else lr);
        nxt \<leftarrow> te_mem e (ti_cur it);
        Some (Some addr, it\<lparr>ti_depth := ti_depth it + 1, ti_cur := nxt\<rparr>)
      })"

section \<open>The text of a trace\<close>

text \<open>The format \<open>%X\<close>.\<close>

fun hex_upper :: "nat \<Rightarrow> string" where
  "hex_upper n = (if n < 16 then [''0123456789ABCDEF'' ! n] else hex_upper (n div 16) @ [''0123456789ABCDEF'' ! (n mod 16)])"

declare hex_upper.simps [simp del]

text \<open>\<open>fmtSym\<close>: the text is cut to 255 characters, and one that has been cut ends in a newline.\<close>

definition fmtSym :: "symbol option \<Rightarrow> u32 \<Rightarrow> string" where
  "fmtSym sm lr = (case sm of None \<Rightarrow> ''<- ''
     | Some (address, name) \<Rightarrow>
         let delta = sint (lr - address);
             t = take 255 (name @ '' ['' @ [if delta < 0 then CHR ''-'' else CHR ''+''] @ ''0x'' @ hex_upper (nat \<bar>delta\<bar>) @ '']'' @ [newline])
         in if length t \<ge> 255 then t[254 := newline] else t)"

definition binary_name :: "binary_type \<Rightarrow> string" where
  "binary_name b = (case b of BINARY_DOL \<Rightarrow> ''DOL'' | BINARY_REL \<Rightarrow> ''REL'' | BINARY_SP \<Rightarrow> ''SP'' | BINARY_ILLEGAL \<Rightarrow> ''ILLEGAL'')"

definition trace_line :: "trace_env \<Rightarrow> u32 \<Rightarrow> string option" where
  "trace_line e lr = do {
     let ported = PortPointer (te_sections e) (te_region e) lr;
     let pointerFlag = (if ClassifyPointer (te_sections e) lr = BINARY_REL then if ported = lr then '':SP'' else ''*'' else '''');
     let sm = SymbolLowerBound (te_map e) lr;
     sm \<leftarrow> (case sm of None \<Rightarrow> Some None
       | Some x \<Rightarrow> do { ok \<leftarrow> ScoreMatch (te_sections e) (te_mem e) (fst x) lr; Some (if ok then Some x else None) });
     Some (te_p e ported @ pointerFlag @ '' '' @ binary_name (ClassifyPointer (te_sections e) lr) @ '' '' @ fmtSym sm lr)
   }"

text \<open>\<open>snprintf(buf + l, n, ...)\<close> of a text; a write outside of the buffer is a fault.\<close>

definition snprintf_at :: "string \<Rightarrow> u32 \<Rightarrow> u32 \<Rightarrow> string \<Rightarrow> string option" where
  "snprintf_at buf l n t = (if n = 0 then Some buf else wr_n buf (unat l) (take (unat n - 1) t @ [CHR 0x00]))"

function trace_loop :: "trace_env \<Rightarrow> u32 \<Rightarrow> trace_it \<Rightarrow> u32 \<Rightarrow> string \<Rightarrow> (u32 \<times> string) option" where
  "trace_loop e capacity it l buf = do {
     (r, it) \<leftarrow> StackTraceIterator_read e it;
     case r of None \<Rightarrow> Some (l, buf)
     | Some lr \<Rightarrow> do {
         t \<leftarrow> trace_line e lr;
         buf \<leftarrow> snprintf_at buf l (capacity - l) t;
         trace_loop e capacity it (l + of_nat (length t)) buf
       }
   }"
  by pat_completeness auto
termination
  by (relation "measure (\<lambda>(e, capacity, it, l, buf). nat (ti_maxDepth it - ti_depth it))")
    (auto simp: StackTraceIterator_read_def Let_def bind_eq_Some_conv split: if_splits)

declare trace_loop.simps [simp del]

definition WriteStackTraceShort :: "trace_env \<Rightarrow> string \<Rightarrow> u32 \<Rightarrow> u32 \<Rightarrow> (u32 \<times> string) option" where
  "WriteStackTraceShort e buf capacity sp = trace_loop e capacity (StackTraceIterator_create sp) 0 buf"

section \<open>When a trace fits\<close>

text \<open>The lines of a trace, whatever the buffer.\<close>

function trace_lines :: "trace_env \<Rightarrow> trace_it \<Rightarrow> string list option" where
  "trace_lines e it = do {
     (r, it) \<leftarrow> StackTraceIterator_read e it;
     case r of None \<Rightarrow> Some []
     | Some lr \<Rightarrow> do { t \<leftarrow> trace_line e lr; ts \<leftarrow> trace_lines e it; Some (t # ts) }
   }"
  by pat_completeness auto
termination
  by (relation "measure (\<lambda>(e, it). nat (ti_maxDepth it - ti_depth it))")
    (auto simp: StackTraceIterator_read_def Let_def bind_eq_Some_conv split: if_splits)

declare trace_lines.simps [simp del]

text \<open>The pieces that begin inside of a buffer of \<open>c\<close> characters, or at its end.\<close>

definition starts_inside :: "nat \<Rightarrow> nat \<Rightarrow> string list \<Rightarrow> bool" where
  "starts_inside c l ts \<longleftrightarrow> (\<forall>k < length ts. l + length (concat (take k ts)) \<le> c)"

lemma starts_inside_Cons: "starts_inside c l (t # ts) \<longleftrightarrow> l \<le> c \<and> starts_inside c (l + length t) ts"
  unfolding starts_inside_def by (auto simp: less_Suc_eq_0_disj add.assoc)

lemma snprintf_inside:
  assumes "length buf = unat capacity" and "unat l \<le> unat capacity" and "length w = unat l"
    and "take (min (unat l) (unat capacity - 1)) buf = take (unat capacity - 1) w"
  shows "\<exists>buf'. snprintf_at buf l (capacity - l) t = Some buf' \<and> length buf' = unat capacity \<and>
    take (min (unat l + length t) (unat capacity - 1)) buf' = take (unat capacity - 1) (w @ t)"
proof (cases "unat l = unat capacity")
  case True
  then have "capacity - l = 0" by (metis diff_self word_unat_eq_iff)
  moreover have "min (unat l) (unat capacity - 1) = unat capacity - 1" "min (unat l + length t) (unat capacity - 1) = unat capacity - 1"
    using True by simp_all
  moreover have "take (unat capacity - 1) (w @ t) = take (unat capacity - 1) w" using assms(3) True by simp
  ultimately show ?thesis using assms(1,4) by (intro exI [of _ buf]) (simp only: snprintf_at_def if_True simp_thms)
next
  case False
  let ?m = "unat capacity - 1"
  let ?t = "take (?m - unat l) t @ [CHR 0x00]"
  have n: "unat (capacity - l) = unat capacity - unat l" using assms(2) by (simp add: unat_sub word_le_nat_alt)
  then have nz: "capacity - l \<noteq> 0" using False assms(2) by auto
  have le: "unat l \<le> ?m" using assms(2) False by linarith
  have w: "take (unat l) buf = w" using assms(3,4) le by (simp add: min_absorb1)
  have fit: "unat l + length ?t \<le> length buf" using assms(1,2) False by simp
  then have "snprintf_at buf l (capacity - l) t = Some (splice buf (unat l) ?t)"
    using n nz by (simp add: snprintf_at_def)
  moreover have "take (min (unat l + length t) ?m) (splice buf (unat l) ?t) = take ?m (w @ t)"
  proof -
    have "splice buf (unat l) ?t = (w @ take (?m - unat l) t) @ [CHR 0x00] @ drop (unat l + length ?t) buf"
      by (simp add: splice_def w)
    moreover have "length (w @ take (?m - unat l) t) = min (unat l + length t) ?m"
      using assms(2,3) False by auto
    ultimately have "take (min (unat l + length t) ?m) (splice buf (unat l) ?t) = w @ take (?m - unat l) t"
      by (metis append_eq_conv_conj)
    then show ?thesis using assms(2,3) False by simp
  qed
  ultimately show ?thesis using fit assms(1) by (simp add: len_simps)
qed

lemma snprintf_outside:
  assumes "length buf = unat capacity" and "unat capacity < unat l"
  shows "snprintf_at buf l (capacity - l) t = None"
proof -
  have "capacity - l \<noteq> 0" using assms(2) by auto
  then show ?thesis using assms by (simp add: snprintf_at_def fault_simps)
qed

lemma trace_loop_lines:
  assumes "trace_lines e it = Some ts" and "length buf = unat capacity" and "unat l + length (concat ts) < 2 ^ 32" and "length w = unat l"
    and "take (min (unat l) (unat capacity - 1)) buf = take (unat capacity - 1) w"
  shows "if starts_inside (unat capacity) (unat l) ts
    then \<exists>buf'. trace_loop e capacity it l buf = Some (l + of_nat (length (concat ts)), buf') \<and> length buf' = unat capacity \<and>
      take (min (unat l + length (concat ts)) (unat capacity - 1)) buf' = take (unat capacity - 1) (w @ concat ts)
    else trace_loop e capacity it l buf = None"
  using assms
proof (induction e it arbitrary: ts l buf w rule: trace_lines.induct)
  case (1 e it)
  obtain r it' where read: "StackTraceIterator_read e it = Some (r, it')"
    using 1(2) by (subst (asm) trace_lines.simps) (auto simp: bind_eq_Some_conv)
  show ?case
  proof (cases r)
    case None
    then have "ts = []" using 1(2) read by (simp add: trace_lines.simps [of e it])
    then show ?thesis using None read 1(3-6) by (simp add: trace_loop.simps [of e capacity it] starts_inside_def)
  next
    case (Some lr)
    obtain t ts' where t: "trace_line e lr = Some t" and ts': "trace_lines e it' = Some ts'" and ts: "ts = t # ts'"
      using 1(2) read Some by (auto simp: trace_lines.simps [of e it] bind_eq_Some_conv)
    have step: "trace_loop e capacity it l buf = do {
        buf \<leftarrow> snprintf_at buf l (capacity - l) t; trace_loop e capacity it' (l + of_nat (length t)) buf }"
      using read Some t by (simp add: trace_loop.simps [of e capacity it])
    show ?thesis
    proof (cases "unat l \<le> unat capacity")
      case False
      then show ?thesis using step snprintf_outside [of buf capacity l t] 1(3) ts by (simp add: starts_inside_Cons)
    next
      case True
      obtain buf' where buf': "snprintf_at buf l (capacity - l) t = Some buf'" "length buf' = unat capacity"
        "take (min (unat l + length t) (unat capacity - 1)) buf' = take (unat capacity - 1) (w @ t)"
        using snprintf_inside [OF 1(3) True 1(5,6)] by blast
      have l': "unat (l + of_nat (length t)) = unat l + length t"
      proof -
        have "unat l + length t < 2 ^ 32" using 1(4) ts by simp
        then show ?thesis by (simp add: unat_word_ariths unat_of_nat take_bit_nat_eq_self_iff mod_simps unsigned_of_nat take_bit_eq_mod)
      qed
      have IH: "if starts_inside (unat capacity) (unat l + length t) ts'
        then \<exists>buf''. trace_loop e capacity it' (l + of_nat (length t)) buf' = Some (l + of_nat (length t) + of_nat (length (concat ts')), buf'') \<and>
          length buf'' = unat capacity \<and>
          take (min (unat l + length t + length (concat ts')) (unat capacity - 1)) buf'' = take (unat capacity - 1) ((w @ t) @ concat ts')
        else trace_loop e capacity it' (l + of_nat (length t)) buf' = None"
        unfolding l' [symmetric]
        by (rule 1(1) [OF read refl Some t ts' buf'(2)]) (use 1(4,5) ts buf'(3) l' in simp_all)
      then show ?thesis
        using step buf'(1) True ts by (cases "starts_inside (unat capacity) (unat l + length t) ts'") (simp_all add: starts_inside_Cons add.assoc)
    qed
  qed
qed

text \<open>C34: The text of a stack trace stays inside a buffer of the given capacity exactly if every line
  of it begins inside; then the buffer holds the text, cut to the capacity. Otherwise the
  remaining capacity wraps around and the next line is written outside of the buffer.\<close>

theorem stack_trace_fits:
  assumes "trace_lines e (StackTraceIterator_create sp) = Some ts" and "length buf = unat capacity" and "length (concat ts) < 2 ^ 32"
  shows "if \<forall>k < length ts. length (concat (take k ts)) \<le> unat capacity
    then \<exists>buf'. WriteStackTraceShort e buf capacity sp = Some (of_nat (length (concat ts)), buf') \<and> length buf' = unat capacity \<and>
      take (min (length (concat ts)) (unat capacity - 1)) buf' = take (unat capacity - 1) (concat ts)
    else WriteStackTraceShort e buf capacity sp = None"
  using trace_loop_lines [OF assms(1,2), of 0 "[]"] assms(3)
  by (cases "starts_inside (unat capacity) 0 ts") (simp_all add: WriteStackTraceShort_def flip: starts_inside_def [of _ 0, simplified])

section \<open>Example\<close>

text \<open>Fifteen frames that lie in no binary: the last line begins behind the end of a buffer of 300 characters.\<close>

definition ex_trace :: trace_env where
  "ex_trace = \<lparr>te_mem = (\<lambda>a. Some 0x80001000), te_mem1 = 0x1800000, te_mem2 = 0x4000000, te_iabr = 0, te_region = REGION_P,
     te_sections = \<lparr>payload_text_start = 0x80400000, payload_replacements_end = 0x80500000, rel_text_start = 0x80700000, rel_text_end = 0x80800000,
       dol_init_start = 0x80004000, dol_text_end = 0x80300000\<rparr>, te_map = None, te_p = (\<lambda>a. ''0x80001000'')\<rparr>"

lemma ex_trace_line: "trace_line ex_trace 0x80001000 = Some ''0x80001000 ILLEGAL <- ''"
  by (simp add: trace_line_def ex_trace_def PortPointer_def ClassifyPointer_def SymbolLowerBound_def fmtSym_def binary_name_def)

lemma ex_trace_read:
  "StackTraceIterator_read ex_trace \<lparr>ti_cur = 0x80001000, ti_depth = d, ti_maxDepth = 15\<rparr> =
     Some (if d \<ge> 15 then (None, \<lparr>ti_cur = 0x80001000, ti_depth = d, ti_maxDepth = 15\<rparr>)
       else (Some 0x80001000, \<lparr>ti_cur = 0x80001000, ti_depth = d + 1, ti_maxDepth = 15\<rparr>))"
  by (simp add: StackTraceIterator_read_def ex_trace_def CheckPointer_def OS_MEM_REGION_ID_MASK_def OS_MEM1_REGION_PREFIX_def
    StackCanary_IsLinkRegisterEncrypted_def)

lemma ex_trace_lines:
  "k \<le> 15 \<Longrightarrow> trace_lines ex_trace \<lparr>ti_cur = 0x80001000, ti_depth = 15 - int k, ti_maxDepth = 15\<rparr> = Some (replicate k ''0x80001000 ILLEGAL <- '')"
proof (induction k)
  case 0
  then show ?case by (subst trace_lines.simps) (simp add: ex_trace_read)
next
  case (Suc k)
  have "trace_lines ex_trace \<lparr>ti_cur = 0x80001000, ti_depth = 15 - int k, ti_maxDepth = 15\<rparr> = Some (replicate k ''0x80001000 ILLEGAL <- '')"
    using Suc by simp
  then show ?case by (subst trace_lines.simps) (simp add: ex_trace_read ex_trace_line)
qed

theorem stack_trace_fits_witness:
  "WriteStackTraceShort ex_trace (replicate 300 CHR 0x00) 300 0x80001000 = None"
proof -
  let ?ts = "replicate 15 ''0x80001000 ILLEGAL <- ''"
  have lines: "trace_lines ex_trace (StackTraceIterator_create 0x80001000) = Some ?ts"
    using ex_trace_lines [of 15] by (simp add: StackTraceIterator_create_def)
  have len: "length (concat (replicate k ''0x80001000 ILLEGAL <- '')) = 22 * k" for k
    by (induction k) simp_all
  have "\<not> (\<forall>k < length ?ts. length (concat (take k ?ts)) \<le> unat (300 :: u32))"
    by (rule notI, drule spec [of _ 14]) (simp only: length_replicate take_replicate len, simp)
  then show ?thesis
    using stack_trace_fits [OF lines, of "replicate 300 CHR 0x00" 300] len [of 15] by (auto split: if_splits simp del: take_replicate)
qed

definition ex_map :: string where
  "ex_map = ''0x80000010 a'' @ [newline] @ ''0x80000020 b'' @ [newline]"

lemma ex_map_lines: "lines_of ex_map = [''0x80000010 a'', ''0x80000020 b'']"
proof -
  have "split_lines ex_map = ''0x80000010 a'' # split_lines (''0x80000020 b'' @ [newline])"
    by (subst split_lines_line) (simp add: ex_map_def newline_def del: split_lines.simps)
  moreover have "split_lines (''0x80000020 b'' @ [newline]) = ''0x80000020 b'' # split_lines []"
    by (subst split_lines_line) (simp add: newline_def del: split_lines.simps)
  ultimately show ?thesis by (simp add: lines_of_def)
qed

lemma ex_map_symbols: "symbols ex_map = [(0x80000010, ''a''), (0x80000020, ''b'')]"
proof -
  have "symbol_of_line ''0x80000010 a'' = Some (0x80000010, ''a'')" "symbol_of_line ''0x80000020 b'' = Some (0x80000020, ''b'')"
    by (simp_all add: symbol_of_line_def GetSymbolAddress_def SYMBOL_ADDRESS_LENGTH_def is_xdigit_def from_hex_def xdigit_value_def)
  then show ?thesis by (simp add: symbols_def ex_map_lines)
qed

theorem symbol_lower_bound_witness:
  "SymbolLowerBound (Some ex_map) 0x80000020 = Some (0x80000010, ''a'')"
proof -
  have sorted: "sorted_wrt (<) (map fst (symbols ex_map))" unfolding ex_map_symbols by simp
  show ?thesis
    using symbol_lower_bound [OF sorted, of "0x80000020"] unfolding ex_map_symbols
    by (auto split: option.splits)
qed

end
