(* ===== verification/Log_File.thy ===== *)
theory Log_File
  imports Prelude
begin

text \<open>
  \<open>payload/sp/storage/LogFile.cc\<close>: messages go to one of two buffers, a thread takes the buffer from time to time
  and appends it to a file.  \<open>VPrintf\<close> and the exchange of the buffers run with interrupts disabled, the file is
  written with interrupts enabled: meanwhile messages go to the other buffer.
\<close>

section \<open>The code\<close>

definition BUFFER_SIZE :: nat where "BUFFER_SIZE = 4096"

text \<open>
  \<open>lf_writing\<close> is what the thread holds between the exchange and the end of the write: \<open>oldIndex\<close> and
  \<open>oldOffset\<close>.  \<open>lf_world\<close> is the storage.
\<close>

record 'w log_file =
  lf_isInit :: bool
  lf_buffers :: "bytes list"
  lf_index :: u8
  lf_offset :: u16
  lf_writing :: "(u8 \<times> u16) option"
  lf_world :: 'w

definition log_buffer :: "u8 \<Rightarrow> 'w log_file \<Rightarrow> bytes option" where
  "log_buffer i s = rd (lf_buffers s) (unat i)"

text \<open>\<open>snprintf(buffers[index] + offset, maxLength, ...)\<close> of a text: it is cut, and a zero is put behind it.\<close>

definition log_snprintf :: "bytes \<Rightarrow> 'w log_file \<Rightarrow> u16 \<Rightarrow> 'w log_file option" where
  "log_snprintf t s maxLength = do {
     buf \<leftarrow> log_buffer (lf_index s) s;
     buf \<leftarrow> (if maxLength = 0 then Some buf else wr_n buf (unat (lf_offset s)) (take (unat maxLength - 1) t @ [0]));
     bufs \<leftarrow> wr (lf_buffers s) (unat (lf_index s)) buf;
     Some (s\<lparr>lf_buffers := bufs\<rparr>)
   }"

text \<open>\<open>VPrintf\<close> with the texts that the two formats give, the time and the message.\<close>

definition LogFile_VPrintf :: "bytes \<Rightarrow> bytes \<Rightarrow> 'w log_file \<Rightarrow> 'w log_file option" where
  "LogFile_VPrintf time msg s =
     (if \<not> lf_isInit s then Some s
      else do {
        let maxLength = of_nat BUFFER_SIZE - lf_offset s;
        s \<leftarrow> log_snprintf time s maxLength;
        if length time \<ge> unat maxLength then Some (s\<lparr>lf_offset := of_nat BUFFER_SIZE\<rparr>)
        else do {
          let s = s\<lparr>lf_offset := lf_offset s + of_nat (length time)\<rparr>;
          let maxLength = maxLength - of_nat (length time);
          s \<leftarrow> log_snprintf msg s maxLength;
          if length msg \<ge> unat maxLength then Some (s\<lparr>lf_offset := of_nat BUFFER_SIZE\<rparr>)
          else Some (s\<lparr>lf_offset := lf_offset s + of_nat (length msg)\<rparr>)
        }
      })"

text \<open>The exchange of the buffers, with interrupts disabled; nothing happens while there is nothing to write.\<close>

definition log_take :: "'w log_file \<Rightarrow> 'w log_file" where
  "log_take s = (if lf_offset s = 0 then s
     else s\<lparr>lf_writing := Some (lf_index s, lf_offset s), lf_index := lf_index s XOR 1, lf_offset := 0\<rparr>)"

text \<open>\<open>store\<close> stands for \<open>file->write(buffers[oldIndex], oldOffset, file->size())\<close> and \<open>file->sync()\<close>.\<close>

definition log_write :: "(bytes \<Rightarrow> 'w \<Rightarrow> 'w) \<Rightarrow> 'w log_file \<Rightarrow> 'w log_file option" where
  "log_write store s = do {
     (oldIndex, oldOffset) \<leftarrow> lf_writing s;
     buf \<leftarrow> log_buffer oldIndex s;
     d \<leftarrow> rd_n buf 0 (unat oldOffset);
     Some (s\<lparr>lf_writing := None, lf_world := store d (lf_world s)\<rparr>)
   }"

definition LogFile_Init :: "'w log_file \<Rightarrow> 'w log_file" where
  "LogFile_Init s = s\<lparr>lf_isInit := True\<rparr>"

text \<open>
  The steps of the threads.  The list of the steps that print is the history of a run.
\<close>

inductive log_run :: "(bytes \<Rightarrow> 'w \<Rightarrow> 'w) \<Rightarrow> 'w log_file \<Rightarrow> (bytes \<times> bytes) list \<Rightarrow> 'w log_file \<Rightarrow> bool" for store s0 where
  started: "log_run store s0 [] s0"
| printed: "log_run store s0 ms s \<Longrightarrow> LogFile_VPrintf time msg s = Some s' \<Longrightarrow> log_run store s0 (ms @ [(time, msg)]) s'"
| exchanged: "log_run store s0 ms s \<Longrightarrow> lf_writing s = None \<Longrightarrow> log_run store s0 ms (log_take s)"
| written: "log_run store s0 ms s \<Longrightarrow> log_write store s = Some s' \<Longrightarrow> log_run store s0 ms s'"

section \<open>What a message becomes\<close>

text \<open>
  What is put behind \<open>l\<close> characters: the text when there is room for it and a zero, otherwise the rest of the
  buffer, which ends in a zero.
\<close>

definition piece :: "nat \<Rightarrow> bytes \<Rightarrow> bytes" where
  "piece l t = (if l + length t < BUFFER_SIZE then t
     else if l < BUFFER_SIZE then take (BUFFER_SIZE - l - 1) t @ [0] else [])"

definition logged :: "nat \<Rightarrow> bytes \<Rightarrow> bytes \<Rightarrow> bytes" where
  "logged l time msg = (let a = piece l time in a @ piece (l + length a) msg)"

lemma length_piece: "l \<le> BUFFER_SIZE \<Longrightarrow> l + length (piece l t) \<le> BUFFER_SIZE"
  by (auto simp: piece_def)

lemma piece_full: "\<not> l + length t < BUFFER_SIZE \<Longrightarrow> l \<le> BUFFER_SIZE \<Longrightarrow> l + length (piece l t) = BUFFER_SIZE"
  by (auto simp: piece_def)

text \<open>The state that the code keeps: two buffers, an index of one of them, and the other one in the thread's hands.\<close>

definition log_ok :: "'w log_file \<Rightarrow> bool" where
  "log_ok s \<longleftrightarrow> map length (lf_buffers s) = [BUFFER_SIZE, BUFFER_SIZE] \<and> lf_index s \<in> {0, 1} \<and> unat (lf_offset s) \<le> BUFFER_SIZE \<and>
     (\<forall>i n. lf_writing s = Some (i, n) \<longrightarrow> i = lf_index s XOR 1 \<and> unat n \<le> BUFFER_SIZE)"

definition current :: "'w log_file \<Rightarrow> bytes" where
  "current s = take (unat (lf_offset s)) (lf_buffers s ! unat (lf_index s))"

definition in_flight :: "'w log_file \<Rightarrow> bytes" where
  "in_flight s = (case lf_writing s of None \<Rightarrow> [] | Some (i, n) \<Rightarrow> take (unat n) (lf_buffers s ! unat i))"

section \<open>The invariant\<close>

lemma log_ok_two:
  assumes "log_ok s"
  shows "\<exists>a b. lf_buffers s = [a, b] \<and> length a = BUFFER_SIZE \<and> length b = BUFFER_SIZE"
proof -
  have "length (lf_buffers s) = 2" using assms by (simp add: log_ok_def flip: length_map [of length])
  then obtain a b where "lf_buffers s = [a, b]" by (auto simp: numeral_2_eq_2 length_Suc_conv)
  then show ?thesis using assms by (simp add: log_ok_def)
qed

lemma log_snprintf_piece:
  assumes ok: "log_ok s" and max: "unat maxLength = BUFFER_SIZE - unat (lf_offset s)"
  shows "\<exists>b. log_snprintf t s maxLength = Some (s\<lparr>lf_buffers := (lf_buffers s)[unat (lf_index s) := b]\<rparr>) \<and> length b = BUFFER_SIZE \<and>
    take (unat (lf_offset s) + length (piece (unat (lf_offset s)) t)) b = current s @ piece (unat (lf_offset s)) t"
proof -
  let ?o = "unat (lf_offset s)" and ?b = "lf_buffers s ! unat (lf_index s)"
  have i: "unat (lf_index s) < length (lf_buffers s)" "length ?b = BUFFER_SIZE" "?o \<le> BUFFER_SIZE"
    using log_ok_two [OF ok] ok by (auto simp: log_ok_def)
  show ?thesis
  proof (cases "maxLength = 0")
    case True
    then have "?o = BUFFER_SIZE" using max i(3) by simp
    then have "piece ?o t = []" by (simp add: piece_def)
    then show ?thesis using True i by (intro exI [of _ ?b]) (simp add: log_snprintf_def log_buffer_def current_def)
  next
    case False
    then have lt: "?o < BUFFER_SIZE" using max i(3) by (metis diff_is_0_eq' le_neq_implies_less unat_eq_zero)
    let ?t = "take (BUFFER_SIZE - ?o - 1) t @ [0]"
    let ?s = "splice ?b ?o ?t"
    have fit: "?o + length ?t \<le> length ?b" using i lt by simp
    have "log_snprintf t s maxLength = Some (s\<lparr>lf_buffers := (lf_buffers s)[unat (lf_index s) := ?s]\<rparr>)"
      using False i max fit by (simp add: log_snprintf_def log_buffer_def)
    moreover have "take (?o + length (piece ?o t)) ?s = current s @ piece ?o t"
    proof -
      have "\<exists>z. ?t = piece ?o t @ z" using lt by (auto simp: piece_def)
      then obtain z where z: "?t = piece ?o t @ z" ..
      have "?s = (current s @ piece ?o t) @ z @ drop (?o + length ?t) ?b" by (simp add: splice_def current_def flip: z)
      moreover have "length (current s) = ?o" using i by (simp add: current_def)
      ultimately show ?thesis by (metis append_eq_conv_conj length_append)
    qed
    ultimately show ?thesis using fit i by (intro exI [of _ ?s]) (simp add: len_simps)
  qed
qed

text \<open>A text and the offset behind it.\<close>

definition log_put :: "bytes \<Rightarrow> 'w log_file \<Rightarrow> 'w log_file option" where
  "log_put t s = do {
     let maxLength = of_nat BUFFER_SIZE - lf_offset s;
     s \<leftarrow> log_snprintf t s maxLength;
     if length t \<ge> unat maxLength then Some (s\<lparr>lf_offset := of_nat BUFFER_SIZE\<rparr>)
     else Some (s\<lparr>lf_offset := lf_offset s + of_nat (length t)\<rparr>)
   }"

lemma log_put_piece:
  assumes ok: "log_ok s"
  shows "\<exists>s'. log_put t s = Some s' \<and> log_ok s' \<and> lf_isInit s' = lf_isInit s \<and> lf_world s' = lf_world s \<and> in_flight s' = in_flight s \<and>
    current s' = current s @ piece (unat (lf_offset s)) t \<and> unat (lf_offset s') = unat (lf_offset s) + length (piece (unat (lf_offset s)) t)"
proof -
  let ?o = "unat (lf_offset s)" and ?max = "of_nat BUFFER_SIZE - lf_offset s"
  have o: "?o \<le> BUFFER_SIZE" using ok by (simp add: log_ok_def)
  then have max: "unat ?max = BUFFER_SIZE - ?o"
    by (subst unat_sub) (simp_all add: BUFFER_SIZE_def word_le_nat_alt)
  obtain b where b: "log_snprintf t s ?max = Some (s\<lparr>lf_buffers := (lf_buffers s)[unat (lf_index s) := b]\<rparr>)" "length b = BUFFER_SIZE"
    "take (?o + length (piece ?o t)) b = current s @ piece ?o t"
    using log_snprintf_piece [OF ok max] by blast
  let ?n = "(if length t \<ge> unat ?max then of_nat BUFFER_SIZE else lf_offset s + of_nat (length t)) :: u16"
  let ?s = "s\<lparr>lf_buffers := (lf_buffers s)[unat (lf_index s) := b], lf_offset := ?n\<rparr>"
  have put: "log_put t s = Some ?s" using b(1) by (simp add: log_put_def)
  have n: "unat ?n = ?o + length (piece ?o t)"
  proof (cases "length t \<ge> unat ?max")
    case True
    then have "?o + length (piece ?o t) = BUFFER_SIZE" using max o by (intro piece_full) auto
    then show ?thesis using True by (simp add: BUFFER_SIZE_def)
  next
    case False
    then have "?o + length t < BUFFER_SIZE" using max by simp
    moreover have "unat (lf_offset s + of_nat (length t)) = ?o + length t"
      using calculation by (simp add: unat_word_ariths unat_of_nat BUFFER_SIZE_def take_bit_eq_mod)
    ultimately show ?thesis using False by (simp add: piece_def)
  qed
  obtain x y where bufs: "lf_buffers s = [x, y]" "length x = BUFFER_SIZE" "length y = BUFFER_SIZE" using log_ok_two [OF ok] by blast
  have idx: "lf_index s = 0 \<or> lf_index s = 1" using ok by (simp add: log_ok_def)
  have "log_ok ?s" using ok b(2) bufs idx n length_piece [OF o, of t] by (auto simp: log_ok_def)
  moreover have "in_flight ?s = in_flight s" using ok idx bufs by (auto simp: in_flight_def log_ok_def split: option.split)
  moreover have "current ?s = current s @ piece ?o t"
    using b(3) n bufs idx by (auto simp: current_def)
  ultimately show ?thesis using put n by (intro exI [of _ ?s]) simp
qed

lemma VPrintf_logged:
  assumes ok: "log_ok s" and init: "lf_isInit s"
  shows "\<exists>s'. LogFile_VPrintf time msg s = Some s' \<and> log_ok s' \<and> lf_isInit s' \<and> lf_world s' = lf_world s \<and> in_flight s' = in_flight s \<and>
    current s' = current s @ logged (unat (lf_offset s)) time msg"
proof -
  let ?o = "unat (lf_offset s)" and ?max = "of_nat BUFFER_SIZE - lf_offset s"
  have o: "?o \<le> BUFFER_SIZE" using ok by (simp add: log_ok_def)
  then have max: "unat ?max = BUFFER_SIZE - ?o"
    by (subst unat_sub) (simp_all add: BUFFER_SIZE_def word_le_nat_alt)
  obtain s1 where s1: "log_put time s = Some s1" "log_ok s1" "lf_isInit s1 = lf_isInit s" "lf_world s1 = lf_world s" "in_flight s1 = in_flight s"
    "current s1 = current s @ piece ?o time" "unat (lf_offset s1) = ?o + length (piece ?o time)"
    using log_put_piece [OF ok] by blast
  have run: "LogFile_VPrintf time msg s = (if length time \<ge> unat ?max then Some s1 else log_put msg s1)"
  proof -
    obtain s0 where s0: "log_snprintf time s ?max = Some s0"
      and s1': "s1 = (if length time \<ge> unat ?max then s0\<lparr>lf_offset := of_nat BUFFER_SIZE\<rparr> else s0\<lparr>lf_offset := lf_offset s0 + of_nat (length time)\<rparr>)"
      using s1(1) by (auto simp: log_put_def bind_eq_Some_conv Let_def split: if_splits)
    have "lf_offset s0 = lf_offset s"
      using s0 by (auto simp: log_snprintf_def bind_eq_Some_conv split: if_splits)
    then show ?thesis using s0 s1' init by (simp add: LogFile_VPrintf_def log_put_def Let_def diff_diff_eq)
  qed
  show ?thesis
  proof (cases "length time \<ge> unat ?max")
    case True
    then have "?o + length (piece ?o time) = BUFFER_SIZE" using max o by (intro piece_full) auto
    then have "logged ?o time msg = piece ?o time" by (simp add: logged_def piece_def)
    then show ?thesis using True run s1 init by simp
  next
    case False
    then show ?thesis using run s1 init log_put_piece [OF s1(2), of msg] by (auto simp: logged_def Let_def)
  qed
qed

section \<open>Nothing is lost\<close>

lemma log_take_keeps:
  assumes "log_ok s" and "lf_writing s = None"
  shows "log_ok (log_take s) \<and> lf_isInit (log_take s) = lf_isInit s \<and> lf_world (log_take s) = lf_world s \<and>
    in_flight (log_take s) @ current (log_take s) = in_flight s @ current s"
  using assms by (auto simp: log_take_def log_ok_def in_flight_def current_def)

lemma log_write_keeps:
  assumes "log_ok s" and "log_write store s = Some s'"
  shows "log_ok s' \<and> lf_isInit s' = lf_isInit s \<and> lf_world s' = store (in_flight s) (lf_world s) \<and> in_flight s' = [] \<and> current s' = current s"
  using assms by (auto simp: log_write_def log_ok_def in_flight_def current_def log_buffer_def bind_eq_Some_conv fault_simps)


section \<open>Example\<close>

definition ex_log :: "bytes log_file" where
  "ex_log = \<lparr>lf_isInit = True, lf_buffers = [replicate BUFFER_SIZE 0, replicate BUFFER_SIZE 0], lf_index = 0, lf_offset = 0, lf_writing = None, lf_world = [1]\<rparr>"

lemma ex_log_ok: "log_ok ex_log" "lf_isInit ex_log" "lf_offset ex_log = 0" "lf_writing ex_log = None"
  by (simp_all add: ex_log_def log_ok_def)


end
