(* ===== verification/SD_Card.thy ===== *)
theory SD_Card
  imports IOS_World
begin

text \<open>
  \<open>payload/sp/storage/Sdi.c\<close>: sectors of an SD card.  A transfer to or from memory that is not aligned
  goes through a buffer of eight sectors.
\<close>

definition IOCTL_WRITE_HCR :: nat where "IOCTL_WRITE_HCR = 0x1"
definition IOCTL_READ_HCR :: nat where "IOCTL_READ_HCR = 0x2"
definition IOCTL_RESET_CARD :: nat where "IOCTL_RESET_CARD = 0x4"
definition IOCTL_SET_CLOCK :: nat where "IOCTL_SET_CLOCK = 0x6"
definition SD_SEND_COMMAND :: nat where "SD_SEND_COMMAND = 0x7"
definition IOCTL_GET_STATUS :: nat where "IOCTL_GET_STATUS = 0xb"

definition STATUS_CARD_INSERTED :: u32 where "STATUS_CARD_INSERTED = push_bit 0 1"
definition STATUS_TYPE_MEMORY :: u32 where "STATUS_TYPE_MEMORY = push_bit 16 1"
definition STATUS_TYPE_SDHC :: u32 where "STATUS_TYPE_SDHC = push_bit 20 1"

definition HCR_HOST_CONTROL_1 :: u32 where "HCR_HOST_CONTROL_1 = 0x28"
definition HCR_HOST_CONTROL_1_4_BIT :: u32 where "HCR_HOST_CONTROL_1_4_BIT = push_bit 1 1"

definition CMD_SELECT :: u32 where "CMD_SELECT = 7"
definition CMD_SET_BLOCKLEN :: u32 where "CMD_SET_BLOCKLEN = 16"
definition CMD_READ_MULTIPLE_BLOCK :: u32 where "CMD_READ_MULTIPLE_BLOCK = 18"
definition CMD_WRITE_MULTIPLE_BLOCK :: u32 where "CMD_WRITE_MULTIPLE_BLOCK = 25"
definition CMD_APP_CMD :: u32 where "CMD_APP_CMD = 55"
definition ACMD_SET_BUS_WIDTH :: u32 where "ACMD_SET_BUS_WIDTH = 6"
definition RESPONSE_TYPE_R1 :: u32 where "RESPONSE_TYPE_R1 = 0x1"
definition RESPONSE_TYPE_R1B :: u32 where "RESPONSE_TYPE_R1B = 0x2"

definition SECTOR_SIZE :: nat where "SECTOR_SIZE = 512"
definition TMP_SECTOR_COUNT :: nat where "TMP_SECTOR_COUNT = 8"

text \<open>The static variables; \<open>sd_tmpAddr\<close> is the address of \<open>tmpBuffer\<close>.\<close>

record sdi =
  sd_fd :: int
  sd_rca :: u16
  sd_isSdhc :: bool
  sd_tmpBuffer :: bytes
  sd_tmpAddr :: u32

type_synonym 'w sdi_state = "'w \<times> sdi"

section \<open>The interface of the host controller\<close>

definition Sdi_resetCard :: "'w ios_sdk \<Rightarrow> 'w sdi_state \<Rightarrow> (bool \<times> 'w sdi_state) option" where
  "Sdi_resetCard sdk = (\<lambda>(w, s).
     let ((r, out), w) = IOS_Ioctl sdk (sd_fd s) IOCTL_RESET_CARD [] 4 w
     in if r < 0 then Some (False, w, s)
        else do { out \<leftarrow> read_u32 out 0; Some (True, w, s\<lparr>sd_rca := ucast (drop_bit 16 out)\<rparr>) })"

definition Sdi_getStatus :: "'w ios_sdk \<Rightarrow> 'w sdi_state \<Rightarrow> (u32 option \<times> 'w sdi_state) option" where
  "Sdi_getStatus sdk = (\<lambda>(w, s).
     let ((r, out), w) = IOS_Ioctl sdk (sd_fd s) IOCTL_GET_STATUS [] 4 w
     in if r < 0 then Some (None, w, s) else do { out \<leftarrow> read_u32 out 0; Some (Some out, w, s) })"

definition regOp :: "u8 \<Rightarrow> u8 \<Rightarrow> u32 \<Rightarrow> bytes" where
  "regOp reg sz val = words32 [ucast reg, 0, 0, ucast sz, val, 0]"

definition Sdi_readHcr :: "'w ios_sdk \<Rightarrow> u8 \<Rightarrow> u8 \<Rightarrow> 'w sdi_state \<Rightarrow> (u32 option \<times> 'w sdi_state) option" where
  "Sdi_readHcr sdk reg sz = (\<lambda>(w, s).
     let ((r, out), w) = IOS_Ioctl sdk (sd_fd s) IOCTL_READ_HCR (regOp reg sz 0) 4 w
     in if r < 0 then Some (None, w, s) else do { out \<leftarrow> read_u32 out 0; Some (Some out, w, s) })"

definition Sdi_writeHcr :: "'w ios_sdk \<Rightarrow> u8 \<Rightarrow> u8 \<Rightarrow> u32 \<Rightarrow> 'w sdi_state \<Rightarrow> bool \<times> 'w sdi_state" where
  "Sdi_writeHcr sdk reg sz val = (\<lambda>(w, s).
     let ((r, _), w) = IOS_Ioctl sdk (sd_fd s) IOCTL_WRITE_HCR (regOp reg sz val) 0 w in (\<not> r < 0, w, s))"

definition Sdi_setClock :: "'w ios_sdk \<Rightarrow> u32 \<Rightarrow> 'w sdi_state \<Rightarrow> bool \<times> 'w sdi_state" where
  "Sdi_setClock sdk clock = (\<lambda>(w, s).
     let ((r, _), w) = IOS_Ioctl sdk (sd_fd s) IOCTL_SET_CLOCK (to_be clock) 0 w in (\<not> r < 0, w, s))"

section \<open>Commands to the card\<close>

definition sd_request :: "u32 \<Rightarrow> u32 \<Rightarrow> u32 \<Rightarrow> u32 \<Rightarrow> u32 \<Rightarrow> u32 \<Rightarrow> u32 \<Rightarrow> bytes" where
  "sd_request command commandType responseType arg blockCount blockSize buffer =
     words32 [command, commandType, responseType, arg, blockCount, blockSize, buffer, if buffer \<noteq> 0 then 1 else 0, 0]"

text \<open>
  \<open>buffer\<close> is an address, 0 for a null pointer, and \<open>data\<close> the bytes there.  The result is \<^term>\<open>None\<close> inside for
  a command that failed, and otherwise the first word of the response; with it comes what the buffer holds
  afterwards.  A buffer that is too short is a fault.
\<close>

definition Sdi_sendCommand ::
  "'w ios_sdk \<Rightarrow> u32 \<Rightarrow> u32 \<Rightarrow> u32 \<Rightarrow> u32 \<Rightarrow> u32 \<Rightarrow> u32 \<Rightarrow> u32 \<Rightarrow> bytes \<Rightarrow> 'w sdi_state \<Rightarrow> ((u32 option \<times> bytes) \<times> 'w sdi_state) option" where
  "Sdi_sendCommand sdk command commandType responseType arg blockCount blockSize buffer data = (\<lambda>(w, s).
     let request = sd_request command commandType responseType arg blockCount blockSize buffer
     in if buffer \<noteq> 0 \<or> sd_isSdhc s then do {
          let n = unat (blockCount * blockSize);
          ensure (n \<le> length data);
          let ((r, vec), w) = IOS_Ioctlv sdk (sd_fd s) SD_SEND_COMMAND 2 1 [request, take n data, replicate 16 0] w;
          chunk \<leftarrow> rd vec 1;
          out \<leftarrow> rd vec 2;
          let data = chunk @ drop n data;
          if r < 0 then Some ((None, data), w, s) else do { out \<leftarrow> read_u32 out 0; Some ((Some out, data), w, s) }
        } else do {
          let ((r, out), w) = IOS_Ioctl sdk (sd_fd s) SD_SEND_COMMAND request 16 w;
          if r < 0 then Some ((None, data), w, s) else do { out \<leftarrow> read_u32 out 0; Some ((Some out, data), w, s) }
        })"

text \<open>A command without data.\<close>

definition sdi_command :: "'w ios_sdk \<Rightarrow> u32 \<Rightarrow> u32 \<Rightarrow> u32 \<Rightarrow> 'w sdi_state \<Rightarrow> (bool \<times> 'w sdi_state) option" where
  "sdi_command sdk command responseType arg st = do {
     ((r, _), st) \<leftarrow> Sdi_sendCommand sdk command 3 responseType arg 0 0 0 [] st;
     Some (r \<noteq> None, st)
   }"

definition Sdi_enable4BitBus :: "'w ios_sdk \<Rightarrow> 'w sdi_state \<Rightarrow> (bool \<times> 'w sdi_state) option" where
  "Sdi_enable4BitBus sdk st = do {
     (val, st) \<leftarrow> Sdi_readHcr sdk (ucast HCR_HOST_CONTROL_1) 1 st;
     case val of None \<Rightarrow> Some (False, st)
     | Some v \<Rightarrow> Some (Sdi_writeHcr sdk (ucast HCR_HOST_CONTROL_1) 1 (v OR HCR_HOST_CONTROL_1_4_BIT) st)
   }"

definition Sdi_select :: "'w ios_sdk \<Rightarrow> 'w sdi_state \<Rightarrow> (bool \<times> 'w sdi_state) option" where
  "Sdi_select sdk st = sdi_command sdk CMD_SELECT RESPONSE_TYPE_R1B (push_bit 16 (ucast (sd_rca (snd st)))) st"

definition Sdi_deselect :: "'w ios_sdk \<Rightarrow> 'w sdi_state \<Rightarrow> (bool \<times> 'w sdi_state) option" where
  "Sdi_deselect sdk st = sdi_command sdk CMD_SELECT RESPONSE_TYPE_R1B 0 st"

definition Sdi_setCardBlockLength :: "'w ios_sdk \<Rightarrow> u32 \<Rightarrow> 'w sdi_state \<Rightarrow> (bool \<times> 'w sdi_state) option" where
  "Sdi_setCardBlockLength sdk blockLength st = sdi_command sdk CMD_SET_BLOCKLEN RESPONSE_TYPE_R1 blockLength st"

definition Sdi_enableCard4BitBus :: "'w ios_sdk \<Rightarrow> 'w sdi_state \<Rightarrow> (bool \<times> 'w sdi_state) option" where
  "Sdi_enableCard4BitBus sdk st = do {
     (ok, st) \<leftarrow> sdi_command sdk CMD_APP_CMD RESPONSE_TYPE_R1 (push_bit 16 (ucast (sd_rca (snd st)))) st;
     if \<not> ok then Some (False, st) else sdi_command sdk ACMD_SET_BUS_WIDTH RESPONSE_TYPE_R1 0x2 st
   }"

section \<open>Transfers\<close>

definition Sdi_transferAligned ::
  "'w ios_sdk \<Rightarrow> bool \<Rightarrow> u32 \<Rightarrow> u32 \<Rightarrow> u32 \<Rightarrow> bytes \<Rightarrow> 'w sdi_state \<Rightarrow> ((bool \<times> bytes) \<times> 'w sdi_state) option" where
  "Sdi_transferAligned sdk isWrite firstSector sectorCount buffer data st = do {
     let command = (if isWrite then CMD_WRITE_MULTIPLE_BLOCK else CMD_READ_MULTIPLE_BLOCK);
     let firstBlock = (if sd_isSdhc (snd st) then firstSector else firstSector * of_nat SECTOR_SIZE);
     ((r, data), st) \<leftarrow> Sdi_sendCommand sdk command 3 RESPONSE_TYPE_R1 firstBlock sectorCount (of_nat SECTOR_SIZE) buffer data st;
     Some ((r \<noteq> None, data), st)
   }"

text \<open>The loop over \<open>tmpBuffer\<close>: what the caller's buffer holds from the current position on.\<close>

function sdi_bounce ::
  "'w ios_sdk \<Rightarrow> bool \<Rightarrow> u32 \<Rightarrow> nat \<Rightarrow> bytes \<Rightarrow> 'w sdi_state \<Rightarrow> ((bool \<times> bytes) \<times> 'w sdi_state) option" where
  "sdi_bounce sdk isWrite firstSector sectorCount data st =
     (if sectorCount = 0 then Some ((True, data), st)
      else do {
        let chunkSectorCount = min sectorCount TMP_SECTOR_COUNT;
        let n = chunkSectorCount * SECTOR_SIZE;
        src \<leftarrow> rd_n data 0 n;
        tmp \<leftarrow> (if isWrite then wr_n (sd_tmpBuffer (snd st)) 0 src else Some (sd_tmpBuffer (snd st)));
        ((ok, tmp), (w, s)) \<leftarrow> Sdi_transferAligned sdk isWrite firstSector (of_nat chunkSectorCount) (sd_tmpAddr (snd st)) tmp st;
        let st = (w, s\<lparr>sd_tmpBuffer := tmp\<rparr>);
        if \<not> ok then do { (_, st) \<leftarrow> Sdi_deselect sdk st; Some ((False, data), st) }
        else do {
          got \<leftarrow> (if isWrite then Some src else rd_n tmp 0 n);
          ((ok, rest), st) \<leftarrow> sdi_bounce sdk isWrite (firstSector + of_nat chunkSectorCount) (sectorCount - chunkSectorCount) (drop n data) st;
          Some ((ok, got @ rest), st)
        }
      })"
  by pat_completeness auto
termination
  by (relation "measure (\<lambda>(sdk, isWrite, firstSector, n, data, st). n)") (auto simp: TMP_SECTOR_COUNT_def)

declare sdi_bounce.simps [simp del]

definition Sdi_transfer ::
  "'w ios_sdk \<Rightarrow> bool \<Rightarrow> u32 \<Rightarrow> u32 \<Rightarrow> u32 \<Rightarrow> bytes \<Rightarrow> 'w sdi_state \<Rightarrow> ((bool \<times> bytes) \<times> 'w sdi_state) option" where
  "Sdi_transfer sdk isWrite firstSector sectorCount buffer data st = do {
     ensure (buffer \<noteq> 0);
     (ok, st) \<leftarrow> Sdi_select sdk st;
     if \<not> ok then Some ((False, data), st)
     else do {
       if buffer AND 0x1f \<noteq> 0 then do {
         ((ok, data), st) \<leftarrow> sdi_bounce sdk isWrite firstSector (unat sectorCount) data st;
         if \<not> ok then Some ((False, data), st)
         else do { (_, st) \<leftarrow> Sdi_deselect sdk st; Some ((True, data), st) }
       } else do {
         ((ok, data), st) \<leftarrow> Sdi_transferAligned sdk isWrite firstSector sectorCount buffer data st;
         (_, st) \<leftarrow> Sdi_deselect sdk st;
         Some ((ok, data), st)
       }
     }
   }"

definition Sdi_sectorSize :: nat where
  "Sdi_sectorSize = SECTOR_SIZE"

definition Sdi_read ::
  "'w ios_sdk \<Rightarrow> u32 \<Rightarrow> u32 \<Rightarrow> u32 \<Rightarrow> bytes \<Rightarrow> 'w sdi_state \<Rightarrow> ((bool \<times> bytes) \<times> 'w sdi_state) option" where
  "Sdi_read sdk firstSector sectorCount buffer data st = Sdi_transfer sdk False firstSector sectorCount buffer data st"

definition Sdi_write ::
  "'w ios_sdk \<Rightarrow> u32 \<Rightarrow> u32 \<Rightarrow> u32 \<Rightarrow> bytes \<Rightarrow> 'w sdi_state \<Rightarrow> ((bool \<times> bytes) \<times> 'w sdi_state) option" where
  "Sdi_write sdk firstSector sectorCount buffer data st = Sdi_transfer sdk True firstSector sectorCount buffer data st"

definition Sdi_erase :: "u32 \<Rightarrow> u32 \<Rightarrow> bool" where
  "Sdi_erase firstSector sectorCount = True"

definition Sdi_sync :: bool where
  "Sdi_sync = True"

definition Sdi_getMessageId :: u32 where
  "Sdi_getMessageId = 10154"

section \<open>Initialisation\<close>

definition sdi_bus_setup :: "'w ios_sdk \<Rightarrow> 'w sdi_state \<Rightarrow> (bool \<times> 'w sdi_state) option" where
  "sdi_bus_setup sdk st = do {
     (ok, st) \<leftarrow> Sdi_enable4BitBus sdk st;
     if \<not> ok then Some (False, st)
     else do {
       let (ok, st) = Sdi_setClock sdk 1 st;
       if \<not> ok then Some (False, st) else Sdi_select sdk st
     }
   }"

definition sdi_card_setup :: "'w ios_sdk \<Rightarrow> 'w sdi_state \<Rightarrow> (bool \<times> 'w sdi_state) option" where
  "sdi_card_setup sdk st = do {
     (ok, st) \<leftarrow> Sdi_setCardBlockLength sdk (of_nat SECTOR_SIZE) st;
     (ok, st) \<leftarrow> (if \<not> ok then Some (False, st) else Sdi_enableCard4BitBus sdk st);
     (_, st) \<leftarrow> Sdi_deselect sdk st;
     Some (ok, st)
   }"

definition SdiStorage_init :: "'w ios_sdk \<Rightarrow> 'w sdi_state \<Rightarrow> (bool \<times> 'w sdi_state) option" where
  "SdiStorage_init sdk = (\<lambda>(w, s).
     let (fd, w) = (if sd_fd s < 0 then IOS_Open sdk ''/dev/sdio/slot0'' w else (sd_fd s, w));
         s = s\<lparr>sd_fd := fd\<rparr>
     in if fd < 0 then Some (False, w, s)
        else do {
          (ok, st) \<leftarrow> Sdi_resetCard sdk (w, s);
          if \<not> ok then Some (False, st)
          else do {
            (status, st) \<leftarrow> Sdi_getStatus sdk st;
            case status of None \<Rightarrow> Some (False, st)
            | Some status \<Rightarrow>
                if status AND STATUS_CARD_INSERTED = 0 then Some (False, st)
                else if status AND STATUS_TYPE_MEMORY = 0 then Some (False, st)
                else do {
                  let st = (fst st, (snd st)\<lparr>sd_isSdhc := (status AND STATUS_TYPE_SDHC \<noteq> 0)\<rparr>);
                  (ok, st) \<leftarrow> sdi_bus_setup sdk st;
                  if \<not> ok then Some (False, st) else sdi_card_setup sdk st
                }
          }
        })"

end
