(* ===== verification/SD_Sectors.thy ===== *)
theory SD_Sectors
  imports SD_Card
begin

text \<open>
  What the driver of the SD card gives its clients: sectors.  The addressing of the two kinds of cards, the
  buffer of eight sectors and the alignment of the caller's memory are invisible.
\<close>

section \<open>Moving sectors\<close>

text \<open>
  \<open>n\<close> sectors from number \<open>first\<close> on are moved between the caller's memory, which holds \<open>data\<close> before and
  \<open>data'\<close> after, and the content of a card, \<open>c\<close> before and \<open>c'\<close> after.  A transfer that fails does not
  touch any other sector.
\<close>

definition sectors_moved :: "bool \<Rightarrow> nat \<Rightarrow> nat \<Rightarrow> bool \<Rightarrow> bytes \<Rightarrow> bytes \<Rightarrow> bytes \<Rightarrow> bytes \<Rightarrow> bool" where
  "sectors_moved isWrite first n ok data c data' c' \<longleftrightarrow>
     length data' = length data \<and> length c' = length c \<and>
     (if isWrite then data' = data \<and> take (first * 512) c' = take (first * 512) c \<and>
        drop ((first + n) * 512) c' = drop ((first + n) * 512) c \<and> (ok \<longrightarrow> c' = splice c (first * 512) data)
      else c' = c \<and> (ok \<longrightarrow> data' = take (n * 512) (drop (first * 512) c)))"

lemma splice_splice:
  "i + length xs + length ys \<le> length c \<Longrightarrow> splice (splice c i xs) (i + length xs) ys = splice c i (xs @ ys)"
  by (simp add: splice_def ac_simps)

lemma sectors_moved_none: "sectors_moved isWrite first 0 True [] c [] c"
  by (simp add: sectors_moved_def)

lemma sectors_moved_append:
  assumes 1: "sectors_moved isWrite first k True d1 c d1' c1" and 2: "sectors_moved isWrite (first + k) m ok d2 c1 d2' c2"
    and len: "length d1 = k * 512" "length d2 = m * 512" "(first + k + m) * 512 \<le> length c"
  shows "sectors_moved isWrite first (k + m) ok (d1 @ d2) c (d1' @ d2') c2"
proof (cases isWrite)
  case False
  have "take (k * 512) (drop (first * 512) c) @ take (m * 512) (drop ((first + k) * 512) c) = take ((k + m) * 512) (drop (first * 512) c)"
    by (simp add: take_add add_mult_distrib add.commute)
  then show ?thesis using False 1 2 by (auto simp: sectors_moved_def)
next
  case True
  have c1: "c1 = splice c (first * 512) d1" "length c1 = length c" using 1 True unfolding sectors_moved_def by metis+
  have "take (first * 512) c2 = take (first * 512) (take ((first + k) * 512) c2)" by (simp add: min_def)
  also have "\<dots> = take (first * 512) (take ((first + k) * 512) c1)" using 2 True by (simp add: sectors_moved_def)
  also have "\<dots> = take (first * 512) c1" by (simp add: min_def)
  also have "\<dots> = take (first * 512) c" using 1 True unfolding sectors_moved_def by metis
  finally have front: "take (first * 512) c2 = take (first * 512) c" .
  have "drop ((first + (k + m)) * 512) c2 = drop ((first + (k + m)) * 512) c1"
    using 2 True by (simp add: sectors_moved_def add.assoc)
  also have "\<dots> = drop (m * 512) (drop ((first + k) * 512) c1)" by (simp add: add_mult_distrib ac_simps)
  also have "\<dots> = drop (m * 512) (drop ((first + k) * 512) c)"
    by (rule arg_cong [where f = "drop (m * 512)"]) (use 1 True in \<open>unfold sectors_moved_def, metis\<close>)
  also have "\<dots> = drop ((first + (k + m)) * 512) c" by (simp add: add_mult_distrib ac_simps)
  finally have rest: "drop ((first + (k + m)) * 512) c2 = drop ((first + (k + m)) * 512) c" .
  have "first * 512 + length d1 = (first + k) * 512" using len by simp
  then have "splice c1 ((first + k) * 512) d2 = splice c (first * 512) (d1 @ d2)"
    using splice_splice [of "first * 512" d1 d2 c] c1 len by simp
  then show ?thesis using 1 2 True front rest by (auto simp: sectors_moved_def)
qed

text \<open>A first part that fails ends the transfer.\<close>

lemma sectors_moved_fail:
  assumes 1: "sectors_moved isWrite first k False d1 c d1' c1" and "length d1 = k * 512" "k \<le> n"
  shows "sectors_moved isWrite first n False (d1 @ d2) c (d1 @ d2) c1"
proof (cases isWrite)
  case False
  then show ?thesis using assms by (auto simp: sectors_moved_def)
next
  case True
  have e: "drop ((first + n) * 512) xs = drop ((n - k) * 512) (drop ((first + k) * 512) xs)" for xs :: bytes
    using assms(3) by (simp add: diff_mult_distrib add.commute)
  have "drop ((first + k) * 512) c1 = drop ((first + k) * 512) c" using 1 True unfolding sectors_moved_def by metis
  then have "drop ((first + n) * 512) c1 = drop ((first + n) * 512) c" unfolding e by (rule arg_cong)
  moreover have "length c1 = length c" "take (first * 512) c1 = take (first * 512) c" using 1 True unfolding sectors_moved_def by metis+
  ultimately show ?thesis using True unfolding sectors_moved_def by simp
qed

section \<open>A card\<close>

text \<open>
  The documented behaviour of the interface: \<open>content\<close> is what the card holds.  Only reads and writes of
  sectors move data; the address is in sectors on a high-capacity card and in bytes otherwise.
\<close>

definition sd_address :: "bool \<Rightarrow> nat \<Rightarrow> u32" where
  "sd_address sdhc first = (if sdhc then of_nat first else of_nat (first * 512))"

definition rw_command :: "bool \<Rightarrow> u32" where
  "rw_command isWrite = (if isWrite then CMD_WRITE_MULTIPLE_BLOCK else CMD_READ_MULTIPLE_BLOCK)"

text \<open>The bounds of a transfer: nothing wraps around in 32 bits.\<close>

definition sectors_fit :: "bool \<Rightarrow> nat \<Rightarrow> nat \<Rightarrow> bytes \<Rightarrow> bool" where
  "sectors_fit sdhc first n c \<longleftrightarrow> (first + n) * 512 \<le> length c \<and> n * 512 < 2 ^ 32 \<and> first + n < 2 ^ 32 \<and> (\<not> sdhc \<longrightarrow> (first + n) * 512 < 2 ^ 32)"

definition sd_card :: "'w ios_sdk \<Rightarrow> int \<Rightarrow> bool \<Rightarrow> ('w \<Rightarrow> bytes) \<Rightarrow> bool" where
  "sd_card sdk fd sdhc content \<longleftrightarrow>
     (\<forall>request w r out w'. IOS_Ioctl sdk fd SD_SEND_COMMAND request 16 w = ((r, out), w') \<longrightarrow>
        content w' = content w \<and> length out = 16) \<and>
     (\<forall>resp arg w r vec w'. IOS_Ioctlv sdk fd SD_SEND_COMMAND 2 1 [sd_request CMD_SELECT 3 resp arg 0 0 0, [], replicate 16 0] w = ((r, vec), w') \<longrightarrow>
        content w' = content w \<and> map length vec = [36, 0, 16]) \<and>
     (\<forall>isWrite first n buffer data w r vec w'. length data = n * 512 \<and> sectors_fit sdhc first n (content w) \<longrightarrow>
        IOS_Ioctlv sdk fd SD_SEND_COMMAND 2 1
          [sd_request (rw_command isWrite) 3 RESPONSE_TYPE_R1 (sd_address sdhc first) (of_nat n) 512 buffer, data, replicate 16 0] w = ((r, vec), w') \<longrightarrow>
        map length vec = [36, n * 512, 16] \<and> sectors_moved isWrite first n (0 \<le> r) data (content w) (vec ! 1) (content w'))"

lemma read_response: "length out = 16 \<Longrightarrow> \<exists>v. read_u32 out 0 = Some v"
  by (simp add: read_u32_total)

lemma map_length3: "map length vec = [a, b, c] \<Longrightarrow> \<exists>x y z. vec = [x, y, z] \<and> length x = a \<and> length y = b \<and> length z = c"
  by (cases vec; cases "tl vec"; cases "tl (tl vec)") auto

lemma sdi_select_keeps:
  assumes "sd_card sdk (sd_fd s) sdhc content"
  shows "\<exists>ok w'. sdi_command sdk CMD_SELECT resp arg (w, s) = Some (ok, w', s) \<and> content w' = content w"
proof (cases "sd_isSdhc s")
  case True
  obtain r vec w' where run: "IOS_Ioctlv sdk (sd_fd s) SD_SEND_COMMAND 2 1 [sd_request CMD_SELECT 3 resp arg 0 0 0, [], replicate 16 0] w = ((r, vec), w')"
    by (metis surj_pair)
  then have keep: "content w' = content w" and len: "map length vec = [36, 0, 16]" using assms unfolding sd_card_def by blast+
  obtain x y z where vec: "vec = [x, y, z]" "length z = 16" "length y = 0" using map_length3 [OF len] by blast
  obtain v where "read_u32 z 0 = Some v" using read_response vec by blast
  then show ?thesis using run keep vec True by (auto simp: sdi_command_def Sdi_sendCommand_def)
next
  case False
  obtain r out w' where run: "IOS_Ioctl sdk (sd_fd s) SD_SEND_COMMAND (sd_request CMD_SELECT 3 resp arg 0 0 0) 16 w = ((r, out), w')"
    by (metis surj_pair)
  then have "content w' = content w" "length out = 16" using assms unfolding sd_card_def by blast+
  then show ?thesis using run read_response [of out] False by (auto simp: sdi_command_def Sdi_sendCommand_def)
qed

lemma transferAligned_moves:
  assumes card: "sd_card sdk (sd_fd s) (sd_isSdhc s) content" and fit: "sectors_fit (sd_isSdhc s) first n (content w)"
    and buffer: "buffer \<noteq> 0" and len: "length data = n * 512"
  shows "\<exists>ok data' w'. Sdi_transferAligned sdk isWrite (of_nat first) (of_nat n) buffer (data @ beyond) (w, s) = Some ((ok, data' @ beyond), w', s) \<and>
    sectors_moved isWrite first n ok data (content w) data' (content w')"
proof -
  let ?req = "sd_request (rw_command isWrite) 3 RESPONSE_TYPE_R1 (sd_address (sd_isSdhc s) first) (of_nat n) 512 buffer"
  have addr: "(if sd_isSdhc s then of_nat first else of_nat first * of_nat SECTOR_SIZE) = sd_address (sd_isSdhc s) first"
    by (simp add: sd_address_def SECTOR_SIZE_def)
  have "(of_nat n :: u32) * 512 = of_nat (n * 512)" by simp
  then have size: "unat ((of_nat n :: u32) * 512) = n * 512"
    using fit unat_u32_of_nat [of "n * 512"] unfolding sectors_fit_def by metis
  obtain r vec w' where run: "IOS_Ioctlv sdk (sd_fd s) SD_SEND_COMMAND 2 1 [?req, data, replicate 16 0] w = ((r, vec), w')"
    by (metis surj_pair)
  have law: "map length vec = [36, n * 512, 16] \<and> sectors_moved isWrite first n (0 \<le> r) data (content w) (vec ! 1) (content w')"
    using card [unfolded sd_card_def, THEN conjunct2, THEN conjunct2, rule_format, OF _ run] len fit by blast
  then obtain x y z where vec: "vec = [x, y, z]" "length z = 16" using map_length3 by blast
  obtain v where v: "read_u32 z 0 = Some v" using read_response vec by blast
  have "Sdi_sendCommand sdk (rw_command isWrite) 3 RESPONSE_TYPE_R1 (sd_address (sd_isSdhc s) first) (of_nat n) (of_nat SECTOR_SIZE) buffer (data @ beyond) (w, s) =
      Some ((if r < 0 then None else Some v, y @ beyond), w', s)"
    using buffer run vec v size len by (simp add: Sdi_sendCommand_def SECTOR_SIZE_def)
  then show ?thesis
    using law vec addr unfolding Sdi_transferAligned_def rw_command_def [symmetric] by (auto simp: not_less)
qed

section \<open>Transfers\<close>

lemma bounce_moves:
  assumes card: "sd_card sdk fd sdhc content" and tmpAddr: "sd_tmpAddr s \<noteq> 0"
  shows "sectors_fit sdhc first n (content w) \<Longrightarrow> length data = n * 512 \<Longrightarrow> sd_fd s = fd \<Longrightarrow> sd_isSdhc s = sdhc \<Longrightarrow>
    sd_tmpAddr s \<noteq> 0 \<Longrightarrow> length (sd_tmpBuffer s) = TMP_SECTOR_COUNT * SECTOR_SIZE \<Longrightarrow>
    \<exists>ok data' w' tmp. sdi_bounce sdk isWrite (of_nat first) n data (w, s) = Some ((ok, data'), w', s\<lparr>sd_tmpBuffer := tmp\<rparr>) \<and>
      sectors_moved isWrite first n ok data (content w) data' (content w')"
proof (induction n arbitrary: first data w s rule: less_induct)
  case (less n)
  show ?case
  proof (cases "n = 0")
    case True
    have "sdi_bounce sdk isWrite (of_nat first) n data (w, s) = Some ((True, data), w, s\<lparr>sd_tmpBuffer := sd_tmpBuffer s\<rparr>)"
      using True by (simp add: sdi_bounce.simps)
    moreover have "sectors_moved isWrite first n True data (content w) data (content w)"
      using True less.prems(2) by (simp add: sectors_moved_none)
    ultimately show ?thesis by blast
  next
    case False
    let ?k = "min n TMP_SECTOR_COUNT" and ?src = "take (min n TMP_SECTOR_COUNT * 512) data"
    define tmp0 where "tmp0 = (if isWrite then splice (sd_tmpBuffer s) 0 ?src else sd_tmpBuffer s)"
    let ?first = "take (?k * 512) tmp0" and ?beyond = "drop (?k * 512) tmp0"
    have k: "0 < ?k" "?k \<le> n" "?k * 512 \<le> length (sd_tmpBuffer s)" "?k * 512 \<le> length data"
      using False less.prems(2,6) by (simp_all add: TMP_SECTOR_COUNT_def SECTOR_SIZE_def)
    have tmp0: "length tmp0 = length (sd_tmpBuffer s)" using k by (simp add: tmp0_def len_simps)
    have flen: "length ?first = ?k * 512" using k tmp0 by simp
    have first: "isWrite \<longrightarrow> ?first = ?src" using k by (simp add: tmp0_def splice_def)
    have fitk: "sectors_fit sdhc first ?k (content w)" using less.prems(1) k(2) by (auto simp: sectors_fit_def)
    obtain ok tmp w1 where tr: "Sdi_transferAligned sdk isWrite (of_nat first) (of_nat ?k) (sd_tmpAddr s) tmp0 (w, s) = Some ((ok, tmp @ ?beyond), w1, s)"
      and moved: "sectors_moved isWrite first ?k ok ?first (content w) tmp (content w1)"
      using transferAligned_moves [of sdk s content first ?k w "sd_tmpAddr s" ?first isWrite ?beyond] card fitk flen less.prems(3,4,5) by auto
    let ?s = "s\<lparr>sd_tmpBuffer := tmp @ ?beyond\<rparr>"
    have tlen: "length tmp = ?k * 512" using moved flen by (simp add: sectors_moved_def)
    have blen: "length (tmp @ ?beyond) = length (sd_tmpBuffer s)" using tlen k(3) tmp0 by simp
    have step: "sdi_bounce sdk isWrite (of_nat first) n data (w, s) =
      (if \<not> ok then do { (_, st) \<leftarrow> Sdi_deselect sdk (w1, ?s); Some ((False, data), st) }
       else do {
         ((ok, rest), st) \<leftarrow> sdi_bounce sdk isWrite (of_nat first + of_nat ?k) (n - ?k) (drop (?k * 512) data) (w1, ?s);
         Some ((ok, (if isWrite then ?src else tmp) @ rest), st)
       })"
    proof -
      have e0: "rd_n data 0 (?k * 512) = Some ?src" using k by simp
      have e1: "(if isWrite then wr_n (sd_tmpBuffer s) 0 ?src else Some (sd_tmpBuffer s)) = Some tmp0"
        using k by (simp add: tmp0_def)
      have e2: "(if isWrite then Some ?src else rd_n (tmp @ ?beyond) 0 (?k * 512)) = Some (if isWrite then ?src else tmp)"
        using tlen by simp
      show ?thesis
        by (subst sdi_bounce.simps, simp only: Let_def SECTOR_SIZE_def e0 e1 e2 tr False if_False bind.bind_lunit snd_conv prod.case)
    qed
    show ?thesis
    proof (cases ok)
      case False
      obtain a w2 where desel: "Sdi_deselect sdk (w1, ?s) = Some (a, w2, ?s)" "content w2 = content w1"
        using sdi_select_keeps [of sdk ?s sdhc content RESPONSE_TYPE_R1B 0 w1] card less.prems(3) by (auto simp: Sdi_deselect_def)
      have "sectors_moved isWrite first ?k False ?src (content w) ?src (content w1)"
        using moved False first by (cases isWrite) (auto simp: sectors_moved_def)
      then have "sectors_moved isWrite first n False (?src @ drop (?k * 512) data) (content w) (?src @ drop (?k * 512) data) (content w1)"
        by (rule sectors_moved_fail [OF _ _ min.cobounded1]) (use k in simp)
      then have "sectors_moved isWrite first n False data (content w) data (content w2)" using desel(2) by simp
      moreover have "sdi_bounce sdk isWrite (of_nat first) n data (w, s) = Some ((False, data), w2, s\<lparr>sd_tmpBuffer := tmp @ ?beyond\<rparr>)"
        using step False desel(1) by simp
      ultimately show ?thesis by blast
    next
      case True
      have m1: "sectors_moved isWrite first ?k True ?src (content w) (if isWrite then ?src else tmp) (content w1)"
        using moved True first flen k by (auto simp: sectors_moved_def)
      have clen: "length (content w1) = length (content w)" using moved by (simp add: sectors_moved_def)
      have fit: "sectors_fit sdhc (first + ?k) (n - ?k) (content w1)"
        using less.prems(1) k clen by (auto simp: sectors_fit_def)
      obtain ok2 rest w2 tmp2 where rec: "sdi_bounce sdk isWrite (of_nat (first + ?k)) (n - ?k) (drop (?k * 512) data) (w1, ?s) =
          Some ((ok2, rest), w2, ?s\<lparr>sd_tmpBuffer := tmp2\<rparr>)"
        and m2: "sectors_moved isWrite (first + ?k) (n - ?k) ok2 (drop (?k * 512) data) (content w1) rest (content w2)"
        using less.IH [of "n - ?k" "first + ?k" w1 "drop (?k * 512) data" ?s] k fit less.prems(2-6) blen
        by (auto simp: diff_mult_distrib)
      have "sectors_moved isWrite first (?k + (n - ?k)) ok2 (?src @ drop (?k * 512) data) (content w) ((if isWrite then ?src else tmp) @ rest) (content w2)"
        using k less.prems(1,2) by (intro sectors_moved_append [OF m1 m2]) (auto simp: sectors_fit_def diff_mult_distrib)
      then have "sectors_moved isWrite first n ok2 data (content w) ((if isWrite then ?src else tmp) @ rest) (content w2)"
        using k(2) by (simp add: le_add_diff_inverse del: min.bounded_iff)
      moreover have "sdi_bounce sdk isWrite (of_nat first) n data (w, s) =
          Some ((ok2, (if isWrite then ?src else tmp) @ rest), w2, s\<lparr>sd_tmpBuffer := tmp2\<rparr>)"
        using step True rec by simp
      ultimately show ?thesis by blast
    qed
  qed
qed

text \<open>The two operations of the driver, from and to memory of any alignment.\<close>

lemma transfer_moves:
  assumes card: "sd_card sdk (sd_fd s) (sd_isSdhc s) content" and fit: "sectors_fit (sd_isSdhc s) first n (content w)"
    and buffer: "buffer \<noteq> 0" and len: "length data = n * 512" and tmp: "sd_tmpAddr s \<noteq> 0" "length (sd_tmpBuffer s) = 4096"
  shows "\<exists>ok data' w' tmp'. Sdi_transfer sdk isWrite (of_nat first) (of_nat n) buffer data (w, s) = Some ((ok, data'), w', s\<lparr>sd_tmpBuffer := tmp'\<rparr>) \<and>
    sectors_moved isWrite first n ok data (content w) data' (content w')"
proof -
  obtain sel w1 where sel: "Sdi_select sdk (w, s) = Some (sel, w1, s)" "content w1 = content w"
    using sdi_select_keeps [OF card, of RESPONSE_TYPE_R1B] unfolding Sdi_select_def by blast
  have desel: "\<exists>a w'. Sdi_deselect sdk (v, s\<lparr>sd_tmpBuffer := t\<rparr>) = Some (a, w', s\<lparr>sd_tmpBuffer := t\<rparr>) \<and> content w' = content v" for v t
    using sdi_select_keeps [of sdk "s\<lparr>sd_tmpBuffer := t\<rparr>" "sd_isSdhc s" content RESPONSE_TYPE_R1B 0 v] card by (simp add: Sdi_deselect_def)
  have n: "unat (of_nat n :: u32) = n" using fit by (intro unat_u32_of_nat) (simp add: sectors_fit_def)
  have none: "sectors_moved isWrite first n False data (content w) data (content w)" by (simp add: sectors_moved_def)
  show ?thesis
  proof (cases sel)
    case False
    have "Sdi_transfer sdk isWrite (of_nat first) (of_nat n) buffer data (w, s) = Some ((False, data), w1, s\<lparr>sd_tmpBuffer := sd_tmpBuffer s\<rparr>)"
      using buffer sel False by (simp add: Sdi_transfer_def)
    then show ?thesis using none sel(2) by metis
  next
    case selected: True
    show ?thesis
    proof (cases "buffer AND 0x1f = 0")
      case True
      obtain ok data' w2 where tr: "Sdi_transferAligned sdk isWrite (of_nat first) (of_nat n) buffer data (w1, s) = Some ((ok, data'), w2, s)"
        "sectors_moved isWrite first n ok data (content w1) data' (content w2)"
        using transferAligned_moves [of sdk s content first n w1 buffer data isWrite "[]"] card fit sel(2) buffer len by auto
      obtain a w3 where "Sdi_deselect sdk (w2, s) = Some (a, w3, s)" "content w3 = content w2"
        using desel [of w2 "sd_tmpBuffer s"] by auto
      then have "Sdi_transfer sdk isWrite (of_nat first) (of_nat n) buffer data (w, s) = Some ((ok, data'), w3, s\<lparr>sd_tmpBuffer := sd_tmpBuffer s\<rparr>)"
        "sectors_moved isWrite first n ok data (content w) data' (content w3)"
        using buffer sel selected True tr by (simp_all add: Sdi_transfer_def)
      then show ?thesis by blast
    next
      case False
      obtain ok data' w2 t where tr: "sdi_bounce sdk isWrite (of_nat first) n data (w1, s) = Some ((ok, data'), w2, s\<lparr>sd_tmpBuffer := t\<rparr>)"
        "sectors_moved isWrite first n ok data (content w1) data' (content w2)"
        using bounce_moves [OF card tmp(1), of first n w1 data isWrite] fit sel(2) len tmp by (auto simp: TMP_SECTOR_COUNT_def SECTOR_SIZE_def)
      obtain a w3 where d: "Sdi_deselect sdk (w2, s\<lparr>sd_tmpBuffer := t\<rparr>) = Some (a, w3, s\<lparr>sd_tmpBuffer := t\<rparr>)" "content w3 = content w2"
        using desel by blast
      have "Sdi_transfer sdk isWrite (of_nat first) (of_nat n) buffer data (w, s) =
          Some ((ok, if ok then data' else data'), if ok then w3 else w2, s\<lparr>sd_tmpBuffer := t\<rparr>)"
        using buffer sel selected False tr d n by (simp add: Sdi_transfer_def)
      then show ?thesis using tr(2) d(2) sel(2) by (cases ok) auto
    qed
  qed
qed

text \<open>C26: The driver of the SD card moves whole sectors: with a card that follows its commands, a read
  that succeeds gives the bytes of the sectors it names and changes nothing, a write that succeeds
  stores the caller's bytes in those sectors alone, and one that fails touches no other sector,
  for either kind of card, any number of sectors and aligned and unaligned memory alike.\<close>

theorem sd_sectors:
  assumes "sd_card sdk (sd_fd s) (sd_isSdhc s) content" and "sectors_fit (sd_isSdhc s) first n (content w)"
    and "buffer \<noteq> 0" and "length data = n * 512" and "sd_tmpAddr s \<noteq> 0" and "length (sd_tmpBuffer s) = 4096"
  shows "(\<exists>ok data' w' s'. Sdi_read sdk (of_nat first) (of_nat n) buffer data (w, s) = Some ((ok, data'), w', s') \<and>
      content w' = content w \<and> (ok \<longrightarrow> data' = take (n * 512) (drop (first * 512) (content w)))) \<and>
    (\<exists>ok w' s'. Sdi_write sdk (of_nat first) (of_nat n) buffer data (w, s) = Some ((ok, data), w', s') \<and>
      take (first * 512) (content w') = take (first * 512) (content w) \<and>
      drop ((first + n) * 512) (content w') = drop ((first + n) * 512) (content w) \<and>
      (ok \<longrightarrow> content w' = splice (content w) (first * 512) data))"
  using transfer_moves [OF assms, of False] transfer_moves [OF assms, of True]
  unfolding Sdi_read_def Sdi_write_def sectors_moved_def by (simp, metis)

section \<open>Example\<close>

text \<open>A high-capacity card of two sectors.\<close>

definition ex_sd_rw :: "bytes list \<Rightarrow> bytes \<Rightarrow> (int \<times> bytes list) \<times> bytes" where
  "ex_sd_rw vec c =
     (let req = vec ! 0; data = vec ! 1; first = (case read_u32 req 12 of None \<Rightarrow> 0 | Some a \<Rightarrow> unat a)
      in if take 4 req = to_be CMD_READ_MULTIPLE_BLOCK then ((0, [req, take (length data) (drop (first * 512) c), vec ! 2]), c)
         else if take 4 req = to_be CMD_WRITE_MULTIPLE_BLOCK then ((0, vec), splice c (first * 512) data)
         else ((0, vec), c))"

definition ex_sd :: "bytes ios_sdk" where
  "ex_sd = \<lparr>IOS_Open = (\<lambda>p w. (3, w)), IOS_Close = (\<lambda>fd w. (0, w)),
     IOS_Ioctl = (\<lambda>fd c i n w. ((0, replicate n 0), w)),
     IOS_Ioctlv = (\<lambda>fd c i n vec w. ex_sd_rw vec w)\<rparr>"

definition ex_sdi :: sdi where
  "ex_sdi = \<lparr>sd_fd = 3, sd_rca = 1, sd_isSdhc = True, sd_tmpBuffer = replicate 4096 0, sd_tmpAddr = 0x80001000\<rparr>"

lemma ex_sd_card: "sd_card ex_sd 3 True id"
proof -
  have rw: "map length vec = [36, n * 512, 16] \<and> sectors_moved isWrite first n (0 \<le> r) data w (vec ! 1) w'"
    if len: "length data = n * 512" and fit: "sectors_fit True first n w"
      and run: "ex_sd_rw [sd_request (rw_command isWrite) 3 RESPONSE_TYPE_R1 (sd_address True first) (of_nat n) 512 buffer, data, replicate 16 0] w = ((r, vec), w')"
    for isWrite first n buffer data w r vec w'
  proof -
    let ?req = "sd_request (rw_command isWrite) 3 RESPONSE_TYPE_R1 (sd_address True first) (of_nat n) 512 buffer"
    have req: "take 4 ?req = to_be (rw_command isWrite)" "read_u32 ?req 12 = Some (of_nat first)" "length ?req = 36"
      using read_words32 [of 3] by (simp_all add: sd_request_def take_words32 sd_address_def len_simps)
    have first: "unat (of_nat first :: u32) = first" using fit by (intro unat_u32_of_nat) (simp add: sectors_fit_def)
    have cmd: "CMD_WRITE_MULTIPLE_BLOCK \<noteq> CMD_READ_MULTIPLE_BLOCK"
      by (simp add: CMD_WRITE_MULTIPLE_BLOCK_def CMD_READ_MULTIPLE_BLOCK_def)
    have range: "first * 512 + length data \<le> length w" using fit len by (simp add: sectors_fit_def)
    have beyond: "drop ((first + n) * 512) (splice w (first * 512) data) = drop ((first + n) * 512) w"
      using range len by (simp add: splice_def add.commute add_mult_distrib)
    show ?thesis
      using run req first cmd range beyond len
      by (cases isWrite) (auto simp: ex_sd_rw_def Let_def rw_command_def to_be_eq_iff sectors_moved_def len_simps take_splice_before)
  qed
  have sel: "w' = w \<and> map length vec = [36, 0, 16]"
    if "ex_sd_rw [sd_request CMD_SELECT 3 resp arg 0 0 0, [], replicate 16 0] w = ((r, vec), w')" for resp arg w r vec w'
    using that by (auto simp: ex_sd_rw_def sd_request_def take_words32 to_be_eq_iff len_simps CMD_SELECT_def
        CMD_WRITE_MULTIPLE_BLOCK_def CMD_READ_MULTIPLE_BLOCK_def)
  show ?thesis
    unfolding sd_card_def using rw sel by (auto simp: ex_sd_def)
qed

theorem sd_sectors_witness:
  "\<exists>ok data' w' s'. Sdi_read ex_sd 1 1 0x80000001 (replicate 512 0) (replicate 512 7 @ replicate 512 9, ex_sdi) = Some ((ok, data'), w', s') \<and>
     (ok \<longrightarrow> data' = replicate 512 9)"
proof -
  have fit: "sectors_fit True 1 1 (id (replicate 512 7 @ replicate 512 9))"
    by (simp add: sectors_fit_def)
  have len: "sd_tmpAddr ex_sdi \<noteq> 0" "length (sd_tmpBuffer ex_sdi) = 4096" "sd_fd ex_sdi = 3" "sd_isSdhc ex_sdi = True"
    by (simp_all add: ex_sdi_def)
  have content: "take (1 * 512) (drop (1 * 512) (id (replicate 512 7 @ replicate 512 9))) = replicate 512 9" by simp
  show ?thesis
    using sd_sectors [of ex_sd ex_sdi id 1 1 "replicate 512 7 @ replicate 512 9" "0x80000001" "replicate 512 0", THEN conjunct1]
      ex_sd_card fit len content unfolding of_nat_1 by fastforce
qed

end
