(* ===== verification/Usb_Host.thy ===== *)
theory Usb_Host
  imports IOS_World
begin

text \<open>
  \<open>payload/sp/storage/Usb.c\<close>: the devices on the USB bus, which handler serves which of them, and transfers
  to them.  The thread that waits for changes calls \<open>Usb_updateDevices\<close> with each new list of devices; the
  mutexes make the operations here atomic.
\<close>

definition MAX_DEVICE_COUNT :: nat where "MAX_DEVICE_COUNT = 0x20"

definition USB_GET_VERSION :: nat where "USB_GET_VERSION = 0x0"
definition USB_GET_DEVICE_CHANGE :: nat where "USB_GET_DEVICE_CHANGE = 0x1"
definition USB_GET_DEVICE_INFO :: nat where "USB_GET_DEVICE_INFO = 0x3"
definition USB_ATTACH_FINISH :: nat where "USB_ATTACH_FINISH = 0x6"
definition USB_SET_ALTERNATE_SETTING :: nat where "USB_SET_ALTERNATE_SETTING = 0x7"
definition USB_SUSPEND_RESUME :: nat where "USB_SUSPEND_RESUME = 0x10"
definition USB_CTRL_TRANSFER :: nat where "USB_CTRL_TRANSFER = 0x12"
definition USB_BULK_TRANSFER :: nat where "USB_BULK_TRANSFER = 0x15"

definition USB_ENDPOINT_DIRECTION_SHIFT :: nat where "USB_ENDPOINT_DIRECTION_SHIFT = 7"
definition USB_ENDPOINT_DIRECTION_MASK :: u8 where "USB_ENDPOINT_DIRECTION_MASK = 0x1"
definition USB_ENDPOINT_DIRECTION_HOST_TO_DEVICE :: u8 where "USB_ENDPOINT_DIRECTION_HOST_TO_DEVICE = 0x0"
definition USB_ENDPOINT_DIRECTION_DEVICE_TO_HOST :: u8 where "USB_ENDPOINT_DIRECTION_DEVICE_TO_HOST = 0x1"

section \<open>State\<close>

text \<open>A handler is known by its index; a slot without one is free.\<close>

record usb_device =
  dv_id :: u32
  dv_handler :: "nat option"
  dv_transfer :: u32

record device_entry =
  de_id :: u32
  de_vendorId :: u16
  de_productId :: u16
  de_interfaceNumber :: u8
  de_alternateSettingCount :: u8

text \<open>\<open>us_head\<close> is the list of handlers that begins at \<open>head\<close>.\<close>

record 'w usb =
  us_world :: 'w
  us_isInit :: bool
  us_fd :: int
  us_head :: "nat list"
  us_devices :: "usb_device list"
  us_entries :: "device_entry list"

text \<open>The functions of a handler; one that panics is a fault.\<close>

record 's usb_handler =
  onDeviceAdd :: "bytes \<Rightarrow> 's \<Rightarrow> (bool \<times> 's) option"
  onDeviceRemove :: "u32 \<Rightarrow> 's \<Rightarrow> 's option"

definition usb_ioctl :: "'w ios_sdk \<Rightarrow> nat \<Rightarrow> bytes \<Rightarrow> nat \<Rightarrow> ('w, 'a) usb_scheme \<Rightarrow> (int \<times> bytes) \<times> ('w, 'a) usb_scheme" where
  "usb_ioctl sdk command input n s =
     (let (r, w) = IOS_Ioctl sdk (us_fd s) command input n (us_world s) in (r, s\<lparr>us_world := w\<rparr>))"

section \<open>Looking devices up\<close>

fun find_device :: "usb_device list \<Rightarrow> nat \<Rightarrow> u32 \<Rightarrow> nat option" where
  "find_device [] i dev = None"
| "find_device (d # ds) i dev =
     (if dv_handler d \<noteq> None \<and> dv_id d = dev then Some i else find_device ds (i + 1) dev)"

definition Usb_lockDevice :: "u32 \<Rightarrow> ('w, 'a) usb_scheme \<Rightarrow> nat option" where
  "Usb_lockDevice dev s = find_device (us_devices s) 0 dev"

definition Usb_wasDeviceRemoved :: "nat \<Rightarrow> ('w, 'a) usb_scheme \<Rightarrow> bool option" where
  "Usb_wasDeviceRemoved i s = do {
     d \<leftarrow> rd (us_devices s) i;
     Some (dv_handler d \<noteq> None \<and> list_all (\<lambda>e. de_id e \<noteq> dv_id d) (us_entries s))
   }"

definition set_handler :: "nat \<Rightarrow> nat option \<Rightarrow> ('w, 'a) usb_scheme \<Rightarrow> ('w, 'a) usb_scheme option" where
  "set_handler i h s = do {
     d \<leftarrow> rd (us_devices s) i;
     ds \<leftarrow> wr (us_devices s) i (d\<lparr>dv_handler := h\<rparr>);
     Some (s\<lparr>us_devices := ds\<rparr>)
   }"

definition Usb_handleRemoval :: "(nat \<Rightarrow> ('w, 'a) usb_scheme usb_handler) \<Rightarrow> nat \<Rightarrow> ('w, 'a) usb_scheme \<Rightarrow> ('w, 'a) usb_scheme option" where
  "Usb_handleRemoval hs i s = do {
     removed \<leftarrow> Usb_wasDeviceRemoved i s;
     if \<not> removed then Some s
     else do {
       d \<leftarrow> rd (us_devices s) i;
       h \<leftarrow> dv_handler d;
       s \<leftarrow> onDeviceRemove (hs h) (dv_id d) s;
       set_handler i None s
     }
   }"

definition Usb_wasDeviceAdded :: "device_entry \<Rightarrow> ('w, 'a) usb_scheme \<Rightarrow> bool" where
  "Usb_wasDeviceAdded e s \<longleftrightarrow> list_all (\<lambda>d. \<not> (dv_handler d \<noteq> None \<and> dv_id d = de_id e)) (us_devices s)"

text \<open>\<open>Usb_findSlot\<close> panics when there is no free slot.\<close>

fun find_slot :: "usb_device list \<Rightarrow> nat \<Rightarrow> nat option" where
  "find_slot [] i = None"
| "find_slot (d # ds) i = (if dv_handler d = None then Some i else find_slot ds (i + 1))"

definition Usb_findSlot :: "('w, 'a) usb_scheme \<Rightarrow> nat option" where
  "Usb_findSlot s = find_slot (us_devices s) 0"

section \<open>A device is added\<close>

text \<open>The 32 byte requests that name a device: an id and one more byte.\<close>

definition device_request :: "u32 \<Rightarrow> nat \<Rightarrow> u8 \<Rightarrow> bytes" where
  "device_request dev i v = splice ((replicate 0x20 0)[i := v]) 0 (to_be dev)"

text \<open>
  The handlers in turn.  The info given to a handler lies in the buffer that is also used for the request
  to change the setting: when that request fails, the next handler sees zeros.
\<close>

fun try_handlers ::
  "'w ios_sdk \<Rightarrow> (nat \<Rightarrow> ('w, 'a) usb_scheme usb_handler) \<Rightarrow> u32 \<Rightarrow> nat \<Rightarrow> u8 \<Rightarrow> nat list \<Rightarrow> bytes \<Rightarrow> ('w, 'a) usb_scheme \<Rightarrow>
   (bool \<times> ('w, 'a) usb_scheme) option" where
  "try_handlers sdk hs dev j k [] info s = Some (False, s)"
| "try_handlers sdk hs dev j k (h # rest) info s = do {
     s \<leftarrow> set_handler j (Some h) s;
     (ok, s) \<leftarrow> onDeviceAdd (hs h) info s;
     if \<not> ok then do { s \<leftarrow> set_handler j None s; try_handlers sdk hs dev j k rest info s }
     else do {
       let ((r, _), s) = usb_ioctl sdk USB_SET_ALTERNATE_SETTING (device_request dev 8 k) 0 s;
       if r \<ge> 0 then Some (True, s)
       else do {
         s \<leftarrow> onDeviceRemove (hs h) dev s;
         s \<leftarrow> set_handler j None s;
         try_handlers sdk hs dev j k rest (replicate 0xc0 0) s
       }
     }
   }"

fun try_settings ::
  "'w ios_sdk \<Rightarrow> (nat \<Rightarrow> ('w, 'a) usb_scheme usb_handler) \<Rightarrow> u32 \<Rightarrow> nat \<Rightarrow> nat list \<Rightarrow> ('w, 'a) usb_scheme \<Rightarrow> (bool \<times> ('w, 'a) usb_scheme) option" where
  "try_settings sdk hs dev j [] s = Some (False, s)"
| "try_settings sdk hs dev j (k # ks) s = do {
     let ((r, info), s) = usb_ioctl sdk USB_GET_DEVICE_INFO (device_request dev 8 (of_nat k)) 0xc0 s;
     (found, s) \<leftarrow> (if r \<ge> 0 then try_handlers sdk hs dev j (of_nat k) (us_head s) info s else Some (False, s));
     if found then Some (True, s) else try_settings sdk hs dev j ks s
   }"

definition Usb_handleAddition ::
  "'w ios_sdk \<Rightarrow> (nat \<Rightarrow> ('w, 'a) usb_scheme usb_handler) \<Rightarrow> device_entry \<Rightarrow> ('w, 'a) usb_scheme \<Rightarrow> ('w, 'a) usb_scheme option" where
  "Usb_handleAddition sdk hs e s =
     (if \<not> Usb_wasDeviceAdded e s then Some s
      else do {
        j \<leftarrow> Usb_findSlot s;
        d \<leftarrow> rd (us_devices s) j;
        ds \<leftarrow> wr (us_devices s) j (d\<lparr>dv_id := de_id e\<rparr>);
        let s = s\<lparr>us_devices := ds\<rparr>;
        let ((r, _), s) = usb_ioctl sdk USB_SUSPEND_RESUME (device_request (de_id e) 0xb 1) 0 s;
        if r < 0 then Some s
        else do {
          (found, s) \<leftarrow> try_settings sdk hs (de_id e) j [0..<unat (de_alternateSettingCount e)] s;
          if found then Some s
          else Some (snd (usb_ioctl sdk USB_SUSPEND_RESUME (device_request (de_id e) 0xb 0) 0 s))
        }
      })"

section \<open>The list of devices changes\<close>

fun handle_removals :: "(nat \<Rightarrow> ('w, 'a) usb_scheme usb_handler) \<Rightarrow> nat list \<Rightarrow> ('w, 'a) usb_scheme \<Rightarrow> ('w, 'a) usb_scheme option" where
  "handle_removals hs [] s = Some s"
| "handle_removals hs (i # is) s = do { s \<leftarrow> Usb_handleRemoval hs i s; handle_removals hs is s }"

fun handle_additions ::
  "'w ios_sdk \<Rightarrow> (nat \<Rightarrow> ('w, 'a) usb_scheme usb_handler) \<Rightarrow> device_entry list \<Rightarrow> ('w, 'a) usb_scheme \<Rightarrow> ('w, 'a) usb_scheme option" where
  "handle_additions sdk hs [] s = Some s"
| "handle_additions sdk hs (e # es) s = do { s \<leftarrow> Usb_handleAddition sdk hs e s; handle_additions sdk hs es s }"

text \<open>One round of the discovery thread, which waits in the request for the list until something has changed.\<close>

definition Usb_updateDevices ::
  "'w ios_sdk \<Rightarrow> (nat \<Rightarrow> ('w, 'a) usb_scheme usb_handler) \<Rightarrow> ('w, 'a) usb_scheme \<Rightarrow> ('w, 'a) usb_scheme option" where
  "Usb_updateDevices sdk hs s = do {
     ensure (distinct (map de_id (us_entries s)));
     s \<leftarrow> handle_removals hs [0..<MAX_DEVICE_COUNT] s;
     s \<leftarrow> handle_additions sdk hs (us_entries s) s;
     let (_, s) = usb_ioctl sdk USB_ATTACH_FINISH [] 0 s;
     Some (s\<lparr>us_isInit := True\<rparr>)
   }"

definition DEVICE_ENTRY_SIZE :: nat where "DEVICE_ENTRY_SIZE = 0xc"

definition device_entry_at :: "bytes \<Rightarrow> nat \<Rightarrow> device_entry option" where
  "device_entry_at b i = do {
     let off = i * DEVICE_ENTRY_SIZE;
     dev \<leftarrow> read_u32 b off;
     vendorId \<leftarrow> read_u16 b (off + 0x4);
     productId \<leftarrow> read_u16 b (off + 0x6);
     interfaceNumber \<leftarrow> read_u8 b (off + 0xa);
     alternateSettingCount \<leftarrow> read_u8 b (off + 0xb);
     Some \<lparr>de_id = dev, de_vendorId = vendorId, de_productId = productId, de_interfaceNumber = interfaceNumber,
       de_alternateSettingCount = alternateSettingCount\<rparr>
   }"

fun device_entries :: "bytes \<Rightarrow> nat list \<Rightarrow> device_entry list option" where
  "device_entries b [] = Some []"
| "device_entries b (i # is) = do { e \<leftarrow> device_entry_at b i; es \<leftarrow> device_entries b is; Some (e # es) }"

definition Usb_discoverDevices ::
  "'w ios_sdk \<Rightarrow> (nat \<Rightarrow> ('w, 'a) usb_scheme usb_handler) \<Rightarrow> ('w, 'a) usb_scheme \<Rightarrow> ('w, 'a) usb_scheme option" where
  "Usb_discoverDevices sdk hs s = do {
     let ((result, out), s) = usb_ioctl sdk USB_GET_DEVICE_CHANGE [] (MAX_DEVICE_COUNT * DEVICE_ENTRY_SIZE) s;
     ensure (result \<ge> 0 \<and> result \<le> int MAX_DEVICE_COUNT);
     entries \<leftarrow> device_entries out [0..<nat result];
     Usb_updateDevices sdk hs (s\<lparr>us_entries := entries\<rparr>)
   }"

text \<open>
  \<open>Usb_init\<close>; \<open>transfers\<close> are the addresses that the arena gives.  It starts the discovery thread and waits
  for its first round.
\<close>

definition Usb_init ::
  "'w ios_sdk \<Rightarrow> (nat \<Rightarrow> ('w, 'a) usb_scheme usb_handler) \<Rightarrow> (nat \<Rightarrow> u32) \<Rightarrow> ('w, 'a) usb_scheme \<Rightarrow> (bool \<times> ('w, 'a) usb_scheme) option" where
  "Usb_init sdk hs transfers s =
     (let s = s\<lparr>us_devices := map (\<lambda>i. \<lparr>dv_id = 0, dv_handler = None, dv_transfer = transfers i\<rparr>) [0..<MAX_DEVICE_COUNT]\<rparr>;
          (fd, w) = IOS_Open sdk ''/dev/usb/ven'' (us_world s);
          s = s\<lparr>us_fd := fd, us_world := w\<rparr>
      in if fd < 0 then Some (False, s)
         else
           let ((r, buffer), s) = usb_ioctl sdk USB_GET_VERSION [] 0x20 s
           in if r < 0 then Some (False, s\<lparr>us_world := snd (IOS_Close sdk fd (us_world s))\<rparr>)
              else do {
                version \<leftarrow> read_u32 buffer 0;
                if version \<noteq> 0x50001 then Some (False, s\<lparr>us_world := snd (IOS_Close sdk fd (us_world s))\<rparr>)
                else do { s \<leftarrow> Usb_discoverDevices sdk hs s; Some (True, s) }
              })"

section \<open>Handlers come and go\<close>

text \<open>
  While a handler is added, it is alone in the list: only it is asked about the devices nobody serves.
  Adding one that is in the list already would close the list to a cycle, which is a fault here.
\<close>

definition Usb_addHandler ::
  "'w ios_sdk \<Rightarrow> (nat \<Rightarrow> ('w, 'a) usb_scheme usb_handler) \<Rightarrow> nat \<Rightarrow> ('w, 'a) usb_scheme \<Rightarrow> ('w, 'a) usb_scheme option" where
  "Usb_addHandler sdk hs h s = do {
     ensure (us_isInit s);
     ensure (h \<notin> set (us_head s));
     let rest = us_head s;
     s \<leftarrow> handle_additions sdk hs (us_entries s) (s\<lparr>us_head := [h]\<rparr>);
     Some (s\<lparr>us_head := h # rest\<rparr>)
   }"

definition Usb_removeHandler :: "nat \<Rightarrow> ('w, 'a) usb_scheme \<Rightarrow> (bool \<times> ('w, 'a) usb_scheme) option" where
  "Usb_removeHandler h s = do {
     ensure (us_isInit s);
     Some (if list_ex (\<lambda>d. dv_handler d = Some h) (us_devices s) then (False, s)
       else (True, s\<lparr>us_head := remove1 h (us_head s)\<rparr>))
   }"

section \<open>Transfers\<close>

text \<open>The structs of the two kinds of transfers, with the two vectors that are stored behind them.\<close>

definition transfer_vec :: "u32 \<Rightarrow> u32 \<Rightarrow> u16 \<Rightarrow> bytes" where
  "transfer_vec transfer data len = words32 [transfer, 0x40, data, ucast len, 0, 0, 0, 0]"

definition ctrl_transfer :: "u32 \<Rightarrow> u32 \<Rightarrow> u8 \<Rightarrow> u8 \<Rightarrow> u16 \<Rightarrow> u16 \<Rightarrow> u16 \<Rightarrow> u32 \<Rightarrow> bytes" where
  "ctrl_transfer transfer dev requestType request value index len data =
     to_be dev @ replicate 4 0 @ [requestType, request] @ to_be value @ to_be index @ to_be len @ to_be data @ replicate 0xc 0 @
     transfer_vec transfer data len"

definition bulk_transfer :: "u32 \<Rightarrow> u32 \<Rightarrow> u8 \<Rightarrow> u16 \<Rightarrow> u32 \<Rightarrow> bytes" where
  "bulk_transfer transfer dev endpoint len data =
     to_be dev @ replicate 4 0 @ to_be data @ to_be len @ replicate 4 0 @ [endpoint] @ replicate 0xd 0 @
     transfer_vec transfer data len"

definition is_host_to_device :: "u8 \<Rightarrow> bool" where
  "is_host_to_device v \<longleftrightarrow>
     drop_bit USB_ENDPOINT_DIRECTION_SHIFT v AND USB_ENDPOINT_DIRECTION_MASK = USB_ENDPOINT_DIRECTION_HOST_TO_DEVICE"

text \<open>\<open>data\<close> is the address of the buffer and \<open>content\<close> what it holds; the result is what it holds afterwards.\<close>

definition usb_transfer ::
  "'w ios_sdk \<Rightarrow> nat \<Rightarrow> (u32 \<Rightarrow> u32 \<Rightarrow> bytes) \<Rightarrow> u8 \<Rightarrow> int \<Rightarrow> u32 \<Rightarrow> u16 \<Rightarrow> u32 \<Rightarrow> bytes \<Rightarrow> ('w, 'a) usb_scheme \<Rightarrow> ((bool \<times> bytes) \<times> ('w, 'a) usb_scheme) option" where
  "usb_transfer sdk command struct direction expected dev len data content s = do {
     ensure (us_isInit s);
     ensure (len \<noteq> 0 \<longleftrightarrow> data \<noteq> 0);
     ensure (data AND 0x1f = 0);
     ensure (unat len \<le> length content);
     case Usb_lockDevice dev s of None \<Rightarrow> Some ((False, content), s)
     | Some i \<Rightarrow> do {
         d \<leftarrow> rd (us_devices s) i;
         let (inputs, outputs) = (if is_host_to_device direction then (2, 0) else (1, 1));
         let ((r, vec), w) = IOS_Ioctlv sdk (us_fd s) command inputs outputs [struct (dv_transfer d) (dv_id d), take (unat len) content] (us_world s);
         got \<leftarrow> rd vec 1;
         Some ((r = expected, got @ drop (unat len) content), s\<lparr>us_world := w\<rparr>)
       }
   }"

definition Usb_ctrlTransfer ::
  "'w ios_sdk \<Rightarrow> u32 \<Rightarrow> u8 \<Rightarrow> u8 \<Rightarrow> u16 \<Rightarrow> u16 \<Rightarrow> u16 \<Rightarrow> u32 \<Rightarrow> bytes \<Rightarrow> ('w, 'a) usb_scheme \<Rightarrow> ((bool \<times> bytes) \<times> ('w, 'a) usb_scheme) option" where
  "Usb_ctrlTransfer sdk dev requestType request value index len data content s =
     usb_transfer sdk USB_CTRL_TRANSFER (\<lambda>t i. ctrl_transfer t i requestType request value index len data) requestType
       (0x8 + uint len) dev len data content s"

definition Usb_bulkTransfer ::
  "'w ios_sdk \<Rightarrow> u32 \<Rightarrow> u8 \<Rightarrow> u16 \<Rightarrow> u32 \<Rightarrow> bytes \<Rightarrow> ('w, 'a) usb_scheme \<Rightarrow> ((bool \<times> bytes) \<times> ('w, 'a) usb_scheme) option" where
  "Usb_bulkTransfer sdk dev endpoint len data content s =
     usb_transfer sdk USB_BULK_TRANSFER (\<lambda>t i. bulk_transfer t i endpoint len data) endpoint (uint len) dev len data content s"

end
