(* ===== verification/Usb_Storage.thy ===== *)
theory Usb_Storage
  imports Usb_Host
begin

text \<open>
  \<open>payload/sp/storage/UsbStorage.c\<close>: a mass-storage device on the USB bus, driven by SCSI commands over the
  bulk-only transport.  A command goes out in one packet, its data follows in chunks of 16 KiB through the
  driver's buffer, and the device answers with its status.
\<close>

definition MSC_GET_MAX_LUN :: u8 where "MSC_GET_MAX_LUN = 0xfe"
definition CSW_SIZE :: nat where "CSW_SIZE = 0x1f"
definition CBW_SIZE :: nat where "CBW_SIZE = 0xd"
definition SCSI_TEST_UNIT_READY :: u8 where "SCSI_TEST_UNIT_READY = 0x0"
definition SCSI_REQUEST_SENSE :: u8 where "SCSI_REQUEST_SENSE = 0x3"
definition SCSI_INQUIRY :: u8 where "SCSI_INQUIRY = 0x12"
definition SCSI_READ_CAPACITY_10 :: u8 where "SCSI_READ_CAPACITY_10 = 0x25"
definition SCSI_READ_10 :: u8 where "SCSI_READ_10 = 0x28"
definition SCSI_WRITE_10 :: u8 where "SCSI_WRITE_10 = 0x2a"
definition SCSI_SYNCHRONIZE_CACHE_10 :: u8 where "SCSI_SYNCHRONIZE_CACHE_10 = 0x35"
definition SCSI_TYPE_DIRECT_ACCESS :: u8 where "SCSI_TYPE_DIRECT_ACCESS = 0x0"
definition SCSI_CHUNK :: nat where "SCSI_CHUNK = 0x4000"

text \<open>The static variables, behind those of the bus.\<close>

record 'w usb_storage = "'w usb" +
  ub_deviceFound :: bool
  ub_id :: u32
  ub_interface :: u8
  ub_outEndpoint :: u8
  ub_inEndpoint :: u8
  ub_bufferAddr :: u32
  ub_buffer :: bytes
  ub_tag :: u32
  ub_lun :: u8
  ub_blockSize :: u32

section \<open>One SCSI command\<close>

text \<open>A bulk transfer of the first \<open>n\<close> bytes of the driver's buffer.\<close>

definition buffer_transfer :: "'w ios_sdk \<Rightarrow> u8 \<Rightarrow> nat \<Rightarrow> ('w, 'a) usb_storage_scheme \<Rightarrow> (bool \<times> ('w, 'a) usb_storage_scheme) option" where
  "buffer_transfer sdk endpoint n s = do {
     ((ok, b), s) \<leftarrow> Usb_bulkTransfer sdk (ub_id s) endpoint (of_nat n) (ub_bufferAddr s) (ub_buffer s) s;
     Some (ok, s\<lparr>ub_buffer := b\<rparr>)
   }"

text \<open>The command as it is built in the buffer.\<close>

definition command_block :: "u32 \<Rightarrow> u32 \<Rightarrow> bool \<Rightarrow> u8 \<Rightarrow> bytes \<Rightarrow> bytes \<Rightarrow> bytes option" where
  "command_block tag n isWrite lun cb buffer = do {
     b \<leftarrow> wr_n buffer 0 (replicate CSW_SIZE 0);
     b \<leftarrow> write_u32_le b 0x0 0x43425355;
     b \<leftarrow> write_u32_le b 0x4 tag;
     b \<leftarrow> write_u32_le b 0x8 n;
     b \<leftarrow> write_u8 b 0xc (if isWrite then 0 else 0x80);
     b \<leftarrow> write_u8 b 0xd lun;
     b \<leftarrow> write_u8 b 0xe (of_nat (length cb));
     wr_n b 0xf cb
   }"

text \<open>The data phase: \<open>n\<close> bytes are left, \<open>data\<close> is the caller's memory from the current position on.\<close>

function scsi_data ::
  "'w ios_sdk \<Rightarrow> bool \<Rightarrow> nat \<Rightarrow> bytes \<Rightarrow> ('w, 'a) usb_storage_scheme \<Rightarrow> ((bool \<times> bytes) \<times> ('w, 'a) usb_storage_scheme) option" where
  "scsi_data sdk isWrite n data s =
     (if n = 0 then Some ((True, data), s)
      else do {
        let chunkSize = min n SCSI_CHUNK;
        src \<leftarrow> rd_n data 0 chunkSize;
        b \<leftarrow> (if isWrite then wr_n (ub_buffer s) 0 src else Some (ub_buffer s));
        (ok, s) \<leftarrow> buffer_transfer sdk (if isWrite then ub_outEndpoint s else ub_inEndpoint s) chunkSize (s\<lparr>ub_buffer := b\<rparr>);
        if \<not> ok then Some ((False, data), s)
        else do {
          got \<leftarrow> (if isWrite then Some src else rd_n (ub_buffer s) 0 chunkSize);
          ((ok, rest), s) \<leftarrow> scsi_data sdk isWrite (n - chunkSize) (drop chunkSize data) s;
          Some ((ok, got @ rest), s)
        }
      })"
  by pat_completeness auto
termination
  by (relation "measure (\<lambda>(sdk, isWrite, n, data, s). n)") (auto simp: SCSI_CHUNK_def)

declare scsi_data.simps [simp del]

text \<open>The status of a command.\<close>

definition status_ok :: "u32 \<Rightarrow> bytes \<Rightarrow> bool option" where
  "status_ok tag b = do {
     sig \<leftarrow> read_u32_le b 0x0;
     t \<leftarrow> read_u32_le b 0x4;
     residue \<leftarrow> read_u32_le b 0x8;
     status \<leftarrow> read_u8 b 0xc;
     Some (sig = 0x53425355 \<and> t = tag \<and> residue = 0 \<and> status = 0)
   }"

definition scsi_status :: "'w ios_sdk \<Rightarrow> ('w, 'a) usb_storage_scheme \<Rightarrow> (bool \<times> ('w, 'a) usb_storage_scheme) option" where
  "scsi_status sdk s = do {
     b \<leftarrow> wr_n (ub_buffer s) 0 (replicate CBW_SIZE 0);
     (ok, s) \<leftarrow> buffer_transfer sdk (ub_inEndpoint s) CBW_SIZE (s\<lparr>ub_buffer := b\<rparr>);
     if \<not> ok then Some (False, s)
     else do { ok \<leftarrow> status_ok (ub_tag s) (ub_buffer s); Some (ok, s) }
   }"

text \<open>\<open>data\<close> is \<^term>\<open>None\<close> for a null pointer.\<close>

definition UsbStorage_scsiTransfer ::
  "'w ios_sdk \<Rightarrow> bool \<Rightarrow> u32 \<Rightarrow> bytes option \<Rightarrow> u8 \<Rightarrow> bytes \<Rightarrow> ('w, 'a) usb_storage_scheme \<Rightarrow>
   ((bool \<times> bytes) \<times> ('w, 'a) usb_storage_scheme) option" where
  "UsbStorage_scsiTransfer sdk isWrite n data lun cb s = do {
     ensure (n \<noteq> 0 \<longleftrightarrow> data \<noteq> None);
     ensure (lun \<le> 16);
     ensure (1 \<le> length cb \<and> length cb \<le> 16);
     let mem = (case data of None \<Rightarrow> [] | Some d \<Rightarrow> d);
     let s = s\<lparr>ub_tag := ub_tag s + 1\<rparr>;
     b \<leftarrow> command_block (ub_tag s) n isWrite lun cb (ub_buffer s);
     (ok, s) \<leftarrow> buffer_transfer sdk (ub_outEndpoint s) CSW_SIZE (s\<lparr>ub_buffer := b\<rparr>);
     if \<not> ok then Some ((False, mem), s)
     else do {
       ((ok, mem), s) \<leftarrow> scsi_data sdk isWrite (unat n) mem s;
       if \<not> ok then Some ((False, mem), s)
       else do { (ok, s) \<leftarrow> scsi_status sdk s; Some ((ok, mem), s) }
     }
   }"

section \<open>The commands\<close>

definition scsi_plain :: "'w ios_sdk \<Rightarrow> u8 \<Rightarrow> bytes \<Rightarrow> ('w, 'a) usb_storage_scheme \<Rightarrow> (bool \<times> ('w, 'a) usb_storage_scheme) option" where
  "scsi_plain sdk lun cb s = do { ((ok, _), s) \<leftarrow> UsbStorage_scsiTransfer sdk False 0 None lun cb s; Some (ok, s) }"

definition UsbStorage_getLunCount :: "'w ios_sdk \<Rightarrow> ('w, 'a) usb_storage_scheme \<Rightarrow> ((bool \<times> u8) \<times> ('w, 'a) usb_storage_scheme) option" where
  "UsbStorage_getLunCount sdk s = do {
     let requestType = push_bit 0 1 OR push_bit 5 1 OR push_bit 7 1;
     ((ok, b), s) \<leftarrow> Usb_ctrlTransfer sdk (ub_id s) requestType MSC_GET_MAX_LUN 0 (ucast (ub_interface s)) 1 (ub_bufferAddr s) (ub_buffer s) s;
     let s = s\<lparr>ub_buffer := b\<rparr>;
     if \<not> ok then Some ((False, 0), s)
     else do {
       max \<leftarrow> read_u8 b 0;
       let lunCount = max + 1;
       Some ((lunCount \<ge> 1 \<and> lunCount \<le> 16, lunCount), s)
     }
   }"

definition UsbStorage_testUnitReady :: "'w ios_sdk \<Rightarrow> u8 \<Rightarrow> ('w, 'a) usb_storage_scheme \<Rightarrow> (bool \<times> ('w, 'a) usb_storage_scheme) option" where
  "UsbStorage_testUnitReady sdk lun s = scsi_plain sdk lun [SCSI_TEST_UNIT_READY, 0, 0, 0, 0, 0] s"

definition UsbStorage_inquiry :: "'w ios_sdk \<Rightarrow> u8 \<Rightarrow> ('w, 'a) usb_storage_scheme \<Rightarrow> (u8 option \<times> ('w, 'a) usb_storage_scheme) option" where
  "UsbStorage_inquiry sdk lun s = do {
     ((ok, response), s) \<leftarrow> UsbStorage_scsiTransfer sdk False 36 (Some (replicate 36 0)) lun [SCSI_INQUIRY, push_bit 5 lun, 0, 0, 36, 0] s;
     if \<not> ok then Some (None, s) else do { b \<leftarrow> rd response 0; Some (Some (b AND 0x1f), s) }
   }"

definition UsbStorage_initLun :: "'w ios_sdk \<Rightarrow> u8 \<Rightarrow> ('w, 'a) usb_storage_scheme \<Rightarrow> (bool \<times> ('w, 'a) usb_storage_scheme) option" where
  "UsbStorage_initLun sdk lun s = do {
     (ok, s) \<leftarrow> UsbStorage_testUnitReady sdk lun s;
     if \<not> ok then Some (False, s)
     else do {
       (type, s) \<leftarrow> UsbStorage_inquiry sdk lun s;
       Some (type = Some SCSI_TYPE_DIRECT_ACCESS, s)
     }
   }"

definition UsbStorage_requestSense :: "'w ios_sdk \<Rightarrow> u8 \<Rightarrow> ('w, 'a) usb_storage_scheme \<Rightarrow> (bool \<times> ('w, 'a) usb_storage_scheme) option" where
  "UsbStorage_requestSense sdk lun s = do {
     ((ok, _), s) \<leftarrow> UsbStorage_scsiTransfer sdk False 18 (Some (replicate 18 0)) lun [SCSI_REQUEST_SENSE, 0, 0, 0, 18, 0] s;
     Some (ok, s)
   }"

text \<open>Five tries for a unit; asking for the sense data may clear what made a try fail.\<close>

primrec lun_tries :: "'w ios_sdk \<Rightarrow> u8 \<Rightarrow> nat \<Rightarrow> ('w, 'a) usb_storage_scheme \<Rightarrow> (bool \<times> ('w, 'a) usb_storage_scheme) option" where
  "lun_tries sdk lun 0 s = Some (False, s)"
| "lun_tries sdk lun (Suc n) s = do {
     (ok, s) \<leftarrow> UsbStorage_initLun sdk lun s;
     if ok then Some (True, s)
     else do { (_, s) \<leftarrow> UsbStorage_requestSense sdk lun s; lun_tries sdk lun n s }
   }"

primrec lun_loop :: "'w ios_sdk \<Rightarrow> nat \<Rightarrow> ('w, 'a) usb_storage_scheme \<Rightarrow> (bool \<times> ('w, 'a) usb_storage_scheme) option" where
  "lun_loop sdk 0 s = Some (False, s)"
| "lun_loop sdk (Suc n) s = do {
     (ok, s) \<leftarrow> lun_tries sdk (ub_lun s) 5 s;
     if ok then Some (True, s) else lun_loop sdk n (s\<lparr>ub_lun := ub_lun s + 1\<rparr>)
   }"

definition UsbStorage_findLun :: "'w ios_sdk \<Rightarrow> u8 \<Rightarrow> ('w, 'a) usb_storage_scheme \<Rightarrow> (bool \<times> ('w, 'a) usb_storage_scheme) option" where
  "UsbStorage_findLun sdk lunCount s = lun_loop sdk (unat lunCount) (s\<lparr>ub_lun := 0\<rparr>)"

definition UsbStorage_readCapacity :: "'w ios_sdk \<Rightarrow> ('w, 'a) usb_storage_scheme \<Rightarrow> (bool \<times> ('w, 'a) usb_storage_scheme) option" where
  "UsbStorage_readCapacity sdk s = do {
     ((ok, response), s) \<leftarrow> UsbStorage_scsiTransfer sdk False 8 (Some (replicate 8 0)) (ub_lun s) (SCSI_READ_CAPACITY_10 # replicate 9 0) s;
     if \<not> ok then Some (False, s) else do { b \<leftarrow> read_u32 response 4; Some (True, s\<lparr>ub_blockSize := b\<rparr>) }
   }"

section \<open>A device appears\<close>

text \<open>The offsets of \<open>UsbDeviceInfo\<close>.\<close>

definition INFO_INTERFACE :: nat where "INFO_INTERFACE = 0x34"
definition INFO_ENDPOINTS :: nat where "INFO_ENDPOINTS = 0x40"

text \<open>The first bulk endpoint of each direction; \<open>outEndpoint\<close> and \<open>inEndpoint\<close> are assigned as they are found.\<close>

fun find_endpoints :: "bytes \<Rightarrow> nat list \<Rightarrow> bool \<times> bool \<Rightarrow> ('w, 'a) usb_storage_scheme \<Rightarrow> ((bool \<times> bool) \<times> ('w, 'a) usb_storage_scheme) option" where
  "find_endpoints info [] found s = Some (found, s)"
| "find_endpoints info (i # is) (outFound, inFound) s = do {
     address \<leftarrow> rd info (INFO_ENDPOINTS + 8 * i + 2);
     attributes \<leftarrow> rd info (INFO_ENDPOINTS + 8 * i + 3);
     if attributes AND 0x3 \<noteq> 0x2 then find_endpoints info is (outFound, inFound) s
     else
       let direction = drop_bit 7 address AND 0x1;
           (outFound, s) = (if \<not> outFound \<and> direction = 0 then (True, s\<lparr>ub_outEndpoint := address\<rparr>) else (outFound, s));
           (inFound, s) = (if \<not> inFound \<and> direction = 1 then (True, s\<lparr>ub_inEndpoint := address\<rparr>) else (inFound, s))
       in find_endpoints info is (outFound, inFound) s
   }"

definition UsbStorage_onDeviceAdd :: "'w ios_sdk \<Rightarrow> bytes \<Rightarrow> ('w, 'a) usb_storage_scheme \<Rightarrow> (bool \<times> ('w, 'a) usb_storage_scheme) option" where
  "UsbStorage_onDeviceAdd sdk info s =
     (if ub_deviceFound s then Some (False, s)
      else do {
        interfaceClass \<leftarrow> rd info (INFO_INTERFACE + 5);
        interfaceSubClass \<leftarrow> rd info (INFO_INTERFACE + 6);
        interfaceProtocol \<leftarrow> rd info (INFO_INTERFACE + 7);
        numEndpoints \<leftarrow> rd info (INFO_INTERFACE + 4);
        if interfaceClass \<noteq> 0x8 \<or> interfaceSubClass \<noteq> 0x6 \<or> interfaceProtocol \<noteq> 0x50 then Some (False, s)
        else do {
          ensure (numEndpoints \<le> 16);
          ((outFound, inFound), s) \<leftarrow> find_endpoints info [0..<unat numEndpoints] (False, False) s;
          if \<not> outFound \<or> \<not> inFound then Some (False, s)
          else do {
            dev \<leftarrow> read_u32 info 0;
            interface \<leftarrow> rd info (INFO_INTERFACE + 2);
            let s = s\<lparr>ub_id := dev, ub_interface := interface\<rparr>;
            ((ok, lunCount), s) \<leftarrow> UsbStorage_getLunCount sdk s;
            (ok, s) \<leftarrow> (if \<not> ok then Some (False, s) else UsbStorage_findLun sdk lunCount s);
            (ok, s) \<leftarrow> (if \<not> ok then Some (False, s) else UsbStorage_readCapacity sdk s);
            (ok, s) \<leftarrow> (if \<not> ok then Some (False, s) else UsbStorage_testUnitReady sdk (ub_lun s) s);
            Some (ok, if ok then s\<lparr>ub_deviceFound := True\<rparr> else s)
          }
        }
      })"

text \<open>The driver panics when its device is removed.\<close>

definition UsbStorage_handler :: "'w ios_sdk \<Rightarrow> ('w, 'a) usb_storage_scheme usb_handler" where
  "UsbStorage_handler sdk = \<lparr>onDeviceAdd = UsbStorage_onDeviceAdd sdk, onDeviceRemove = (\<lambda>dev s. None)\<rparr>"

section \<open>Sectors\<close>

definition UsbStorage_sectorSize :: "('w, 'a) usb_storage_scheme \<Rightarrow> u32" where
  "UsbStorage_sectorSize s = ub_blockSize s"

definition rw_block :: "bool \<Rightarrow> u32 \<Rightarrow> u32 \<Rightarrow> bytes" where
  "rw_block isWrite firstSector sectorCount =
     [if isWrite then SCSI_WRITE_10 else SCSI_READ_10, 0] @ to_be firstSector @ [0] @ to_be (ucast sectorCount :: u16) @ [0]"

text \<open>Five tries; \<open>data\<close> is the caller's buffer.\<close>

primrec rw_tries ::
  "'w ios_sdk \<Rightarrow> bool \<Rightarrow> u32 \<Rightarrow> u32 \<Rightarrow> nat \<Rightarrow> bytes \<Rightarrow> ('w, 'a) usb_storage_scheme \<Rightarrow> ((bool \<times> bytes) \<times> ('w, 'a) usb_storage_scheme) option" where
  "rw_tries sdk isWrite firstSector sectorCount 0 data s = Some ((False, data), s)"
| "rw_tries sdk isWrite firstSector sectorCount (Suc n) data s = do {
     ((ok, data), s) \<leftarrow> UsbStorage_scsiTransfer sdk isWrite (sectorCount * ub_blockSize s) (Some data) (ub_lun s)
       (rw_block isWrite firstSector sectorCount) s;
     if ok then Some ((True, data), s) else rw_tries sdk isWrite firstSector sectorCount n data s
   }"

definition UsbStorage_read ::
  "'w ios_sdk \<Rightarrow> u32 \<Rightarrow> u32 \<Rightarrow> bytes \<Rightarrow> ('w, 'a) usb_storage_scheme \<Rightarrow> ((bool \<times> bytes) \<times> ('w, 'a) usb_storage_scheme) option" where
  "UsbStorage_read sdk firstSector sectorCount data s = do {
     ensure (sectorCount \<le> 0xffff);
     rw_tries sdk False firstSector sectorCount 5 data s
   }"

definition UsbStorage_write ::
  "'w ios_sdk \<Rightarrow> u32 \<Rightarrow> u32 \<Rightarrow> bytes \<Rightarrow> ('w, 'a) usb_storage_scheme \<Rightarrow> ((bool \<times> bytes) \<times> ('w, 'a) usb_storage_scheme) option" where
  "UsbStorage_write sdk firstSector sectorCount data s = do {
     ensure (sectorCount \<le> 0xffff);
     rw_tries sdk True firstSector sectorCount 5 data s
   }"

definition UsbStorage_erase :: "u32 \<Rightarrow> u32 \<Rightarrow> bool" where
  "UsbStorage_erase firstSector sectorCount = True"

definition UsbStorage_sync :: "'w ios_sdk \<Rightarrow> ('w, 'a) usb_storage_scheme \<Rightarrow> (bool \<times> ('w, 'a) usb_storage_scheme) option" where
  "UsbStorage_sync sdk s = scsi_plain sdk (ub_lun s) (SCSI_SYNCHRONIZE_CACHE_10 # replicate 9 0) s"

definition UsbStorage_getMessageId :: u32 where
  "UsbStorage_getMessageId = 10156"

text \<open>
  \<open>UsbStorage_init\<close>: adding the handler asks it about every device nobody serves; when it can be removed
  again, it has found none.  \<open>alloc\<close> is the buffer that the arena gives; \<open>h\<close> is the handler's index.
\<close>

definition UsbStorage_init ::
  "'w ios_sdk \<Rightarrow> (nat \<Rightarrow> ('w, 'a) usb_storage_scheme usb_handler) \<Rightarrow> nat \<Rightarrow> u32 \<times> bytes \<Rightarrow> ('w, 'a) usb_storage_scheme \<Rightarrow>
   (bool \<times> ('w, 'a) usb_storage_scheme) option" where
  "UsbStorage_init sdk hs h alloc s = do {
     let s = (if ub_bufferAddr s = 0 then s\<lparr>ub_bufferAddr := fst alloc, ub_buffer := snd alloc\<rparr> else s);
     s \<leftarrow> Usb_addHandler sdk hs h s;
     (removed, s) \<leftarrow> Usb_removeHandler h s;
     Some (\<not> removed, s)
   }"

end
