(* ===== verification/Usb_Sectors.thy ===== *)
theory Usb_Sectors
  imports Usb_Storage
begin

text \<open>
  What a SCSI transfer over the bulk-only transport moves: with a device that follows the transport, a
  command that is reported as done has moved exactly the sectors it names, whatever their number.
\<close>

section \<open>The command on the wire\<close>

definition to_le :: "u32 \<Rightarrow> bytes" where
  "to_le v = [ucast v, ucast (drop_bit 8 v), ucast (drop_bit 16 v), ucast (drop_bit 24 v)]"

definition cbw_bytes :: "u32 \<Rightarrow> u32 \<Rightarrow> bool \<Rightarrow> u8 \<Rightarrow> bytes \<Rightarrow> bytes" where
  "cbw_bytes tag n isWrite lun cb =
     to_le 0x43425355 @ to_le tag @ to_le n @ [if isWrite then 0 else 0x80, lun, of_nat (length cb)] @ cb @ replicate (16 - length cb) 0"

lemma length_cbw: "length cb \<le> 16 \<Longrightarrow> length (cbw_bytes tag n isWrite lun cb) = CSW_SIZE"
  by (simp add: cbw_bytes_def to_le_def CSW_SIZE_def)

lemma wr_n_append:
  "length pre = i \<Longrightarrow> length ys \<le> length mid \<Longrightarrow> wr_n (pre @ mid) i ys = Some (pre @ ys @ drop (length ys) mid)"
  by (simp add: wr_n_def splice_def)

lemma command_block_bytes:
  assumes "CSW_SIZE \<le> length buffer" and "length cb \<le> 16"
  shows "command_block tag n isWrite lun cb buffer = Some (cbw_bytes tag n isWrite lun cb @ drop CSW_SIZE buffer)"
proof -
  let ?rest = "drop CSW_SIZE buffer"
  have zeros: "wr_n buffer 0 (replicate CSW_SIZE 0) = Some (replicate 15 0 @ replicate 16 0 @ ?rest)"
    using assms(1) by (simp add: wr_n_def splice_def CSW_SIZE_def flip: replicate_add append_assoc)
  have fifteen: "replicate 15 (0 :: u8) = [0, 0, 0, 0, 0, 0, 0, 0, 0, 0, 0, 0, 0, 0, 0]" by (simp add: eval_nat_numeral)
  let ?head = "to_le 0x43425355 @ to_le tag @ to_le n @ [if isWrite then 0 else 0x80, lun, of_nat (length cb)]"
  have "command_block tag n isWrite lun cb buffer = wr_n (?head @ replicate 16 0 @ ?rest) 0xf cb"
    unfolding command_block_def zeros fifteen
    by (simp add: write_u32_le_def write_u8_def wr_def to_le_def)
  also have "\<dots> = Some (?head @ cb @ replicate (16 - length cb) 0 @ ?rest)"
    using assms(2) by (subst wr_n_append) (simp_all add: to_le_def)
  finally show ?thesis by (simp add: cbw_bytes_def)
qed

section \<open>A device that follows the transport\<close>

datatype bot_phase = Bot_Idle | Bot_In bytes | Bot_Out nat nat | Bot_Status

text \<open>\<open>Bot_In\<close> has the bytes that are still to be sent, \<open>Bot_Out\<close> where the next ones go and how many.\<close>

definition in_phase :: "bytes \<Rightarrow> bot_phase" where
  "in_phase d = (if d = [] then Bot_Status else Bot_In d)"

definition out_phase :: "nat \<Rightarrow> nat \<Rightarrow> bot_phase" where
  "out_phase pos n = (if n = 0 then Bot_Status else Bot_Out pos n)"

definition bot_disk ::
  "'w ios_sdk \<Rightarrow> int \<Rightarrow> u32 \<Rightarrow> u8 \<Rightarrow> u8 \<Rightarrow> nat \<Rightarrow> ('w \<Rightarrow> bot_phase) \<Rightarrow> ('w \<Rightarrow> bytes) \<Rightarrow> bool" where
  "bot_disk sdk fd dev outE inE bs phase content \<longleftrightarrow>
     is_host_to_device outE \<and> \<not> is_host_to_device inE \<and>
     (\<forall>t a data w r vec w'. IOS_Ioctlv sdk fd USB_BULK_TRANSFER 2 0 [bulk_transfer t dev outE (of_nat (length data)) a, data] w = ((r, vec), w') \<longrightarrow>
        (\<exists>x. vec = [x, data]) \<and>
        (r = int (length data) \<and> phase w = Bot_Idle \<longrightarrow> content w' = content w \<and>
          (\<forall>tag isWrite lun first count. data = cbw_bytes tag (of_nat (count * bs)) isWrite lun (rw_block isWrite (of_nat first) (of_nat count)) \<and>
             first < 2 ^ 32 \<and> count < 2 ^ 16 \<and> count * bs < 2 ^ 32 \<and> (first + count) * bs \<le> length (content w) \<longrightarrow>
             phase w' = (if isWrite then out_phase (first * bs) (count * bs) else in_phase (take (count * bs) (drop (first * bs) (content w)))))) \<and>
        (\<forall>pos n. r = int (length data) \<and> phase w = Bot_Out pos n \<and> 0 < length data \<and> length data \<le> n \<longrightarrow>
           content w' = splice (content w) pos data \<and> phase w' = out_phase (pos + length data) (n - length data))) \<and>
     (\<forall>t a data w r vec w'. IOS_Ioctlv sdk fd USB_BULK_TRANSFER 1 1 [bulk_transfer t dev inE (of_nat (length data)) a, data] w = ((r, vec), w') \<longrightarrow>
        (\<exists>x got. vec = [x, got] \<and> length got = length data \<and>
          (\<forall>d. r = int (length data) \<and> phase w = Bot_In d \<and> 0 < length data \<and> length data \<le> length d \<longrightarrow>
             content w' = content w \<and> got = take (length data) d \<and> phase w' = in_phase (drop (length data) d)) \<and>
          (r = int (length data) \<and> phase w = Bot_Status \<and> length data = CBW_SIZE \<longrightarrow> content w' = content w \<and> phase w' = Bot_Idle)))"

section \<open>One packet\<close>

lemma find_device_Some:
  "find_device ds k dev = Some i \<Longrightarrow> k \<le> i \<and> i - k < length ds \<and> dv_id (ds ! (i - k)) = dev"
proof (induction ds arbitrary: k)
  case (Cons d ds)
  show ?case
  proof (cases "dv_handler d \<noteq> None \<and> dv_id d = dev")
    case False
    then have "find_device ds (k + 1) dev = Some i" using Cons.prems by (auto split: if_splits)
    from Cons.IH [OF this] show ?thesis by (auto simp: nth_Cons split: nat.splits) (metis diff_Suc Suc_diff_Suc nat.case(2) Suc_le_eq old.nat.inject)
  qed (use Cons.prems in auto)
qed simp

text \<open>The state in which the driver can make transfers.\<close>

definition driver_ready :: "('w, 'a) usb_storage_scheme \<Rightarrow> bool" where
  "driver_ready s \<longleftrightarrow> us_isInit s \<and> Usb_lockDevice (ub_id s) s \<noteq> None \<and> ub_bufferAddr s \<noteq> 0 \<and> ub_bufferAddr s AND 0x1f = 0 \<and>
     length (ub_buffer s) = SCSI_CHUNK"

lemma packet:
  assumes ready: "driver_ready s" and n: "0 < n" "n \<le> SCSI_CHUNK"
    and dir: "(i, j) = (if is_host_to_device endpoint then (2, 0) else (1, 1))"
  shows "\<exists>t. buffer_transfer sdk endpoint n s =
    (let ((r, vec), w) = IOS_Ioctlv sdk (us_fd s) USB_BULK_TRANSFER i j
           [bulk_transfer t (ub_id s) endpoint (of_nat n) (ub_bufferAddr s), take n (ub_buffer s)] (us_world s)
     in do { got \<leftarrow> rd vec 1; Some (r = int n, s\<lparr>us_world := w, ub_buffer := got @ drop n (ub_buffer s)\<rparr>) })"
proof -
  obtain k where k: "find_device (us_devices s) 0 (ub_id s) = Some k"
    using ready by (auto simp: driver_ready_def Usb_lockDevice_def)
  have dv: "rd (us_devices s) k = Some (us_devices s ! k)" "dv_id (us_devices s ! k) = ub_id s"
    using find_device_Some [OF k] by simp_all
  have nw: "unat (of_nat n :: u16) = n" "(of_nat n :: u16) \<noteq> 0" "uint (of_nat n :: u16) = int n"
  proof -
    show "unat (of_nat n :: u16) = n" using n by (simp add: unat_of_nat take_bit_nat_eq_self_iff SCSI_CHUNK_def)
    then show "(of_nat n :: u16) \<noteq> 0" "uint (of_nat n :: u16) = int n" using n(1) by (auto simp: uint_nat)
  qed
  show ?thesis
    by (rule exI [of _ "dv_transfer (us_devices s ! k)"])
      (use ready n nw dv k dir in \<open>simp add: buffer_transfer_def Usb_bulkTransfer_def usb_transfer_def driver_ready_def
        Usb_lockDevice_def Let_def case_prod_beta split: if_splits\<close>)
qed

text \<open>What a packet to and from a device that follows the transport does.\<close>

text \<open>Transfers change the world and the driver's buffer, nothing else.\<close>

definition moved_on :: "'w \<Rightarrow> bytes \<Rightarrow> ('w, 'a) usb_storage_scheme \<Rightarrow> ('w, 'a) usb_storage_scheme" where
  "moved_on w b s = s\<lparr>us_world := w, ub_buffer := b\<rparr>"

lemma moved_on_fields [simp]:
  "us_world (moved_on w b s) = w" "ub_buffer (moved_on w b s) = b" "us_fd (moved_on w b s) = us_fd s" "ub_id (moved_on w b s) = ub_id s"
  "ub_outEndpoint (moved_on w b s) = ub_outEndpoint s" "ub_inEndpoint (moved_on w b s) = ub_inEndpoint s"
  "ub_tag (moved_on w b s) = ub_tag s" "moved_on w b (moved_on w' b' s) = moved_on w b s"
  by (simp_all add: moved_on_def)

lemma moved_on_ready: "driver_ready s \<Longrightarrow> length b = SCSI_CHUNK \<Longrightarrow> driver_ready (moved_on w b s)"
  by (simp add: driver_ready_def moved_on_def Usb_lockDevice_def)

lemma packet_out:
  assumes bot: "bot_disk sdk (us_fd s) (ub_id s) (ub_outEndpoint s) (ub_inEndpoint s) bs phase content"
    and ready: "driver_ready s" and n: "0 < n" "n \<le> SCSI_CHUNK" and data: "take n (ub_buffer s) = data"
  shows "\<exists>ok w. buffer_transfer sdk (ub_outEndpoint s) n s = Some (ok, moved_on w (ub_buffer s) s) \<and>
    (ok \<and> phase (us_world s) = Bot_Idle \<longrightarrow> content w = content (us_world s) \<and>
      (\<forall>tag isWrite lun first count. data = cbw_bytes tag (of_nat (count * bs)) isWrite lun (rw_block isWrite (of_nat first) (of_nat count)) \<and>
         first < 2 ^ 32 \<and> count < 2 ^ 16 \<and> count * bs < 2 ^ 32 \<and> (first + count) * bs \<le> length (content w) \<longrightarrow>
         phase w = (if isWrite then out_phase (first * bs) (count * bs) else in_phase (take (count * bs) (drop (first * bs) (content w)))))) \<and>
    (\<forall>pos m. ok \<and> phase (us_world s) = Bot_Out pos m \<and> n \<le> m \<longrightarrow>
       content w = splice (content (us_world s)) pos data \<and> phase w = out_phase (pos + n) (m - n))"
proof -
  have dir: "(2, 0) = (if is_host_to_device (ub_outEndpoint s) then (2, 0) else (1, 1 :: nat))"
    using bot by (simp add: bot_disk_def)
  have len: "length data = n" "n \<le> length (ub_buffer s)" using data n ready by (auto simp: driver_ready_def)
  obtain t where t: "buffer_transfer sdk (ub_outEndpoint s) n s =
      (let ((r, vec), w) = IOS_Ioctlv sdk (us_fd s) USB_BULK_TRANSFER 2 0
           [bulk_transfer t (ub_id s) (ub_outEndpoint s) (of_nat n) (ub_bufferAddr s), take n (ub_buffer s)] (us_world s)
       in do { got \<leftarrow> rd vec 1; Some (r = int n, s\<lparr>us_world := w, ub_buffer := got @ drop n (ub_buffer s)\<rparr>) })"
    using packet [OF ready n dir] by blast
  obtain r vec w where run: "IOS_Ioctlv sdk (us_fd s) USB_BULK_TRANSFER 2 0
      [bulk_transfer t (ub_id s) (ub_outEndpoint s) (of_nat (length data)) (ub_bufferAddr s), data] (us_world s) = ((r, vec), w)"
    by (metis surj_pair)
  note law = bot [unfolded bot_disk_def, THEN conjunct2, THEN conjunct2, THEN conjunct1, rule_format, OF run]
  obtain x where vec: "vec = [x, data]" using law by blast
  have "buffer_transfer sdk (ub_outEndpoint s) n s = Some (r = int n, moved_on w (ub_buffer s) s)"
    using t run vec data len by (auto simp: moved_on_def)
  then show ?thesis using law len n(1) by (intro exI [of _ "r = int n"] exI [of _ w]) auto
qed

lemma packet_in:
  assumes bot: "bot_disk sdk (us_fd s) (ub_id s) (ub_outEndpoint s) (ub_inEndpoint s) bs phase content"
    and ready: "driver_ready s" and n: "0 < n" "n \<le> SCSI_CHUNK"
  shows "\<exists>ok w got. buffer_transfer sdk (ub_inEndpoint s) n s = Some (ok, moved_on w (got @ drop n (ub_buffer s)) s) \<and> length got = n \<and>
    (\<forall>d. ok \<and> phase (us_world s) = Bot_In d \<and> n \<le> length d \<longrightarrow>
       content w = content (us_world s) \<and> got = take n d \<and> phase w = in_phase (drop n d)) \<and>
    (ok \<and> phase (us_world s) = Bot_Status \<and> n = CBW_SIZE \<longrightarrow> content w = content (us_world s) \<and> phase w = Bot_Idle)"
proof -
  have dir: "(1, 1) = (if is_host_to_device (ub_inEndpoint s) then (2, 0) else (1, 1 :: nat))"
    using bot by (simp add: bot_disk_def)
  define data where "data = take n (ub_buffer s)"
  have len: "length data = n" "n \<le> length (ub_buffer s)" using n ready by (auto simp: driver_ready_def data_def)
  obtain t where t: "buffer_transfer sdk (ub_inEndpoint s) n s =
      (let ((r, vec), w) = IOS_Ioctlv sdk (us_fd s) USB_BULK_TRANSFER 1 1
           [bulk_transfer t (ub_id s) (ub_inEndpoint s) (of_nat n) (ub_bufferAddr s), take n (ub_buffer s)] (us_world s)
       in do { got \<leftarrow> rd vec 1; Some (r = int n, s\<lparr>us_world := w, ub_buffer := got @ drop n (ub_buffer s)\<rparr>) })"
    using packet [OF ready n dir] by blast
  obtain r vec w where run: "IOS_Ioctlv sdk (us_fd s) USB_BULK_TRANSFER 1 1
      [bulk_transfer t (ub_id s) (ub_inEndpoint s) (of_nat (length data)) (ub_bufferAddr s), data] (us_world s) = ((r, vec), w)"
    by (metis surj_pair)
  obtain x got where got: "vec = [x, got]" "length got = length data"
    and law: "\<forall>d. r = int (length data) \<and> phase (us_world s) = Bot_In d \<and> 0 < length data \<and> length data \<le> length d \<longrightarrow>
         content w = content (us_world s) \<and> got = take (length data) d \<and> phase w = in_phase (drop (length data) d)"
      "r = int (length data) \<and> phase (us_world s) = Bot_Status \<and> length data = CBW_SIZE \<longrightarrow> content w = content (us_world s) \<and> phase w = Bot_Idle"
    using bot [unfolded bot_disk_def, THEN conjunct2, THEN conjunct2, THEN conjunct2, rule_format, OF run] by blast
  have "buffer_transfer sdk (ub_inEndpoint s) n s = Some (r = int n, moved_on w (got @ drop n (ub_buffer s)) s)"
    using t run got(1) len by (simp add: moved_on_def flip: data_def)
  then show ?thesis using law got(2) len n(1) by (intro exI [of _ "r = int n"] exI [of _ w] exI [of _ got]) auto
qed

section \<open>The data phase\<close>

lemma moved_on_same: "moved_on (us_world s) (ub_buffer s) s = s"
  by (simp add: moved_on_def)

lemma put_buffer: "s\<lparr>ub_buffer := b\<rparr> = moved_on (us_world s) b s"
  by (simp add: moved_on_def)

lemma splice_nothing: "i \<le> length c \<Longrightarrow> splice c i [] = c"
  by (simp add: splice_def)

lemma splice_twice:
  "i + length xs + length ys \<le> length c \<Longrightarrow> splice (splice c i xs) (i + length xs) ys = splice c i (xs @ ys)"
  by (simp add: splice_def ac_simps)

text \<open>The law of the device holds in every state the driver gets to.\<close>

definition bot_law :: "'w ios_sdk \<Rightarrow> nat \<Rightarrow> ('w \<Rightarrow> bot_phase) \<Rightarrow> ('w \<Rightarrow> bytes) \<Rightarrow> ('w, 'a) usb_storage_scheme \<Rightarrow> bool" where
  "bot_law sdk bs phase content s \<longleftrightarrow> bot_disk sdk (us_fd s) (ub_id s) (ub_outEndpoint s) (ub_inEndpoint s) bs phase content"

lemma bot_law_moved_on [simp]: "bot_law sdk bs phase content (moved_on w b s) = bot_law sdk bs phase content s"
  by (simp add: bot_law_def)

lemma data_in:
  assumes "bot_law sdk bs phase content s" and "driver_ready s" and "phase (us_world s) = in_phase d" and "length d = n" and "length mem = n"
  shows "\<exists>ok mem' w b. scsi_data sdk False n mem s = Some ((ok, mem'), moved_on w b s) \<and> length b = SCSI_CHUNK \<and>
    (ok \<longrightarrow> content w = content (us_world s) \<and> mem' = d \<and> phase w = Bot_Status)"
  using assms
proof (induction n arbitrary: d mem s rule: less_induct)
  case (less n)
  show ?case
  proof (cases "n = 0")
    case True
    then have "scsi_data sdk False n mem s = Some ((True, d), moved_on (us_world s) (ub_buffer s) s)"
      using less.prems by (simp add: scsi_data.simps moved_on_same)
    then show ?thesis using less.prems True by (auto simp: in_phase_def driver_ready_def)
  next
    case False
    let ?k = "min n SCSI_CHUNK"
    have k: "0 < ?k" "?k \<le> SCSI_CHUNK" "?k \<le> length d" "?k \<le> length mem" using False less.prems by (simp_all add: SCSI_CHUNK_def)
    have phase: "phase (us_world s) = Bot_In d" using less.prems False by (auto simp: in_phase_def)
    obtain ok w got where tr: "buffer_transfer sdk (ub_inEndpoint s) ?k s = Some (ok, moved_on w (got @ drop ?k (ub_buffer s)) s)"
      "length got = ?k" "ok \<longrightarrow> content w = content (us_world s) \<and> got = take ?k d \<and> phase w = in_phase (drop ?k d)"
      using packet_in [OF less.prems(1) [unfolded bot_law_def] less.prems(2) k(1,2)] phase k(3) by blast
    let ?s = "moved_on w (got @ drop ?k (ub_buffer s)) s"
    have len: "length (got @ drop ?k (ub_buffer s)) = SCSI_CHUNK" using tr(2) less.prems(2) k(2) by (simp add: driver_ready_def)
    have step: "scsi_data sdk False n mem s = (if \<not> ok then Some ((False, mem), ?s)
      else do { ((ok, rest), s) \<leftarrow> scsi_data sdk False (n - ?k) (drop ?k mem) ?s; Some ((ok, got @ rest), s) })"
    proof -
      have "rd_n (ub_buffer ?s) 0 ?k = Some got" "rd_n mem 0 ?k = Some (take ?k mem)" "s\<lparr>ub_buffer := ub_buffer s\<rparr> = s"
        using tr(2) k(4) by simp_all
      then show ?thesis
        using tr(1) by (subst scsi_data.simps) (simp only: Let_def False if_False bind.bind_lunit prod.case if_cancel simp_thms)
    qed
    show ?thesis
    proof (cases ok)
      case False
      then have "scsi_data sdk False n mem s = Some ((False, mem), ?s)" using step by simp
      then show ?thesis using len by blast
    next
      case True
      obtain ok2 mem2 w2 b2 where rec: "scsi_data sdk False (n - ?k) (drop ?k mem) ?s = Some ((ok2, mem2), moved_on w2 b2 ?s)"
        "length b2 = SCSI_CHUNK" "ok2 \<longrightarrow> content w2 = content w \<and> mem2 = drop ?k d \<and> phase w2 = Bot_Status"
        using less.IH [of "n - ?k" ?s "drop ?k d" "drop ?k mem"] tr(3) True k less.prems moved_on_ready [OF less.prems(2) len] by auto
      have "scsi_data sdk False n mem s = Some ((ok2, got @ mem2), moved_on w2 b2 s)" using step True rec(1) by simp
      moreover have "ok2 \<longrightarrow> content w2 = content (us_world s) \<and> got @ mem2 = d \<and> phase w2 = Bot_Status"
        using rec(3) tr(3) True by auto
      ultimately show ?thesis using rec(2) by blast
    qed
  qed
qed

lemma data_out:
  assumes "bot_law sdk bs phase content s" and "driver_ready s" and "phase (us_world s) = out_phase pos n" and "length mem = n"
    and "pos + n \<le> length (content (us_world s))"
  shows "\<exists>ok w b. scsi_data sdk True n mem s = Some ((ok, mem), moved_on w b s) \<and> length b = SCSI_CHUNK \<and>
    (ok \<longrightarrow> content w = splice (content (us_world s)) pos mem \<and> phase w = Bot_Status)"
  using assms
proof (induction n arbitrary: pos mem s rule: less_induct)
  case (less n)
  show ?case
  proof (cases "n = 0")
    case True
    then have "scsi_data sdk True n mem s = Some ((True, mem), moved_on (us_world s) (ub_buffer s) s)"
      using less.prems by (simp add: scsi_data.simps moved_on_same)
    then show ?thesis using less.prems True by (auto simp: out_phase_def driver_ready_def splice_nothing)
  next
    case False
    let ?k = "min n SCSI_CHUNK" and ?b = "splice (ub_buffer s) 0 (take (min n SCSI_CHUNK) mem)"
    have k: "0 < ?k" "?k \<le> SCSI_CHUNK" "?k \<le> n" "?k \<le> length mem" using False less.prems by (simp_all add: SCSI_CHUNK_def)
    have phase: "phase (us_world s) = Bot_Out pos n" using less.prems False by (auto simp: out_phase_def)
    have blen: "length ?b = SCSI_CHUNK" using k less.prems(2) by (simp add: len_simps driver_ready_def)
    have bdata: "take ?k ?b = take ?k mem" using k by (simp add: splice_def)
    let ?s0 = "moved_on (us_world s) ?b s"
    obtain ok w where tr: "buffer_transfer sdk (ub_outEndpoint s) ?k ?s0 = Some (ok, moved_on w ?b s)"
      "ok \<longrightarrow> content w = splice (content (us_world s)) pos (take ?k mem) \<and> phase w = out_phase (pos + ?k) (n - ?k)"
      using packet_out [of sdk ?s0 bs phase content ?k "take ?k mem"] less.prems(1) moved_on_ready [OF less.prems(2) blen] k(1,2,3) phase bdata
      unfolding bot_law_def by auto
    let ?s = "moved_on w ?b s"
    have step: "scsi_data sdk True n mem s = (if \<not> ok then Some ((False, mem), ?s)
      else do { ((ok, rest), s) \<leftarrow> scsi_data sdk True (n - ?k) (drop ?k mem) ?s; Some ((ok, take ?k mem @ rest), s) })"
    proof -
      have "wr_n (ub_buffer s) 0 (take ?k mem) = Some ?b" "rd_n mem 0 ?k = Some (take ?k mem)"
        using k less.prems(2) by (simp_all add: driver_ready_def)
      then show ?thesis
        using tr(1) False by (subst scsi_data.simps) (simp only: Let_def if_True if_False bind.bind_lunit prod.case put_buffer moved_on_fields simp_thms)
    qed
    show ?thesis
    proof (cases ok)
      case False
      then have "scsi_data sdk True n mem s = Some ((False, mem), ?s)" using step by simp
      then show ?thesis using blen by blast
    next
      case True
      have c: "content w = splice (content (us_world s)) pos (take ?k mem)" using tr(2) True by blast
      then have "pos + ?k + (n - ?k) \<le> length (content w)" using k less.prems(5) by (simp add: len_simps)
      then obtain ok2 w2 b2 where rec: "scsi_data sdk True (n - ?k) (drop ?k mem) ?s = Some ((ok2, drop ?k mem), moved_on w2 b2 ?s)"
        "length b2 = SCSI_CHUNK" "ok2 \<longrightarrow> content w2 = splice (content w) (pos + ?k) (drop ?k mem) \<and> phase w2 = Bot_Status"
        using less.IH [of "n - ?k" ?s "pos + ?k" "drop ?k mem"] tr(2) True k less.prems moved_on_ready [OF less.prems(2) blen] by auto
      have "splice (content w) (pos + ?k) (drop ?k mem) = splice (content (us_world s)) pos mem"
        using splice_twice [of pos "take ?k mem" "drop ?k mem" "content (us_world s)"] k less.prems(4,5) c by simp
      then show ?thesis using step True rec by auto
    qed
  qed
qed

section \<open>A whole command\<close>

lemma status_ok_total:
  assumes "13 \<le> length b"
  shows "\<exists>ok. status_ok tag b = Some ok"
proof -
  have "0 < length b" using assms by linarith
  then show ?thesis using assms by (simp add: status_ok_def read_u32_le_def read_u8_def)
qed

lemma command_phase:
  assumes bot: "bot_law sdk bs phase content s" and ready: "driver_ready s" and idle: "phase (us_world s) = Bot_Idle"
    and lun: "lun \<le> 16" and fit: "first < 2 ^ 32" "count < 2 ^ 16" "0 < count * bs" "count * bs < 2 ^ 32" "(first + count) * bs \<le> length (content (us_world s))"
  shows "\<exists>ok w b. UsbStorage_scsiTransfer sdk isWrite (of_nat (count * bs)) (Some mem) lun (rw_block isWrite (of_nat first) (of_nat count)) s =
      (let s = moved_on w b (s\<lparr>ub_tag := ub_tag s + 1\<rparr>) in if \<not> ok then Some ((False, mem), s)
       else do {
         ((ok, mem), s) \<leftarrow> scsi_data sdk isWrite (count * bs) mem s;
         if \<not> ok then Some ((False, mem), s) else do { (ok, s) \<leftarrow> scsi_status sdk s; Some ((ok, mem), s) }
       }) \<and> length b = SCSI_CHUNK \<and>
    (ok \<longrightarrow> content w = content (us_world s) \<and>
      phase w = (if isWrite then out_phase (first * bs) (count * bs) else in_phase (take (count * bs) (drop (first * bs) (content (us_world s))))))"
proof -
  let ?n = "count * bs" and ?cb = "rw_block isWrite (of_nat first) (of_nat count)"
  let ?s1 = "s\<lparr>ub_tag := ub_tag s + 1\<rparr>"
  let ?cbw = "cbw_bytes (ub_tag ?s1) (of_nat ?n) isWrite lun ?cb"
  have cb: "length ?cb = 10" by (simp add: rw_block_def size_of_def)
  have n: "unat (of_nat ?n :: u32) = ?n" "(of_nat ?n :: u32) \<noteq> 0"
    using fit(3,4) unat_u32_of_nat [of ?n] by auto
  have buf: "length (ub_buffer s) = SCSI_CHUNK" using ready by (simp add: driver_ready_def)
  let ?b = "?cbw @ drop CSW_SIZE (ub_buffer s)"
  have block: "command_block (ub_tag ?s1) (of_nat ?n) isWrite lun ?cb (ub_buffer ?s1) = Some ?b"
    using buf cb by (simp add: command_block_bytes SCSI_CHUNK_def CSW_SIZE_def)
  have blen: "length ?b = SCSI_CHUNK" using buf cb by (simp add: length_cbw SCSI_CHUNK_def CSW_SIZE_def)
  let ?s2 = "moved_on (us_world s) ?b ?s1"
  have ready1: "driver_ready ?s1" using ready by (simp add: driver_ready_def Usb_lockDevice_def)
  have bot1: "bot_law sdk bs phase content ?s1" using bot by (simp add: bot_law_def)
  have cbw: "take CSW_SIZE (ub_buffer ?s2) = ?cbw" "0 < CSW_SIZE" "CSW_SIZE \<le> SCSI_CHUNK"
    using cb by (simp_all add: length_cbw) (simp_all add: CSW_SIZE_def SCSI_CHUNK_def)
  obtain ok w where out: "buffer_transfer sdk (ub_outEndpoint ?s2) CSW_SIZE ?s2 = Some (ok, moved_on w ?b ?s1)"
    and out_law: "ok \<longrightarrow> content w = content (us_world s) \<and>
      phase w = (if isWrite then out_phase (first * bs) ?n else in_phase (take ?n (drop (first * bs) (content (us_world s)))))"
    using packet_out [of sdk ?s2 bs phase content CSW_SIZE ?cbw] bot1 moved_on_ready [OF ready1 blen] cbw idle fit
    unfolding bot_law_def by auto
  show ?thesis
    by (rule exI [of _ ok], rule exI [of _ w], rule exI [of _ ?b])
      (use lun cb n block out out_law blen in \<open>simp add: UsbStorage_scsiTransfer_def Let_def put_buffer\<close>)
qed

text \<open>What the data phase has moved, from \<open>mem\<close> and the content \<open>c\<close> of the device.\<close>

definition sectors_done :: "bool \<Rightarrow> nat \<Rightarrow> nat \<Rightarrow> bytes \<Rightarrow> bytes \<Rightarrow> bytes \<Rightarrow> bytes \<Rightarrow> bool" where
  "sectors_done isWrite pos n mem c mem' c' \<longleftrightarrow>
     (if isWrite then mem' = mem \<and> c' = splice c pos mem else c' = c \<and> mem' = take n (drop pos c))"

lemma data_phase:
  assumes "bot_law sdk bs phase content s" and "driver_ready s" and "length mem = n" and "pos + n \<le> length (content (us_world s))"
    and "phase (us_world s) = (if isWrite then out_phase pos n else in_phase (take n (drop pos (content (us_world s)))))"
  shows "\<exists>ok mem' w b. scsi_data sdk isWrite n mem s = Some ((ok, mem'), moved_on w b s) \<and> length b = SCSI_CHUNK \<and>
    (ok \<longrightarrow> phase w = Bot_Status \<and> sectors_done isWrite pos n mem (content (us_world s)) mem' (content w))"
proof (cases isWrite)
  case True
  then show ?thesis using data_out [of sdk bs phase content s pos n mem] assms by (auto simp: sectors_done_def)
next
  case False
  then show ?thesis
    using data_in [of sdk bs phase content s "take n (drop pos (content (us_world s)))" n mem] assms by (auto simp: sectors_done_def)
qed

lemma status_phase:
  assumes bot: "bot_law sdk bs phase content s" and ready: "driver_ready s" and status: "phase (us_world s) = Bot_Status"
  shows "\<exists>ok w b. scsi_status sdk s = Some (ok, moved_on w b s) \<and> (ok \<longrightarrow> content w = content (us_world s) \<and> phase w = Bot_Idle)"
proof -
  have csw: "0 < CBW_SIZE" "CBW_SIZE \<le> SCSI_CHUNK" by (simp_all add: CBW_SIZE_def SCSI_CHUNK_def)
  let ?b = "splice (ub_buffer s) 0 (replicate CBW_SIZE 0)"
  have b: "wr_n (ub_buffer s) 0 (replicate CBW_SIZE 0) = Some ?b" "length ?b = SCSI_CHUNK"
    using ready csw by (simp_all add: driver_ready_def len_simps)
  let ?s = "moved_on (us_world s) ?b s"
  obtain ok w got where st: "buffer_transfer sdk (ub_inEndpoint ?s) CBW_SIZE ?s = Some (ok, moved_on w (got @ drop CBW_SIZE ?b) s)"
    "length got = CBW_SIZE" "ok \<longrightarrow> content w = content (us_world s) \<and> phase w = Bot_Idle"
    using packet_in [of sdk ?s bs phase content CBW_SIZE] bot moved_on_ready [OF ready b(2)] csw status
    unfolding bot_law_def by auto
  have "13 \<le> length (got @ drop CBW_SIZE ?b)" using st(2) by (simp add: CBW_SIZE_def)
  then obtain sok where "status_ok (ub_tag s) (got @ drop CBW_SIZE ?b) = Some sok" using status_ok_total by blast
  then have "scsi_status sdk s = Some (ok \<and> sok, moved_on w (got @ drop CBW_SIZE ?b) s)"
    using b(1) st(1) by (cases ok) (simp_all add: scsi_status_def put_buffer)
  then show ?thesis using st(3) by blast
qed


section \<open>Example\<close>

text \<open>A device with blocks of four bytes; the world is its phase, the tag of the command and its content.\<close>

definition ex_bot_out :: "bytes \<Rightarrow> bot_phase \<times> bytes \<times> bytes \<Rightarrow> bot_phase \<times> bytes \<times> bytes" where
  "ex_bot_out data = (\<lambda>(ph, tag, c). case ph of
     Bot_Idle \<Rightarrow>
       let first = (case read_u32 data 17 of None \<Rightarrow> 0 | Some v \<Rightarrow> unat v);
           count = (case Bytes_Read Big_Endian data 22 of None \<Rightarrow> 0 | Some v \<Rightarrow> unat (v :: u16))
       in (if data ! 15 = SCSI_WRITE_10 then out_phase (first * 4) (count * 4) else in_phase (take (count * 4) (drop (first * 4) c)),
           take 4 (drop 4 data), c)
   | Bot_Out pos n \<Rightarrow> (out_phase (pos + length data) (n - length data), tag, splice c pos data)
   | _ \<Rightarrow> (ph, tag, c))"

definition ex_bot_in :: "bytes \<Rightarrow> bot_phase \<times> bytes \<times> bytes \<Rightarrow> bytes \<times> bot_phase \<times> bytes \<times> bytes" where
  "ex_bot_in data = (\<lambda>(ph, tag, c). case ph of
     Bot_In d \<Rightarrow> (take (length data) (d @ data), in_phase (drop (length data) d), tag, c)
   | Bot_Status \<Rightarrow> (take (length data) ([0x55, 0x53, 0x42, 0x53] @ tag @ replicate 5 0 @ data), Bot_Idle, tag, c)
   | _ \<Rightarrow> (data, ph, tag, c))"

definition ex_bot :: "(bot_phase \<times> bytes \<times> bytes) ios_sdk" where
  "ex_bot = \<lparr>IOS_Open = (\<lambda>p w. (3, w)), IOS_Close = (\<lambda>fd w. (0, w)), IOS_Ioctl = (\<lambda>fd c i n w. ((0, replicate n 0), w)),
     IOS_Ioctlv = (\<lambda>fd c i n vec w. let data = vec ! 1; len = int (length data) in
       if i = 2 then ((len, vec), ex_bot_out data w)
       else let (got, w) = ex_bot_in data w in ((len, [vec ! 0, got]), w))\<rparr>"

lemma ucast_u16_of_nat: "(ucast (of_nat n :: u32) :: u16) = of_nat n"
  by (rule unsigned_word_eqI [where 'a = nat]) (simp add: unsigned_ucast_eq unsigned_of_nat)

lemma cbw_fields:
  assumes "data = cbw_bytes tag n isWrite lun (rw_block isWrite (of_nat first) (of_nat count))" and "first < 2 ^ 32" "count < 2 ^ 16"
  shows "data ! 15 = (if isWrite then SCSI_WRITE_10 else SCSI_READ_10)"
    and "read_u32 data 17 = Some (of_nat first)" and "Bytes_Read Big_Endian data 22 = Some (of_nat count :: u16)"
proof -
  let ?head = "to_le 0x43425355 @ to_le tag @ to_le n @ [if isWrite then 0 else 0x80, lun, 10]"
  let ?cmd = "if isWrite then SCSI_WRITE_10 else SCSI_READ_10"
  have data: "data = ?head @ ?cmd # 0 # to_be (of_nat first :: u32) @ [0] @ to_be (of_nat count :: u16) @ [0] @ replicate 6 0"
    using assms by (simp add: cbw_bytes_def rw_block_def size_of_def ucast_u16_of_nat)
  have hd: "length ?head = 15" by (simp add: to_le_def)
  show "data ! 15 = ?cmd" unfolding data using nth_append_length [of ?head ?cmd] hd by simp
  show "read_u32 data 17 = Some (of_nat first)"
    using Bytes_Read_struct [of 4 "?head @ [?cmd, 0]" 17 "of_nat first :: u32" "[0] @ to_be (of_nat count :: u16) @ [0] @ replicate 6 0"] hd
    by (simp add: data read_u32_is_Read)
  show "Bytes_Read Big_Endian data 22 = Some (of_nat count :: u16)"
    using Bytes_Read_struct [of 2 "?head @ [?cmd, 0] @ to_be (of_nat first :: u32) @ [0]" 22 "of_nat count :: u16" "[0] @ replicate 6 0"] hd
    by (simp add: data size_of_def)
qed

lemma ex_bot_disk: "bot_disk ex_bot fd dev 0x02 0x81 4 fst (\<lambda>w. snd (snd w))"
proof -
  have parse: "fst (ex_bot_out data w) = (if isWrite then out_phase (first * 4) (count * 4) else in_phase (take (count * 4) (drop (first * 4) (snd (snd w)))))"
    if "data = cbw_bytes tag n isWrite lun (rw_block isWrite (of_nat first) (of_nat count))" "first < 2 ^ 32" "count < 2 ^ 16" "fst w = Bot_Idle"
    for data tag n isWrite lun first count w
  proof -
    have "unat (of_nat first :: u32) = first" using that(2) by (rule unat_u32_of_nat)
    moreover have "unat (of_nat count :: u16) = count" using that(3) by (simp add: unat_of_nat take_bit_nat_eq_self_iff)
    ultimately show ?thesis
      using cbw_fields [OF that(1-3)] that(4)
      by (cases w) (simp add: ex_bot_out_def Let_def SCSI_WRITE_10_def SCSI_READ_10_def)
  qed
  have idle: "snd (snd (ex_bot_out data w)) = snd (snd w)" if "fst w = Bot_Idle" for data w
    using that by (cases w) (simp add: ex_bot_out_def Let_def)
  have out: "ex_bot_out data w = (out_phase (pos + length data) (n - length data), fst (snd w), splice (snd (snd w)) pos data)"
    if "fst w = Bot_Out pos n" for data w pos n
    using that by (cases w) (simp add: ex_bot_out_def)
  have dirs: "is_host_to_device 0x02" "\<not> is_host_to_device 0x81"
    by (simp_all add: is_host_to_device_def USB_ENDPOINT_DIRECTION_SHIFT_def USB_ENDPOINT_DIRECTION_MASK_def USB_ENDPOINT_DIRECTION_HOST_TO_DEVICE_def)
  have "\<exists>x. vec = [x, data]" and w': "w' = ex_bot_out data w"
    if "IOS_Ioctlv ex_bot fd USB_BULK_TRANSFER 2 0 [x, data] w = ((r, vec), w')" for x data w r vec w'
    using that by (auto simp: ex_bot_def Let_def split: prod.splits)
  note out_run = this
  have "vec = [x, fst (ex_bot_in data w)]" and "w' = snd (ex_bot_in data w)"
    if "IOS_Ioctlv ex_bot fd USB_BULK_TRANSFER 1 1 [x, data] w = ((r, vec), w')" for x data w r vec w'
    using that by (auto simp: ex_bot_def Let_def split: prod.splits)
  note in_run = this
  have len: "length (fst (ex_bot_in data w)) = length data" for data w
    by (cases w) (auto simp: ex_bot_in_def split: bot_phase.split)
  show ?thesis
    unfolding bot_disk_def
  proof (intro conjI allI impI)
    fix t a data w r vec w'
    assume run: "IOS_Ioctlv ex_bot fd USB_BULK_TRANSFER 2 0 [bulk_transfer t dev 0x02 (of_nat (length data)) a, data] w = ((r, vec), w')"
    show "\<exists>x. vec = [x, data]" by (rule out_run(1) [OF run])
    show "snd (snd w') = snd (snd w)" if "r = int (length data) \<and> fst w = Bot_Idle"
      using that out_run(2) [OF run] idle by simp
    show "fst w' = (if isWrite then out_phase (first * 4) (count * 4) else in_phase (take (count * 4) (drop (first * 4) (snd (snd w)))))"
      if "r = int (length data) \<and> fst w = Bot_Idle"
        "data = cbw_bytes tag (of_nat (count * 4)) isWrite lun (rw_block isWrite (of_nat first) (of_nat count)) \<and>
          first < 2 ^ 32 \<and> count < 2 ^ 16 \<and> count * 4 < 2 ^ 32 \<and> (first + count) * 4 \<le> length (snd (snd w))"
      for tag isWrite lun first count
      using parse [of data tag "of_nat (count * 4)" isWrite lun first count w] that out_run(2) [OF run] by blast
    show "snd (snd w') = splice (snd (snd w)) pos data" "fst w' = out_phase (pos + length data) (n - length data)"
      if "r = int (length data) \<and> fst w = Bot_Out pos n \<and> 0 < length data \<and> length data \<le> n" for pos n
      using out [of w pos n data] that out_run(2) [OF run] by simp_all
  next
    fix t a data w r vec w'
    assume run: "IOS_Ioctlv ex_bot fd USB_BULK_TRANSFER 1 1 [bulk_transfer t dev 0x81 (of_nat (length data)) a, data] w = ((r, vec), w')"
    show "\<exists>x got. vec = [x, got] \<and> length got = length data \<and>
        (\<forall>d. r = int (length data) \<and> fst w = Bot_In d \<and> 0 < length data \<and> length data \<le> length d \<longrightarrow>
           snd (snd w') = snd (snd w) \<and> got = take (length data) d \<and> fst w' = in_phase (drop (length data) d)) \<and>
        (r = int (length data) \<and> fst w = Bot_Status \<and> length data = CBW_SIZE \<longrightarrow> snd (snd w') = snd (snd w) \<and> fst w' = Bot_Idle)"
      using in_run [OF run] len [of data w] by (cases w) (auto simp: ex_bot_in_def)
  qed (use dirs in simp_all)
qed

definition ex_driver :: "(bot_phase \<times> bytes \<times> bytes) usb_storage" where
  "ex_driver = \<lparr>us_world = (Bot_Idle, [], [1, 2, 3, 4, 5, 6, 7, 8]), us_isInit = True, us_fd = 3, us_head = [0],
     us_devices = [\<lparr>dv_id = 7, dv_handler = Some 0, dv_transfer = 0x90000000\<rparr>], us_entries = [],
     ub_deviceFound = True, ub_id = 7, ub_interface = 0, ub_outEndpoint = 0x02, ub_inEndpoint = 0x81, ub_bufferAddr = 0x90001000,
     ub_buffer = replicate SCSI_CHUNK 0, ub_tag = 0, ub_lun = 0, ub_blockSize = 4\<rparr>"


end
