(* ===== verification/FAT_Storage.thy ===== *)
theory FAT_Storage
  imports Storage_Types DVD_Storage
begin

text \<open>
  \<open>payload/sp/storage/FATStorage.cc\<close>: the SD card or USB drive.  The FatFs library and the device
  drivers are the record \<open>fat_sdk\<close>: \<open>'f\<close> is its \<open>FIL\<close>, \<open>'d\<close> its \<open>DIR\<close>, \<open>'w\<close> the volume.
\<close>

type_synonym FRESULT = nat

definition FR_OK :: FRESULT where "FR_OK = 0"
definition FR_NO_FILE :: FRESULT where "FR_NO_FILE = 4"
definition FR_EXIST :: FRESULT where "FR_EXIST = 8"
definition FA_READ :: u32 where "FA_READ = 0x01"
definition FA_WRITE :: u32 where "FA_WRITE = 0x02"
definition FA_CREATE_NEW :: u32 where "FA_CREATE_NEW = 0x04"
definition FA_CREATE_ALWAYS :: u32 where "FA_CREATE_ALWAYS = 0x08"
definition AM_DIR :: u8 where "AM_DIR = 0x10"

record filinfo =
  fi_fsize :: u64
  fi_fdate :: u16
  fi_ftime :: u16
  fi_fattrib :: u8
  fi_dir_ofs :: u64
  fi_fname :: wstr

record calendar_time =
  ct_sec :: nat
  ct_min :: nat
  ct_hour :: nat
  ct_mday :: nat
  ct_mon :: int
  ct_year :: nat

record ('f, 'd, 'w) fat_sdk =
  f_mount :: "'w \<Rightarrow> FRESULT \<times> 'w"
  f_mkdir :: "wstr \<Rightarrow> 'w \<Rightarrow> FRESULT \<times> 'w"
  f_chdir :: "wstr \<Rightarrow> 'w \<Rightarrow> FRESULT \<times> 'w"
  f_open :: "wstr \<Rightarrow> u32 \<Rightarrow> 'f \<Rightarrow> 'w \<Rightarrow> FRESULT \<times> 'f \<times> 'w"
  f_fastopen :: "u64 \<Rightarrow> 'f \<Rightarrow> 'w \<Rightarrow> FRESULT \<times> 'f \<times> 'w"
  f_close :: "'f \<Rightarrow> 'w \<Rightarrow> FRESULT \<times> 'f \<times> 'w"
  f_lseek :: "u32 \<Rightarrow> 'f \<Rightarrow> 'w \<Rightarrow> FRESULT \<times> 'f \<times> 'w"
  f_read :: "u32 \<Rightarrow> 'f \<Rightarrow> 'w \<Rightarrow> (FRESULT \<times> bytes) \<times> 'f \<times> 'w"
  f_write :: "bytes \<Rightarrow> 'f \<Rightarrow> 'w \<Rightarrow> (FRESULT \<times> nat) \<times> 'f \<times> 'w"
  f_sync :: "'f \<Rightarrow> 'w \<Rightarrow> FRESULT \<times> 'f \<times> 'w"
  f_rewind :: "'f \<Rightarrow> 'w \<Rightarrow> 'f \<times> 'w"
  f_size :: "'f \<Rightarrow> 'w \<Rightarrow> u64"
  f_opendir :: "wstr \<Rightarrow> 'd \<Rightarrow> 'w \<Rightarrow> FRESULT \<times> 'd \<times> 'w"
  f_fastopendir :: "u64 \<Rightarrow> 'd \<Rightarrow> 'w \<Rightarrow> FRESULT \<times> 'd \<times> 'w"
  f_closedir :: "'d \<Rightarrow> 'w \<Rightarrow> FRESULT \<times> 'd \<times> 'w"
  f_readdir :: "'d \<Rightarrow> 'w \<Rightarrow> (FRESULT \<times> filinfo) \<times> 'd \<times> 'w"
  f_rewinddir :: "'d \<Rightarrow> 'w \<Rightarrow> 'd \<times> 'w"
  f_stat :: "wstr \<Rightarrow> 'w \<Rightarrow> (FRESULT \<times> filinfo) \<times> 'w"
  f_rename :: "wstr \<Rightarrow> wstr \<Rightarrow> 'w \<Rightarrow> FRESULT \<times> 'w"
  f_unlink :: "wstr \<Rightarrow> 'w \<Rightarrow> FRESULT \<times> 'w"
  OSCalendarTimeToTicks :: "calendar_time \<Rightarrow> u64"
  device_inits :: "('w \<Rightarrow> bool \<times> 'w) list"
  device_message_id :: "nat \<Rightarrow> u32"

text \<open>
  The static \<open>s_storage\<close> is the index of the device whose driver has been set up.  \<open>fat_prefixes\<close> is
  the array \<open>m_prefixes\<close> of 32 names.
\<close>

record ('f, 'd) fat_storage =
  fat_files :: "'f slot list"
  fat_dirs :: "'d slot list"
  fat_prefixCount :: nat
  fat_prefixes :: "wstr list"
  fat_ok :: bool
  fat_s_storage :: "nat option"

type_synonym ('f, 'd, 'w) fat_state = "'w \<times> ('f, 'd) fat_storage"

definition ConvertTimeToTicks :: "('f, 'd, 'w) fat_sdk \<Rightarrow> u16 \<Rightarrow> u16 \<Rightarrow> u64" where
  "ConvertTimeToTicks sdk date time = OSCalendarTimeToTicks sdk
     \<lparr>ct_sec = unat (push_bit 1 (time AND 0x1F)), ct_min = unat (drop_bit 5 time AND 0x3F),
      ct_hour = unat (drop_bit 11 time), ct_mday = unat (date AND 0x1F),
      ct_mon = int (unat (drop_bit 5 date AND 0x0F)) - 1, ct_year = unat (drop_bit 9 date) + 1980\<rparr>"

section \<open>Paths\<close>

definition mkw_sp_prefix :: wstr where
  "mkw_sp_prefix = wide ''/mkw-sp/''"

text \<open>
  A path on the disc is replaced by a file with the same path, or only the same name, in one of the
  replacement directories; the loop goes from the last directory to the first.
\<close>

fun find_replacement :: "('f, 'd, 'w) fat_sdk \<Rightarrow> wstr list \<Rightarrow> wstr \<Rightarrow> nat \<Rightarrow> 'w \<Rightarrow> (wstr option \<times> 'w) option" where
  "find_replacement sdk prefixes path 0 w = Some (None, w)"
| "find_replacement sdk prefixes path (Suc i) w = do {
     prefix \<leftarrow> rd prefixes i;
     let full = printed 128 (prefix @ wide ''/'' @ drop (length ro_prefix) path);
     let ((r, _), w) = f_stat sdk full w;
     if r = FR_OK then Some (Some full, w)
     else if \<not> of_char (CHR ''/'') \<in> set path then find_replacement sdk prefixes path i w
     else
       let bare = printed 128 (prefix @ wide ''/'' @ bare_name path);
           ((r, _), w) = f_stat sdk bare w
       in if r = FR_OK then Some (Some bare, w) else find_replacement sdk prefixes path i w
   }"

definition FAT_convertPath :: "('f, 'd, 'w) fat_sdk \<Rightarrow> wstr \<Rightarrow> ('f, 'd, 'w) fat_state \<Rightarrow> (wstr option \<times> ('f, 'd, 'w) fat_state) option" where
  "FAT_convertPath sdk path = (\<lambda>(w, s).
     if starts_with mkw_sp_prefix path then Some (Some (printed 128 (drop (length mkw_sp_prefix) path)), w, s)
     else if \<not> starts_with ro_prefix path then Some (Some (printed 128 path), w, s)
     else if path = wide ''ro:/rel/StaticR.rel'' then Some (None, w, s)
     else do {
       (p, w) \<leftarrow> find_replacement sdk (fat_prefixes s) path (fat_prefixCount s) w;
       Some (p, w, s)
     })"

section \<open>The storage\<close>

definition fat_claim_file ::
  "('f \<Rightarrow> 'w \<Rightarrow> FRESULT \<times> 'f \<times> 'w) \<Rightarrow> ('f, 'd, 'w) fat_state \<Rightarrow> (nat option \<times> ('f, 'd, 'w) fat_state) option" where
  "fat_claim_file fill = (\<lambda>(w, s). do {
     (r, w, fs) \<leftarrow> claim_slot (\<lambda>n w. let (r, n, w) = fill n w in Some (r = FR_OK, n, w)) w (fat_files s);
     Some (r, w, s\<lparr>fat_files := fs\<rparr>)
   })"

definition fat_claim_dir ::
  "('d \<Rightarrow> 'w \<Rightarrow> FRESULT \<times> 'd \<times> 'w) \<Rightarrow> ('f, 'd, 'w) fat_state \<Rightarrow> (nat option \<times> ('f, 'd, 'w) fat_state) option" where
  "fat_claim_dir fill = (\<lambda>(w, s). do {
     (r, w, ds) \<leftarrow> claim_slot (\<lambda>n w. let (r, n, w) = fill n w in Some (r = FR_OK, n, w)) w (fat_dirs s);
     Some (r, w, s\<lparr>fat_dirs := ds\<rparr>)
   })"

definition FAT_fastOpen :: "('f, 'd, 'w) fat_sdk \<Rightarrow> u64 \<Rightarrow> ('f, 'd, 'w) fat_state \<Rightarrow> (nat option \<times> ('f, 'd, 'w) fat_state) option" where
  "FAT_fastOpen sdk i = fat_claim_file (f_fastopen sdk i)"

text \<open>An unknown mode is a panic, but only when there is a free slot.\<close>

definition fat_mode :: "string \<Rightarrow> u32 option" where
  "fat_mode mode =
     (if mode = ''r'' then Some FA_READ
      else if mode = ''w'' then Some (FA_CREATE_ALWAYS OR FA_WRITE)
      else if mode = ''wx'' then Some (FA_CREATE_NEW OR FA_WRITE)
      else None)"

definition FAT_open :: "('f, 'd, 'w) fat_sdk \<Rightarrow> wstr \<Rightarrow> string \<Rightarrow> ('f, 'd, 'w) fat_state \<Rightarrow> (nat option \<times> ('f, 'd, 'w) fat_state) option" where
  "FAT_open sdk path mode = (\<lambda>(w, s).
     if FindNode (fat_files s) = None then Some (None, w, s)
     else do {
       fMode \<leftarrow> fat_mode mode;
       (nodePath, w, s) \<leftarrow> FAT_convertPath sdk path (w, s);
       case nodePath of None \<Rightarrow> Some (None, w, s)
       | Some p \<Rightarrow> fat_claim_file (f_open sdk p fMode) (w, s)
     })"

definition FAT_createDir :: "('f, 'd, 'w) fat_sdk \<Rightarrow> wstr \<Rightarrow> bool \<Rightarrow> ('f, 'd, 'w) fat_state \<Rightarrow> (bool \<times> ('f, 'd, 'w) fat_state) option" where
  "FAT_createDir sdk path allowNop st = do {
     (nodePath, w, s) \<leftarrow> FAT_convertPath sdk path st;
     p \<leftarrow> nodePath;
     let (r, w) = f_mkdir sdk p w;
     Some (r = FR_OK \<or> allowNop \<and> r = FR_EXIST, w, s)
   }"

definition FAT_fastOpenDir :: "('f, 'd, 'w) fat_sdk \<Rightarrow> u64 \<Rightarrow> ('f, 'd, 'w) fat_state \<Rightarrow> (nat option \<times> ('f, 'd, 'w) fat_state) option" where
  "FAT_fastOpenDir sdk i = fat_claim_dir (f_fastopendir sdk i)"

definition FAT_openDir :: "('f, 'd, 'w) fat_sdk \<Rightarrow> wstr \<Rightarrow> ('f, 'd, 'w) fat_state \<Rightarrow> (nat option \<times> ('f, 'd, 'w) fat_state) option" where
  "FAT_openDir sdk path = (\<lambda>(w, s).
     if FindNode (fat_dirs s) = None then Some (None, w, s)
     else do {
       (nodePath, w, s) \<leftarrow> FAT_convertPath sdk path (w, s);
       case nodePath of None \<Rightarrow> Some (None, w, s)
       | Some p \<Rightarrow> fat_claim_dir (f_opendir sdk p) (w, s)
     })"

definition fat_info :: "('f, 'd, 'w) fat_sdk \<Rightarrow> filinfo \<Rightarrow> node_info" where
  "fat_info sdk fInfo =
     \<lparr>ni_id = \<lparr>nid_storage = Some ST_FAT, nid_id = fi_dir_ofs fInfo\<rparr>,
      ni_type = (if fi_fattrib fInfo AND AM_DIR \<noteq> 0 then NT_Dir else NT_File),
      ni_size = fi_fsize fInfo, ni_tick = ConvertTimeToTicks sdk (fi_fdate fInfo) (fi_ftime fInfo),
      ni_name = fi_fname fInfo\<rparr>"

definition FAT_stat :: "('f, 'd, 'w) fat_sdk \<Rightarrow> wstr \<Rightarrow> ('f, 'd, 'w) fat_state \<Rightarrow> (node_info option \<times> ('f, 'd, 'w) fat_state) option" where
  "FAT_stat sdk path st = do {
     (nodePath, w, s) \<leftarrow> FAT_convertPath sdk path st;
     case nodePath of None \<Rightarrow> Some (None, w, s)
     | Some p \<Rightarrow>
         let ((r, fInfo), w) = f_stat sdk p w
         in Some (if r \<noteq> FR_OK then None else Some (fat_info sdk fInfo), w, s)
   }"

definition FAT_rename :: "('f, 'd, 'w) fat_sdk \<Rightarrow> wstr \<Rightarrow> wstr \<Rightarrow> ('f, 'd, 'w) fat_state \<Rightarrow> (bool \<times> ('f, 'd, 'w) fat_state) option" where
  "FAT_rename sdk srcPath dstPath st = do {
     (srcNodePath, st) \<leftarrow> FAT_convertPath sdk srcPath st;
     (dstNodePath, w, s) \<leftarrow> FAT_convertPath sdk dstPath st;
     src \<leftarrow> srcNodePath;
     dst \<leftarrow> dstNodePath;
     let (r, w) = f_rename sdk src dst w;
     Some (r = FR_OK, w, s)
   }"

definition FAT_remove :: "('f, 'd, 'w) fat_sdk \<Rightarrow> wstr \<Rightarrow> bool \<Rightarrow> ('f, 'd, 'w) fat_state \<Rightarrow> (bool \<times> ('f, 'd, 'w) fat_state) option" where
  "FAT_remove sdk path allowNop st = do {
     (nodePath, w, s) \<leftarrow> FAT_convertPath sdk path st;
     p \<leftarrow> nodePath;
     let (r, w) = f_unlink sdk p w;
     Some (r = FR_OK \<or> allowNop \<and> r = FR_NO_FILE, w, s)
   }"

definition benchmark_bin :: wstr where
  "benchmark_bin = wide ''benchmark.bin''"

definition FAT_startBenchmark :: "('f, 'd, 'w) fat_sdk \<Rightarrow> ('f, 'd, 'w) fat_state \<Rightarrow> (nat option \<times> ('f, 'd, 'w) fat_state) option" where
  "FAT_startBenchmark sdk = fat_claim_file (f_open sdk benchmark_bin (FA_CREATE_ALWAYS OR FA_WRITE OR FA_READ))"

definition FAT_endBenchmark :: "('f, 'd, 'w) fat_sdk \<Rightarrow> ('f, 'd, 'w) fat_state \<Rightarrow> ('f, 'd, 'w) fat_state" where
  "FAT_endBenchmark sdk = (\<lambda>(w, s). (snd (f_unlink sdk benchmark_bin w), s))"

text \<open>A null \<open>s_storage\<close> is a fault.\<close>

definition FAT_getMessageId :: "('f, 'd, 'w) fat_sdk \<Rightarrow> ('f, 'd, 'w) fat_state \<Rightarrow> u32 option" where
  "FAT_getMessageId sdk = (\<lambda>(w, s). map_option (device_message_id sdk) (fat_s_storage s))"

section \<open>Files\<close>

text \<open>\<open>*file = *this\<close> copies the whole object, the flag included.\<close>

definition FAT_file_clone :: "('f, 'd, 'w) fat_sdk \<Rightarrow> nat \<Rightarrow> ('f, 'd, 'w) fat_state \<Rightarrow> (nat option \<times> ('f, 'd, 'w) fat_state) option" where
  "FAT_file_clone sdk i = (\<lambda>(w, s). do {
     this \<leftarrow> rd (fat_files s) i;
     case FindNode (fat_files s) of None \<Rightarrow> Some (None, w, s)
     | Some j \<Rightarrow>
         let (n, w) = f_rewind sdk (s_node this) w
         in Some (Some j, w, s\<lparr>fat_files := (fat_files s)[j := this\<lparr>s_node := n\<rparr>]\<rparr>)
   })"

definition FAT_file_close :: "('f, 'd, 'w) fat_sdk \<Rightarrow> nat \<Rightarrow> ('f, 'd, 'w) fat_state \<Rightarrow> (bool \<times> ('f, 'd, 'w) fat_state) option" where
  "FAT_file_close sdk i = (\<lambda>(w, s). do {
     (ok, w, fs) \<leftarrow> close_slot (\<lambda>n w. let (r, n, w) = f_close sdk n w in (r = FR_OK, n, w)) i w (fat_files s);
     Some (ok, w, s\<lparr>fat_files := fs\<rparr>)
   })"

definition fat_read_at :: "('f, 'd, 'w) fat_sdk \<Rightarrow> u32 \<Rightarrow> u32 \<Rightarrow> 'f \<Rightarrow> 'w \<Rightarrow> (bool \<times> bytes) \<times> 'f \<times> 'w" where
  "fat_read_at sdk n offset f w =
     (let (r, f, w) = f_lseek sdk offset f w
      in if r \<noteq> FR_OK then ((False, []), f, w)
         else let ((r, data), f, w) = f_read sdk n f w
              in if r \<noteq> FR_OK then ((False, data), f, w) else ((length data = unat n, data), f, w))"

definition FAT_file_read :: "('f, 'd, 'w) fat_sdk \<Rightarrow> u32 \<Rightarrow> u32 \<Rightarrow> nat \<Rightarrow> ('f, 'd, 'w) fat_state \<Rightarrow> ((bool \<times> bytes) \<times> ('f, 'd, 'w) fat_state) option" where
  "FAT_file_read sdk n offset i = (\<lambda>(w, s). do {
     (r, w, fs) \<leftarrow> with_slot (fat_read_at sdk n offset) i w (fat_files s);
     Some (r, w, s\<lparr>fat_files := fs\<rparr>)
   })"

definition fat_write_at :: "('f, 'd, 'w) fat_sdk \<Rightarrow> bytes \<Rightarrow> u32 \<Rightarrow> 'f \<Rightarrow> 'w \<Rightarrow> bool \<times> 'f \<times> 'w" where
  "fat_write_at sdk src offset f w =
     (let (r, f, w) = f_lseek sdk offset f w
      in if r \<noteq> FR_OK then (False, f, w)
         else let ((r, writtenSize), f, w) = f_write sdk src f w
              in if r \<noteq> FR_OK then (False, f, w) else (writtenSize = length src, f, w))"

definition FAT_file_write :: "('f, 'd, 'w) fat_sdk \<Rightarrow> bytes \<Rightarrow> u32 \<Rightarrow> nat \<Rightarrow> ('f, 'd, 'w) fat_state \<Rightarrow> (bool \<times> ('f, 'd, 'w) fat_state) option" where
  "FAT_file_write sdk src offset i = (\<lambda>(w, s). do {
     (r, w, fs) \<leftarrow> with_slot (fat_write_at sdk src offset) i w (fat_files s);
     Some (r, w, s\<lparr>fat_files := fs\<rparr>)
   })"

definition FAT_file_sync :: "('f, 'd, 'w) fat_sdk \<Rightarrow> nat \<Rightarrow> ('f, 'd, 'w) fat_state \<Rightarrow> (bool \<times> ('f, 'd, 'w) fat_state) option" where
  "FAT_file_sync sdk i = (\<lambda>(w, s). do {
     (r, w, fs) \<leftarrow> with_slot (f_sync sdk) i w (fat_files s);
     Some (r = FR_OK, w, s\<lparr>fat_files := fs\<rparr>)
   })"

definition FAT_file_size :: "('f, 'd, 'w) fat_sdk \<Rightarrow> nat \<Rightarrow> ('f, 'd, 'w) fat_state \<Rightarrow> u64 option" where
  "FAT_file_size sdk i = (\<lambda>(w, s). do { this \<leftarrow> rd (fat_files s) i; Some (f_size sdk (s_node this) w) })"

section \<open>Directories\<close>

definition FAT_dir_clone :: "('f, 'd, 'w) fat_sdk \<Rightarrow> nat \<Rightarrow> ('f, 'd, 'w) fat_state \<Rightarrow> (nat option \<times> ('f, 'd, 'w) fat_state) option" where
  "FAT_dir_clone sdk i = (\<lambda>(w, s). do {
     this \<leftarrow> rd (fat_dirs s) i;
     case FindNode (fat_dirs s) of None \<Rightarrow> Some (None, w, s)
     | Some j \<Rightarrow>
         let (n, w) = f_rewinddir sdk (s_node this) w
         in Some (Some j, w, s\<lparr>fat_dirs := (fat_dirs s)[j := this\<lparr>s_node := n\<rparr>]\<rparr>)
   })"

definition FAT_dir_close :: "('f, 'd, 'w) fat_sdk \<Rightarrow> nat \<Rightarrow> ('f, 'd, 'w) fat_state \<Rightarrow> (bool \<times> ('f, 'd, 'w) fat_state) option" where
  "FAT_dir_close sdk i = (\<lambda>(w, s). do {
     (ok, w, ds) \<leftarrow> close_slot (\<lambda>n w. let (r, n, w) = f_closedir sdk n w in (r = FR_OK, n, w)) i w (fat_dirs s);
     Some (ok, w, s\<lparr>fat_dirs := ds\<rparr>)
   })"

definition FAT_dir_read :: "('f, 'd, 'w) fat_sdk \<Rightarrow> nat \<Rightarrow> ('f, 'd, 'w) fat_state \<Rightarrow> (node_info option \<times> ('f, 'd, 'w) fat_state) option" where
  "FAT_dir_read sdk i = (\<lambda>(w, s). do {
     ((r, fInfo), w, ds) \<leftarrow> with_slot (f_readdir sdk) i w (fat_dirs s);
     Some (if r \<noteq> FR_OK \<or> fi_fname fInfo = [] then None else Some (fat_info sdk fInfo), w, s\<lparr>fat_dirs := ds\<rparr>)
   })"

section \<open>Construction\<close>

definition PREFIX_SIZE :: nat where
  "PREFIX_SIZE = 32"

definition my_stuff :: wstr where
  "my_stuff = wide ''My Stuff''"

text \<open>One entry of \<open>/mkw-sp\<close>; a write behind the 32 prefixes is a fault.\<close>

definition add_prefix :: "node_info \<Rightarrow> ('f, 'd) fat_storage \<Rightarrow> ('f, 'd) fat_storage option" where
  "add_prefix info s =
     (if ni_type info \<noteq> NT_Dir then Some s
      else if length (ni_name info) > PREFIX_SIZE - 1 then Some s
      else if \<not> starts_with my_stuff (ni_name info) then Some s
      else do {
        ps \<leftarrow> wr (fat_prefixes s) (fat_prefixCount s) (printed PREFIX_SIZE (ni_name info));
        Some (s\<lparr>fat_prefixes := ps, fat_prefixCount := fat_prefixCount s + 1\<rparr>)
      })"

text \<open>The loop ends when the directory does; one that never does is \<^term>\<open>None\<close>.\<close>

partial_function (option) scan_prefixes ::
  "('f, 'd, 'w) fat_sdk \<Rightarrow> nat \<Rightarrow> ('f, 'd, 'w) fat_state \<Rightarrow> ('f, 'd, 'w) fat_state option" where
  "scan_prefixes sdk dir st = do {
     (info, st') \<leftarrow> FAT_dir_read sdk dir st;
     case info of None \<Rightarrow> Some st'
     | Some n \<Rightarrow> do { s \<leftarrow> add_prefix n (snd st'); scan_prefixes sdk dir (fst st', s) }
   }"

declare scan_prefixes.simps [simp del, code]

definition mkw_sp_dir :: wstr where
  "mkw_sp_dir = wide ''/mkw-sp''"

text \<open>The devices in order; \<open>k\<close> is the index of the next one.\<close>

primrec fat_try_devices ::
  "('f, 'd, 'w) fat_sdk \<Rightarrow> ('w \<Rightarrow> bool \<times> 'w) list \<Rightarrow> nat \<Rightarrow> ('f, 'd, 'w) fat_state \<Rightarrow> ('f, 'd, 'w) fat_state option" where
  "fat_try_devices sdk [] k st = Some st"
| "fat_try_devices sdk (init # inits) k st =
     (let (w, s) = st; (ready, w) = init w
      in if \<not> ready then fat_try_devices sdk inits (k + 1) (w, s)
         else
           let s = s\<lparr>fat_s_storage := Some k\<rparr>; (r, w) = f_mount sdk w
           in if r \<noteq> FR_OK then fat_try_devices sdk inits (k + 1) (w, s)
              else
                let (r, w) = f_mkdir sdk mkw_sp_dir w
                in if r \<noteq> FR_OK \<and> r \<noteq> FR_EXIST then fat_try_devices sdk inits (k + 1) (w, s)
                   else
                     let (r, w) = f_chdir sdk mkw_sp_dir w
                     in if r \<noteq> FR_OK then fat_try_devices sdk inits (k + 1) (w, s)
                        else do {
                          (dir, st) \<leftarrow> FAT_openDir sdk mkw_sp_dir (w, s);
                          case dir of None \<Rightarrow> fat_try_devices sdk inits (k + 1) st
                          | Some d \<Rightarrow> do {
                              st \<leftarrow> scan_prefixes sdk d st;
                              st \<leftarrow> (if fat_prefixCount (snd st) = 0
                                 then map_option snd (FAT_createDir sdk (wide ''/mkw-sp/My Stuff'') True st) else Some st);
                              (closed, w, s) \<leftarrow> FAT_dir_close sdk d (fst st, (snd st)\<lparr>fat_ok := True\<rparr>);
                              Some (w, s)
                            }
                        })"

text \<open>\<open>s_storage\<close> survives from an earlier attempt; then the constructor does nothing.\<close>

definition FATStorage_new ::
  "('f, 'd, 'w) fat_sdk \<Rightarrow> 'f list \<Rightarrow> 'd list \<Rightarrow> nat option \<Rightarrow> 'w \<Rightarrow> ('f, 'd, 'w) fat_state option" where
  "FATStorage_new sdk fs ds s_storage w =
     (let s = \<lparr>fat_files = map (\<lambda>n. \<lparr>s_node = n, s_isOpen = False\<rparr>) fs,
            fat_dirs = map (\<lambda>n. \<lparr>s_node = n, s_isOpen = False\<rparr>) ds, fat_prefixCount = 0,
            fat_prefixes = replicate 32 [], fat_ok = False, fat_s_storage = s_storage\<rparr>
      in if s_storage \<noteq> None then Some (w, s) else fat_try_devices sdk (device_inits sdk) 0 (w, s))"

section \<open>The pools of the volume\<close>

definition fat_open_files :: "('f, 'd, 'w) fat_state \<Rightarrow> nat set" where
  "fat_open_files st = open_slots (fat_files (snd st))"

definition fat_open_dirs :: "('f, 'd, 'w) fat_state \<Rightarrow> nat set" where
  "fat_open_dirs st = open_slots (fat_dirs (snd st))"

lemma FAT_convertPath_frame: "FAT_convertPath sdk path st = Some (p, st') \<Longrightarrow> snd st' = snd st"
  by (auto simp: FAT_convertPath_def fault_simps split: prod.splits if_splits)

lemma fat_claim_open:
  "fat_claim_file fill st = Some (r, st') \<Longrightarrow> claimed (fat_open_files st) r (fat_open_files st') \<and> fat_dirs (snd st') = fat_dirs (snd st)"
  "fat_claim_dir fdir st = Some (r, st') \<Longrightarrow> claimed (fat_open_dirs st) r (fat_open_dirs st') \<and> fat_files (snd st') = fat_files (snd st)"
  by (auto simp: fat_claim_file_def fat_claim_dir_def fat_open_files_def fat_open_dirs_def fault_simps
      dest: claim_slot_open split: prod.splits)

lemma FAT_open_slots:
  assumes "FAT_open sdk path mode st = Some (r, st')"
  shows "claimed (fat_open_files st) r (fat_open_files st') \<and> fat_dirs (snd st') = fat_dirs (snd st)"
proof (cases "FindNode (fat_files (snd st)) = None")
  case True
  then show ?thesis using assms by (auto simp: FAT_open_def split: prod.splits)
next
  case False
  then obtain fMode p st1 where st1: "FAT_convertPath sdk path st = Some (p, st1)"
    and r: "(case p of None \<Rightarrow> Some (None, st1) | Some q \<Rightarrow> fat_claim_file (f_open sdk q fMode) st1) = Some (r, st')"
    using assms by (cases st) (auto simp: FAT_open_def fault_simps)
  have "snd st1 = snd st" using FAT_convertPath_frame [OF st1] .
  then show ?thesis
    using r fat_claim_open(1) [of _ st1 r st'] by (auto simp: fat_open_files_def split: option.splits)
qed

lemma FAT_openDir_opens:
  assumes "FAT_openDir sdk path st = Some (r, st')"
  shows "claimed (fat_open_dirs st) r (fat_open_dirs st') \<and> fat_files (snd st') = fat_files (snd st)"
proof (cases "FindNode (fat_dirs (snd st)) = None")
  case True
  then show ?thesis using assms by (auto simp: FAT_openDir_def split: prod.splits)
next
  case False
  then obtain p st1 where st1: "FAT_convertPath sdk path st = Some (p, st1)"
    and r: "(case p of None \<Rightarrow> Some (None, st1) | Some q \<Rightarrow> fat_claim_dir (f_opendir sdk q) st1) = Some (r, st')"
    using assms by (cases st) (auto simp: FAT_openDir_def fault_simps)
  have "snd st1 = snd st" using FAT_convertPath_frame [OF st1] .
  then show ?thesis
    using r fat_claim_open(2) [of _ st1 r st'] by (auto simp: fat_open_dirs_def split: option.splits)
qed


definition FAT_acquire :: "('f, 'd, 'w) fat_sdk \<Rightarrow> (wstr \<times> string) + u64 \<Rightarrow> ('f, 'd, 'w) fat_state \<Rightarrow> (nat option \<times> ('f, 'd, 'w) fat_state) option" where
  "FAT_acquire sdk q = (case q of Inl (path, mode) \<Rightarrow> FAT_open sdk path mode | Inr i \<Rightarrow> FAT_fastOpen sdk i)"

definition FAT_acquire_dir :: "('f, 'd, 'w) fat_sdk \<Rightarrow> wstr + u64 \<Rightarrow> ('f, 'd, 'w) fat_state \<Rightarrow> (nat option \<times> ('f, 'd, 'w) fat_state) option" where
  "FAT_acquire_dir sdk q = (case q of Inl path \<Rightarrow> FAT_openDir sdk path | Inr i \<Rightarrow> FAT_fastOpenDir sdk i)"

interpretation fat_file_pool: handle_store fat_open_files "FAT_acquire sdk" "FAT_file_clone sdk" "FAT_file_close sdk"
  for sdk :: "('f, 'd, 'w) fat_sdk"
proof unfold_locales
  fix q and s :: "('f, 'd, 'w) fat_state" and r s' i ok
  show "FAT_acquire sdk q s = Some (r, s') \<Longrightarrow> claimed (fat_open_files s) r (fat_open_files s')"
    by (auto simp: FAT_acquire_def FAT_fastOpen_def dest: fat_claim_open(1) FAT_open_slots
        split: sum.splits)
  show "i \<in> fat_open_files s \<Longrightarrow> FAT_file_clone sdk i s = Some (r, s') \<Longrightarrow>
      claimed (fat_open_files s) r (fat_open_files s')"
    by (auto simp: FAT_file_clone_def fat_open_files_def Let_def mem_open_slots split: prod.splits option.splits) (rule clone_open, simp_all)
  show "FAT_file_close sdk i s = Some (ok, s') \<Longrightarrow> fat_open_files s' = (if ok then fat_open_files s - {i} else fat_open_files s)"
    by (auto simp: FAT_file_close_def fat_open_files_def fault_simps dest!: close_slot_open split: prod.splits)
qed

interpretation fat_dir_pool: handle_store fat_open_dirs "FAT_acquire_dir sdk" "FAT_dir_clone sdk" "FAT_dir_close sdk"
  for sdk :: "('f, 'd, 'w) fat_sdk"
proof unfold_locales
  fix q and s :: "('f, 'd, 'w) fat_state" and r s' i ok
  show "FAT_acquire_dir sdk q s = Some (r, s') \<Longrightarrow> claimed (fat_open_dirs s) r (fat_open_dirs s')"
    by (auto simp: FAT_acquire_dir_def FAT_fastOpenDir_def dest: fat_claim_open(2) FAT_openDir_opens
        split: sum.splits)
  show "i \<in> fat_open_dirs s \<Longrightarrow> FAT_dir_clone sdk i s = Some (r, s') \<Longrightarrow>
      claimed (fat_open_dirs s) r (fat_open_dirs s')"
    by (auto simp: FAT_dir_clone_def fat_open_dirs_def Let_def mem_open_slots split: prod.splits option.splits) (rule clone_open, simp_all)
  show "FAT_dir_close sdk i s = Some (ok, s') \<Longrightarrow> fat_open_dirs s' = (if ok then fat_open_dirs s - {i} else fat_open_dirs s)"
    by (auto simp: FAT_dir_close_def fat_open_dirs_def fault_simps dest!: close_slot_open split: prod.splits)
qed

end
