(* ===== verification/NAND_Storage.thy ===== *)
theory NAND_Storage
  imports Storage_Types DVD_Storage Byte_IO
begin

text \<open>
  \<open>payload/sp/storage/NANDArchiveStorage.cc\<close>: an archive on the console's flash memory as a
  read-only storage.  The record \<open>arc_sdk\<close> holds the functions of the NAND and ARC libraries: \<open>'f\<close>
  and \<open>'d\<close> are \<open>ARCFileInfo\<close> and \<open>ARCDir\<close>, \<open>'h\<close> the archive handle with its metadata in memory,
  \<open>'w\<close> the flash file system with the open archive file in it.
\<close>

record ('f, 'd, 'h, 'w) arc_sdk =
  NANDOpen :: "string \<Rightarrow> 'w \<Rightarrow> int \<times> 'w"
  NANDPrivateOpen :: "string \<Rightarrow> 'w \<Rightarrow> int \<times> 'w"
  NANDRead :: "int \<Rightarrow> 'w \<Rightarrow> (int \<times> bytes) \<times> 'w"
  NANDSeek :: "int \<Rightarrow> 'w \<Rightarrow> int \<times> 'w"
  NANDClose :: "'w \<Rightarrow> int \<times> 'w"
  OSAllocFromMEM1ArenaLo :: "int \<Rightarrow> 'w \<Rightarrow> bool \<times> 'w"
  OSAllocFromMEM2ArenaLo :: "nat \<Rightarrow> 'w \<Rightarrow> bool \<times> 'w"
  ARCInitHandle :: "bytes \<Rightarrow> 'h \<Rightarrow> bool \<times> 'h"
  ARCOpen :: "'h \<Rightarrow> bytes \<Rightarrow> 'f \<Rightarrow> bool \<times> 'f"
  ARCFastOpen :: "'h \<Rightarrow> int \<Rightarrow> 'f \<Rightarrow> bool \<times> 'f"
  ARCConvertPathToEntrynum :: "'h \<Rightarrow> bytes \<Rightarrow> int"
  ARCGetStartOffset :: "'f \<Rightarrow> u32"
  ARCGetLength :: "'f \<Rightarrow> u32"
  ARCClose :: "'f \<Rightarrow> bool \<times> 'f"
  ARCOpenDir :: "'h \<Rightarrow> bytes \<Rightarrow> 'd \<Rightarrow> bool \<times> 'd"
  ARCFastOpenDir :: "'h \<Rightarrow> int \<Rightarrow> 'd \<Rightarrow> bool \<times> 'd"
  ARCReadDir :: "'d \<Rightarrow> dir_entry option \<times> 'd"
  ARCCloseDir :: "'d \<Rightarrow> bool \<times> 'd"
  ARCExClone :: "'f \<Rightarrow> 'f \<Rightarrow> 'f"
  ARCExCloneDir :: "'d \<Rightarrow> 'd \<Rightarrow> 'd"
  arc_stack_file :: 'f
  arc_stack_dir :: 'd

text \<open>\<open>nand_buffer\<close> says whether \<open>m_buffer\<close> is not null; its content does not outlive a read.\<close>

record ('f, 'd, 'h) nand_storage =
  nand_handle :: 'h
  nand_files :: "'f slot list"
  nand_dirs :: "'d slot list"
  nand_buffer :: bool
  nand_ok :: bool

type_synonym ('f, 'd, 'h, 'w) nand_state = "'w \<times> ('f, 'd, 'h) nand_storage"

definition BufferSize :: nat where
  "BufferSize = 4096"

definition NAND_RESULT_OK :: int where
  "NAND_RESULT_OK = 0"

definition ARC_HEADER_SIZE :: nat where
  "ARC_HEADER_SIZE = 0x20"

text \<open>\<open>header.fileStart\<close> of the \<open>ARCHeader\<close> that has been read.\<close>

definition arc_fileStart :: "bytes \<Rightarrow> int option" where
  "arc_fileStart header = map_option sint (Bytes_Read Big_Endian header 0xc :: u32 option)"

section \<open>Construction\<close>

definition nand_fresh :: "'h \<Rightarrow> 'f list \<Rightarrow> 'd list \<Rightarrow> ('f, 'd, 'h) nand_storage" where
  "nand_fresh h fs ds =
     \<lparr>nand_handle = h, nand_files = map (\<lambda>n. \<lparr>s_node = n, s_isOpen = False\<rparr>) fs,
      nand_dirs = map (\<lambda>n. \<lparr>s_node = n, s_isOpen = False\<rparr>) ds, nand_buffer = False, nand_ok = False\<rparr>"

text \<open>What the constructor does once the archive file is open; the file is closed on every failure.\<close>

definition nand_give_up :: "('f, 'd, 'h, 'w) arc_sdk \<Rightarrow> ('f, 'd, 'h, 'w) nand_state \<Rightarrow> ('f, 'd, 'h, 'w) nand_state" where
  "nand_give_up sdk = (\<lambda>(w, s). (snd (NANDClose sdk w), s))"

definition nand_load :: "('f, 'd, 'h, 'w) arc_sdk \<Rightarrow> ('f, 'd, 'h, 'w) nand_state \<Rightarrow> ('f, 'd, 'h, 'w) nand_state option" where
  "nand_load sdk = (\<lambda>(w, s).
     let ((n, header), w) = NANDRead sdk (int ARC_HEADER_SIZE) w
     in if n \<noteq> int ARC_HEADER_SIZE then Some (nand_give_up sdk (w, s))
        else do {
          fileStart \<leftarrow> arc_fileStart header;
          let (allocated, w) = OSAllocFromMEM1ArenaLo sdk fileStart w;
          if \<not> allocated then Some (nand_give_up sdk (w, s))
          else
            let (pos, w) = NANDSeek sdk 0 w
            in if pos \<noteq> 0 then Some (nand_give_up sdk (w, s))
               else
                 let ((n, metadata), w) = NANDRead sdk fileStart w
                 in if n \<noteq> fileStart then Some (nand_give_up sdk (w, s))
                    else
                      let (inited, h) = ARCInitHandle sdk metadata (nand_handle s); s = s\<lparr>nand_handle := h\<rparr>
                      in if \<not> inited then Some (nand_give_up sdk (w, s))
                         else
                           let (buffer, w) = OSAllocFromMEM2ArenaLo sdk BufferSize w
                           in Some (w, s\<lparr>nand_buffer := buffer, nand_ok := True\<rparr>)
        })"

definition TITLE_DATA_PATH :: string where
  "TITLE_DATA_PATH = ''/title/00010001/53505350/data''"

definition NANDArchiveStorage_new ::
  "('f, 'd, 'h, 'w) arc_sdk \<Rightarrow> 'h \<Rightarrow> 'f list \<Rightarrow> 'd list \<Rightarrow> 'w \<Rightarrow> ('f, 'd, 'h, 'w) nand_state option" where
  "NANDArchiveStorage_new sdk h fs ds w =
     (let s = nand_fresh h fs ds;
          (r, w) = NANDOpen sdk ''/tmp/contents.arc'' w
      in if r = NAND_RESULT_OK then nand_load sdk (w, s)
         else
           let (r, w) = NANDPrivateOpen sdk (TITLE_DATA_PATH @ ''/contents.arc'') w
           in if r = NAND_RESULT_OK then nand_load sdk (w, s) else Some (w, s))"

section \<open>The storage\<close>

definition NAND_ConvertPath :: "wstr \<Rightarrow> bytes option" where
  "NAND_ConvertPath path =
     (if \<not> starts_with ro_prefix path then None else Some (printed 128 (narrow (drop (length ro_prefix) path))))"

definition nand_claim_file ::
  "('f \<Rightarrow> bool \<times> 'f) \<Rightarrow> ('f, 'd, 'h, 'w) nand_state \<Rightarrow> (nat option \<times> ('f, 'd, 'h, 'w) nand_state) option" where
  "nand_claim_file fill = (\<lambda>(w, s). do {
     (r, w, fs) \<leftarrow> claim_slot (\<lambda>n w. Some (fst (fill n), snd (fill n), w)) w (nand_files s);
     Some (r, w, s\<lparr>nand_files := fs\<rparr>)
   })"

definition nand_claim_dir ::
  "('d \<Rightarrow> bool \<times> 'd) \<Rightarrow> ('f, 'd, 'h, 'w) nand_state \<Rightarrow> (nat option \<times> ('f, 'd, 'h, 'w) nand_state) option" where
  "nand_claim_dir fill = (\<lambda>(w, s). do {
     (r, w, ds) \<leftarrow> claim_slot (\<lambda>n w. Some (fst (fill n), snd (fill n), w)) w (nand_dirs s);
     Some (r, w, s\<lparr>nand_dirs := ds\<rparr>)
   })"

definition NAND_fastOpen :: "('f, 'd, 'h, 'w) arc_sdk \<Rightarrow> u64 \<Rightarrow> ('f, 'd, 'h, 'w) nand_state \<Rightarrow> (nat option \<times> ('f, 'd, 'h, 'w) nand_state) option" where
  "NAND_fastOpen sdk i st = nand_claim_file (ARCFastOpen sdk (nand_handle (snd st)) (entrynum i)) st"

definition NAND_open :: "('f, 'd, 'h, 'w) arc_sdk \<Rightarrow> wstr \<Rightarrow> string \<Rightarrow> ('f, 'd, 'h, 'w) nand_state \<Rightarrow> (nat option \<times> ('f, 'd, 'h, 'w) nand_state) option" where
  "NAND_open sdk path mode st =
     (if mode \<noteq> ''r'' then Some (None, st)
      else case NAND_ConvertPath path of None \<Rightarrow> Some (None, st)
      | Some p \<Rightarrow> nand_claim_file (ARCOpen sdk (nand_handle (snd st)) p) st)"

definition NAND_createDir :: "wstr \<Rightarrow> bool \<Rightarrow> ('f, 'd, 'h, 'w) nand_state \<Rightarrow> (bool \<times> ('f, 'd, 'h, 'w) nand_state) option" where
  "NAND_createDir path allowNop st = Some (False, st)"

definition NAND_fastOpenDir :: "('f, 'd, 'h, 'w) arc_sdk \<Rightarrow> u64 \<Rightarrow> ('f, 'd, 'h, 'w) nand_state \<Rightarrow> (nat option \<times> ('f, 'd, 'h, 'w) nand_state) option" where
  "NAND_fastOpenDir sdk i st = nand_claim_dir (ARCFastOpenDir sdk (nand_handle (snd st)) (entrynum i)) st"

definition NAND_openDir :: "('f, 'd, 'h, 'w) arc_sdk \<Rightarrow> wstr \<Rightarrow> ('f, 'd, 'h, 'w) nand_state \<Rightarrow> (nat option \<times> ('f, 'd, 'h, 'w) nand_state) option" where
  "NAND_openDir sdk path st =
     (case NAND_ConvertPath path of None \<Rightarrow> Some (None, st)
      | Some p \<Rightarrow> nand_claim_dir (ARCOpenDir sdk (nand_handle (snd st)) p) st)"

definition NAND_stat :: "('f, 'd, 'h, 'w) arc_sdk \<Rightarrow> wstr \<Rightarrow> ('f, 'd, 'h, 'w) nand_state \<Rightarrow> (node_info option \<times> ('f, 'd, 'h, 'w) nand_state) option" where
  "NAND_stat sdk path = (\<lambda>(w, s).
     case NAND_ConvertPath path of None \<Rightarrow> Some (None, w, s)
     | Some p \<Rightarrow>
         let num = ARCConvertPathToEntrynum sdk (nand_handle s) p
         in if num < 0 then Some (None, w, s)
            else
              let info = node_info_zero\<lparr>ni_id := \<lparr>nid_storage = Some ST_NANDArchive, nid_id = word_of_int num\<rparr>,
                    ni_name := printed NODE_NAME_SIZE (bare_name path)\<rparr>;
                  (isFile, f) = ARCFastOpen sdk (nand_handle s) num (arc_stack_file sdk)
              in if isFile then Some (Some (info\<lparr>ni_type := NT_File, ni_size := ucast (ARCGetLength sdk f)\<rparr>), w, s)
                 else if fst (ARCFastOpenDir sdk (nand_handle s) num (arc_stack_dir sdk))
                 then Some (Some (info\<lparr>ni_type := NT_Dir\<rparr>), w, s)
                 else Some (None, w, s))"

definition NAND_rename :: "wstr \<Rightarrow> wstr \<Rightarrow> ('f, 'd, 'h, 'w) nand_state \<Rightarrow> (bool \<times> ('f, 'd, 'h, 'w) nand_state) option" where
  "NAND_rename srcPath dstPath st = Some (False, st)"

definition NAND_remove :: "wstr \<Rightarrow> bool \<Rightarrow> ('f, 'd, 'h, 'w) nand_state \<Rightarrow> (bool \<times> ('f, 'd, 'h, 'w) nand_state) option" where
  "NAND_remove path allowNop st = Some (False, st)"

definition NAND_startBenchmark :: "('f, 'd, 'h, 'w) nand_state \<Rightarrow> (nat option \<times> ('f, 'd, 'h, 'w) nand_state) option" where
  "NAND_startBenchmark st = Some (None, st)"

definition NAND_endBenchmark :: "('f, 'd, 'h, 'w) nand_state \<Rightarrow> ('f, 'd, 'h, 'w) nand_state" where
  "NAND_endBenchmark st = st"

definition NAND_getMessageId :: u32 where
  "NAND_getMessageId = 0"

section \<open>Files\<close>

definition NAND_file_clone :: "('f, 'd, 'h, 'w) arc_sdk \<Rightarrow> nat \<Rightarrow> ('f, 'd, 'h, 'w) nand_state \<Rightarrow> (nat option \<times> ('f, 'd, 'h, 'w) nand_state) option" where
  "NAND_file_clone sdk i st = do {
     this \<leftarrow> rd (nand_files (snd st)) i;
     nand_claim_file (\<lambda>n. (True, ARCExClone sdk (s_node this) n)) st
   }"

definition NAND_file_close :: "('f, 'd, 'h, 'w) arc_sdk \<Rightarrow> nat \<Rightarrow> ('f, 'd, 'h, 'w) nand_state \<Rightarrow> (bool \<times> ('f, 'd, 'h, 'w) nand_state) option" where
  "NAND_file_close sdk i = (\<lambda>(w, s). do {
     (ok, w, fs) \<leftarrow> close_slot (\<lambda>n w. (fst (ARCClose sdk n), snd (ARCClose sdk n), w)) i w (nand_files s);
     Some (ok, w, s\<lparr>nand_files := fs\<rparr>)
   })"

text \<open>The bounce loop of a read: chunks of at most 4096 bytes go through \<open>m_buffer\<close>.\<close>

function nand_chunks :: "('f, 'd, 'h, 'w) arc_sdk \<Rightarrow> nat \<Rightarrow> 'w \<Rightarrow> (bool \<times> bytes) \<times> 'w" where
  "nand_chunks sdk n w =
     (if n = 0 then ((True, []), w)
      else
        let chunkSize = min n BufferSize; ((r, data), w) = NANDRead sdk (int chunkSize) w
        in if r \<noteq> int chunkSize then ((False, []), w)
           else let ((ok, rest), w) = nand_chunks sdk (n - chunkSize) w in ((ok, data @ rest), w))"
  by pat_completeness auto
termination by (relation "measure (\<lambda>(_, n, _). n)") (auto simp: BufferSize_def)

declare nand_chunks.simps [simp del]

text \<open>
  \<open>read\<close>: the data is what has been written from \<open>dst\<close> on.  A bounce buffer that is null is a fault.
  The seek comes before the check of the size, and the check does not involve the offset.
\<close>

definition NAND_file_read ::
  "('f, 'd, 'h, 'w) arc_sdk \<Rightarrow> u32 \<Rightarrow> u32 \<Rightarrow> u32 \<Rightarrow> nat \<Rightarrow> ('f, 'd, 'h, 'w) nand_state \<Rightarrow> ((bool \<times> bytes) \<times> ('f, 'd, 'h, 'w) nand_state) option" where
  "NAND_file_read sdk dst n offset i = (\<lambda>(w, s). do {
     this \<leftarrow> rd (nand_files s) i;
     let fileOffset = ARCGetStartOffset sdk (s_node this);
     ensure (sint fileOffset \<ge> 0);
     let offset = offset + fileOffset;
     ensure (uint offset < 0x7fffffff);
     let (pos, w) = NANDSeek sdk (sint offset) w;
     if pos \<noteq> sint offset then Some ((False, []), w, s)
     else do {
       let fileSize = ARCGetLength sdk (s_node this);
       ensure (sint fileSize \<ge> 0);
       if n > fileSize then Some ((False, []), w, s)
       else do {
         ensure (uint n < 0x7fffffff);
         if dst mod 32 \<noteq> 0 \<or> n mod 32 \<noteq> 0 then do {
           ensure (nand_buffer s \<or> n = 0);
           let (r, w) = nand_chunks sdk (unat n) w;
           Some (r, w, s)
         } else
           let ((r, data), w) = NANDRead sdk (sint n) w
           in if r \<noteq> sint n then Some ((False, []), w, s) else Some ((True, data), w, s)
       }
     }
   })"

definition NAND_file_write :: "bytes \<Rightarrow> u32 \<Rightarrow> nat \<Rightarrow> ('f, 'd, 'h, 'w) nand_state \<Rightarrow> (bool \<times> ('f, 'd, 'h, 'w) nand_state) option" where
  "NAND_file_write src offset i st = Some (False, st)"

definition NAND_file_sync :: "nat \<Rightarrow> ('f, 'd, 'h, 'w) nand_state \<Rightarrow> (bool \<times> ('f, 'd, 'h, 'w) nand_state) option" where
  "NAND_file_sync i st = Some (False, st)"

definition NAND_file_size :: "('f, 'd, 'h, 'w) arc_sdk \<Rightarrow> nat \<Rightarrow> ('f, 'd, 'h, 'w) nand_state \<Rightarrow> u64 option" where
  "NAND_file_size sdk i st = do {
     this \<leftarrow> rd (nand_files (snd st)) i;
     Some (ucast (ARCGetLength sdk (s_node this)))
   }"

section \<open>Directories\<close>

definition NAND_dir_clone :: "('f, 'd, 'h, 'w) arc_sdk \<Rightarrow> nat \<Rightarrow> ('f, 'd, 'h, 'w) nand_state \<Rightarrow> (nat option \<times> ('f, 'd, 'h, 'w) nand_state) option" where
  "NAND_dir_clone sdk i st = do {
     this \<leftarrow> rd (nand_dirs (snd st)) i;
     nand_claim_dir (\<lambda>n. (True, ARCExCloneDir sdk (s_node this) n)) st
   }"

definition NAND_dir_close :: "('f, 'd, 'h, 'w) arc_sdk \<Rightarrow> nat \<Rightarrow> ('f, 'd, 'h, 'w) nand_state \<Rightarrow> (bool \<times> ('f, 'd, 'h, 'w) nand_state) option" where
  "NAND_dir_close sdk i = (\<lambda>(w, s). do {
     (ok, w, ds) \<leftarrow> close_slot (\<lambda>n w. (fst (ARCCloseDir sdk n), snd (ARCCloseDir sdk n), w)) i w (nand_dirs s);
     Some (ok, w, s\<lparr>nand_dirs := ds\<rparr>)
   })"

definition nand_entry_info :: "('f, 'd, 'h, 'w) arc_sdk \<Rightarrow> 'h \<Rightarrow> dir_entry \<Rightarrow> node_info option" where
  "nand_entry_info sdk h e =
     (let info = node_info_zero\<lparr>ni_id := \<lparr>nid_storage = Some ST_NANDArchive, nid_id = ucast (de_entryNum e)\<rparr>,
            ni_name := printed NODE_NAME_SIZE (widen (de_name e))\<rparr>
      in if de_isDir e then Some (info\<lparr>ni_type := NT_Dir\<rparr>)
         else
           let (ok, f) = ARCFastOpen sdk h (sint (de_entryNum e)) (arc_stack_file sdk)
           in if \<not> ok then None
              else let len = ARCGetLength sdk f
                   in if \<not> fst (ARCClose sdk f) then None
                      else Some (info\<lparr>ni_type := NT_File, ni_size := ucast len\<rparr>))"

definition NAND_dir_read :: "('f, 'd, 'h, 'w) arc_sdk \<Rightarrow> nat \<Rightarrow> ('f, 'd, 'h, 'w) nand_state \<Rightarrow> (node_info option \<times> ('f, 'd, 'h, 'w) nand_state) option" where
  "NAND_dir_read sdk i = (\<lambda>(w, s). do {
     (entry, w, ds) \<leftarrow> with_slot (\<lambda>n w. (fst (ARCReadDir sdk n), snd (ARCReadDir sdk n), w)) i w (nand_dirs s);
     Some (case entry of None \<Rightarrow> None | Some e \<Rightarrow> nand_entry_info sdk (nand_handle s) e, w, s\<lparr>nand_dirs := ds\<rparr>)
   })"

section \<open>The pools of the archive\<close>

definition nand_open_files :: "('f, 'd, 'h, 'w) nand_state \<Rightarrow> nat set" where
  "nand_open_files st = open_slots (nand_files (snd st))"

definition nand_open_dirs :: "('f, 'd, 'h, 'w) nand_state \<Rightarrow> nat set" where
  "nand_open_dirs st = open_slots (nand_dirs (snd st))"

lemma nand_claim_open:
  "nand_claim_file fill st = Some (r, st') \<Longrightarrow> claimed (nand_open_files st) r (nand_open_files st') \<and> nand_dirs (snd st') = nand_dirs (snd st)"
  "nand_claim_dir fdir st = Some (r, st') \<Longrightarrow> claimed (nand_open_dirs st) r (nand_open_dirs st') \<and> nand_files (snd st') = nand_files (snd st)"
  by (auto simp: nand_claim_file_def nand_claim_dir_def nand_open_files_def nand_open_dirs_def fault_simps
      dest: claim_slot_open split: prod.splits)

definition NAND_acquire :: "('f, 'd, 'h, 'w) arc_sdk \<Rightarrow> (wstr \<times> string) + u64 \<Rightarrow> ('f, 'd, 'h, 'w) nand_state \<Rightarrow> (nat option \<times> ('f, 'd, 'h, 'w) nand_state) option" where
  "NAND_acquire sdk q = (case q of Inl (path, mode) \<Rightarrow> NAND_open sdk path mode | Inr i \<Rightarrow> NAND_fastOpen sdk i)"

definition NAND_acquire_dir :: "('f, 'd, 'h, 'w) arc_sdk \<Rightarrow> wstr + u64 \<Rightarrow> ('f, 'd, 'h, 'w) nand_state \<Rightarrow> (nat option \<times> ('f, 'd, 'h, 'w) nand_state) option" where
  "NAND_acquire_dir sdk q = (case q of Inl path \<Rightarrow> NAND_openDir sdk path | Inr i \<Rightarrow> NAND_fastOpenDir sdk i)"

interpretation nand_file_pool: handle_store nand_open_files "NAND_acquire sdk" "NAND_file_clone sdk" "NAND_file_close sdk"
  for sdk :: "('f, 'd, 'h, 'w) arc_sdk"
proof unfold_locales
  fix q and s :: "('f, 'd, 'h, 'w) nand_state" and r s' i ok
  show "NAND_acquire sdk q s = Some (r, s') \<Longrightarrow> claimed (nand_open_files s) r (nand_open_files s')"
    by (auto simp: NAND_acquire_def NAND_open_def NAND_fastOpen_def dest: nand_claim_open(1)
        split: sum.splits if_splits option.splits)
  show "NAND_file_clone sdk i s = Some (r, s') \<Longrightarrow> claimed (nand_open_files s) r (nand_open_files s')"
    by (auto simp: NAND_file_clone_def fault_simps dest: nand_claim_open(1))
  show "NAND_file_close sdk i s = Some (ok, s') \<Longrightarrow> nand_open_files s' = (if ok then nand_open_files s - {i} else nand_open_files s)"
    by (auto simp: NAND_file_close_def nand_open_files_def fault_simps dest!: close_slot_open split: prod.splits)
qed

interpretation nand_dir_pool: handle_store nand_open_dirs "NAND_acquire_dir sdk" "NAND_dir_clone sdk" "NAND_dir_close sdk"
  for sdk :: "('f, 'd, 'h, 'w) arc_sdk"
proof unfold_locales
  fix q and s :: "('f, 'd, 'h, 'w) nand_state" and r s' i ok
  show "NAND_acquire_dir sdk q s = Some (r, s') \<Longrightarrow> claimed (nand_open_dirs s) r (nand_open_dirs s')"
    by (auto simp: NAND_acquire_dir_def NAND_openDir_def NAND_fastOpenDir_def dest: nand_claim_open(2)
        split: sum.splits option.splits)
  show "NAND_dir_clone sdk i s = Some (r, s') \<Longrightarrow> claimed (nand_open_dirs s) r (nand_open_dirs s')"
    by (auto simp: NAND_dir_clone_def fault_simps dest: nand_claim_open(2))
  show "NAND_dir_close sdk i s = Some (ok, s') \<Longrightarrow> nand_open_dirs s' = (if ok then nand_open_dirs s - {i} else nand_open_dirs s)"
    by (auto simp: NAND_dir_close_def nand_open_dirs_def fault_simps dest!: close_slot_open split: prod.splits)
qed

end
