(* ===== verification/Storage_Dispatch.thy ===== *)
theory Storage_Dispatch
  imports FAT_Storage NAND_Storage
begin

text \<open>
  \<open>payload/sp/storage/Storage.cc\<close>: the handles given to the rest of the program and the functions
  that look for a path in the three back ends in order.  The virtual functions of \<open>IStorage\<close>,
  \<open>IFile\<close> and \<open>IDir\<close> are the fields of the record \<open>istorage\<close>; \<open>FAT_vtable\<close>, \<open>NAND_vtable\<close> and
  \<open>DVD_vtable\<close> fill it with the definitions of the back ends.  A pointer to an \<open>IFile\<close> is the tag of
  its storage and the index of its slot.
\<close>

record 's istorage =
  is_fastOpen :: "u64 \<Rightarrow> 's \<Rightarrow> (nat option \<times> 's) option"
  is_open :: "wstr \<Rightarrow> string \<Rightarrow> 's \<Rightarrow> (nat option \<times> 's) option"
  is_createDir :: "wstr \<Rightarrow> bool \<Rightarrow> 's \<Rightarrow> (bool \<times> 's) option"
  is_fastOpenDir :: "u64 \<Rightarrow> 's \<Rightarrow> (nat option \<times> 's) option"
  is_openDir :: "wstr \<Rightarrow> 's \<Rightarrow> (nat option \<times> 's) option"
  is_stat :: "wstr \<Rightarrow> 's \<Rightarrow> (node_info option \<times> 's) option"
  is_rename :: "wstr \<Rightarrow> wstr \<Rightarrow> 's \<Rightarrow> (bool \<times> 's) option"
  is_remove :: "wstr \<Rightarrow> bool \<Rightarrow> 's \<Rightarrow> (bool \<times> 's) option"
  is_startBenchmark :: "'s \<Rightarrow> (nat option \<times> 's) option"
  is_endBenchmark :: "'s \<Rightarrow> 's"
  is_getMessageId :: "'s \<Rightarrow> u32 option"
  if_clone :: "nat \<Rightarrow> 's \<Rightarrow> (nat option \<times> 's) option"
  if_close :: "nat \<Rightarrow> 's \<Rightarrow> (bool \<times> 's) option"
  if_read :: "u32 \<Rightarrow> u32 \<Rightarrow> u32 \<Rightarrow> nat \<Rightarrow> 's \<Rightarrow> ((bool \<times> bytes) \<times> 's) option"
  if_write :: "bytes \<Rightarrow> u32 \<Rightarrow> nat \<Rightarrow> 's \<Rightarrow> (bool \<times> 's) option"
  if_sync :: "nat \<Rightarrow> 's \<Rightarrow> (bool \<times> 's) option"
  if_size :: "nat \<Rightarrow> 's \<Rightarrow> u64 option"
  id_clone :: "nat \<Rightarrow> 's \<Rightarrow> (nat option \<times> 's) option"
  id_close :: "nat \<Rightarrow> 's \<Rightarrow> (bool \<times> 's) option"
  id_read :: "nat \<Rightarrow> 's \<Rightarrow> (node_info option \<times> 's) option"

definition FAT_vtable :: "('f, 'd, 'w) fat_sdk \<Rightarrow> ('f, 'd, 'w) fat_state istorage" where
  "FAT_vtable sdk = \<lparr>is_fastOpen = FAT_fastOpen sdk, is_open = FAT_open sdk, is_createDir = FAT_createDir sdk,
     is_fastOpenDir = FAT_fastOpenDir sdk, is_openDir = FAT_openDir sdk, is_stat = FAT_stat sdk,
     is_rename = FAT_rename sdk, is_remove = FAT_remove sdk, is_startBenchmark = FAT_startBenchmark sdk,
     is_endBenchmark = FAT_endBenchmark sdk, is_getMessageId = FAT_getMessageId sdk,
     if_clone = FAT_file_clone sdk, if_close = FAT_file_close sdk, if_read = (\<lambda>dst. FAT_file_read sdk),
     if_write = FAT_file_write sdk, if_sync = FAT_file_sync sdk, if_size = FAT_file_size sdk,
     id_clone = FAT_dir_clone sdk, id_close = FAT_dir_close sdk, id_read = FAT_dir_read sdk\<rparr>"

definition NAND_vtable :: "('f, 'd, 'h, 'w) arc_sdk \<Rightarrow> ('f, 'd, 'h, 'w) nand_state istorage" where
  "NAND_vtable sdk = \<lparr>is_fastOpen = NAND_fastOpen sdk, is_open = NAND_open sdk, is_createDir = NAND_createDir,
     is_fastOpenDir = NAND_fastOpenDir sdk, is_openDir = NAND_openDir sdk, is_stat = NAND_stat sdk,
     is_rename = NAND_rename, is_remove = NAND_remove, is_startBenchmark = NAND_startBenchmark,
     is_endBenchmark = NAND_endBenchmark, is_getMessageId = (\<lambda>s. Some NAND_getMessageId),
     if_clone = NAND_file_clone sdk, if_close = NAND_file_close sdk, if_read = NAND_file_read sdk,
     if_write = NAND_file_write, if_sync = NAND_file_sync, if_size = NAND_file_size sdk,
     id_clone = NAND_dir_clone sdk, id_close = NAND_dir_close sdk, id_read = NAND_dir_read sdk\<rparr>"

definition DVD_vtable :: "('f, 'd, 'w) dvd_sdk \<Rightarrow> ('f, 'd, 'w) dvd_state istorage" where
  "DVD_vtable sdk = \<lparr>is_fastOpen = DVD_fastOpen sdk, is_open = DVD_open sdk, is_createDir = DVD_createDir,
     is_fastOpenDir = DVD_fastOpenDir sdk, is_openDir = DVD_openDir sdk, is_stat = DVD_stat sdk,
     is_rename = DVD_rename, is_remove = DVD_remove, is_startBenchmark = DVD_startBenchmark,
     is_endBenchmark = DVD_endBenchmark, is_getMessageId = (\<lambda>s. Some DVD_getMessageId),
     if_clone = DVD_file_clone sdk, if_close = DVD_file_close sdk, if_read = DVD_file_read sdk,
     if_write = DVD_file_write, if_sync = DVD_file_sync, if_size = DVD_file_size sdk,
     id_clone = DVD_dir_clone sdk, id_close = DVD_dir_close sdk, id_read = DVD_dir_read sdk\<rparr>"

record ('a, 'b, 'c) vtables =
  vt_fat :: "'a istorage"
  vt_nand :: "'b istorage"
  vt_dvd :: "'c istorage"

text \<open>The statics of \<open>Storage.cc\<close>; the last field is \<open>FATStorage::s_storage\<close>, which outlives the object.\<close>

record ('a, 'b, 'c) stores =
  fatStorage :: "'a option"
  nandArchiveStorage :: "'b option"
  dvdStorage :: 'c
  st_s_storage :: "nat option"

section \<open>Calls through a pointer\<close>

text \<open>An empty \<open>std::optional\<close> that is dereferenced is a fault.\<close>

definition on_fat :: "('a \<Rightarrow> ('r \<times> 'a) option) \<Rightarrow> ('a, 'b, 'c) stores \<Rightarrow> ('r \<times> ('a, 'b, 'c) stores) option" where
  "on_fat f st = do { s \<leftarrow> fatStorage st; (r, s) \<leftarrow> f s; Some (r, st\<lparr>fatStorage := Some s\<rparr>) }"

definition on_nand :: "('b \<Rightarrow> ('r \<times> 'b) option) \<Rightarrow> ('a, 'b, 'c) stores \<Rightarrow> ('r \<times> ('a, 'b, 'c) stores) option" where
  "on_nand f st = do { s \<leftarrow> nandArchiveStorage st; (r, s) \<leftarrow> f s; Some (r, st\<lparr>nandArchiveStorage := Some s\<rparr>) }"

definition on_dvd :: "('c \<Rightarrow> ('r \<times> 'c) option) \<Rightarrow> ('a, 'b, 'c) stores \<Rightarrow> ('r \<times> ('a, 'b, 'c) stores) option" where
  "on_dvd f st = do { (r, s) \<leftarrow> f (dvdStorage st); Some (r, st\<lparr>dvdStorage := s\<rparr>) }"

text \<open>The three calls of a virtual function, chosen by the tag.\<close>

definition call_on ::
  "StorageType \<Rightarrow> ('a \<Rightarrow> ('r \<times> 'a) option) \<Rightarrow> ('b \<Rightarrow> ('r \<times> 'b) option) \<Rightarrow> ('c \<Rightarrow> ('r \<times> 'c) option) \<Rightarrow>
   ('a, 'b, 'c) stores \<Rightarrow> ('r \<times> ('a, 'b, 'c) stores) option" where
  "call_on t f g h = (case t of ST_FAT \<Rightarrow> on_fat f | ST_NANDArchive \<Rightarrow> on_nand g | ST_DVD \<Rightarrow> on_dvd h)"

text \<open>\<open>Dispatch\<close>: the first back end whose result is true; the last one's in any case.\<close>

definition Dispatch ::
  "('r \<Rightarrow> bool) \<Rightarrow> ('a \<Rightarrow> ('r \<times> 'a) option) \<Rightarrow> ('b \<Rightarrow> ('r \<times> 'b) option) \<Rightarrow> ('c \<Rightarrow> ('r \<times> 'c) option) \<Rightarrow>
   ('a, 'b, 'c) stores \<Rightarrow> ((StorageType \<times> 'r) \<times> ('a, 'b, 'c) stores) option" where
  "Dispatch good f g h st = do {
     (r, st) \<leftarrow> on_fat f st;
     if good r then Some ((ST_FAT, r), st)
     else do {
       (r, st) \<leftarrow> on_nand g st;
       if good r then Some ((ST_NANDArchive, r), st)
       else do { (r, st) \<leftarrow> on_dvd h st; Some ((ST_DVD, r), st) }
     }
   }"

section \<open>Handles\<close>

type_synonym handle = "StorageType \<times> nat"

text \<open>\<open>FileHandle\<close> and \<open>DirHandle\<close>: a pointer, null after a move.\<close>

type_synonym file_handle = "handle option"

definition FileHandle_new :: "handle \<Rightarrow> file_handle" where
  "FileHandle_new file = Some file"

text \<open>The move constructor gives the new handle and the old one.\<close>

definition FileHandle_move :: "file_handle \<Rightarrow> file_handle \<times> file_handle" where
  "FileHandle_move that = (that, None)"

text \<open>The move assignment does not close what \<open>this\<close> referred to.\<close>

definition FileHandle_assign :: "file_handle \<Rightarrow> file_handle \<Rightarrow> file_handle \<times> file_handle" where
  "FileHandle_assign this that = (that, None)"

definition FileHandle_close :: "('a, 'b, 'c) vtables \<Rightarrow> handle \<Rightarrow> ('a, 'b, 'c) stores \<Rightarrow> (bool \<times> ('a, 'b, 'c) stores) option" where
  "FileHandle_close vt = (\<lambda>(t, i). call_on t (if_close (vt_fat vt) i) (if_close (vt_nand vt) i) (if_close (vt_dvd vt) i))"

definition FileHandle_destroy :: "('a, 'b, 'c) vtables \<Rightarrow> file_handle \<Rightarrow> ('a, 'b, 'c) stores \<Rightarrow> ('a, 'b, 'c) stores option" where
  "FileHandle_destroy vt m_file st =
     (case m_file of None \<Rightarrow> Some st | Some h \<Rightarrow> map_option snd (FileHandle_close vt h st))"

text \<open>The tag of a clone is the tag of the original.\<close>

definition tagged :: "StorageType \<Rightarrow> nat option \<times> 's \<Rightarrow> handle option \<times> 's" where
  "tagged t = (\<lambda>(r, st). (map_option (Pair t) r, st))"

definition FileHandle_clone :: "('a, 'b, 'c) vtables \<Rightarrow> handle \<Rightarrow> ('a, 'b, 'c) stores \<Rightarrow> (file_handle \<times> ('a, 'b, 'c) stores) option" where
  "FileHandle_clone vt = (\<lambda>(t, i) st.
     map_option (tagged t) (call_on t (if_clone (vt_fat vt) i) (if_clone (vt_nand vt) i) (if_clone (vt_dvd vt) i) st))"

text \<open>\<open>read\<close> and \<open>write\<close> assert that the buffer is not null.\<close>

definition FileHandle_read ::
  "('a, 'b, 'c) vtables \<Rightarrow> u32 \<Rightarrow> u32 \<Rightarrow> u32 \<Rightarrow> handle \<Rightarrow> ('a, 'b, 'c) stores \<Rightarrow> ((bool \<times> bytes) \<times> ('a, 'b, 'c) stores) option" where
  "FileHandle_read vt dst n offset = (\<lambda>(t, i) st. do {
     ensure (dst \<noteq> 0);
     call_on t (if_read (vt_fat vt) dst n offset i) (if_read (vt_nand vt) dst n offset i) (if_read (vt_dvd vt) dst n offset i) st
   })"

definition FileHandle_write ::
  "('a, 'b, 'c) vtables \<Rightarrow> bytes \<Rightarrow> u32 \<Rightarrow> handle \<Rightarrow> ('a, 'b, 'c) stores \<Rightarrow> (bool \<times> ('a, 'b, 'c) stores) option" where
  "FileHandle_write vt src offset = (\<lambda>(t, i).
     call_on t (if_write (vt_fat vt) src offset i) (if_write (vt_nand vt) src offset i) (if_write (vt_dvd vt) src offset i))"

definition FileHandle_sync :: "('a, 'b, 'c) vtables \<Rightarrow> handle \<Rightarrow> ('a, 'b, 'c) stores \<Rightarrow> (bool \<times> ('a, 'b, 'c) stores) option" where
  "FileHandle_sync vt = (\<lambda>(t, i). call_on t (if_sync (vt_fat vt) i) (if_sync (vt_nand vt) i) (if_sync (vt_dvd vt) i))"

definition FileHandle_size :: "('a, 'b, 'c) vtables \<Rightarrow> handle \<Rightarrow> ('a, 'b, 'c) stores \<Rightarrow> u64 option" where
  "FileHandle_size vt = (\<lambda>(t, i) st. (case t of
       ST_FAT \<Rightarrow> do { s \<leftarrow> fatStorage st; if_size (vt_fat vt) i s }
     | ST_NANDArchive \<Rightarrow> do { s \<leftarrow> nandArchiveStorage st; if_size (vt_nand vt) i s }
     | ST_DVD \<Rightarrow> if_size (vt_dvd vt) i (dvdStorage st)))"

text \<open>\<open>DirHandle\<close> likewise.\<close>

definition DirHandle_close :: "('a, 'b, 'c) vtables \<Rightarrow> handle \<Rightarrow> ('a, 'b, 'c) stores \<Rightarrow> (bool \<times> ('a, 'b, 'c) stores) option" where
  "DirHandle_close vt = (\<lambda>(t, i). call_on t (id_close (vt_fat vt) i) (id_close (vt_nand vt) i) (id_close (vt_dvd vt) i))"

definition DirHandle_destroy :: "('a, 'b, 'c) vtables \<Rightarrow> file_handle \<Rightarrow> ('a, 'b, 'c) stores \<Rightarrow> ('a, 'b, 'c) stores option" where
  "DirHandle_destroy vt m_dir st =
     (case m_dir of None \<Rightarrow> Some st | Some h \<Rightarrow> map_option snd (DirHandle_close vt h st))"

definition DirHandle_clone :: "('a, 'b, 'c) vtables \<Rightarrow> handle \<Rightarrow> ('a, 'b, 'c) stores \<Rightarrow> (file_handle \<times> ('a, 'b, 'c) stores) option" where
  "DirHandle_clone vt = (\<lambda>(t, i) st.
     map_option (tagged t) (call_on t (id_clone (vt_fat vt) i) (id_clone (vt_nand vt) i) (id_clone (vt_dvd vt) i) st))"

definition DirHandle_read :: "('a, 'b, 'c) vtables \<Rightarrow> handle \<Rightarrow> ('a, 'b, 'c) stores \<Rightarrow> (node_info option \<times> ('a, 'b, 'c) stores) option" where
  "DirHandle_read vt = (\<lambda>(t, i). call_on t (id_read (vt_fat vt) i) (id_read (vt_nand vt) i) (id_read (vt_dvd vt) i))"

section \<open>The functions of the namespace\<close>

text \<open>
  \<open>Init\<close>.  \<open>emplaceFat\<close> and \<open>emplaceNand\<close> are the constructors, \<open>okFat\<close> and \<open>okNand\<close> the methods \<open>ok\<close>,
  \<open>staticFat\<close> is \<open>s_storage\<close> after the constructor.
\<close>

definition Storage_Init ::
  "(nat option \<Rightarrow> 'a option) \<Rightarrow> ('a \<Rightarrow> bool) \<Rightarrow> ('a \<Rightarrow> nat option) \<Rightarrow> 'b option \<Rightarrow> ('b \<Rightarrow> bool) \<Rightarrow>
   ('a, 'b, 'c) stores \<Rightarrow> (bool \<times> ('a, 'b, 'c) stores) option" where
  "Storage_Init emplaceFat okFat staticFat emplaceNand okNand st = do {
     st \<leftarrow> (case fatStorage st of
         None \<Rightarrow> do {
           s \<leftarrow> emplaceFat (st_s_storage st);
           Some (st\<lparr>fatStorage := Some s, st_s_storage := staticFat s\<rparr>)
         }
       | Some s \<Rightarrow> Some st);
     fat \<leftarrow> fatStorage st;
     if \<not> okFat fat then Some (False, st\<lparr>fatStorage := None\<rparr>)
     else do {
       st \<leftarrow> (case nandArchiveStorage st of
           None \<Rightarrow> do { s \<leftarrow> emplaceNand; Some (st\<lparr>nandArchiveStorage := Some s\<rparr>) }
         | Some s \<Rightarrow> Some st);
       nand \<leftarrow> nandArchiveStorage st;
       Some (True, if \<not> okNand nand then st\<lparr>nandArchiveStorage := None\<rparr> else st)
     }
   }"

text \<open>The results of an opening as a handle.\<close>

definition as_handle :: "(StorageType \<times> nat option) \<times> 's \<Rightarrow> handle option \<times> 's" where
  "as_handle = (\<lambda>((t, r), st). (map_option (Pair t) r, st))"

definition Storage_FastOpen :: "('a, 'b, 'c) vtables \<Rightarrow> node_id \<Rightarrow> ('a, 'b, 'c) stores \<Rightarrow> (file_handle \<times> ('a, 'b, 'c) stores) option" where
  "Storage_FastOpen vt i st = do {
     t \<leftarrow> nid_storage i;
     r \<leftarrow> call_on t (is_fastOpen (vt_fat vt) (nid_id i)) (is_fastOpen (vt_nand vt) (nid_id i)) (is_fastOpen (vt_dvd vt) (nid_id i)) st;
     Some (tagged t r)
   }"

definition Storage_Open :: "('a, 'b, 'c) vtables \<Rightarrow> wstr \<Rightarrow> string \<Rightarrow> ('a, 'b, 'c) stores \<Rightarrow> (file_handle \<times> ('a, 'b, 'c) stores) option" where
  "Storage_Open vt path mode st = map_option as_handle
     (Dispatch (\<lambda>r. r \<noteq> None) (is_open (vt_fat vt) path mode) (is_open (vt_nand vt) path mode) (is_open (vt_dvd vt) path mode) st)"

definition ro_path :: "bytes \<Rightarrow> wstr" where
  "ro_path path = printed 128 (if path \<noteq> [] \<and> hd path = of_char (CHR ''/'') then wide ''ro:'' @ widen path
     else ro_prefix @ widen path)"

definition Storage_OpenRO :: "('a, 'b, 'c) vtables \<Rightarrow> bytes \<Rightarrow> ('a, 'b, 'c) stores \<Rightarrow> (file_handle \<times> ('a, 'b, 'c) stores) option" where
  "Storage_OpenRO vt path = Storage_Open vt (ro_path path) ''r''"

text \<open>
  \<open>FastReadFile\<close> and \<open>ReadFile\<close> once the file is open; the handle is destroyed on every way out.
  The result has the size and the bytes written to \<open>dst\<close>.
\<close>

definition read_opened :: "('a, 'b, 'c) vtables \<Rightarrow> u32 \<Rightarrow> u32 \<Rightarrow> file_handle \<times> ('a, 'b, 'c) stores \<Rightarrow> ((u32 option \<times> bytes) \<times> ('a, 'b, 'c) stores) option" where
  "read_opened vt dst n = (\<lambda>(file, st).
     case file of None \<Rightarrow> Some ((None, []), st)
     | Some h \<Rightarrow> do {
         fsize \<leftarrow> FileHandle_size vt h st;
         let n = ucast (min (ucast n) fsize);
         ((ok, data), st) \<leftarrow> FileHandle_read vt dst n 0 h st;
         st \<leftarrow> FileHandle_destroy vt file st;
         Some ((if \<not> ok then None else Some n, data), st)
       })"

definition Storage_FastReadFile :: "('a, 'b, 'c) vtables \<Rightarrow> node_id \<Rightarrow> u32 \<Rightarrow> u32 \<Rightarrow> ('a, 'b, 'c) stores \<Rightarrow> ((u32 option \<times> bytes) \<times> ('a, 'b, 'c) stores) option" where
  "Storage_FastReadFile vt i dst n st = do { r \<leftarrow> Storage_FastOpen vt i st; read_opened vt dst n r }"

definition Storage_ReadFile :: "('a, 'b, 'c) vtables \<Rightarrow> wstr \<Rightarrow> u32 \<Rightarrow> u32 \<Rightarrow> ('a, 'b, 'c) stores \<Rightarrow> ((u32 option \<times> bytes) \<times> ('a, 'b, 'c) stores) option" where
  "Storage_ReadFile vt path dst n st = do { r \<leftarrow> Storage_Open vt path ''r'' st; read_opened vt dst n r }"

definition Storage_CreateDir :: "('a, 'b, 'c) vtables \<Rightarrow> wstr \<Rightarrow> bool \<Rightarrow> ('a, 'b, 'c) stores \<Rightarrow> (bool \<times> ('a, 'b, 'c) stores) option" where
  "Storage_CreateDir vt path allowNop st = map_option (\<lambda>((_, r), st). (r, st))
     (Dispatch id (is_createDir (vt_fat vt) path allowNop) (is_createDir (vt_nand vt) path allowNop) (is_createDir (vt_dvd vt) path allowNop) st)"

definition Storage_FastOpenDir :: "('a, 'b, 'c) vtables \<Rightarrow> node_id \<Rightarrow> ('a, 'b, 'c) stores \<Rightarrow> (file_handle \<times> ('a, 'b, 'c) stores) option" where
  "Storage_FastOpenDir vt i st = do {
     t \<leftarrow> nid_storage i;
     r \<leftarrow> call_on t (is_fastOpenDir (vt_fat vt) (nid_id i)) (is_fastOpenDir (vt_nand vt) (nid_id i)) (is_fastOpenDir (vt_dvd vt) (nid_id i)) st;
     Some (tagged t r)
   }"

definition Storage_OpenDir :: "('a, 'b, 'c) vtables \<Rightarrow> wstr \<Rightarrow> ('a, 'b, 'c) stores \<Rightarrow> (file_handle \<times> ('a, 'b, 'c) stores) option" where
  "Storage_OpenDir vt path st = map_option as_handle
     (Dispatch (\<lambda>r. r \<noteq> None) (is_openDir (vt_fat vt) path) (is_openDir (vt_nand vt) path) (is_openDir (vt_dvd vt) path) st)"

definition Storage_OpenRODir :: "('a, 'b, 'c) vtables \<Rightarrow> bytes \<Rightarrow> ('a, 'b, 'c) stores \<Rightarrow> (file_handle \<times> ('a, 'b, 'c) stores) option" where
  "Storage_OpenRODir vt path = Storage_OpenDir vt (ro_path path)"

definition Storage_Stat :: "('a, 'b, 'c) vtables \<Rightarrow> wstr \<Rightarrow> ('a, 'b, 'c) stores \<Rightarrow> (node_info option \<times> ('a, 'b, 'c) stores) option" where
  "Storage_Stat vt path st = map_option (\<lambda>((_, r), st). (r, st))
     (Dispatch (\<lambda>r. r \<noteq> None) (is_stat (vt_fat vt) path) (is_stat (vt_nand vt) path) (is_stat (vt_dvd vt) path) st)"

definition Storage_Rename :: "('a, 'b, 'c) vtables \<Rightarrow> wstr \<Rightarrow> wstr \<Rightarrow> ('a, 'b, 'c) stores \<Rightarrow> (bool \<times> ('a, 'b, 'c) stores) option" where
  "Storage_Rename vt srcPath dstPath st = map_option (\<lambda>((_, r), st). (r, st))
     (Dispatch id (is_rename (vt_fat vt) srcPath dstPath) (is_rename (vt_nand vt) srcPath dstPath) (is_rename (vt_dvd vt) srcPath dstPath) st)"

definition Storage_Remove :: "('a, 'b, 'c) vtables \<Rightarrow> wstr \<Rightarrow> bool \<Rightarrow> ('a, 'b, 'c) stores \<Rightarrow> (bool \<times> ('a, 'b, 'c) stores) option" where
  "Storage_Remove vt path allowNop st = map_option (\<lambda>((_, r), st). (r, st))
     (Dispatch id (is_remove (vt_fat vt) path allowNop) (is_remove (vt_nand vt) path allowNop) (is_remove (vt_dvd vt) path allowNop) st)"

text \<open>
  \<open>WriteFile\<close>: with \<open>overwrite\<close> the data goes to \<open>path.new\<close>; the old file becomes \<open>path.old\<close> before
  the new one takes its name.  A failure of the first rename and of the last removal is ignored.
\<close>

definition write_opened :: "('a, 'b, 'c) vtables \<Rightarrow> bytes \<Rightarrow> file_handle \<times> ('a, 'b, 'c) stores \<Rightarrow> (bool \<times> ('a, 'b, 'c) stores) option" where
  "write_opened vt src = (\<lambda>(file, st).
     case file of None \<Rightarrow> Some (False, st)
     | Some h \<Rightarrow> do {
         (ok, st) \<leftarrow> FileHandle_write vt src 0 h st;
         st \<leftarrow> FileHandle_destroy vt file st;
         Some (ok, st)
       })"

definition new_path :: "wstr \<Rightarrow> wstr" where
  "new_path path = printed 256 (path @ wide ''.new'')"

definition old_path :: "wstr \<Rightarrow> wstr" where
  "old_path path = printed 256 (path @ wide ''.old'')"

definition replace_file :: "('a, 'b, 'c) vtables \<Rightarrow> wstr \<Rightarrow> ('a, 'b, 'c) stores \<Rightarrow> (bool \<times> ('a, 'b, 'c) stores) option" where
  "replace_file vt path st = do {
     (removed, st) \<leftarrow> Storage_Remove vt (old_path path) True st;
     if \<not> removed then Some (False, st)
     else do {
       (_, st) \<leftarrow> Storage_Rename vt path (old_path path) st;
       (renamed, st) \<leftarrow> Storage_Rename vt (new_path path) path st;
       if \<not> renamed then Some (False, st)
       else do {
         (_, st) \<leftarrow> Storage_Remove vt (old_path path) True st;
         Some (True, st)
       }
     }
   }"

definition Storage_WriteFile :: "('a, 'b, 'c) vtables \<Rightarrow> wstr \<Rightarrow> bytes \<Rightarrow> bool \<Rightarrow> ('a, 'b, 'c) stores \<Rightarrow> (bool \<times> ('a, 'b, 'c) stores) option" where
  "Storage_WriteFile vt path src overwrite st =
     (if overwrite then do {
        r \<leftarrow> Storage_Open vt (new_path path) ''w'' st;
        (written, st) \<leftarrow> write_opened vt src r;
        if \<not> written then Some (False, st) else replace_file vt path st
      } else do {
        r \<leftarrow> Storage_Open vt path ''wx'' st;
        write_opened vt src r
      })"

text \<open>\<open>GetStorage\<close> never returns null for a valid type; \<open>&*\<close> of an empty optional is a fault.\<close>

definition Storage_GetMessageId :: "('a, 'b, 'c) vtables \<Rightarrow> StorageType \<Rightarrow> ('a, 'b, 'c) stores \<Rightarrow> u32 option" where
  "Storage_GetMessageId vt t st = (case t of
       ST_FAT \<Rightarrow> do { s \<leftarrow> fatStorage st; is_getMessageId (vt_fat vt) s }
     | ST_NANDArchive \<Rightarrow> do { s \<leftarrow> nandArchiveStorage st; is_getMessageId (vt_nand vt) s }
     | ST_DVD \<Rightarrow> is_getMessageId (vt_dvd vt) (dvdStorage st))"

end
