(* ===== verification/Stream_Decoder.thy ===== *)
theory Stream_Decoder
  imports Prelude
begin

text \<open>
  The interface \<open>Decoder\<close> of \<open>payload/sp/Decoder.hh\<close>, as its byte-driven implementations
  realise it.  A decoder is a state machine: \<open>process\<close> makes one step on the source bytes from an
  offset, \<open>loop\<close> is the loop of \<open>decode\<close>, which stops when the destination is full, when the source
  is exhausted while the next step needs a byte (\<open>starving\<close>), or when a step fails.

  The laws of the locale are local facts about single steps.  From them follow once and for all
  that \<open>decode\<close> returns and never faults, and that the way the source is cut into chunks does
  not matter.
\<close>

locale stream_decoder =
  fixes process :: "bytes \<Rightarrow> nat \<Rightarrow> 'd \<Rightarrow> (bool \<times> nat \<times> 'd) option"
    and loop :: "bytes \<Rightarrow> nat \<Rightarrow> 'd \<Rightarrow> (bool \<times> 'd) option"
    and filled :: "'d \<Rightarrow> bool"
    and idle :: "'d \<Rightarrow> bool"
    and starving :: "'d \<Rightarrow> bool"
    and mark_bad :: "'d \<Rightarrow> 'd"
    and invar :: "'d \<Rightarrow> bool"
    and rank :: "'d \<Rightarrow> nat"
  assumes loop_unfold: "loop src off d =
      (if filled d then Some (if idle d then (True, d) else (False, mark_bad d))
       else if off = length src \<and> starving d then Some (True, d)
       else case process src off d of
              None \<Rightarrow> None
            | Some (True, off', d') \<Rightarrow> loop src off' d'
            | Some (False, off', d') \<Rightarrow> Some (False, mark_bad d'))"
    and process_append: "process src off d = Some r \<Longrightarrow> process (src @ more) off d = Some r"
    and process_shift: "process (pre @ src) (length pre + off) d =
      map_option (\<lambda>(r, o', d'). (r, length pre + o', d')) (process src off d)"
    and process_total: "invar d \<Longrightarrow> \<not> filled d \<Longrightarrow> off \<le> length src \<Longrightarrow>
      \<not> (off = length src \<and> starving d) \<Longrightarrow>
      \<exists>r off' d'. process src off d = Some (r, off', d') \<and> off \<le> off' \<and> off' \<le> length src \<and>
        (r \<longrightarrow> invar d')"
    and process_rank: "process src off d = Some (True, off', d') \<Longrightarrow>
      2 * (length src - off') + rank d' < 2 * (length src - off) + rank d"
begin

text \<open>One iteration of the loop, by what it does.\<close>

lemma loop_filled: "filled d \<Longrightarrow> loop src off d = Some (if idle d then (True, d) else (False, mark_bad d))"
  by (subst loop_unfold) simp

lemma loop_starved: "\<not> filled d \<Longrightarrow> off = length src \<Longrightarrow> starving d \<Longrightarrow> loop src off d = Some (True, d)"
  by (subst loop_unfold) simp

lemma loop_step:
  "\<not> filled d \<Longrightarrow> \<not> (off = length src \<and> starving d) \<Longrightarrow> process src off d = Some (True, off', d') \<Longrightarrow>
   loop src off d = loop src off' d'"
  by (subst loop_unfold) auto

lemma loop_fail:
  "\<not> filled d \<Longrightarrow> \<not> (off = length src \<and> starving d) \<Longrightarrow> process src off d = Some (False, off', d') \<Longrightarrow>
   loop src off d = Some (False, mark_bad d')"
  by (subst loop_unfold) auto

text \<open>The measure of the loop.\<close>

definition todo :: "bytes \<Rightarrow> nat \<Rightarrow> 'd \<Rightarrow> nat" where
  "todo src off d = 2 * (length src - off) + rank d"

text \<open>Termination and absence of faults, with the state the loop stops in.\<close>

lemma loop_total:
  "invar d \<Longrightarrow> off \<le> length src \<Longrightarrow>
   \<exists>r d'. loop src off d = Some (r, d') \<and>
     (r \<longrightarrow> invar d' \<and> (filled d' \<and> idle d' \<or> \<not> filled d' \<and> starving d'))"
proof (induction "todo src off d" arbitrary: off d rule: less_induct)
  case less
  show ?case
  proof (cases "filled d \<or> off = length src \<and> starving d")
    case True
    then show ?thesis using less.prems by (subst (1) loop_unfold) auto
  next
    case False
    then obtain r off' d' where step: "process src off d = Some (r, off', d')"
      "off' \<le> length src" "r \<longrightarrow> invar d'"
      using process_total [OF less.prems(1) _ less.prems(2)] by blast
    show ?thesis
    proof (cases r)
      case True
      with step have "loop src off d = loop src off' d'"
        using False by (intro loop_step) auto
      moreover have "todo src off' d' < todo src off d"
        using process_rank [of src off d off' d'] step True by (simp add: todo_def)
      ultimately show ?thesis using less.hyps [of off' d'] step True by simp
    next
      case False
      with step \<open>\<not> (filled d \<or> off = length src \<and> starving d)\<close> show ?thesis
        by (auto simp: loop_fail)
    qed
  qed
qed

lemma loop_shift: "loop (pre @ src) (length pre + off) d = loop src off d"
proof (induction "todo src off d" arbitrary: off d rule: less_induct)
  case less
  show ?case
  proof (cases "process src off d")
    case None
    then show ?thesis
      by (subst (1 2) loop_unfold) (simp add: process_shift)
  next
    case (Some t)
    then obtain r off' d' where step: "process src off d = Some (r, off', d')"
      by (cases t) auto
    have rec: "loop (pre @ src) (length pre + off') d' = loop src off' d'" if r
      using less process_rank [of src off d off' d'] step that by (simp add: todo_def)
    show ?thesis
      by (subst (1 2) loop_unfold) (use step rec in \<open>auto simp: process_shift split: bool.splits\<close>)
  qed
qed

lemma loop_eat:
  "\<not> filled d \<Longrightarrow> process (b # rest) 0 d = Some (True, 1, d') \<Longrightarrow> loop (b # rest) 0 d = loop rest 0 d'"
  using loop_step [of d 0 "b # rest" 1 d'] loop_shift [of "[b]" rest 0 d'] by simp

text \<open>Decoding a concatenation is decoding its first part and going on with the second one.\<close>

lemma loop_append:
  assumes "invar d" and "off \<le> length xs"
  shows "loop (xs @ ys) off d =
    (case loop xs off d of
       Some (True, d1) \<Rightarrow> if filled d1 then Some (True, d1) else loop ys 0 d1
     | other \<Rightarrow> other)"
  using assms
proof (induction "todo xs off d" arbitrary: off d rule: less_induct)
  case less
  consider (full) "filled d" | (starved) "\<not> filled d" "off = length xs" "starving d"
    | (go) "\<not> filled d" "\<not> (off = length xs \<and> starving d)" by blast
  then show ?case
  proof cases
    case full
    then show ?thesis by (subst (1 2) loop_unfold) simp
  next
    case starved
    then have "loop (xs @ ys) off d = loop ys 0 d" using loop_shift [of xs ys 0 d] by simp
    moreover have "loop xs off d = Some (True, d)" using starved by (subst loop_unfold) simp
    ultimately show ?thesis using starved by simp
  next
    case go
    obtain r off' d' where step: "process xs off d = Some (r, off', d')"
      "off' \<le> length xs" "r \<longrightarrow> invar d'"
      using process_total [OF less.prems(1) _ less.prems(2)] go by blast
    have step2: "process (xs @ ys) off d = Some (r, off', d')"
      using process_append step(1) by blast
    have nofin: "\<not> (off = length (xs @ ys) \<and> starving d)" using go less.prems by auto
    show ?thesis
    proof (cases r)
      case True
      have "loop (xs @ ys) off d = loop (xs @ ys) off' d'"
        using go nofin step2 True by (intro loop_step) auto
      moreover have "loop xs off d = loop xs off' d'"
        using go step True by (intro loop_step) auto
      moreover have "todo xs off' d' < todo xs off d"
        using process_rank [of xs off d off' d'] step True by (simp add: todo_def)
      ultimately show ?thesis using less.hyps [of off' d'] step True by simp
    next
      case False
      have "loop (xs @ ys) off d = Some (False, mark_bad d')"
        using go nofin step2 False by (intro loop_fail) auto
      moreover have "loop xs off d = Some (False, mark_bad d')"
        using go step False by (intro loop_fail) auto
      ultimately show ?thesis by simp
    qed
  qed
qed

text \<open>
  A client that hands over a list of chunks and stops at the first failure or when the
  destination is full.
\<close>

primrec feed :: "bytes list \<Rightarrow> 'd \<Rightarrow> (bool \<times> 'd) option" where
  "feed [] d = Some (True, d)"
| "feed (c # cs) d =
     (case loop c 0 d of
        Some (True, d1) \<Rightarrow> if filled d1 then Some (True, d1) else feed cs d1
      | other \<Rightarrow> other)"

lemma feed_concat:
  "invar d \<Longrightarrow> \<not> filled d \<Longrightarrow> cs \<noteq> [] \<Longrightarrow> feed cs d = loop (concat cs) 0 d"
proof (induction cs arbitrary: d)
  case Nil
  then show ?case by simp
next
  case (Cons c cs)
  obtain r d1 where r: "loop c 0 d = Some (r, d1)"
    "r \<longrightarrow> invar d1 \<and> (filled d1 \<and> idle d1 \<or> \<not> filled d1 \<and> starving d1)"
    using loop_total [of d 0 c] Cons.prems by auto
  show ?case
  proof (cases "cs = []")
    case True
    then show ?thesis using r by (auto split: bool.splits)
  next
    case False
    then show ?thesis
      using loop_append [of d 0 c "concat cs"] Cons.prems Cons.IH [of d1] r
      by (auto split: bool.splits)
  qed
qed

end

end
