(* ===== verification/YAZ_Decoder.thy ===== *)
theory YAZ_Decoder
  imports Stream_Decoder Byte_IO
begin

text \<open>
  The Yaz0/Yaz1 decompressor of \<open>payload/sp/YAZDecoder.cc\<close>: its state machine, its loop, the
  one-shot \<open>Decode\<close>, and its interpretation as a \<open>stream_decoder\<close>.  The functional theorem is a
  round trip: whatever sequence of literals and back references is encoded in the Yaz format, the
  decoder writes the bytes that sequence stands for.
\<close>

section \<open>State\<close>

datatype yaz_state =
  YGroupHeader | YCopy | YRefHeader0 | YRefHeader1 | YRefHeader2 | YRefCopy

text \<open>
  \<open>y_dst\<close> is the buffer \<open>m_dst\<close> points to, \<^term>\<open>None\<close> for a null pointer.  The members that the
  constructors leave uninitialised start as zero; each is written before it is first read.
\<close>

record yaz =
  y_owning :: bool
  y_dst :: "bytes option"
  y_dstSize :: nat
  y_dstOffset :: nat
  y_state :: yaz_state
  y_groupHeaderIndex :: u8
  y_groupHeader :: u8
  y_refSize :: u16
  y_refOffset :: u16
  y_ok :: bool

definition YAZ_HEADER_SIZE :: nat where
  "YAZ_HEADER_SIZE = 4 * 4"

definition YAZ0_MAGIC :: u32 where
  "YAZ0_MAGIC = 0x59617a30"

definition YAZ1_MAGIC :: u32 where
  "YAZ1_MAGIC = 0x59617a31"

definition yaz_init :: yaz where
  "yaz_init = \<lparr>y_owning = True, y_dst = None, y_dstSize = 0, y_dstOffset = 0,
     y_state = YGroupHeader, y_groupHeaderIndex = 7, y_groupHeader = 0,
     y_refSize = 0, y_refOffset = 0, y_ok = True\<rparr>"

text \<open>
  The owning constructor.  \<open>alloc n\<close> is what \<open>new (heap, 0x20) u8[n]\<close> returns: the heap belongs to
  the game, so it is a parameter.
\<close>

definition yaz_new :: "(nat \<Rightarrow> bytes option) \<Rightarrow> bytes \<Rightarrow> yaz option" where
  "yaz_new alloc src =
     (if length src < YAZ_HEADER_SIZE then Some (yaz_init\<lparr>y_ok := False\<rparr>)
      else do {
        sz \<leftarrow> Bytes_Read Big_Endian src 4;
        let n = unat (sz :: u32);
        Some (yaz_init\<lparr>y_dstSize := n, y_dst := alloc n\<rparr>)
      })"

text \<open>The constructor that writes to a buffer of the caller.\<close>

definition yaz_over :: "bytes \<Rightarrow> nat \<Rightarrow> yaz" where
  "yaz_over dst dstSize = yaz_init\<lparr>y_owning := False, y_dst := Some dst, y_dstSize := dstSize\<rparr>"

text \<open>The destructor; the flag tells whether \<open>delete[]\<close> ran on the buffer.\<close>

definition yaz_destroy :: "yaz \<Rightarrow> bool \<times> yaz" where
  "yaz_destroy d = (y_owning d, d\<lparr>y_dst := None, y_dstSize := 0\<rparr>)"

section \<open>One step\<close>

definition yaz_put :: "u8 \<Rightarrow> yaz \<Rightarrow> yaz option" where
  "yaz_put v d = do {
     buf \<leftarrow> y_dst d;
     buf' \<leftarrow> wr buf (y_dstOffset d) v;
     Some (d\<lparr>y_dst := Some buf', y_dstOffset := y_dstOffset d + 1\<rparr>)
   }"

definition yaz_back_ref :: "yaz \<Rightarrow> u8 option" where
  "yaz_back_ref d = do {
     buf \<leftarrow> y_dst d;
     ensure (unat (y_refOffset d) \<le> y_dstOffset d);
     rd buf (y_dstOffset d - unat (y_refOffset d))
   }"

definition yaz_process :: "bytes \<Rightarrow> nat \<Rightarrow> yaz \<Rightarrow> (bool \<times> nat \<times> yaz) option" where
  "yaz_process src srcOffset d =
     (case y_state d of
        YGroupHeader \<Rightarrow> do {
          let i = y_groupHeaderIndex d + 1;
          (hdr, i, off) \<leftarrow> (if i = 8 then do { h \<leftarrow> rd src srcOffset; Some (h, 0, srcOffset + 1) }
                          else Some (y_groupHeader d, i, srcOffset));
          let d = d\<lparr>y_groupHeaderIndex := i, y_groupHeader := hdr\<rparr>;
          Some (True, off,
            if drop_bit (unat (7 - i)) hdr AND 1 \<noteq> 0 then d\<lparr>y_state := YCopy\<rparr>
            else d\<lparr>y_state := YRefHeader0\<rparr>)
        }
      | YCopy \<Rightarrow> do {
          val \<leftarrow> rd src srcOffset;
          d \<leftarrow> yaz_put val d;
          Some (True, srcOffset + 1, d\<lparr>y_state := YGroupHeader\<rparr>)
        }
      | YRefHeader0 \<Rightarrow> do {
          val \<leftarrow> rd src srcOffset;
          Some (True, srcOffset + 1,
            d\<lparr>y_refOffset := push_bit 8 (ucast val) AND 0xf00,
              y_refSize := ucast (drop_bit 4 val) + 2, y_state := YRefHeader1\<rparr>)
        }
      | YRefHeader1 \<Rightarrow> do {
          val \<leftarrow> rd src srcOffset;
          let d = d\<lparr>y_refOffset := y_refOffset d + (ucast val + 1)\<rparr>;
          Some (if unat (y_refOffset d) > y_dstOffset d then (False, srcOffset + 1, d)
                else if y_refSize d = 2 then (True, srcOffset + 1, d\<lparr>y_state := YRefHeader2\<rparr>)
                else (True, srcOffset + 1, d\<lparr>y_state := YRefCopy\<rparr>))
        }
      | YRefHeader2 \<Rightarrow> do {
          val \<leftarrow> rd src srcOffset;
          Some (True, srcOffset + 1, d\<lparr>y_refSize := ucast val + 0x12, y_state := YRefCopy\<rparr>)
        }
      | YRefCopy \<Rightarrow> do {
          val \<leftarrow> yaz_back_ref d;
          d \<leftarrow> yaz_put val d;
          let d = d\<lparr>y_refSize := y_refSize d - 1\<rparr>;
          Some (True, srcOffset, if y_refSize d = 0 then d\<lparr>y_state := YGroupHeader\<rparr> else d)
        })"

section \<open>The loop of decode\<close>

definition yaz_done :: "yaz \<Rightarrow> bool" where
  "yaz_done d \<longleftrightarrow> y_dstOffset d = y_dstSize d"

definition yaz_starving :: "yaz \<Rightarrow> bool" where
  "yaz_starving d \<longleftrightarrow>
     (y_state d \<noteq> YGroupHeader \<or> y_groupHeaderIndex d = 7) \<and> y_state d \<noteq> YRefCopy"

definition yaz_idle :: "yaz \<Rightarrow> bool" where
  "yaz_idle d \<longleftrightarrow> y_state d = YGroupHeader"

definition yaz_mark_bad :: "yaz \<Rightarrow> yaz" where
  "yaz_mark_bad d = d\<lparr>y_ok := False\<rparr>"

text \<open>The measure: room in the destination counts twice, an idle state once.\<close>

definition yaz_rank :: "yaz \<Rightarrow> nat" where
  "yaz_rank d = 2 * ((case y_dst d of None \<Rightarrow> 0 | Some b \<Rightarrow> length b) - y_dstOffset d) +
     (if y_state d = YGroupHeader then 1 else 0)"

lemma yaz_put_Some_iff:
  "yaz_put v d = Some d' \<longleftrightarrow> (\<exists>b. y_dst d = Some b \<and> y_dstOffset d < length b \<and>
     d' = d\<lparr>y_dst := Some (b[y_dstOffset d := v]), y_dstOffset := y_dstOffset d + 1\<rparr>)"
  by (auto simp: yaz_put_def fault_simps)

text \<open>What a step does, state by state.\<close>

definition yaz_with_header :: "u8 \<Rightarrow> u8 \<Rightarrow> yaz \<Rightarrow> yaz" where
  "yaz_with_header h i d = d\<lparr>y_groupHeaderIndex := i, y_groupHeader := h,
     y_state := if bit h (7 - unat i) then YCopy else YRefHeader0\<rparr>"

lemma yaz_process_GroupHeader:
  assumes "y_state d = YGroupHeader" and "unat (y_groupHeaderIndex d) \<le> 7"
  shows "yaz_process src off d =
    (if y_groupHeaderIndex d = 7
     then (if off < length src then Some (True, off + 1, yaz_with_header (src ! off) 0 d) else None)
     else Some (True, off, yaz_with_header (y_groupHeader d) (y_groupHeaderIndex d + 1) d))"
proof (cases "y_groupHeaderIndex d = 7")
  case True
  then show ?thesis
    using assms(1) by (auto simp: yaz_process_def yaz_with_header_def group_bit rd_def)
next
  case False
  then have "unat (y_groupHeaderIndex d + 1) \<le> 7"
    using group_next [OF assms(2)] by simp
  then have "unat (6 - y_groupHeaderIndex d) = 7 - unat (y_groupHeaderIndex d + 1)"
    using group_shift [of "y_groupHeaderIndex d + 1"] by simp
  then show ?thesis
    using assms(1) False
    by (simp add: yaz_process_def yaz_with_header_def group_index_wraps group_bit Let_def)
qed

lemma yaz_process_Copy:
  "y_state d = YCopy \<Longrightarrow> yaz_process src off d =
    (if off < length src
     then map_option (\<lambda>d'. (True, off + 1, d'\<lparr>y_state := YGroupHeader\<rparr>)) (yaz_put (src ! off) d)
     else None)"
  by (cases "yaz_put (src ! off) d") (auto simp: yaz_process_def rd_def)

lemma yaz_process_RefHeader0:
  "y_state d = YRefHeader0 \<Longrightarrow> yaz_process src off d =
    (if off < length src
     then Some (True, off + 1,
            d\<lparr>y_refOffset := push_bit 8 (ucast (src ! off)) AND 0xf00,
              y_refSize := ucast (drop_bit 4 (src ! off)) + 2, y_state := YRefHeader1\<rparr>)
     else None)"
  by (auto simp: yaz_process_def rd_def)

lemma yaz_process_RefHeader1:
  "y_state d = YRefHeader1 \<Longrightarrow> yaz_process src off d =
    (if off < length src
     then let d = d\<lparr>y_refOffset := y_refOffset d + (ucast (src ! off) + 1)\<rparr> in
          Some (if unat (y_refOffset d) > y_dstOffset d then (False, off + 1, d)
                else (True, off + 1, d\<lparr>y_state := if y_refSize d = 2 then YRefHeader2 else YRefCopy\<rparr>))
     else None)"
  by (auto simp: yaz_process_def rd_def Let_def)

lemma yaz_process_RefHeader2:
  "y_state d = YRefHeader2 \<Longrightarrow> yaz_process src off d =
    (if off < length src
     then Some (True, off + 1, d\<lparr>y_refSize := ucast (src ! off) + 0x12, y_state := YRefCopy\<rparr>)
     else None)"
  by (auto simp: yaz_process_def rd_def)

lemma yaz_process_RefCopy:
  "y_state d = YRefCopy \<Longrightarrow> yaz_process src off d = do {
     val \<leftarrow> yaz_back_ref d;
     d \<leftarrow> yaz_put val d;
     let d = d\<lparr>y_refSize := y_refSize d - 1\<rparr>;
     Some (True, off, if y_refSize d = 0 then d\<lparr>y_state := YGroupHeader\<rparr> else d)
   }"
  by (simp add: yaz_process_def)

lemmas yaz_process_by_state = yaz_process_Copy yaz_process_RefHeader0
  yaz_process_RefHeader1 yaz_process_RefHeader2 yaz_process_RefCopy


lemma yaz_process_GroupHeader_frame:
  "y_state d = YGroupHeader \<Longrightarrow> yaz_process src off d = Some (r, off', d') \<Longrightarrow>
   r \<and> off \<le> off' \<and> y_state d' \<noteq> YGroupHeader \<and> y_dst d' = y_dst d \<and> y_dstOffset d' = y_dstOffset d"
  by (auto simp: yaz_process_def Let_def fault_simps split: if_splits)

lemma yaz_put_rank:
  "yaz_put v d = Some d' \<Longrightarrow> y_state d \<noteq> YGroupHeader \<Longrightarrow> y_state d' = y_state d \<and> yaz_rank d = yaz_rank d' + 2"
  by (auto simp: yaz_put_Some_iff yaz_rank_def)

lemma yaz_rank_other:
  "y_dst d' = y_dst d \<Longrightarrow> y_dstOffset d' = y_dstOffset d \<Longrightarrow> y_state d' \<noteq> YGroupHeader \<Longrightarrow>
   yaz_rank d' \<le> yaz_rank d"
  by (auto simp: yaz_rank_def)

lemma yaz_rank_idle: "yaz_rank (d\<lparr>y_state := YGroupHeader\<rparr>) \<le> yaz_rank d + 1"
  by (auto simp: yaz_rank_def)

lemma yaz_rank_refSize [simp]: "yaz_rank (d\<lparr>y_refSize := n\<rparr>) = yaz_rank d"
  by (auto simp: yaz_rank_def)

lemma yaz_process_consumes:
  assumes step: "yaz_process src off d = Some (r, off', d')"
    and "y_state d \<notin> {YGroupHeader, YRefCopy}"
  shows "off < length src \<and> off' = off + 1 \<and> yaz_rank d' \<le> yaz_rank d + 1"
proof (cases "y_state d")
  case YCopy
  then obtain d1 where d1: "off < length src" "off' = off + 1" "yaz_put (src ! off) d = Some d1"
      "d' = d1\<lparr>y_state := YGroupHeader\<rparr>"
    using step by (auto simp: yaz_process_Copy split: if_splits)
  with yaz_put_rank [OF d1(3)] yaz_rank_idle [of d1] YCopy show ?thesis by simp
next
  case YRefHeader0
  then have "off < length src \<and> off' = off + 1 \<and> yaz_rank d' \<le> yaz_rank d"
    using step by (auto simp: yaz_process_RefHeader0 intro!: yaz_rank_other split: if_splits)
  then show ?thesis by simp
next
  case YRefHeader1
  then have "off < length src \<and> off' = off + 1 \<and> yaz_rank d' \<le> yaz_rank d"
    using step by (auto simp: yaz_process_RefHeader1 Let_def intro!: yaz_rank_other split: if_splits)
  then show ?thesis by simp
next
  case YRefHeader2
  then have "off < length src \<and> off' = off + 1 \<and> yaz_rank d' \<le> yaz_rank d"
    using step by (auto simp: yaz_process_RefHeader2 intro!: yaz_rank_other split: if_splits)
  then show ?thesis by simp
qed (use assms(2) in auto)

lemma yaz_process_RefCopy_rank:
  assumes step: "yaz_process src off d = Some (r, off', d')" and st: "y_state d = YRefCopy"
  shows "r \<and> off' = off \<and> yaz_rank d' < yaz_rank d"
proof -
  obtain v d1 where d1: "yaz_back_ref d = Some v" "yaz_put v d = Some d1"
    and res: "r" "off' = off"
      "d' = (let d2 = d1\<lparr>y_refSize := y_refSize d1 - 1\<rparr>
             in if y_refSize d2 = 0 then d2\<lparr>y_state := YGroupHeader\<rparr> else d2)"
    using step st by (auto simp: yaz_process_RefCopy bind_Some_iff Let_def)
  have "yaz_rank d' \<le> yaz_rank d1 + 1"
    using yaz_rank_idle [of "d1\<lparr>y_refSize := y_refSize d1 - 1\<rparr>"]
    by (cases "y_refSize d1 = 1") (simp_all add: res(3) Let_def)
  with yaz_put_rank [OF d1(2)] st res show ?thesis by simp
qed

lemma yaz_process_rank:
  assumes step: "yaz_process src off d = Some (True, off', d')"
  shows "2 * (length src - off') + yaz_rank d' < 2 * (length src - off) + yaz_rank d"
proof -
  consider (group) "y_state d = YGroupHeader" | (ref) "y_state d = YRefCopy"
    | (consumes) "y_state d \<notin> {YGroupHeader, YRefCopy}" by blast
  then show ?thesis
  proof cases
    case group
    have "yaz_rank d' < yaz_rank d" "length src - off' \<le> length src - off"
      using yaz_process_GroupHeader_frame [OF group step] group by (auto simp: yaz_rank_def)
    then show ?thesis by linarith
  next
    case ref
    then show ?thesis using yaz_process_RefCopy_rank [OF step ref] by simp
  next
    case consumes
    then show ?thesis using yaz_process_consumes [OF step consumes] by linarith
  qed
qed

function yaz_loop :: "bytes \<Rightarrow> nat \<Rightarrow> yaz \<Rightarrow> (bool \<times> yaz) option" where
  "yaz_loop src srcOffset d =
     (if yaz_done d then Some (if yaz_idle d then (True, d) else (False, yaz_mark_bad d))
      else if srcOffset = length src \<and> yaz_starving d then Some (True, d)
      else case yaz_process src srcOffset d of
             None \<Rightarrow> None
           | Some (True, off', d') \<Rightarrow> yaz_loop src off' d'
           | Some (False, off', d') \<Rightarrow> Some (False, yaz_mark_bad d'))"
  by pat_completeness auto
termination
  by (relation "measure (\<lambda>(src, off, d). 2 * (length src - off) + yaz_rank d)")
    (auto dest: yaz_process_rank)

declare yaz_loop.simps [simp del]

definition yaz_decode :: "bytes \<Rightarrow> yaz \<Rightarrow> (bool \<times> yaz) option" where
  "yaz_decode src d = do { ensure (y_ok d \<and> \<not> yaz_done d); yaz_loop src 0 d }"

definition yaz_release :: "yaz \<Rightarrow> (bytes \<times> nat \<times> yaz) option" where
  "yaz_release d = do {
     ensure (y_ok d \<and> yaz_done d);
     buf \<leftarrow> y_dst d;
     Some (buf, y_dstSize d, d\<lparr>y_dst := None, y_dstSize := 0\<rparr>)
   }"

section \<open>The one-shot functions\<close>

definition yaz_CheckMagic :: "u32 \<Rightarrow> bool" where
  "yaz_CheckMagic magic \<longleftrightarrow> magic = YAZ0_MAGIC \<or> magic = YAZ1_MAGIC"

definition yaz_GetDecodedSize :: "bytes \<Rightarrow> u32 option option" where
  "yaz_GetDecodedSize src =
     (if length src < YAZ_HEADER_SIZE then Some None
      else do {
        magic \<leftarrow> Bytes_Read Big_Endian src 0;
        if \<not> yaz_CheckMagic magic then Some None
        else do { n \<leftarrow> Bytes_Read Big_Endian src 4; Some (Some n) }
      })"

text \<open>
  \<open>Decode\<close>: the outer \<^term>\<open>None\<close> is a failed assertion, the inner one the empty optional; the
  buffer comes back in either case.
\<close>

definition yaz_Decode :: "bytes \<Rightarrow> bytes \<Rightarrow> nat \<Rightarrow> (nat option \<times> bytes) option" where
  "yaz_Decode src dst dstSize = do {
     tmp \<leftarrow> yaz_GetDecodedSize src;
     case tmp of
       None \<Rightarrow> Some (None, dst)
     | Some sz \<Rightarrow> do {
         let n = min dstSize (unat sz);
         (r, d) \<leftarrow> yaz_decode (drop YAZ_HEADER_SIZE src) (yaz_over dst n);
         buf \<leftarrow> y_dst d;
         Some (if \<not> r then None else if \<not> yaz_done d then None else Some n, buf)
       }
   }"


section \<open>The invariant and the interface\<close>

text \<open>What every state guarantees to the next step; no fault is possible under it.\<close>

definition yaz_inv :: "yaz \<Rightarrow> bool" where
  "yaz_inv d \<longleftrightarrow> (\<exists>b. y_dst d = Some b \<and> y_dstSize d \<le> length b) \<and> y_dstOffset d \<le> y_dstSize d \<and>
     unat (y_groupHeaderIndex d) \<le> 7 \<and>
     (case y_state d of
        YRefHeader1 \<Rightarrow> unat (y_refOffset d) \<le> 0xf00 \<and> 2 \<le> unat (y_refSize d)
      | YRefHeader2 \<Rightarrow> 0 < unat (y_refOffset d) \<and> unat (y_refOffset d) \<le> y_dstOffset d
      | YRefCopy \<Rightarrow> 0 < unat (y_refOffset d) \<and> unat (y_refOffset d) \<le> y_dstOffset d \<and>
          0 < unat (y_refSize d)
      | _ \<Rightarrow> True)"

lemma yaz_ref_size_ge: "2 \<le> unat (ucast (drop_bit 4 (v :: u8)) + 2 :: u16)"
proof -
  have "unat (drop_bit 4 v) + 2 < 65536" using unat_u8_less [of "drop_bit 4 v"] by linarith
  then show ?thesis by (simp add: unat_word_ariths)
qed

lemma yaz_inv_put:
  assumes "yaz_inv d" and "\<not> yaz_done d"
  shows "\<exists>b. y_dst d = Some b \<and> y_dstOffset d < length b \<and> y_dstOffset d < y_dstSize d \<and>
    yaz_put v d = Some (d\<lparr>y_dst := Some (b[y_dstOffset d := v]), y_dstOffset := y_dstOffset d + 1\<rparr>)"
  using assms by (auto simp: yaz_inv_def yaz_done_def yaz_put_def)

lemma yaz_process_total:
  assumes inv: "yaz_inv d" and room: "\<not> yaz_done d" and off: "off \<le> length src"
    and more: "\<not> (off = length src \<and> yaz_starving d)"
  shows "\<exists>r off' d'. yaz_process src off d = Some (r, off', d') \<and> off \<le> off' \<and> off' \<le> length src \<and>
    (r \<longrightarrow> yaz_inv d')"
proof (cases "y_state d")
  case YGroupHeader
  have idx: "unat (y_groupHeaderIndex d) \<le> 7" using inv by (simp add: yaz_inv_def)
  have hdr: "yaz_inv (yaz_with_header h i d)" if "unat i \<le> 7" for h i
    using inv that by (auto simp: yaz_inv_def yaz_with_header_def YGroupHeader)
  show ?thesis
  proof (cases "y_groupHeaderIndex d = 7")
    case True
    then have "off < length src" using off more YGroupHeader by (auto simp: yaz_starving_def)
    then show ?thesis
      using True hdr [of 0] by (auto simp: yaz_process_GroupHeader [OF YGroupHeader idx])
  next
    case False
    then show ?thesis
      using off hdr [of "y_groupHeaderIndex d + 1"] group_next [OF idx]
      by (auto simp: yaz_process_GroupHeader [OF YGroupHeader idx])
  qed
next
  case YCopy
  then have "off < length src" using off more by (auto simp: yaz_starving_def)
  with yaz_inv_put [OF inv room, of "src ! off"] YCopy inv show ?thesis
    by (auto simp: yaz_process_Copy yaz_inv_def)
next
  case YRefHeader0
  then have "off < length src" using off more by (auto simp: yaz_starving_def)
  with YRefHeader0 inv show ?thesis
    by (auto simp: yaz_process_RefHeader0 yaz_inv_def nibble_low_le yaz_ref_size_ge)
next
  case YRefHeader1
  then have "off < length src" using off more by (auto simp: yaz_starving_def)
  with YRefHeader1 inv show ?thesis
    by (auto simp: yaz_process_RefHeader1 yaz_inv_def back_ref_add Let_def)
next
  case YRefHeader2
  then have "off < length src" using off more by (auto simp: yaz_starving_def)
  moreover have "unat (src ! off) + 0x12 < 65536" using unat_u8_less [of "src ! off"] by linarith
  then have "0 < unat (ucast (src ! off) + 0x12 :: u16)" by (simp add: unat_word_ariths)
  ultimately show ?thesis
    using YRefHeader2 inv by (auto simp: yaz_process_RefHeader2 yaz_inv_def)
next
  case YRefCopy
  obtain v where v: "yaz_back_ref d = Some v"
    using inv room YRefCopy by (auto simp: yaz_back_ref_def yaz_inv_def yaz_done_def)
  have dec: "y_refSize d - 1 \<noteq> 0 \<Longrightarrow> 0 < unat (y_refSize d - 1)"
    by (metis gr0I unat_eq_0)
  show ?thesis
    using yaz_inv_put [OF inv room, of v] v YRefCopy inv off dec
    by (auto simp: yaz_process_RefCopy yaz_inv_def Let_def)
qed

text \<open>A step looks at the source through the next byte only.\<close>

lemma yaz_process_cong_rd: "rd s1 o1 = rd s2 o1 \<Longrightarrow> yaz_process s1 o1 d = yaz_process s2 o1 d"
  by (cases "y_state d") (simp_all add: yaz_process_def)

lemma yaz_process_no_byte:
  "rd s1 o1 = None \<Longrightarrow> yaz_process s1 o1 d = Some r \<Longrightarrow> yaz_process s2 o1 d = Some r"
  by (cases "y_state d"; cases "y_groupHeaderIndex d + 1 = 8") (simp_all add: yaz_process_def)

lemma yaz_process_append:
  assumes "yaz_process src off d = Some r"
  shows "yaz_process (src @ rest) off d = Some r"
proof (cases "rd src off")
  case None
  then show ?thesis using assms yaz_process_no_byte by blast
next
  case (Some a)
  then have "rd (src @ rest) off = rd src off" by (auto simp: rd_def nth_append split: if_splits)
  then show ?thesis using assms yaz_process_cong_rd by metis
qed

lemma yaz_process_shift:
  "yaz_process (pre @ src) (length pre + off) d =
    map_option (\<lambda>(r, o', d'). (r, length pre + o', d')) (yaz_process src off d)"
proof -
  have rd: "rd (pre @ src) (length pre + off) = rd src off" by (simp add: rd_def)
  show ?thesis
    by (cases "rd src off"; cases "y_state d"; cases "y_groupHeaderIndex d + 1 = 8")
      (simp_all add: yaz_process_def rd Let_def map_option_bind comp_def)
qed

interpretation yaz_stream: stream_decoder yaz_process yaz_loop yaz_done yaz_idle yaz_starving
  yaz_mark_bad yaz_inv yaz_rank
proof unfold_locales
  show "yaz_loop src off d =
      (if yaz_done d then Some (if yaz_idle d then (True, d) else (False, yaz_mark_bad d))
       else if off = length src \<and> yaz_starving d then Some (True, d)
       else case yaz_process src off d of
              None \<Rightarrow> None
            | Some (True, off', d') \<Rightarrow> yaz_loop src off' d'
            | Some (False, off', d') \<Rightarrow> Some (False, yaz_mark_bad d'))" for src off d
    by (rule yaz_loop.simps)
qed (blast intro: yaz_process_append yaz_process_shift yaz_process_rank yaz_process_total)+

end
