(* ===== verification/LZ_Format.thy ===== *)
theory LZ_Format
  imports Stream_Decoder
begin

text \<open>
  The sliding-window formats that the decoders of \<open>payload/sp\<close> read, as a specification: a file is
  a sequence of tokens, a literal byte or a reference to bytes already written, cut into groups of
  eight with a flag byte in front of each group.  \<open>expand\<close> gives the bytes a token sequence stands
  for and \<open>encode\<close> lays the tokens out.  The locale \<open>lz_format\<close> extends \<open>stream_decoder\<close> by what a
  decoder does on one token; it proves that decoding an encoding gives the expansion.
\<close>

section \<open>Tokens and what they stand for\<close>

datatype token = Lit u8 | Ref (dist: nat) (len: nat)

fun copy_back :: "nat \<Rightarrow> nat \<Rightarrow> bytes \<Rightarrow> bytes" where
  "copy_back k 0 out = out"
| "copy_back k (Suc n) out = copy_back k n (out @ [out ! (length out - k)])"

fun expand_tok :: "bytes \<Rightarrow> token \<Rightarrow> bytes" where
  "expand_tok out (Lit b) = out @ [b]"
| "expand_tok out (Ref k n) = copy_back k n out"

definition expand :: "bytes \<Rightarrow> token list \<Rightarrow> bytes" where
  "expand = foldl expand_tok"

text \<open>A reference reaches back to bytes that exist.\<close>

fun tok_reach :: "bytes \<Rightarrow> token \<Rightarrow> bool" where
  "tok_reach out (Lit b) = True"
| "tok_reach out (Ref k n) = (0 < k \<and> k \<le> length out \<and> 0 < n)"

fun reachable_toks :: "bytes \<Rightarrow> token list \<Rightarrow> bool" where
  "reachable_toks out [] = True"
| "reachable_toks out (t # ts) = (tok_reach out t \<and> reachable_toks (expand_tok out t) ts)"

fun is_lit :: "token \<Rightarrow> bool" where
  "is_lit (Lit b) = True"
| "is_lit (Ref k n) = False"

lemma length_copy_back [simp]: "length (copy_back k n out) = length out + n"
  by (induction k n out rule: copy_back.induct) auto

lemma expand_tok_grows: "tok_reach out t \<Longrightarrow> length out < length (expand_tok out t)"
  by (cases t) auto

lemma expand_simps [simp]: "expand out [] = out" "expand out (t # ts) = expand (expand_tok out t) ts"
  by (simp_all add: expand_def)

lemma expand_append: "expand out (ts @ us) = expand (expand out ts) us"
  by (simp add: expand_def)

lemma reachable_toks_append:
  "reachable_toks out (ts @ us) \<longleftrightarrow> reachable_toks out ts \<and> reachable_toks (expand out ts) us"
  by (induction ts arbitrary: out) auto

lemma expand_length: "reachable_toks out ts \<Longrightarrow> length out + length ts \<le> length (expand out ts)"
proof (induction ts arbitrary: out)
  case Nil
  then show ?case by simp
next
  case (Cons t ts)
  then have "length out < length (expand_tok out t)" by (intro expand_tok_grows) simp
  moreover have "length (expand_tok out t) + length ts \<le> length (expand (expand_tok out t) ts)"
    using Cons.prems by (intro Cons.IH) simp
  ultimately show ?case by simp
qed

section \<open>Groups of eight tokens\<close>

primrec flag_bits :: "nat \<Rightarrow> bool list \<Rightarrow> u8" where
  "flag_bits i [] = 0"
| "flag_bits i (f # fs) = (if f then push_bit (7 - i) 1 else 0) OR flag_bits (i + 1) fs"

lemma bit_flag_bits:
  "i + length fs \<le> 8 \<Longrightarrow> k \<le> 7 \<Longrightarrow>
   bit (flag_bits i fs) (7 - k) \<longleftrightarrow> i \<le> k \<and> k - i < length fs \<and> fs ! (k - i)"
proof (induction fs arbitrary: i)
  case Nil
  then show ?case by simp
next
  case (Cons f fs)
  have "bit (push_bit (7 - i) (1 :: u8)) (7 - k) \<longleftrightarrow> k = i"
    using Cons.prems by (auto simp: bit_simps)
  then show ?case
    using Cons.IH [of "i + 1"] Cons.prems
    by (cases "k = i") (auto simp: bit_or_iff nth_Cons' Suc_le_eq)
qed

fun encode :: "(token \<Rightarrow> bool) \<Rightarrow> (token \<Rightarrow> bytes) \<Rightarrow> token list \<Rightarrow> bytes" where
  "encode flag tok_bytes ts =
     (if ts = [] then []
      else flag_bits 0 (map flag (take 8 ts)) # concat (map tok_bytes (take 8 ts)) @
           encode flag tok_bytes (drop 8 ts))"

declare encode.simps [simp del]

section \<open>A decoder of such a format\<close>

text \<open>
  \<open>ready i h out N d\<close>: between two tokens, \<open>i\<close> tokens of the group with flags \<open>h\<close> are consumed
  (\<open>i = 8\<close>: the next byte is a flag byte), \<open>out\<close> has been written of \<open>N\<close> bytes.
  \<open>inside i h out N d\<close>: at token \<open>i\<close> of the group.
\<close>

locale lz_format = stream_decoder process loop filled idle starving mark_bad invar rank
  for process :: "bytes \<Rightarrow> nat \<Rightarrow> 'd \<Rightarrow> (bool \<times> nat \<times> 'd) option"
    and loop :: "bytes \<Rightarrow> nat \<Rightarrow> 'd \<Rightarrow> (bool \<times> 'd) option"
    and filled idle starving :: "'d \<Rightarrow> bool"
    and mark_bad :: "'d \<Rightarrow> 'd"
    and invar :: "'d \<Rightarrow> bool"
    and rank :: "'d \<Rightarrow> nat" +
  fixes ready inside :: "nat \<Rightarrow> u8 \<Rightarrow> bytes \<Rightarrow> nat \<Rightarrow> 'd \<Rightarrow> bool"
    and flag :: "token \<Rightarrow> bool"
    and tok_ok :: "token \<Rightarrow> bool"
    and tok_bytes :: "token \<Rightarrow> bytes"
  assumes ready_stop: "ready i h out N d \<Longrightarrow> idle d \<and> (filled d \<longleftrightarrow> length out = N)"
    and read_flags: "ready 8 h out N d \<Longrightarrow> length out < N \<Longrightarrow>
      \<exists>d'. inside 0 h' out N d' \<and> (\<forall>rest. loop (h' # rest) 0 d = loop rest 0 d')"
    and next_token: "ready i h out N d \<Longrightarrow> 0 < i \<Longrightarrow> i < 8 \<Longrightarrow> length out < N \<Longrightarrow>
      \<exists>d'. inside i h out N d' \<and> (\<forall>src. loop src 0 d = loop src 0 d')"
    and read_token: "inside i h out N d \<Longrightarrow> i < 8 \<Longrightarrow> bit h (7 - i) = flag t \<Longrightarrow> tok_ok t \<Longrightarrow>
      tok_reach out t \<Longrightarrow> length (expand_tok out t) \<le> N \<Longrightarrow>
      \<exists>d'. ready (i + 1) h (expand_tok out t) N d' \<and>
        (\<forall>rest. loop (tok_bytes t @ rest) 0 d = loop rest 0 d')"
begin

text \<open>The tokens of one group.\<close>

lemma group_tokens:
  "inside i h out N d \<Longrightarrow> ts \<noteq> [] \<Longrightarrow> i + length ts \<le> 8 \<Longrightarrow>
   (\<forall>k < length ts. bit h (7 - (i + k)) = flag (ts ! k)) \<Longrightarrow> (\<forall>t \<in> set ts. tok_ok t) \<Longrightarrow>
   reachable_toks out ts \<Longrightarrow> length (expand out ts) \<le> N \<Longrightarrow>
   \<exists>d'. ready (i + length ts) h (expand out ts) N d' \<and>
     (\<forall>rest. loop (concat (map tok_bytes ts) @ rest) 0 d = loop rest 0 d')"
proof (induction ts arbitrary: i out d)
  case Nil
  then show ?case by simp
next
  case (Cons t ts)
  let ?out = "expand_tok out t"
  have len: "length ?out + length ts \<le> length (expand ?out ts)"
    using Cons.prems(6) by (intro expand_length) simp
  then have "length ?out \<le> N" using Cons.prems(7) by simp
  then obtain d1 where d1: "ready (i + 1) h ?out N d1"
    "\<forall>rest. loop (tok_bytes t @ rest) 0 d = loop rest 0 d1"
    using read_token [OF Cons.prems(1), of t] Cons.prems Cons.prems(4) [rule_format, of 0] by auto
  show ?case
  proof (cases "ts = []")
    case True
    then show ?thesis using d1 by auto
  next
    case False
    then have "length ?out < N" using len Cons.prems(7) by (cases ts) auto
    then obtain d2 where d2: "inside (i + 1) h ?out N d2" "\<forall>src. loop src 0 d1 = loop src 0 d2"
      using next_token [OF d1(1)] Cons.prems(3) False by (cases ts) auto
    have flags: "\<forall>k < length ts. bit h (7 - (i + 1 + k)) = flag (ts ! k)"
    proof (intro allI impI)
      fix k assume "k < length ts"
      then show "bit h (7 - (i + 1 + k)) = flag (ts ! k)"
        using Cons.prems(4) [rule_format, of "Suc k"] by simp
    qed
    have "\<exists>d'. ready (i + 1 + length ts) h (expand ?out ts) N d' \<and>
        (\<forall>rest. loop (concat (map tok_bytes ts) @ rest) 0 d2 = loop rest 0 d')"
      using Cons.prems by (intro Cons.IH d2(1) False flags) auto
    then obtain d' where "ready (i + 1 + length ts) h (expand ?out ts) N d'"
      "\<forall>rest. loop (concat (map tok_bytes ts) @ rest) 0 d2 = loop rest 0 d'" by blast
    then show ?thesis using d1(2) d2(2) by (intro exI [of _ d']) simp
  qed
qed

text \<open>A whole file: the loop ends with the expansion written, whatever follows in the source.\<close>

lemma decode_encode:
  "ready 8 h out N d \<Longrightarrow> (\<forall>t \<in> set ts. tok_ok t) \<Longrightarrow> reachable_toks out ts \<Longrightarrow>
   length (expand out ts) = N \<Longrightarrow>
   \<exists>d' i h'. loop (encode flag tok_bytes ts @ rest) 0 d = Some (True, d') \<and> ready i h' (expand out ts) N d'"
proof (induction "length ts" arbitrary: ts h out d rule: less_induct)
  case less
  show ?case
  proof (cases "ts = []")
    case True
    then have "filled d" "idle d" using ready_stop [OF less.prems(1)] less.prems(4) by auto
    then show ?thesis
      using True less.prems(1) by (auto simp: encode.simps loop_filled)
  next
    case False
    let ?g = "take 8 ts" and ?r = "drop 8 ts"
    let ?flags = "flag_bits 0 (map flag ?g)"
    have split: "expand out ts = expand (expand out ?g) ?r"
      "reachable_toks out ?g" "reachable_toks (expand out ?g) ?r"
      using expand_append [of out ?g ?r] reachable_toks_append [of out ?g ?r] less.prems(3) by auto
    have "length out < N" using expand_length [OF less.prems(3)] less.prems(4) False by (cases ts) auto
    then obtain d1 where d1: "inside 0 ?flags out N d1"
      "\<forall>rest. loop (?flags # rest) 0 d = loop rest 0 d1"
      using read_flags [OF less.prems(1)] by blast
    have bits: "\<forall>k < length ?g. bit ?flags (7 - (0 + k)) = flag (?g ! k)"
    proof (intro allI impI)
      fix k assume "k < length ?g"
      then show "bit ?flags (7 - (0 + k)) = flag (?g ! k)"
        using bit_flag_bits [of 0 "map flag ?g" k] by auto
    qed
    have "length (expand out ?g) \<le> N"
      using expand_length [OF split(3)] split(1) less.prems(4) by simp
    then obtain d2 where d2: "ready (0 + length ?g) ?flags (expand out ?g) N d2"
      "\<forall>rest. loop (concat (map tok_bytes ?g) @ rest) 0 d1 = loop rest 0 d2"
      using group_tokens [OF d1(1), of ?g] False bits split(2) less.prems(2)
      by (auto dest: in_set_takeD)
    have run: "loop (encode flag tok_bytes ts @ rest) 0 d = loop (encode flag tok_bytes ?r @ rest) 0 d2"
      using d1(2) d2(2) False by (subst encode.simps) simp
    show ?thesis
    proof (cases "?r = []")
      case True
      then have whole: "expand out ts = expand out ?g" by simp
      then have "filled d2" "idle d2"
        using ready_stop [OF d2(1)] less.prems(4) by simp_all
      then have "loop (encode flag tok_bytes ?r @ rest) 0 d2 = Some (True, d2)"
        by (simp add: loop_filled)
      then show ?thesis using run d2(1) whole by (simp only:) blast
    next
      case False
      then have "ready 8 ?flags (expand out ?g) N d2" using d2(1) by (simp add: min_def)
      moreover have "\<forall>t \<in> set ?r. tok_ok t" using less.prems(2) by (auto dest: in_set_dropD)
      moreover have "length ?r < length ts" using \<open>ts \<noteq> []\<close> by (cases ts) auto
      moreover have "length (expand (expand out ?g) ?r) = N" using split(1) less.prems(4) by metis
      ultimately have "\<exists>d' i h'. loop (encode flag tok_bytes ?r @ rest) 0 d2 = Some (True, d') \<and>
          ready i h' (expand (expand out ?g) ?r) N d'"
        using split(3) by (intro less.hyps)
      then show ?thesis by (simp only: run split(1))
    qed
  qed
qed

end

end
