(* ===== verification/LZ77_Decoder.thy ===== *)
theory LZ77_Decoder
  imports LZ_Format Byte_IO
begin

text \<open>
  The LZ77 decompressor of \<open>payload/sp/LZ77Decoder.cc\<close>: the same class of state machine as the Yaz
  one, with the flags inverted, two header layouts and no long references; its interpretation as
  \<open>stream_decoder\<close> and \<open>lz_format\<close>, and the round trip.
\<close>

section \<open>State\<close>

datatype lz77_state =
  LGroupHeader | LCopy | LRefHeader0 | LRefHeader1 | LRefCopy

text \<open>
  \<open>l_dst\<close> is the buffer \<open>m_dst\<close> points to, \<^term>\<open>None\<close> for a null pointer.  The members without
  an initialiser start as zero; each is written before it is first read.
\<close>

record lz77 =
  l_headerSize :: nat
  l_dst :: "bytes option"
  l_dstSize :: nat
  l_dstOffset :: nat
  l_state :: lz77_state
  l_groupHeaderIndex :: u8
  l_groupHeader :: u8
  l_refSize :: u16
  l_refOffset :: u16
  l_ok :: bool

definition lz77_init :: lz77 where
  "lz77_init = \<lparr>l_headerSize = 0, l_dst = None, l_dstSize = 0, l_dstOffset = 0,
     l_state = LGroupHeader, l_groupHeaderIndex = 7, l_groupHeader = 0,
     l_refSize = 0, l_refOffset = 0, l_ok = True\<rparr>"

text \<open>
  The constructor.  \<open>alloc n\<close> is what \<open>new (heap, 0x20) u8[n]\<close> returns: the heap belongs to the
  game, so it is a parameter.
\<close>

definition lz77_new :: "(nat \<Rightarrow> bytes option) \<Rightarrow> bytes \<Rightarrow> lz77 option" where
  "lz77_new alloc src =
     (if length src < 4 then Some (lz77_init\<lparr>l_ok := False\<rparr>)
      else do {
        w \<leftarrow> Bytes_Read Little_Endian src 0;
        let n = unat (drop_bit 8 (w :: u32));
        if n = 0 then
          if length src < 8 then Some (lz77_init\<lparr>l_ok := False\<rparr>)
          else do {
            w' \<leftarrow> Bytes_Read Little_Endian src 4;
            let m = unat (w' :: u32);
            Some (lz77_init\<lparr>l_headerSize := 8, l_dstSize := m, l_dst := alloc m\<rparr>)
          }
        else Some (lz77_init\<lparr>l_headerSize := 4, l_dstSize := n, l_dst := alloc n\<rparr>)
      })"

text \<open>The destructor.\<close>

definition lz77_destroy :: "lz77 \<Rightarrow> lz77" where
  "lz77_destroy d = d\<lparr>l_dst := None, l_dstSize := 0\<rparr>"

section \<open>One step\<close>

definition lz77_put :: "u8 \<Rightarrow> lz77 \<Rightarrow> lz77 option" where
  "lz77_put v d = do {
     buf \<leftarrow> l_dst d;
     buf' \<leftarrow> wr buf (l_dstOffset d) v;
     Some (d\<lparr>l_dst := Some buf', l_dstOffset := l_dstOffset d + 1\<rparr>)
   }"

definition lz77_back_ref :: "lz77 \<Rightarrow> u8 option" where
  "lz77_back_ref d = do {
     buf \<leftarrow> l_dst d;
     ensure (unat (l_refOffset d) \<le> l_dstOffset d);
     rd buf (l_dstOffset d - unat (l_refOffset d))
   }"

definition lz77_process :: "bytes \<Rightarrow> nat \<Rightarrow> lz77 \<Rightarrow> (bool \<times> nat \<times> lz77) option" where
  "lz77_process src srcOffset d =
     (case l_state d of
        LGroupHeader \<Rightarrow> do {
          let i = l_groupHeaderIndex d + 1;
          (hdr, i, off) \<leftarrow> (if i = 8 then do { h \<leftarrow> rd src srcOffset; Some (h, 0, srcOffset + 1) }
                          else Some (l_groupHeader d, i, srcOffset));
          let d = d\<lparr>l_groupHeaderIndex := i, l_groupHeader := hdr\<rparr>;
          Some (True, off,
            if drop_bit (unat (7 - i)) hdr AND 1 \<noteq> 0 then d\<lparr>l_state := LRefHeader0\<rparr>
            else d\<lparr>l_state := LCopy\<rparr>)
        }
      | LCopy \<Rightarrow> do {
          val \<leftarrow> rd src srcOffset;
          d \<leftarrow> lz77_put val d;
          Some (True, srcOffset + 1, d\<lparr>l_state := LGroupHeader\<rparr>)
        }
      | LRefHeader0 \<Rightarrow> do {
          val \<leftarrow> rd src srcOffset;
          Some (True, srcOffset + 1,
            d\<lparr>l_refOffset := push_bit 8 (ucast val) AND 0xf00,
              l_refSize := ucast (drop_bit 4 val) + 3, l_state := LRefHeader1\<rparr>)
        }
      | LRefHeader1 \<Rightarrow> do {
          val \<leftarrow> rd src srcOffset;
          let d = d\<lparr>l_refOffset := l_refOffset d + (ucast val + 1)\<rparr>;
          Some (if unat (l_refOffset d) > l_dstOffset d then (False, srcOffset + 1, d)
                else (True, srcOffset + 1, d\<lparr>l_state := LRefCopy\<rparr>))
        }
      | LRefCopy \<Rightarrow> do {
          val \<leftarrow> lz77_back_ref d;
          d \<leftarrow> lz77_put val d;
          let d = d\<lparr>l_refSize := l_refSize d - 1\<rparr>;
          Some (True, srcOffset, if l_refSize d = 0 then d\<lparr>l_state := LGroupHeader\<rparr> else d)
        })"

section \<open>The loop of decode\<close>

definition lz77_done :: "lz77 \<Rightarrow> bool" where
  "lz77_done d \<longleftrightarrow> l_dstOffset d = l_dstSize d"

definition lz77_starving :: "lz77 \<Rightarrow> bool" where
  "lz77_starving d \<longleftrightarrow>
     (l_state d \<noteq> LGroupHeader \<or> l_groupHeaderIndex d = 7) \<and> l_state d \<noteq> LRefCopy"

definition lz77_idle :: "lz77 \<Rightarrow> bool" where
  "lz77_idle d \<longleftrightarrow> l_state d = LGroupHeader"

definition lz77_mark_bad :: "lz77 \<Rightarrow> lz77" where
  "lz77_mark_bad d = d\<lparr>l_ok := False\<rparr>"

text \<open>The measure: room in the destination counts twice, an idle state once.\<close>

definition lz77_rank :: "lz77 \<Rightarrow> nat" where
  "lz77_rank d = 2 * ((case l_dst d of None \<Rightarrow> 0 | Some b \<Rightarrow> length b) - l_dstOffset d) +
     (if l_state d = LGroupHeader then 1 else 0)"

lemma lz77_put_Some_iff:
  "lz77_put v d = Some d' \<longleftrightarrow> (\<exists>b. l_dst d = Some b \<and> l_dstOffset d < length b \<and>
     d' = d\<lparr>l_dst := Some (b[l_dstOffset d := v]), l_dstOffset := l_dstOffset d + 1\<rparr>)"
  by (auto simp: lz77_put_def fault_simps)

text \<open>What a step does, state by state.\<close>

definition lz77_with_header :: "u8 \<Rightarrow> u8 \<Rightarrow> lz77 \<Rightarrow> lz77" where
  "lz77_with_header h i d = d\<lparr>l_groupHeaderIndex := i, l_groupHeader := h,
     l_state := if bit h (7 - unat i) then LRefHeader0 else LCopy\<rparr>"

lemma lz77_process_GroupHeader:
  assumes "l_state d = LGroupHeader" and "unat (l_groupHeaderIndex d) \<le> 7"
  shows "lz77_process src off d =
    (if l_groupHeaderIndex d = 7
     then (if off < length src then Some (True, off + 1, lz77_with_header (src ! off) 0 d) else None)
     else Some (True, off, lz77_with_header (l_groupHeader d) (l_groupHeaderIndex d + 1) d))"
proof (cases "l_groupHeaderIndex d = 7")
  case True
  then show ?thesis
    using assms(1) by (auto simp: lz77_process_def lz77_with_header_def group_bit rd_def)
next
  case False
  then have "unat (l_groupHeaderIndex d + 1) \<le> 7"
    using group_next [OF assms(2)] by simp
  then have "unat (6 - l_groupHeaderIndex d) = 7 - unat (l_groupHeaderIndex d + 1)"
    using group_shift [of "l_groupHeaderIndex d + 1"] by simp
  then show ?thesis
    using assms(1) False
    by (simp add: lz77_process_def lz77_with_header_def group_index_wraps group_bit Let_def)
qed

lemma lz77_process_Copy:
  "l_state d = LCopy \<Longrightarrow> lz77_process src off d =
    (if off < length src
     then map_option (\<lambda>d'. (True, off + 1, d'\<lparr>l_state := LGroupHeader\<rparr>)) (lz77_put (src ! off) d)
     else None)"
  by (cases "lz77_put (src ! off) d") (auto simp: lz77_process_def rd_def)

lemma lz77_process_RefHeader0:
  "l_state d = LRefHeader0 \<Longrightarrow> lz77_process src off d =
    (if off < length src
     then Some (True, off + 1,
            d\<lparr>l_refOffset := push_bit 8 (ucast (src ! off)) AND 0xf00,
              l_refSize := ucast (drop_bit 4 (src ! off)) + 3, l_state := LRefHeader1\<rparr>)
     else None)"
  by (auto simp: lz77_process_def rd_def)

lemma lz77_process_RefHeader1:
  "l_state d = LRefHeader1 \<Longrightarrow> lz77_process src off d =
    (if off < length src
     then let d = d\<lparr>l_refOffset := l_refOffset d + (ucast (src ! off) + 1)\<rparr> in
          Some (if unat (l_refOffset d) > l_dstOffset d then (False, off + 1, d)
                else (True, off + 1, d\<lparr>l_state := LRefCopy\<rparr>))
     else None)"
  by (auto simp: lz77_process_def rd_def Let_def)

lemma lz77_process_RefCopy:
  "l_state d = LRefCopy \<Longrightarrow> lz77_process src off d = do {
     val \<leftarrow> lz77_back_ref d;
     d \<leftarrow> lz77_put val d;
     let d = d\<lparr>l_refSize := l_refSize d - 1\<rparr>;
     Some (True, off, if l_refSize d = 0 then d\<lparr>l_state := LGroupHeader\<rparr> else d)
   }"
  by (simp add: lz77_process_def)

lemmas lz77_process_by_state = lz77_process_Copy lz77_process_RefHeader0
  lz77_process_RefHeader1 lz77_process_RefCopy


lemma lz77_process_GroupHeader_frame:
  "l_state d = LGroupHeader \<Longrightarrow> lz77_process src off d = Some (r, off', d') \<Longrightarrow>
   r \<and> off \<le> off' \<and> l_state d' \<noteq> LGroupHeader \<and> l_dst d' = l_dst d \<and> l_dstOffset d' = l_dstOffset d"
  by (auto simp: lz77_process_def Let_def fault_simps split: if_splits)

lemma lz77_put_rank:
  "lz77_put v d = Some d' \<Longrightarrow> l_state d \<noteq> LGroupHeader \<Longrightarrow> l_state d' = l_state d \<and> lz77_rank d = lz77_rank d' + 2"
  by (auto simp: lz77_put_Some_iff lz77_rank_def)

lemma lz77_rank_other:
  "l_dst d' = l_dst d \<Longrightarrow> l_dstOffset d' = l_dstOffset d \<Longrightarrow> l_state d' \<noteq> LGroupHeader \<Longrightarrow>
   lz77_rank d' \<le> lz77_rank d"
  by (auto simp: lz77_rank_def)

lemma lz77_rank_idle: "lz77_rank (d\<lparr>l_state := LGroupHeader\<rparr>) \<le> lz77_rank d + 1"
  by (auto simp: lz77_rank_def)

lemma lz77_rank_refSize [simp]: "lz77_rank (d\<lparr>l_refSize := n\<rparr>) = lz77_rank d"
  by (auto simp: lz77_rank_def)

lemma lz77_process_consumes:
  assumes step: "lz77_process src off d = Some (r, off', d')"
    and "l_state d \<notin> {LGroupHeader, LRefCopy}"
  shows "off < length src \<and> off' = off + 1 \<and> lz77_rank d' \<le> lz77_rank d + 1"
proof (cases "l_state d")
  case LCopy
  then obtain d1 where d1: "off < length src" "off' = off + 1" "lz77_put (src ! off) d = Some d1"
      "d' = d1\<lparr>l_state := LGroupHeader\<rparr>"
    using step by (auto simp: lz77_process_Copy split: if_splits)
  with lz77_put_rank [OF d1(3)] lz77_rank_idle [of d1] LCopy show ?thesis by simp
next
  case LRefHeader0
  then have "off < length src \<and> off' = off + 1 \<and> lz77_rank d' \<le> lz77_rank d"
    using step by (auto simp: lz77_process_RefHeader0 intro!: lz77_rank_other split: if_splits)
  then show ?thesis by simp
next
  case LRefHeader1
  then have "off < length src \<and> off' = off + 1 \<and> lz77_rank d' \<le> lz77_rank d"
    using step by (auto simp: lz77_process_RefHeader1 Let_def intro!: lz77_rank_other split: if_splits)
  then show ?thesis by simp
qed (use assms(2) in auto)

lemma lz77_process_RefCopy_rank:
  assumes step: "lz77_process src off d = Some (r, off', d')" and st: "l_state d = LRefCopy"
  shows "r \<and> off' = off \<and> lz77_rank d' < lz77_rank d"
proof -
  obtain v d1 where d1: "lz77_back_ref d = Some v" "lz77_put v d = Some d1"
    and res: "r" "off' = off"
      "d' = (let d2 = d1\<lparr>l_refSize := l_refSize d1 - 1\<rparr>
             in if l_refSize d2 = 0 then d2\<lparr>l_state := LGroupHeader\<rparr> else d2)"
    using step st by (auto simp: lz77_process_RefCopy bind_Some_iff Let_def)
  have "lz77_rank d' \<le> lz77_rank d1 + 1"
    using lz77_rank_idle [of "d1\<lparr>l_refSize := l_refSize d1 - 1\<rparr>"]
    by (cases "l_refSize d1 = 1") (simp_all add: res(3) Let_def)
  with lz77_put_rank [OF d1(2)] st res show ?thesis by simp
qed

lemma lz77_process_rank:
  assumes step: "lz77_process src off d = Some (True, off', d')"
  shows "2 * (length src - off') + lz77_rank d' < 2 * (length src - off) + lz77_rank d"
proof -
  consider (group) "l_state d = LGroupHeader" | (ref) "l_state d = LRefCopy"
    | (consumes) "l_state d \<notin> {LGroupHeader, LRefCopy}" by blast
  then show ?thesis
  proof cases
    case group
    have "lz77_rank d' < lz77_rank d" "length src - off' \<le> length src - off"
      using lz77_process_GroupHeader_frame [OF group step] group by (auto simp: lz77_rank_def)
    then show ?thesis by linarith
  next
    case ref
    then show ?thesis using lz77_process_RefCopy_rank [OF step ref] by simp
  next
    case consumes
    then show ?thesis using lz77_process_consumes [OF step consumes] by linarith
  qed
qed

function lz77_loop :: "bytes \<Rightarrow> nat \<Rightarrow> lz77 \<Rightarrow> (bool \<times> lz77) option" where
  "lz77_loop src srcOffset d =
     (if lz77_done d then Some (if lz77_idle d then (True, d) else (False, lz77_mark_bad d))
      else if srcOffset = length src \<and> lz77_starving d then Some (True, d)
      else case lz77_process src srcOffset d of
             None \<Rightarrow> None
           | Some (True, off', d') \<Rightarrow> lz77_loop src off' d'
           | Some (False, off', d') \<Rightarrow> Some (False, lz77_mark_bad d'))"
  by pat_completeness auto
termination
  by (relation "measure (\<lambda>(src, off, d). 2 * (length src - off) + lz77_rank d)")
    (auto dest: lz77_process_rank)

declare lz77_loop.simps [simp del]

definition lz77_decode :: "bytes \<Rightarrow> lz77 \<Rightarrow> (bool \<times> lz77) option" where
  "lz77_decode src d = do { ensure (l_ok d \<and> \<not> lz77_done d); lz77_loop src 0 d }"

definition lz77_release :: "lz77 \<Rightarrow> (bytes \<times> nat \<times> lz77) option" where
  "lz77_release d = do {
     ensure (l_ok d \<and> lz77_done d \<and> l_dst d \<noteq> None);
     buf \<leftarrow> l_dst d;
     Some (buf, l_dstSize d, d\<lparr>l_dst := None, l_dstSize := 0\<rparr>)
   }"

definition lz77_CheckMagic :: "u32 \<Rightarrow> bool" where
  "lz77_CheckMagic magic \<longleftrightarrow> magic AND 0xff = 0x10"

section \<open>The invariant and the interface\<close>

text \<open>What every state guarantees to the next step; no fault is possible under it.\<close>

definition lz77_inv :: "lz77 \<Rightarrow> bool" where
  "lz77_inv d \<longleftrightarrow> (\<exists>b. l_dst d = Some b \<and> l_dstSize d \<le> length b) \<and> l_dstOffset d \<le> l_dstSize d \<and>
     unat (l_groupHeaderIndex d) \<le> 7 \<and>
     (case l_state d of
        LRefHeader1 \<Rightarrow> unat (l_refOffset d) \<le> 0xf00 \<and> 3 \<le> unat (l_refSize d)
      | LRefCopy \<Rightarrow> 0 < unat (l_refOffset d) \<and> unat (l_refOffset d) \<le> l_dstOffset d \<and>
          0 < unat (l_refSize d)
      | _ \<Rightarrow> True)"

lemma lz77_ref_size_ge: "3 \<le> unat (ucast (drop_bit 4 (v :: u8)) + 3 :: u16)"
proof -
  have "unat (drop_bit 4 v) + 3 < 65536" using unat_u8_less [of "drop_bit 4 v"] by linarith
  then show ?thesis by (simp add: unat_word_ariths)
qed

lemma lz77_inv_put:
  assumes "lz77_inv d" and "\<not> lz77_done d"
  shows "\<exists>b. l_dst d = Some b \<and> l_dstOffset d < length b \<and> l_dstOffset d < l_dstSize d \<and>
    lz77_put v d = Some (d\<lparr>l_dst := Some (b[l_dstOffset d := v]), l_dstOffset := l_dstOffset d + 1\<rparr>)"
  using assms by (auto simp: lz77_inv_def lz77_done_def lz77_put_def)

lemma lz77_process_total:
  assumes inv: "lz77_inv d" and room: "\<not> lz77_done d" and off: "off \<le> length src"
    and more: "\<not> (off = length src \<and> lz77_starving d)"
  shows "\<exists>r off' d'. lz77_process src off d = Some (r, off', d') \<and> off \<le> off' \<and> off' \<le> length src \<and>
    (r \<longrightarrow> lz77_inv d')"
proof (cases "l_state d")
  case LGroupHeader
  have idx: "unat (l_groupHeaderIndex d) \<le> 7" using inv by (simp add: lz77_inv_def)
  have hdr: "lz77_inv (lz77_with_header h i d)" if "unat i \<le> 7" for h i
    using inv that by (auto simp: lz77_inv_def lz77_with_header_def LGroupHeader)
  show ?thesis
  proof (cases "l_groupHeaderIndex d = 7")
    case True
    then have "off < length src" using off more LGroupHeader by (auto simp: lz77_starving_def)
    then show ?thesis
      using True hdr [of 0] by (auto simp: lz77_process_GroupHeader [OF LGroupHeader idx])
  next
    case False
    then show ?thesis
      using off hdr [of "l_groupHeaderIndex d + 1"] group_next [OF idx]
      by (auto simp: lz77_process_GroupHeader [OF LGroupHeader idx])
  qed
next
  case LCopy
  then have "off < length src" using off more by (auto simp: lz77_starving_def)
  with lz77_inv_put [OF inv room, of "src ! off"] LCopy inv show ?thesis
    by (auto simp: lz77_process_Copy lz77_inv_def)
next
  case LRefHeader0
  then have "off < length src" using off more by (auto simp: lz77_starving_def)
  with LRefHeader0 inv show ?thesis
    by (auto simp: lz77_process_RefHeader0 lz77_inv_def nibble_low_le lz77_ref_size_ge)
next
  case LRefHeader1
  then have "off < length src" using off more by (auto simp: lz77_starving_def)
  with LRefHeader1 inv show ?thesis
    by (auto simp: lz77_process_RefHeader1 lz77_inv_def back_ref_add Let_def)
next
  case LRefCopy
  obtain v where v: "lz77_back_ref d = Some v"
    using inv room LRefCopy by (auto simp: lz77_back_ref_def lz77_inv_def lz77_done_def)
  have dec: "l_refSize d - 1 \<noteq> 0 \<Longrightarrow> 0 < unat (l_refSize d - 1)"
    by (metis gr0I unat_eq_0)
  show ?thesis
    using lz77_inv_put [OF inv room, of v] v LRefCopy inv off dec
    by (auto simp: lz77_process_RefCopy lz77_inv_def Let_def)
qed

text \<open>A step looks at the source through the next byte only.\<close>

lemma lz77_process_cong_rd: "rd s1 o1 = rd s2 o1 \<Longrightarrow> lz77_process s1 o1 d = lz77_process s2 o1 d"
  by (cases "l_state d") (simp_all add: lz77_process_def)

lemma lz77_process_no_byte:
  "rd s1 o1 = None \<Longrightarrow> lz77_process s1 o1 d = Some r \<Longrightarrow> lz77_process s2 o1 d = Some r"
  by (cases "l_state d"; cases "l_groupHeaderIndex d + 1 = 8") (simp_all add: lz77_process_def)

lemma lz77_process_append:
  assumes "lz77_process src off d = Some r"
  shows "lz77_process (src @ rest) off d = Some r"
proof (cases "rd src off")
  case None
  then show ?thesis using assms lz77_process_no_byte by blast
next
  case (Some a)
  then have "rd (src @ rest) off = rd src off" by (auto simp: rd_def nth_append split: if_splits)
  then show ?thesis using assms lz77_process_cong_rd by metis
qed

lemma lz77_process_shift:
  "lz77_process (pre @ src) (length pre + off) d =
    map_option (\<lambda>(r, o', d'). (r, length pre + o', d')) (lz77_process src off d)"
proof -
  have rd: "rd (pre @ src) (length pre + off) = rd src off" by (simp add: rd_def)
  show ?thesis
    by (cases "rd src off"; cases "l_state d"; cases "l_groupHeaderIndex d + 1 = 8")
      (simp_all add: lz77_process_def rd Let_def map_option_bind comp_def)
qed

interpretation lz77_stream: stream_decoder lz77_process lz77_loop lz77_done lz77_idle lz77_starving
  lz77_mark_bad lz77_inv lz77_rank
proof unfold_locales
  show "lz77_loop src off d =
      (if lz77_done d then Some (if lz77_idle d then (True, d) else (False, lz77_mark_bad d))
       else if off = length src \<and> lz77_starving d then Some (True, d)
       else case lz77_process src off d of
              None \<Rightarrow> None
            | Some (True, off', d') \<Rightarrow> lz77_loop src off' d'
            | Some (False, off', d') \<Rightarrow> Some (False, lz77_mark_bad d'))" for src off d
    by (rule lz77_loop.simps)
qed (blast intro: lz77_process_append lz77_process_shift lz77_process_rank lz77_process_total)+

section \<open>The layout of a token\<close>

fun lz77_tok_bytes :: "token \<Rightarrow> bytes" where
  "lz77_tok_bytes (Lit b) = [b]"
| "lz77_tok_bytes (Ref k n) = [of_nat ((n - 3) * 16 + (k - 1) div 256), of_nat ((k - 1) mod 256)]"

fun lz77_tok_ok :: "token \<Rightarrow> bool" where
  "lz77_tok_ok (Lit b) = True"
| "lz77_tok_ok (Ref k n) = (1 \<le> k \<and> k \<le> 0x1000 \<and> 3 \<le> n \<and> n \<le> 0x12)"

section \<open>Where the decoder stands\<close>

text \<open>\<open>out\<close> is written over the front of the buffer \<open>base\<close> the decoder was given.\<close>

definition lz77_at :: "bytes \<Rightarrow> bytes \<Rightarrow> nat \<Rightarrow> lz77 \<Rightarrow> bool" where
  "lz77_at base out N d \<longleftrightarrow> l_ok d \<and> l_dst d = Some (out @ drop (length out) base) \<and>
     l_dstOffset d = length out \<and> l_dstSize d = N \<and> length out \<le> N \<and> N \<le> length base"

definition lz77_in_group :: "nat \<Rightarrow> u8 \<Rightarrow> lz77 \<Rightarrow> bool" where
  "lz77_in_group i h d \<longleftrightarrow> unat (l_groupHeaderIndex d) = i \<and> i < 8 \<and> l_groupHeader d = h"

definition lz77_ready :: "bytes \<Rightarrow> nat \<Rightarrow> u8 \<Rightarrow> bytes \<Rightarrow> nat \<Rightarrow> lz77 \<Rightarrow> bool" where
  "lz77_ready base i h out N d \<longleftrightarrow> lz77_at base out N d \<and> 0 < i \<and> lz77_in_group (i - 1) h d \<and>
     l_state d = LGroupHeader"

definition lz77_inside :: "bytes \<Rightarrow> nat \<Rightarrow> u8 \<Rightarrow> bytes \<Rightarrow> nat \<Rightarrow> lz77 \<Rightarrow> bool" where
  "lz77_inside base i h out N d \<longleftrightarrow> lz77_at base out N d \<and> length out < N \<and> lz77_in_group i h d \<and>
     l_state d = (if bit h (7 - i) then LRefHeader0 else LCopy)"

lemma lz77_not_done: "lz77_at base out N d \<Longrightarrow> length out < N \<Longrightarrow> \<not> lz77_done d"
  by (simp add: lz77_at_def lz77_done_def)

lemma lz77_put_at:
  assumes "lz77_at base out N d" and "length out < N"
  shows "\<exists>d'. lz77_put v d = Some d' \<and> lz77_at base (out @ [v]) N d' \<and>
    (\<exists>b o'. d' = d\<lparr>l_dst := b, l_dstOffset := o'\<rparr>)"
proof -
  let ?buf = "out @ drop (length out) base"
  have "?buf[length out := v] = (out @ [v]) @ drop (Suc (length out)) base"
    using assms by (simp add: lz77_at_def list_update_append Cons_nth_drop_Suc [symmetric] del: append_assoc)
  then show ?thesis using assms by (auto simp: lz77_at_def lz77_put_def)
qed

section \<open>Tokens\<close>

lemma lz77_copy_step:
  assumes at: "lz77_at base out N d" "length out < N" and st: "l_state d = LRefCopy"
    and k: "unat (l_refOffset d) = k" "0 < k" "k \<le> length out" and n: "unat (l_refSize d) = Suc n"
  shows "\<exists>d'. (\<forall>src off. lz77_loop src off d = lz77_loop src off d') \<and>
    lz77_at base (out @ [out ! (length out - k)]) N d' \<and> l_refOffset d' = l_refOffset d \<and>
    (\<forall>i h. lz77_in_group i h d \<longrightarrow> lz77_in_group i h d') \<and>
    (if n = 0 then l_state d' = LGroupHeader else l_state d' = LRefCopy \<and> unat (l_refSize d') = n)"
proof -
  let ?v = "out ! (length out - k)"
  have "length out - k < length out" using k by linarith
  then have val: "lz77_back_ref d = Some ?v"
    using at k by (simp add: lz77_back_ref_def lz77_at_def nth_append rd_def)
  obtain d1 b o' where d1: "lz77_put ?v d = Some d1" "lz77_at base (out @ [?v]) N d1"
    "d1 = d\<lparr>l_dst := b, l_dstOffset := o'\<rparr>"
    using lz77_put_at [OF at, of ?v] by blast
  have sz: "unat (l_refSize d - 1) = n"
    using n by (simp add: unat_sub word_le_nat_alt)
  then have zero: "l_refSize d - 1 = 0 \<longleftrightarrow> n = 0" by (metis unat_eq_0)
  define d2 where "d2 = (if n = 0 then d1\<lparr>l_refSize := l_refSize d - 1, l_state := LGroupHeader\<rparr>
    else d1\<lparr>l_refSize := l_refSize d - 1\<rparr>)"
  have "lz77_process src off d = Some (True, off, d2)" for src off
    using zero d1(3) by (simp add: lz77_process_RefCopy [OF st] val d1(1) Let_def d2_def)
  then have "\<forall>src off. lz77_loop src off d = lz77_loop src off d2"
    using lz77_not_done [OF at] st by (intro allI lz77_stream.loop_step) (auto simp: lz77_starving_def)
  then show ?thesis
    using d1(2) sz st unfolding d1(3)
    by (intro exI [of _ d2]) (auto simp: d2_def d1(3) lz77_at_def lz77_in_group_def)
qed

lemma lz77_copy_loop:
  "lz77_at base out N d \<Longrightarrow> l_state d = LRefCopy \<Longrightarrow> unat (l_refOffset d) = k \<Longrightarrow>
   0 < k \<Longrightarrow> k \<le> length out \<Longrightarrow> unat (l_refSize d) = Suc n \<Longrightarrow> length out + Suc n \<le> N \<Longrightarrow>
   lz77_in_group i h d \<Longrightarrow>
   \<exists>d'. (\<forall>src off. lz77_loop src off d = lz77_loop src off d') \<and>
     lz77_ready base (i + 1) h (copy_back k (Suc n) out) N d'"
proof (induction n arbitrary: out d)
  case 0
  then show ?case using lz77_copy_step [of base out N d k 0] by (auto simp: lz77_ready_def)
next
  case (Suc n)
  let ?out = "out @ [out ! (length out - k)]"
  obtain d1 where d1: "\<forall>src off. lz77_loop src off d = lz77_loop src off d1" "lz77_at base ?out N d1"
    "l_refOffset d1 = l_refOffset d" "lz77_in_group i h d1" "l_state d1 = LRefCopy"
    "unat (l_refSize d1) = Suc n"
    using lz77_copy_step [OF Suc.prems(1) _ Suc.prems(2,3,4,5,6)] Suc.prems(7,8) by force
  have "\<exists>d'. (\<forall>src off. lz77_loop src off d1 = lz77_loop src off d') \<and>
      lz77_ready base (i + 1) h (copy_back k (Suc n) ?out) N d'"
    using d1 Suc.prems by (intro Suc.IH) auto
  then show ?case using d1(1) by auto
qed

text \<open>The bytes in front of a copy set the reference.\<close>

definition lz77_copying :: "nat \<Rightarrow> nat \<Rightarrow> lz77 \<Rightarrow> bool" where
  "lz77_copying k n d \<longleftrightarrow> l_state d = LRefCopy \<and> unat (l_refOffset d) = k \<and> unat (l_refSize d) = n"

definition lz77_same :: "lz77 \<Rightarrow> lz77 \<Rightarrow> bool" where
  "lz77_same d d' \<longleftrightarrow> l_dst d' = l_dst d \<and> l_dstSize d' = l_dstSize d \<and>
     l_dstOffset d' = l_dstOffset d \<and> l_groupHeaderIndex d' = l_groupHeaderIndex d \<and>
     l_groupHeader d' = l_groupHeader d \<and> l_ok d' = l_ok d"

lemma lz77_same_at: "lz77_same d d' \<Longrightarrow> lz77_at base out N d \<Longrightarrow> lz77_at base out N d'"
  by (auto simp: lz77_same_def lz77_at_def)

lemma lz77_same_group: "lz77_same d d' \<Longrightarrow> lz77_in_group i h d \<Longrightarrow> lz77_in_group i h d'"
  by (auto simp: lz77_same_def lz77_in_group_def)

lemma lz77_same_trans: "lz77_same a b \<Longrightarrow> lz77_same b c \<Longrightarrow> lz77_same a c"
  by (auto simp: lz77_same_def)

lemma lz77_same_done: "lz77_same d d' \<Longrightarrow> lz77_done d' = lz77_done d"
  by (auto simp: lz77_same_def lz77_done_def)

lemma lz77_loop_header0:
  assumes at: "\<not> lz77_done d" and st: "l_state d = LRefHeader0"
    and b: "unat (b :: u8) = m * 16 + q" "m < 16" "q < 16"
  shows "\<exists>d'. (\<forall>rest. lz77_loop (b # rest) 0 d = lz77_loop rest 0 d') \<and> lz77_same d d' \<and>
    l_state d' = LRefHeader1 \<and> unat (l_refOffset d') = q * 256 \<and> unat (l_refSize d') = m + 3"
proof -
  define d' where "d' = d\<lparr>l_refOffset := push_bit 8 (ucast b) AND 0xf00,
    l_refSize := ucast (drop_bit 4 b) + 3, l_state := LRefHeader1\<rparr>"
  have "lz77_loop (b # rest) 0 d = lz77_loop rest 0 d'" for rest
    by (rule lz77_stream.loop_eat) (simp_all add: at lz77_process_RefHeader0 [OF st] d'_def)
  moreover have "unat (l_refOffset d') = q * 256"
    using b(3) by (simp add: d'_def nibble_low b(1))
  moreover have "unat (l_refSize d') = m + 3"
    using b(2,3) by (simp add: d'_def unat_word_ariths nibble_high b(1))
  moreover have "lz77_same d d'" by (simp add: lz77_same_def d'_def)
  ultimately show ?thesis by (intro exI [of _ d']) (simp add: d'_def)
qed

lemma lz77_loop_header1:
  assumes at: "lz77_at base out N d" "length out < N" and st: "l_state d = LRefHeader1"
    and q: "unat (l_refOffset d) = q * 256" "q < 16"
    and k: "q * 256 + unat (b :: u8) + 1 = k" "k \<le> length out"
  shows "\<exists>d'. (\<forall>rest. lz77_loop (b # rest) 0 d = lz77_loop rest 0 d') \<and> lz77_same d d' \<and>
    l_state d' = LRefCopy \<and>
    unat (l_refOffset d') = k \<and> l_refSize d' = l_refSize d"
proof -
  have ofs: "unat (l_refOffset d + (ucast b + 1)) = k"
    using q k(1) back_ref_add [of "l_refOffset d" b] by simp
  define d' where "d' = d\<lparr>l_refOffset := l_refOffset d + (ucast b + 1),
    l_state := LRefCopy\<rparr>"
  have "lz77_loop (b # rest) 0 d = lz77_loop rest 0 d'" for rest
  proof (rule lz77_stream.loop_eat)
    have "\<not> l_dstOffset d < unat (l_refOffset d + (ucast b + 1))"
      using at k(2) ofs by (simp add: lz77_at_def)
    then show "lz77_process (b # rest) 0 d = Some (True, 1, d')"
      by (simp add: lz77_process_RefHeader1 [OF st] Let_def d'_def)
  qed (use lz77_not_done [OF at] in simp)
  moreover have "lz77_same d d'" by (simp add: lz77_same_def d'_def)
  ultimately show ?thesis using ofs by (intro exI [of _ d']) (simp add: d'_def)
qed

lemma lz77_read_ref:
  assumes at: "lz77_at base out N d" "length out < N" and st: "l_state d = LRefHeader0"
    and ok: "lz77_tok_ok (Ref k n)" and k: "k \<le> length out"
  shows "\<exists>d'. (\<forall>rest. lz77_loop (lz77_tok_bytes (Ref k n) @ rest) 0 d = lz77_loop rest 0 d') \<and>
    lz77_same d d' \<and> l_state d' = LRefCopy \<and> unat (l_refOffset d') = k \<and> unat (l_refSize d') = n"
proof -
  define m where "m = n - 3"
  let ?q = "(k - 1) div 256"
  define b0 where "b0 = (of_nat (m * 16 + ?q) :: u8)"
  define b1 where "b1 = (of_nat ((k - 1) mod 256) :: u8)"
  have lt: "m < 16" "?q < 16" using ok by (auto simp: m_def)
  then have "m * 16 + ?q < 256" by linarith
  then have b0: "unat b0 = m * 16 + ?q" unfolding b0_def unat_of_nat by simp
  have b1: "unat b1 = (k - 1) mod 256" unfolding b1_def unat_of_nat by simp
  have kq: "?q * 256 + unat b1 + 1 = k" using ok unfolding b1 by simp
  obtain d1 where d1: "\<forall>rest. lz77_loop (b0 # rest) 0 d = lz77_loop rest 0 d1" "lz77_same d d1"
    "l_state d1 = LRefHeader1" "unat (l_refOffset d1) = ?q * 256" "unat (l_refSize d1) = m + 3"
    using lz77_loop_header0 [OF lz77_not_done [OF at] st b0 lt] by blast
  obtain d2 where d2: "\<forall>rest. lz77_loop (b1 # rest) 0 d1 = lz77_loop rest 0 d2" "lz77_same d1 d2"
    "l_state d2 = LRefCopy" "unat (l_refOffset d2) = k"
    "l_refSize d2 = l_refSize d1"
    using lz77_loop_header1 [OF lz77_same_at [OF d1(2) at(1)] at(2) d1(3,4) lt(2) kq k] d1(5) by auto
  have same: "lz77_same d d2" using d1(2) d2(2) by (rule lz77_same_trans)
  have "m + 3 = n" "lz77_tok_bytes (Ref k n) = [b0, b1]"
    using ok by (auto simp: m_def b0_def b1_def)
  then show ?thesis using d1 d2 same by (intro exI [of _ d2]) simp
qed

lemma lz77_read_token:
  assumes ins: "lz77_inside base i h out N d" and i: "i < 8" and b: "bit h (7 - i) = (\<not> is_lit t)"
    and ok: "lz77_tok_ok t" "tok_reach out t" and N: "length (expand_tok out t) \<le> N"
  shows "\<exists>d'. lz77_ready base (i + 1) h (expand_tok out t) N d' \<and>
    (\<forall>rest. lz77_loop (lz77_tok_bytes t @ rest) 0 d = lz77_loop rest 0 d')"
proof -
  have at: "lz77_at base out N d" "length out < N" and grp: "lz77_in_group i h d"
    and st: "l_state d = (if is_lit t then LCopy else LRefHeader0)"
    using ins b by (auto simp: lz77_inside_def)
  show ?thesis
  proof (cases t)
    case (Lit v)
    obtain d1 b' o' where d1: "lz77_put v d = Some d1" "lz77_at base (out @ [v]) N d1"
      "d1 = d\<lparr>l_dst := b', l_dstOffset := o'\<rparr>"
      using lz77_put_at [OF at, of v] by blast
    let ?d' = "d1\<lparr>l_state := LGroupHeader\<rparr>"
    have "lz77_loop (v # rest) 0 d = lz77_loop rest 0 ?d'" for rest
      by (rule lz77_stream.loop_eat)
        (use lz77_not_done [OF at] st Lit in \<open>simp_all add: lz77_process_Copy d1(1)\<close>)
    then show ?thesis
      using d1(2,3) Lit grp by (intro exI [of _ ?d']) (auto simp: lz77_ready_def lz77_at_def lz77_in_group_def)
  next
    case (Ref k n)
    obtain d1 where d1: "\<forall>rest. lz77_loop (lz77_tok_bytes t @ rest) 0 d = lz77_loop rest 0 d1"
      "lz77_same d d1" "l_state d1 = LRefCopy" "unat (l_refOffset d1) = k" "unat (l_refSize d1) = n"
      using lz77_read_ref [OF at, of k n] st ok Ref by auto
    have "\<exists>d'. (\<forall>src off. lz77_loop src off d1 = lz77_loop src off d') \<and>
        lz77_ready base (i + 1) h (copy_back k (Suc (n - 1)) out) N d'"
      using d1 ok N Ref lz77_same_at [OF d1(2) at(1)] lz77_same_group [OF d1(2) grp]
      by (intro lz77_copy_loop) auto
    moreover have "Suc (n - 1) = n" using ok Ref by simp
    ultimately show ?thesis using d1(1) Ref by auto
  qed
qed

section \<open>The interpretation\<close>

lemma lz77_read_flags:
  assumes rdy: "lz77_ready base 8 h out N d" and room: "length out < N"
  shows "\<exists>d'. lz77_inside base 0 h' out N d' \<and> (\<forall>rest. lz77_loop (h' # rest) 0 d = lz77_loop rest 0 d')"
proof -
  have at: "lz77_at base out N d" and st: "l_state d = LGroupHeader"
    and idx: "unat (l_groupHeaderIndex d) = 7" using rdy by (auto simp: lz77_ready_def lz77_in_group_def)
  then have "l_groupHeaderIndex d = 7" by (simp add: word_unat_eq_iff)
  then have "lz77_process (h' # rest) 0 d = Some (True, 1, lz77_with_header h' 0 d)" for rest
    using idx by (simp add: lz77_process_GroupHeader [OF st])
  then have "lz77_loop (h' # rest) 0 d = lz77_loop rest 0 (lz77_with_header h' 0 d)" for rest
    using lz77_not_done [OF at room] by (rule lz77_stream.loop_eat [rotated])
  moreover have "lz77_inside base 0 h' out N (lz77_with_header h' 0 d)"
    using at room by (simp add: lz77_inside_def lz77_at_def lz77_in_group_def lz77_with_header_def)
  ultimately show ?thesis by blast
qed

lemma lz77_next_token:
  assumes rdy: "lz77_ready base i h out N d" and i: "0 < i" "i < 8" and room: "length out < N"
  shows "\<exists>d'. lz77_inside base i h out N d' \<and> (\<forall>src. lz77_loop src 0 d = lz77_loop src 0 d')"
proof -
  have at: "lz77_at base out N d" and st: "l_state d = LGroupHeader"
    and idx: "unat (l_groupHeaderIndex d) = i - 1" and h: "l_groupHeader d = h"
    using rdy by (auto simp: lz77_ready_def lz77_in_group_def)
  have le: "unat (l_groupHeaderIndex d) \<le> 7" and ne: "l_groupHeaderIndex d \<noteq> 7"
    using idx i by auto
  let ?d' = "lz77_with_header h (l_groupHeaderIndex d + 1) d"
  have inc: "unat (l_groupHeaderIndex d + 1) = i" using group_next [OF le ne] idx i by simp
  have "lz77_process src 0 d = Some (True, 0, ?d')" for src
    using ne h by (simp add: lz77_process_GroupHeader [OF st le])
  then have "lz77_loop src 0 d = lz77_loop src 0 ?d'" for src
    using lz77_not_done [OF at room] ne st by (intro lz77_stream.loop_step) (auto simp: lz77_starving_def)
  moreover have "lz77_inside base i h out N ?d'"
    using at room i inc by (simp add: lz77_inside_def lz77_at_def lz77_in_group_def lz77_with_header_def)
  ultimately show ?thesis by blast
qed

interpretation lz77_lz: lz_format lz77_process lz77_loop lz77_done lz77_idle lz77_starving lz77_mark_bad
  lz77_inv lz77_rank "lz77_ready base" "lz77_inside base" "\<lambda>t. \<not> is_lit t" lz77_tok_ok lz77_tok_bytes
  for base
proof unfold_locales
  show "lz77_idle d \<and> lz77_done d = (length out = N)" if "lz77_ready base i h out N d" for i h out N d
    using that by (auto simp: lz77_ready_def lz77_at_def lz77_idle_def lz77_done_def)
qed (fact lz77_read_flags lz77_next_token lz77_read_token)+

definition lz77_encode :: "token list \<Rightarrow> bytes" where
  "lz77_encode ts = encode (\<lambda>t. \<not> is_lit t) lz77_tok_bytes ts"

section \<open>From the header to the released buffer\<close>

lemma lz77_new_state:
  assumes "lz77_new alloc src = Some d" and "l_ok d"
  shows "d = lz77_init\<lparr>l_headerSize := l_headerSize d, l_dstSize := l_dstSize d, l_dst := alloc (l_dstSize d)\<rparr>"
  using assms by (auto simp: lz77_new_def Let_def lz77_init_def bind_Some_iff split: if_splits)

lemma lz77_new_ready:
  assumes new: "lz77_new alloc src = Some d" "l_ok d"
    and alloc: "alloc (l_dstSize d) = Some buf" "length buf = l_dstSize d"
  shows "lz77_ready buf 8 0 [] (l_dstSize d) d"
proof -
  have "l_dst d = Some buf" "l_dstOffset d = 0" "l_state d = LGroupHeader" "l_groupHeaderIndex d = 7"
    "l_groupHeader d = 0"
    by (subst lz77_new_state [OF new]; simp add: lz77_init_def alloc(1))+
  then show ?thesis using alloc(2) new(2) by (simp add: lz77_ready_def lz77_at_def lz77_in_group_def)
qed

lemma lz77_new_decode_release:
  assumes new: "lz77_new alloc src = Some d" "l_ok d"
    and alloc: "alloc (l_dstSize d) = Some buf" "length buf = l_dstSize d"
    and ts: "\<forall>t \<in> set ts. lz77_tok_ok t" "reachable_toks [] ts" "ts \<noteq> []"
      "l_dstSize d = length (expand [] ts)"
  shows "\<exists>d' d''. lz77_decode (lz77_encode ts @ rest) d = Some (True, d') \<and>
    lz77_release d' = Some (expand [] ts, length (expand [] ts), d'')"
proof -
  obtain d' i h' where run: "lz77_loop (lz77_encode ts @ rest) 0 d = Some (True, d')"
    "lz77_ready buf i h' (expand [] ts) (l_dstSize d) d'"
    using lz77_lz.decode_encode [OF lz77_new_ready [OF new alloc] ts(1,2)] ts(4)
    unfolding lz77_encode_def by metis
  have "0 < l_dstSize d" using expand_length [OF ts(2)] ts(3,4) by (cases ts) auto
  moreover have "l_dstOffset d = 0" by (subst lz77_new_state [OF new]) (simp add: lz77_init_def)
  ultimately have "lz77_decode (lz77_encode ts @ rest) d = Some (True, d')"
    using run(1) new(2) by (simp add: lz77_decode_def lz77_done_def)
  moreover have "l_dst d' = Some (expand [] ts)" "lz77_done d'" "l_dstSize d' = length (expand [] ts)" "l_ok d'"
    using run(2) ts(4) alloc(2) by (auto simp: lz77_ready_def lz77_at_def lz77_done_def)
  ultimately show ?thesis by (auto simp: lz77_release_def)
qed

lemma lz77_new_decode_release_witness:
  "\<exists>d d' d''. lz77_new (\<lambda>n. Some (replicate n 0)) [0x10, 4, 0, 0] = Some d \<and>
     lz77_decode (lz77_encode [Lit 1, Ref 1 3] @ [7]) d = Some (True, d') \<and>
     lz77_release d' = Some ([1, 1, 1, 1], 4, d'')"
proof -
  let ?d = "lz77_init\<lparr>l_headerSize := 4, l_dstSize := 4, l_dst := Some [0, 0, 0, 0]\<rparr>"
  have new: "lz77_new (\<lambda>n. Some (replicate n 0)) [0x10, 4, 0, 0] = Some ?d" by code_simp
  have ex: "expand [] [Lit 1, Ref 1 3] = [1, 1, 1, 1]" by code_simp
  have "l_ok ?d" "l_dstSize ?d = 4" by (simp_all add: lz77_init_def)
  then show ?thesis
    using lz77_new_decode_release [OF new, of "[0, 0, 0, 0]" "[Lit 1, Ref 1 3]" "[7]"]
    by (simp add: ex new eval_nat_numeral)
qed

text \<open>Arbitrary input to a fresh decoder, in any number of pieces.\<close>

lemma lz77_decode_safe:
  assumes "lz77_inv d" and "l_ok d" and "\<not> lz77_done d"
  shows "\<exists>r d'. lz77_decode src d = Some (r, d') \<and>
    (r \<longrightarrow> lz77_inv d' \<and> (lz77_done d' \<and> lz77_idle d' \<or> \<not> lz77_done d' \<and> lz77_starving d'))"
  using lz77_stream.loop_total [OF assms(1), of 0 src] assms(2,3) by (simp add: lz77_decode_def)

text \<open>Any bytes at all, to a decoder made from a header.\<close>

lemma lz77_decode_safe_witness:
  "\<exists>r d'. lz77_decode [0x80, 1, 2] (lz77_init\<lparr>l_headerSize := 4, l_dstSize := 4, l_dst := Some [0, 0, 0, 0]\<rparr>) = Some (r, d')"
  using lz77_decode_safe [of "lz77_init\<lparr>l_headerSize := 4, l_dstSize := 4, l_dst := Some [0, 0, 0, 0]\<rparr>" "[0x80, 1, 2]"]
  by (auto simp: lz77_inv_def lz77_init_def lz77_done_def)

end
