(* ===== verification/Decomp_Loader.thy ===== *)
theory Decomp_Loader
  imports Storage_Dispatch YAZ_Decoder LZ77_Decoder LZMA_Decoder
begin

text \<open>
  \<open>payload/sp/storage/DecompLoader.cc\<close>: a file is read by one thread into two buffers in turn while
  another one decodes it.  The threads meet in the exchanges of \<open>Exchange.hh\<close>: by
  \<open>exchange_in_order\<close> of theory \<open>Exchange\<close> the k-th value of one side meets the k-th of the other, so
  a meeting is one function here, \<open>update_left\<close>, which runs the reader up to its next offer and lets
  it go on with the answer.  The loader holds one buffer while the reader fills the other.
\<close>

section \<open>Decoders\<close>

text \<open>The virtual functions of \<open>Decoder\<close>.\<close>

datatype 'l decoder = Dec_YAZ yaz | Dec_LZ77 lz77 | Dec_LZMA "'l lzma"

record 'l decode_env =
  env_heap :: heap
  env_lzma :: "'l lzma_sdk"

fun decoder_ok :: "'l decoder \<Rightarrow> bool" where
  "decoder_ok (Dec_YAZ d) = y_ok d"
| "decoder_ok (Dec_LZ77 d) = l_ok d"
| "decoder_ok (Dec_LZMA d) = z_ok d"

fun decoder_done :: "'l decoder \<Rightarrow> bool" where
  "decoder_done (Dec_YAZ d) = yaz_done d"
| "decoder_done (Dec_LZ77 d) = lz77_done d"
| "decoder_done (Dec_LZMA d) = z_done d"

fun decoder_headerSize :: "'l decoder \<Rightarrow> nat" where
  "decoder_headerSize (Dec_YAZ d) = YAZ_HEADER_SIZE"
| "decoder_headerSize (Dec_LZ77 d) = l_headerSize d"
| "decoder_headerSize (Dec_LZMA d) = LZMA_HEADER_SIZE"

fun decoder_decode :: "'l decode_env \<Rightarrow> bytes \<Rightarrow> 'l decoder \<Rightarrow> (bool \<times> 'l decoder) option" where
  "decoder_decode env src (Dec_YAZ d) = map_option (map_prod id Dec_YAZ) (yaz_decode src d)"
| "decoder_decode env src (Dec_LZ77 d) = map_option (map_prod id Dec_LZ77) (lz77_decode src d)"
| "decoder_decode env src (Dec_LZMA d) = map_option (map_prod id Dec_LZMA) (lzma_decode (env_lzma env) (env_heap env) src d)"

fun decoder_release :: "'l decode_env \<Rightarrow> 'l decoder \<Rightarrow> (bytes \<times> nat) option" where
  "decoder_release env (Dec_YAZ d) = map_option (\<lambda>(b, n, _). (b, n)) (yaz_release d)"
| "decoder_release env (Dec_LZ77 d) = map_option (\<lambda>(b, n, _). (b, n)) (lz77_release d)"
| "decoder_release env (Dec_LZMA d) = map_option (\<lambda>(b, n, _). (b, n)) (lzma_release (env_heap env) d)"

text \<open>The choice by the magic at the front of the first chunk.\<close>

definition new_decoder :: "'l decode_env \<Rightarrow> bytes \<Rightarrow> 'l decoder option" where
  "new_decoder env src = do {
     be \<leftarrow> Bytes_Read Big_Endian src 0;
     le \<leftarrow> Bytes_Read Little_Endian src 0;
     if yaz_CheckMagic be then map_option Dec_YAZ (yaz_new (heap_alloc (env_heap env)) src)
     else if lz77_CheckMagic le then map_option Dec_LZ77 (lz77_new (heap_alloc (env_heap env)) src)
     else map_option Dec_LZMA (lzma_new (env_lzma env) (env_heap env) src)
   }"

section \<open>The reading thread\<close>

definition SRC_SIZE :: nat where
  "SRC_SIZE = 0x20000"

record StartInfo =
  si_path :: bytes
  si_maxSize :: u32
  si_offset :: u64
  si_storageType :: "StorageType option"

definition ReadOptStorage ::
  "('a, 'b, 'c) vtables \<Rightarrow> wstr \<Rightarrow> StorageType option \<Rightarrow> ('a, 'b, 'c) stores \<Rightarrow> (file_handle \<times> ('a, 'b, 'c) stores) option" where
  "ReadOptStorage vt path storageType st =
     (case storageType of
        Some t \<Rightarrow> map_option (tagged t)
          (call_on t (is_open (vt_fat vt) path ''r'') (is_open (vt_nand vt) path ''r'') (is_open (vt_dvd vt) path ''r'') st)
      | None \<Rightarrow> Storage_Open vt path ''r'' st)"

definition szs :: bytes where
  "szs = [0x2e, 0x73, 0x7a, 0x73]"

definition ends_with :: "bytes \<Rightarrow> bytes \<Rightarrow> bool" where
  "ends_with suffix s \<longleftrightarrow> length suffix \<le> length s \<and> drop (length s - length suffix) s = suffix"

definition ro_colon :: bytes where
  "ro_colon = [0x72, 0x6f, 0x3a, 0x2f]"

definition DecompLoader_Open ::
  "('a, 'b, 'c) vtables \<Rightarrow> bytes \<Rightarrow> StorageType option \<Rightarrow> ('a, 'b, 'c) stores \<Rightarrow> (file_handle \<times> ('a, 'b, 'c) stores) option" where
  "DecompLoader_Open vt path storageType st =
     (let base = take (length path - length szs) path;
          plain = (\<lambda>st. ReadOptStorage vt (printed 128 (widen path)) storageType st)
      in if starts_with ro_colon path \<and> ends_with szs path then do {
           (file, st) \<leftarrow> ReadOptStorage vt (printed 128 (widen base @ wide ''.arc.lzma'')) storageType st;
           if file \<noteq> None then Some (file, st)
           else do {
             (file, st) \<leftarrow> ReadOptStorage vt (printed 128 (widen base @ wide ''.wbz'')) storageType st;
             if file \<noteq> None then Some (file, st) else plain st
           }
         } else plain st)"

text \<open>
  The reader between its meetings: it has failed, it is about to read the chunk at an offset into a
  buffer, or \<open>Read\<close> has returned and the thread waits for the next request.
\<close>

datatype reader = Failing file_handle | Reading handle u64 u32 nat | Resting

text \<open>The files of the storage, the buffers (what has last been read into each) and the reader.\<close>

type_synonym ('a, 'b, 'c) loading = "reader \<times> (nat \<Rightarrow> bytes) \<times> ('a, 'b, 'c) stores"

definition reader_start ::
  "('a, 'b, 'c) vtables \<Rightarrow> StartInfo \<Rightarrow> (nat \<Rightarrow> bytes) \<Rightarrow> ('a, 'b, 'c) stores \<Rightarrow> ('a, 'b, 'c) loading option" where
  "reader_start vt info srcs st = do {
     (file, st) \<leftarrow> DecompLoader_Open vt (si_path info) (si_storageType info) st;
     case file of
       None \<Rightarrow> Some (Failing None, srcs, st)
     | Some h \<Rightarrow> do {
         fsize \<leftarrow> FileHandle_size vt h st;
         if si_offset info > fsize then Some (Failing file, srcs, st)
         else Some (Reading h (min fsize (si_offset info + ucast (si_maxSize info))) (ucast (si_offset info)) 0, srcs, st)
       }
   }"

text \<open>\<open>addr\<close> is the address of the buffers; a chunk is at most one buffer.\<close>

definition chunk_size :: "u64 \<Rightarrow> u32 \<Rightarrow> nat" where
  "chunk_size n offset = min (unat (n - ucast offset)) SRC_SIZE"

text \<open>
  A meeting: the reader offers a size or an error, the loader offers whether it wants more.  After
  the last offer, or when the loader wants no more, \<open>Read\<close> returns and the file is closed.
\<close>

definition update_left ::
  "('a, 'b, 'c) vtables \<Rightarrow> u32 \<Rightarrow> bool \<Rightarrow> ('a, 'b, 'c) loading \<Rightarrow> (int \<times> ('a, 'b, 'c) loading) option" where
  "update_left vt addr go = (\<lambda>(reader, srcs, st).
     case reader of
       Resting \<Rightarrow> None
     | Failing file \<Rightarrow> do { st \<leftarrow> FileHandle_destroy vt file st; Some (-1, Resting, srcs, st) }
     | Reading h n offset i \<Rightarrow>
         if ucast offset < n then do {
           let srcSize = chunk_size n offset;
           ((ok, data), st) \<leftarrow> FileHandle_read vt (addr + of_nat (i * SRC_SIZE)) (of_nat srcSize) offset h st;
           let srcs = srcs(i := data);
           if \<not> ok then do { st \<leftarrow> FileHandle_destroy vt (Some h) st; Some (-1, Resting, srcs, st) }
           else if go then Some (int srcSize, Reading h n (offset + of_nat SRC_SIZE) ((i + 1) mod 2), srcs, st)
           else do { st \<leftarrow> FileHandle_destroy vt (Some h) st; Some (int srcSize, Resting, srcs, st) }
         } else do { st \<leftarrow> FileHandle_destroy vt (Some h) st; Some (0, Resting, srcs, st) })"

section \<open>The loading thread\<close>

text \<open>\<open>updateExchange.left(false)\<close> and the failure of the load.\<close>

definition load_stop ::
  "('a, 'b, 'c) vtables \<Rightarrow> u32 \<Rightarrow> ('a, 'b, 'c) loading \<Rightarrow> ((bytes \<times> nat) option \<times> ('a, 'b, 'c) loading) option" where
  "load_stop vt addr s = do { (_, s) \<leftarrow> update_left vt addr False s; Some (None, s) }"

partial_function (option) load_loop ::
  "('a, 'b, 'c) vtables \<Rightarrow> u32 \<Rightarrow> 'l decode_env \<Rightarrow> 'l decoder \<Rightarrow> nat \<Rightarrow> bytes \<Rightarrow> ('a, 'b, 'c) loading \<Rightarrow>
   ((bytes \<times> nat) option \<times> ('a, 'b, 'c) loading) option" where
  "load_loop vt addr env dec i src s =
     (if \<not> decoder_ok dec \<or> decoder_done dec then load_stop vt addr s
      else do {
        (more, dec) \<leftarrow> decoder_decode env src dec;
        if \<not> more then load_stop vt addr s
        else do {
          (srcSize, s) \<leftarrow> update_left vt addr True s;
          if srcSize < 0 \<or> srcSize = 0 \<and> \<not> decoder_done dec then Some (None, s)
          else if srcSize = 0 \<and> decoder_done dec then do { r \<leftarrow> decoder_release env dec; Some (Some r, s) }
          else
            let i = (i + 1) mod 2
            in load_loop vt addr env dec i (take (nat srcSize) (fst (snd s) i)) s
        }
      })"

declare load_loop.simps [code]

definition DecompLoader_Load ::
  "('a, 'b, 'c) vtables \<Rightarrow> u32 \<Rightarrow> 'l decode_env \<Rightarrow> StartInfo \<Rightarrow> ('a, 'b, 'c) stores \<Rightarrow>
   ((bytes \<times> nat) option \<times> ('a, 'b, 'c) loading) option" where
  "DecompLoader_Load vt addr env info st = do {
     s \<leftarrow> reader_start vt info (\<lambda>_. []) st;
     (srcSize, s) \<leftarrow> update_left vt addr True s;
     if srcSize \<le> 0 then Some (None, s)
     else if srcSize < 4 then load_stop vt addr s
     else do {
       let src = take (nat srcSize) (fst (snd s) 0);
       dec \<leftarrow> new_decoder env src;
       load_loop vt addr env dec 0 (drop (decoder_headerSize dec) src) s
     }
   }"

text \<open>\<open>LoadRO\<close>, and the two that load a whole file.\<close>

definition ro_path8 :: "bytes \<Rightarrow> bytes" where
  "ro_path8 path = printed 128 (if path \<noteq> [] \<and> hd path = 0x2f then take 3 ro_colon @ path else ro_colon @ path)"

definition DecompLoader_LoadRO ::
  "('a, 'b, 'c) vtables \<Rightarrow> u32 \<Rightarrow> 'l decode_env \<Rightarrow> StartInfo \<Rightarrow> ('a, 'b, 'c) stores \<Rightarrow>
   ((bytes \<times> nat) option \<times> ('a, 'b, 'c) loading) option" where
  "DecompLoader_LoadRO vt addr env info st = DecompLoader_Load vt addr env (info\<lparr>si_path := ro_path8 (si_path info)\<rparr>) st"

definition whole_file :: "bytes \<Rightarrow> StorageType option \<Rightarrow> StartInfo" where
  "whole_file path storageType = \<lparr>si_path = path, si_maxSize = - 1, si_offset = 0, si_storageType = storageType\<rparr>"

definition DecompLoader_LoadAll ::
  "('a, 'b, 'c) vtables \<Rightarrow> u32 \<Rightarrow> 'l decode_env \<Rightarrow> bytes \<Rightarrow> StorageType option \<Rightarrow> ('a, 'b, 'c) stores \<Rightarrow>
   ((bytes \<times> nat) option \<times> ('a, 'b, 'c) loading) option" where
  "DecompLoader_LoadAll vt addr env path storageType st = DecompLoader_Load vt addr env (whole_file path storageType) st"

definition DecompLoader_LoadAllRO ::
  "('a, 'b, 'c) vtables \<Rightarrow> u32 \<Rightarrow> 'l decode_env \<Rightarrow> bytes \<Rightarrow> StorageType option \<Rightarrow> ('a, 'b, 'c) stores \<Rightarrow>
   ((bytes \<times> nat) option \<times> ('a, 'b, 'c) loading) option" where
  "DecompLoader_LoadAllRO vt addr env path storageType st = DecompLoader_LoadRO vt addr env (whole_file path storageType) st"

end
