(* ===== verification/Storage_Examples.thy ===== *)
theory Storage_Examples
  imports Storage_Dispatch "HOL-Library.AList"
begin

text \<open>
  Concrete libraries below the back ends: a volume in memory that behaves as FatFs documents, an
  archive of which every file is a region of one byte string, and an empty disc.  They show that the
  hypotheses the storage theorems make about the libraries can hold.
\<close>

type_synonym volume = "(wstr \<times> bytes) list"

definition ex_filinfo :: "bytes \<Rightarrow> filinfo" where
  "ex_filinfo data = \<lparr>fi_fsize = of_nat (length data), fi_fdate = 0, fi_ftime = 0, fi_fattrib = 0, fi_dir_ofs = 0, fi_fname = []\<rparr>"

definition ex_open :: "wstr \<Rightarrow> u32 \<Rightarrow> wstr \<times> nat \<Rightarrow> volume \<Rightarrow> FRESULT \<times> (wstr \<times> nat) \<times> volume" where
  "ex_open p mode f w =
     (if mode AND FA_CREATE_ALWAYS \<noteq> 0 then (FR_OK, (p, 0), AList.update p [] w)
      else if mode AND FA_CREATE_NEW \<noteq> 0 then
        (if map_of w p = None then (FR_OK, (p, 0), AList.update p [] w) else (FR_EXIST, f, w))
      else if map_of w p = None then (FR_NO_FILE, f, w) else (FR_OK, (p, 0), w))"

definition ex_write :: "bytes \<Rightarrow> wstr \<times> nat \<Rightarrow> volume \<Rightarrow> (FRESULT \<times> nat) \<times> (wstr \<times> nat) \<times> volume" where
  "ex_write src f w =
     (let (p, pos) = f; old = (case map_of w p of None \<Rightarrow> [] | Some d \<Rightarrow> d)
      in ((FR_OK, length src), (p, pos + length src), AList.update p (take pos old @ src @ drop (pos + length src) old) w))"

definition ex_rename :: "wstr \<Rightarrow> wstr \<Rightarrow> volume \<Rightarrow> FRESULT \<times> volume" where
  "ex_rename p q w =
     (case map_of w p of None \<Rightarrow> (FR_NO_FILE, w)
      | Some d \<Rightarrow> if map_of w q \<noteq> None then (FR_EXIST, w) else (FR_OK, AList.update q d (AList.delete p w)))"

definition ex_unlink :: "wstr \<Rightarrow> volume \<Rightarrow> FRESULT \<times> volume" where
  "ex_unlink p w = (if map_of w p = None then (FR_NO_FILE, w) else (FR_OK, AList.delete p w))"

definition ex_fat :: "(wstr \<times> nat, unit, volume) fat_sdk" where
  "ex_fat = \<lparr>f_mount = (\<lambda>w. (FR_OK, w)), f_mkdir = (\<lambda>p w. (FR_OK, w)), f_chdir = (\<lambda>p w. (FR_OK, w)),
     f_open = ex_open, f_fastopen = (\<lambda>i f w. (FR_NO_FILE, f, w)), f_close = (\<lambda>f w. (FR_OK, f, w)),
     f_lseek = (\<lambda>n f w. (FR_OK, (fst f, unat n), w)),
     f_read = (\<lambda>n f w. let d = take (unat n) (drop (snd f) (case map_of w (fst f) of None \<Rightarrow> [] | Some d \<Rightarrow> d))
        in ((FR_OK, d), (fst f, snd f + length d), w)),
     f_write = ex_write, f_sync = (\<lambda>f w. (FR_OK, f, w)), f_rewind = (\<lambda>f w. ((fst f, 0), w)),
     f_size = (\<lambda>f w. of_nat (length (case map_of w (fst f) of None \<Rightarrow> [] | Some d \<Rightarrow> d))),
     f_opendir = (\<lambda>p d w. (FR_OK, d, w)), f_fastopendir = (\<lambda>i d w. (FR_OK, d, w)), f_closedir = (\<lambda>d w. (FR_OK, d, w)),
     f_readdir = (\<lambda>d w. ((FR_OK, ex_filinfo []), d, w)), f_rewinddir = (\<lambda>d w. (d, w)),
     f_stat = (\<lambda>p w. (case map_of w p of None \<Rightarrow> (FR_NO_FILE, ex_filinfo []) | Some d \<Rightarrow> (FR_OK, ex_filinfo d), w)),
     f_rename = ex_rename, f_unlink = ex_unlink, OSCalendarTimeToTicks = (\<lambda>t. 0),
     device_inits = [\<lambda>w. (True, w)], device_message_id = (\<lambda>i. 0)\<rparr>"

text \<open>The flash file system: the archive's bytes and the position in it.  A file is its start and length.\<close>

definition ex_arc :: "(u32 \<times> u32, unit, unit, bytes \<times> nat) arc_sdk" where
  "ex_arc = \<lparr>NANDOpen = (\<lambda>p w. (0, w)), NANDPrivateOpen = (\<lambda>p w. (0, w)),
     NANDRead = (\<lambda>n (c, pos). let d = take (nat n) (drop pos c) in ((int (length d), d), c, pos + length d)),
     NANDSeek = (\<lambda>k (c, pos). if 0 \<le> k \<and> nat k \<le> length c then (k, c, nat k) else (-1, c, pos)),
     NANDClose = (\<lambda>w. (0, w)), OSAllocFromMEM1ArenaLo = (\<lambda>n w. (True, w)), OSAllocFromMEM2ArenaLo = (\<lambda>n w. (True, w)),
     ARCInitHandle = (\<lambda>m h. (True, h)), ARCOpen = (\<lambda>h p f. (False, f)), ARCFastOpen = (\<lambda>h i f. (False, f)),
     ARCConvertPathToEntrynum = (\<lambda>h p. -1), ARCGetStartOffset = fst, ARCGetLength = snd, ARCClose = (\<lambda>f. (True, f)),
     ARCOpenDir = (\<lambda>h p d. (False, d)), ARCFastOpenDir = (\<lambda>h i d. (False, d)), ARCReadDir = (\<lambda>d. (None, d)),
     ARCCloseDir = (\<lambda>d. (True, d)), ARCExClone = (\<lambda>a b. a), ARCExCloneDir = (\<lambda>a b. a),
     arc_stack_file = (0, 0), arc_stack_dir = ()\<rparr>"

definition ex_dvd :: "(unit, unit, unit) dvd_sdk" where
  "ex_dvd = \<lparr>DVDOpen = (\<lambda>p f w. (False, f, w)), DVDFastOpen = (\<lambda>i f w. (False, f, w)),
     DVDRead = (\<lambda>n off f w. ((-1, []), f, w)), DVDClose = (\<lambda>f w. (True, f, w)),
     DVDConvertPathToEntrynum = (\<lambda>p w. -1), DVDOpenDir = (\<lambda>p d w. (False, d, w)),
     DVDFastOpenDir = (\<lambda>i d w. (False, d, w)), DVDReadDir = (\<lambda>d w. (None, d, w)), DVDCloseDir = (\<lambda>d w. (True, d, w)),
     DVDExClone = (\<lambda>a b. a), DVDExCloneDir = (\<lambda>a b. a), dvd_file_length = (\<lambda>f. 0),
     dvd_stack_file = (), dvd_stack_dir = ()\<rparr>"

text \<open>The three storages after their construction, with two slots each to keep evaluation small.\<close>

definition ex_slots :: "'n \<Rightarrow> 'n slot list" where
  "ex_slots n = replicate 2 \<lparr>s_node = n, s_isOpen = False\<rparr>"

definition ex_fat_storage :: "(wstr \<times> nat, unit) fat_storage" where
  "ex_fat_storage = \<lparr>fat_files = ex_slots ([], 0), fat_dirs = ex_slots (), fat_prefixCount = 0,
     fat_prefixes = replicate 32 [], fat_ok = True, fat_s_storage = Some 0\<rparr>"

definition ex_nand_storage :: "(u32 \<times> u32, unit, unit) nand_storage" where
  "ex_nand_storage = \<lparr>nand_handle = (), nand_files = [\<lparr>s_node = (2, 40), s_isOpen = True\<rparr>], nand_dirs = ex_slots (),
     nand_buffer = True, nand_ok = True\<rparr>"

definition ex_dvd_storage :: "(unit, unit) dvd_storage" where
  "ex_dvd_storage = DVDStorage_new [()] [()]"

definition ex_stores :: "volume \<Rightarrow>
    ((wstr \<times> nat, unit, volume) fat_state, (u32 \<times> u32, unit, unit, bytes \<times> nat) nand_state, (unit, unit, unit) dvd_state) stores" where
  "ex_stores v = \<lparr>fatStorage = Some (v, ex_fat_storage), nandArchiveStorage = Some (([], 0), ex_nand_storage),
     dvdStorage = ((), ex_dvd_storage), st_s_storage = Some 0\<rparr>"

end
