(* ===== verification/Storage_Handles.thy ===== *)
theory Storage_Handles
  imports Storage_Examples
begin

text \<open>
  What the holders of file handles can rely on, whichever back end a file is in: handles are
  exclusive, the functions that open a file for one read or write leave no object open, and nothing
  but the FAT volume is ever written to.
\<close>

definition model_vtables ::
  "('ff, 'fd, 'fw) fat_sdk \<Rightarrow> ('nf, 'nd, 'nh, 'nw) arc_sdk \<Rightarrow> ('df, 'dd, 'dw) dvd_sdk \<Rightarrow>
   (('ff, 'fd, 'fw) fat_state, ('nf, 'nd, 'nh, 'nw) nand_state, ('df, 'dd, 'dw) dvd_state) vtables" where
  "model_vtables fsdk nsdk dsdk = \<lparr>vt_fat = FAT_vtable fsdk, vt_nand = NAND_vtable nsdk, vt_dvd = DVD_vtable dsdk\<rparr>"

type_synonym ('ff, 'fd, 'fw, 'nf, 'nd, 'nh, 'nw, 'df, 'dd, 'dw) model_stores =
  "(('ff, 'fd, 'fw) fat_state, ('nf, 'nd, 'nh, 'nw) nand_state, ('df, 'dd, 'dw) dvd_state) stores"

text \<open>The open files of all three.\<close>

definition files_in :: "('s \<Rightarrow> nat set) \<Rightarrow> 's option \<Rightarrow> nat set" where
  "files_in opened s = (case s of None \<Rightarrow> {} | Some x \<Rightarrow> opened x)"

definition opened_files :: "('ff, 'fd, 'fw, 'nf, 'nd, 'nh, 'nw, 'df, 'dd, 'dw) model_stores \<Rightarrow> handle set" where
  "opened_files st = {(t, i). i \<in> (case t of ST_FAT \<Rightarrow> files_in fat_open_files (fatStorage st)
     | ST_NANDArchive \<Rightarrow> files_in nand_open_files (nandArchiveStorage st)
     | ST_DVD \<Rightarrow> dvd_open_files (dvdStorage st))}"

lemma opened_files_mem:
  "(ST_FAT, i) \<in> opened_files st \<longleftrightarrow> i \<in> files_in fat_open_files (fatStorage st)"
  "(ST_NANDArchive, i) \<in> opened_files st \<longleftrightarrow> i \<in> files_in nand_open_files (nandArchiveStorage st)"
  "(ST_DVD, i) \<in> opened_files st \<longleftrightarrow> i \<in> dvd_open_files (dvdStorage st)"
  by (simp_all add: opened_files_def)

lemma handle_set_eqI: "(\<And>t i. (t, i) \<in> A \<longleftrightarrow> (t, i) \<in> B) \<Longrightarrow> A = B"
  by auto

lemma files_in_simps [simp]: "files_in f None = {}" "files_in f (Some s) = f s"
  by (simp_all add: files_in_def)

text \<open>A back end's law lifts to the set of all open files.\<close>

lemma on_fat_claimed:
  assumes "\<And>s r s'. f s = Some (r, s') \<Longrightarrow> claimed (fat_open_files s) r (fat_open_files s')"
    and "on_fat f st = Some (r, st')"
  shows "claimed (opened_files st) (map_option (Pair ST_FAT) r) (opened_files st')"
proof -
  obtain s s' where "fatStorage st = Some s" "f s = Some (r, s')" "st' = st\<lparr>fatStorage := Some s'\<rparr>"
    using assms(2) by (auto simp: on_fat_def fault_simps)
  then show ?thesis
    using assms(1) [of s r s'] by (cases r) (auto simp: opened_files_def split: StorageType.splits if_splits)
qed

lemma on_nand_claimed:
  assumes "\<And>s r s'. f s = Some (r, s') \<Longrightarrow> claimed (nand_open_files s) r (nand_open_files s')"
    and "on_nand f st = Some (r, st')"
  shows "claimed (opened_files st) (map_option (Pair ST_NANDArchive) r) (opened_files st')"
proof -
  obtain s s' where "nandArchiveStorage st = Some s" "f s = Some (r, s')" "st' = st\<lparr>nandArchiveStorage := Some s'\<rparr>"
    using assms(2) by (auto simp: on_nand_def fault_simps)
  then show ?thesis
    using assms(1) [of s r s'] by (cases r) (auto simp: opened_files_def split: StorageType.splits if_splits)
qed

lemma on_dvd_claimed:
  assumes "\<And>s r s'. f s = Some (r, s') \<Longrightarrow> claimed (dvd_open_files s) r (dvd_open_files s')"
    and "on_dvd f st = Some (r, st')"
  shows "claimed (opened_files st) (map_option (Pair ST_DVD) r) (opened_files st')"
proof -
  obtain s' where "f (dvdStorage st) = Some (r, s')" "st' = st\<lparr>dvdStorage := s'\<rparr>"
    using assms(2) by (auto simp: on_dvd_def fault_simps)
  then show ?thesis
    using assms(1) [of "dvdStorage st" r s'] by (cases r) (auto simp: opened_files_def split: StorageType.splits if_splits)
qed

lemmas on_claimed = on_fat_claimed on_nand_claimed on_dvd_claimed

text \<open>Opening by path and mode or by id.\<close>

definition Storage_acquire ::
  "('a, 'b, 'c) vtables \<Rightarrow> (wstr \<times> string) + node_id \<Rightarrow> ('a, 'b, 'c) stores \<Rightarrow> (file_handle \<times> ('a, 'b, 'c) stores) option" where
  "Storage_acquire vt q = (case q of Inl (path, mode) \<Rightarrow> Storage_Open vt path mode | Inr i \<Rightarrow> Storage_FastOpen vt i)"

lemma vtable_fields [simp]:
  "vt_fat (model_vtables f n d) = FAT_vtable f" "vt_nand (model_vtables f n d) = NAND_vtable n"
  "vt_dvd (model_vtables f n d) = DVD_vtable d"
  by (simp_all add: model_vtables_def)

lemma open_claimed:
  "FAT_open f path mode s = Some (r, s') \<Longrightarrow> claimed (fat_open_files s) r (fat_open_files s')"
  "NAND_open n path mode t = Some (r, t') \<Longrightarrow> claimed (nand_open_files t) r (nand_open_files t')"
  "DVD_open d path mode u = Some (r, u') \<Longrightarrow> claimed (dvd_open_files u) r (dvd_open_files u')"
  using fat_file_pool.acquire_law [of f "Inl (path, mode)" s r s'] nand_file_pool.acquire_law [of n "Inl (path, mode)" t r t']
    dvd_file_pool.acquire_law [of d "Inl (path, mode)" u r u']
  by (simp_all add: FAT_acquire_def NAND_acquire_def DVD_acquire_def)

lemma fastOpen_claimed:
  "FAT_fastOpen f i s = Some (r, s') \<Longrightarrow> claimed (fat_open_files s) r (fat_open_files s')"
  "NAND_fastOpen n i t = Some (r, t') \<Longrightarrow> claimed (nand_open_files t) r (nand_open_files t')"
  "DVD_fastOpen d i u = Some (r, u') \<Longrightarrow> claimed (dvd_open_files u) r (dvd_open_files u')"
  using fat_file_pool.acquire_law [of f "Inr i" s r s'] nand_file_pool.acquire_law [of n "Inr i" t r t']
    dvd_file_pool.acquire_law [of d "Inr i" u r u']
  by (simp_all add: FAT_acquire_def NAND_acquire_def DVD_acquire_def)

lemmas vtable_defs = FAT_vtable_def NAND_vtable_def DVD_vtable_def

lemma Storage_Open_claimed:
  assumes "Storage_Open (model_vtables f n d) path mode st = Some (r, st')"
  shows "claimed (opened_files st) r (opened_files st')"
proof -
  let ?open = "(\<lambda>r. r \<noteq> None)"
  obtain r1 st1 where 1: "on_fat (FAT_open f path mode) st = Some (r1, st1)"
    using assms by (auto simp: Storage_Open_def Dispatch_def vtable_defs fault_simps)
  note c1 = on_claimed(1) [OF open_claimed(1) 1]
  show ?thesis
  proof (cases r1)
    case (Some i)
    then show ?thesis
      using assms 1 c1 by (auto simp: Storage_Open_def Dispatch_def vtable_defs as_handle_def fault_simps)
  next
    case None
    then obtain r2 st2 where 2: "on_nand (NAND_open n path mode) st1 = Some (r2, st2)"
      using assms 1 by (auto simp: Storage_Open_def Dispatch_def vtable_defs fault_simps)
    note c2 = on_claimed(2) [OF open_claimed(2) 2]
    show ?thesis
    proof (cases r2)
      case (Some i)
      then show ?thesis
        using assms 1 2 c1 c2 None by (auto simp: Storage_Open_def Dispatch_def vtable_defs as_handle_def fault_simps)
    next
      case r2: None
      then obtain r3 st3 where 3: "on_dvd (DVD_open d path mode) st2 = Some (r3, st3)"
        using assms 1 2 None by (auto simp: Storage_Open_def Dispatch_def vtable_defs fault_simps)
      show ?thesis
        using on_claimed(3) [OF open_claimed(3) 3] assms 1 2 3 c1 c2 None r2
        by (auto simp: Storage_Open_def Dispatch_def vtable_defs as_handle_def fault_simps)
    qed
  qed
qed

lemma Storage_FastOpen_claimed:
  assumes "Storage_FastOpen (model_vtables f n d) i st = Some (r, st')"
  shows "claimed (opened_files st) r (opened_files st')"
proof -
  obtain t r1 where "nid_storage i = Some t" and r: "tagged t (r1, st') = (r, st')"
    and call: "call_on t (FAT_fastOpen f (nid_id i)) (NAND_fastOpen n (nid_id i)) (DVD_fastOpen d (nid_id i)) st = Some (r1, st')"
    using assms by (auto simp: Storage_FastOpen_def tagged_def vtable_defs fault_simps)
  then show ?thesis
    by (cases t) (auto simp: call_on_def tagged_def intro: on_claimed(1) [OF fastOpen_claimed(1)]
        on_claimed(2) [OF fastOpen_claimed(2)] on_claimed(3) [OF fastOpen_claimed(3)])
qed

lemma clone_claimed:
  assumes "h \<in> opened_files st" and "FileHandle_clone (model_vtables f n d) h st = Some (r, st')"
  shows "claimed (opened_files st) r (opened_files st')"
proof -
  obtain t i where h: "h = (t, i)" by force
  obtain r1 where r: "r = map_option (Pair t) r1"
    and call: "call_on t (FAT_file_clone f i) (NAND_file_clone n i) (DVD_file_clone d i) st = Some (r1, st')"
    using assms(2) h by (auto simp: FileHandle_clone_def tagged_def vtable_defs)
  show ?thesis
  proof (cases t)
    case ST_FAT
    then obtain s s' where "fatStorage st = Some s" "FAT_file_clone f i s = Some (r1, s')" "st' = st\<lparr>fatStorage := Some s'\<rparr>"
      using call by (auto simp: call_on_def on_fat_def fault_simps)
    then show ?thesis
      using fat_file_pool.duplicate_law [of i s f r1 s'] assms(1) h r ST_FAT
      by (cases r1) (auto simp: opened_files_def split: StorageType.splits if_splits)
  next
    case ST_NANDArchive
    then obtain s s' where "nandArchiveStorage st = Some s" "NAND_file_clone n i s = Some (r1, s')"
      "st' = st\<lparr>nandArchiveStorage := Some s'\<rparr>"
      using call by (auto simp: call_on_def on_nand_def fault_simps)
    then show ?thesis
      using nand_file_pool.duplicate_law [of i s n r1 s'] assms(1) h r ST_NANDArchive
      by (cases r1) (auto simp: opened_files_def split: StorageType.splits if_splits)
  next
    case ST_DVD
    then obtain s' where "DVD_file_clone d i (dvdStorage st) = Some (r1, s')" "st' = st\<lparr>dvdStorage := s'\<rparr>"
      using call by (auto simp: call_on_def on_dvd_def fault_simps)
    then show ?thesis
      using dvd_file_pool.duplicate_law [of i "dvdStorage st" d r1 s'] assms(1) h r ST_DVD
      by (cases r1) (auto simp: opened_files_def split: StorageType.splits if_splits)
  qed
qed

lemma close_opened:
  assumes "FileHandle_close (model_vtables f n d) h st = Some (ok, st')"
  shows "opened_files st' = (if ok then opened_files st - {h} else opened_files st)"
proof -
  obtain t i where h: "h = (t, i)" by force
  have call: "call_on t (FAT_file_close f i) (NAND_file_close n i) (DVD_file_close d i) st = Some (ok, st')"
    using assms h by (auto simp: FileHandle_close_def vtable_defs)
  show ?thesis
  proof (cases t)
    case ST_FAT
    then obtain s s' where "fatStorage st = Some s" "FAT_file_close f i s = Some (ok, s')" "st' = st\<lparr>fatStorage := Some s'\<rparr>"
      using call by (auto simp: call_on_def on_fat_def fault_simps)
    then show ?thesis
      using fat_file_pool.release_law [of f i s ok s'] h ST_FAT
      by (intro handle_set_eqI; rename_tac u j; case_tac u; cases ok) (auto simp: opened_files_mem)
  next
    case ST_NANDArchive
    then obtain s s' where "nandArchiveStorage st = Some s" "NAND_file_close n i s = Some (ok, s')"
      "st' = st\<lparr>nandArchiveStorage := Some s'\<rparr>"
      using call by (auto simp: call_on_def on_nand_def fault_simps)
    then show ?thesis
      using nand_file_pool.release_law [of n i s ok s'] h ST_NANDArchive
      by (intro handle_set_eqI; rename_tac u j; case_tac u; cases ok) (auto simp: opened_files_mem)
  next
    case ST_DVD
    then obtain s' where "DVD_file_close d i (dvdStorage st) = Some (ok, s')" "st' = st\<lparr>dvdStorage := s'\<rparr>"
      using call by (auto simp: call_on_def on_dvd_def fault_simps)
    then show ?thesis
      using dvd_file_pool.release_law [of d i "dvdStorage st" ok s'] h ST_DVD
      by (intro handle_set_eqI; rename_tac u j; case_tac u; cases ok) (auto simp: opened_files_mem)
  qed
qed

interpretation storage_files: handle_store opened_files "Storage_acquire (model_vtables f n d)"
  "FileHandle_clone (model_vtables f n d)" "FileHandle_close (model_vtables f n d)"
  for f :: "('ff, 'fd, 'fw) fat_sdk" and n :: "('nf, 'nd, 'nh, 'nw) arc_sdk" and d :: "('df, 'dd, 'dw) dvd_sdk"
  by unfold_locales
    (auto simp: Storage_acquire_def split: sum.splits prod.splits
      dest: Storage_Open_claimed Storage_FastOpen_claimed clone_claimed close_opened)

text \<open>C15: However files are opened, cloned and closed over the three back ends, the handles held refer
  to distinct slots, and each of these slots is open.\<close>

theorem handles_exclusive:
  assumes "handle_run (Storage_acquire (model_vtables f n d)) (FileHandle_clone (model_vtables f n d))
      (FileHandle_close (model_vtables f n d)) ps ([], st) = Some (hs, st')"
  shows "distinct hs \<and> set hs \<subseteq> opened_files st'"
  using storage_files.run_exclusive [OF _ assms] by (simp add: exclusive_def)

section \<open>Nothing stays open\<close>

definition keeps :: "('s \<Rightarrow> 'x) \<Rightarrow> ('s \<Rightarrow> ('r \<times> 's) option) \<Rightarrow> bool" where
  "keeps f op \<longleftrightarrow> (\<forall>s r s'. op s = Some (r, s') \<longrightarrow> f s' = f s)"

lemma keepsI: "(\<And>s r s'. op s = Some (r, s') \<Longrightarrow> f s' = f s) \<Longrightarrow> keeps f op"
  by (simp add: keeps_def)

lemma keepsD: "keeps f op \<Longrightarrow> op s = Some (r, s') \<Longrightarrow> f s' = f s"
  by (simp add: keeps_def)

lemma on_keeps:
  "keeps fat_open_files f \<Longrightarrow> keeps opened_files (on_fat f)"
  "keeps nand_open_files g \<Longrightarrow> keeps opened_files (on_nand g)"
  "keeps dvd_open_files h \<Longrightarrow> keeps opened_files (on_dvd h)"
proof -
  show "keeps fat_open_files f \<Longrightarrow> keeps opened_files (on_fat f)"
    by (rule keepsI) (auto simp: on_fat_def fault_simps opened_files_def dest!: keepsD split: StorageType.splits)
  show "keeps nand_open_files g \<Longrightarrow> keeps opened_files (on_nand g)"
    by (rule keepsI) (auto simp: on_nand_def fault_simps opened_files_def dest!: keepsD split: StorageType.splits)
  show "keeps dvd_open_files h \<Longrightarrow> keeps opened_files (on_dvd h)"
    by (rule keepsI) (auto simp: on_dvd_def fault_simps opened_files_def dest!: keepsD split: StorageType.splits)
qed

lemma call_on_keeps:
  "keeps fat_open_files f \<Longrightarrow> keeps nand_open_files g \<Longrightarrow> keeps dvd_open_files h \<Longrightarrow>
   keeps opened_files (call_on t f g h)"
  by (cases t) (simp_all add: call_on_def on_keeps)

lemma Dispatch_keeps:
  assumes "keeps fat_open_files f" and "keeps nand_open_files g" and "keeps dvd_open_files h"
  shows "keeps opened_files (Dispatch good f g h)"
  by (rule keepsI) (auto simp: Dispatch_def fault_simps split: if_splits
      dest!: keepsD [OF on_keeps(1) [OF assms(1)]] keepsD [OF on_keeps(2) [OF assms(2)]] keepsD [OF on_keeps(3) [OF assms(3)]])

text \<open>Reads, writes, renames and removals leave the flags alone.\<close>

lemma file_ops_keep:
  "keeps fat_open_files (FAT_file_read f m off i)" "keeps fat_open_files (FAT_file_write f src off i)"
  "keeps nand_open_files (NAND_file_read n dst m off i)" "keeps nand_open_files (NAND_file_write src off i)"
  "keeps dvd_open_files (DVD_file_read d dst m off i)" "keeps dvd_open_files (DVD_file_write src off i)"
  by (auto simp: keeps_def FAT_file_read_def FAT_file_write_def NAND_file_read_def NAND_file_write_def DVD_file_read_def
      DVD_file_write_def fat_open_files_def nand_open_files_def dvd_open_files_def fault_simps Let_def
      dest: with_slot_open split: prod.splits if_splits)

lemma path_ops_keep:
  "keeps fat_open_files (FAT_rename f p q)" "keeps fat_open_files (FAT_remove f p a)"
  "keeps nand_open_files (NAND_rename p q)" "keeps nand_open_files (NAND_remove p a)"
  "keeps dvd_open_files (DVD_rename p q)" "keeps dvd_open_files (DVD_remove p a)"
  by (auto simp: keeps_def FAT_rename_def FAT_remove_def NAND_rename_def NAND_remove_def DVD_rename_def DVD_remove_def
      fat_open_files_def fault_simps Let_def case_prod_beta dest!: FAT_convertPath_frame)

lemma handle_ops_keep:
  "keeps opened_files (FileHandle_read (model_vtables f n d) dst m off h)"
  "keeps opened_files (FileHandle_write (model_vtables f n d) src off h)"
  "keeps opened_files (Storage_Rename (model_vtables f n d) p q)"
  "keeps opened_files (Storage_Remove (model_vtables f n d) p a)"
proof -
  obtain t i where h: "h = (t, i)" by force
  show "keeps opened_files (FileHandle_read (model_vtables f n d) dst m off h)"
    unfolding h by (intro keepsI) (auto simp: FileHandle_read_def vtable_defs fault_simps
        dest!: keepsD [OF call_on_keeps [OF file_ops_keep(1,3,5)]])
  show "keeps opened_files (FileHandle_write (model_vtables f n d) src off h)"
    using call_on_keeps [OF file_ops_keep(2,4,6)] unfolding h by (simp add: FileHandle_write_def vtable_defs)
  show "keeps opened_files (Storage_Rename (model_vtables f n d) p q)"
    by (intro keepsI) (auto simp: Storage_Rename_def vtable_defs dest!: keepsD [OF Dispatch_keeps [OF path_ops_keep(1,3,5)]])
  show "keeps opened_files (Storage_Remove (model_vtables f n d) p a)"
    by (intro keepsI) (auto simp: Storage_Remove_def vtable_defs dest!: keepsD [OF Dispatch_keeps [OF path_ops_keep(2,4,6)]])
qed

text \<open>The libraries can close what they have opened.\<close>

definition closes_work :: "('ff, 'fd, 'fw) fat_sdk \<Rightarrow> ('nf, 'nd, 'nh, 'nw) arc_sdk \<Rightarrow> ('df, 'dd, 'dw) dvd_sdk \<Rightarrow> bool" where
  "closes_work f n d \<longleftrightarrow> (\<forall>x w. fst (f_close f x w) = FR_OK) \<and> (\<forall>x. fst (ARCClose n x)) \<and> (\<forall>x w. fst (DVDClose d x w))"

lemma close_slot_ok: "(\<And>x w. fst (shut x w)) \<Longrightarrow> close_slot shut i w nodes = Some (ok, r) \<Longrightarrow> ok"
  by (auto simp: close_slot_def fault_simps Let_def split: prod.splits if_splits) (metis fst_conv)

lemma back_end_close_ok:
  assumes "closes_work f n d"
  shows "FAT_file_close f i s = Some (ok, s') \<Longrightarrow> ok" "NAND_file_close n i t = Some (ok, t') \<Longrightarrow> ok"
    "DVD_file_close d i u = Some (ok, u') \<Longrightarrow> ok"
proof -
  have fat: "fst (case f_close f x w of (r, y) \<Rightarrow> (r = FR_OK, y))" for x w
    using assms unfolding closes_work_def case_prod_beta by simp
  have nand: "fst (fst (ARCClose n x), snd (ARCClose n x), w)" for x and w :: 'z
    using assms by (simp add: closes_work_def)
  have dvd: "fst (DVDClose d x w)" for x w
    using assms by (simp add: closes_work_def)
  show "FAT_file_close f i s = Some (ok, s') \<Longrightarrow> ok"
    by (cases s) (auto simp: FAT_file_close_def fault_simps dest: close_slot_ok [OF fat])
  show "NAND_file_close n i t = Some (ok, t') \<Longrightarrow> ok"
    by (cases t) (auto simp: NAND_file_close_def fault_simps dest: close_slot_ok [OF nand])
  show "DVD_file_close d i u = Some (ok, u') \<Longrightarrow> ok"
    by (cases u) (auto simp: DVD_file_close_def fault_simps dest: close_slot_ok [OF dvd])
qed

lemma close_succeeds:
  assumes "closes_work f n d" and "FileHandle_close (model_vtables f n d) h st = Some (ok, st')"
  shows "ok"
proof -
  obtain t i where h: "h = (t, i)" by force
  show ?thesis
    using assms(2)
    by (cases t) (auto simp: h FileHandle_close_def call_on_def vtable_defs on_fat_def on_nand_def on_dvd_def fault_simps
        dest: back_end_close_ok [OF assms(1)])
qed

lemma destroy_closes:
  assumes "closes_work f n d" and "FileHandle_destroy (model_vtables f n d) (Some h) st = Some st'"
  shows "opened_files st' = opened_files st - {h}"
  using assms close_succeeds [of f n d h st] close_opened [of f n d h st]
  by (auto simp: FileHandle_destroy_def)

lemma read_opened_leak:
  assumes ok: "closes_work f n d" and r: "claimed A r (opened_files st)"
    and run: "read_opened (model_vtables f n d) dst m (r, st) = Some (x, st')"
  shows "opened_files st' = A"
proof (cases r)
  case None
  then show ?thesis using assms by (simp add: read_opened_def)
next
  case (Some h)
  then obtain m' y st1 where read: "FileHandle_read (model_vtables f n d) dst m' 0 h st = Some (y, st1)"
    and close: "FileHandle_destroy (model_vtables f n d) (Some h) st1 = Some st'"
    using run by (auto simp: read_opened_def fault_simps Let_def)
  show ?thesis using keepsD [OF handle_ops_keep(1) read] destroy_closes [OF ok close] r Some by auto
qed

lemma write_opened_leak:
  assumes ok: "closes_work f n d" and r: "claimed A r (opened_files st)"
    and run: "write_opened (model_vtables f n d) src (r, st) = Some (x, st')"
  shows "opened_files st' = A"
proof (cases r)
  case None
  then show ?thesis using assms by (simp add: write_opened_def)
next
  case (Some h)
  then obtain y st1 where "write": "FileHandle_write (model_vtables f n d) src 0 h st = Some (y, st1)"
    and close: "FileHandle_destroy (model_vtables f n d) (Some h) st1 = Some st'"
    using run by (auto simp: write_opened_def fault_simps)
  show ?thesis using keepsD [OF handle_ops_keep(2) "write"] destroy_closes [OF ok close] r Some by auto
qed

lemma replace_file_keeps: "keeps opened_files (replace_file (model_vtables f n d) path)"
  by (rule keepsI) (auto simp: replace_file_def fault_simps dest!: keepsD [OF handle_ops_keep(3)] keepsD [OF handle_ops_keep(4)]
      split: if_splits)

text \<open>C28: ReadFile, FastReadFile and WriteFile leave no file open. When the libraries' close functions
  succeed, the same slots are open afterwards as before, on every way out.\<close>

theorem no_handle_leak:
  assumes ok: "closes_work f n d"
  shows "keeps opened_files (Storage_ReadFile (model_vtables f n d) path dst m) \<and>
    keeps opened_files (Storage_FastReadFile (model_vtables f n d) i dst m) \<and>
    keeps opened_files (Storage_WriteFile (model_vtables f n d) path src overwrite)"
proof (intro conjI keepsI)
  fix s r s'
  show "Storage_ReadFile (model_vtables f n d) path dst m s = Some (r, s') \<Longrightarrow> opened_files s' = opened_files s"
    by (auto simp: Storage_ReadFile_def fault_simps dest!: Storage_Open_claimed dest: read_opened_leak [OF ok])
next
  fix s r s'
  show "Storage_FastReadFile (model_vtables f n d) i dst m s = Some (r, s') \<Longrightarrow> opened_files s' = opened_files s"
    by (auto simp: Storage_FastReadFile_def fault_simps dest!: Storage_FastOpen_claimed dest: read_opened_leak [OF ok])
next
  fix s r s'
  show "Storage_WriteFile (model_vtables f n d) path src overwrite s = Some (r, s') \<Longrightarrow> opened_files s' = opened_files s"
    by (auto simp: Storage_WriteFile_def fault_simps split: if_splits dest!: Storage_Open_claimed
        dest: write_opened_leak [OF ok] keepsD [OF replace_file_keeps])
qed

section \<open>Writes reach the FAT volume only\<close>

section \<open>Writes reach the FAT volume only\<close>

lemma read_only_refuse:
  "NAND_open n path mode t = Some (r, t') \<Longrightarrow> mode \<noteq> ''r'' \<Longrightarrow> r = None \<and> t' = t"
  "DVD_open d path mode u = Some (r, u') \<Longrightarrow> mode \<noteq> ''r'' \<Longrightarrow> r = None \<and> u' = u"
  by (auto simp: NAND_open_def DVD_open_def)

text \<open>The state of the read-only back ends.\<close>

definition read_only :: "('a, 'b, 'c) stores \<Rightarrow> 'b option \<times> 'c" where
  "read_only st = (nandArchiveStorage st, dvdStorage st)"

lemma Dispatch_read_only:
  assumes "Dispatch good f g h st = Some ((t, r), st')"
    and "\<And>s r s'. g s = Some (r, s') \<Longrightarrow> \<not> good r \<and> s' = s" and "\<And>s r s'. h s = Some (r, s') \<Longrightarrow> \<not> good r \<and> s' = s"
  shows "(good r \<longrightarrow> t = ST_FAT) \<and> read_only st' = read_only st"
  using assms(1)
  by (auto simp: Dispatch_def on_fat_def on_nand_def on_dvd_def read_only_def fault_simps
      split: if_splits dest!: assms(2,3))

lemma writes_only_to_fat:
  "(mode \<noteq> ''r'' \<and> Storage_Open (model_vtables f n d) path mode st = Some (h, st') \<longrightarrow>
     (\<forall>t i. h = Some (t, i) \<longrightarrow> t = ST_FAT) \<and> read_only st' = read_only st) \<and>
   keeps read_only (Storage_CreateDir (model_vtables f n d) path allowNop) \<and>
   keeps read_only (Storage_Remove (model_vtables f n d) path allowNop) \<and>
   keeps read_only (Storage_Rename (model_vtables f n d) path path')"
proof (intro conjI impI keepsI)
  assume a: "mode \<noteq> ''r'' \<and> Storage_Open (model_vtables f n d) path mode st = Some (h, st')"
  then obtain t r where dis: "Dispatch (\<lambda>r. r \<noteq> None) (FAT_open f path mode) (NAND_open n path mode) (DVD_open d path mode) st
      = Some ((t, r), st')" and h: "h = map_option (Pair t) r"
    by (auto simp: Storage_Open_def as_handle_def vtable_defs)
  have "(r \<noteq> None \<longrightarrow> t = ST_FAT) \<and> read_only st' = read_only st"
    by (rule Dispatch_read_only [OF dis]) (use read_only_refuse a in blast)+
  then show "\<forall>t i. h = Some (t, i) \<longrightarrow> t = ST_FAT" "read_only st' = read_only st"
    using h by auto
next
  fix s r s'
  show "Storage_CreateDir (model_vtables f n d) path allowNop s = Some (r, s') \<Longrightarrow> read_only s' = read_only s"
    by (auto simp: Storage_CreateDir_def vtable_defs NAND_createDir_def DVD_createDir_def dest!: Dispatch_read_only)
next
  fix s r s'
  show "Storage_Remove (model_vtables f n d) path allowNop s = Some (r, s') \<Longrightarrow> read_only s' = read_only s"
    by (auto simp: Storage_Remove_def vtable_defs NAND_remove_def DVD_remove_def dest!: Dispatch_read_only)
next
  fix s r s'
  show "Storage_Rename (model_vtables f n d) path path' s = Some (r, s') \<Longrightarrow> read_only s' = read_only s"
    by (auto simp: Storage_Rename_def vtable_defs NAND_rename_def DVD_rename_def dest!: Dispatch_read_only)
qed

section \<open>The example storages\<close>

definition ex_vt :: "((wstr \<times> nat, unit, volume) fat_state, (u32 \<times> u32, unit, unit, bytes \<times> nat) nand_state, (unit, unit, unit) dvd_state) vtables" where
  "ex_vt = model_vtables ex_fat ex_arc ex_dvd"

definition cfg_path :: wstr where
  "cfg_path = wide ''/mkw-sp/a''"

theorem handles_exclusive_witness:
  "\<exists>st. handle_run (Storage_acquire ex_vt) (FileHandle_clone ex_vt) (FileHandle_close ex_vt)
     [HOpen (Inl (cfg_path, ''w'')), HClone 0, HDestroy 0, HOpen (Inl (cfg_path, ''r''))] ([], ex_stores [])
     = Some ([(ST_FAT, 1), (ST_FAT, 0)], st) \<and> {(ST_FAT, 1), (ST_FAT, 0)} \<subseteq> opened_files st"
proof -
  have "map_option fst (handle_run (Storage_acquire ex_vt) (FileHandle_clone ex_vt) (FileHandle_close ex_vt)
     [HOpen (Inl (cfg_path, ''w'')), HClone 0, HDestroy 0, HOpen (Inl (cfg_path, ''r''))] ([], ex_stores []))
     = Some [(ST_FAT, 1), (ST_FAT, 0)]"
    by code_simp
  then obtain st where "handle_run (Storage_acquire ex_vt) (FileHandle_clone ex_vt) (FileHandle_close ex_vt)
     [HOpen (Inl (cfg_path, ''w'')), HClone 0, HDestroy 0, HOpen (Inl (cfg_path, ''r''))] ([], ex_stores [])
     = Some ([(ST_FAT, 1), (ST_FAT, 0)], st)"
    by auto
  then show ?thesis using handles_exclusive [of ex_fat ex_arc ex_dvd] unfolding ex_vt_def by fastforce
qed

theorem no_handle_leak_witness:
  "\<exists>st. Storage_WriteFile ex_vt cfg_path [1, 2] True (ex_stores []) = Some (True, st) \<and> opened_files st = opened_files (ex_stores [])"
proof -
  have "map_option fst (Storage_WriteFile ex_vt cfg_path [1, 2] True (ex_stores [])) = Some True" by code_simp
  then obtain st where st: "Storage_WriteFile ex_vt cfg_path [1, 2] True (ex_stores []) = Some (True, st)" by auto
  have "closes_work ex_fat ex_arc ex_dvd"
    by (simp add: closes_work_def ex_fat_def ex_arc_def ex_dvd_def)
  then have "keeps opened_files (Storage_WriteFile ex_vt cfg_path [1, 2] True)"
    using no_handle_leak unfolding ex_vt_def by blast
  then have "opened_files st = opened_files (ex_stores [])" using st by (rule keepsD)
  then show ?thesis using st by (intro exI conjI)
qed

lemma writes_only_to_fat_witness:
  "\<exists>i st. Storage_Open ex_vt cfg_path ''wx'' (ex_stores []) = Some (Some (ST_FAT, i), st) \<and> read_only st = read_only (ex_stores [])"
proof -
  have "map_option (map_option snd \<circ> fst) (Storage_Open ex_vt cfg_path ''wx'' (ex_stores [])) = Some (Some 0)" by code_simp
  then obtain t st where "Storage_Open ex_vt cfg_path ''wx'' (ex_stores []) = Some (Some (t, 0), st)" by auto
  moreover have "''wx'' \<noteq> ''r''" by simp
  ultimately show ?thesis using writes_only_to_fat unfolding ex_vt_def by blast
qed

end
