(* ===== verification/Load_Files.thy ===== *)
theory Load_Files
  imports Decomp_Loader Storage_Handles
begin

text \<open>
  What a load guarantees.  The two threads are back at their starting points whatever happens on
  the way and the file is closed; and the double buffering is invisible: a load is the decoder run over the
  chunks of the file, one after the other.
\<close>

section \<open>Both threads end where they started\<close>

fun held :: "reader \<Rightarrow> file_handle" where
  "held Resting = None"
| "held (Failing g) = g"
| "held (Reading h _ _ _) = Some h"

lemma ReadOptStorage_claimed:
  assumes "ReadOptStorage (model_vtables f n d) path t st = Some (r, st')"
  shows "claimed (opened_files st) r (opened_files st')"
proof (cases t)
  case None
  then show ?thesis using assms Storage_Open_claimed by (auto simp: ReadOptStorage_def)
next
  case (Some u)
  then obtain r1 where "r = map_option (Pair u) r1"
    and "call_on u (FAT_open f path ''r'') (NAND_open n path ''r'') (DVD_open d path ''r'') st = Some (r1, st')"
    using assms by (auto simp: ReadOptStorage_def tagged_def vtable_defs)
  then show ?thesis
    by (cases u) (auto simp: call_on_def intro: on_claimed(1) [OF open_claimed(1)]
        on_claimed(2) [OF open_claimed(2)] on_claimed(3) [OF open_claimed(3)])
qed

lemma DecompLoader_Open_claimed:
  assumes "DecompLoader_Open (model_vtables f n d) path t st = Some (r, st')"
  shows "claimed (opened_files st) r (opened_files st')"
proof (cases "starts_with ro_colon path \<and> ends_with szs path")
  case False
  then show ?thesis
    using assms unfolding DecompLoader_Open_def Let_def by (auto dest: ReadOptStorage_claimed)
next
  case True
  let ?base = "widen (take (length path - length szs) path)"
  obtain r1 st1 where 1: "ReadOptStorage (model_vtables f n d) (printed 128 (?base @ wide ''.arc.lzma'')) t st = Some (r1, st1)"
    using assms True by (auto simp: DecompLoader_Open_def Let_def fault_simps)
  show ?thesis
  proof (cases r1)
    case (Some h)
    then show ?thesis using assms True 1 by (auto simp: DecompLoader_Open_def Let_def dest: ReadOptStorage_claimed)
  next
    case None
    note c1 = ReadOptStorage_claimed [OF 1]
    obtain r2 st2 where 2: "ReadOptStorage (model_vtables f n d) (printed 128 (?base @ wide ''.wbz'')) t st1 = Some (r2, st2)"
      using assms True 1 None by (auto simp: DecompLoader_Open_def Let_def fault_simps)
    note c2 = ReadOptStorage_claimed [OF 2]
    show ?thesis
      using assms True 1 2 None c1 c2
      by (cases r2) (auto simp: DecompLoader_Open_def Let_def dest!: ReadOptStorage_claimed)
  qed
qed

text \<open>The reader holds at most the file it has opened, and has rested only after a last offer.\<close>

definition holds :: "handle set \<Rightarrow> ('ff, 'fd, 'fw, 'nf, 'nd, 'nh, 'nw, 'df, 'dd, 'dw) model_stores \<Rightarrow> reader \<Rightarrow> bool" where
  "holds A st r \<longleftrightarrow> claimed A (held r) (opened_files st)"

lemma destroy_held:
  assumes ok: "closes_work f n d" and "claimed A g (opened_files st)"
    and "FileHandle_destroy (model_vtables f n d) g st = Some st'"
  shows "opened_files st' = A"
proof (cases g)
  case None
  then show ?thesis using assms by (simp add: FileHandle_destroy_def)
next
  case (Some h)
  then show ?thesis using assms destroy_closes [OF ok, of h st st'] by auto
qed

lemma update_left_holds:
  assumes ok: "closes_work f n d" and h: "holds A st r"
    and run: "update_left (model_vtables f n d) addr go (r, srcs, st) = Some (v, r', srcs', st')"
  shows "holds A st' r' \<and> (r' \<noteq> Resting \<longrightarrow> go \<and> 0 < v)"
proof (cases r)
  case Resting
  then show ?thesis using run by (simp add: update_left_def)
next
  case (Failing g)
  then show ?thesis using run h destroy_held [OF ok, of A g st st']
    by (auto simp: update_left_def holds_def fault_simps)
next
  case (Reading x n' off i)
  show ?thesis
  proof (cases "ucast off < n'")
    case False
    then show ?thesis using run h Reading destroy_held [OF ok, of A "Some x" st st']
      by (auto simp: update_left_def holds_def fault_simps)
  next
    case True
    then have pos: "0 < chunk_size n' off"
      by (auto simp: chunk_size_def SRC_SIZE_def unat_gt_0)
    obtain read data st1 where rd: "FileHandle_read (model_vtables f n d) (addr + of_nat (i * SRC_SIZE)) (of_nat (chunk_size n' off)) off x st
        = Some ((read, data), st1)"
      using run Reading True by (auto simp: update_left_def Let_def fault_simps)
    have keep: "opened_files st1 = opened_files st" using keepsD [OF handle_ops_keep(1) rd] .
    show ?thesis using run h Reading True rd keep pos destroy_held [OF ok, of A "Some x" st1 st']
      by (auto simp: update_left_def holds_def Let_def fault_simps split: if_splits)
  qed
qed

lemma load_stop_holds:
  assumes ok: "closes_work f n d" and h: "holds A st r"
    and run: "load_stop (model_vtables f n d) addr (r, srcs, st) = Some (x, r', srcs', st')"
  shows "r' = Resting \<and> opened_files st' = A"
  using run update_left_holds [OF ok h, of addr False srcs] by (auto simp: load_stop_def holds_def fault_simps)

lemma load_loop_holds:
  assumes ok: "closes_work f n d"
    and run: "load_loop (model_vtables f n d) addr env dec i src (r, srcs, st) = Some (x, r', srcs', st')"
    and h: "holds A st r"
  shows "r' = Resting \<and> opened_files st' = A"
proof -
  have "vt = model_vtables f n d \<longrightarrow> holds A (snd (snd s)) (fst s) \<longrightarrow>
      fst (snd y) = Resting \<and> opened_files (snd (snd (snd y))) = A"
    if "load_loop vt addr env dec i src s = Some y" for vt s y
  proof (rule load_loop.raw_induct [OF _ that])
    fix rec vt addr and env :: "'o decode_env" and dec i src s y
    assume IH: "\<And>vt addr env dec i src s y. rec vt addr env dec i src s = Some y \<Longrightarrow>
        vt = model_vtables f n d \<longrightarrow> holds A (snd (snd s)) (fst s) \<longrightarrow>
        fst (snd y) = Resting \<and> opened_files (snd (snd (snd y))) = A"
      and run: "(if \<not> decoder_ok dec \<or> decoder_done dec then load_stop vt addr s
        else do {
          (more, dec) \<leftarrow> decoder_decode env src dec;
          if \<not> more then load_stop vt addr s
          else do {
            (srcSize, s) \<leftarrow> update_left vt addr True s;
            if srcSize < 0 \<or> srcSize = 0 \<and> \<not> decoder_done dec then Some (None, s)
            else if srcSize = 0 \<and> decoder_done dec then do { r \<leftarrow> decoder_release env dec; Some (Some r, s) }
            else let i = (i + 1) mod 2 in rec vt addr env dec i (take (nat srcSize) (fst (snd s) i)) s
          }
        }) = Some y"
    show "vt = model_vtables f n d \<longrightarrow> holds A (snd (snd s)) (fst s) \<longrightarrow>
        fst (snd y) = Resting \<and> opened_files (snd (snd (snd y))) = A"
    proof (intro impI)
      assume vt: "vt = model_vtables f n d" and h: "holds A (snd (snd s)) (fst s)"
      show "fst (snd y) = Resting \<and> opened_files (snd (snd (snd y))) = A"
      proof (cases "load_stop vt addr s = Some y")
        case True
        then show ?thesis using load_stop_holds [OF ok h, of addr "fst (snd s)"] vt by (cases y) auto
      next
        case False
        then obtain dec' v s' where up: "update_left vt addr True s = Some (v, s')"
          and rest: "(if v < 0 \<or> v = 0 \<and> \<not> decoder_done dec' then Some (None, s')
            else if v = 0 \<and> decoder_done dec' then do { r \<leftarrow> decoder_release env dec'; Some (Some r, s') }
            else let i = (i + 1) mod 2 in rec vt addr env dec' i (take (nat v) (fst (snd s') i)) s') = Some y"
        proof -
          have go: "decoder_ok dec" "\<not> decoder_done dec" using run False by (auto split: if_splits)
          then obtain more dec' where dd: "decoder_decode env src dec = Some (more, dec')"
            using run by (auto simp: fault_simps)
          then have more using run go False by (auto split: if_splits)
          then obtain v s' where "update_left vt addr True s = Some (v, s')"
            using run go dd by (cases "update_left vt addr True s") auto
          then show thesis using that [of v s' dec'] run go dd \<open>more\<close> by simp
        qed
        have s': "holds A (snd (snd s')) (fst s') \<and> (fst s' \<noteq> Resting \<longrightarrow> 0 < v)"
          using update_left_holds [OF ok h, of addr True "fst (snd s)" v "fst s'" "fst (snd s')" "snd (snd s')"] up vt by simp
        show ?thesis
        proof (cases "0 < v")
          case True
          then show ?thesis using IH [of vt] rest vt s' by (auto simp: Let_def)
        next
          case False
          then show ?thesis using rest s' by (auto simp: holds_def fault_simps split: if_splits)
        qed
      qed
    qed
  qed
  then show ?thesis using run h by fastforce
qed


section \<open>The double buffering is invisible\<close>

text \<open>One thread, one chunk after the other.\<close>

function chunks :: "nat \<Rightarrow> 'a list \<Rightarrow> 'a list list" where
  "chunks m xs = (if xs = [] \<or> m = 0 then [] else take m xs # chunks m (drop m xs))"
  by pat_completeness auto
termination by (relation "measure (length \<circ> snd)") auto

declare chunks.simps [simp del]

fun decode_chunks :: "'l decode_env \<Rightarrow> 'l decoder \<Rightarrow> bytes list \<Rightarrow> (bytes \<times> nat) option option" where
  "decode_chunks env dec [] = None"
| "decode_chunks env dec (c # cs) =
     (if \<not> decoder_ok dec \<or> decoder_done dec then Some None
      else do {
        (more, dec) \<leftarrow> decoder_decode env c dec;
        if \<not> more then Some None
        else if cs = [] then (if decoder_done dec then map_option Some (decoder_release env dec) else Some None)
        else decode_chunks env dec cs
      })"

definition sequential_load :: "'l decode_env \<Rightarrow> bytes \<Rightarrow> (bytes \<times> nat) option option" where
  "sequential_load env data =
     (if length data < 4 then Some None
      else do {
        let first = take SRC_SIZE data;
        dec \<leftarrow> new_decoder env first;
        decode_chunks env dec (drop (decoder_headerSize dec) first # chunks SRC_SIZE (drop SRC_SIZE data))
      })"

text \<open>The back end gives the content of a file: as long as \<open>P\<close> holds, every read inside the file succeeds.\<close>

definition serves ::
  "('a, 'b, 'c) vtables \<Rightarrow> handle \<Rightarrow> bytes \<Rightarrow> (('a, 'b, 'c) stores \<Rightarrow> bool) \<Rightarrow> bool" where
  "serves vt h c P \<longleftrightarrow> (\<forall>st. P st \<longrightarrow>
     FileHandle_size vt h st = Some (of_nat (length c)) \<and>
     (\<exists>st'. FileHandle_destroy vt (Some h) st = Some st') \<and>
     (\<forall>dst n off. dst \<noteq> 0 \<and> unat off + unat n \<le> length c \<longrightarrow>
       (\<exists>st'. FileHandle_read vt dst n off h st = Some ((True, take (unat n) (drop (unat off) c)), st') \<and> P st')))"

definition buffers_at :: "u32 \<Rightarrow> bool" where
  "buffers_at addr \<longleftrightarrow> addr \<noteq> 0 \<and> addr + of_nat SRC_SIZE \<noteq> 0"

lemma unat_pos:
  "k < 2 ^ 32 \<Longrightarrow> unat (of_nat k :: u32) = k" "k < 2 ^ 32 \<Longrightarrow> unat (of_nat k :: u64) = k"
  by (simp_all add: unat_of_nat take_bit_nat_eq_self_iff)

lemma unat_ucast_pos: "k < 2 ^ 32 \<Longrightarrow> unat (ucast (of_nat k :: u32) :: u64) = k"
  by (simp add: unsigned_ucast_eq unat_pos take_bit_nat_eq_self_iff)

lemma chunk_size_nat:
  assumes "k \<le> N" and "N < 2 ^ 32"
  shows "chunk_size (of_nat N) (of_nat k) = min (N - k) SRC_SIZE"
proof -
  have k: "k < 2 ^ 32" using assms by simp
  then have "(ucast (of_nat k :: u32) :: u64) \<le> of_nat N"
    using assms by (simp add: word_le_nat_alt unat_ucast_pos unat_pos)
  then have "unat ((of_nat N :: u64) - ucast (of_nat k :: u32)) = N - k"
    using k assms(2) by (simp add: unat_sub unat_ucast_pos unat_pos)
  then show ?thesis by (simp add: chunk_size_def)
qed

lemma offset_less_iff: "k < 2 ^ 32 \<Longrightarrow> N < 2 ^ 32 \<Longrightarrow> ucast (of_nat k :: u32) < (of_nat N :: u64) \<longleftrightarrow> k < N"
  by (simp add: word_less_nat_alt unat_ucast_pos unat_pos)

text \<open>One meeting with a reader that is served.\<close>

lemma meet_more:
  assumes serves: "serves vt h c P" and P: "P st" and N: "N \<le> length c" "N < 2 ^ 32" and k: "k < N"
    and i: "i < 2" and addr: "buffers_at addr"
  shows "\<exists>st'. update_left vt addr True (Reading h (of_nat N) (of_nat k) i, srcs, st) =
      Some (int (min (N - k) SRC_SIZE), Reading h (of_nat N) (of_nat (k + SRC_SIZE)) ((i + 1) mod 2),
        srcs(i := take (min (N - k) SRC_SIZE) (drop k c)), st') \<and> P st'"
proof -
  let ?n = "min (N - k) SRC_SIZE"
  have "addr + of_nat (i * SRC_SIZE) \<noteq> 0" using addr i by (cases i) (auto simp: buffers_at_def)
  moreover have "unat (of_nat ?n :: u32) = ?n" "unat (of_nat k :: u32) = k"
    by (rule unat_pos; use N k in simp)+
  moreover have "k + ?n \<le> length c" using N k by simp
  ultimately obtain st' where "FileHandle_read vt (addr + of_nat (i * SRC_SIZE)) (of_nat ?n) (of_nat k) h st =
      Some ((True, take ?n (drop k c)), st')" "P st'"
    using serves P unfolding serves_def by metis
  then show ?thesis
    using N k by (simp add: update_left_def offset_less_iff chunk_size_nat Let_def)
qed

lemma meet_end:
  assumes serves: "serves vt h c P" and P: "P st" and N: "N < 2 ^ 32" and k: "N \<le> k" "k < 2 ^ 32"
  shows "\<exists>st'. update_left vt addr go (Reading h (of_nat N) (of_nat k) i, srcs, st) = Some (0, Resting, srcs, st')"
  using assms by (auto simp: update_left_def offset_less_iff serves_def)

lemma meet_stop:
  assumes serves: "serves vt h c P" and P: "P st" and N: "N \<le> length c" "N < 2 ^ 32" and k: "k < 2 ^ 32"
    and i: "i < 2" and addr: "buffers_at addr"
  shows "map_option fst (load_stop vt addr (Reading h (of_nat N) (of_nat k) i, srcs, st)) = Some None"
proof (cases "k < N")
  case True
  let ?n = "min (N - k) SRC_SIZE"
  have "addr + of_nat (i * SRC_SIZE) \<noteq> 0" using addr i by (cases i) (auto simp: buffers_at_def)
  moreover have "unat (of_nat ?n :: u32) = ?n" "unat (of_nat k :: u32) = k"
    by (rule unat_pos; use N True in simp)+
  moreover have "k + ?n \<le> length c" using N True by simp
  ultimately obtain st' where "FileHandle_read vt (addr + of_nat (i * SRC_SIZE)) (of_nat ?n) (of_nat k) h st =
      Some ((True, take ?n (drop k c)), st')" "P st'"
    using serves P unfolding serves_def by metis
  moreover from this obtain st2 where "FileHandle_destroy vt (Some h) st' = Some st2"
    using serves unfolding serves_def by metis
  ultimately show ?thesis
    using N True by (simp add: load_stop_def update_left_def offset_less_iff chunk_size_nat Let_def)
next
  case False
  then obtain st' where "update_left vt addr False (Reading h (of_nat N) (of_nat k) i, srcs, st) = Some (0, Resting, srcs, st')"
    using meet_end [OF serves P N(2) _ k] by (metis not_le_imp_less less_imp_not_less linorder_not_less)
  then show ?thesis by (simp add: load_stop_def)
qed

lemma load_loop_step:
  assumes "decoder_ok dec" "\<not> decoder_done dec" "decoder_decode env src dec = Some (True, dec')"
    and "update_left vt addr True s = Some (int v, s')" and "0 < v"
  shows "load_loop vt addr env dec i src s = load_loop vt addr env dec' ((i + 1) mod 2) (take v (fst (snd s') ((i + 1) mod 2))) s'"
  using assms by (subst load_loop.simps) (simp add: Let_def)

lemma load_loop_serves:
  assumes serves: "serves vt h c P" and N: "N \<le> length c" "N + SRC_SIZE < 2 ^ 32" and addr: "buffers_at addr"
  shows "P st \<Longrightarrow> k < N + SRC_SIZE \<Longrightarrow> i < 2 \<Longrightarrow>
    map_option fst (load_loop vt addr env dec i src (Reading h (of_nat N) (of_nat k) ((i + 1) mod 2), srcs, st)) =
    decode_chunks env dec (src # chunks SRC_SIZE (take (N - k) (drop k c)))"
proof (induction "N - k" arbitrary: k i dec src srcs st rule: less_induct)
  case less
  have k: "k < 2 ^ 32" and N': "N < 2 ^ 32" using less.prems N by simp_all
  note stop = meet_stop [OF serves less.prems(1) N(1) N' k _ addr, of "(i + 1) mod 2"]
  obtain more dec' where dd: "decoder_decode env src dec = Some (more, dec') \<or> decoder_decode env src dec = None"
    by (cases "decoder_decode env src dec") auto
  show ?case
  proof (cases "\<not> decoder_ok dec \<or> decoder_done dec \<or> decoder_decode env src dec = None \<or> \<not> more")
    case True
    then show ?thesis using dd stop by (subst load_loop.simps) (auto split: if_splits)
  next
    case False
    then have go: "decoder_ok dec" "\<not> decoder_done dec" "decoder_decode env src dec = Some (True, dec')"
      using dd by auto
    show ?thesis
    proof (cases "k < N")
      case kN: False
      obtain st' where up: "update_left vt addr True (Reading h (of_nat N) (of_nat k) ((i + 1) mod 2), srcs, st) = Some (0, Resting, srcs, st')"
        using meet_end [OF serves less.prems(1) N' _ k] kN by force
      show ?thesis
        using go up kN by (subst load_loop.simps) (cases "decoder_release env dec'"; simp add: chunks.simps [of SRC_SIZE "[]"])
    next
      case True
      let ?n = "min (N - k) SRC_SIZE" and ?j = "(i + 1) mod 2"
      have n: "0 < ?n" using True by (simp add: SRC_SIZE_def)
      obtain st' where up: "update_left vt addr True (Reading h (of_nat N) (of_nat k) ?j, srcs, st) =
          Some (int ?n, Reading h (of_nat N) (of_nat (k + SRC_SIZE)) ((?j + 1) mod 2), srcs(?j := take ?n (drop k c)), st')" "P st'"
        using meet_more [OF serves less.prems(1) N(1) N' True _ addr, of ?j srcs] by auto
      have IH: "map_option fst (load_loop vt addr env dec' ?j (take ?n (drop k c))
          (Reading h (of_nat N) (of_nat (k + SRC_SIZE)) ((?j + 1) mod 2), srcs(?j := take ?n (drop k c)), st')) =
        decode_chunks env dec' (take ?n (drop k c) # chunks SRC_SIZE (take (N - (k + SRC_SIZE)) (drop (k + SRC_SIZE) c)))"
        using less.hyps [of "k + SRC_SIZE" st' ?j] up(2) True by (simp add: SRC_SIZE_def)
      have "chunks SRC_SIZE (take (N - k) (drop k c)) =
          take ?n (drop k c) # chunks SRC_SIZE (take (N - (k + SRC_SIZE)) (drop (k + SRC_SIZE) c))"
        using True N(1) by (subst chunks.simps) (auto simp: SRC_SIZE_def min.commute drop_take add.commute)
      then show ?thesis
        using load_loop_step [OF go up(1) n, of i] IH go by simp
    qed
  qed
qed

lemma Load_after_first:
  assumes "reader_start vt info (\<lambda>_. []) st = Some s0" and "update_left vt addr True s0 = Some (int v, s1)" and "0 < v"
  shows "v < 4 \<Longrightarrow> DecompLoader_Load vt addr env info st = load_stop vt addr s1"
    and "\<not> v < 4 \<Longrightarrow> DecompLoader_Load vt addr env info st = do {
      dec \<leftarrow> new_decoder env (take v (fst (snd s1) 0));
      load_loop vt addr env dec 0 (drop (decoder_headerSize dec) (take v (fst (snd s1) 0))) s1 }"
  using assms by (simp_all add: DecompLoader_Load_def Let_def)

lemma load_sequential:
  assumes opens: "DecompLoader_Open vt (si_path info) (si_storageType info) st = Some (Some h, st1)"
    and serves: "serves vt h c P" and P: "P st1"
    and offset: "unat (si_offset info) \<le> length c" and size: "length c + SRC_SIZE < 2 ^ 32"
    and addr: "buffers_at addr"
  shows "map_option fst (DecompLoader_Load vt addr env info st) =
    sequential_load env (take (unat (si_maxSize info)) (drop (unat (si_offset info)) c))"
proof -
  let ?k = "unat (si_offset info)"
  let ?N = "min (length c) (?k + unat (si_maxSize info))"
  let ?data = "take (unat (si_maxSize info)) (drop ?k c)"
  have N: "?N \<le> length c" "?N < 2 ^ 32" "?N + SRC_SIZE < 2 ^ 32" using size by simp_all
  have k: "?k \<le> ?N" "?k < 2 ^ 32" using offset size by simp_all
  have data: "?data = take (?N - ?k) (drop ?k c)" by (simp add: min_def)
  have fsize: "FileHandle_size vt h st1 = Some (of_nat (length c))" using serves P by (simp add: serves_def)
  have len: "unat (of_nat (length c) :: u64) = length c" using size by (intro unat_pos) simp
  have off: "(ucast (si_offset info) :: u32) = of_nat ?k"
    by simp
  have mx: "unat (ucast (si_maxSize info) :: u64) = unat (si_maxSize info)"
    by (simp add: unsigned_ucast_eq take_bit_nat_eq_self_iff order.strict_trans [OF unsigned_less])
  have "unat (si_maxSize info) < 2 ^ 32" using unsigned_less [of "si_maxSize info"] by simp
  then have sum: "unat (si_offset info + ucast (si_maxSize info)) = ?k + unat (si_maxSize info)"
    using k(2) mx by (subst unat_add_lem [THEN iffD1]) simp_all
  have mn: "min (of_nat (length c)) (si_offset info + ucast (si_maxSize info)) = (of_nat ?N :: u64)"
    using len sum by (simp add: min_def word_le_nat_alt flip: sum)
  have start: "reader_start vt info (\<lambda>_. []) st = Some (Reading h (of_nat ?N) (of_nat ?k) 0, (\<lambda>_. []), st1)"
    using opens fsize offset len off mn by (simp add: reader_start_def word_less_nat_alt)
  show ?thesis
  proof (cases "?k < ?N")
    case False
    then have "?data = []" by (auto simp: data min_def split: if_splits)
    then have "length ?data < 4" by (metis list.size(3) zero_less_numeral)
    then have "sequential_load env ?data = Some None" unfolding sequential_load_def by (rule if_P)
    moreover obtain st' where "update_left vt addr True (Reading h (of_nat ?N) (of_nat ?k) 0, (\<lambda>_. []), st1) = Some (0, Resting, (\<lambda>_. []), st')"
      using meet_end [OF serves P N(2) _ k(2)] False by (metis not_le_imp_less)
    ultimately show ?thesis using start by (simp add: DecompLoader_Load_def)
  next
    case True
    let ?n = "min (?N - ?k) SRC_SIZE"
    let ?srcs = "(\<lambda>_. [])(0 := take ?n (drop ?k c))"
    obtain st' where up: "update_left vt addr True (Reading h (of_nat ?N) (of_nat ?k) 0, (\<lambda>_. []), st1) =
        Some (int ?n, Reading h (of_nat ?N) (of_nat (?k + SRC_SIZE)) 1, ?srcs, st')" "P st'"
      using meet_more [OF serves P N(1,2) True _ addr, of 0 "\<lambda>_. []"] by auto
    have first: "take SRC_SIZE ?data = take ?n (drop ?k c)" unfolding data by (simp add: min.commute)
    have n: "0 < ?n" using True by (simp add: SRC_SIZE_def)
    have short: "length ?data < 4 \<longleftrightarrow> ?n < 4" using N(1) by (auto simp: data SRC_SIZE_def)
    have more: "drop SRC_SIZE ?data = take (?N - (?k + SRC_SIZE)) (drop (?k + SRC_SIZE) c)"
      unfolding data by (simp add: drop_take add.commute)
    show ?thesis
    proof (cases "?n < 4")
      case True
      have "map_option fst (load_stop vt addr (Reading h (of_nat ?N) (of_nat (?k + SRC_SIZE)) 1, ?srcs, st')) = Some None"
        by (rule meet_stop [OF serves up(2) N(1,2) _ _ addr]) (use k(1) N(3) in simp_all)
      then show ?thesis
        using Load_after_first(1) [OF start up(1) n True, of env] short True unfolding sequential_load_def by simp
    next
      case False
      have "map_option fst (load_loop vt addr env dec 0 src (Reading h (of_nat ?N) (of_nat (?k + SRC_SIZE)) 1, ?srcs, st')) =
          decode_chunks env dec (src # chunks SRC_SIZE (drop SRC_SIZE ?data))" for dec src
        using load_loop_serves [OF serves N(1,3) addr up(2), of "?k + SRC_SIZE" 0 env dec src ?srcs] True by (simp add: more)
      then show ?thesis
        using Load_after_first(2) [OF start up(1) n False, of env] short first False
        unfolding sequential_load_def Let_def by (simp add: map_option_bind o_def del: take_take)
    qed
  qed
qed

section \<open>Files on the FAT volume are served\<close>

text \<open>FatFs as documented, on a card that can be read.\<close>

definition fatfs_reads ::
  "('f, 'd, 'w) fat_sdk \<Rightarrow> ('w \<Rightarrow> wstr \<Rightarrow> bytes option) \<Rightarrow> ('f \<Rightarrow> wstr) \<Rightarrow> ('f \<Rightarrow> nat) \<Rightarrow> bool" where
  "fatfs_reads sdk content name pos \<longleftrightarrow> (\<forall>f w c. content w (name f) = Some c \<longrightarrow>
     f_size sdk f w = of_nat (length c) \<and>
     (\<forall>n. unat n \<le> length c \<longrightarrow> (\<exists>f'. f_lseek sdk n f w = (FR_OK, f', w) \<and> name f' = name f \<and> pos f' = unat n)) \<and>
     (\<forall>n. pos f + unat n \<le> length c \<longrightarrow>
       (\<exists>f'. f_read sdk n f w = ((FR_OK, take (unat n) (drop (pos f) c)), f', w) \<and> name f' = name f)))"

definition file_on_volume ::
  "('ff \<Rightarrow> wstr) \<Rightarrow> nat \<Rightarrow> wstr \<Rightarrow> 'fw \<Rightarrow> ('ff, 'fd, 'fw, 'nf, 'nd, 'nh, 'nw, 'df, 'dd, 'dw) model_stores \<Rightarrow> bool" where
  "file_on_volume name i p w st \<longleftrightarrow> (\<exists>s. fatStorage st = Some (w, s) \<and> i < length (fat_files s) \<and> name (s_node (fat_files s ! i)) = p)"

lemma FAT_serves:
  assumes laws: "fatfs_reads f content name pos" and c: "content w p = Some c"
  shows "serves (model_vtables f n d) (ST_FAT, i) c (file_on_volume name i p w)"
proof -
  have "FileHandle_size (model_vtables f n d) (ST_FAT, i) st = Some (of_nat (length c)) \<and>
      (\<exists>st'. FileHandle_destroy (model_vtables f n d) (Some (ST_FAT, i)) st = Some st') \<and>
      (dst \<noteq> 0 \<and> unat off + unat m \<le> length c \<longrightarrow> (\<exists>st'. FileHandle_read (model_vtables f n d) dst m off (ST_FAT, i) st =
        Some ((True, take (unat m) (drop (unat off) c)), st') \<and> file_on_volume name i p w st'))"
    if on: "file_on_volume name i p w st" for st dst m off
  proof -
    obtain s where s: "fatStorage st = Some (w, s)" "i < length (fat_files s)" "name (s_node (fat_files s ! i)) = p"
      using on unfolding file_on_volume_def by blast
    let ?f = "s_node (fat_files s ! i)"
    have cf: "content w (name ?f) = Some c" using c s(3) by simp
    note law = laws [unfolded fatfs_reads_def, rule_format]
    have "f_size f ?f w = of_nat (length c)" using law [OF cf] by blast
    then have size: "FileHandle_size (model_vtables f n d) (ST_FAT, i) st = Some (of_nat (length c))"
      using s by (simp add: FileHandle_size_def FAT_vtable_def FAT_file_size_def)
    have close: "\<exists>st'. FileHandle_destroy (model_vtables f n d) (Some (ST_FAT, i)) st = Some st'"
      using s by (auto simp: FileHandle_destroy_def FileHandle_close_def FAT_vtable_def FAT_file_close_def call_on_def on_fat_def
          close_slot_def Let_def split: prod.splits)
    have "\<exists>st'. FileHandle_read (model_vtables f n d) dst m off (ST_FAT, i) st =
        Some ((True, take (unat m) (drop (unat off) c)), st') \<and> file_on_volume name i p w st'"
      if r: "dst \<noteq> 0" "unat off + unat m \<le> length c"
    proof -
      obtain f1 where f1: "f_lseek f off ?f w = (FR_OK, f1, w)" "name f1 = name ?f" "pos f1 = unat off"
        using law [OF cf] r by (metis add_leD1)
      obtain f2 where f2: "f_read f m f1 w = ((FR_OK, take (unat m) (drop (unat off) c)), f2, w)" "name f2 = name ?f"
        using law [of w f1 c] f1 cf r by metis
      have "fat_read_at f m off ?f w = ((True, take (unat m) (drop (unat off) c)), f2, w)"
        using f1 f2 r by (simp add: fat_read_at_def)
      then show ?thesis using s r f2(2)
        by (auto simp: FileHandle_read_def FAT_vtable_def call_on_def on_fat_def FAT_file_read_def with_slot_def file_on_volume_def)
    qed
    then show ?thesis using size close by blast
  qed
  then show ?thesis unfolding serves_def by blast
qed

lemma ex_fat_reads: "fatfs_reads ex_fat (\<lambda>w. map_of w) fst snd"
  by (auto simp: fatfs_reads_def ex_fat_def)

definition ex_lzma :: "unit lzma_sdk" where
  "ex_lzma = \<lparr>LzmaDec_Construct = (), LzmaDec_AllocateProbs = (\<lambda>_ _. (True, ())), LzmaDec_Init = id,
     LzmaDec_DecodeToDic = (\<lambda>_ dic pos _ _ _. (False, (), dic, pos, 0, LZMA_STATUS_NOT_SPECIFIED))\<rparr>"

definition ex_env :: "unit decode_env" where
  "ex_env = \<lparr>env_heap = \<lparr>heap_alloc = (\<lambda>n. Some (replicate n 0)), heap_resize = (\<lambda>b n. None)\<rparr>, env_lzma = ex_lzma\<rparr>"

text \<open>An LZ77 file of four equal bytes.\<close>

definition ex_file :: bytes where
  "ex_file = [0x10, 4, 0, 0, 0x40, 1, 0, 0]"

definition ex_info :: StartInfo where
  "ex_info = whole_file [0x2f, 0x6d, 0x6b, 0x77, 0x2d, 0x73, 0x70, 0x2f, 0x61] None"

lemma ex_opens:
  "\<exists>st. DecompLoader_Open ex_vt (si_path ex_info) (si_storageType ex_info) (ex_stores [(wide ''a'', ex_file)]) = Some (Some (ST_FAT, 0), st) \<and>
     file_on_volume fst 0 (wide ''a'') [(wide ''a'', ex_file)] st"
proof -
  let ?open = "DecompLoader_Open ex_vt (si_path ex_info) (si_storageType ex_info) (ex_stores [(wide ''a'', ex_file)])"
  have "map_option (\<lambda>(h, st). (h, map_option (\<lambda>(w, s). (w, map (fst \<circ> s_node) (fat_files s))) (fatStorage st))) ?open =
      Some (Some (ST_FAT, 0), Some ([(wide ''a'', ex_file)], [wide ''a'', []]))"
    by code_simp
  then obtain st w s where "?open = Some (Some (ST_FAT, 0), st)" "fatStorage st = Some (w, s)" "w = [(wide ''a'', ex_file)]"
    "map (fst \<circ> s_node) (fat_files s) = [wide ''a'', []]"
    by auto
  moreover from this(4) have "0 < length (fat_files s)" "fst (s_node (fat_files s ! 0)) = wide ''a''"
    by (cases "fat_files s"; simp)+
  ultimately show ?thesis unfolding file_on_volume_def by blast
qed

lemma ex_file_sequential:
  "sequential_load ex_env (take (unat (si_maxSize ex_info)) (drop (unat (si_offset ex_info)) ex_file)) = Some (Some ([1, 1, 1, 1], 4))"
proof -
  have data: "take (unat (si_maxSize ex_info)) (drop (unat (si_offset ex_info)) ex_file) = ex_file"
  proof (rule trans [OF take_all])
    have "unat (- 1 :: u32) = 2 ^ 32 - 1" by (simp add: unsigned_minus_1_eq_mask mask_eq_exp_minus_1)
    then show "length (drop (unat (si_offset ex_info)) ex_file) \<le> unat (si_maxSize ex_info)"
      by (simp add: ex_info_def whole_file_def ex_file_def)
  qed (simp add: ex_info_def whole_file_def)
  have first: "take SRC_SIZE ex_file = ex_file" "drop SRC_SIZE ex_file = []" by (simp_all add: SRC_SIZE_def ex_file_def)
  have "(do { dec \<leftarrow> new_decoder ex_env ex_file; decode_chunks ex_env dec [drop (decoder_headerSize dec) ex_file] }) = Some (Some ([1, 1, 1, 1], 4))"
    by code_simp
  then show ?thesis
    by (simp only: data sequential_load_def first Let_def chunks.simps [of SRC_SIZE "[]"]) (simp add: ex_file_def)
qed

lemma ex_serves: "serves ex_vt (ST_FAT, 0) ex_file (file_on_volume fst 0 (wide ''a'') [(wide ''a'', ex_file)])"
  unfolding ex_vt_def by (rule FAT_serves [OF ex_fat_reads]) simp

lemma ex_bounds: "unat (si_offset ex_info) \<le> length ex_file" "length ex_file + SRC_SIZE < 2 ^ 32" "buffers_at 0x80000000"
  by (simp_all add: ex_info_def whole_file_def ex_file_def SRC_SIZE_def buffers_at_def)




end
