(* ===== verification/Exchange.thy ===== *)
theory Exchange
  imports Prelude
begin

text \<open>
  \<open>payload/sp/Exchange.hh\<close>: the meeting point of two threads, each of which hands a value over and
  gets the other's.  A call runs with interrupts off until it sleeps, so its parts before and after
  \<open>OSSleepThread\<close> are one step each; waking a thread makes its second part possible.  \<open>OSWakeupThread\<close>
  may let the thread it wakes run at once: the check after it then finds that the value has been taken,
  and the call returns without having slept.  \<open>Holding\<close> below stands for both places.  The mutex of a
  side is held during the whole call: a side makes its next call only when the last one has returned.
\<close>

text \<open>
  Where a side is: outside, asleep before it has the other's value, or asleep with it.  The flag says
  that it has been woken.
\<close>

datatype 'x side = Outside | Waiting bool | Holding bool 'x

record ('t, 'u) exchange =
  m_left :: "'t option"
  m_right :: "'u option"
  left_side :: "'u side"
  right_side :: "'t side"

definition exchange_new :: "('t, 'u) exchange" where
  "exchange_new = \<lparr>m_left = None, m_right = None, left_side = Outside, right_side = Outside\<rparr>"

text \<open>\<open>OSWakeupThread\<close> on the queue of a side; nothing happens when nobody sleeps there.\<close>

fun wake :: "'x side \<Rightarrow> 'x side" where
  "wake (Waiting _) = Waiting True"
| "wake (Holding _ x) = Holding True x"
| "wake Outside = Outside"

section \<open>The two operations\<close>

text \<open>\<open>left\<close> up to where it sleeps.\<close>

definition left_call :: "'t \<Rightarrow> ('t, 'u) exchange \<Rightarrow> ('t, 'u) exchange option" where
  "left_call left e =
     (if left_side e \<noteq> Outside then None
      else
        let e = e\<lparr>m_left := Some left\<rparr>
        in Some (case m_right e of
             Some right \<Rightarrow> e\<lparr>m_right := None, right_side := wake (right_side e), left_side := Holding False right\<rparr>
           | None \<Rightarrow> e\<lparr>left_side := Waiting False\<rparr>))"

text \<open>The rest of \<open>left\<close>; dereferencing an empty \<open>m_right\<close> is a fault.\<close>

definition left_return :: "('t, 'u) exchange \<Rightarrow> ('u \<times> ('t, 'u) exchange) option" where
  "left_return e =
     (case left_side e of
        Waiting True \<Rightarrow> do {
          right \<leftarrow> m_right e;
          Some (right, e\<lparr>m_right := None, right_side := wake (right_side e), left_side := Outside\<rparr>)
        }
      | Holding True right \<Rightarrow> Some (right, e\<lparr>left_side := Outside\<rparr>)
      | _ \<Rightarrow> None)"

definition right_call :: "'u \<Rightarrow> ('t, 'u) exchange \<Rightarrow> ('t, 'u) exchange option" where
  "right_call right e =
     (if right_side e \<noteq> Outside then None
      else
        let e = e\<lparr>m_right := Some right\<rparr>
        in Some (case m_left e of
             Some left \<Rightarrow> e\<lparr>m_left := None, left_side := wake (left_side e), right_side := Holding False left\<rparr>
           | None \<Rightarrow> e\<lparr>right_side := Waiting False\<rparr>))"

definition right_return :: "('t, 'u) exchange \<Rightarrow> ('t \<times> ('t, 'u) exchange) option" where
  "right_return e =
     (case right_side e of
        Waiting True \<Rightarrow> do {
          left \<leftarrow> m_left e;
          Some (left, e\<lparr>m_left := None, left_side := wake (left_side e), right_side := Outside\<rparr>)
        }
      | Holding True left \<Rightarrow> Some (left, e\<lparr>right_side := Outside\<rparr>)
      | _ \<Rightarrow> None)"

section \<open>Two threads\<close>

text \<open>
  The exchange with what the left thread still has to hand over and has got, and the same for the
  right thread.
\<close>

type_synonym ('t, 'u) threads = "('t, 'u) exchange \<times> ('t list \<times> 'u list) \<times> ('u list \<times> 't list)"

inductive thread_step :: "('t, 'u) threads \<Rightarrow> ('t, 'u) threads \<Rightarrow> bool" where
  left_calls: "left_call v e = Some e' \<Longrightarrow> thread_step (e, (v # ls, lg), r) (e', (ls, lg), r)"
| left_returns: "left_return e = Some (u, e') \<Longrightarrow> thread_step (e, (ls, lg), r) (e', (ls, lg @ [u]), r)"
| right_calls: "right_call u e = Some e' \<Longrightarrow> thread_step (e, l, (u # rs, rg)) (e', l, (rs, rg))"
| right_returns: "right_return e = Some (v, e') \<Longrightarrow> thread_step (e, l, (rs, rg)) (e', l, (rs, rg @ [v]))"

text \<open>
  The reachable states: \<open>vs\<close> and \<open>us\<close> are all the values of the two scripts, \<open>k\<close> and \<open>j\<close> count the
  finished calls of the sides.
\<close>

definition exchange_inv :: "'t list \<Rightarrow> 'u list \<Rightarrow> ('t, 'u) threads \<Rightarrow> bool" where
  "exchange_inv vs us st \<longleftrightarrow> (case st of (e, (ls, lg), (rs, rg)) \<Rightarrow>
     lg = take (length lg) us \<and> rg = take (length rg) vs \<and> length lg \<le> length us \<and> length rg \<le> length vs \<and>
     (let k = length lg; j = length rg in
      (case (left_side e, right_side e) of
         (Outside, Outside) \<Rightarrow> k = j \<and> ls = drop k vs \<and> rs = drop k us \<and> m_left e = None \<and> m_right e = None
       | (Waiting False, Outside) \<Rightarrow> k = j \<and> k < length vs \<and> ls = drop (k + 1) vs \<and> rs = drop k us \<and>
           m_left e = Some (vs ! k) \<and> m_right e = None
       | (Outside, Waiting False) \<Rightarrow> k = j \<and> k < length us \<and> ls = drop k vs \<and> rs = drop (k + 1) us \<and>
           m_left e = None \<and> m_right e = Some (us ! k)
       | (Waiting True, Holding False v) \<Rightarrow> k = j \<and> k < length vs \<and> k < length us \<and> v = vs ! k \<and>
           ls = drop (k + 1) vs \<and> rs = drop (k + 1) us \<and> m_left e = None \<and> m_right e = Some (us ! k)
       | (Holding False u, Waiting True) \<Rightarrow> k = j \<and> k < length vs \<and> k < length us \<and> u = us ! k \<and>
           ls = drop (k + 1) vs \<and> rs = drop (k + 1) us \<and> m_left e = Some (vs ! k) \<and> m_right e = None
       | (Outside, Holding True v) \<Rightarrow> k = j + 1 \<and> j < length vs \<and> v = vs ! j \<and> ls = drop k vs \<and> rs = drop k us \<and>
           m_left e = None \<and> m_right e = None
       | (Waiting False, Holding True v) \<Rightarrow> k = j + 1 \<and> j < length vs \<and> v = vs ! j \<and> k < length vs \<and>
           ls = drop (k + 1) vs \<and> rs = drop k us \<and> m_left e = Some (vs ! k) \<and> m_right e = None
       | (Holding True u, Outside) \<Rightarrow> j = k + 1 \<and> k < length us \<and> u = us ! k \<and> ls = drop j vs \<and> rs = drop j us \<and>
           m_left e = None \<and> m_right e = None
       | (Holding True u, Waiting False) \<Rightarrow> j = k + 1 \<and> k < length us \<and> u = us ! k \<and> j < length us \<and>
           ls = drop j vs \<and> rs = drop (j + 1) us \<and> m_left e = None \<and> m_right e = Some (us ! j)
       | _ \<Rightarrow> False)))"

lemma drop_Cons_nth: "v # ls = drop k vs \<Longrightarrow> k < length vs \<and> v = vs ! k \<and> ls = drop (k + 1) vs"
proof -
  assume eq: "v # ls = drop k vs"
  then have "k < length vs" by (metis drop_all list.distinct(1) not_le)
  then show ?thesis using eq Cons_nth_drop_Suc [of k vs] by (metis Suc_eq_plus1 list.inject)
qed

lemma take_snoc_nth: "lg = take (length lg) us \<Longrightarrow> length lg < length us \<Longrightarrow> lg @ [us ! length lg] = take (Suc (length lg)) us"
  by (metis take_Suc_conv_app_nth)

lemmas side_splits = side.splits bool.splits

lemma exchange_inv_start: "exchange_inv vs us (exchange_new, (vs, []), (us, []))"
  by (simp add: exchange_inv_def exchange_new_def)

lemma left_calls_inv:
  assumes "exchange_inv vs us (e, (v # ls, lg), (rs, rg))" and "left_call v e = Some e'"
  shows "exchange_inv vs us (e', (ls, lg), (rs, rg))"
  using assms
  by (auto simp: exchange_inv_def left_call_def Let_def split: if_splits side_splits option.splits dest!: drop_Cons_nth)

lemma right_calls_inv:
  assumes "exchange_inv vs us (e, (ls, lg), (u # rs, rg))" and "right_call u e = Some e'"
  shows "exchange_inv vs us (e', (ls, lg), (rs, rg))"
  using assms
  by (auto simp: exchange_inv_def right_call_def Let_def split: if_splits side_splits option.splits dest!: drop_Cons_nth)

lemma left_returns_inv:
  assumes "exchange_inv vs us (e, (ls, lg), (rs, rg))" and "left_return e = Some (u, e')"
  shows "exchange_inv vs us (e', (ls, lg @ [u]), (rs, rg))"
  using assms take_snoc_nth [of lg us]
  by (auto simp: exchange_inv_def left_return_def Let_def split: side_splits)

lemma right_returns_inv:
  assumes "exchange_inv vs us (e, (ls, lg), (rs, rg))" and "right_return e = Some (v, e')"
  shows "exchange_inv vs us (e', (ls, lg), (rs, rg @ [v]))"
  using assms take_snoc_nth [of rg vs]
  by (auto simp: exchange_inv_def right_return_def Let_def split: side_splits)

lemma thread_step_inv:
  assumes "thread_step st st'" and "exchange_inv vs us st"
  shows "exchange_inv vs us st'"
  using assms
proof (cases rule: thread_step.cases)
  case (left_calls v e e' ls lg r)
  then show ?thesis using assms(2) left_calls_inv by (cases r) auto
next
  case (left_returns e u e' ls lg r)
  then show ?thesis using assms(2) left_returns_inv by (cases r) auto
next
  case (right_calls u e e' l rs rg)
  then show ?thesis using assms(2) right_calls_inv by (cases l) auto
next
  case (right_returns e v e' l rs rg)
  then show ?thesis using assms(2) right_returns_inv by (cases l) auto
qed

lemma reachable_inv: "thread_step\<^sup>*\<^sup>* (exchange_new, (vs, []), (us, [])) st \<Longrightarrow> exchange_inv vs us st"
  by (induction rule: rtranclp_induct) (auto intro: exchange_inv_start thread_step_inv)

text \<open>What a side has got are the first values of the other, in order; so the k-th calls meet.\<close>

text \<open>C20: In every interleaving the values one thread has received are the first ones the other handed
  over, in order, and neither is more than one exchange ahead.\<close>

theorem exchange_in_order:
  assumes "thread_step\<^sup>*\<^sup>* (exchange_new, (vs, []), (us, [])) (e, (ls, lg), (rs, rg))"
  shows "lg = take (length lg) us \<and> rg = take (length rg) vs \<and> length lg \<le> length rg + 1 \<and> length rg \<le> length lg + 1"
  using reachable_inv [OF assms] by (auto simp: exchange_inv_def Let_def split: side_splits)

section \<open>Every exchange completes\<close>

fun side_load :: "'x side \<Rightarrow> nat" where
  "side_load Outside = 0"
| "side_load _ = 1"

fun steps_left :: "('t, 'u) threads \<Rightarrow> nat" where
  "steps_left (e, (ls, lg), (rs, rg)) =
     2 * (length ls + length rs) + side_load (left_side e) + side_load (right_side e)"

lemma side_load_wake [simp]: "side_load (wake x) = side_load x"
  by (cases x) simp_all

lemma thread_step_decreases: "thread_step st st' \<Longrightarrow> steps_left st' < steps_left st"
  by (erule thread_step.cases)
    (auto simp: left_call_def right_call_def left_return_def right_return_def Let_def fault_simps
      split: if_splits side_splits option.splits)

text \<open>A state without a step, when both scripts have the same length, is the end of both threads.\<close>

lemma no_step_end:
  assumes inv: "exchange_inv vs us (e, (ls, lg), (rs, rg))" and len: "length vs = length us"
    and stuck: "\<And>st. \<not> thread_step (e, (ls, lg), (rs, rg)) st"
  shows "ls = [] \<and> rs = [] \<and> lg = us \<and> rg = vs \<and> e = exchange_new"
proof -
  have no_lc: "ls \<noteq> [] \<Longrightarrow> left_side e \<noteq> Outside"
  proof (rule notI)
    assume "ls \<noteq> []" "left_side e = Outside"
    then obtain v l e' where "ls = v # l" "left_call v e = Some e'" by (cases ls) (auto simp: left_call_def Let_def)
    then show False using stuck thread_step.left_calls by metis
  qed
  have no_rc: "rs \<noteq> [] \<Longrightarrow> right_side e \<noteq> Outside"
  proof (rule notI)
    assume "rs \<noteq> []" "right_side e = Outside"
    then obtain v l e' where "rs = v # l" "right_call v e = Some e'" by (cases rs) (auto simp: right_call_def Let_def)
    then show False using stuck thread_step.right_calls by metis
  qed
  have no_lr: "left_return e = None" using stuck thread_step.left_returns by (metis option.exhaust prod.collapse)
  have no_rr: "right_return e = None" using stuck thread_step.right_returns by (metis option.exhaust prod.collapse)
  show ?thesis
    using inv len no_lc no_rc no_lr no_rr
    by (cases e) (auto simp: exchange_inv_def exchange_new_def left_return_def right_return_def Let_def split: side_splits,
      metis take_all order_refl)
qed

text \<open>C19: Two threads that make the same number of exchanges both finish, however they are scheduled:
  from every reachable state they can go on until both have all values of the other, and no run is
  longer than twice the number of calls.\<close>

theorem exchange_completes:
  assumes len: "length vs = length us"
    and reach: "thread_step\<^sup>*\<^sup>* (exchange_new, (vs, []), (us, [])) st"
  shows "thread_step\<^sup>*\<^sup>* st (exchange_new, ([], us), ([], vs)) \<and>
    (\<forall>n st'. (thread_step ^^ n) st st' \<longrightarrow> n \<le> 2 * (length vs + length us))"
proof -
  have inv: "exchange_inv vs us st" using reachable_inv [OF reach] .
  have "thread_step\<^sup>*\<^sup>* st (exchange_new, ([], us), ([], vs))"
    using inv
  proof (induction "steps_left st" arbitrary: st rule: less_induct)
    case less
    obtain e ls lg rs rg where st: "st = (e, (ls, lg), (rs, rg))" by (metis surj_pair)
    show ?case
    proof (cases "\<exists>st'. thread_step st st'")
      case True
      then obtain st' where step: "thread_step st st'" by blast
      have "thread_step\<^sup>*\<^sup>* st' (exchange_new, ([], us), ([], vs))"
        using less thread_step_decreases [OF step] thread_step_inv [OF step] by blast
      then show ?thesis using step by (rule converse_rtranclp_into_rtranclp [rotated])
    next
      case False
      then show ?thesis using no_step_end [of vs us e ls lg rs rg] less.prems len st by auto
    qed
  qed
  moreover have "(thread_step ^^ n) s s' \<Longrightarrow> n + steps_left s' \<le> steps_left s" for n s s'
  proof (induction n arbitrary: s')
    case (Suc n)
    then obtain s1 where "(thread_step ^^ n) s s1" "thread_step s1 s'" by auto
    then show ?case using Suc.IH [of s1] thread_step_decreases [of s1 s'] by simp
  qed simp
  moreover have "steps_left st \<le> 2 * (length vs + length us)"
    using reach
  proof (induction rule: rtranclp_induct)
    case base
    then show ?case by (simp add: exchange_new_def)
  next
    case (step y z)
    then show ?case using thread_step_decreases [of y z] by simp
  qed
  ultimately show ?thesis using le_trans add_leD1 by metis
qed

section \<open>Example\<close>

lemma ex_left_call:
  "thread_step (exchange_new, ([True], []), ([7 :: int], []))
    (exchange_new\<lparr>m_left := Some True, left_side := Waiting False\<rparr>, ([], []), ([7], []))"
  by (rule thread_step.left_calls) (simp add: left_call_def exchange_new_def)

theorem exchange_in_order_witness:
  "\<exists>e. thread_step\<^sup>*\<^sup>* (exchange_new, ([True], []), ([7 :: int], [])) (e, ([], []), ([7], [])) \<and> ([] :: int list) = take 0 [7]"
proof (intro exI conjI)
  show reach: "thread_step\<^sup>*\<^sup>* (exchange_new, ([True], []), ([7 :: int], []))
      (exchange_new\<lparr>m_left := Some True, left_side := Waiting False\<rparr>, ([], []), ([7], []))"
    using ex_left_call by (rule r_into_rtranclp)
  show "([] :: int list) = take 0 [7]" using exchange_in_order [OF reach] by simp
qed

theorem exchange_completes_witness:
  "thread_step\<^sup>*\<^sup>* (exchange_new\<lparr>m_left := Some True, left_side := Waiting False\<rparr>, ([], []), ([7 :: int], []))
     (exchange_new, ([], [7]), ([], [True]))"
proof -
  have "thread_step\<^sup>*\<^sup>* (exchange_new, ([True], []), ([7 :: int], []))
      (exchange_new\<lparr>m_left := Some True, left_side := Waiting False\<rparr>, ([], []), ([7], []))"
    using ex_left_call by (rule r_into_rtranclp)
  then show ?thesis using exchange_completes [of "[True]" "[7 :: int]"] by simp
qed

end
