(* ===== verification/Socket_World.thy ===== *)
theory Socket_World
  imports Prelude
begin

text \<open>
  The socket layer of the console, as the network code of \<open>payload/sp/net\<close> sees it.  It is not
  code of the repository, so nothing about its results is fixed: \<open>so_replies\<close> is the list of
  results the coming calls return, \<open>so_inbox\<close> the chunks the coming receives deliver.  Theorems
  quantify over both.  The calls and their results are recorded in \<open>so_log\<close>.
\<close>

record sockaddr =
  sa_len :: u8
  sa_family :: u8
  sa_port :: u16
  sa_addr :: u32

definition SOCKADDR_SIZE :: u8 where
  "SOCKADDR_SIZE = 8"

definition sockaddr_zero :: sockaddr where
  "sockaddr_zero = \<lparr>sa_len = 0, sa_family = 0, sa_port = 0, sa_addr = 0\<rparr>"

datatype so_call =
    SOInetAtoN string
  | SOSocket int int int
  | SOConnect int sockaddr
  | SOFcntl int int int
  | SOClose int
  | SOSend int bytes
  | SOSendTo int bytes sockaddr

record os =
  so_replies :: "int list"
  so_inbox :: "bytes list"
  so_log :: "(so_call \<times> int) list"

text \<open>A call takes the next result; a script that has run out makes every call fail with -1.\<close>

definition so_call :: "so_call \<Rightarrow> 'a os_scheme \<Rightarrow> int \<times> 'a os_scheme" where
  "so_call c s =
     (let r = (case so_replies s of [] \<Rightarrow> -1 | r # _ \<Rightarrow> r)
      in (r, s\<lparr>so_replies := tl (so_replies s), so_log := so_log s @ [(c, r)]\<rparr>))"

text \<open>
  \<open>SORecv\<close> delivers at most \<open>cap\<close> bytes of the next chunk; the rest stays.  The empty list stands
  for a result that is zero or negative (nothing to read, closed, error).
\<close>

definition so_recv :: "nat \<Rightarrow> 'a os_scheme \<Rightarrow> bytes \<times> 'a os_scheme" where
  "so_recv cap s =
     (case so_inbox s of
        [] \<Rightarrow> ([], s)
      | c # cs \<Rightarrow>
          (take cap c, s\<lparr>so_inbox := (if length c \<le> cap then cs else drop cap c # cs)\<rparr>))"

definition so_pending :: "'a os_scheme \<Rightarrow> bytes" where
  "so_pending s = concat (so_inbox s)"

lemma so_recv_pending:
  "so_recv cap s = (r, s') \<Longrightarrow>
   so_pending s = r @ so_pending s' \<and> length r \<le> cap \<and> (\<exists>i. s' = s\<lparr>so_inbox := i\<rparr>)"
  by (auto simp: so_recv_def so_pending_def split: list.splits if_splits intro: exI [of _ "so_inbox s"])

lemma so_call_frame: "so_call c s = (r, s') \<Longrightarrow> so_inbox s' = so_inbox s"
  by (auto simp: so_call_def Let_def)

end
