(* ===== verification/Bit_Field.thy ===== *)
theory Bit_Field
  imports Prelude
begin

text \<open>
  The class template \<open>BitField<T, N>\<close> of \<open>common/BitField.hh\<close>: a set of aids (slots of a room) kept
  in an integer.  \<^term>\<open>None\<close> is the panic on an invalid aid.  The code instantiates it at 16 and
  32 bits with N = 12; the locale \<open>aid_set\<close> says what its users rely on, whatever the width.
\<close>

text \<open>An aid is an \<open>s8\<close>; the words here hold its two's complement.\<close>

definition bf_invalidAid :: "nat \<Rightarrow> u8 \<Rightarrow> bool" where
  "bf_invalidAid N n \<longleftrightarrow> sint n \<noteq> -1 \<and> int N \<le> sint n"

text \<open>\<open>1 << n\<close> on \<open>int\<close>: the amount is the sign-extended aid.\<close>

definition bf_mask :: "u8 \<Rightarrow> u32" where
  "bf_mask n = slw 1 (unat (scast n :: u32))"

definition bf_on :: "nat \<Rightarrow> 'a::len word \<Rightarrow> u8 \<Rightarrow> bool option" where
  "bf_on N f n = do {
     ensure (\<not> bf_invalidAid N n);
     Some (ucast f AND bf_mask n \<noteq> 0)
   }"

definition bf_set :: "nat \<Rightarrow> 'a::len word \<Rightarrow> u8 \<Rightarrow> 'a word option" where
  "bf_set N f n = do {
     ensure (\<not> bf_invalidAid N n);
     Some (ucast (ucast f OR bf_mask n))
   }"

definition bf_clear :: "nat \<Rightarrow> 'a::len word \<Rightarrow> u8 \<Rightarrow> 'a word option" where
  "bf_clear N f n = do {
     ensure (\<not> bf_invalidAid N n);
     Some (ucast (ucast f AND NOT (bf_mask n)))
   }"

definition bf_any :: "'a::len word \<Rightarrow> bool" where
  "bf_any f \<longleftrightarrow> f \<noteq> 0"

text \<open>\<open>return m_field = 0\<close>: the assignment, and its value as a \<open>bool\<close>.\<close>

definition bf_none :: "'a::len word \<Rightarrow> bool \<times> 'a word" where
  "bf_none f = (let f' = 0 in (f' \<noteq> 0, f'))"

definition bf_reset :: "'a::len word \<Rightarrow> 'a word" where
  "bf_reset f = 0"

definition bf_assign :: "'a::len word \<Rightarrow> u32 \<Rightarrow> 'a word" where
  "bf_assign f v = ucast v"

section \<open>Masks\<close>

lemma sint_small: "unat (n :: u8) < 128 \<Longrightarrow> sint n = int (unat n)"
proof -
  assume "unat n < 128"
  then have "int (unat n) < int 128" by (simp only: of_nat_less_iff)
  then have "uint n < 2 ^ 7" by simp
  then have "signed_take_bit 7 (uint n) = uint n"
    by (intro signed_take_bit_int_eq_self) (simp_all add: order.trans [OF _ uint_ge_0])
  then show ?thesis by (simp add: sint_uint)
qed

lemma bf_mask_small:
  assumes "unat n < 32"
  shows "bf_mask n = push_bit (unat n) 1"
proof -
  have "scast n = (word_of_int (sint n) :: u32)" by simp
  then have "unat (scast n :: u32) = unat n"
    using assms sint_small [of n] by (simp add: unat_of_nat take_bit_nat_eq_self)
  then show ?thesis using assms by (simp add: bf_mask_def)
qed

text \<open>The aid \<open>-1\<close> stands for no aid: it is in no set and adds nothing.\<close>

lemma bf_mask_none: "bf_mask 0xff = 0"
proof -
  have "unat (- 1 :: u32) mod 64 = 63" by (simp add: unsigned_minus_1_eq_mask mask_eq_exp_minus_1)
  then show ?thesis by (simp add: bf_mask_def slw_def)
qed

lemma bf_valid_small: "unat n < N \<Longrightarrow> N \<le> 128 \<Longrightarrow> \<not> bf_invalidAid N n"
proof -
  assume n: "unat n < N" "N \<le> 128"
  then have "int (unat n) < int N" by (simp only: of_nat_less_iff)
  then show ?thesis using n sint_small [of n] by (simp add: bf_invalidAid_def)
qed

lemma bf_invalid_small: "N \<le> unat n \<Longrightarrow> unat n < 128 \<Longrightarrow> bf_invalidAid N n"
proof -
  assume n: "N \<le> unat n" "unat n < 128"
  then have "int N \<le> int (unat n)" by (simp only: of_nat_le_iff)
  moreover have "0 \<le> uint n" by simp
  ultimately show ?thesis using n sint_small [of n] unfolding bf_invalidAid_def by simp
qed

lemma bf_none_valid: "\<not> bf_invalidAid N 0xff"
  by (simp add: bf_invalidAid_def)

lemma bf_on_bit:
  fixes f :: "'a::len word"
  assumes "unat n < N" and "N \<le> LENGTH('a)" and "N \<le> 32"
  shows "bf_on N f n = Some (bit f (unat n))"
proof -
  have "ucast f AND push_bit (unat n) (1 :: u32) = 0 \<longleftrightarrow> \<not> bit f (unat n)"
    using assms by (simp add: and_shift_1_eq_0_iff bit_unsigned_iff del: push_bit_of_1)
  then show ?thesis using assms by (simp add: bf_on_def bf_valid_small bf_mask_small del: push_bit_of_1)
qed

lemma bf_set_bit:
  fixes f :: "'a::len word"
  assumes "unat n < N" and "N \<le> LENGTH('a)" and "N \<le> 32"
  shows "\<exists>f'. bf_set N f n = Some f' \<and> (\<forall>k < 32. bit f' k \<longleftrightarrow> k = unat n \<or> bit f k)"
  using assms
  by (auto simp: bf_set_def bf_valid_small bf_mask_small bit_unsigned_iff bit_or_iff bit_push_bit_iff
      bit_1_iff simp del: push_bit_of_1 dest: bit_imp_le_length)

lemma bf_clear_bit:
  fixes f :: "'a::len word"
  assumes "unat n < N" and "N \<le> LENGTH('a)" and "N \<le> 32"
  shows "\<exists>f'. bf_clear N f n = Some f' \<and> (\<forall>k < 32. bit f' k \<longleftrightarrow> k \<noteq> unat n \<and> bit f k)"
  using assms
  by (auto simp: bf_clear_def bf_valid_small bf_mask_small bit_unsigned_iff bit_and_iff bit_not_iff
      bit_push_bit_iff bit_1_iff simp del: push_bit_of_1 dest: bit_imp_le_length)

lemma bf_on_none: "bf_on N f 0xff = Some False"
  by (simp add: bf_on_def bf_none_valid bf_mask_none)


section \<open>Sets of aids\<close>

locale aid_set =
  fixes cap :: nat
    and on :: "'f \<Rightarrow> u8 \<Rightarrow> bool option"
    and add remove :: "'f \<Rightarrow> u8 \<Rightarrow> 'f option"
    and empty :: 'f
    and members :: "'f \<Rightarrow> nat set"
  assumes members_empty: "members empty = {}"
    and on_member: "unat n < cap \<Longrightarrow> on f n = Some (unat n \<in> members f)"
    and add_member: "unat n < cap \<Longrightarrow> \<exists>f'. add f n = Some f' \<and> members f' = insert (unat n) (members f)"
    and remove_member: "unat n < cap \<Longrightarrow> \<exists>f'. remove f n = Some f' \<and> members f' = members f - {unat n}"
begin

primrec add_all :: "u8 list \<Rightarrow> 'f \<Rightarrow> 'f option" where
  "add_all [] f = Some f"
| "add_all (n # ns) f = Option.bind (add f n) (add_all ns)"

lemma add_all_members:
  "(\<forall>n \<in> set ns. unat n < cap) \<Longrightarrow>
   \<exists>f'. add_all ns f = Some f' \<and> members f' = unat ` set ns \<union> members f"
proof (induction ns arbitrary: f)
  case Nil
  then show ?case by simp
next
  case (Cons n ns)
  obtain f1 where f1: "add f n = Some f1" "members f1 = insert (unat n) (members f)"
    using add_member [of n f] Cons.prems by auto
  obtain f' where "add_all ns f1 = Some f'" "members f' = unat ` set ns \<union> members f1"
    using Cons.IH [of f1] Cons.prems by auto
  then show ?case using f1 by auto
qed

lemma collects:
  assumes "\<forall>n \<in> set ns. unat n < cap" and "unat m < cap"
  shows "\<exists>f'. add_all ns empty = Some f' \<and> on f' m = Some (unat m \<in> unat ` set ns)"
  using add_all_members [OF assms(1), of empty] on_member [OF assms(2)] by (auto simp: members_empty)

lemma remove_add:
  assumes "unat n < cap"
  shows "\<exists>f1 f2. add f n = Some f1 \<and> remove f1 n = Some f2 \<and> members f2 = members f - {unat n}"
  using add_member [OF assms] remove_member [OF assms] by (metis insert_Diff_if singletonI Diff_insert2 insert_Diff1)

end

definition bf_members :: "'a::len word \<Rightarrow> nat set" where
  "bf_members f = {k. bit f k}"

lemma bf_members_iff: "LENGTH('a) \<le> 32 \<Longrightarrow> k \<in> bf_members (f :: 'a::len word) \<longleftrightarrow> k < 32 \<and> bit f k"
  using bit_imp_le_length [of f k] by (auto simp: bf_members_def)

lemma bf_aid_set:
  assumes "12 \<le> LENGTH('a::len)" and "LENGTH('a) \<le> 32"
  shows "aid_set 12 (bf_on 12) (bf_set 12) (bf_clear 12) (0 :: 'a word) bf_members"
proof
  fix f :: "'a word" and n :: u8
  show "bf_members (0 :: 'a word) = {}" by (simp add: bf_members_def)
  assume n: "unat n < 12"
  then show "bf_on 12 f n = Some (unat n \<in> bf_members f)"
    using assms by (simp add: bf_on_bit bf_members_def)
  show "\<exists>f'. bf_set 12 f n = Some f' \<and> bf_members f' = insert (unat n) (bf_members f)"
    using bf_set_bit [OF n, of f] assms n by (auto simp: bf_members_iff)
  show "\<exists>f'. bf_clear 12 f n = Some f' \<and> bf_members f' = bf_members f - {unat n}"
    using bf_clear_bit [OF n, of f] assms n by (auto simp: bf_members_iff)
qed

interpretation aids16: aid_set 12 "bf_on 12" "bf_set 12" "bf_clear 12" "0 :: u16" bf_members
  by (rule bf_aid_set) simp_all

interpretation aids32: aid_set 12 "bf_on 12" "bf_set 12" "bf_clear 12" "0 :: u32" bf_members
  by (rule bf_aid_set) simp_all

lemma bf_ops:
  assumes "unat n < 12" and "unat k < 12"
  shows "\<exists>f1 f2. bf_set 12 (f :: u16) n = Some f1 \<and> bf_clear 12 f n = Some f2 \<and>
    bf_on 12 f1 k = Some (k = n \<or> unat k \<in> bf_members f) \<and>
    bf_on 12 f2 k = Some (k \<noteq> n \<and> unat k \<in> bf_members f)"
proof -
  obtain f1 where f1: "bf_set 12 f n = Some f1" "bf_members f1 = insert (unat n) (bf_members f)"
    using aids16.add_member [OF assms(1)] by blast
  obtain f2 where f2: "bf_clear 12 f n = Some f2" "bf_members f2 = bf_members f - {unat n}"
    using aids16.remove_member [OF assms(1)] by blast
  show ?thesis using f1 f2 aids16.on_member [OF assms(2)] by (auto simp: word_unat_eq_iff)
qed

lemma bf_ops_witness:
  "\<exists>f. bf_set 12 (0x10 :: u16) 3 = Some f \<and> bf_on 12 f 4 = Some True"
proof -
  have "(4 :: nat) \<in> bf_members (0x10 :: u16)" by (simp add: bf_members_def bit_numeral_rec)
  then show ?thesis using bf_ops [of 3 4 "0x10"] by auto
qed

end
