(* ===== verification/Match_Making.thy ===== *)
theory Match_Making
  imports Byte_IO Bit_Field
begin

text \<open>
  The state of the room: the packet the room manager sends
  (\<open>payload/sp/net/mkw_server/MKWServerTypes.h\<close>, \<open>packets/MatchMakingInfo.cc\<close>), its validation, and
  the game's \<open>MatchMakingInfo\<close> filled from it (\<open>payload/game/net/MatchMakingInfo.cc\<close>).
\<close>

section \<open>The packet\<close>

record dwc_user_data =
  playersAtConsole :: u8
  du_pad :: bytes

record mm_packet =
  mp_aidBitmap :: u32
  mp_numAids :: u32
  mp_directConnectedAidBitmap :: u32
  mp_roomId :: u32
  mp_myAid :: u8
  mp_hostAid :: u8
  mp_suspended :: bool
  mp_canceled :: bool
  mp_localPlayerCount :: "dwc_user_data list"

definition MM_PACKET_SIZE :: nat where
  "MM_PACKET_SIZE = 0x44"

definition MAX_PLAYER_COUNT :: nat where
  "MAX_PLAYER_COUNT = 12"

text \<open>The struct at the front of \<open>data\<close>, as the big-endian console reads it.\<close>

primrec user_data_of_bytes :: "bytes \<Rightarrow> nat \<Rightarrow> nat \<Rightarrow> dwc_user_data list option" where
  "user_data_of_bytes data off 0 = Some []"
| "user_data_of_bytes data off (Suc n) = do {
     b \<leftarrow> rd data off;
     p \<leftarrow> rd_n data (off + 1) 3;
     us \<leftarrow> user_data_of_bytes data (off + 4) n;
     Some (\<lparr>playersAtConsole = b, du_pad = p\<rparr> # us)
   }"

definition mm_of_bytes :: "bytes \<Rightarrow> mm_packet option" where
  "mm_of_bytes data = do {
     aidBitmap \<leftarrow> read_u32 data 0x00;
     numAids \<leftarrow> read_u32 data 0x04;
     direct \<leftarrow> read_u32 data 0x08;
     roomId \<leftarrow> read_u32 data 0x0c;
     myAid \<leftarrow> rd data 0x10;
     hostAid \<leftarrow> rd data 0x11;
     suspended \<leftarrow> rd data 0x12;
     canceled \<leftarrow> rd data 0x13;
     counts \<leftarrow> user_data_of_bytes data 0x14 MAX_PLAYER_COUNT;
     Some \<lparr>mp_aidBitmap = aidBitmap, mp_numAids = numAids, mp_directConnectedAidBitmap = direct,
       mp_roomId = roomId, mp_myAid = myAid, mp_hostAid = hostAid, mp_suspended = (suspended \<noteq> 0),
       mp_canceled = (canceled \<noteq> 0), mp_localPlayerCount = counts\<rparr>
   }"

text \<open>The state \<open>memset\<close> leaves.\<close>

definition dwc_user_zero :: dwc_user_data where
  "dwc_user_zero = \<lparr>playersAtConsole = 0, du_pad = replicate 3 0\<rparr>"

definition mm_zero :: mm_packet where
  "mm_zero = \<lparr>mp_aidBitmap = 0, mp_numAids = 0, mp_directConnectedAidBitmap = 0, mp_roomId = 0,
     mp_myAid = 0, mp_hostAid = 0, mp_suspended = False, mp_canceled = False,
     mp_localPlayerCount = replicate MAX_PLAYER_COUNT dwc_user_zero\<rparr>"

section \<open>Validation\<close>

definition matchMakingInfoValid :: "mm_packet \<Rightarrow> bool" where
  "matchMakingInfoValid p =
     (if mp_aidBitmap p AND NOT 0xfff \<noteq> 0 then False
      else if mp_directConnectedAidBitmap p AND NOT 0xfff \<noteq> 0 then False
      else if mp_numAids p > 12 then False
      else if mp_myAid p > 11 \<and> mp_myAid p \<noteq> 0xff then False
      else if mp_hostAid p > 11 \<and> mp_hostAid p \<noteq> 0xff then False
      else if mp_aidBitmap p \<noteq> 0 \<and> mp_aidBitmap p AND slw 1 (unat (mp_myAid p)) = 0 then False
      else list_all (\<lambda>u. \<not> playersAtConsole u > 2) (take 12 (mp_localPlayerCount p)))"

text \<open>
  \<open>processMatchMakingInfoPacket\<close>: \<open>data\<close> is the packet behind the magic, \<open>g\<close> the global
  \<open>g_recvMatchPacket\<close>.  \<^term>\<open>None\<close>: the buffer is shorter than the struct.
\<close>

definition processMatchMakingInfoPacket :: "bytes \<Rightarrow> mm_packet \<Rightarrow> (bool \<times> mm_packet) option" where
  "processMatchMakingInfoPacket data g = do {
     mmInfo \<leftarrow> mm_of_bytes data;
     Some (if \<not> matchMakingInfoValid mmInfo then (False, g) else (True, mmInfo))
   }"

section \<open>The information the game uses\<close>

record mm_info =
  mi_numAids :: u32
  mi_numPlayers :: u32
  mi_availableAids :: u32
  mi_connectedToAids :: u32
  mi_groupId :: u32
  mi_hostFriendId :: u32
  mi_myLocalPlayerCount :: u8
  mi_myAid :: u8
  mi_hostAid :: u8
  mi_localPlayerCounts :: "dwc_user_data list"
  mi_isMatchMakingSuspended :: bool

definition mm_info_reset :: "mm_info \<Rightarrow> mm_info" where
  "mm_info_reset m = m\<lparr>mi_availableAids := bf_reset (mi_availableAids m), mi_numAids := 0,
     mi_numPlayers := 0, mi_connectedToAids := bf_reset (mi_connectedToAids m), mi_groupId := 0,
     mi_myAid := 0xff, mi_hostAid := 0xff,
     mi_localPlayerCounts := replicate (length (mi_localPlayerCounts m)) dwc_user_zero\<rparr>"

text \<open>One iteration of the loop over the aids: the number of players so far, the counts so far.\<close>

definition import_count :: "mm_packet \<Rightarrow> u8 \<Rightarrow> u8 \<Rightarrow> nat \<Rightarrow> u32 \<times> dwc_user_data list \<Rightarrow> u32 \<times> dwc_user_data list" where
  "import_count p myAid mine aid = (\<lambda>(curr, counts).
     let n = (if of_nat aid = myAid then mine else playersAtConsole (mp_localPlayerCount p ! aid))
     in (curr + ucast n, counts[aid := (counts ! aid)\<lparr>playersAtConsole := n\<rparr>]))"

definition importMKWServerMMInfo :: "mm_packet \<Rightarrow> mm_info \<Rightarrow> mm_info" where
  "importMKWServerMMInfo p m =
     (let m = m\<lparr>mi_availableAids := bf_assign (mi_availableAids m) (mp_aidBitmap p),
            mi_numAids := mp_numAids p,
            mi_connectedToAids := bf_assign (mi_connectedToAids m) (mp_directConnectedAidBitmap p),
            mi_groupId := mp_roomId p, mi_myAid := mp_myAid p, mi_hostAid := mp_hostAid p\<rparr>;
          (curr, counts) = fold (import_count p (mi_myAid m) (mi_myLocalPlayerCount m))
            [0..<MAX_PLAYER_COUNT] (0, mi_localPlayerCounts m)
      in m\<lparr>mi_localPlayerCounts := counts, mi_numPlayers := curr, mi_isMatchMakingSuspended := mp_suspended p\<rparr>)"

section \<open>What a valid packet guarantees\<close>

lemma no_high_bits: "(f :: u32) AND NOT 0xfff = 0 \<longleftrightarrow> bf_members f \<subseteq> {..<12}"
proof -
  have mask: "(0xfff :: u32) = mask 12" by (simp add: mask_eq_exp_minus_1)
  have "f AND NOT 0xfff = 0 \<longleftrightarrow> (\<forall>k < 32. \<not> (bit f k \<and> 12 \<le> k))"
    unfolding mask by (auto simp: bit_eq_iff bit_and_iff bit_not_iff bit_mask_iff possible_bit_word)
  moreover have "bit f k \<Longrightarrow> k < 32" for k using bit_imp_le_length [of f k] by simp
  then have "(\<forall>k < 32. \<not> (bit f k \<and> 12 \<le> k)) \<longleftrightarrow> (\<forall>k. bit f k \<longrightarrow> k < 12)" by (metis not_le)
  ultimately show ?thesis by (simp add: bf_members_def subset_iff)
qed

lemma aid_range: "\<not> (a > 11 \<and> a \<noteq> (0xff :: u8)) \<longleftrightarrow> a = 0xff \<or> unat a < 12"
proof -
  have "a > 11 \<longleftrightarrow> \<not> unat a < 12" by (auto simp: word_less_nat_alt not_less)
  then show ?thesis by blast
qed

lemma own_bit:
  assumes "a = 0xff \<or> unat a < 12"
  shows "(f :: u32) AND slw 1 (unat (a :: u8)) = 0 \<longleftrightarrow> \<not> (a \<noteq> 0xff \<and> unat a \<in> bf_members f)"
proof (cases "a = 0xff")
  case True
  then show ?thesis by (simp add: slw_def)
next
  case False
  then show ?thesis using assms by (simp add: and_shift_1_eq_0_iff bf_members_def del: push_bit_of_1)
qed

lemma matchMakingInfoValid_iff:
  "matchMakingInfoValid p \<longleftrightarrow>
     bf_members (mp_aidBitmap p) \<subseteq> {..<12} \<and> bf_members (mp_directConnectedAidBitmap p) \<subseteq> {..<12} \<and>
     unat (mp_numAids p) \<le> 12 \<and> (mp_myAid p = 0xff \<or> unat (mp_myAid p) < 12) \<and>
     (mp_hostAid p = 0xff \<or> unat (mp_hostAid p) < 12) \<and>
     (mp_aidBitmap p = 0 \<or> mp_myAid p \<noteq> 0xff \<and> unat (mp_myAid p) \<in> bf_members (mp_aidBitmap p)) \<and>
     (\<forall>u \<in> set (take 12 (mp_localPlayerCount p)). unat (playersAtConsole u) \<le> 2)"
proof -
  have num: "mp_numAids p > 12 \<longleftrightarrow> \<not> unat (mp_numAids p) \<le> 12" by (auto simp: word_less_nat_alt)
  have cnt: "list_all (\<lambda>u. \<not> playersAtConsole u > 2) us \<longleftrightarrow> (\<forall>u \<in> set us. unat (playersAtConsole u) \<le> 2)" for us
    by (simp add: list_all_iff word_less_nat_alt not_less)
  show ?thesis
  proof (cases "mp_myAid p = 0xff \<or> unat (mp_myAid p) < 12")
    case True
    then show ?thesis
      unfolding matchMakingInfoValid_def
      using no_high_bits [of "mp_aidBitmap p"] no_high_bits [of "mp_directConnectedAidBitmap p"]
        num aid_range [of "mp_myAid p"] aid_range [of "mp_hostAid p"] own_bit [OF True, of "mp_aidBitmap p"]
        cnt [of "take 12 (mp_localPlayerCount p)"]
      by (simp only: if_bool_eq_conj) blast
  next
    case False
    then show ?thesis
      using aid_range [of "mp_myAid p"] unfolding matchMakingInfoValid_def by (simp only: if_False if_True) auto
  qed
qed

section \<open>What the import leaves\<close>

definition player_share :: "mm_packet \<Rightarrow> u8 \<Rightarrow> u8 \<Rightarrow> nat \<Rightarrow> u8" where
  "player_share p myAid mine i = (if i = unat myAid then mine else playersAtConsole (mp_localPlayerCount p ! i))"

lemma import_fold:
  assumes "n \<le> 12" and "length counts = 12"
  shows "\<exists>counts'. fold (import_count p a mine) [0..<n] (0, counts) =
      (of_nat (\<Sum>i<n. unat (player_share p a mine i)), counts') \<and> length counts' = 12 \<and>
      (\<forall>i<12. counts' ! i = (if i < n then (counts ! i)\<lparr>playersAtConsole := player_share p a mine i\<rparr>
        else counts ! i))"
  using assms(1)
proof (induction n)
  case 0
  then show ?case using assms(2) by simp
next
  case (Suc n)
  then obtain c where c: "fold (import_count p a mine) [0..<n] (0, counts) =
      (of_nat (\<Sum>i<n. unat (player_share p a mine i)), c)" "length c = 12"
    "\<forall>i<12. c ! i = (if i < n then (counts ! i)\<lparr>playersAtConsole := player_share p a mine i\<rparr> else counts ! i)"
    by auto
  have "of_nat n = a \<longleftrightarrow> n = unat a"
  proof
    assume "of_nat n = a"
    moreover have "unat (of_nat n :: u8) = n" using Suc.prems unfolding unat_of_nat by simp
    ultimately show "n = unat a" by simp
  qed simp
  then have one: "import_count p a mine n (x, c) =
      (x + ucast (player_share p a mine n), c[n := (c ! n)\<lparr>playersAtConsole := player_share p a mine n\<rparr>])" for x
    by (simp add: import_count_def player_share_def Let_def)
  have "of_nat k + ucast (player_share p a mine n) = (of_nat (k + unat (player_share p a mine n)) :: u32)" for k
    by simp
  then have step: "fold (import_count p a mine) [0..<Suc n] (0, counts) =
      (of_nat (\<Sum>i<Suc n. unat (player_share p a mine i)),
       c[n := (c ! n)\<lparr>playersAtConsole := player_share p a mine n\<rparr>])"
    by (simp only: upt_Suc_append [OF le0] fold_append comp_apply fold_simps c(1) one sum.lessThan_Suc)
  have "c[n := (c ! n)\<lparr>playersAtConsole := player_share p a mine n\<rparr>] ! i =
      (if i < Suc n then (counts ! i)\<lparr>playersAtConsole := player_share p a mine i\<rparr> else counts ! i)"
    if "i < 12" for i
    using c(2,3) that Suc.prems by (cases "i = n") auto
  moreover have "length (c[n := (c ! n)\<lparr>playersAtConsole := player_share p a mine n\<rparr>]) = 12"
    using c(2) by simp
  ultimately show ?case using step by blast
qed


section \<open>Examples\<close>

text \<open>The packet of an empty room is valid.\<close>

lemma matchMakingInfoValid_iff_witness: "matchMakingInfoValid mm_zero"
  unfolding matchMakingInfoValid_iff
  by (simp add: mm_zero_def bf_members_def dwc_user_zero_def MAX_PLAYER_COUNT_def)

definition mm_info_example :: mm_info where
  "mm_info_example = \<lparr>mi_numAids = 0, mi_numPlayers = 0, mi_availableAids = 0, mi_connectedToAids = 0,
     mi_groupId = 0, mi_hostFriendId = 0, mi_myLocalPlayerCount = 2, mi_myAid = 0xff, mi_hostAid = 0xff,
     mi_localPlayerCounts = replicate 12 dwc_user_zero, mi_isMatchMakingSuspended = False\<rparr>"


end
