(* ===== verification/MKW_Server.thy ===== *)
theory MKW_Server
  imports Socket_World Match_Making
begin

text \<open>
  The client's side of the game server: \<open>payload/sp/net/mkw_server/MKWServer.cc\<close> and
  \<open>packets/MKWServerInfo.cc\<close>.  The record \<open>mkw\<close> holds the statics of this file and of
  \<open>RoomManager.cc\<close>, whose functions call each other; those of the latter are in \<open>Room_Manager\<close>.
  A pair of a pointer and its length is a list of bytes.
\<close>

record mkw = os +
  hasRequestedMKWServerAddress :: bool
  mkwServerAddr :: sockaddr
  wfcSearchId :: u64
  ping :: bytes
  hbsock :: int
  recvMatchPacket :: mm_packet
  serverAddr :: sockaddr
  matchMakingSocket :: int
  connection :: int
  recvBuf :: bytes
  recvBufSize :: nat

definition READY_PACKET :: bytes where
  "READY_PACKET = [0x52, 0x45]"

definition PONG_PACKET :: bytes where
  "PONG_PACKET = [0x50, 0x4f]"

definition SEARCH_ID_MAGIC :: bytes where
  "SEARCH_ID_MAGIC = [0x53, 0x45, 0x41, 0x52, 0x43, 0x48, 0x49, 0x44]"

definition MKW_SERVER_RACE_PACKET :: u8 where
  "MKW_SERVER_RACE_PACKET = 0xb"

definition WFC_SERVER_ADDRESS :: u32 where
  "WFC_SERVER_ADDRESS = 0x607e6b90"

section \<open>The address of the game server\<close>

definition setMKWServerAddress :: "u32 \<Rightarrow> u16 \<Rightarrow> 'a mkw_scheme \<Rightarrow> 'a mkw_scheme" where
  "setMKWServerAddress addr port s =
     s\<lparr>mkwServerAddr := \<lparr>sa_len = SOCKADDR_SIZE, sa_family = 2, sa_port = port, sa_addr = addr\<rparr>\<rparr>"

definition resetMKWServerInfo :: "'a mkw_scheme \<Rightarrow> 'a mkw_scheme" where
  "resetMKWServerInfo s = s\<lparr>hasRequestedMKWServerAddress := False, mkwServerAddr := sockaddr_zero\<rparr>"

definition hasMKWServerAddress :: "'a mkw_scheme \<Rightarrow> bool" where
  "hasMKWServerAddress s \<longleftrightarrow> sa_addr (mkwServerAddr s) \<noteq> 0 \<and> sa_port (mkwServerAddr s) \<noteq> 0"

text \<open>\<open>processMKWServerInfoPacket\<close>: the packed struct of an address and a port.\<close>

definition processMKWServerInfoPacket :: "bytes \<Rightarrow> 'a mkw_scheme \<Rightarrow> 'a mkw_scheme option" where
  "processMKWServerInfoPacket data s = do {
     address \<leftarrow> read_u32 data 0;
     port \<leftarrow> read_u16 data 4;
     Some (setMKWServerAddress address port s)
   }"

text \<open>The header of a race packet; the state is only read.\<close>

definition applyMKWServerHeader :: "bytes \<Rightarrow> u8 \<Rightarrow> 'a mkw_scheme \<Rightarrow> (bool \<times> bytes) option" where
  "applyMKWServerHeader packet myAid s =
     (if hasMKWServerAddress s then do {
        p0 \<leftarrow> wr packet 0 MKW_SERVER_RACE_PACKET;
        p1 \<leftarrow> wr p0 1 myAid;
        Some (True, p1)
      } else Some (False, packet))"

definition getSearchId :: "'a mkw_scheme \<Rightarrow> u64" where
  "getSearchId s = wfcSearchId s"

section \<open>Datagrams\<close>

definition sendReadyPacket :: "'a mkw_scheme \<Rightarrow> 'a mkw_scheme" where
  "sendReadyPacket s =
     (if \<not> hasMKWServerAddress s then s
      else snd (so_call (SOSendTo (hbsock s) READY_PACKET (mkwServerAddr s)) s))"

definition getPing :: "'a mkw_scheme \<Rightarrow> bytes" where
  "getPing s = ping s"

text \<open>The result of \<open>SOSendTo\<close> is assigned to a \<open>bool\<close>: only zero is a failure.\<close>

definition trySendRacePacketToMKWServer :: "bytes \<Rightarrow> 'a mkw_scheme \<Rightarrow> bool \<times> 'a mkw_scheme" where
  "trySendRacePacketToMKWServer data s =
     (if \<not> hasMKWServerAddress s then (False, s)
      else let (r, s) = so_call (SOSendTo (hbsock s) data (mkwServerAddr s)) s in (r \<noteq> 0, s))"

definition verifySearchIdMagic :: "bytes \<Rightarrow> bool" where
  "verifySearchIdMagic packet =
     (if length packet < 8 then False else take 8 packet = SEARCH_ID_MAGIC)"

definition sendPong :: "'a mkw_scheme \<Rightarrow> 'a mkw_scheme" where
  "sendPong s =
     (if \<not> hasMKWServerAddress s then s
      else snd (so_call (SOSendTo (hbsock s) PONG_PACKET (mkwServerAddr s)) s))"

definition setPingTime :: "bytes \<Rightarrow> 'a mkw_scheme \<Rightarrow> 'a mkw_scheme option" where
  "setPingTime message s = do {
     p \<leftarrow> rd_n message 2 5;
     Some (s\<lparr>ping := p\<rparr>)
   }"

definition sendMessageToQR2 :: "bytes \<Rightarrow> 'a mkw_scheme \<Rightarrow> bool \<times> 'a mkw_scheme" where
  "sendMessageToQR2 data s =
     (let qr2Addr = \<lparr>sa_len = SOCKADDR_SIZE, sa_family = 2, sa_port = 27900, sa_addr = WFC_SERVER_ADDRESS\<rparr>;
          (r, s) = so_call (SOSendTo (hbsock s) data qr2Addr) s
      in if r < 0 then (False, s) else (True, s))"

section \<open>Facts\<close>

lemma hasMKWServerAddress_reset [simp]: "\<not> hasMKWServerAddress (resetMKWServerInfo s)"
  by (simp add: hasMKWServerAddress_def resetMKWServerInfo_def sockaddr_zero_def)

lemma hasMKWServerAddress_set [simp]:
  "hasMKWServerAddress (setMKWServerAddress a p s) \<longleftrightarrow> a \<noteq> 0 \<and> p \<noteq> 0"
  by (simp add: hasMKWServerAddress_def setMKWServerAddress_def)

text \<open>Without an address nothing is sent.\<close>

lemma silent_without_address:
  assumes "\<not> hasMKWServerAddress s"
  shows "sendReadyPacket s = s" "sendPong s = s" "trySendRacePacketToMKWServer data s = (False, s)"
    "applyMKWServerHeader packet myAid s = Some (False, packet)"
  using assms by (simp_all add: sendReadyPacket_def sendPong_def trySendRacePacketToMKWServer_def
      applyMKWServerHeader_def)

end
