(* ===== verification/Room_Manager.thy ===== *)
theory Room_Manager
  imports MKW_Server
begin

text \<open>
  The TCP connection to the room manager: \<open>payload/sp/net/mkw_server/RoomManager.cc\<close>, the requests
  it sends (\<open>packets/*.hh\<close>), and the receive loop that cuts the byte stream back into packets.
\<close>

section \<open>Connecting\<close>

definition SERVER_HOSTNAME :: string where
  "SERVER_HOSTNAME = ''mariokartwii.ms19.gs.nintendowifi.net''"

definition SO_F_GETFL :: int where "SO_F_GETFL = 3"
definition SO_F_SETFL :: int where "SO_F_SETFL = 4"
definition SO_O_NONBLOCK :: int where "SO_O_NONBLOCK = 4"

definition resetMatchMakingInfoPacket :: "'a mkw_scheme \<Rightarrow> 'a mkw_scheme" where
  "resetMatchMakingInfoPacket s = s\<lparr>recvMatchPacket := mm_zero\<rparr>"

definition resetRoomManagerConnection :: "'a mkw_scheme \<Rightarrow> 'a mkw_scheme" where
  "resetRoomManagerConnection s =
     (if matchMakingSocket s \<noteq> -1 then
        let s = snd (so_call (SOClose (matchMakingSocket s)) s);
            s = s\<lparr>matchMakingSocket := -1, connection := -1, recvBufSize := 0\<rparr>;
            s = resetMatchMakingInfoPacket s
        in resetMKWServerInfo s
      else s)"

text \<open>
  \<open>SOInetAtoN\<close> returns a \<open>BOOL\<close> and, when it succeeds, an address through its second argument:
  two results of the script.
\<close>

definition inet_aton :: "string \<Rightarrow> 'a mkw_scheme \<Rightarrow> u32 option \<times> 'a mkw_scheme" where
  "inet_aton host s =
     (let (r, s) = so_call (SOInetAtoN host) s
      in if r \<noteq> 0 then
           let (a, s) = so_call (SOInetAtoN host) s in (Some (word_of_int a), s)
         else (None, s))"

text \<open>The socket is made unless there is one; the flag tells whether there is one now.\<close>

definition open_socket :: "'a mkw_scheme \<Rightarrow> bool \<times> 'a mkw_scheme" where
  "open_socket s =
     (if matchMakingSocket s = -1 then
        let (sock, s) = so_call (SOSocket 2 1 0) s
        in (sock \<noteq> -1, s\<lparr>matchMakingSocket := sock\<rparr>)
      else (True, s))"

text \<open>The end of \<open>connectToRoomManager\<close>: the socket is switched to non-blocking.\<close>

definition set_nonblocking :: "'a mkw_scheme \<Rightarrow> bool \<times> 'a mkw_scheme" where
  "set_nonblocking s =
     (let (result, s) = so_call (SOFcntl (matchMakingSocket s) SO_F_GETFL 0) s
      in if result = -1 then (False, resetRoomManagerConnection s)
         else let (result, s) = so_call (SOFcntl (matchMakingSocket s) SO_F_SETFL (result OR SO_O_NONBLOCK)) s
              in if result \<noteq> 0 then (False, resetRoomManagerConnection s) else (True, s))"

definition connectToRoomManager :: "'a mkw_scheme \<Rightarrow> bool \<times> 'a mkw_scheme" where
  "connectToRoomManager s =
     (if connection s = 0 then (True, s)
      else
        let s = s\<lparr>serverAddr := (serverAddr s)\<lparr>sa_family := 2, sa_port := 28910\<rparr>\<rparr>;
            (addr, s) = inet_aton SERVER_HOSTNAME s;
            s = s\<lparr>serverAddr := (serverAddr s)\<lparr>sa_addr := (case addr of Some a \<Rightarrow> a | None \<Rightarrow> WFC_SERVER_ADDRESS)\<rparr>\<rparr>;
            (created, s) = open_socket s
        in if \<not> created then (False, s)
           else
             let s = s\<lparr>serverAddr := (serverAddr s)\<lparr>sa_len := SOCKADDR_SIZE\<rparr>\<rparr>;
                 (c, s) = so_call (SOConnect (matchMakingSocket s) (serverAddr s)) s;
                 s = s\<lparr>connection := c\<rparr>
             in if connection s \<noteq> 0 then (False, s) else set_nonblocking s)"

section \<open>Requests\<close>

datatype MatchRequestType = OpenRoom | JoinFriend | LeaveRoom | Suspend | SearchRoom | LocalPlayerCount

fun mrt_value :: "MatchRequestType \<Rightarrow> u8" where
  "mrt_value OpenRoom = 0"
| "mrt_value JoinFriend = 1"
| "mrt_value LeaveRoom = 2"
| "mrt_value Suspend = 3"
| "mrt_value SearchRoom = 4"
| "mrt_value LocalPlayerCount = 5"

datatype GameMode = GM_Undecided | GM_VS | GM_Battle

fun gm_value :: "GameMode \<Rightarrow> u8" where
  "gm_value GM_Undecided = 0"
| "gm_value GM_VS = 1"
| "gm_value GM_Battle = 2"

datatype SearchRegion = SR_NONE | SR_PRIVATE | SR_WW | SR_NA | SR_EU | SR_JP | SR_KOR

fun sr_value :: "SearchRegion \<Rightarrow> int" where
  "sr_value SR_NONE = -1"
| "sr_value SR_PRIVATE = 0"
| "sr_value SR_WW = 1"
| "sr_value SR_NA = 2"
| "sr_value SR_EU = 3"
| "sr_value SR_JP = 4"
| "sr_value SR_KOR = 5"

definition MATCH_REQUEST_HEADER_MAGIC :: u32 where
  "MATCH_REQUEST_HEADER_MAGIC = 0x4D524551"

record match_request_header =
  mh_magic :: u32
  mh_type :: MatchRequestType
  mh_searchId :: u64

definition createMatchRequestHeader :: "MatchRequestType \<Rightarrow> 'a mkw_scheme \<Rightarrow> match_request_header" where
  "createMatchRequestHeader t s =
     \<lparr>mh_magic = MATCH_REQUEST_HEADER_MAGIC, mh_type = t, mh_searchId = getSearchId s\<rparr>"

text \<open>The layout of the structs; the padding is zero, as \<open>{}\<close> initialises it.\<close>

definition header_bytes :: "match_request_header \<Rightarrow> bytes" where
  "header_bytes h = to_be (mh_magic h) @ [mrt_value (mh_type h)] @ replicate 3 0 @ to_be (mh_searchId h)"

definition joinFriend_bytes :: "match_request_header \<Rightarrow> u32 \<Rightarrow> SearchRegion \<Rightarrow> bytes" where
  "joinFriend_bytes h friendProfileId region =
     header_bytes h @ to_be friendProfileId @ [word_of_int (sr_value region)] @ replicate 3 0"

definition suspend_bytes :: "match_request_header \<Rightarrow> bool \<Rightarrow> bytes" where
  "suspend_bytes h vote = header_bytes h @ [if vote then 1 else 0] @ replicate 7 0"

definition searchRoom_bytes :: "match_request_header \<Rightarrow> SearchRegion \<Rightarrow> GameMode \<Rightarrow> bytes" where
  "searchRoom_bytes h region mode =
     header_bytes h @ [word_of_int (sr_value region), gm_value mode] @ replicate 6 0"

definition localPlayerCount_bytes :: "match_request_header \<Rightarrow> u8 \<Rightarrow> bytes" where
  "localPlayerCount_bytes h count = header_bytes h @ [count] @ replicate 7 0"

definition sendToRoomManager :: "bytes \<Rightarrow> 'a mkw_scheme \<Rightarrow> bool \<times> 'a mkw_scheme" where
  "sendToRoomManager message s =
     (if matchMakingSocket s = -1 then (False, s)
      else let (r, s) = so_call (SOSend (matchMakingSocket s) message) s in (r \<noteq> 0, s))"

definition sendOpenRoomRequest :: "'a mkw_scheme \<Rightarrow> bool \<times> 'a mkw_scheme" where
  "sendOpenRoomRequest s = sendToRoomManager (header_bytes (createMatchRequestHeader OpenRoom s)) s"

definition sendJoinFriendRequest :: "u32 \<Rightarrow> SearchRegion \<Rightarrow> 'a mkw_scheme \<Rightarrow> bool \<times> 'a mkw_scheme" where
  "sendJoinFriendRequest friendProfileId region s =
     sendToRoomManager (joinFriend_bytes (createMatchRequestHeader JoinFriend s) friendProfileId region) s"

definition sendLeaveRoomRequest :: "'a mkw_scheme \<Rightarrow> bool \<times> 'a mkw_scheme" where
  "sendLeaveRoomRequest s = sendToRoomManager (header_bytes (createMatchRequestHeader LeaveRoom s)) s"

definition sendSuspendRequest :: "bool \<Rightarrow> 'a mkw_scheme \<Rightarrow> bool \<times> 'a mkw_scheme" where
  "sendSuspendRequest vote s = sendToRoomManager (suspend_bytes (createMatchRequestHeader Suspend s) vote) s"

definition sendSearchRoomRequest :: "SearchRegion \<Rightarrow> GameMode \<Rightarrow> 'a mkw_scheme \<Rightarrow> bool \<times> 'a mkw_scheme" where
  "sendSearchRoomRequest region mode s =
     sendToRoomManager (searchRoom_bytes (createMatchRequestHeader SearchRoom s) region mode) s"

definition sendLocalPlayerCount :: "u8 \<Rightarrow> 'a mkw_scheme \<Rightarrow> bool \<times> 'a mkw_scheme" where
  "sendLocalPlayerCount count s =
     sendToRoomManager (localPlayerCount_bytes (createMatchRequestHeader LocalPlayerCount s) count) s"

text \<open>\<open>MKWServer.cc\<close>: the search id arrives, is acknowledged, and opens the connection.\<close>

definition handleSearchIdPacket :: "bytes \<Rightarrow> 'a mkw_scheme \<Rightarrow> (bool \<times> 'a mkw_scheme) option" where
  "handleSearchIdPacket packet s = do {
     searchId \<leftarrow> Bytes_Read Big_Endian packet 8;
     let s = s\<lparr>wfcSearchId := searchId\<rparr>;
     let (result, s) = sendMessageToQR2 packet s;
     Some (if \<not> result then (False, s)
           else let (ok, s) = connectToRoomManager s in if \<not> ok then (False, s) else (True, s))
   }"

section \<open>Receiving\<close>

definition RECV_BUF_SIZE :: nat where
  "RECV_BUF_SIZE = 256"

definition MATCH_MAKING_INFO :: u32 where
  "MATCH_MAKING_INFO = 0x77846772"

definition MKW_SERVER_INFO :: u32 where
  "MKW_SERVER_INFO = 0x4D4B5753"

definition recvIntoBuffer :: "nat \<Rightarrow> 'a mkw_scheme \<Rightarrow> (nat \<times> 'a mkw_scheme) option" where
  "recvIntoBuffer needed s =
     (if recvBufSize s \<ge> needed then Some (recvBufSize s, s)
      else
        let (r, s) = so_recv (RECV_BUF_SIZE - recvBufSize s) s
        in if r \<noteq> [] then do {
             buf \<leftarrow> wr_n (recvBuf s) (recvBufSize s) r;
             let s = s\<lparr>recvBuf := buf, recvBufSize := recvBufSize s + length r\<rparr>;
             Some (recvBufSize s, s)
           } else Some (recvBufSize s, s))"

definition consumeBuffer :: "nat \<Rightarrow> 'a mkw_scheme \<Rightarrow> 'a mkw_scheme option" where
  "consumeBuffer n s = do {
     moved \<leftarrow> rd_n (recvBuf s) n (recvBufSize s - n);
     buf \<leftarrow> wr_n (recvBuf s) 0 moved;
     Some (s\<lparr>recvBuf := buf, recvBufSize := recvBufSize s - n\<rparr>)
   }"

definition packet_size :: "u32 \<Rightarrow> nat option" where
  "packet_size magic =
     (if magic = MATCH_MAKING_INFO then Some (4 + MM_PACKET_SIZE)
      else if magic = MKW_SERVER_INFO then Some (4 + 6)
      else None)"

text \<open>The second switch: what a complete packet does, and the new \<open>recvMMInfo\<close>.\<close>

definition dispatch_packet :: "u32 \<Rightarrow> bytes \<Rightarrow> bool \<Rightarrow> 'a mkw_scheme \<Rightarrow> (bool \<times> 'a mkw_scheme) option" where
  "dispatch_packet magic data recvMMInfo s =
     (if magic = MATCH_MAKING_INFO then do {
        (r, g) \<leftarrow> processMatchMakingInfoPacket data (recvMatchPacket s);
        Some (r, s\<lparr>recvMatchPacket := g\<rparr>)
      } else do {
        s \<leftarrow> processMKWServerInfoPacket data s;
        Some (recvMMInfo, s)
      })"

text \<open>One round of the loop: \<^term>\<open>Inl\<close> the result returned, \<^term>\<open>Inr\<close> the flag to go on with.\<close>

definition recv_round :: "bool \<Rightarrow> 'a mkw_scheme \<Rightarrow> ((bool + bool) \<times> 'a mkw_scheme) option" where
  "recv_round recvMMInfo s = do {
     (n, s) \<leftarrow> recvIntoBuffer 4 s;
     if n < 4 then Some (Inl recvMMInfo, s)
     else do {
       magic \<leftarrow> read_u32 (recvBuf s) 0;
       case packet_size magic of
         None \<Rightarrow> Some (Inl False, s\<lparr>recvBufSize := 0\<rparr>)
       | Some packetSize \<Rightarrow> do {
           (n, s) \<leftarrow> recvIntoBuffer packetSize s;
           if n < packetSize then Some (Inl False, s)
           else do {
             (recvMMInfo, s) \<leftarrow> dispatch_packet magic (drop 4 (recvBuf s)) recvMMInfo s;
             s \<leftarrow> consumeBuffer packetSize s;
             Some (Inr recvMMInfo, s)
           }
         }
     }
   }"

text \<open>What the rounds leave alone.\<close>

definition recv_load :: "'a mkw_scheme \<Rightarrow> nat" where
  "recv_load s = recvBufSize s + length (so_pending s)"

lemma recvIntoBuffer_load:
  assumes "recvIntoBuffer needed s = Some (n, s')"
  shows "n = recvBufSize s' \<and> recv_load s' = recv_load s"
proof (cases "needed \<le> recvBufSize s")
  case True
  then show ?thesis using assms by (auto simp: recvIntoBuffer_def)
next
  case False
  obtain r s1 where r: "so_recv (RECV_BUF_SIZE - recvBufSize s) s = (r, s1)" by force
  obtain i where i: "s1 = s\<lparr>so_inbox := i\<rparr>" "so_pending s = r @ so_pending s1"
    using so_recv_pending [OF r] by blast
  show ?thesis
    using assms False r i(2)
    by (auto simp: recvIntoBuffer_def recv_load_def i(1) so_pending_def bind_Some_iff split: if_splits)
qed

lemma dispatch_packet_load:
  "dispatch_packet magic data f s = Some (f', s') \<Longrightarrow>
   recv_load s' = recv_load s \<and> recvBufSize s' = recvBufSize s"
  by (auto simp: dispatch_packet_def processMKWServerInfoPacket_def setMKWServerAddress_def recv_load_def
      so_pending_def bind_Some_iff split: if_splits)

lemma consumeBuffer_load:
  "consumeBuffer n s = Some s' \<Longrightarrow> n \<le> recvBufSize s \<Longrightarrow> recv_load s' + n = recv_load s"
  by (auto simp: consumeBuffer_def recv_load_def so_pending_def bind_Some_iff)

lemma packet_size_pos: "packet_size magic = Some n \<Longrightarrow> 4 < n \<and> n \<le> RECV_BUF_SIZE"
  by (auto simp: packet_size_def MM_PACKET_SIZE_def RECV_BUF_SIZE_def split: if_splits)

lemma recv_round_load:
  assumes "recv_round f s = Some (Inr f', s')"
  shows "recv_load s' < recv_load s"
proof -
  obtain n s1 magic k n2 s2 f2 s3 where r: "recvIntoBuffer 4 s = Some (n, s1)"
    "packet_size magic = Some k" "recvIntoBuffer k s1 = Some (n2, s2)" "\<not> n2 < k"
    "dispatch_packet magic (drop 4 (recvBuf s2)) f s2 = Some (f2, s3)" "consumeBuffer k s3 = Some s'"
    using assms by (auto simp: recv_round_def bind_Some_iff split: if_splits option.splits)
  have "k \<le> recvBufSize s3"
    using recvIntoBuffer_load [OF r(3)] dispatch_packet_load [OF r(5)] r(4) by simp
  then show ?thesis
    using recvIntoBuffer_load [OF r(1)] recvIntoBuffer_load [OF r(3)] dispatch_packet_load [OF r(5)]
      consumeBuffer_load [OF r(6)] packet_size_pos [OF r(2)] by simp
qed

function recv_loop :: "bool \<Rightarrow> 'a mkw_scheme \<Rightarrow> (bool \<times> 'a mkw_scheme) option" where
  "recv_loop recvMMInfo s =
     (case recv_round recvMMInfo s of
        None \<Rightarrow> None
      | Some (Inl r, s') \<Rightarrow> Some (r, s')
      | Some (Inr f, s') \<Rightarrow> recv_loop f s')"
  by pat_completeness auto
termination
  by (relation "measure (\<lambda>(f, s). recv_load s)") (auto dest: recv_round_load)

declare recv_loop.simps [simp del]

definition recvFromRoomManager :: "'a mkw_scheme \<Rightarrow> (bool \<times> 'a mkw_scheme) option" where
  "recvFromRoomManager s = (if matchMakingSocket s = -1 then Some (False, s) else recv_loop False s)"

end
