(* ===== verification/Race_Events.thy ===== *)
theory Race_Events
  imports Room_Manager
begin

text \<open>
  What happens on the messages of the game server during a race, and the game's match-making entry
  points that have been replaced: \<open>payload/revolution/dwc/DWCTransport.c\<close>, \<open>DWCMatch.c\<close> and
  \<open>DWCMain.c\<close>, \<open>payload/game/net/RaceHandler.cc\<close> and \<open>payload/game/system/RaceManager.cc\<close>.  The
  functions of the game they go on to are the record \<open>game_fns\<close>.
\<close>

text \<open>
  \<open>rh_instance\<close> says whether the singleton \<open>RaceHandler\<close> exists; \<open>rm_introTimer\<close> and
  \<open>rm_canCountdownStart\<close> are fields of \<open>RaceManager\<close>; the timer is \<^term>\<open>None\<close> when there is no \<open>RaceManager\<close>.
\<close>

record game = mkw +
  rh_instance :: bool
  rh_readyRetryCooldown :: u8
  rh_readyAcked :: bool
  rm_introTimer :: "u16 option"
  rm_canCountdownStart :: bool
  dwc_state :: nat

record 's game_fns =
  fn_initRaceHandler :: "'s \<Rightarrow> 's"
  fn_updateAsRacer :: "'s \<Rightarrow> 's"
  fn_unrecognizedMessage :: "bytes \<Rightarrow> 's \<Rightarrow> bool \<times> 's"
  fn_userRecvCallback :: "(u8 \<Rightarrow> bytes \<Rightarrow> 's \<Rightarrow> 's) option"
  fn_GetProfileIDFromList :: "int \<Rightarrow> u32"
  fn_ProcessFriendsMatch :: "'s \<Rightarrow> 's"

section \<open>The ready packet\<close>

definition INTRO_CAMERA_ROTATION_FINISH_TIME :: u16 where
  "INTRO_CAMERA_ROTATION_FINISH_TIME = 200"

definition READY_RETRY_COOLDOWN :: u8 where
  "READY_RETRY_COOLDOWN = 5"

definition setAckReady :: "'a game_scheme \<Rightarrow> 'a game_scheme" where
  "setAckReady s = s\<lparr>rh_readyAcked := True\<rparr>"

definition RaceHandler_setAckReady :: "'a game_scheme \<Rightarrow> 'a game_scheme" where
  "RaceHandler_setAckReady s = (if rh_instance s then setAckReady s else s)"

definition RaceHandler_init :: "'a game_scheme game_fns \<Rightarrow> 'a game_scheme \<Rightarrow> 'a game_scheme" where
  "RaceHandler_init fns s = (fn_initRaceHandler fns s)\<lparr>rh_readyRetryCooldown := 0, rh_readyAcked := False\<rparr>"

definition trySendReady :: "'a game_scheme \<Rightarrow> 'a game_scheme option" where
  "trySendReady s =
     (if rh_readyRetryCooldown s > 0 then Some (s\<lparr>rh_readyRetryCooldown := rh_readyRetryCooldown s - 1\<rparr>)
      else do {
        introTimer \<leftarrow> rm_introTimer s;
        Some (if introTimer > INTRO_CAMERA_ROTATION_FINISH_TIME
          then (sendReadyPacket s)\<lparr>rh_readyRetryCooldown := READY_RETRY_COOLDOWN\<rparr> else s)
      })"

definition updateAsRacer :: "'a game_scheme game_fns \<Rightarrow> 'a game_scheme \<Rightarrow> 'a game_scheme option" where
  "updateAsRacer fns s = do {
     s \<leftarrow> (if \<not> rh_readyAcked s then trySendReady s else Some s);
     Some (fn_updateAsRacer fns s)
   }"

definition RaceManager_startCountdown :: "'a game_scheme \<Rightarrow> 'a game_scheme" where
  "RaceManager_startCountdown s = (if rm_introTimer s \<noteq> None then s\<lparr>rm_canCountdownStart := True\<rparr> else s)"

section \<open>Messages\<close>

definition START_MESSAGE :: bytes where
  "START_MESSAGE = [0x53, 0x54]"

definition PING_MESSAGE :: bytes where
  "PING_MESSAGE = [0x50, 0x49]"

definition READY_ACK_MESSAGE :: bytes where
  "READY_ACK_MESSAGE = [0x52, 0x41]"

definition PING_TIME :: bytes where
  "PING_TIME = [0x50, 0x54]"

definition PING_TIME_PACKET_LEN :: nat where
  "PING_TIME_PACKET_LEN = 7"

definition isReadyAckPacket :: "bytes \<Rightarrow> bool" where
  "isReadyAckPacket message = (length message = length READY_ACK_MESSAGE \<and> message = READY_ACK_MESSAGE)"

definition isStartPacket :: "bytes \<Rightarrow> bool" where
  "isStartPacket message = (length message = length START_MESSAGE \<and> message = START_MESSAGE)"

definition isPingPacket :: "bytes \<Rightarrow> bool" where
  "isPingPacket message = (length message = length PING_MESSAGE \<and> message = PING_MESSAGE)"

definition isPingTimePacket :: "bytes \<Rightarrow> bool" where
  "isPingTimePacket message =
     (length message = PING_TIME_PACKET_LEN \<and> take (length PING_TIME) message = PING_TIME)"

text \<open>The message and its length are a list, the null pointer is \<^term>\<open>None\<close>.\<close>

definition DWCi_GT2UnrecognizedMessageCallback ::
  "'a game_scheme game_fns \<Rightarrow> bytes option \<Rightarrow> 'a game_scheme \<Rightarrow> (bool \<times> 'a game_scheme) option" where
  "DWCi_GT2UnrecognizedMessageCallback fns msg s =
     (case msg of
        None \<Rightarrow> Some (False, s)
      | Some message \<Rightarrow>
          if message = [] then Some (False, s)
          else if verifySearchIdMagic message then do { (_, s) \<leftarrow> handleSearchIdPacket message s; Some (True, s) }
          else if isReadyAckPacket message then Some (True, RaceHandler_setAckReady s)
          else if isStartPacket message then Some (True, RaceManager_startCountdown s)
          else if isPingPacket message then Some (True, sendPong s)
          else if isPingTimePacket message then do { s \<leftarrow> setPingTime message s; Some (True, s) }
          else if hd message = MKW_SERVER_RACE_PACKET then
            (case fn_userRecvCallback fns of
               None \<Rightarrow> Some (False, s)
             | Some callback \<Rightarrow> do { aid \<leftarrow> rd message 1; Some (True, callback aid message s) })
          else Some (fn_unrecognizedMessage fns message s))"

section \<open>Entry points of the match making\<close>

definition DWC_STATE_MATCHING :: nat where
  "DWC_STATE_MATCHING = 5"

definition DWC_SetupGameServer :: "'a game_scheme \<Rightarrow> bool \<times> 'a game_scheme" where
  "DWC_SetupGameServer s =
     (let (connected, s) = connectToRoomManager s in if connected then sendOpenRoomRequest s else (False, s))"

definition DWC_ConnectToGameServerAsync ::
  "'a game_scheme game_fns \<Rightarrow> int \<Rightarrow> 'a game_scheme \<Rightarrow> bool \<times> 'a game_scheme" where
  "DWC_ConnectToGameServerAsync fns friendId s =
     (let friendProfileId = fn_GetProfileIDFromList fns friendId
      in if friendProfileId = 0 then (False, s)
         else
           let (connected, s) = connectToRoomManager s
           in if connected then sendJoinFriendRequest friendProfileId SR_PRIVATE s else (False, s))"

definition DWC_ProcessFriendsMatch :: "'a game_scheme game_fns \<Rightarrow> 'a game_scheme \<Rightarrow> 'a game_scheme" where
  "DWC_ProcessFriendsMatch fns s =
     (if dwc_state s = DWC_STATE_MATCHING then s else fn_ProcessFriendsMatch fns s)"

definition DWC_GetNumConnectionsHost :: "'a mkw_scheme \<Rightarrow> u32" where
  "DWC_GetNumConnectionsHost s = mp_numAids (recvMatchPacket s)"

definition DWC_GetGroupId :: "'a mkw_scheme \<Rightarrow> u32" where
  "DWC_GetGroupId s = mp_roomId (recvMatchPacket s)"

definition DWC_GetSuspendMatch :: "'a mkw_scheme \<Rightarrow> u8" where
  "DWC_GetSuspendMatch s = of_bool (mp_suspended (recvMatchPacket s))"

definition DWC_IsValidMatchCancel :: "'a mkw_scheme \<Rightarrow> u8" where
  "DWC_IsValidMatchCancel s = of_bool (mp_canceled (recvMatchPacket s))"

definition DWC_RequestSuspendMatchAsync :: "bool \<Rightarrow> 'a mkw_scheme \<Rightarrow> bool \<times> 'a mkw_scheme" where
  "DWC_RequestSuspendMatchAsync vote s =
     (let (connected, s) = connectToRoomManager s in if connected then sendSuspendRequest vote s else (False, s))"

section \<open>The ready packet is sent until it is acknowledged\<close>

text \<open>The number of ready packets handed to the socket layer so far.\<close>

definition ready_sent :: "'a os_scheme \<Rightarrow> nat" where
  "ready_sent s = length (filter (\<lambda>(c, r). case c of SOSendTo fd data addr \<Rightarrow> data = READY_PACKET | _ \<Rightarrow> False) (so_log s))"

text \<open>What the rest of the game's frame leaves alone while the race is waiting to start.\<close>

definition waiting :: "'a game_scheme \<Rightarrow> bool" where
  "waiting s \<longleftrightarrow> hasMKWServerAddress s \<and> (\<exists>t > 200. rm_introTimer s = Some t)"

definition frame_keeps :: "'a game_scheme game_fns \<Rightarrow> bool" where
  "frame_keeps fns \<longleftrightarrow> (\<forall>s. ready_sent (fn_updateAsRacer fns s) = ready_sent s \<and>
     rh_readyRetryCooldown (fn_updateAsRacer fns s) = rh_readyRetryCooldown s \<and>
     rh_readyAcked (fn_updateAsRacer fns s) = rh_readyAcked s \<and>
     (waiting s \<longrightarrow> waiting (fn_updateAsRacer fns s)))"

primrec racer_frames :: "'a game_scheme game_fns \<Rightarrow> nat \<Rightarrow> 'a game_scheme \<Rightarrow> 'a game_scheme option" where
  "racer_frames fns 0 s = Some s"
| "racer_frames fns (Suc n) s = do { s \<leftarrow> updateAsRacer fns s; racer_frames fns n s }"

lemma frame_keepsD:
  assumes "frame_keeps fns"
  shows "ready_sent (fn_updateAsRacer fns s) = ready_sent s"
    "rh_readyRetryCooldown (fn_updateAsRacer fns s) = rh_readyRetryCooldown s"
    "rh_readyAcked (fn_updateAsRacer fns s) = rh_readyAcked s"
    "waiting s \<Longrightarrow> waiting (fn_updateAsRacer fns s)"
  using assms by (simp_all add: frame_keeps_def)

lemma sendReadyPacket_effect:
  assumes "hasMKWServerAddress s"
  shows "ready_sent (sendReadyPacket s) = Suc (ready_sent s)" "rm_introTimer (sendReadyPacket s) = rm_introTimer s"
    "rh_readyAcked (sendReadyPacket s) = rh_readyAcked s" "hasMKWServerAddress (sendReadyPacket s)"
  using assms by (simp_all add: sendReadyPacket_def ready_sent_def so_call_def hasMKWServerAddress_def Let_def)

lemma frame_waiting:
  assumes keeps: "frame_keeps fns" and w: "waiting s" and unacked: "\<not> rh_readyAcked s"
  shows "\<exists>s'. updateAsRacer fns s = Some s' \<and> waiting s' \<and> \<not> rh_readyAcked s' \<and>
    (if rh_readyRetryCooldown s = 0 then ready_sent s' = Suc (ready_sent s) \<and> rh_readyRetryCooldown s' = 5
     else ready_sent s' = ready_sent s \<and> rh_readyRetryCooldown s' = rh_readyRetryCooldown s - 1)"
proof (cases "rh_readyRetryCooldown s = 0")
  case True
  let ?s = "(sendReadyPacket s)\<lparr>rh_readyRetryCooldown := 5\<rparr>"
  have addr: "hasMKWServerAddress s" using w by (simp add: waiting_def)
  have "updateAsRacer fns s = Some (fn_updateAsRacer fns ?s)"
    using w unacked True by (auto simp: updateAsRacer_def trySendReady_def waiting_def READY_RETRY_COOLDOWN_def
        INTRO_CAMERA_ROTATION_FINISH_TIME_def)
  moreover have "waiting ?s" "\<not> rh_readyAcked ?s" "ready_sent ?s = Suc (ready_sent s)"
    using w unacked sendReadyPacket_effect [OF addr] by (simp_all add: waiting_def hasMKWServerAddress_def ready_sent_def)
  ultimately show ?thesis using True frame_keepsD [OF keeps, of ?s] by auto
next
  case False
  let ?s = "s\<lparr>rh_readyRetryCooldown := rh_readyRetryCooldown s - 1\<rparr>"
  have "updateAsRacer fns s = Some (fn_updateAsRacer fns ?s)"
    using unacked False by (simp add: updateAsRacer_def trySendReady_def word_neq_0_conv)
  moreover have "waiting ?s" "ready_sent ?s = ready_sent s"
    using w by (simp_all add: waiting_def hasMKWServerAddress_def ready_sent_def)
  ultimately show ?thesis using unacked False frame_keepsD [OF keeps, of ?s] by auto
qed

text \<open>C16: While the ready packet is not acknowledged and the intro camera has finished, it is sent
  again and again. Within n frames of the racer's update it is handed to the socket exactly once
  per six frames, counted from the end of the current cooldown.\<close>

theorem ready_until_acked:
  assumes keeps: "frame_keeps fns" and w: "waiting s" and unacked: "\<not> rh_readyAcked s"
    and cool: "rh_readyRetryCooldown s \<le> 5"
  shows "\<exists>s'. racer_frames fns n s = Some s' \<and>
    ready_sent s' = ready_sent s + (n + 5 - unat (rh_readyRetryCooldown s)) div 6"
  using w unacked cool
proof (induction n arbitrary: s)
  case 0
  have "unat (rh_readyRetryCooldown s) \<le> 5" using 0 by (simp add: word_le_nat_alt)
  then show ?case by simp
next
  case (Suc n)
  obtain s1 where s1: "updateAsRacer fns s = Some s1" "waiting s1" "\<not> rh_readyAcked s1"
    and step: "if rh_readyRetryCooldown s = 0 then ready_sent s1 = Suc (ready_sent s) \<and> rh_readyRetryCooldown s1 = 5
     else ready_sent s1 = ready_sent s \<and> rh_readyRetryCooldown s1 = rh_readyRetryCooldown s - 1"
    using frame_waiting [OF keeps Suc.prems(1,2)] by blast
  have c5: "unat (rh_readyRetryCooldown s) \<le> 5" using Suc.prems(3) by (simp add: word_le_nat_alt)
  have c1: "unat (rh_readyRetryCooldown s1) = (if rh_readyRetryCooldown s = 0 then 5 else unat (rh_readyRetryCooldown s) - 1)"
    using step by (auto simp: unat_minus_one)
  then have "rh_readyRetryCooldown s1 \<le> 5" using c5 by (auto simp: word_le_nat_alt split: if_splits)
  then obtain s' where "racer_frames fns n s1 = Some s'"
    "ready_sent s' = ready_sent s1 + (n + 5 - unat (rh_readyRetryCooldown s1)) div 6"
    using Suc.IH [OF s1(2,3)] by blast
  moreover have "ready_sent s1 + (n + 5 - unat (rh_readyRetryCooldown s1)) div 6 =
      ready_sent s + (Suc n + 5 - unat (rh_readyRetryCooldown s)) div 6"
  proof (cases "rh_readyRetryCooldown s = 0")
    case True
    then show ?thesis using step c1 by simp
  next
    case False
    then have "0 < unat (rh_readyRetryCooldown s)" by (simp add: unat_gt_0)
    then show ?thesis using False step c1 c5 by simp
  qed
  ultimately show ?case using s1(1) by simp
qed

lemma acked_frames:
  assumes "frame_keeps fns"
  shows "rh_readyAcked s \<Longrightarrow> \<exists>s'. racer_frames fns n s = Some s' \<and> ready_sent s' = ready_sent s \<and> rh_readyAcked s'"
proof (induction n arbitrary: s)
  case (Suc n)
  then show ?case using Suc.IH [of "fn_updateAsRacer fns s"] by (simp add: updateAsRacer_def frame_keepsD [OF assms])
qed simp

lemma silent_after_ack:
  assumes keeps: "frame_keeps fns" and race: "rh_instance s"
    and ack: "DWCi_GT2UnrecognizedMessageCallback fns (Some READY_ACK_MESSAGE) s = Some (r, s')"
  shows "\<exists>s''. racer_frames fns n s' = Some s'' \<and> ready_sent s'' = ready_sent s"
proof -
  have "s' = setAckReady s"
    using ack race by (simp add: DWCi_GT2UnrecognizedMessageCallback_def READY_ACK_MESSAGE_def verifySearchIdMagic_def
        isReadyAckPacket_def RaceHandler_setAckReady_def)
  then show ?thesis using acked_frames [OF keeps, of s' n] by (auto simp: setAckReady_def ready_sent_def)
qed

section \<open>Messages that are too short\<close>

lemma handleSearchIdPacket_fault: "handleSearchIdPacket packet s = None \<longleftrightarrow> length packet < 16"
  using Bytes_Read_None [where 'a = 64, of Big_Endian packet 8]
  by (cases "Bytes_Read Big_Endian packet 8 :: u64 option") (auto simp: handleSearchIdPacket_def size_of_64 split: prod.splits)

lemma race_packet_is_nothing_else:
  assumes "hd message = MKW_SERVER_RACE_PACKET"
  shows "\<not> verifySearchIdMagic message" "\<not> isReadyAckPacket message" "\<not> isStartPacket message" "\<not> isPingPacket message"
    "\<not> isPingTimePacket message"
  using assms by (cases message; auto simp: verifySearchIdMagic_def SEARCH_ID_MAGIC_def MKW_SERVER_RACE_PACKET_def
      isReadyAckPacket_def READY_ACK_MESSAGE_def isStartPacket_def START_MESSAGE_def isPingPacket_def PING_MESSAGE_def
      isPingTimePacket_def PING_TIME_def)+

lemma verifySearchIdMagic_iff: "verifySearchIdMagic message \<longleftrightarrow> take 8 message = SEARCH_ID_MAGIC"
  by (auto simp: verifySearchIdMagic_def SEARCH_ID_MAGIC_def dest: arg_cong [where f = length])

text \<open>C36: The handler of unrecognised datagrams reads outside the message for exactly two kinds of
  message: a search id message shorter than its 16 byte struct, and a race packet of a single byte
  when a receive callback is set.\<close>

theorem message_faults_iff:
  "DWCi_GT2UnrecognizedMessageCallback fns msg s = None \<longleftrightarrow>
     (\<exists>message. msg = Some message \<and>
        (take 8 message = SEARCH_ID_MAGIC \<and> length message < 16 \<or>
         message = [MKW_SERVER_RACE_PACKET] \<and> fn_userRecvCallback fns \<noteq> None))"
proof (cases msg)
  case (Some message)
  consider (empty) "message = []" | (search) "message \<noteq> []" "verifySearchIdMagic message"
    | (race) "message \<noteq> []" "hd message = MKW_SERVER_RACE_PACKET"
    | (other) "message \<noteq> []" "\<not> verifySearchIdMagic message" "hd message \<noteq> MKW_SERVER_RACE_PACKET"
    by blast
  then show ?thesis
  proof cases
    case empty
    then show ?thesis using Some by (simp add: DWCi_GT2UnrecognizedMessageCallback_def SEARCH_ID_MAGIC_def)
  next
    case search
    then have "message \<noteq> [MKW_SERVER_RACE_PACKET]" using race_packet_is_nothing_else(1) by auto
    moreover have "DWCi_GT2UnrecognizedMessageCallback fns msg s = None \<longleftrightarrow> handleSearchIdPacket message s = None"
      using search Some by (cases "handleSearchIdPacket message s") (auto simp: DWCi_GT2UnrecognizedMessageCallback_def)
    moreover have "take 8 message = SEARCH_ID_MAGIC" using search(2) verifySearchIdMagic_iff by blast
    ultimately show ?thesis using Some by (simp add: handleSearchIdPacket_fault)
  next
    case race
    have rd: "rd message 1 = None \<longleftrightarrow> message = [MKW_SERVER_RACE_PACKET]" using race by (cases message) (auto simp: fault_simps)
    have "take 8 message \<noteq> SEARCH_ID_MAGIC" using race_packet_is_nothing_else(1) [OF race(2)] verifySearchIdMagic_iff by blast
    moreover have "DWCi_GT2UnrecognizedMessageCallback fns msg s = None \<longleftrightarrow> fn_userRecvCallback fns \<noteq> None \<and> rd message 1 = None"
      using race Some race_packet_is_nothing_else [OF race(2)]
      by (cases "fn_userRecvCallback fns"; cases "rd message 1") (simp_all add: DWCi_GT2UnrecognizedMessageCallback_def)
    ultimately show ?thesis using Some rd by auto
  next
    case other
    have "isPingTimePacket message \<Longrightarrow> setPingTime message s \<noteq> None"
      by (simp add: isPingTimePacket_def PING_TIME_PACKET_LEN_def setPingTime_def)
    then have "DWCi_GT2UnrecognizedMessageCallback fns msg s \<noteq> None"
      using other Some by (auto simp: DWCi_GT2UnrecognizedMessageCallback_def) (rule exI [where x = True], rule TrueI)
    moreover have "take 8 message \<noteq> SEARCH_ID_MAGIC" using other(2) verifySearchIdMagic_iff by blast
    ultimately show ?thesis using Some other(3) by auto
  qed
qed (simp add: DWCi_GT2UnrecognizedMessageCallback_def)

section \<open>Examples\<close>

definition ex_fns :: "game game_fns" where
  "ex_fns = \<lparr>fn_initRaceHandler = id, fn_updateAsRacer = id, 
     fn_unrecognizedMessage = (\<lambda>m s. (False, s)), fn_userRecvCallback = Some (\<lambda>aid m s. s),
     fn_GetProfileIDFromList = (\<lambda>i. 0), fn_ProcessFriendsMatch = id\<rparr>"

definition ex_game :: game where
  "ex_game = \<lparr>so_replies = [], so_inbox = [], so_log = [], hasRequestedMKWServerAddress = False,
     mkwServerAddr = \<lparr>sa_len = 8, sa_family = 2, sa_port = 1, sa_addr = 1\<rparr>, wfcSearchId = 0, ping = [], hbsock = 3,
     recvMatchPacket = mm_zero, serverAddr = sockaddr_zero, matchMakingSocket = -1, connection = -1,
     recvBuf = [], recvBufSize = 0, rh_instance = True, rh_readyRetryCooldown = 0, rh_readyAcked = False,
     rm_introTimer = Some 201, rm_canCountdownStart = False, dwc_state = 3\<rparr>"

lemma ex_frame_keeps: "frame_keeps ex_fns"
  by (simp add: frame_keeps_def ex_fns_def)

theorem ready_until_acked_witness:
  "\<exists>s'. racer_frames ex_fns 13 ex_game = Some s' \<and> ready_sent s' = 3"
proof -
  have "waiting ex_game" "\<not> rh_readyAcked ex_game" "rh_readyRetryCooldown ex_game \<le> 5" "ready_sent ex_game = 0"
      "rh_readyRetryCooldown ex_game = 0"
    by (simp_all add: waiting_def hasMKWServerAddress_def ex_game_def ready_sent_def)
  then show ?thesis using ready_until_acked [OF ex_frame_keeps, of ex_game 13] by simp
qed

lemma silent_after_ack_witness:
  "\<exists>s''. racer_frames ex_fns 100 (setAckReady ex_game) = Some s'' \<and> ready_sent s'' = 0"
proof -
  have "DWCi_GT2UnrecognizedMessageCallback ex_fns (Some READY_ACK_MESSAGE) ex_game = Some (True, setAckReady ex_game)"
    by (simp add: DWCi_GT2UnrecognizedMessageCallback_def READY_ACK_MESSAGE_def verifySearchIdMagic_def
        isReadyAckPacket_def RaceHandler_setAckReady_def ex_game_def)
  moreover have "rh_instance ex_game" "ready_sent ex_game = 0" by (simp_all add: ex_game_def ready_sent_def)
  ultimately show ?thesis using silent_after_ack [OF ex_frame_keeps, of ex_game] by metis
qed

end
