(* ===== verification/Save_State.thy ===== *)
theory Save_State
  imports Prelude
begin

text \<open>
  Practice tools of the time attack mode: \<open>payload/game/kart/KartSaveState.cc\<close> stores and restores
  the kart, \<open>payload/sp/SaveStateManager.cc\<close> decides by the length of a press whether to store or to
  restore, \<open>payload/game/kart/KartItem.cc\<close> and \<open>payload/game/item/ItemInventory.cc\<close> rotate the
  item, \<open>payload/game/system/RaceManager.cc\<close> reads the buttons.  Floating point numbers are only
  copied by this code and stand as their 32 bits.
\<close>

type_synonym f32 = u32
type_synonym Vec3 = "f32 \<times> f32 \<times> f32"
type_synonym Quat = "f32 \<times> f32 \<times> f32 \<times> f32"

section \<open>Items\<close>

datatype ItemId = Item_None | Green | Red | Nana | FIB | Shroom | TripShrooms | Bomb | Blue | Shock | Star
  | Golden | Mega | Blooper | Pow | TC | Bill | TripGreens | TripReds | TripNanas | Unused | NoItem

text \<open>The inventory has further fields, which only the game's own code uses.\<close>

record inventory =
  m_currentItemID :: ItemId
  m_currentItemCount :: int
  m_itemWheelPressed :: bool

definition itemCycle :: "ItemId list" where
  "itemCycle = [Shroom, Golden, Star, Mega, Bill, Nana, FIB, Green, Bomb, TC]"

fun next_in :: "ItemId \<Rightarrow> ItemId list \<Rightarrow> ItemId option" where
  "next_in i (a # b # xs) = (if a = i then Some b else next_in i (b # xs))"
| "next_in i _ = None"

definition nextItem :: "'a inventory_scheme \<Rightarrow> ItemId" where
  "nextItem iv = (case next_in (m_currentItemID iv) itemCycle of Some j \<Rightarrow> j | None \<Rightarrow> hd itemCycle)"

text \<open>\<open>setItem\<close> is the game's own function, the first parameter.\<close>

definition calcItemWheel ::
  "(ItemId \<Rightarrow> 'a inventory_scheme \<Rightarrow> 'a inventory_scheme) \<Rightarrow> bool \<Rightarrow> 'a inventory_scheme \<Rightarrow> 'a inventory_scheme" where
  "calcItemWheel setItem isPressed iv =
     (if \<not> isPressed then iv\<lparr>m_itemWheelPressed := False\<rparr>
      else if \<not> m_itemWheelPressed iv then (setItem (nextItem iv) iv)\<lparr>m_itemWheelPressed := True\<rparr>
      else iv)"

datatype RaceMode = OfflineVS | TimeAttack | OfflineBT | Mission | OnlinePrivateVS | OnlinePrivateBT | Awards

definition resetItem :: "('i \<Rightarrow> 'i) \<Rightarrow> RaceMode \<Rightarrow> 'i \<Rightarrow> 'i" where
  "resetItem replaced mode iv = (if mode \<noteq> TimeAttack then replaced iv else iv)"

definition resetHeldItem :: "('i \<Rightarrow> 'i) \<Rightarrow> RaceMode \<Rightarrow> 'i \<Rightarrow> 'i" where
  "resetHeldItem replaced mode iv = (if mode \<noteq> TimeAttack then replaced iv else iv)"

section \<open>The kart\<close>

record wheel_physics =
  wp_realPos :: Vec3
  wp_lastPos :: Vec3
  wp_lastPosDiff :: Vec3

record kart_boost =
  kb_timesBeforeEnd :: "u16 list"
  kb_types :: u16
  kb_multiplier :: f32
  kb_acceleration :: f32
  kb_1c :: f32
  kb_speedLimit :: f32

text \<open>What \<open>KartAccessor\<close>, \<open>VehiclePhysics\<close> and \<open>KartItem\<close> give access to; \<open>k_wheels\<close> has an entry per tire.\<close>

record kart =
  k_externalVel :: Vec3
  k_internalVel :: Vec3
  k_inBullet :: bool
  k_mainRot :: Quat
  k_pos :: Vec3
  k_internalSpeed :: f32
  k_boost :: kart_boost
  k_up :: Vec3
  k_dir :: Vec3
  k_airtime :: u32
  k_wheels :: "wheel_physics list"
  k_item :: inventory

record save_state =
  ss_externalVel :: Vec3
  ss_internalVel :: Vec3
  ss_inBullet :: bool
  ss_mainRot :: Quat
  ss_pos :: Vec3
  ss_internalSpeed :: f32
  ss_boostState :: kart_boost
  ss_up :: Vec3
  ss_dir :: Vec3
  ss_airtime :: u32
  ss_wheelPhysics :: "wheel_physics list"
  ss_item :: inventory

text \<open>
  \<open>save\<close> into the object \<open>ss\<close>.  The loop over the tires writes past the four entries of
  \<open>m_wheelPhysics\<close> when there are more; the times of the boosts are not stored.
\<close>

definition KartSaveState_save :: "kart \<Rightarrow> save_state \<Rightarrow> save_state option" where
  "KartSaveState_save k ss = do {
     wheels \<leftarrow> wr_n (ss_wheelPhysics ss) 0 (k_wheels k);
     Some (ss\<lparr>ss_externalVel := k_externalVel k, ss_internalVel := k_internalVel k, ss_inBullet := k_inBullet k,
       ss_mainRot := k_mainRot k, ss_pos := k_pos k, ss_internalSpeed := k_internalSpeed k,
       ss_boostState := (k_boost k)\<lparr>kb_timesBeforeEnd := kb_timesBeforeEnd (ss_boostState ss)\<rparr>,
       ss_up := k_up k, ss_dir := k_dir k, ss_airtime := k_airtime k, ss_item := k_item k, ss_wheelPhysics := wheels\<rparr>)
   }"

text \<open>The constructor: the members it does not store have the values of the memory, \<open>ss\<close>.\<close>

definition KartSaveState_new :: "save_state \<Rightarrow> kart \<Rightarrow> save_state option" where
  "KartSaveState_new ss k = KartSaveState_save k ss"

record bullet_fns =
  cancelBullet :: "kart \<Rightarrow> kart"
  activateBullet :: "u32 \<Rightarrow> kart \<Rightarrow> kart"

definition KartSaveState_reload :: "bullet_fns \<Rightarrow> save_state \<Rightarrow> kart \<Rightarrow> kart option" where
  "KartSaveState_reload fns ss k = do {
     wheels \<leftarrow> rd_n (ss_wheelPhysics ss) 0 (length (k_wheels k));
     let k = k\<lparr>k_externalVel := ss_externalVel ss, k_internalVel := ss_internalVel ss, k_mainRot := ss_mainRot ss,
       k_pos := ss_pos ss, k_internalSpeed := ss_internalSpeed ss,
       k_boost := (ss_boostState ss)\<lparr>kb_timesBeforeEnd := kb_timesBeforeEnd (k_boost k)\<rparr>,
       k_up := ss_up ss, k_dir := ss_dir ss, k_airtime := ss_airtime ss, k_item := ss_item ss, k_wheels := wheels\<rparr>;
     Some (if k_inBullet k \<and> \<not> ss_inBullet ss then cancelBullet fns k
       else if \<not> k_inBullet k \<and> ss_inBullet ss then activateBullet fns 0xFF k
       else k)
   }"

section \<open>The manager\<close>

record save_manager =
  m_framesHeld :: u8
  m_kartSaveState :: "save_state option"

definition save_manager_new :: save_manager where
  "save_manager_new = \<lparr>m_framesHeld = 0, m_kartSaveState = None\<rparr>"

text \<open>The singleton, \<^term>\<open>None\<close> when there is none.\<close>

definition CreateInstance :: "save_manager option \<Rightarrow> save_manager option" where
  "CreateInstance s_instance = (case s_instance of None \<Rightarrow> Some save_manager_new | Some m \<Rightarrow> Some m)"

definition DestroyInstance :: "save_manager option \<Rightarrow> save_manager option" where
  "DestroyInstance s_instance = None"

text \<open>\<open>blank\<close> is the memory the optional's object is constructed in.\<close>

definition SaveStateManager_save :: "save_state \<Rightarrow> save_manager \<times> kart \<Rightarrow> (save_manager \<times> kart) option" where
  "SaveStateManager_save blank = (\<lambda>(m, k). do {
     ss \<leftarrow> KartSaveState_new blank k;
     Some (m\<lparr>m_kartSaveState := Some ss\<rparr>, k)
   })"

definition SaveStateManager_reload :: "bullet_fns \<Rightarrow> save_manager \<times> kart \<Rightarrow> (save_manager \<times> kart) option" where
  "SaveStateManager_reload fns = (\<lambda>(m, k).
     case m_kartSaveState m of
       Some ss \<Rightarrow> do { k \<leftarrow> KartSaveState_reload fns ss k; Some (m, k) }
     | None \<Rightarrow> Some (m, k))"

definition processInput :: "save_state \<Rightarrow> bullet_fns \<Rightarrow> bool \<Rightarrow> save_manager \<times> kart \<Rightarrow> (save_manager \<times> kart) option" where
  "processInput blank fns isPressed = (\<lambda>(m, k).
     if \<not> isPressed then
       if m_framesHeld m = 0 then Some (m, k)
       else do {
         (m, k) \<leftarrow> (if m_framesHeld m \<le> 30 \<and> m_kartSaveState m \<noteq> None
            then SaveStateManager_reload fns (m, k) else SaveStateManager_save blank (m, k));
         Some (m\<lparr>m_framesHeld := 0\<rparr>, k)
       }
     else if m_framesHeld m \<noteq> 255 then Some (m\<lparr>m_framesHeld := m_framesHeld m + 1\<rparr>, k)
     else Some (m, k))"

section \<open>The buttons\<close>

datatype Controller = No_Controller | WiiWheel | WiiRemoteAndNunchuck | Classic | GameCube

definition holds :: "u16 \<Rightarrow> u16 \<Rightarrow> bool" where
  "holds buttons b \<longleftrightarrow> buttons AND b = b"

text \<open>\<open>shouldUpdateItem\<close> and \<open>isLoadButtonPressed\<close>; \<^term>\<open>None\<close> is the early return without a controller.\<close>

fun race_buttons :: "Controller \<Rightarrow> u16 \<Rightarrow> (bool \<times> bool) option" where
  "race_buttons WiiWheel buttons = Some (holds buttons 0x1000, holds buttons 0x0800)"
| "race_buttons WiiRemoteAndNunchuck buttons = Some (holds buttons 0x4, holds buttons 0x4000)"
| "race_buttons Classic buttons = Some (holds buttons 0x80, holds buttons 0x4)"
| "race_buttons GameCube buttons = Some (holds buttons 0x0800, holds buttons 0x0010)"
| "race_buttons No_Controller buttons = None"

text \<open>
  \<open>RaceManager::Player::calc\<close> after the game's own part, for a player; \<open>items\<close> and \<open>manager\<close> say
  whether the singletons exist.
\<close>

record calc_env =
  ce_setItem :: "ItemId \<Rightarrow> inventory \<Rightarrow> inventory"
  ce_bullet :: bullet_fns
  ce_blank :: save_state
  ce_mode :: RaceMode
  ce_playerId :: u8
  ce_controller :: Controller
  ce_buttons :: u16
  ce_items :: bool

definition ItemDirector_processInput :: "(ItemId \<Rightarrow> inventory \<Rightarrow> inventory) \<Rightarrow> bool \<Rightarrow> kart \<Rightarrow> kart" where
  "ItemDirector_processInput setItem isPressed k = k\<lparr>k_item := calcItemWheel setItem isPressed (k_item k)\<rparr>"

definition Player_calc :: "calc_env \<Rightarrow> save_manager option \<times> kart \<Rightarrow> (save_manager option \<times> kart) option" where
  "Player_calc e = (\<lambda>(m, k).
     if ce_mode e = TimeAttack \<and> ce_playerId e = 0 then
       case race_buttons (ce_controller e) (ce_buttons e) of
         None \<Rightarrow> Some (m, k)
       | Some (shouldUpdateItem, isLoadButtonPressed) \<Rightarrow>
           let k = (if ce_items e then ItemDirector_processInput (ce_setItem e) shouldUpdateItem k else k)
           in case m of
                None \<Rightarrow> Some (m, k)
              | Some s \<Rightarrow> do { (s, k) \<leftarrow> processInput (ce_blank e) (ce_bullet e) isLoadButtonPressed (s, k); Some (Some s, k) }
     else Some (m, k))"

section \<open>Restoring what has been stored\<close>

text \<open>The fields of a kart that a save state covers.\<close>

definition saved_part :: "kart \<Rightarrow> kart" where
  "saved_part k = k\<lparr>k_inBullet := False, k_boost := (k_boost k)\<lparr>kb_timesBeforeEnd := []\<rparr>\<rparr>"

lemma reload_restores:
  assumes saved: "KartSaveState_save k ss = Some ss'" and tires: "length (k_wheels k') = length (k_wheels k)"
    and reloaded: "KartSaveState_reload fns ss' k' = Some k''"
    and bullet: "\<And>x. saved_part (cancelBullet fns x) = saved_part x" "\<And>x. saved_part (activateBullet fns 0xFF x) = saved_part x"
  shows "saved_part k'' = saved_part k"
proof -
  have wheels: "take (length (k_wheels k)) (ss_wheelPhysics ss') = k_wheels k"
    using saved by (auto simp: KartSaveState_save_def fault_simps splice_def)
  let ?k = "k'\<lparr>k_externalVel := ss_externalVel ss', k_internalVel := ss_internalVel ss', k_mainRot := ss_mainRot ss',
       k_pos := ss_pos ss', k_internalSpeed := ss_internalSpeed ss',
       k_boost := (ss_boostState ss')\<lparr>kb_timesBeforeEnd := kb_timesBeforeEnd (k_boost k')\<rparr>,
       k_up := ss_up ss', k_dir := ss_dir ss', k_airtime := ss_airtime ss', k_item := ss_item ss', k_wheels := k_wheels k\<rparr>"
  have "saved_part k'' = saved_part ?k"
    using reloaded tires wheels bullet by (auto simp: KartSaveState_reload_def fault_simps Let_def split: if_splits)
  also have "\<dots> = saved_part k"
    using saved by (cases k; cases k') (auto simp: saved_part_def KartSaveState_save_def fault_simps)
  finally show ?thesis .
qed

section \<open>The length of a press\<close>

text \<open>\<open>n\<close> frames with the button pressed, then one without.\<close>

primrec hold_frames :: "save_state \<Rightarrow> bullet_fns \<Rightarrow> nat \<Rightarrow> save_manager \<times> kart \<Rightarrow> (save_manager \<times> kart) option" where
  "hold_frames blank fns 0 st = Some st"
| "hold_frames blank fns (Suc n) st = do { st \<leftarrow> hold_frames blank fns n st; processInput blank fns True st }"

lemma hold_frames_count:
  assumes "m_framesHeld m = 0"
  shows "hold_frames blank fns n (m, k) = Some (m\<lparr>m_framesHeld := of_nat (min n 255)\<rparr>, k)"
proof (induction n)
  case 0
  then show ?case using assms by (cases m) simp
next
  case (Suc n)
  have below: "(of_nat n :: u8) \<noteq> 255" if "n < 255"
  proof
    assume "(of_nat n :: u8) = 255"
    then have "unat (of_nat n :: u8) = unat (255 :: u8)" by simp
    then show False using that by (simp add: unat_of_nat)
  qed
  show ?case
  proof (cases "n < 255")
    case True
    then show ?thesis using Suc below by (simp add: processInput_def min_def)
  next
    case False
    then have "min n 255 = 255" "min (Suc n) 255 = 255" by simp_all
    then show ?thesis using Suc by (simp add: processInput_def)
  qed
qed

lemma press_length_decides:
  assumes "m_framesHeld m = 0" and "0 < n"
  shows "do { st \<leftarrow> hold_frames blank fns n (m, k); processInput blank fns False st } =
    map_option (\<lambda>(m, k). (m\<lparr>m_framesHeld := 0\<rparr>, k))
      (if n \<le> 30 \<and> m_kartSaveState m \<noteq> None then SaveStateManager_reload fns (m, k)
       else SaveStateManager_save blank (m, k))"
proof -
  let ?h = "of_nat (min n 255) :: u8"
  have u: "unat ?h = min n 255" by (simp add: unat_of_nat)
  then have "?h \<noteq> 0" "?h \<le> 30 \<longleftrightarrow> n \<le> 30" using assms(2) by (auto simp: word_le_nat_alt unat_eq_zero [symmetric])
  then show ?thesis
    using assms(1) by (cases m) (auto simp: hold_frames_count processInput_def SaveStateManager_reload_def
        SaveStateManager_save_def split: option.splits Option.bind_split)
qed

section \<open>The item wheel\<close>

lemma item_wheel_cycles:
  assumes set: "\<And>i iv. m_currentItemID (setItem i iv) = i"
    and cycle: "m_currentItemID iv \<in> set itemCycle" and up: "\<not> m_itemWheelPressed iv"
  shows "map (\<lambda>n. m_currentItemID (((\<lambda>iv. calcItemWheel setItem False (calcItemWheel setItem True iv)) ^^ n) iv)) [0..<10]
      = (let i = length (takeWhile (\<lambda>j. j \<noteq> m_currentItemID iv) itemCycle) in drop i itemCycle @ take i itemCycle)"
proof -
  let ?press = "\<lambda>iv. calcItemWheel setItem False (calcItemWheel setItem True iv)"
  have step: "m_currentItemID (?press v) = nextItem v \<and> \<not> m_itemWheelPressed (?press v)"
    if "\<not> m_itemWheelPressed v" for v
    using that set by (simp add: calcItemWheel_def)
  have run: "m_currentItemID ((?press ^^ n) iv) =
      ((\<lambda>i. case next_in i itemCycle of Some j \<Rightarrow> j | None \<Rightarrow> hd itemCycle) ^^ n) (m_currentItemID iv) \<and>
      \<not> m_itemWheelPressed ((?press ^^ n) iv)" for n
    by (induction n) (use up step in \<open>auto simp: nextItem_def\<close>)
  have "list_all (\<lambda>x. map (\<lambda>n. ((\<lambda>i. case next_in i itemCycle of Some j \<Rightarrow> j | None \<Rightarrow> hd itemCycle) ^^ n) x) [0..<10]
      = (let i = length (takeWhile (\<lambda>j. j \<noteq> x) itemCycle) in drop i itemCycle @ take i itemCycle)) itemCycle"
    by code_simp
  then have "map (\<lambda>n. ((\<lambda>i. case next_in i itemCycle of Some j \<Rightarrow> j | None \<Rightarrow> hd itemCycle) ^^ n) (m_currentItemID iv)) [0..<10]
      = (let i = length (takeWhile (\<lambda>j. j \<noteq> m_currentItemID iv) itemCycle) in drop i itemCycle @ take i itemCycle)"
    using cycle by (simp add: list_all_iff)
  then show ?thesis using run by simp
qed

section \<open>Examples\<close>

definition ex_inventory :: inventory where
  "ex_inventory = \<lparr>m_currentItemID = Mega, m_currentItemCount = 1, m_itemWheelPressed = False\<rparr>"

definition ex_wheel :: "u32 \<Rightarrow> wheel_physics" where
  "ex_wheel x = \<lparr>wp_realPos = (x, 0, 0), wp_lastPos = (x, 1, 0), wp_lastPosDiff = (0, 1, 0)\<rparr>"

definition ex_kart :: "u32 \<Rightarrow> kart" where
  "ex_kart x = \<lparr>k_externalVel = (x, 1, 2), k_internalVel = (x, 3, 4), k_inBullet = (x = 7), k_mainRot = (0, x, 0, 1), k_pos = (x, x, x),
     k_internalSpeed = x + 1, k_boost = \<lparr>kb_timesBeforeEnd = replicate 6 (ucast x), kb_types = 1, kb_multiplier = x, kb_acceleration = 2,
       kb_1c = 3, kb_speedLimit = 4\<rparr>, k_up = (0, 1, 0), k_dir = (x, 0, 1), k_airtime = x, k_wheels = replicate 4 (ex_wheel x),
     k_item = ex_inventory\<rparr>"

definition ex_blank :: save_state where
  "ex_blank = \<lparr>ss_externalVel = (0, 0, 0), ss_internalVel = (0, 0, 0), ss_inBullet = False, ss_mainRot = (0, 0, 0, 0), ss_pos = (0, 0, 0),
     ss_internalSpeed = 0, ss_boostState = \<lparr>kb_timesBeforeEnd = replicate 6 0, kb_types = 0, kb_multiplier = 0, kb_acceleration = 0,
       kb_1c = 0, kb_speedLimit = 0\<rparr>, ss_up = (0, 0, 0), ss_dir = (0, 0, 0), ss_airtime = 0, ss_wheelPhysics = replicate 4 (ex_wheel 0),
     ss_item = ex_inventory\<rparr>"

definition ex_bullet :: bullet_fns where
  "ex_bullet = \<lparr>cancelBullet = (\<lambda>k. k\<lparr>k_inBullet := False\<rparr>), activateBullet = (\<lambda>r4 k. k\<lparr>k_inBullet := True\<rparr>)\<rparr>"

lemma reload_restores_witness:
  "\<exists>ss k. KartSaveState_save (ex_kart 5) ex_blank = Some ss \<and> KartSaveState_reload ex_bullet ss (ex_kart 7) = Some k \<and>
     saved_part k = saved_part (ex_kart 5)"
proof -
  obtain ss where ss: "KartSaveState_save (ex_kart 5) ex_blank = Some ss" and len: "length (ss_wheelPhysics ss) = 4"
    by (simp add: KartSaveState_save_def ex_kart_def ex_blank_def splice_def)
  then obtain k where k: "KartSaveState_reload ex_bullet ss (ex_kart 7) = Some k"
    by (simp add: KartSaveState_reload_def ex_kart_def Let_def)
  have "saved_part k = saved_part (ex_kart 5)"
    by (rule reload_restores [OF ss _ k]) (simp_all add: ex_kart_def ex_bullet_def saved_part_def)
  then show ?thesis using ss k by blast
qed

lemma press_length_decides_witness:
  "\<exists>m. do { st \<leftarrow> hold_frames ex_blank ex_bullet 300 (save_manager_new, ex_kart 5); processInput ex_blank ex_bullet False st } =
     Some (m, ex_kart 5) \<and> m_kartSaveState m \<noteq> None \<and> m_framesHeld m = 0"
  using press_length_decides [of save_manager_new 300 ex_blank ex_bullet "ex_kart 5"]
  by (simp add: save_manager_new_def SaveStateManager_save_def KartSaveState_new_def KartSaveState_save_def ex_kart_def ex_blank_def)

lemma item_wheel_cycles_witness:
  "map (\<lambda>n. m_currentItemID (((\<lambda>iv. calcItemWheel (\<lambda>i v. v\<lparr>m_currentItemID := i\<rparr>) False
      (calcItemWheel (\<lambda>i v. v\<lparr>m_currentItemID := i\<rparr>) True iv)) ^^ n) ex_inventory)) [0..<10]
     = [Mega, Bill, Nana, FIB, Green, Bomb, TC, Shroom, Golden, Star]"
  using item_wheel_cycles [of "\<lambda>i v. v\<lparr>m_currentItemID := i\<rparr>" ex_inventory]
  by (simp add: ex_inventory_def itemCycle_def)

end
