(* ===== verification/String_View.thy ===== *)
theory String_View
  imports Prelude
begin

text \<open>
  \<open>payload/sp/StringView.h\<close> and \<open>payload/sp/StringRange.h\<close>: pieces of strings and a reader over
  one.  A view is the list of its characters; the loops over a view assert that they meet no
  terminator.
\<close>

type_synonym StringView = bytes

definition newline :: u8 where
  "newline = 10"

text \<open>\<open>sv_for_each\<close> with a test for the way out: the number of characters before the first that passes.\<close>

fun sv_find :: "(u8 \<Rightarrow> bool) \<Rightarrow> StringView \<Rightarrow> nat option" where
  "sv_find P [] = Some 0"
| "sv_find P (c # cs) = do {
     ensure (c \<noteq> 0);
     if P c then Some 0 else map_option Suc (sv_find P cs)
   }"

definition StringView_equalsCStr :: "StringView \<Rightarrow> StringView \<Rightarrow> bool" where
  "StringView_equalsCStr v s \<longleftrightarrow> length v = length s \<and> take (length s) v = s"

definition SubString :: "StringView \<Rightarrow> nat \<Rightarrow> StringView" where
  "SubString view offset = (if offset > length view then [] else drop offset view)"

definition ContainsChar :: "StringView \<Rightarrow> u8 \<Rightarrow> bool option" where
  "ContainsChar view c = map_option (\<lambda>i. i < length view) (sv_find (\<lambda>d. d = c) view)"

text \<open>\<open>SplitLeft\<close>: the part before the first delimiter, and what follows it.\<close>

fun split_offset :: "StringView \<Rightarrow> StringView \<Rightarrow> nat option" where
  "split_offset [] delim = Some 0"
| "split_offset (c # cs) delim = do {
     ensure (c \<noteq> 0);
     found \<leftarrow> ContainsChar delim c;
     if found then Some 0 else map_option Suc (split_offset cs delim)
   }"

definition SplitLeft :: "StringView \<Rightarrow> StringView \<Rightarrow> (StringView \<times> StringView) option" where
  "SplitLeft view delim = do {
     splitOffset \<leftarrow> split_offset view delim;
     Some (take splitOffset view, SubString (drop splitOffset view) 1)
   }"

definition SkipLeading :: "StringView \<Rightarrow> u8 \<Rightarrow> StringView option" where
  "SkipLeading view c = do { n \<leftarrow> sv_find (\<lambda>d. d \<noteq> c) view; Some (drop n view) }"

definition SkipTrailing :: "StringView \<Rightarrow> u8 \<Rightarrow> StringView option" where
  "SkipTrailing view c = do { n \<leftarrow> sv_find (\<lambda>d. d \<noteq> c) (rev view); Some (take (length view - n) view) }"

text \<open>\<open>sv_as_cstr\<close>: at most \<open>n\<close> characters and the terminator.\<close>

definition sv_as_cstr :: "StringView \<Rightarrow> nat \<Rightarrow> bytes" where
  "sv_as_cstr sv n = take (min n (length sv)) sv @ [0]"

section \<open>Ranges\<close>

record StringRange =
  mView :: StringView
  mPos :: nat

definition StringRange_create :: "StringView \<Rightarrow> StringRange" where
  "StringRange_create s = \<lparr>mView = s, mPos = 0\<rparr>"

definition StringRange_next :: "StringRange \<Rightarrow> u8 \<times> StringRange" where
  "StringRange_next self =
     (if mPos self \<ge> length (mView self) then (0, self)
      else (mView self ! mPos self, self\<lparr>mPos := mPos self + 1\<rparr>))"

definition StringRange_nextLine :: "StringRange \<Rightarrow> (StringView option \<times> StringRange) option" where
  "StringRange_nextLine self =
     (if mPos self \<ge> length (mView self) then Some (None, self)
      else do {
        let line = SubString (mView self) (mPos self);
        found \<leftarrow> sv_find (\<lambda>c. c = newline) line;
        Some (Some (take found line), self\<lparr>mPos := mPos self + found + 1\<rparr>)
      })"

section \<open>Facts\<close>

lemma sv_find_takeWhile:
  "0 \<notin> set s \<Longrightarrow> sv_find P s = Some (length (takeWhile (\<lambda>c. \<not> P c) s))"
  by (induction s) auto

lemma SkipLeading_dropWhile: "0 \<notin> set s \<Longrightarrow> SkipLeading s c = Some (dropWhile (\<lambda>d. d = c) s)"
  by (simp add: SkipLeading_def sv_find_takeWhile dropWhile_eq_drop)

lemma SkipTrailing_dropWhile:
  "0 \<notin> set s \<Longrightarrow> SkipTrailing s c = Some (rev (dropWhile (\<lambda>d. d = c) (rev s)))"
  by (simp add: SkipTrailing_def sv_find_takeWhile dropWhile_eq_drop rev_drop)

lemma ContainsChar_set: "0 \<notin> set s \<Longrightarrow> ContainsChar s c = Some (c \<in> set s)"
proof -
  assume "0 \<notin> set s"
  moreover have "length (takeWhile (\<lambda>d. d \<noteq> c) s) < length s \<longleftrightarrow> c \<in> set s"
    by (induction s) auto
  ultimately show ?thesis by (simp add: ContainsChar_def sv_find_takeWhile)
qed

lemma SplitLeft_takeWhile:
  assumes "0 \<notin> set s" "0 \<notin> set delim"
  shows "SplitLeft s delim = Some (takeWhile (\<lambda>c. c \<notin> set delim) s, drop 1 (dropWhile (\<lambda>c. c \<notin> set delim) s))"
proof -
  have "split_offset s delim = Some (length (takeWhile (\<lambda>c. c \<notin> set delim) s))"
    using assms by (induction s) (auto simp: ContainsChar_set)
  moreover have "length s - length (takeWhile (\<lambda>c. c \<notin> set delim) s) = length (dropWhile (\<lambda>c. c \<notin> set delim) s)"
    by (simp add: dropWhile_eq_drop)
  ultimately show ?thesis
    by (auto simp: SplitLeft_def SubString_def takeWhile_eq_take [symmetric] dropWhile_eq_drop [symmetric])
qed

section \<open>Reading lines\<close>

lemma shorter_rest: "s \<noteq> [] \<Longrightarrow> length (drop 1 (dropWhile P s)) < length s"
proof -
  assume "s \<noteq> []"
  then have "0 < length s" by simp
  then show ?thesis using length_dropWhile_le [of P s] by (simp only: length_drop)
qed

text \<open>The lines of a text: a last line without a newline counts only when it is not empty.\<close>

function text_lines :: "bytes \<Rightarrow> bytes list" where
  "text_lines s = (if s = [] then []
     else takeWhile (\<lambda>c. c \<noteq> newline) s # text_lines (drop 1 (dropWhile (\<lambda>c. c \<noteq> newline) s)))"
  by pat_completeness auto
termination
  by (relation "measure length", rule wf_measure) (simp only: in_measure, rule shorter_rest)

declare text_lines.simps [simp del]

text \<open>The loop of a caller that reads until \<open>StringRange_nextLine\<close> returns false, with fuel.\<close>

primrec read_lines :: "nat \<Rightarrow> StringRange \<Rightarrow> bytes list option" where
  "read_lines 0 r = None"
| "read_lines (Suc n) r = do {
     (line, r) \<leftarrow> StringRange_nextLine r;
     case line of None \<Rightarrow> Some [] | Some l \<Rightarrow> map_option (Cons l) (read_lines n r)
   }"

lemma read_lines_from:
  "0 \<notin> set (mView r) \<Longrightarrow> length (mView r) - mPos r < n \<Longrightarrow>
   read_lines n r = Some (text_lines (drop (mPos r) (mView r)))"
proof (induction n arbitrary: r)
  case (Suc n)
  let ?rest = "drop (mPos r) (mView r)" and ?P = "\<lambda>c. c \<noteq> newline"
  show ?case
  proof (cases "length (mView r) \<le> mPos r")
    case True
    then show ?thesis by (simp add: StringRange_nextLine_def text_lines.simps [of "[]"])
  next
    case False
    let ?found = "length (takeWhile ?P ?rest)"
    let ?r = "r\<lparr>mPos := mPos r + ?found + 1\<rparr>"
    have "0 \<notin> set ?rest" using Suc.prems(1) by (meson in_set_dropD)
    then have line: "StringRange_nextLine r = Some (Some (takeWhile ?P ?rest), ?r)"
      using False by (simp add: StringRange_nextLine_def SubString_def sv_find_takeWhile takeWhile_eq_take [symmetric] Let_def)
    have "read_lines n ?r = Some (text_lines (drop (mPos ?r) (mView ?r)))"
      using Suc.prems False by (intro Suc.IH) simp_all
    moreover have "drop (mPos ?r) (mView ?r) = drop 1 (dropWhile ?P ?rest)"
      by (simp add: dropWhile_eq_drop [of ?P ?rest] add.commute add.left_commute)
    ultimately show ?thesis using line False by (simp add: text_lines.simps [of ?rest])
  qed
qed simp

text \<open>Joining the lines gives the text back, up to a newline at the end.\<close>

lemma text_lines_join:
  "concat (map (\<lambda>l. l @ [newline]) (text_lines s)) = (if s = [] \<or> last s = newline then s else s @ [newline])"
proof (induction s rule: text_lines.induct)
  case (1 s)
  let ?P = "\<lambda>c. c \<noteq> newline"
  show ?case
  proof (cases "s = [] \<or> dropWhile ?P s = []")
    case True
    then show ?thesis
    proof (cases "s = []")
      case False
      then have all: "\<forall>c \<in> set s. c \<noteq> newline" using True by (simp add: dropWhile_eq_Nil_conv)
      then have tw: "takeWhile ?P s = s" and dw: "dropWhile ?P s = []" by (simp_all add: takeWhile_eq_all_conv dropWhile_eq_Nil_conv)
      have "text_lines [] = []" by (simp add: text_lines.simps)
      then have "text_lines s = [s]" using False unfolding text_lines.simps [of s] tw dw by simp
      moreover have "last s \<noteq> newline" using all False by auto
      ultimately show ?thesis using False by simp
    qed (simp add: text_lines.simps [of "[]"])
  next
    case False
    then obtain c rest where "dropWhile ?P s = c # rest" by (cases "dropWhile ?P s") auto
    moreover from this have "c = newline" using hd_dropWhile [of ?P s] by simp
    ultimately have rest: "dropWhile ?P s = newline # rest" by simp
    have split: "s = takeWhile ?P s @ newline # rest" using rest by (metis takeWhile_dropWhile_id)
    have "concat (map (\<lambda>l. l @ [newline]) (text_lines rest)) = (if rest = [] \<or> last rest = newline then rest else rest @ [newline])"
      using 1 False rest by simp
    moreover have "last s = (if rest = [] then newline else last rest)" by (subst split) simp
    moreover have "text_lines s = takeWhile ?P s # text_lines rest" using False rest by (simp add: text_lines.simps [of s])
    moreover have "takeWhile ?P s @ newline # rest @ [newline] = s @ [newline]" using split by (metis append.assoc append_Cons)
    ultimately show ?thesis using split [symmetric] False by (auto split: if_splits)
  qed
qed



end
