(* ===== verification/Text_Format.thy ===== *)
theory Text_Format
  imports String_View
begin

text \<open>
  \<open>payload/sp/FormattingCodes.c\<close>: text with colour and style codes, an ampersand and a character, as
  the console on the screen prints it.  A \<open>Formatting\<close> is its 16 bits: four of colour, five of style.
\<close>

datatype FontStates = STATE_OBFUSCATED | STATE_BOLD | STATE_STRIKETHROUGH | STATE_UNDERLINE | STATE_ITALICS

fun state_no :: "FontStates \<Rightarrow> nat" where
  "state_no STATE_OBFUSCATED = 0"
| "state_no STATE_BOLD = 1"
| "state_no STATE_STRIKETHROUGH = 2"
| "state_no STATE_UNDERLINE = 3"
| "state_no STATE_ITALICS = 4"

type_synonym Formatting = u16

definition DefaultFormatting :: Formatting where
  "DefaultFormatting = 0xf"

definition hex_colors_fg :: "u32 list" where
  "hex_colors_fg = [0x000000FF, 0x0000AAFF, 0x00AA00FF, 0x00AAAAFF, 0xAA0000FF, 0xAA00AAFF, 0xFFAA00FF, 0xAAAAAAFF,
     0x555555FF, 0x5555FFFF, 0x55FF55FF, 0x55FFFFFF, 0xFF5555FF, 0xFF55FFFF, 0xFFFF55FF, 0xFFFFFFFF]"

definition hex_color_fg :: "u8 \<Rightarrow> u32 option" where
  "hex_color_fg color_code = rd hex_colors_fg (unat (color_code AND 0xf))"

definition hex_colors_bg :: "u32 list" where
  "hex_colors_bg = [0x000000FF, 0x00002AFF, 0x002A00FF, 0x002A2AFF, 0x2A0000FF, 0x2A002AFF, 0x2A2A00FF, 0x2A2A2AFF,
     0x151515FF, 0x15153FFF, 0x153F15FF, 0x153F3FFF, 0x3F1515FF, 0x3F153FFF, 0x3F3F15FF, 0x3F3F3FFF]"

definition hex_color_bg :: "u8 \<Rightarrow> u32 option" where
  "hex_color_bg color_code = rd hex_colors_bg (unat (color_code AND 0xf))"

definition Formatting_flag :: "FontStates \<Rightarrow> bool \<Rightarrow> u16" where
  "Formatting_flag state b = push_bit (4 + state_no state) (of_bool b)"

definition Formatting_getColorCode :: "Formatting \<Rightarrow> u8" where
  "Formatting_getColorCode f = ucast (f AND 0xf)"

definition Formatting_setColorCode :: "Formatting \<Rightarrow> u8 \<Rightarrow> Formatting" where
  "Formatting_setColorCode f c = (f AND NOT 0xf) OR (ucast c AND 0xf)"

definition Formatting_isState :: "Formatting \<Rightarrow> FontStates \<Rightarrow> bool" where
  "Formatting_isState f state \<longleftrightarrow> f AND Formatting_flag state True \<noteq> 0"

definition Formatting_setState :: "Formatting \<Rightarrow> FontStates \<Rightarrow> bool \<Rightarrow> Formatting" where
  "Formatting_setState f state v = (f AND NOT (Formatting_flag state True)) OR Formatting_flag state v"

section \<open>Codes\<close>

definition discard_color :: u32 where
  "discard_color = push_bit 16 0xf"

definition discard_flags :: u32 where
  "discard_flags = push_bit 16 0xfff0"

definition color_set :: "u32 \<Rightarrow> u32" where
  "color_set x = discard_color OR (x AND 0xf)"

definition flags_add :: "FontStates \<Rightarrow> u32" where
  "flags_add x = push_bit (state_no x + 4) 1"

definition mask_or_start :: nat where
  "mask_or_start = 0x30"

text \<open>The array is as long as its highest designator asks for; what is not listed is zero.\<close>

definition mask_or_table :: "u32 list" where
  "mask_or_table = fold (\<lambda>(c, v) t. t[c - mask_or_start := v])
     [(0x30, color_set 0), (0x31, color_set 1), (0x32, color_set 2), (0x33, color_set 3), (0x34, color_set 4),
      (0x35, color_set 5), (0x36, color_set 6), (0x37, color_set 7), (0x38, color_set 8), (0x39, color_set 9),
      (0x61, color_set 0xa), (0x62, color_set 0xb), (0x63, color_set 0xc), (0x64, color_set 0xd), (0x65, color_set 0xe),
      (0x66, color_set 0xf), (0x6b, flags_add STATE_OBFUSCATED), (0x6c, flags_add STATE_BOLD),
      (0x6d, flags_add STATE_STRIKETHROUGH), (0x6e, flags_add STATE_UNDERLINE), (0x6f, flags_add STATE_ITALICS),
      (0x72, discard_flags)]
     (replicate (0x72 - mask_or_start + 1) 0)"

definition mask_then_or :: "u32 \<Rightarrow> Formatting \<Rightarrow> Formatting" where
  "mask_then_or action_v f = (f AND NOT (ucast (drop_bit 16 action_v))) OR ucast (action_v AND 0xFFFF)"

definition Formatting_applyCode :: "Formatting \<Rightarrow> u8 \<Rightarrow> Formatting option" where
  "Formatting_applyCode f action =
     (let idx = unat action
      in if idx < mask_or_start \<or> idx - mask_or_start \<ge> length mask_or_table then Some f
         else do { action_v \<leftarrow> rd mask_or_table (idx - mask_or_start); Some (mask_then_or action_v f) })"

section \<open>Text\<close>

record TextRange =
  font_state :: Formatting
  mString :: StringRange

definition TextRange_create :: "StringView \<Rightarrow> TextRange" where
  "TextRange_create s = \<lparr>font_state = DefaultFormatting, mString = StringRange_create s\<rparr>"

definition AMPERSAND :: u8 where
  "AMPERSAND = 0x26"

text \<open>The loop of \<open>TextRange_next\<close>; every round but the last moves the position.\<close>

function next_loop :: "bool \<Rightarrow> TextRange \<Rightarrow> ((u8 \<times> Formatting) \<times> TextRange) option" where
  "next_loop expect_code self =
     (let (c, s) = StringRange_next (mString self); self' = self\<lparr>mString := s\<rparr>
      in if c = 0 then Some ((0, 0), self')
         else if c = AMPERSAND then next_loop True self'
         else if expect_code then
           (case Formatting_applyCode (font_state self') c of
              None \<Rightarrow> None
            | Some f \<Rightarrow> next_loop False (self'\<lparr>font_state := f\<rparr>))
         else Some ((c, font_state self'), self'))"
  by pat_completeness auto
termination
  by (relation "measure (\<lambda>(e, r). length (mView (mString r)) - mPos (mString r))")
    (auto simp: StringRange_next_def split: if_splits)

declare next_loop.simps [simp del]

definition TextRange_next :: "TextRange \<Rightarrow> ((u8 \<times> Formatting) \<times> TextRange) option" where
  "TextRange_next self = next_loop False self"

section \<open>What a code means\<close>

type_synonym style = "u8 \<times> FontStates set"

definition style_of :: "Formatting \<Rightarrow> style" where
  "style_of f = (Formatting_getColorCode f, {st. Formatting_isState f st})"

definition code_color :: "u8 \<Rightarrow> u8 option" where
  "code_color c = (if 0x30 \<le> c \<and> c \<le> 0x39 then Some (c - 0x30) else if 0x61 \<le> c \<and> c \<le> 0x66 then Some (c - 0x57) else None)"

definition code_flag :: "u8 \<Rightarrow> FontStates option" where
  "code_flag c = map_of [(0x6b, STATE_OBFUSCATED), (0x6c, STATE_BOLD), (0x6d, STATE_STRIKETHROUGH),
     (0x6e, STATE_UNDERLINE), (0x6f, STATE_ITALICS)] c"

definition apply_style :: "u8 \<Rightarrow> style \<Rightarrow> style" where
  "apply_style c = (\<lambda>(col, sts).
     (case code_color c of Some x \<Rightarrow> x | None \<Rightarrow> col,
      if c = 0x72 then {} else case code_flag c of Some st \<Rightarrow> insert st sts | None \<Rightarrow> sts))"

text \<open>The bits of every entry of the table.\<close>

definition all_states :: "FontStates list" where
  "all_states = [STATE_OBFUSCATED, STATE_BOLD, STATE_STRIKETHROUGH, STATE_UNDERLINE, STATE_ITALICS]"

definition entry_ok :: "u8 \<Rightarrow> u32 \<Rightarrow> bool" where
  "entry_ok c v \<longleftrightarrow>
     (if v = 0 then code_color c = None \<and> code_flag c = None \<and> c \<noteq> 0x72
      else
        list_all (\<lambda>n. (bit v (n + 16), bit v n) = (case code_color c of Some x \<Rightarrow> (True, bit x n) | None \<Rightarrow> (False, False))) [0..<4] \<and>
        list_all (\<lambda>st. (bit v (state_no st + 20), bit v (state_no st + 4)) = (c = 0x72, code_flag c = Some st)) all_states \<and>
        list_all (\<lambda>n. \<not> bit v n) [9..<16])"

lemma all_states: "st \<in> set all_states"
  by (cases st) (simp_all add: all_states_def)

lemma entry_bits:
  assumes "entry_ok c v"
  shows "n < 4 \<Longrightarrow> (bit v (n + 16), bit v n) = (case code_color c of Some x \<Rightarrow> (True, bit x n) | None \<Rightarrow> (False, False))"
    and "(bit v (state_no st + 20), bit v (state_no st + 4)) = (c = 0x72, code_flag c = Some st)"
    and "9 \<le> n \<Longrightarrow> n < 16 \<Longrightarrow> \<not> bit v n"
proof -
  have zero: "v = 0 \<Longrightarrow> code_color c = None \<and> code_flag c = None \<and> c \<noteq> 0x72"
    and nonzero: "v \<noteq> 0 \<Longrightarrow>
      (\<forall>n \<in> {0..<4}. (bit v (n + 16), bit v n) = (case code_color c of Some x \<Rightarrow> (True, bit x n) | None \<Rightarrow> (False, False))) \<and>
      (\<forall>st \<in> set all_states. (bit v (state_no st + 20), bit v (state_no st + 4)) = (c = 0x72, code_flag c = Some st)) \<and>
      (\<forall>n \<in> {9..<16}. \<not> bit v n)"
    using assms unfolding entry_ok_def list_all_iff set_upt by (auto split: if_splits)
  show "n < 4 \<Longrightarrow> (bit v (n + 16), bit v n) = (case code_color c of Some x \<Rightarrow> (True, bit x n) | None \<Rightarrow> (False, False))"
    using zero nonzero by (cases "v = 0") simp_all
  show "(bit v (state_no st + 20), bit v (state_no st + 4)) = (c = 0x72, code_flag c = Some st)"
    using zero nonzero all_states [of st] by (cases "v = 0") auto
  show "9 \<le> n \<Longrightarrow> n < 16 \<Longrightarrow> \<not> bit v n"
    using nonzero by (cases "v = 0") simp_all
qed

lemma table_entries: "list_all (\<lambda>(i, v). entry_ok (of_nat (i + mask_or_start)) v) (enumerate 0 mask_or_table)"
  by code_simp

lemma table_length: "length mask_or_table = 67"
  by code_simp

lemma no_code_outside:
  assumes "unat c < mask_or_start \<or> 67 \<le> unat c - mask_or_start"
  shows "code_color c = None" "code_flag c = None" "c \<noteq> 0x72"
  using assms by (auto simp: mask_or_start_def word_le_nat_alt code_flag_def code_color_def)

lemma code_color_nibble: "code_color c = Some x \<Longrightarrow> x < 16"
  by (auto simp: code_color_def word_le_nat_alt word_less_nat_alt unat_sub split: if_splits)

lemma mask_then_or_bit: "n < 16 \<Longrightarrow> bit (mask_then_or v f) n \<longleftrightarrow> bit f n \<and> \<not> bit v (n + 16) \<or> bit v n"
proof -
  assume n: "n < 16"
  have m: "(0xFFFF :: u32) = mask 16" by (simp add: mask_eq_exp_minus_1)
  show ?thesis using n unfolding mask_then_or_def m by (auto simp: bit_simps add.commute)
qed

lemma getColorCode_bit: "bit (Formatting_getColorCode f) n \<longleftrightarrow> n < 4 \<and> bit f n"
proof -
  have m: "(0xf :: u16) = mask 4" by (simp add: mask_eq_exp_minus_1)
  show ?thesis unfolding Formatting_getColorCode_def m by (auto simp: bit_simps)
qed

lemma isState_bit: "Formatting_isState f st \<longleftrightarrow> bit f (state_no st + 4)"
  by (simp add: Formatting_isState_def Formatting_flag_def bit_iff_and_push_bit_not_eq_0 add.commute)

lemma high_bits:
  assumes "unat (x :: 'a::len word) < 2 ^ k" and "k \<le> n"
  shows "\<not> bit x n"
proof -
  have "take_bit k (unat x) = unat x" using assms(1) by (simp add: take_bit_nat_eq_self_iff)
  then have "\<not> bit (unat x) n" using assms(2) by (metis bit_take_bit_iff not_le)
  then show ?thesis by (simp add: bit_unsigned_iff)
qed

lemma unat_less_by_bits:
  assumes "\<And>n. k \<le> n \<Longrightarrow> \<not> bit (x :: 'a::len word) n"
  shows "unat x < 2 ^ k"
proof -
  have "take_bit k (unat x) = unat x"
    using assms by (auto simp: bit_eq_iff bit_take_bit_iff bit_unsigned_iff) (meson not_le)
  then show ?thesis by (simp add: take_bit_nat_eq_self_iff)
qed

lemma applyCode_style:
  "\<exists>f'. Formatting_applyCode f c = Some f' \<and> style_of f' = apply_style c (style_of f) \<and> (f < 512 \<longrightarrow> f' < 512)"
proof (cases "unat c < mask_or_start \<or> 67 \<le> unat c - mask_or_start")
  case True
  then show ?thesis using no_code_outside [OF True]
    by (auto simp: Formatting_applyCode_def table_length apply_style_def style_of_def)
next
  case False
  let ?i = "unat c - mask_or_start"
  let ?f = "mask_then_or (mask_or_table ! ?i) f"
  have app: "Formatting_applyCode f c = Some ?f"
    using False by (simp add: Formatting_applyCode_def table_length Let_def)
  have "?i < length mask_or_table" using False by (simp add: table_length)
  then have "(?i, mask_or_table ! ?i) \<in> set (enumerate 0 mask_or_table)" by (simp add: in_set_enumerate_eq)
  then have "entry_ok (of_nat (?i + mask_or_start)) (mask_or_table ! ?i)" using table_entries by (force simp: list_all_iff)
  moreover have "(of_nat (?i + mask_or_start) :: u8) = c" using False by simp
  ultimately have "entry_ok c (mask_or_table ! ?i)" by simp
  note colour = entry_bits(1) [OF this] and flag = entry_bits(2) [OF this] and high = entry_bits(3) [OF this]
  have "Formatting_getColorCode ?f = (case code_color c of Some x \<Rightarrow> x | None \<Rightarrow> Formatting_getColorCode f)"
  proof (rule bit_eqI)
    fix n
    show "bit (Formatting_getColorCode ?f) n \<longleftrightarrow> bit (case code_color c of Some x \<Rightarrow> x | None \<Rightarrow> Formatting_getColorCode f) n"
    proof (cases "n < 4")
      case True
      then show ?thesis using colour [OF True] by (auto simp: getColorCode_bit mask_then_or_bit split: option.splits)
    next
      case False
      have "\<not> bit x n" if "x < 16" for x :: u8
        using high_bits [of x 4 n] that False by (simp add: word_less_nat_alt)
      then show ?thesis using False by (auto simp: getColorCode_bit dest: code_color_nibble split: option.splits)
    qed
  qed
  moreover have "Formatting_isState ?f st \<longleftrightarrow> c \<noteq> 0x72 \<and> Formatting_isState f st \<or> code_flag c = Some st" for st
  proof -
    have "state_no st + 4 < 16" by (cases st) simp_all
    then show ?thesis using flag [of st] by (auto simp: isState_bit mask_then_or_bit add.commute [of 20])
  qed
  then have "{st. Formatting_isState ?f st} = (if c = 0x72 then {} else case code_flag c of Some st \<Rightarrow> insert st {st. Formatting_isState f st}
      | None \<Rightarrow> {st. Formatting_isState f st})"
    by (auto simp: code_flag_def split: option.splits if_splits)
  moreover have "?f < 512" if "f < 512"
  proof -
    have "\<not> bit f n" if "9 \<le> n" for n
      using high_bits [of f 9 n] that \<open>f < 512\<close> by (simp add: word_less_nat_alt)
    then have "\<not> bit ?f n" if "9 \<le> n" for n
      using that high [of n] by (cases "n < 16") (auto simp: mask_then_or_bit dest: bit_imp_le_length)
    then show ?thesis using unat_less_by_bits [of 9 ?f] by (simp add: word_less_nat_alt)
  qed
  ultimately show ?thesis using app by (auto simp: style_of_def apply_style_def)
qed


section \<open>What is printed\<close>

text \<open>The characters with their styles; \<open>expect\<close> says that an ampersand has been read.\<close>

fun styled :: "bool \<Rightarrow> style \<Rightarrow> bytes \<Rightarrow> (u8 \<times> style) list" where
  "styled expect sty [] = []"
| "styled expect sty (c # s) =
     (if c = 0 then [] else if c = AMPERSAND then styled True sty s
      else if expect then styled False (apply_style c sty) s
      else (c, sty) # styled False sty s)"

text \<open>The loop of \<open>TextWriter_draw\<close>: read until the terminator comes, with fuel.\<close>

primrec draw :: "nat \<Rightarrow> TextRange \<Rightarrow> (u8 \<times> Formatting) list option" where
  "draw 0 r = None"
| "draw (Suc n) r = do {
     (fc, r) \<leftarrow> TextRange_next r;
     if fst fc = 0 then Some [] else map_option (Cons fc) (draw n r)
   }"

lemma next_loop_styled:
  assumes "font_state r < 512"
  shows "\<exists>c f r'. next_loop e r = Some ((c, f), r') \<and> font_state r' < 512 \<and>
    (if c = 0 then styled e (style_of (font_state r)) (drop (mPos (mString r)) (mView (mString r))) = []
     else f = font_state r' \<and> mView (mString r') = mView (mString r) \<and> mPos (mString r) < mPos (mString r') \<and>
       mPos (mString r') \<le> length (mView (mString r)) \<and>
       styled e (style_of (font_state r)) (drop (mPos (mString r)) (mView (mString r))) =
         (c, style_of f) # styled False (style_of f) (drop (mPos (mString r')) (mView (mString r'))))"
  using assms
proof (induction e r rule: next_loop.induct)
  case (1 e r)
  let ?s = "mString r"
  show ?case
  proof (cases "length (mView ?s) \<le> mPos ?s")
    case True
    then show ?thesis using 1 by (simp add: next_loop.simps [of e r] StringRange_next_def)
  next
    case False
    let ?c = "mView ?s ! mPos ?s" and ?r = "r\<lparr>mString := ?s\<lparr>mPos := mPos ?s + 1\<rparr>\<rparr>"
    have nxt: "StringRange_next ?s = (?c, ?s\<lparr>mPos := mPos ?s + 1\<rparr>)" using False by (simp add: StringRange_next_def)
    have rest: "drop (mPos ?s) (mView ?s) = ?c # drop (mPos ?s + 1) (mView ?s)"
      using False by (simp add: Cons_nth_drop_Suc)
    consider (nul) "?c = 0" | (amp) "?c \<noteq> 0" "?c = AMPERSAND" | (code) "?c \<noteq> 0" "?c \<noteq> AMPERSAND" "e"
      | (char) "?c \<noteq> 0" "?c \<noteq> AMPERSAND" "\<not> e" by blast
    then show ?thesis
    proof cases
      case nul
      then show ?thesis using 1 nxt rest by (simp add: next_loop.simps [of e r])
    next
      case amp
      have "next_loop e r = next_loop True ?r" using amp nxt by (simp add: next_loop.simps [of e r])
      moreover have "styled e (style_of (font_state r)) (drop (mPos ?s) (mView ?s)) =
          styled True (style_of (font_state ?r)) (drop (mPos (mString ?r)) (mView (mString ?r)))"
        using amp rest by simp
      moreover have "mView (mString ?r) = mView ?s" "mPos (mString ?r) = mPos ?s + 1" "font_state ?r = font_state r" by simp_all
      ultimately show ?thesis
        using "1.IH"(1) [OF nxt [symmetric] refl refl amp] 1(3) by (auto simp: Let_def split: if_splits)
    next
      case code
      obtain f' where f': "Formatting_applyCode (font_state r) ?c = Some f'" "style_of f' = apply_style ?c (style_of (font_state r))"
        "f' < 512" using applyCode_style [of "font_state r" ?c] 1(3) by auto
      let ?r = "r\<lparr>mString := ?s\<lparr>mPos := mPos ?s + 1\<rparr>, font_state := f'\<rparr>"
      have "next_loop e r = next_loop False ?r" using code nxt f' by (simp add: next_loop.simps [of True r])
      moreover have "styled e (style_of (font_state r)) (drop (mPos ?s) (mView ?s)) =
          styled False (style_of (font_state ?r)) (drop (mPos (mString ?r)) (mView (mString ?r)))"
        using code rest f' by simp
      moreover have "mView (mString ?r) = mView ?s" "mPos (mString ?r) = mPos ?s + 1" "font_state ?r < 512" using f' by simp_all
      ultimately show ?thesis
        using "1.IH"(2) [OF nxt [symmetric] refl refl code(1,2,3), of f'] f'(1) by (auto simp: Let_def split: if_splits)
    next
      case char
      then show ?thesis using 1 nxt rest False by (simp add: next_loop.simps [of False r])
    qed
  qed
qed

lemma draw_from:
  "font_state r < 512 \<Longrightarrow> length (mView (mString r)) - mPos (mString r) < n \<Longrightarrow>
   \<exists>cs. draw n r = Some cs \<and> (\<forall>(c, f) \<in> set cs. f < 512) \<and>
     map (\<lambda>(c, f). (c, style_of f)) cs = styled False (style_of (font_state r)) (drop (mPos (mString r)) (mView (mString r)))"
proof (induction n arbitrary: r)
  case (Suc n)
  obtain c f r' where nxt: "TextRange_next r = Some ((c, f), r')" "font_state r' < 512"
    and res: "if c = 0 then styled False (style_of (font_state r)) (drop (mPos (mString r)) (mView (mString r))) = []
     else f = font_state r' \<and> mView (mString r') = mView (mString r) \<and> mPos (mString r) < mPos (mString r') \<and>
       mPos (mString r') \<le> length (mView (mString r)) \<and>
       styled False (style_of (font_state r)) (drop (mPos (mString r)) (mView (mString r))) =
         (c, style_of f) # styled False (style_of f) (drop (mPos (mString r')) (mView (mString r')))"
    using next_loop_styled [of r False] Suc.prems(1) by (auto simp: TextRange_next_def)
  show ?case
  proof (cases "c = 0")
    case True
    then show ?thesis using nxt res by simp
  next
    case False
    then have "length (mView (mString r')) - mPos (mString r') < n" using res Suc.prems(2) by auto
    then obtain cs where "draw n r' = Some cs" "\<forall>(c, f) \<in> set cs. f < 512"
      "map (\<lambda>(c, f). (c, style_of f)) cs = styled False (style_of (font_state r')) (drop (mPos (mString r')) (mView (mString r')))"
      using Suc.IH [of r'] nxt(2) by blast
    then show ?thesis using False nxt res by auto
  qed
qed simp


text \<open>The bits above the nine used stay zero, whatever the text is.\<close>

lemma small_bits: "(f :: u16) < 512 \<longleftrightarrow> (\<forall>n \<ge> 9. \<not> bit f n)"
  using high_bits [of f 9] unat_less_by_bits [of 9 f] by (auto simp: word_less_nat_alt)

lemma nibble_bits: "9 \<le> n \<Longrightarrow> \<not> bit (0xf :: u16) n"
  using high_bits [of "0xf :: u16" 9 n] by simp

lemma draw_typed:
  "font_state r < 512 \<Longrightarrow> draw n r = Some cs \<Longrightarrow> \<forall>(c, f) \<in> set cs. f < 512"
proof (induction n arbitrary: r cs)
  case (Suc n)
  obtain c f r' where nxt: "TextRange_next r = Some ((c, f), r')" "font_state r' < 512" "c \<noteq> 0 \<longrightarrow> f = font_state r'"
    using next_loop_styled [of r False] Suc.prems(1) by (fastforce simp: TextRange_next_def split: if_splits)
  then show ?case using Suc.prems(2) Suc.IH [of r'] by (cases "c = 0") auto
qed simp

text \<open>C38: A formatting has only its nine defined bits set, and every operation on it and every text
  keeps that.\<close>

theorem formatting_well_typed:
  assumes "f < 512"
  shows "(\<exists>f'. Formatting_applyCode f c = Some f' \<and> f' < 512) \<and> Formatting_setColorCode f x < 512 \<and>
    Formatting_setState f st v < 512 \<and> (\<forall>cs. draw n (TextRange_create s) = Some cs \<longrightarrow> (\<forall>(d, g) \<in> set cs. g < 512))"
proof (intro conjI allI impI)
  show "\<exists>f'. Formatting_applyCode f c = Some f' \<and> f' < 512" using applyCode_style [of f c] assms by auto
  show "Formatting_setColorCode f x < 512"
    using assms nibble_bits unfolding small_bits by (auto simp: Formatting_setColorCode_def bit_simps)
  show "Formatting_setState f st v < 512"
    using assms unfolding small_bits by (cases st) (auto simp: Formatting_setState_def Formatting_flag_def bit_simps split: if_splits)
  fix cs
  assume "draw n (TextRange_create s) = Some cs"
  then show "\<forall>(d, g) \<in> set cs. g < 512"
    by (intro draw_typed) (simp_all add: TextRange_create_def DefaultFormatting_def)
qed

theorem formatting_well_typed_witness:
  "\<exists>f'. Formatting_applyCode 0x1ff 0x72 = Some f' \<and> f' < 512 \<and> Formatting_setColorCode 0x1ff 0xff < 512"
proof -
  have "(0x1ff :: u16) < 512" by simp
  from formatting_well_typed [OF this] show ?thesis by blast
qed

end
