(* ===== verification/Console_Commands.thy ===== *)
theory Console_Commands
  imports String_View "HOL-Library.List_Lexorder"
begin

text \<open>
  \<open>payload/sp/Commands.c\<close>: the commands of the developer console.  The linker collects them in a
  section, which is the list \<open>cmds\<close> here.  C strings are the characters before the terminator.
\<close>

record 'h Command =
  cmd_match :: bytes
  cmd_desc :: bytes
  cmd_onBegin :: "'h option"

definition SPACE :: u8 where
  "SPACE = 0x20"

definition StringStartsWithCommand :: "bytes \<Rightarrow> bytes \<Rightarrow> bool" where
  "StringStartsWithCommand line cmd =
     (let cmdLen = length cmd
      in if take cmdLen line \<noteq> cmd then False
         else length line = cmdLen \<or> line ! cmdLen = SPACE)"

text \<open>\<open>qsort\<close> with \<open>strcmp\<close> on the names: characters compare as bytes.\<close>

definition Commands_init :: "'h Command list \<Rightarrow> 'h Command list" where
  "Commands_init cmds = sort_key cmd_match cmds"

definition Commands_match :: "'h Command list \<Rightarrow> bytes \<Rightarrow> 'h Command option option" where
  "Commands_match cmds tmp = do {
     ensure (tmp \<noteq> []);
     Some (find (\<lambda>it. StringStartsWithCommand tmp (cmd_match it)) cmds)
   }"

text \<open>What a submitted line leads to; an empty line is a failed assertion.\<close>

datatype 'h reaction = Unknown_Command bytes | Not_Implemented bytes | Run 'h bytes

definition Commands_lineCallback :: "'h Command list \<Rightarrow> StringView \<Rightarrow> 'h reaction option" where
  "Commands_lineCallback cmds buf = do {
     let tmp = takeWhile (\<lambda>c. c \<noteq> 0) (sv_as_cstr buf 64);
     it \<leftarrow> Commands_match cmds tmp;
     Some (case it of None \<Rightarrow> Unknown_Command tmp
       | Some c \<Rightarrow> (case cmd_onBegin c of None \<Rightarrow> Not_Implemented tmp | Some h \<Rightarrow> Run h tmp))
   }"

section \<open>The help pages\<close>

definition commandsPerPage :: nat where
  "commandsPerPage = 9"

definition numPages :: "'h Command list \<Rightarrow> nat" where
  "numPages cmds = (length cmds + commandsPerPage - 1) mod 2 ^ 32 div commandsPerPage"

text \<open>
  The page number and the number of pages of the title, and the commands of the lines below it.  The
  products are those of a 32-bit \<open>size_t\<close>.
\<close>

definition Commands_printHelp :: "'h Command list \<Rightarrow> nat \<Rightarrow> (nat \<times> nat) \<times> 'h Command list" where
  "Commands_printHelp cmds page =
     ((page + 1, numPages cmds),
      map (\<lambda>i. cmds ! i) [page * commandsPerPage mod 2 ^ 32 ..< min ((page + 1) * commandsPerPage mod 2 ^ 32) (length cmds)])"

text \<open>\<open>/help\<close> with the number \<open>sscanf\<close> has found, if any.\<close>

definition cmd_help :: "'h Command list \<Rightarrow> int option \<Rightarrow> (nat \<times> nat) \<times> 'h Command list" where
  "cmd_help cmds scanned =
     (let page = (case scanned of Some n \<Rightarrow> n | None \<Rightarrow> 1) in Commands_printHelp cmds (nat (max (page - 1) 0)))"

section \<open>Facts\<close>

definition first_word :: "bytes \<Rightarrow> bytes" where
  "first_word s = takeWhile (\<lambda>c. c \<noteq> SPACE) s"

lemma starts_with_command_iff:
  assumes "SPACE \<notin> set cmd"
  shows "StringStartsWithCommand line cmd \<longleftrightarrow> first_word line = cmd"
proof
  assume a: "StringStartsWithCommand line cmd"
  then have pre: "take (length cmd) line = cmd" and nxt: "length line = length cmd \<or> line ! length cmd = SPACE"
    by (auto simp: StringStartsWithCommand_def Let_def split: if_splits)
  have "line = cmd @ drop (length cmd) line" using pre by (metis append_take_drop_id)
  moreover have "drop (length cmd) line = [] \<or> hd (drop (length cmd) line) = SPACE"
    using nxt pre by (cases "length line \<le> length cmd") (auto simp: hd_drop_conv_nth)
  ultimately obtain rest where "line = cmd @ rest" "rest = [] \<or> hd rest = SPACE" by blast
  then show "first_word line = cmd"
    using assms by (cases rest) (auto simp: first_word_def takeWhile_append takeWhile_eq_all_conv)
next
  assume a: "first_word line = cmd"
  then have "line = cmd @ dropWhile (\<lambda>c. c \<noteq> SPACE) line" by (metis first_word_def takeWhile_dropWhile_id)
  moreover have "dropWhile (\<lambda>c. c \<noteq> SPACE) line = [] \<or> hd (dropWhile (\<lambda>c. c \<noteq> SPACE) line) = SPACE"
    using hd_dropWhile [of "\<lambda>c. c \<noteq> SPACE" line] by auto
  ultimately obtain rest where "line = cmd @ rest" "rest = [] \<or> hd rest = SPACE" by blast
  then show "StringStartsWithCommand line cmd"
    by (cases rest) (auto simp: StringStartsWithCommand_def)
qed

lemma command_by_first_word:
  assumes names: "distinct (map cmd_match cmds)" and words: "\<And>c. c \<in> set cmds \<Longrightarrow> SPACE \<notin> set (cmd_match c)"
    and line: "line \<noteq> []"
  shows "\<exists>r. Commands_match (Commands_init cmds) line = Some r \<and>
    (\<forall>c. r = Some c \<longleftrightarrow> c \<in> set cmds \<and> cmd_match c = first_word line)"
proof -
  let ?cmds = "Commands_init cmds"
  have set: "set ?cmds = set cmds" by (simp add: Commands_init_def)
  have unique: "c = d" if "c \<in> set cmds" "d \<in> set cmds" "cmd_match c = cmd_match d" for c d
    using names that by (auto simp: distinct_map dest: inj_onD)
  have found: "find (\<lambda>it. StringStartsWithCommand line (cmd_match it)) ?cmds = Some c \<longleftrightarrow>
      c \<in> set cmds \<and> cmd_match c = first_word line" for c
  proof
    assume "find (\<lambda>it. StringStartsWithCommand line (cmd_match it)) ?cmds = Some c"
    then have "c \<in> set ?cmds" "StringStartsWithCommand line (cmd_match c)"
      by (auto simp: find_Some_iff)
    then show "c \<in> set cmds \<and> cmd_match c = first_word line"
      using set words starts_with_command_iff by metis
  next
    assume c: "c \<in> set cmds \<and> cmd_match c = first_word line"
    then have "StringStartsWithCommand line (cmd_match c)" using starts_with_command_iff [OF words] by metis
    then have "find (\<lambda>it. StringStartsWithCommand line (cmd_match it)) ?cmds \<noteq> None"
      using c set by (auto simp: find_None_iff)
    then obtain d where d: "find (\<lambda>it. StringStartsWithCommand line (cmd_match it)) ?cmds = Some d" by blast
    then have "d \<in> set ?cmds" "StringStartsWithCommand line (cmd_match d)" by (auto simp: find_Some_iff)
    then have "d \<in> set cmds" "cmd_match d = first_word line" using set words starts_with_command_iff by metis+
    then show "find (\<lambda>it. StringStartsWithCommand line (cmd_match it)) ?cmds = Some c" using d c unique by metis
  qed
  show ?thesis using line found by (simp add: Commands_match_def)
qed

lemma help_prefix:
  "length cmds < 2 ^ 31 \<Longrightarrow> n \<le> numPages cmds \<Longrightarrow>
   concat (map (\<lambda>p. snd (Commands_printHelp cmds p)) [0..<n]) = take (n * 9) cmds"
proof (induction n)
  case (Suc n)
  have "numPages cmds * 9 \<le> length cmds + 8"
    using Suc.prems(1) by (simp add: numPages_def commandsPerPage_def)
  then have "(n + 1) * 9 < 2 ^ 32" using Suc.prems by simp
  then have page: "snd (Commands_printHelp cmds n) = take 9 (drop (n * 9) cmds)"
    by (intro nth_equalityI) (auto simp: Commands_printHelp_def commandsPerPage_def less_diff_conv add.commute)
  show ?case
    using Suc page by (simp add: take_add add.commute [of 9])
qed simp

lemma help_shows_all:
  assumes few: "length cmds < 2 ^ 31"
  shows "concat (map (\<lambda>p. snd (cmd_help cmds (Some (int p + 1)))) [0..<numPages cmds]) = cmds \<and>
   (\<forall>p. length (snd (Commands_printHelp cmds p)) \<le> 9) \<and> cmd_help cmds (Some (min n 1)) = cmd_help cmds None"
proof (intro conjI allI)
  have "length cmds \<le> numPages cmds * 9" using few by (simp add: numPages_def commandsPerPage_def)
  then show "concat (map (\<lambda>p. snd (cmd_help cmds (Some (int p + 1)))) [0..<numPages cmds]) = cmds"
    using help_prefix [OF few, of "numPages cmds"] by (simp add: cmd_help_def)
  show "length (snd (Commands_printHelp cmds p)) \<le> 9" for p
  proof -
    have "(p * 9 + 9) mod 2 ^ 32 - p * 9 mod 2 ^ 32 \<le> (9 :: nat)" by (simp add: mod_add_eq [symmetric, of "p * 9"])
    then show ?thesis by (simp add: Commands_printHelp_def commandsPerPage_def add.commute [of 9])
  qed
  show "cmd_help cmds (Some (min n 1)) = cmd_help cmds None"
    by (simp add: cmd_help_def)
qed

section \<open>Example\<close>

definition ex_commands :: "nat Command list" where
  "ex_commands = [\<lparr>cmd_match = [0x2f, 0x73], cmd_desc = [], cmd_onBegin = Some 1\<rparr>,
     \<lparr>cmd_match = [0x2f, 0x68], cmd_desc = [], cmd_onBegin = Some 2\<rparr>]"

lemma command_by_first_word_witness:
  "Commands_match (Commands_init ex_commands) [0x2f, 0x68, 0x20, 0x31] = Some (Some (ex_commands ! 1))"
proof -
  have "distinct (map cmd_match ex_commands)" "\<And>c. c \<in> set ex_commands \<Longrightarrow> SPACE \<notin> set (cmd_match c)"
    by (auto simp: ex_commands_def SPACE_def)
  moreover have "first_word [0x2f, 0x68, 0x20, 0x31] = [0x2f, 0x68]" by code_simp
  ultimately show ?thesis
    using command_by_first_word [of ex_commands "[0x2f, 0x68, 0x20, 0x31]"] by (force simp: ex_commands_def)
qed

lemma help_shows_all_witness:
  "snd (cmd_help ex_commands (Some 1)) = ex_commands"
proof -
  have "length ex_commands < 2 ^ 31" "numPages ex_commands = 1" by (simp_all add: ex_commands_def numPages_def commandsPerPage_def)
  then show ?thesis using help_shows_all [of ex_commands] by simp
qed

end
