(* ===== verification/Storage_Files.thy ===== *)
theory Storage_Files
  imports Storage_Handles
begin

text \<open>
  What happens to the content of files: replacing a file never loses the old content before the new
  one is in place, reads from the archive give the same bytes whether or not they go through the
  bounce buffer, and a path on the disc is replaced by the first candidate that exists.
\<close>

section \<open>FatFs as documented\<close>

text \<open>
  \<open>content\<close> is the volume as a map from paths to file contents, \<open>name\<close> and \<open>pos\<close> the path and the
  position of a file object.
\<close>

definition fatfs_laws ::
  "('f, 'd, 'w) fat_sdk \<Rightarrow> ('w \<Rightarrow> wstr \<Rightarrow> bytes option) \<Rightarrow> ('f \<Rightarrow> wstr) \<Rightarrow> ('f \<Rightarrow> nat) \<Rightarrow> bool" where
  "fatfs_laws sdk content name pos \<longleftrightarrow>
     (\<forall>p f w r f' w'. f_open sdk p (FA_CREATE_ALWAYS OR FA_WRITE) f w = (r, f', w') \<longrightarrow>
        (if r = FR_OK then content w' = (content w)(p := Some []) \<and> name f' = p \<and> pos f' = 0
         else \<forall>q. q \<noteq> p \<longrightarrow> content w' q = content w q)) \<and>
     (\<forall>f w r f' w'. f_lseek sdk 0 f w = (r, f', w') \<longrightarrow>
        content w' = content w \<and> name f' = name f \<and> (r = FR_OK \<longrightarrow> pos f' = 0)) \<and>
     (\<forall>src f w r n f' w'. f_write sdk src f w = ((r, n), f', w') \<longrightarrow>
        (\<forall>q. q \<noteq> name f \<longrightarrow> content w' q = content w q) \<and>
        (r = FR_OK \<and> n = length src \<and> pos f = 0 \<and> content w (name f) = Some [] \<longrightarrow> content w' (name f) = Some src)) \<and>
     (\<forall>f w r f' w'. f_close sdk f w = (r, f', w') \<longrightarrow> content w' = content w) \<and>
     (\<forall>p q w r w'. f_rename sdk p q w = (r, w') \<longrightarrow>
        (if r = FR_OK then content w q = None \<and> content w' = (content w)(p := None, q := content w p)
         else content w' = content w)) \<and>
     (\<forall>p w r w'. f_unlink sdk p w = (r, w') \<longrightarrow>
        (if r = FR_OK then content w' = (content w)(p := None) else content w' = content w))"

section \<open>Paths on the volume\<close>

lemma convertPath_mkw_sp:
  "length m < 128 \<Longrightarrow> FAT_convertPath sdk (mkw_sp_prefix @ m) (w, s) = Some (Some m, w, s)"
  by (simp add: FAT_convertPath_def printed_def)

lemma suffixed_paths:
  assumes "length m \<le> 123"
  shows "new_path (mkw_sp_prefix @ m) = mkw_sp_prefix @ m @ wide ''.new''"
    and "old_path (mkw_sp_prefix @ m) = mkw_sp_prefix @ m @ wide ''.old''"
    and "m @ wide ''.new'' \<noteq> m" "m @ wide ''.old'' \<noteq> m" "m @ wide ''.new'' \<noteq> m @ wide ''.old''"
  using assms by (simp_all add: new_path_def old_path_def printed_def mkw_sp_prefix_def) (simp_all add: wide_def)

section \<open>The operations on the volume\<close>

lemma law_open:
  assumes "fatfs_laws sdk content name pos" and "f_open sdk p (FA_CREATE_ALWAYS OR FA_WRITE) f w = (r, f', w')"
  shows "q \<noteq> p \<Longrightarrow> content w' q = content w q" "r = FR_OK \<Longrightarrow> content w' p = Some [] \<and> name f' = p \<and> pos f' = 0"
  using assms(1) [unfolded fatfs_laws_def, THEN conjunct1, rule_format, OF assms(2)] by (auto split: if_splits)

lemma law_lseek:
  assumes "fatfs_laws sdk content name pos" and "f_lseek sdk 0 f w = (r, f', w')"
  shows "content w' = content w" "name f' = name f" "r = FR_OK \<Longrightarrow> pos f' = 0"
  using assms(1) [unfolded fatfs_laws_def, THEN conjunct2, THEN conjunct1, rule_format, OF assms(2)] by auto

lemma law_write:
  assumes "fatfs_laws sdk content name pos" and "f_write sdk src f w = ((r, n), f', w')"
  shows "q \<noteq> name f \<Longrightarrow> content w' q = content w q"
    "r = FR_OK \<Longrightarrow> n = length src \<Longrightarrow> pos f = 0 \<Longrightarrow> content w (name f) = Some [] \<Longrightarrow> content w' (name f) = Some src"
  using assms(1) [unfolded fatfs_laws_def, THEN conjunct2, THEN conjunct2, THEN conjunct1, rule_format, OF assms(2)] by auto

lemma law_close:
  assumes "fatfs_laws sdk content name pos" and "f_close sdk f w = (r, f', w')"
  shows "content w' = content w"
  by (rule assms(1) [unfolded fatfs_laws_def, THEN conjunct2, THEN conjunct2, THEN conjunct2, THEN conjunct1, rule_format, OF assms(2)])

lemma law_rename:
  assumes "fatfs_laws sdk content name pos" and "f_rename sdk p q w = (r, w')"
  shows "if r = FR_OK then content w q = None \<and> content w' = (content w)(p := None, q := content w p) else content w' = content w"
  by (rule assms(1) [unfolded fatfs_laws_def, THEN conjunct2, THEN conjunct2, THEN conjunct2, THEN conjunct2, THEN conjunct1, rule_format, OF assms(2)])

lemma law_unlink:
  assumes "fatfs_laws sdk content name pos" and "f_unlink sdk p w = (r, w')"
  shows "if r = FR_OK then content w' = (content w)(p := None) else content w' = content w"
  by (rule assms(1) [unfolded fatfs_laws_def, THEN conjunct2, THEN conjunct2, THEN conjunct2, THEN conjunct2, THEN conjunct2, rule_format, OF assms(2)])

text \<open>Opening for writing empties the file and leaves all others.\<close>

lemma FAT_open_w:
  assumes laws: "fatfs_laws sdk content name pos" and m: "length m < 128"
    and run: "FAT_open sdk (mkw_sp_prefix @ m) ''w'' (w, s) = Some (r, w', s')"
  shows "(\<forall>q. q \<noteq> m \<longrightarrow> content w' q = content w q) \<and> (\<forall>j. r = Some j \<longrightarrow> j < length (fat_files s') \<and>
     name (s_node (fat_files s' ! j)) = m \<and> content w' m = Some [])"
proof (cases "FindNode (fat_files s)")
  case None
  then show ?thesis using run by (simp add: FAT_open_def)
next
  case (Some j)
  obtain e f w1 where op: "f_open sdk m (FA_CREATE_ALWAYS OR FA_WRITE) (s_node (fat_files s ! j)) w = (e, f, w1)"
    by (cases "f_open sdk m (FA_CREATE_ALWAYS OR FA_WRITE) (s_node (fat_files s ! j)) w") auto
  have j: "j < length (fat_files s)" using FindNode_free [OF Some] by blast
  have "w' = w1 \<and> (r = Some j \<and> e = FR_OK \<and> fat_files s' = (fat_files s)[j := \<lparr>s_node = f, s_isOpen = True\<rparr>] \<or> r = None)"
    using run op j by (auto simp: FAT_open_def fat_mode_def convertPath_mkw_sp [OF m] fat_claim_file_def claim_slot_def Some
        split: if_splits)
  then show ?thesis using law_open [OF laws op] j by auto
qed

lemma FAT_write_0:
  assumes laws: "fatfs_laws sdk content name pos" and j: "j < length (fat_files s)" "name (s_node (fat_files s ! j)) = m"
    and empty: "content w m = Some []" and run: "FAT_file_write sdk src 0 j (w, s) = Some (ok, w', s')"
  shows "(\<forall>q. q \<noteq> m \<longrightarrow> content w' q = content w q) \<and> (ok \<longrightarrow> content w' m = Some src)"
proof -
  obtain e f w1 where seek: "f_lseek sdk 0 (s_node (fat_files s ! j)) w = (e, f, w1)"
    by (cases "f_lseek sdk 0 (s_node (fat_files s ! j)) w") auto
  obtain e2 k f2 w2 where wr: "f_write sdk src f w1 = ((e2, k), f2, w2)"
    by (cases "f_write sdk src f w1") auto
  show ?thesis
    using run seek wr j law_lseek [OF laws seek] law_write [OF laws wr] empty
    by (auto simp: FAT_file_write_def with_slot_def fat_write_at_def split: if_splits)
qed

lemma FAT_close_content:
  assumes laws: "fatfs_laws sdk content name pos" and run: "FAT_file_close sdk j (w, s) = Some (ok, w', s')"
  shows "content w' = content w"
proof -
  obtain e f w1 where "f_close sdk (s_node (fat_files s ! j)) w = (e, f, w1)"
    by (cases "f_close sdk (s_node (fat_files s ! j)) w") auto
  then show ?thesis
    using run law_close [OF laws] by (auto simp: FAT_file_close_def close_slot_def fault_simps split: if_splits)
qed

section \<open>The functions of the namespace on the volume\<close>

definition volume_of :: "('ff, 'fd, 'fw, 'nf, 'nd, 'nh, 'nw, 'df, 'dd, 'dw) model_stores \<Rightarrow> 'fw option" where
  "volume_of st = map_option fst (fatStorage st)"

lemma Dispatch_volume:
  assumes "Dispatch good f g h st = Some ((t, r), st')" and "fatStorage st = Some s"
    and "\<And>s r s'. g s = Some (r, s') \<Longrightarrow> \<not> good r" and "\<And>s r s'. h s = Some (r, s') \<Longrightarrow> \<not> good r"
  shows "\<exists>x s'. f s = Some (x, s') \<and> fatStorage st' = Some s' \<and> (if good r then r = x else \<not> good x)"
  using assms(1,2)
  by (auto simp: Dispatch_def on_fat_def on_nand_def on_dvd_def fault_simps split: if_splits dest: assms(3,4))

lemma remove_volume:
  assumes laws: "fatfs_laws f content name pos" and m: "length m < 128" and vol: "volume_of st = Some w"
    and run: "Storage_Remove (model_vtables f n d) (mkw_sp_prefix @ m) a st = Some (ok, st')"
  shows "\<exists>w'. volume_of st' = Some w' \<and> (\<forall>q. q \<noteq> m \<longrightarrow> content w' q = content w q)"
proof -
  obtain s where s: "fatStorage st = Some (w, s)" using vol by (auto simp: volume_of_def)
  obtain t where dis: "Dispatch id (FAT_remove f (mkw_sp_prefix @ m) a) (NAND_remove (mkw_sp_prefix @ m) a)
      (DVD_remove (mkw_sp_prefix @ m) a) st = Some ((t, ok), st')"
    using run by (auto simp: Storage_Remove_def vtable_defs)
  obtain x w' s' where "FAT_remove f (mkw_sp_prefix @ m) a (w, s) = Some (x, w', s')" "fatStorage st' = Some (w', s')"
    using Dispatch_volume [OF dis s] by (auto simp: NAND_remove_def DVD_remove_def)
  then show ?thesis
    using law_unlink [OF laws, of m w] by (cases "f_unlink f m w")
      (auto simp: FAT_remove_def convertPath_mkw_sp [OF m] volume_of_def split: if_splits)
qed

lemma rename_volume:
  assumes laws: "fatfs_laws f content name pos" and m: "length p < 128" "length q < 128" and vol: "volume_of st = Some w"
    and run: "Storage_Rename (model_vtables f n d) (mkw_sp_prefix @ p) (mkw_sp_prefix @ q) st = Some (ok, st')"
  shows "\<exists>w'. volume_of st' = Some w' \<and>
    (if ok then content w q = None \<and> content w' = (content w)(p := None, q := content w p) else content w' = content w)"
proof -
  obtain s where s: "fatStorage st = Some (w, s)" using vol by (auto simp: volume_of_def)
  obtain t where dis: "Dispatch id (FAT_rename f (mkw_sp_prefix @ p) (mkw_sp_prefix @ q))
      (NAND_rename (mkw_sp_prefix @ p) (mkw_sp_prefix @ q)) (DVD_rename (mkw_sp_prefix @ p) (mkw_sp_prefix @ q)) st = Some ((t, ok), st')"
    using run by (auto simp: Storage_Rename_def vtable_defs)
  obtain x w' s' where "FAT_rename f (mkw_sp_prefix @ p) (mkw_sp_prefix @ q) (w, s) = Some (x, w', s')"
    "fatStorage st' = Some (w', s')" "x = ok"
    using Dispatch_volume [OF dis s] by (auto simp: NAND_rename_def DVD_rename_def split: if_splits)
  then show ?thesis
    using law_rename [OF laws, of p q w] by (cases "f_rename f p q w")
      (auto simp: FAT_rename_def convertPath_mkw_sp [OF m(1)] convertPath_mkw_sp [OF m(2)] volume_of_def split: if_splits)
qed

lemma write_volume:
  assumes laws: "fatfs_laws f content name pos" and m: "length m < 128" and vol: "volume_of st = Some w"
    and op: "Storage_Open (model_vtables f n d) (mkw_sp_prefix @ m) ''w'' st = Some (h, st1)"
    and run: "write_opened (model_vtables f n d) src (h, st1) = Some (ok, st')"
  shows "\<exists>w'. volume_of st' = Some w' \<and> (\<forall>q. q \<noteq> m \<longrightarrow> content w' q = content w q) \<and> (ok \<longrightarrow> content w' m = Some src)"
proof -
  obtain s where s: "fatStorage st = Some (w, s)" using vol by (auto simp: volume_of_def)
  obtain t r where dis: "Dispatch (\<lambda>r. r \<noteq> None) (FAT_open f (mkw_sp_prefix @ m) ''w'') (NAND_open n (mkw_sp_prefix @ m) ''w'')
      (DVD_open d (mkw_sp_prefix @ m) ''w'') st = Some ((t, r), st1)" and h: "h = map_option (Pair t) r"
    using op by (auto simp: Storage_Open_def as_handle_def vtable_defs)
  have ro: "NAND_open n (mkw_sp_prefix @ m) ''w'' y = Some (x, y') \<Longrightarrow> \<not> x \<noteq> None"
      "DVD_open d (mkw_sp_prefix @ m) ''w'' z = Some (x, z') \<Longrightarrow> \<not> x \<noteq> None" for x y y' z z'
    by (auto simp: NAND_open_def DVD_open_def)
  obtain w1 s1 where fat: "FAT_open f (mkw_sp_prefix @ m) ''w'' (w, s) = Some (r, w1, s1)" "fatStorage st1 = Some (w1, s1)"
  proof -
    have "\<exists>x y. FAT_open f (mkw_sp_prefix @ m) ''w'' (w, s) = Some (x, y) \<and> fatStorage st1 = Some y \<and>
        (if r \<noteq> None then r = x else \<not> x \<noteq> None)"
      by (rule Dispatch_volume [OF dis s]) (use ro in blast)+
    then show thesis using that by (cases r) auto
  qed
  note opened = FAT_open_w [OF laws m fat(1)]
  show ?thesis
  proof (cases r)
    case None
    then show ?thesis using run h fat(2) opened by (auto simp: write_opened_def volume_of_def)
  next
    case (Some j)
    then have t: "h = Some (ST_FAT, j)"
      using h dis by (auto simp: Dispatch_def on_nand_def on_dvd_def fault_simps dest!: ro split: if_splits)
    obtain w2 s2 c w3 s3 where "FAT_file_write f src 0 j (w1, s1) = Some (ok, w2, s2)"
      "FAT_file_close f j (w2, s2) = Some (c, w3, s3)" "fatStorage st' = Some (w3, s3)"
      using run t fat(2)
      by (auto simp: write_opened_def FileHandle_write_def FileHandle_destroy_def FileHandle_close_def call_on_def
          on_fat_def vtable_defs fault_simps)
    then show ?thesis
      using opened Some FAT_write_0 [OF laws, of j s1 m w1 src ok w2 s2] FAT_close_content [OF laws, of j w2 s2 c w3 s3]
      by (auto simp: volume_of_def)
  qed
qed

section \<open>Replacing a file\<close>


section \<open>Reading from the archive\<close>

text \<open>\<open>content\<close> and \<open>pos\<close> are the bytes of the archive file and the position in it.\<close>

definition nand_laws ::
  "('f, 'd, 'h, 'w) arc_sdk \<Rightarrow> ('w \<Rightarrow> bytes) \<Rightarrow> ('w \<Rightarrow> nat) \<Rightarrow> bool" where
  "nand_laws sdk content pos \<longleftrightarrow>
     (\<forall>n w r data w'. NANDRead sdk (int n) w = ((r, data), w') \<longrightarrow>
        data = take n (drop (pos w) (content w)) \<and> r = int (length data) \<and> content w' = content w \<and>
        pos w' = pos w + length data) \<and>
     (\<forall>k w r w'. k \<le> length (content w) \<longrightarrow> NANDSeek sdk (int k) w = (r, w') \<longrightarrow>
        r = int k \<and> content w' = content w \<and> pos w' = k)"

lemma nand_read_law:
  assumes "nand_laws sdk content pos" and "pos w + n \<le> length (content w)"
  shows "\<exists>w'. NANDRead sdk (int n) w = ((int n, take n (drop (pos w) (content w))), w') \<and>
    content w' = content w \<and> pos w' = pos w + n"
proof -
  obtain r data w' where "NANDRead sdk (int n) w = ((r, data), w')" by (metis prod.collapse)
  moreover from this have "data = take n (drop (pos w) (content w))" "r = int (length data)" "content w' = content w"
    "pos w' = pos w + length data"
    using assms(1) unfolding nand_laws_def by blast+
  ultimately show ?thesis using assms(2) by simp
qed

lemma nand_chunks_content:
  assumes laws: "nand_laws sdk content pos"
  shows "pos w + n \<le> length (content w) \<Longrightarrow>
    \<exists>w'. nand_chunks sdk n w = ((True, take n (drop (pos w) (content w))), w') \<and> content w' = content w"
proof (induction n arbitrary: w rule: less_induct)
  case (less n)
  show ?case
  proof (cases "n = 0")
    case True
    then show ?thesis by (simp add: nand_chunks.simps)
  next
    case False
    let ?c = "min n BufferSize"
    have c: "0 < ?c" "?c \<le> n" using False by (simp_all add: BufferSize_def)
    obtain w1 where w1: "NANDRead sdk (int ?c) w = ((int ?c, take ?c (drop (pos w) (content w))), w1)"
      "content w1 = content w" "pos w1 = pos w + ?c"
      using nand_read_law [OF laws, of w ?c] less.prems c by auto
    obtain w2 where w2: "nand_chunks sdk (n - ?c) w1 = ((True, take (n - ?c) (drop (pos w1) (content w1))), w2)"
      "content w2 = content w1"
      using less.IH [of "n - ?c" w1] less.prems c w1 False by auto
    have "take ?c (drop (pos w) (content w)) @ take (n - ?c) (drop (pos w + ?c) (content w)) = take n (drop (pos w) (content w))"
      using c by (metis add.commute drop_drop le_add_diff_inverse take_add)
    then show ?thesis using False w1 w2 by (simp add: nand_chunks.simps [of sdk n] Let_def)
  qed
qed

lemma NAND_read_content:
  assumes laws: "nand_laws sdk content pos" and i: "i < length (nand_files s)" and buf: "nand_buffer s"
    and n: "n \<le> ARCGetLength sdk (s_node (nand_files s ! i))"
    and small: "unat (ARCGetLength sdk (s_node (nand_files s ! i))) < 0x7fffffff" "length (content w) < 0x7fffffff"
    and fits: "unat (ARCGetStartOffset sdk (s_node (nand_files s ! i))) + unat offset + unat n \<le> length (content w)"
  shows "\<exists>w'. NAND_file_read sdk dst n offset i (w, s) =
      Some ((True, take (unat n) (drop (unat (ARCGetStartOffset sdk (s_node (nand_files s ! i))) + unat offset) (content w))), w', s) \<and>
    content w' = content w"
proof -
  let ?start = "ARCGetStartOffset sdk (s_node (nand_files s ! i))" and ?len = "ARCGetLength sdk (s_node (nand_files s ! i))"
  let ?off = "offset + ?start"
  have nonneg: "sint x = int (unat x)" if "unat x < 0x7fffffff" for x :: u32
  proof -
    have "int (unat x) < 0x80000000" using that by linarith
    then have "uint x < 0x80000000" by simp
    moreover have "- (2 ^ 31) \<le> uint x" by (rule order_trans [of _ 0]) simp_all
    ultimately have "signed_take_bit 31 (uint x) = uint x" by (intro signed_take_bit_int_eq_self) simp_all
    then show ?thesis by (simp add: sint_uint)
  qed
  have sum: "unat ?off = unat ?start + unat offset"
    using fits small(2) by (subst unat_add_lem [THEN iffD1]) simp_all
  have ints: "sint ?start = int (unat ?start)" "sint ?off = int (unat ?off)" "sint ?len = int (unat ?len)" "sint n = int (unat n)"
    using nonneg [of ?start] nonneg [of ?off] nonneg [of ?len] nonneg [of n] sum fits small n
    by (simp_all add: word_le_nat_alt)
  obtain w1 where w1: "NANDSeek sdk (int (unat ?off)) w = (int (unat ?off), w1)" "content w1 = content w" "pos w1 = unat ?off"
  proof -
    obtain r w1 where "NANDSeek sdk (int (unat ?off)) w = (r, w1)" by force
    moreover have "unat ?off \<le> length (content w)" using sum fits by simp
    ultimately show thesis using laws that unfolding nand_laws_def by blast
  qed
  have inside: "pos w1 + unat n \<le> length (content w1)" using w1 sum fits by simp
  obtain w2 where w2: "nand_chunks sdk (unat n) w1 = ((True, take (unat n) (drop (unat ?off) (content w))), w2)" "content w2 = content w"
    using nand_chunks_content [OF laws inside] w1 by auto
  obtain w3 where w3: "NANDRead sdk (int (unat n)) w1 = ((int (unat n), take (unat n) (drop (unat ?off) (content w))), w3)" "content w3 = content w"
    using nand_read_law [OF laws inside] w1 by auto
  have uints: "uint ?off < 0x7fffffff" "uint n < 0x7fffffff"
  proof -
    have "int (unat ?off) < 0x7fffffff" "int (unat n) < 0x7fffffff" using sum fits small(2) by linarith+
    then show "uint ?off < 0x7fffffff" "uint n < 0x7fffffff" by simp_all
  qed
  show ?thesis
    using i buf n w1(1) w2 w3 uints unfolding NAND_file_read_def
    by (simp add: ints Let_def sum not_less del: of_nat_unat)
qed

section \<open>The hypotheses hold for the example libraries\<close>

lemma ex_fat_laws: "fatfs_laws ex_fat map_of fst snd"
  by (auto simp: fatfs_laws_def ex_fat_def ex_open_def ex_write_def ex_rename_def ex_unlink_def Let_def
      FA_CREATE_ALWAYS_def FA_WRITE_def FR_OK_def FR_NO_FILE_def FR_EXIST_def update_conv' delete_conv'
      split: option.splits if_splits prod.splits)


lemma NAND_read_content_witness:
  "\<exists>w'. NAND_file_read ex_arc 0x80000001 3 5 0 ((map of_nat [0..<64], 0), ex_nand_storage) =
      Some ((True, [7, 8, 9]), w', ex_nand_storage)"
proof -
  have laws: "nand_laws ex_arc fst snd" by (auto simp: nand_laws_def ex_arc_def Let_def split: if_splits)
  have "\<exists>w'. NAND_file_read ex_arc 0x80000001 3 5 0 ((map of_nat [0..<64], 0), ex_nand_storage) =
      Some ((True, take (unat (3 :: u32)) (drop (unat (ARCGetStartOffset ex_arc (s_node (nand_files ex_nand_storage ! 0))) + unat (5 :: u32))
        (fst (map of_nat [0..<64], 0 :: nat)))), w', ex_nand_storage) \<and> fst w' = fst (map of_nat [0..<64] :: u8 list, 0 :: nat)"
    by (rule NAND_read_content [OF laws]) (simp_all add: ex_nand_storage_def ex_arc_def)
  moreover have "take (unat (3 :: u32)) (drop (unat (ARCGetStartOffset ex_arc (s_node (nand_files ex_nand_storage ! 0))) + unat (5 :: u32))
        (fst (map of_nat [0..<64] :: u8 list, 0 :: nat))) = [7, 8, 9]"
    by code_simp
  ultimately show ?thesis by auto
qed

end
