(* ===== verification/Storage_Paths.thy ===== *)
theory Storage_Paths
  imports Storage_Handles
begin

text \<open>
  Which file a path of the disc stands for, how many replacement directories there can be, and what
  \<open>Init\<close> leaves behind when one of the storages is not there.
\<close>

section \<open>The replacement of a file\<close>

text \<open>The names tried for a path of the disc, the last directory first.\<close>

definition candidates :: "wstr list \<Rightarrow> wstr \<Rightarrow> wstr list" where
  "candidates prefixes path = concat (map (\<lambda>prefix.
     [printed 128 (prefix @ wide ''/'' @ drop (length ro_prefix) path), printed 128 (prefix @ wide ''/'' @ bare_name path)])
     (rev prefixes))"

definition on_volume :: "('f, 'd, 'w) fat_sdk \<Rightarrow> 'w \<Rightarrow> wstr \<Rightarrow> bool" where
  "on_volume sdk w p \<longleftrightarrow> fst (fst (f_stat sdk p w)) = FR_OK"

lemma find_replacement_find:
  assumes pure: "\<And>p. snd (f_stat sdk p w) = w" and slash: "of_char (CHR ''/'') \<in> set path"
  shows "n \<le> length ps \<Longrightarrow> find_replacement sdk ps path n w = Some (find (on_volume sdk w) (candidates (take n ps) path), w)"
proof (induction n)
  case (Suc i)
  have "candidates (take (Suc i) ps) path =
      [printed 128 (ps ! i @ wide ''/'' @ drop (length ro_prefix) path), printed 128 (ps ! i @ wide ''/'' @ bare_name path)] @
      candidates (take i ps) path"
    using Suc.prems by (simp add: candidates_def take_Suc_conv_app_nth)
  moreover have stat: "\<exists>r i. f_stat sdk p w = ((r, i), w) \<and> (r = FR_OK \<longleftrightarrow> on_volume sdk w p)" for p
    using pure [of p] by (cases "f_stat sdk p w") (auto simp: on_volume_def)
  moreover obtain r1 i1 where "f_stat sdk (printed 128 (ps ! i @ wide ''/'' @ drop (length ro_prefix) path)) w = ((r1, i1), w)"
    "r1 = FR_OK \<longleftrightarrow> on_volume sdk w (printed 128 (ps ! i @ wide ''/'' @ drop (length ro_prefix) path))"
    using stat by blast
  moreover obtain r2 i2 where "f_stat sdk (printed 128 (ps ! i @ wide ''/'' @ bare_name path)) w = ((r2, i2), w)"
    "r2 = FR_OK \<longleftrightarrow> on_volume sdk w (printed 128 (ps ! i @ wide ''/'' @ bare_name path))"
    using stat by blast
  ultimately show ?case
    using Suc slash by (simp add: Let_def)
qed (simp add: candidates_def)


section \<open>The replacement directories\<close>

definition prefixes_inv :: "('f, 'd) fat_storage \<Rightarrow> bool" where
  "prefixes_inv s \<longleftrightarrow> length (fat_prefixes s) = 32 \<and> fat_prefixCount s \<le> 32"

lemma add_prefix_inv: "prefixes_inv s \<Longrightarrow> add_prefix info s = Some s' \<Longrightarrow> prefixes_inv s'"
  by (auto simp: add_prefix_def prefixes_inv_def wr_def fault_simps split: if_splits)

lemma FAT_dir_read_prefixes:
  "FAT_dir_read sdk i st = Some (r, st') \<Longrightarrow> prefixes_inv (snd st') = prefixes_inv (snd st) \<and> fat_prefixCount (snd st') = fat_prefixCount (snd st)"
  by (auto simp: FAT_dir_read_def prefixes_inv_def fault_simps split: prod.splits)

lemma scan_prefixes_inv:
  assumes "scan_prefixes sdk dir st = Some st'"
  shows "prefixes_inv (snd st) \<longrightarrow> prefixes_inv (snd st')"
proof (rule scan_prefixes.raw_induct [OF _ assms])
  fix rec sdk dir st st'
  assume IH: "\<And>sdk dir st st'. rec sdk dir st = Some st' \<Longrightarrow> prefixes_inv (snd st) \<longrightarrow> prefixes_inv (snd st')"
    and run: "do {
      (info, st') \<leftarrow> FAT_dir_read sdk dir st;
      case info of None \<Rightarrow> Some st'
      | Some n \<Rightarrow> do { s \<leftarrow> add_prefix n (snd st'); rec sdk dir (fst st', s) }
    } = Some st'"
  show "prefixes_inv (snd st) \<longrightarrow> prefixes_inv (snd st')"
  proof
    assume inv: "prefixes_inv (snd st)"
    obtain info st1 where rd: "FAT_dir_read sdk dir st = Some (info, st1)"
      and rest: "(case info of None \<Rightarrow> Some st1 | Some n \<Rightarrow> do { s \<leftarrow> add_prefix n (snd st1); rec sdk dir (fst st1, s) }) = Some st'"
      using run by (auto simp: fault_simps)
    have "prefixes_inv (snd st1)" using FAT_dir_read_prefixes [OF rd] inv by simp
    show "prefixes_inv (snd st')"
    proof (cases info)
      case None
      then show ?thesis using rest \<open>prefixes_inv (snd st1)\<close> by simp
    next
      case (Some n)
      then obtain s where s: "add_prefix n (snd st1) = Some s" and r: "rec sdk dir (fst st1, s) = Some st'"
        using rest by (auto simp: fault_simps)
      have "prefixes_inv s" using add_prefix_inv [OF \<open>prefixes_inv (snd st1)\<close> s] .
      then show ?thesis using IH [OF r] by simp
    qed
  qed
qed

lemma fat_openDir_storage:
  "FAT_openDir sdk path st = Some (r, st') \<Longrightarrow> prefixes_inv (snd st') = prefixes_inv (snd st)"
  by (auto simp: FAT_openDir_def fat_claim_dir_def prefixes_inv_def fault_simps dest!: FAT_convertPath_frame
      split: prod.splits if_splits option.splits)

lemma fat_createDir_storage:
  assumes "FAT_createDir sdk path a st = Some (r, st')"
  shows "prefixes_inv (snd st') = prefixes_inv (snd st)"
proof -
  obtain p w s where p: "FAT_convertPath sdk path st = Some (Some p, w, s)"
    using assms by (auto simp: FAT_createDir_def fault_simps)
  then have "s = snd st" using FAT_convertPath_frame [OF p] by simp
  then show ?thesis using assms p by (cases "f_mkdir sdk p w") (auto simp: FAT_createDir_def)
qed

lemma fat_dir_close_storage:
  "FAT_dir_close sdk i st = Some (r, st') \<Longrightarrow> prefixes_inv (snd st') = prefixes_inv (snd st)"
  by (auto simp: FAT_dir_close_def prefixes_inv_def fault_simps split: prod.splits)

lemma scan_and_close_inv:
  assumes "do {
      st \<leftarrow> scan_prefixes sdk d st0;
      st \<leftarrow> (if fat_prefixCount (snd st) = 0
         then map_option snd (FAT_createDir sdk (wide ''/mkw-sp/My Stuff'') True st) else Some st);
      (closed, w, s) \<leftarrow> FAT_dir_close sdk d (fst st, (snd st)\<lparr>fat_ok := True\<rparr>);
      Some (w, s)
    } = Some (w', s')" and inv: "prefixes_inv (snd st0)"
  shows "prefixes_inv s'"
proof -
  obtain st1 st2 c where "scan_prefixes sdk d st0 = Some st1"
    "(if fat_prefixCount (snd st1) = 0
         then map_option snd (FAT_createDir sdk (wide ''/mkw-sp/My Stuff'') True st1) else Some st1) = Some st2"
    "FAT_dir_close sdk d (fst st2, (snd st2)\<lparr>fat_ok := True\<rparr>) = Some (c, w', s')"
    using assms(1) by (auto simp: fault_simps)
  moreover from this have "prefixes_inv (snd st2) = prefixes_inv (snd st1)"
    by (auto dest: fat_createDir_storage split: if_splits)
  ultimately show ?thesis
    using inv scan_prefixes_inv [of sdk d st0 st1] fat_dir_close_storage [of sdk d _ c "(w', s')"] by (auto simp: prefixes_inv_def)
qed

lemma try_devices_inv:
  "fat_try_devices sdk inits k (w, s) = Some (w', s') \<Longrightarrow> prefixes_inv s \<Longrightarrow> prefixes_inv s'"
proof (induction inits arbitrary: k w s)
  case (Cons init inits)
  obtain up w1 where i: "init w = (up, w1)" by force
  obtain r2 w2 where m: "f_mount sdk w1 = (r2, w2)" by force
  obtain r3 w3 where d: "f_mkdir sdk mkw_sp_dir w2 = (r3, w3)" by force
  obtain r4 w4 where c: "f_chdir sdk mkw_sp_dir w3 = (r4, w4)" by force
  let ?s = "s\<lparr>fat_s_storage := Some k\<rparr>"
  have s: "prefixes_inv ?s" using Cons.prems(2) by (simp add: prefixes_inv_def)
  show ?case
  proof (cases "up \<and> r2 = FR_OK \<and> (r3 = FR_OK \<or> r3 = FR_EXIST) \<and> r4 = FR_OK")
    case False
    then show ?thesis
      using Cons.prems Cons.IH [of "k + 1"] s i m d c by (auto simp: Let_def split: if_splits)
  next
    case True
    obtain dir st5 where dir: "FAT_openDir sdk mkw_sp_dir (w4, ?s) = Some (dir, st5)"
      using Cons.prems True i m d c by (auto simp: Let_def fault_simps)
    have st5: "prefixes_inv (snd st5)" using fat_openDir_storage [OF dir] s by simp
    show ?thesis
    proof (cases dir)
      case None
      then show ?thesis
        using Cons.prems Cons.IH [of "k + 1" "fst st5" "snd st5"] True i m d c dir st5 by (auto simp: Let_def)
    next
      case (Some x)
      then show ?thesis
        using Cons.prems(1) True i m d c dir by (intro scan_and_close_inv [OF _ st5]) (auto simp: Let_def)
    qed
  qed
qed simp

lemma replacement_directories_bounded:
  "(FATStorage_new sdk fs ds s_storage w = Some (w', s') \<longrightarrow>
      length (fat_prefixes s') = 32 \<and> fat_prefixCount s' \<le> 32) \<and>
   (length (fat_prefixes s) = 32 \<and> fat_prefixCount s \<le> 32 \<longrightarrow>
      (add_prefix info s = None \<longleftrightarrow> fat_prefixCount s = 32 \<and> ni_type info = NT_Dir \<and> length (ni_name info) < 32 \<and>
         starts_with my_stuff (ni_name info)))"
proof (intro conjI impI)
  assume "FATStorage_new sdk fs ds s_storage w = Some (w', s')"
  then have "prefixes_inv s'"
    using try_devices_inv by (fastforce simp: FATStorage_new_def prefixes_inv_def Let_def split: if_splits)
  then show "length (fat_prefixes s') = 32" "fat_prefixCount s' \<le> 32" by (simp_all add: prefixes_inv_def)
next
  assume "length (fat_prefixes s) = 32 \<and> fat_prefixCount s \<le> 32"
  then show "add_prefix info s = None \<longleftrightarrow> fat_prefixCount s = 32 \<and> ni_type info = NT_Dir \<and> length (ni_name info) < 32 \<and>
         starts_with my_stuff (ni_name info)"
    by (cases "fat_prefixCount s = 32") (auto simp: add_prefix_def wr_def PREFIX_SIZE_def)
qed

section \<open>Initialisation\<close>

text \<open>An archive that is missing is no failure of \<open>Init\<close>, but \<open>Dispatch\<close> still calls it.\<close>

lemma Init_without_archive:
  assumes init: "Storage_Init emplaceFat okFat staticFat emplaceNand okNand st = Some (True, st')"
    and fat: "fatStorage st' = Some s" and nand: "\<And>x. emplaceNand = Some x \<or> nandArchiveStorage st = Some x \<Longrightarrow> \<not> okNand x"
    and open_fat: "FAT_open f path mode s = Some (None, s')"
  shows "nandArchiveStorage st' = None \<and> Storage_Open (model_vtables f n d) path mode st' = None"
proof -
  have "nandArchiveStorage st' = None"
    using init nand by (cases st) (auto simp: Storage_Init_def fault_simps split: option.splits if_splits)
  then show ?thesis
    using fat open_fat by (simp add: Storage_Open_def Dispatch_def on_fat_def on_nand_def vtable_defs)
qed

text \<open>
  Once an attempt has set a device up and failed afterwards, no later \<open>Init\<close> succeeds: the static
  \<open>s_storage\<close> keeps the constructor from trying again.
\<close>

lemma Init_never_retries:
  assumes first: "Storage_Init (\<lambda>d. FATStorage_new sdk fs ds d w) (\<lambda>s. fat_ok (snd s)) (\<lambda>s. fat_s_storage (snd s)) en okn st = Some (False, st')"
    and device: "st_s_storage st' \<noteq> None"
  shows "Storage_Init (\<lambda>d. FATStorage_new sdk' fs' ds' d w') (\<lambda>s. fat_ok (snd s)) (\<lambda>s. fat_s_storage (snd s)) en' okn' st' = Some (False, st')"
proof -
  have "fatStorage st' = None"
    using first by (auto simp: Storage_Init_def fault_simps split: option.splits if_splits)
  then show ?thesis using device by (cases st') (auto simp: Storage_Init_def FATStorage_new_def Let_def)
qed

section \<open>Examples\<close>

definition ex_replaced :: "(wstr \<times> nat, unit) fat_storage" where
  "ex_replaced = ex_fat_storage\<lparr>fat_prefixCount := 2, fat_prefixes := [wide ''My Stuff'', wide ''My Stuff 2''] @ replicate 30 []\<rparr>"


definition ex_my_stuff :: node_info where
  "ex_my_stuff = node_info_zero\<lparr>ni_type := NT_Dir, ni_name := wide ''My Stuff 33''\<rparr>"

lemma replacement_directories_bounded_witness:
  "add_prefix ex_my_stuff (ex_fat_storage\<lparr>fat_prefixCount := 32\<rparr>) = None \<and>
   (\<exists>s. FATStorage_new ex_fat [([], 0)] [()] None [] = Some s \<and> fat_prefixCount (snd s) \<le> 32)"
proof -
  have "ni_type ex_my_stuff = NT_Dir" "length (ni_name ex_my_stuff) < 32" "starts_with my_stuff (ni_name ex_my_stuff)" by code_simp+
  moreover have "length (fat_prefixes (ex_fat_storage\<lparr>fat_prefixCount := 32\<rparr>)) = 32" by (simp add: ex_fat_storage_def)
  ultimately have "add_prefix ex_my_stuff (ex_fat_storage\<lparr>fat_prefixCount := 32\<rparr>) = None"
    using replacement_directories_bounded [THEN conjunct2, of "ex_fat_storage\<lparr>fat_prefixCount := 32\<rparr>" ex_my_stuff] by simp
  moreover have "map_option (\<lambda>_. ()) (FATStorage_new ex_fat [([], 0)] [()] None []) = Some ()" by code_simp
  ultimately show ?thesis using replacement_directories_bounded [THEN conjunct1] by fastforce
qed

definition ex_unset :: "volume \<Rightarrow>
    ((wstr \<times> nat, unit, volume) fat_state, (u32 \<times> u32, unit, unit, bytes \<times> nat) nand_state, (unit, unit, unit) dvd_state) stores" where
  "ex_unset v = (ex_stores v)\<lparr>fatStorage := None, nandArchiveStorage := None, st_s_storage := None\<rparr>"

lemma Init_without_archive_witness:
  "\<exists>st'. Storage_Init (\<lambda>_. Some ([], ex_fat_storage)) (\<lambda>s. fat_ok (snd s)) (\<lambda>s. fat_s_storage (snd s))
      (Some (([], 0), ex_nand_storage\<lparr>nand_ok := False\<rparr>)) (\<lambda>s. nand_ok (snd s)) (ex_unset []) = Some (True, st') \<and>
    Storage_Open (model_vtables ex_fat ex_arc ex_dvd) cfg_path ''r'' st' = None"
proof -
  let ?st = "(ex_stores [])\<lparr>nandArchiveStorage := None\<rparr>"
  have init: "Storage_Init (\<lambda>_. Some ([], ex_fat_storage)) (\<lambda>s. fat_ok (snd s)) (\<lambda>s. fat_s_storage (snd s))
      (Some (([], 0), ex_nand_storage\<lparr>nand_ok := False\<rparr>)) (\<lambda>s. nand_ok (snd s)) (ex_unset []) = Some (True, ?st)"
    by (simp add: Storage_Init_def ex_unset_def ex_stores_def ex_fat_storage_def)
  have "FAT_open ex_fat cfg_path ''r'' ([], ex_fat_storage) = Some (None, [], ex_fat_storage)" by code_simp
  then have "nandArchiveStorage ?st = None \<and> Storage_Open (model_vtables ex_fat ex_arc ex_dvd) cfg_path ''r'' ?st = None"
    by (intro Init_without_archive [OF init]) (auto simp: ex_stores_def ex_unset_def)
  then show ?thesis using init by blast
qed

lemma Init_never_retries_witness:
  "Storage_Init (\<lambda>d. FATStorage_new ex_fat [([], 0)] [()] d []) (\<lambda>s. fat_ok (snd s)) (\<lambda>s. fat_s_storage (snd s))
      (Some (([], 0), ex_nand_storage)) (\<lambda>s. nand_ok (snd s)) ((ex_unset [])\<lparr>st_s_storage := Some 0\<rparr>) =
    Some (False, (ex_unset [])\<lparr>st_s_storage := Some 0\<rparr>)"
proof (rule Init_never_retries)
  show "Storage_Init (\<lambda>d. FATStorage_new (ex_fat\<lparr>f_mount := (\<lambda>w. (1, w))\<rparr>) [([], 0)] [()] d [])
      (\<lambda>s. fat_ok (snd s)) (\<lambda>s. fat_s_storage (snd s))
      (Some (([], 0), ex_nand_storage)) (\<lambda>s. nand_ok (snd s)) (ex_unset []) = Some (False, (ex_unset [])\<lparr>st_s_storage := Some 0\<rparr>)"
    by (simp add: Storage_Init_def ex_unset_def ex_stores_def FATStorage_new_def ex_fat_def FR_OK_def Let_def)
qed simp

end
