(* ===== verification/YAZ_Format.thy ===== *)
theory YAZ_Format
  imports YAZ_Decoder LZ_Format
begin

text \<open>
  The Yaz decoder as an \<open>lz_format\<close>: the layout of its tokens, what it does on each, and the round
  trip of \<open>Decode\<close>.
\<close>

section \<open>The layout of a token\<close>

fun yaz_tok_bytes :: "token \<Rightarrow> bytes" where
  "yaz_tok_bytes (Lit b) = [b]"
| "yaz_tok_bytes (Ref k n) =
     (if n < 0x12
      then [of_nat ((n - 2) * 16 + (k - 1) div 256), of_nat ((k - 1) mod 256)]
      else [of_nat ((k - 1) div 256), of_nat ((k - 1) mod 256), of_nat (n - 0x12)])"

fun yaz_tok_ok :: "token \<Rightarrow> bool" where
  "yaz_tok_ok (Lit b) = True"
| "yaz_tok_ok (Ref k n) = (1 \<le> k \<and> k \<le> 0x1000 \<and> 3 \<le> n \<and> n \<le> 0x111)"

section \<open>Where the decoder stands\<close>

text \<open>\<open>out\<close> is written over the front of the buffer \<open>base\<close> the decoder was given.\<close>

definition yaz_at :: "bytes \<Rightarrow> bytes \<Rightarrow> nat \<Rightarrow> yaz \<Rightarrow> bool" where
  "yaz_at base out N d \<longleftrightarrow> y_ok d \<and> y_dst d = Some (out @ drop (length out) base) \<and>
     y_dstOffset d = length out \<and> y_dstSize d = N \<and> length out \<le> N \<and> N \<le> length base"

definition yaz_in_group :: "nat \<Rightarrow> u8 \<Rightarrow> yaz \<Rightarrow> bool" where
  "yaz_in_group i h d \<longleftrightarrow> unat (y_groupHeaderIndex d) = i \<and> i < 8 \<and> y_groupHeader d = h"

definition yaz_ready :: "bytes \<Rightarrow> nat \<Rightarrow> u8 \<Rightarrow> bytes \<Rightarrow> nat \<Rightarrow> yaz \<Rightarrow> bool" where
  "yaz_ready base i h out N d \<longleftrightarrow> yaz_at base out N d \<and> 0 < i \<and> yaz_in_group (i - 1) h d \<and>
     y_state d = YGroupHeader"

definition yaz_inside :: "bytes \<Rightarrow> nat \<Rightarrow> u8 \<Rightarrow> bytes \<Rightarrow> nat \<Rightarrow> yaz \<Rightarrow> bool" where
  "yaz_inside base i h out N d \<longleftrightarrow> yaz_at base out N d \<and> length out < N \<and> yaz_in_group i h d \<and>
     y_state d = (if bit h (7 - i) then YCopy else YRefHeader0)"

lemma yaz_not_done: "yaz_at base out N d \<Longrightarrow> length out < N \<Longrightarrow> \<not> yaz_done d"
  by (simp add: yaz_at_def yaz_done_def)

lemma yaz_put_at:
  assumes "yaz_at base out N d" and "length out < N"
  shows "\<exists>d'. yaz_put v d = Some d' \<and> yaz_at base (out @ [v]) N d' \<and>
    (\<exists>b o'. d' = d\<lparr>y_dst := b, y_dstOffset := o'\<rparr>)"
proof -
  let ?buf = "out @ drop (length out) base"
  have "?buf[length out := v] = (out @ [v]) @ drop (Suc (length out)) base"
    using assms by (simp add: yaz_at_def list_update_append Cons_nth_drop_Suc [symmetric] del: append_assoc)
  then show ?thesis using assms by (auto simp: yaz_at_def yaz_put_def)
qed

section \<open>Tokens\<close>

lemma yaz_copy_step:
  assumes at: "yaz_at base out N d" "length out < N" and st: "y_state d = YRefCopy"
    and k: "unat (y_refOffset d) = k" "0 < k" "k \<le> length out" and n: "unat (y_refSize d) = Suc n"
  shows "\<exists>d'. (\<forall>src off. yaz_loop src off d = yaz_loop src off d') \<and>
    yaz_at base (out @ [out ! (length out - k)]) N d' \<and> y_refOffset d' = y_refOffset d \<and>
    (\<forall>i h. yaz_in_group i h d \<longrightarrow> yaz_in_group i h d') \<and>
    (if n = 0 then y_state d' = YGroupHeader else y_state d' = YRefCopy \<and> unat (y_refSize d') = n)"
proof -
  let ?v = "out ! (length out - k)"
  have "length out - k < length out" using k by linarith
  then have val: "yaz_back_ref d = Some ?v"
    using at k by (simp add: yaz_back_ref_def yaz_at_def nth_append rd_def)
  obtain d1 b o' where d1: "yaz_put ?v d = Some d1" "yaz_at base (out @ [?v]) N d1"
    "d1 = d\<lparr>y_dst := b, y_dstOffset := o'\<rparr>"
    using yaz_put_at [OF at, of ?v] by blast
  have sz: "unat (y_refSize d - 1) = n"
    using n by (simp add: unat_sub word_le_nat_alt)
  then have zero: "y_refSize d - 1 = 0 \<longleftrightarrow> n = 0" by (metis unat_eq_0)
  define d2 where "d2 = (if n = 0 then d1\<lparr>y_refSize := y_refSize d - 1, y_state := YGroupHeader\<rparr>
    else d1\<lparr>y_refSize := y_refSize d - 1\<rparr>)"
  have "yaz_process src off d = Some (True, off, d2)" for src off
    using zero d1(3) by (simp add: yaz_process_RefCopy [OF st] val d1(1) Let_def d2_def)
  then have "\<forall>src off. yaz_loop src off d = yaz_loop src off d2"
    using yaz_not_done [OF at] st by (intro allI yaz_stream.loop_step) (auto simp: yaz_starving_def)
  then show ?thesis
    using d1(2) sz st unfolding d1(3)
    by (intro exI [of _ d2]) (auto simp: d2_def d1(3) yaz_at_def yaz_in_group_def)
qed

lemma yaz_copy_loop:
  "yaz_at base out N d \<Longrightarrow> y_state d = YRefCopy \<Longrightarrow> unat (y_refOffset d) = k \<Longrightarrow>
   0 < k \<Longrightarrow> k \<le> length out \<Longrightarrow> unat (y_refSize d) = Suc n \<Longrightarrow> length out + Suc n \<le> N \<Longrightarrow>
   yaz_in_group i h d \<Longrightarrow>
   \<exists>d'. (\<forall>src off. yaz_loop src off d = yaz_loop src off d') \<and>
     yaz_ready base (i + 1) h (copy_back k (Suc n) out) N d'"
proof (induction n arbitrary: out d)
  case 0
  then show ?case using yaz_copy_step [of base out N d k 0] by (auto simp: yaz_ready_def)
next
  case (Suc n)
  let ?out = "out @ [out ! (length out - k)]"
  obtain d1 where d1: "\<forall>src off. yaz_loop src off d = yaz_loop src off d1" "yaz_at base ?out N d1"
    "y_refOffset d1 = y_refOffset d" "yaz_in_group i h d1" "y_state d1 = YRefCopy"
    "unat (y_refSize d1) = Suc n"
    using yaz_copy_step [OF Suc.prems(1) _ Suc.prems(2,3,4,5,6)] Suc.prems(7,8) by force
  have "\<exists>d'. (\<forall>src off. yaz_loop src off d1 = yaz_loop src off d') \<and>
      yaz_ready base (i + 1) h (copy_back k (Suc n) ?out) N d'"
    using d1 Suc.prems by (intro Suc.IH) auto
  then show ?case using d1(1) by auto
qed

text \<open>The bytes in front of a copy set the reference.\<close>

definition yaz_copying :: "nat \<Rightarrow> nat \<Rightarrow> yaz \<Rightarrow> bool" where
  "yaz_copying k n d \<longleftrightarrow> y_state d = YRefCopy \<and> unat (y_refOffset d) = k \<and> unat (y_refSize d) = n"

definition yaz_same :: "yaz \<Rightarrow> yaz \<Rightarrow> bool" where
  "yaz_same d d' \<longleftrightarrow> y_dst d' = y_dst d \<and> y_dstSize d' = y_dstSize d \<and>
     y_dstOffset d' = y_dstOffset d \<and> y_groupHeaderIndex d' = y_groupHeaderIndex d \<and>
     y_groupHeader d' = y_groupHeader d \<and> y_ok d' = y_ok d"

lemma yaz_same_at: "yaz_same d d' \<Longrightarrow> yaz_at base out N d \<Longrightarrow> yaz_at base out N d'"
  by (auto simp: yaz_same_def yaz_at_def)

lemma yaz_same_group: "yaz_same d d' \<Longrightarrow> yaz_in_group i h d \<Longrightarrow> yaz_in_group i h d'"
  by (auto simp: yaz_same_def yaz_in_group_def)

lemma yaz_same_trans: "yaz_same a b \<Longrightarrow> yaz_same b c \<Longrightarrow> yaz_same a c"
  by (auto simp: yaz_same_def)

lemma yaz_same_done: "yaz_same d d' \<Longrightarrow> yaz_done d' = yaz_done d"
  by (auto simp: yaz_same_def yaz_done_def)

lemma yaz_loop_header0:
  assumes at: "\<not> yaz_done d" and st: "y_state d = YRefHeader0"
    and b: "unat (b :: u8) = m * 16 + q" "m < 16" "q < 16"
  shows "\<exists>d'. (\<forall>rest. yaz_loop (b # rest) 0 d = yaz_loop rest 0 d') \<and> yaz_same d d' \<and>
    y_state d' = YRefHeader1 \<and> unat (y_refOffset d') = q * 256 \<and> unat (y_refSize d') = m + 2"
proof -
  define d' where "d' = d\<lparr>y_refOffset := push_bit 8 (ucast b) AND 0xf00,
    y_refSize := ucast (drop_bit 4 b) + 2, y_state := YRefHeader1\<rparr>"
  have "yaz_loop (b # rest) 0 d = yaz_loop rest 0 d'" for rest
    by (rule yaz_stream.loop_eat) (simp_all add: at yaz_process_RefHeader0 [OF st] d'_def)
  moreover have "unat (y_refOffset d') = q * 256"
    using b(3) by (simp add: d'_def nibble_low b(1))
  moreover have "unat (y_refSize d') = m + 2"
    using b(2,3) by (simp add: d'_def unat_word_ariths nibble_high b(1))
  moreover have "yaz_same d d'" by (simp add: yaz_same_def d'_def)
  ultimately show ?thesis by (intro exI [of _ d']) (simp add: d'_def)
qed

lemma yaz_loop_header1:
  assumes at: "yaz_at base out N d" "length out < N" and st: "y_state d = YRefHeader1"
    and q: "unat (y_refOffset d) = q * 256" "q < 16"
    and k: "q * 256 + unat (b :: u8) + 1 = k" "k \<le> length out"
  shows "\<exists>d'. (\<forall>rest. yaz_loop (b # rest) 0 d = yaz_loop rest 0 d') \<and> yaz_same d d' \<and>
    y_state d' = (if unat (y_refSize d) = 2 then YRefHeader2 else YRefCopy) \<and>
    unat (y_refOffset d') = k \<and> y_refSize d' = y_refSize d"
proof -
  have ofs: "unat (y_refOffset d + (ucast b + 1)) = k"
    using q k(1) back_ref_add [of "y_refOffset d" b] by simp
  have two: "y_refSize d = 2 \<longleftrightarrow> unat (y_refSize d) = 2" by (simp add: word_unat_eq_iff)
  define d' where "d' = d\<lparr>y_refOffset := y_refOffset d + (ucast b + 1),
    y_state := if unat (y_refSize d) = 2 then YRefHeader2 else YRefCopy\<rparr>"
  have "yaz_loop (b # rest) 0 d = yaz_loop rest 0 d'" for rest
  proof (rule yaz_stream.loop_eat)
    have "\<not> y_dstOffset d < unat (y_refOffset d + (ucast b + 1))"
      using at k(2) ofs by (simp add: yaz_at_def)
    then show "yaz_process (b # rest) 0 d = Some (True, 1, d')"
      by (simp add: yaz_process_RefHeader1 [OF st] Let_def d'_def two)
  qed (use yaz_not_done [OF at] in simp)
  moreover have "yaz_same d d'" by (simp add: yaz_same_def d'_def)
  ultimately show ?thesis using ofs by (intro exI [of _ d']) (simp add: d'_def)
qed

lemma yaz_loop_header2:
  assumes at: "\<not> yaz_done d" and st: "y_state d = YRefHeader2"
  shows "\<exists>d'. (\<forall>rest. yaz_loop (b # rest) 0 d = yaz_loop rest 0 d') \<and> yaz_same d d' \<and>
    y_state d' = YRefCopy \<and> y_refOffset d' = y_refOffset d \<and> unat (y_refSize d') = unat b + 0x12"
proof -
  define d' where "d' = d\<lparr>y_refSize := ucast b + 0x12, y_state := YRefCopy\<rparr>"
  have "yaz_loop (b # rest) 0 d = yaz_loop rest 0 d'" for rest
    by (rule yaz_stream.loop_eat) (simp_all add: at yaz_process_RefHeader2 [OF st] d'_def)
  moreover have "unat b + 0x12 < 65536" using unat_u8_less [of b] by linarith
  then have "unat (y_refSize d') = unat b + 0x12" by (simp add: d'_def unat_word_ariths)
  moreover have "yaz_same d d'" by (simp add: yaz_same_def d'_def)
  ultimately show ?thesis by (intro exI [of _ d']) (simp add: d'_def)
qed

lemma yaz_read_ref:
  assumes at: "yaz_at base out N d" "length out < N" and st: "y_state d = YRefHeader0"
    and ok: "yaz_tok_ok (Ref k n)" and k: "k \<le> length out"
  shows "\<exists>d'. (\<forall>rest. yaz_loop (yaz_tok_bytes (Ref k n) @ rest) 0 d = yaz_loop rest 0 d') \<and>
    yaz_same d d' \<and> y_state d' = YRefCopy \<and> unat (y_refOffset d') = k \<and> unat (y_refSize d') = n"
proof -
  define m where "m = (if n < 0x12 then n - 2 else 0)"
  let ?q = "(k - 1) div 256"
  define b0 where "b0 = (of_nat (m * 16 + ?q) :: u8)"
  define b1 where "b1 = (of_nat ((k - 1) mod 256) :: u8)"
  have lt: "m < 16" "?q < 16" using ok by (auto simp: m_def)
  then have "m * 16 + ?q < 256" by linarith
  then have b0: "unat b0 = m * 16 + ?q" unfolding b0_def unat_of_nat by simp
  have b1: "unat b1 = (k - 1) mod 256" unfolding b1_def unat_of_nat by simp
  have kq: "?q * 256 + unat b1 + 1 = k" using ok unfolding b1 by simp
  obtain d1 where d1: "\<forall>rest. yaz_loop (b0 # rest) 0 d = yaz_loop rest 0 d1" "yaz_same d d1"
    "y_state d1 = YRefHeader1" "unat (y_refOffset d1) = ?q * 256" "unat (y_refSize d1) = m + 2"
    using yaz_loop_header0 [OF yaz_not_done [OF at] st b0 lt] by blast
  obtain d2 where d2: "\<forall>rest. yaz_loop (b1 # rest) 0 d1 = yaz_loop rest 0 d2" "yaz_same d1 d2"
    "y_state d2 = (if m = 0 then YRefHeader2 else YRefCopy)" "unat (y_refOffset d2) = k"
    "y_refSize d2 = y_refSize d1"
    using yaz_loop_header1 [OF yaz_same_at [OF d1(2) at(1)] at(2) d1(3,4) lt(2) kq k] d1(5) by auto
  have same: "yaz_same d d2" using d1(2) d2(2) by (rule yaz_same_trans)
  show ?thesis
  proof (cases "n < 0x12")
    case True
    then have "m \<noteq> 0" "m + 2 = n" "yaz_tok_bytes (Ref k n) = [b0, b1]"
      using ok by (auto simp: m_def b0_def b1_def)
    then show ?thesis using d1 d2 same by (intro exI [of _ d2]) simp
  next
    case False
    then have m: "m = 0" and n: "n - 0x12 < 256" using ok by (auto simp: m_def)
    define b2 where "b2 = (of_nat (n - 0x12) :: u8)"
    have b2: "unat b2 + 0x12 = n" using n False unfolding b2_def unat_of_nat by simp
    have "\<not> yaz_done d2" using yaz_not_done [OF at] yaz_same_done [OF same] by simp
    then obtain d3 where d3: "\<forall>rest. yaz_loop (b2 # rest) 0 d2 = yaz_loop rest 0 d3" "yaz_same d2 d3"
      "y_state d3 = YRefCopy" "y_refOffset d3 = y_refOffset d2" "unat (y_refSize d3) = unat b2 + 0x12"
      using yaz_loop_header2 [of d2 b2] d2(3) m by auto
    moreover have "yaz_tok_bytes (Ref k n) = [b0, b1, b2]"
      using False m by (simp add: b0_def b1_def b2_def)
    ultimately show ?thesis
      using d1(1) d2(1,4) yaz_same_trans [OF same d3(2)] b2 by (intro exI [of _ d3]) simp
  qed
qed

lemma yaz_read_token:
  assumes ins: "yaz_inside base i h out N d" and i: "i < 8" and b: "bit h (7 - i) = is_lit t"
    and ok: "yaz_tok_ok t" "tok_reach out t" and N: "length (expand_tok out t) \<le> N"
  shows "\<exists>d'. yaz_ready base (i + 1) h (expand_tok out t) N d' \<and>
    (\<forall>rest. yaz_loop (yaz_tok_bytes t @ rest) 0 d = yaz_loop rest 0 d')"
proof -
  have at: "yaz_at base out N d" "length out < N" and grp: "yaz_in_group i h d"
    and st: "y_state d = (if is_lit t then YCopy else YRefHeader0)"
    using ins b by (auto simp: yaz_inside_def)
  show ?thesis
  proof (cases t)
    case (Lit v)
    obtain d1 b' o' where d1: "yaz_put v d = Some d1" "yaz_at base (out @ [v]) N d1"
      "d1 = d\<lparr>y_dst := b', y_dstOffset := o'\<rparr>"
      using yaz_put_at [OF at, of v] by blast
    let ?d' = "d1\<lparr>y_state := YGroupHeader\<rparr>"
    have "yaz_loop (v # rest) 0 d = yaz_loop rest 0 ?d'" for rest
      by (rule yaz_stream.loop_eat)
        (use yaz_not_done [OF at] st Lit in \<open>simp_all add: yaz_process_Copy d1(1)\<close>)
    then show ?thesis
      using d1(2,3) Lit grp by (intro exI [of _ ?d']) (auto simp: yaz_ready_def yaz_at_def yaz_in_group_def)
  next
    case (Ref k n)
    obtain d1 where d1: "\<forall>rest. yaz_loop (yaz_tok_bytes t @ rest) 0 d = yaz_loop rest 0 d1"
      "yaz_same d d1" "y_state d1 = YRefCopy" "unat (y_refOffset d1) = k" "unat (y_refSize d1) = n"
      using yaz_read_ref [OF at, of k n] st ok Ref by auto
    have "\<exists>d'. (\<forall>src off. yaz_loop src off d1 = yaz_loop src off d') \<and>
        yaz_ready base (i + 1) h (copy_back k (Suc (n - 1)) out) N d'"
      using d1 ok N Ref yaz_same_at [OF d1(2) at(1)] yaz_same_group [OF d1(2) grp]
      by (intro yaz_copy_loop) auto
    moreover have "Suc (n - 1) = n" using ok Ref by simp
    ultimately show ?thesis using d1(1) Ref by auto
  qed
qed

section \<open>The interpretation\<close>

lemma yaz_read_flags:
  assumes rdy: "yaz_ready base 8 h out N d" and room: "length out < N"
  shows "\<exists>d'. yaz_inside base 0 h' out N d' \<and> (\<forall>rest. yaz_loop (h' # rest) 0 d = yaz_loop rest 0 d')"
proof -
  have at: "yaz_at base out N d" and st: "y_state d = YGroupHeader"
    and idx: "unat (y_groupHeaderIndex d) = 7" using rdy by (auto simp: yaz_ready_def yaz_in_group_def)
  then have "y_groupHeaderIndex d = 7" by (simp add: word_unat_eq_iff)
  then have "yaz_process (h' # rest) 0 d = Some (True, 1, yaz_with_header h' 0 d)" for rest
    using idx by (simp add: yaz_process_GroupHeader [OF st])
  then have "yaz_loop (h' # rest) 0 d = yaz_loop rest 0 (yaz_with_header h' 0 d)" for rest
    using yaz_not_done [OF at room] by (rule yaz_stream.loop_eat [rotated])
  moreover have "yaz_inside base 0 h' out N (yaz_with_header h' 0 d)"
    using at room by (simp add: yaz_inside_def yaz_at_def yaz_in_group_def yaz_with_header_def)
  ultimately show ?thesis by blast
qed

lemma yaz_next_token:
  assumes rdy: "yaz_ready base i h out N d" and i: "0 < i" "i < 8" and room: "length out < N"
  shows "\<exists>d'. yaz_inside base i h out N d' \<and> (\<forall>src. yaz_loop src 0 d = yaz_loop src 0 d')"
proof -
  have at: "yaz_at base out N d" and st: "y_state d = YGroupHeader"
    and idx: "unat (y_groupHeaderIndex d) = i - 1" and h: "y_groupHeader d = h"
    using rdy by (auto simp: yaz_ready_def yaz_in_group_def)
  have le: "unat (y_groupHeaderIndex d) \<le> 7" and ne: "y_groupHeaderIndex d \<noteq> 7"
    using idx i by auto
  let ?d' = "yaz_with_header h (y_groupHeaderIndex d + 1) d"
  have inc: "unat (y_groupHeaderIndex d + 1) = i" using group_next [OF le ne] idx i by simp
  have "yaz_process src 0 d = Some (True, 0, ?d')" for src
    using ne h by (simp add: yaz_process_GroupHeader [OF st le])
  then have "yaz_loop src 0 d = yaz_loop src 0 ?d'" for src
    using yaz_not_done [OF at room] ne st by (intro yaz_stream.loop_step) (auto simp: yaz_starving_def)
  moreover have "yaz_inside base i h out N ?d'"
    using at room i inc by (simp add: yaz_inside_def yaz_at_def yaz_in_group_def yaz_with_header_def)
  ultimately show ?thesis by blast
qed

interpretation yaz_lz: lz_format yaz_process yaz_loop yaz_done yaz_idle yaz_starving yaz_mark_bad
  yaz_inv yaz_rank "yaz_ready base" "yaz_inside base" is_lit yaz_tok_ok yaz_tok_bytes
  for base
proof unfold_locales
  show "yaz_idle d \<and> yaz_done d = (length out = N)" if "yaz_ready base i h out N d" for i h out N d
    using that by (auto simp: yaz_ready_def yaz_at_def yaz_idle_def yaz_done_def)
qed (fact yaz_read_flags yaz_next_token yaz_read_token)+

definition yaz_encode :: "token list \<Rightarrow> bytes" where
  "yaz_encode ts = encode is_lit yaz_tok_bytes ts"

lemma yaz_over_ready:
  "N \<le> length dst \<Longrightarrow> yaz_ready dst 8 0 [] N (yaz_over dst N)"
  by (simp add: yaz_ready_def yaz_at_def yaz_in_group_def yaz_over_def yaz_init_def)

lemma yaz_GetDecodedSize_prefix:
  "length hdr = YAZ_HEADER_SIZE \<Longrightarrow> yaz_GetDecodedSize (hdr @ rest) = yaz_GetDecodedSize hdr"
  by (simp add: yaz_GetDecodedSize_def YAZ_HEADER_SIZE_def fixed_width_simps nth_append
      flip: read_u32_is_Read)

text \<open>C13: Decode inverts the reference encoder. For every list of tokens whose references stay inside
  what has been written, decoding the header and the encoded tokens fills the destination with the
  expansion of the tokens.\<close>

theorem yaz_Decode_encode:
  assumes hdr: "length hdr = YAZ_HEADER_SIZE" "yaz_GetDecodedSize hdr = Some (Some sz)"
    and ts: "\<forall>t \<in> set ts. yaz_tok_ok t" "reachable_toks [] ts" "ts \<noteq> []"
    and sz: "unat sz = length (expand [] ts)" "unat sz \<le> dstSize" and dst: "dstSize \<le> length dst"
  shows "yaz_Decode (hdr @ yaz_encode ts @ rest) dst dstSize =
    Some (Some (unat sz), expand [] ts @ drop (unat sz) dst)"
proof -
  let ?d = "yaz_over dst (unat sz)"
  have N: "unat sz \<le> length dst" using sz(2) dst by simp
  obtain d' i h' where run: "yaz_loop (yaz_encode ts @ rest) 0 ?d = Some (True, d')"
    "yaz_ready dst i h' (expand [] ts) (unat sz) d'"
    using yaz_lz.decode_encode [OF yaz_over_ready [OF N] ts(1,2)] sz(1) unfolding yaz_encode_def by metis
  have "0 < unat sz" using expand_length [OF ts(2)] ts(3) sz(1) by (cases ts) auto
  then have "\<not> yaz_done ?d" "y_ok ?d" by (simp_all add: yaz_done_def yaz_over_def yaz_init_def)
  then have dec: "yaz_decode (yaz_encode ts @ rest) ?d = Some (True, d')"
    using run(1) by (simp add: yaz_decode_def)
  have fin: "yaz_done d'" "y_dst d' = Some (expand [] ts @ drop (unat sz) dst)"
    using run(2) sz(1) by (auto simp: yaz_ready_def yaz_at_def yaz_done_def)
  have "min dstSize (unat sz) = unat sz" using sz(2) by simp
  then show ?thesis
    using hdr dec fin
    by (simp add: yaz_Decode_def yaz_GetDecodedSize_prefix YAZ_HEADER_SIZE_def Let_def)
qed

theorem yaz_Decode_encode_witness:
  "yaz_Decode ([0x59, 0x61, 0x7a, 0x30, 0, 0, 0, 4] @ replicate 8 0 @ yaz_encode [Lit 1, Ref 1 3] @ [7])
     [9, 9, 9, 9, 9] 5 = Some (Some 4, [1, 1, 1, 1, 9])"
proof -
  let ?hdr = "[0x59, 0x61, 0x7a, 0x30, 0, 0, 0, 4] @ replicate 8 0 :: bytes"
  have "yaz_GetDecodedSize ?hdr = Some (Some 4)"
    by code_simp
  moreover have "expand [] [Lit 1, Ref 1 3] = [1, 1, 1, 1]" by code_simp
  ultimately show ?thesis
    using yaz_Decode_encode [of ?hdr 4 "[Lit 1, Ref 1 3]" 5 "[9, 9, 9, 9, 9]" "[7]"]
    by (simp add: YAZ_HEADER_SIZE_def)
qed

section \<open>Arbitrary input\<close>


lemma yaz_decode_chunks:
  assumes "yaz_inv d" and "y_ok d" and "\<not> yaz_done d"
  shows "yaz_decode (xs @ ys) d =
    (case yaz_decode xs d of
       Some (True, d1) \<Rightarrow> if yaz_done d1 then Some (True, d1) else yaz_loop ys 0 d1
     | other \<Rightarrow> other)"
  using yaz_stream.loop_append [OF assms(1), of 0 xs ys] assms(2,3) by (simp add: yaz_decode_def)

section \<open>From the header to the released buffer\<close>

lemma yaz_new_state:
  assumes "yaz_new alloc src = Some d" and "y_ok d"
  shows "d = yaz_init\<lparr>y_dstSize := y_dstSize d, y_dst := alloc (y_dstSize d)\<rparr>"
  using assms by (auto simp: yaz_new_def Let_def yaz_init_def bind_Some_iff split: if_splits)

lemma yaz_new_ready:
  assumes new: "yaz_new alloc src = Some d" "y_ok d"
    and alloc: "alloc (y_dstSize d) = Some buf" "length buf = y_dstSize d"
  shows "yaz_ready buf 8 0 [] (y_dstSize d) d" and "yaz_inv d"
proof -
  have "y_dst d = Some buf" "y_dstOffset d = 0" "y_state d = YGroupHeader" "y_groupHeaderIndex d = 7"
    "y_groupHeader d = 0"
    by (subst yaz_new_state [OF new]; simp add: yaz_init_def alloc(1))+
  then show "yaz_ready buf 8 0 [] (y_dstSize d) d" and "yaz_inv d"
    using alloc(2) new(2) by (simp_all add: yaz_ready_def yaz_at_def yaz_in_group_def yaz_inv_def)
qed

lemma yaz_new_decode_release:
  assumes new: "yaz_new alloc src = Some d" "y_ok d"
    and alloc: "alloc (y_dstSize d) = Some buf" "length buf = y_dstSize d"
    and ts: "\<forall>t \<in> set ts. yaz_tok_ok t" "reachable_toks [] ts" "ts \<noteq> []"
      "y_dstSize d = length (expand [] ts)"
  shows "\<exists>d' d''. yaz_decode (yaz_encode ts @ rest) d = Some (True, d') \<and>
    yaz_release d' = Some (expand [] ts, length (expand [] ts), d'')"
proof -
  obtain d' i h' where run: "yaz_loop (yaz_encode ts @ rest) 0 d = Some (True, d')"
    "yaz_ready buf i h' (expand [] ts) (y_dstSize d) d'"
    using yaz_lz.decode_encode [OF yaz_new_ready(1) [OF new alloc] ts(1,2)] ts(4)
    unfolding yaz_encode_def by metis
  have "0 < y_dstSize d" using expand_length [OF ts(2)] ts(3,4) by (cases ts) auto
  moreover have "y_dstOffset d = 0" by (subst yaz_new_state [OF new]) (simp add: yaz_init_def)
  ultimately have "yaz_decode (yaz_encode ts @ rest) d = Some (True, d')"
    using run(1) new(2) by (simp add: yaz_decode_def yaz_done_def)
  moreover have "y_dst d' = Some (expand [] ts)" "yaz_done d'" "y_dstSize d' = length (expand [] ts)" "y_ok d'"
    using run(2) ts(4) alloc(2) by (auto simp: yaz_ready_def yaz_at_def yaz_done_def)
  ultimately show ?thesis by (auto simp: yaz_release_def)
qed

text \<open>Any bytes at all, to a decoder of a two-byte buffer.\<close>

lemma yaz_over_inv: "n \<le> length dst \<Longrightarrow> yaz_inv (yaz_over dst n)"
  by (simp add: yaz_inv_def yaz_over_def yaz_init_def)


lemma yaz_decode_chunks_witness:
  "yaz_decode ([0xc0] @ [1, 2]) (yaz_over [0, 0] 2) =
    (case yaz_decode [0xc0] (yaz_over [0, 0] 2) of
       Some (True, d1) \<Rightarrow> if yaz_done d1 then Some (True, d1) else yaz_loop [1, 2] 0 d1
     | other \<Rightarrow> other)"
  using yaz_decode_chunks [OF yaz_over_inv, of 2 "[0, 0]" "[0xc0]" "[1, 2]"]
  by (simp add: yaz_over_def yaz_init_def yaz_done_def)

lemma yaz_new_decode_release_witness:
  "\<exists>d d' d''. yaz_new (\<lambda>n. Some (replicate n 0)) ([0x59, 0x61, 0x7a, 0x30, 0, 0, 0, 4] @ replicate 8 0) = Some d \<and>
     yaz_decode (yaz_encode [Lit 1, Ref 1 3] @ [7]) d = Some (True, d') \<and>
     yaz_release d' = Some ([1, 1, 1, 1], 4, d'')"
proof -
  let ?d = "yaz_init\<lparr>y_dstSize := 4, y_dst := Some [0, 0, 0, 0]\<rparr>"
  have new: "yaz_new (\<lambda>n. Some (replicate n 0)) ([0x59, 0x61, 0x7a, 0x30, 0, 0, 0, 4] @ replicate 8 0) = Some ?d" by code_simp
  have rep: "replicate 4 0 = [0, 0, 0, 0 :: u8]" by code_simp
  have ex: "expand [] [Lit 1, Ref 1 3] = [1, 1, 1, 1]" "copy_back 1 3 [1] = [1, 1, 1, 1]" by code_simp+
  have "y_ok ?d" "y_dstSize ?d = 4" by (simp_all add: yaz_init_def)
  then have "\<exists>d' d''. yaz_decode (yaz_encode [Lit 1, Ref 1 3] @ [7]) ?d = Some (True, d') \<and>
      yaz_release d' = Some ([1, 1, 1, 1], 4, d'')"
    using yaz_new_decode_release [OF new, of "[0, 0, 0, 0]" "[Lit 1, Ref 1 3]" "[7]"] by (simp add: ex rep del: One_nat_def) (simp add: eval_nat_numeral)
  then show ?thesis using new by blast
qed

end
