(* ===== verification/Room_Stream.thy ===== *)
theory Room_Stream
  imports Room_Manager
begin

text \<open>
  What the receive loop of \<open>Room_Manager\<close> promises: TCP delivers the packets of the room manager in
  pieces of any size, and the client processes exactly the packets of the byte stream, in order,
  however it was cut.  The specification \<open>deliver\<close> reads the whole stream at once.
\<close>

section \<open>The stream, read at once\<close>

type_synonym room_view = "mm_packet \<times> sockaddr"

definition room_view :: "'a mkw_scheme \<Rightarrow> room_view" where
  "room_view s = (recvMatchPacket s, mkwServerAddr s)"

definition apply_packet :: "u32 \<Rightarrow> bytes \<Rightarrow> room_view \<Rightarrow> room_view option" where
  "apply_packet magic payload = (\<lambda>(g, a).
     if magic = MATCH_MAKING_INFO then
       map_option (\<lambda>p. (if matchMakingInfoValid p then p else g, a)) (mm_of_bytes payload)
     else do {
       address \<leftarrow> read_u32 payload 0;
       port \<leftarrow> read_u16 payload 4;
       Some (g, \<lparr>sa_len = SOCKADDR_SIZE, sa_family = 2, sa_port = port, sa_addr = address\<rparr>)
     })"

text \<open>
  The bytes left over and the view after all complete packets; \<^term>\<open>None\<close> when a magic is
  unknown, for then the client drops what it has buffered.
\<close>

function deliver :: "bytes \<Rightarrow> room_view \<Rightarrow> (bytes \<times> room_view) option" where
  "deliver bs v =
     (if length bs < 4 then Some (bs, v)
      else do {
        magic \<leftarrow> read_u32 bs 0;
        n \<leftarrow> packet_size magic;
        if length bs < n then Some (bs, v)
        else do {
          v' \<leftarrow> apply_packet magic (take (n - 4) (drop 4 bs)) v;
          deliver (drop n bs) v'
        }
      })"
  by pat_completeness auto
termination
  by (relation "measure (\<lambda>(bs, v). length bs)") (auto dest: packet_size_pos)

declare deliver.simps [simp del]

section \<open>Packets in the buffer\<close>

lemma rd_append: "i < length xs \<Longrightarrow> rd (xs @ ys) i = rd xs i"
  by (simp add: rd_def nth_append)

lemma rd_n_append: "i + n \<le> length xs \<Longrightarrow> rd_n (xs @ ys) i n = rd_n xs i n"
  by (simp add: rd_n_def)

lemma read_u32_append: "i + 4 \<le> length xs \<Longrightarrow> read_u32 (xs @ ys) i = read_u32 xs i"
  by (simp add: read_u32_def nth_append)

lemma read_u16_append: "i + 2 \<le> length xs \<Longrightarrow> read_u16 (xs @ ys) i = read_u16 xs i"
  by (simp add: read_u16_def nth_append)

lemma user_data_append:
  "off + 4 * n \<le> length xs \<Longrightarrow> user_data_of_bytes (xs @ ys) off n = user_data_of_bytes xs off n"
  by (induction n arbitrary: off) (auto simp: nth_append rd_n_append)

lemma user_data_total: "off + 4 * n \<le> length xs \<Longrightarrow> \<exists>us. user_data_of_bytes xs off n = Some us"
proof (induction n arbitrary: off)
  case (Suc n)
  then obtain us where "user_data_of_bytes xs (off + 4) n = Some us" by fastforce
  then show ?case using Suc.prems by simp
qed simp

lemma mm_of_bytes_append: "MM_PACKET_SIZE \<le> length xs \<Longrightarrow> mm_of_bytes (xs @ ys) = mm_of_bytes xs"
  by (simp add: mm_of_bytes_def MM_PACKET_SIZE_def MAX_PLAYER_COUNT_def nth_append read_u32_append
      user_data_append)

lemma read_u16_total: "i + 2 \<le> length xs \<Longrightarrow> \<exists>v. read_u16 xs i = Some v"
  by (simp add: read_u16_def)

lemma mm_of_bytes_total: "MM_PACKET_SIZE \<le> length xs \<Longrightarrow> \<exists>p. mm_of_bytes xs = Some p"
  using user_data_total [of 20 MAX_PLAYER_COUNT xs]
  by (auto simp: mm_of_bytes_def MM_PACKET_SIZE_def MAX_PLAYER_COUNT_def read_u32_def rd_def)

definition same_connection :: "'a mkw_scheme \<Rightarrow> 'a mkw_scheme \<Rightarrow> bool" where
  "same_connection s s' \<longleftrightarrow> so_inbox s' = so_inbox s \<and> recvBuf s' = recvBuf s \<and>
     recvBufSize s' = recvBufSize s \<and> matchMakingSocket s' = matchMakingSocket s"

text \<open>A dispatch on the buffer is the specified effect of the packet at its front.\<close>

lemma dispatch_is_apply:
  assumes n: "packet_size magic = Some n" and len: "n - 4 \<le> length data"
  shows "\<exists>f' s'. dispatch_packet magic data f s = Some (f', s') \<and>
    apply_packet magic (take (n - 4) data) (room_view s) = Some (room_view s') \<and>
    same_connection s s'"
proof -
  have split: "data = take (n - 4) data @ drop (n - 4) data" by simp
  consider (mm) "magic = MATCH_MAKING_INFO" "n - 4 = MM_PACKET_SIZE"
    | (server) "magic \<noteq> MATCH_MAKING_INFO" "n - 4 = 6"
    using n by (auto simp: packet_size_def split: if_splits)
  then show ?thesis
  proof cases
    case mm
    then obtain p where p: "mm_of_bytes (take (n - 4) data) = Some p"
      using mm_of_bytes_total [of "take (n - 4) data"] len by auto
    then have "mm_of_bytes data = Some p"
      using mm_of_bytes_append [of "take (n - 4) data" "drop (n - 4) data"] mm len by simp
    then show ?thesis
      using mm p
      by (auto simp: dispatch_packet_def processMatchMakingInfoPacket_def apply_packet_def room_view_def
          same_connection_def)
  next
    case server
    obtain a p where ap: "read_u32 (take (n - 4) data) 0 = Some a" "read_u16 (take (n - 4) data) 4 = Some p"
      using read_u32_total [of 0 "take (n - 4) data"] read_u16_total [of 4 "take (n - 4) data"] server len
      by auto
    then have "read_u32 data 0 = Some a" "read_u16 data 4 = Some p"
      using read_u32_append [of 0 "take (n - 4) data" "drop (n - 4) data"]
        read_u16_append [of 4 "take (n - 4) data" "drop (n - 4) data"] server len by simp_all
    then show ?thesis
      using server ap
      by (auto simp: dispatch_packet_def processMKWServerInfoPacket_def setMKWServerAddress_def
          apply_packet_def room_view_def same_connection_def)
  qed
qed

section \<open>The buffer and the stream\<close>

definition recv_ok :: "'a mkw_scheme \<Rightarrow> bool" where
  "recv_ok s \<longleftrightarrow> length (recvBuf s) = RECV_BUF_SIZE \<and> recvBufSize s \<le> RECV_BUF_SIZE \<and>
     (\<forall>c \<in> set (so_inbox s). c \<noteq> [])"

definition buffered :: "'a mkw_scheme \<Rightarrow> bytes" where
  "buffered s = take (recvBufSize s) (recvBuf s)"

definition stream :: "'a mkw_scheme \<Rightarrow> bytes" where
  "stream s = buffered s @ so_pending s"

lemma length_buffered: "recv_ok s \<Longrightarrow> length (buffered s) = recvBufSize s"
  by (simp add: recv_ok_def buffered_def)

text \<open>A receive moves bytes from the network into the buffer.\<close>

lemma so_recv_nonempty:
  assumes "so_recv cap s = (r, s')" and "\<forall>c \<in> set (so_inbox s). c \<noteq> []" and "0 < cap"
  shows "(\<forall>c \<in> set (so_inbox s'). c \<noteq> []) \<and> (so_inbox s \<noteq> [] \<longrightarrow> r \<noteq> [])"
proof (cases "so_inbox s")
  case Nil
  then show ?thesis using assms(1) by (simp add: so_recv_def split: prod.splits)
next
  case (Cons c cs)
  have "c \<noteq> []" and cs: "\<forall>c \<in> set cs. c \<noteq> []" using assms(2) unfolding Cons by simp_all
  have rs: "(r, s') = (take cap c, s\<lparr>so_inbox := if length c \<le> cap then cs else drop cap c # cs\<rparr>)"
    using assms(1) by (simp only: so_recv_def Cons list.case)
  have "take cap c \<noteq> []" using \<open>c \<noteq> []\<close> assms(3) by simp
  moreover have "so_inbox s' = (if length c \<le> cap then cs else drop cap c # cs)"
    using rs by simp
  ultimately show ?thesis using rs cs by simp
qed

lemma recvIntoBuffer_spec:
  assumes ok: "recv_ok s" and needed: "needed \<le> RECV_BUF_SIZE"
  shows "\<exists>s'. recvIntoBuffer needed s = Some (recvBufSize s', s') \<and> recv_ok s' \<and> stream s' = stream s \<and>
    room_view s' = room_view s \<and> matchMakingSocket s' = matchMakingSocket s \<and>
    length (so_pending s') \<le> length (so_pending s) \<and>
    (recvBufSize s' < needed \<longrightarrow> so_pending s = [] \<or> length (so_pending s') < length (so_pending s))"
proof (cases "needed \<le> recvBufSize s")
  case True
  then show ?thesis using ok by (simp add: recvIntoBuffer_def)
next
  case False
  let ?cap = "RECV_BUF_SIZE - recvBufSize s"
  obtain r s1 where r: "so_recv ?cap s = (r, s1)" by force
  obtain i where i: "so_pending s = r @ so_pending s1" "length r \<le> ?cap" "s1 = s\<lparr>so_inbox := i\<rparr>"
    using so_recv_pending [OF r] by blast
  have cs: "\<forall>c \<in> set (so_inbox s1). c \<noteq> []" and got: "so_inbox s \<noteq> [] \<longrightarrow> r \<noteq> []"
    using so_recv_nonempty [OF r] ok False needed by (auto simp: recv_ok_def)
  show ?thesis
  proof (cases "r = []")
    case True
    then have "so_pending s = []" using got by (auto simp: so_pending_def)
    moreover have "so_pending s1 = so_pending s" using i(1) True by simp
    ultimately show ?thesis
      using False r True ok cs
      by (auto simp: recvIntoBuffer_def recv_ok_def stream_def buffered_def room_view_def i(3) so_pending_def)
  next
    case False
    let ?buf = "splice (recvBuf s) (recvBufSize s) r"
    let ?s' = "s1\<lparr>recvBuf := ?buf, recvBufSize := recvBufSize s + length r\<rparr>"
    have fits: "recvBufSize s + length r \<le> length (recvBuf s)" using i(2) ok by (auto simp: recv_ok_def)
    have "recvIntoBuffer needed s = Some (recvBufSize ?s', ?s')"
      using False \<open>\<not> needed \<le> recvBufSize s\<close> r fits by (simp add: recvIntoBuffer_def i(3))
    moreover have "stream ?s' = stream s"
      using take_splice_through [OF fits] i(1) by (simp add: stream_def buffered_def so_pending_def)
    ultimately show ?thesis
      using fits cs ok i(1) False
      by (intro exI [of _ ?s']) (auto simp: recv_ok_def room_view_def i(3) so_pending_def length_splice)
  qed
qed

lemma consumeBuffer_spec:
  assumes ok: "recv_ok s" and n: "n \<le> recvBufSize s"
  shows "\<exists>s'. consumeBuffer n s = Some s' \<and> recv_ok s' \<and> stream s' = drop n (stream s) \<and>
    room_view s' = room_view s \<and> matchMakingSocket s' = matchMakingSocket s \<and> so_inbox s' = so_inbox s"
proof -
  let ?m = "take (recvBufSize s - n) (drop n (recvBuf s))"
  let ?s' = "s\<lparr>recvBuf := splice (recvBuf s) 0 ?m, recvBufSize := recvBufSize s - n\<rparr>"
  have len: "length ?m = recvBufSize s - n" "length ?m \<le> length (recvBuf s)"
    using ok n by (auto simp: recv_ok_def)
  have "consumeBuffer n s = Some ?s'"
    using ok n by (simp add: consumeBuffer_def recv_ok_def)
  moreover have "buffered ?s' = drop n (buffered s)"
    using len by (simp add: buffered_def splice_def drop_take)
  moreover have "recv_ok ?s'" using ok len by (auto simp: recv_ok_def length_splice)
  ultimately show ?thesis
    using n ok by (intro exI [of _ ?s']) (auto simp: stream_def so_pending_def room_view_def length_buffered)
qed

section \<open>A round, a call, a connection\<close>

text \<open>No complete packet in the buffer: the next one waits for the network.\<close>

definition waiting :: "'a mkw_scheme \<Rightarrow> bool" where
  "waiting s \<longleftrightarrow> deliver (buffered s) (room_view s) = Some (buffered s, room_view s)"

lemma deliver_short: "length bs < 4 \<Longrightarrow> deliver bs v = Some (bs, v)"
  by (simp add: deliver.simps)

lemma deliver_incomplete:
  "4 \<le> length bs \<Longrightarrow> read_u32 bs 0 = Some magic \<Longrightarrow> packet_size magic = Some n \<Longrightarrow> length bs < n \<Longrightarrow>
   deliver bs v = Some (bs, v)"
  by (simp add: deliver.simps)

lemma deliver_complete:
  "n \<le> length bs \<Longrightarrow> read_u32 bs 0 = Some magic \<Longrightarrow> packet_size magic = Some n \<Longrightarrow>
   apply_packet magic (take (n - 4) (drop 4 bs)) v = Some v' \<Longrightarrow> deliver bs v = deliver (drop n bs) v'"
  using packet_size_pos [of magic n] by (subst deliver.simps) simp

lemma deliver_known:
  "4 \<le> length bs \<Longrightarrow> deliver bs v = Some res \<Longrightarrow>
   \<exists>magic n. read_u32 bs 0 = Some magic \<and> packet_size magic = Some n"
  by (subst (asm) deliver.simps) (auto simp: bind_Some_iff)

definition round_kept :: "'a mkw_scheme \<Rightarrow> 'a mkw_scheme \<Rightarrow> bool" where
  "round_kept s s' \<longleftrightarrow> recv_ok s' \<and> deliver (stream s') (room_view s') = deliver (stream s) (room_view s) \<and>
     matchMakingSocket s' = matchMakingSocket s \<and> length (so_pending s') \<le> length (so_pending s)"

definition round_ends :: "'a mkw_scheme \<Rightarrow> 'a mkw_scheme \<Rightarrow> bool" where
  "round_ends s s' \<longleftrightarrow> waiting s' \<and> (so_pending s = [] \<or> length (so_pending s') < length (so_pending s))"

lemma packet_processed:
  assumes ok: "recv_ok s" and k: "packet_size magic = Some k" "k \<le> recvBufSize s"
    and magic: "read_u32 (buffered s) 0 = Some magic"
  shows "\<exists>f' s1 s2. dispatch_packet magic (drop 4 (recvBuf s)) f s = Some (f', s1) \<and>
    consumeBuffer k s1 = Some s2 \<and> round_kept s s2"
proof -
  let ?data = "drop 4 (recvBuf s)"
  have k4: "4 < k" using packet_size_pos [OF k(1)] by simp
  have data: "k - 4 \<le> length ?data" using ok k(2) by (auto simp: recv_ok_def intro!: diff_le_mono)
  obtain f' s1 where s1: "dispatch_packet magic ?data f s = Some (f', s1)"
    "apply_packet magic (take (k - 4) ?data) (room_view s) = Some (room_view s1)" "same_connection s s1"
    using dispatch_is_apply [OF k(1) data] by blast
  have ok1: "recv_ok s1" "stream s1 = stream s" "recvBufSize s1 = recvBufSize s"
    "matchMakingSocket s1 = matchMakingSocket s" "so_inbox s1 = so_inbox s"
    using s1(3) ok by (auto simp: same_connection_def recv_ok_def stream_def buffered_def so_pending_def)
  obtain s2 where s2: "consumeBuffer k s1 = Some s2" "recv_ok s2" "stream s2 = drop k (stream s1)"
    "room_view s2 = room_view s1" "matchMakingSocket s2 = matchMakingSocket s1" "so_inbox s2 = so_inbox s1"
    using consumeBuffer_spec [OF ok1(1), of k] k(2) ok1(3) by auto
  have len: "length (buffered s) = recvBufSize s" by (rule length_buffered [OF ok])
  have "take (k - 4) ?data = take (k - 4) (drop 4 (stream s))"
    using k(2) k4 len by (simp add: stream_def buffered_def take_drop min_def)
  moreover have "read_u32 (stream s) 0 = Some magic"
    using magic read_u32_append [of 0 "buffered s" "so_pending s"] len k(2) k4 by (simp add: stream_def)
  ultimately have "deliver (stream s) (room_view s) = deliver (drop k (stream s)) (room_view s1)"
    using deliver_complete [OF _ _ k(1), of "stream s"] s1(2) k(2) len by (simp add: stream_def)
  then have "round_kept s s2" using ok1 s2 by (simp add: round_kept_def so_pending_def)
  then show ?thesis using s1(1) s2(1) by blast
qed

lemma recv_round_spec:
  assumes ok: "recv_ok s" and known: "deliver (stream s) (room_view s) = Some res"
  shows "\<exists>r s'. recv_round f s = Some (r, s') \<and> round_kept s s' \<and> (isl r \<longrightarrow> round_ends s s')"
proof -
  obtain s1 where s1: "recvIntoBuffer 4 s = Some (recvBufSize s1, s1)" "recv_ok s1" "stream s1 = stream s"
    "room_view s1 = room_view s" "matchMakingSocket s1 = matchMakingSocket s"
    "length (so_pending s1) \<le> length (so_pending s)"
    "recvBufSize s1 < 4 \<longrightarrow> so_pending s = [] \<or> length (so_pending s1) < length (so_pending s)"
    using recvIntoBuffer_spec [OF ok, of 4] by (auto simp: RECV_BUF_SIZE_def)
  show ?thesis
  proof (cases "recvBufSize s1 < 4")
    case True
    then have "waiting s1" by (simp add: waiting_def deliver_short length_buffered [OF s1(2)])
    then show ?thesis using s1 True by (simp add: recv_round_def round_kept_def round_ends_def)
  next
    case False
    have l4: "4 \<le> length (buffered s1)" using False length_buffered [OF s1(2)] by simp
    then have "4 \<le> length (stream s1)" by (simp add: stream_def)
    then obtain magic k where mk: "read_u32 (stream s1) 0 = Some magic" "packet_size magic = Some k"
      using deliver_known [of "stream s1" "room_view s1" res] known s1(3,4) by auto
    then have "read_u32 (buffered s1) 0 = Some magic"
      using l4 by (simp add: stream_def read_u32_append)
    then have magic: "read_u32 (recvBuf s1) 0 = Some magic"
      using read_u32_append [of 0 "buffered s1" "drop (recvBufSize s1) (recvBuf s1)"] l4
      by (simp add: buffered_def)
    have k: "4 < k" "k \<le> RECV_BUF_SIZE" using packet_size_pos [OF mk(2)] by simp_all
    obtain s2 where s2: "recvIntoBuffer k s1 = Some (recvBufSize s2, s2)" "recv_ok s2" "stream s2 = stream s1"
      "room_view s2 = room_view s1" "matchMakingSocket s2 = matchMakingSocket s1"
      "length (so_pending s2) \<le> length (so_pending s1)"
      "recvBufSize s2 < k \<longrightarrow> so_pending s1 = [] \<or> length (so_pending s2) < length (so_pending s1)"
      using recvIntoBuffer_spec [OF s1(2) k(2)] by auto
    have l2: "length (buffered s2) = recvBufSize s2" by (rule length_buffered [OF s2(2)])
    have grows: "recvBufSize s1 \<le> recvBufSize s2"
    proof -
      have "length (stream s2) = length (stream s1)" using s2(3) by simp
      then show ?thesis
        using s2(6) l2 length_buffered [OF s1(2)] by (simp add: stream_def)
    qed
    have magic2: "read_u32 (buffered s2) 0 = Some magic"
      using mk(1) s2(3) read_u32_append [of 0 "buffered s2" "so_pending s2"] l2 grows False
      by (simp add: stream_def)
    show ?thesis
    proof (cases "recvBufSize s2 < k")
      case True
      then have "waiting s2"
        using deliver_incomplete [OF _ magic2 mk(2)] l2 grows False by (simp add: waiting_def)
      moreover have "so_pending s = [] \<or> length (so_pending s2) < length (so_pending s)"
        using s1(3,6) s2(6,7) True by auto
      ultimately show ?thesis
        using s1 s2 True False magic mk(2) by (simp add: recv_round_def round_kept_def round_ends_def)
    next
      case False
      then obtain f' s3 s4 where s4: "dispatch_packet magic (drop 4 (recvBuf s2)) f s2 = Some (f', s3)"
        "consumeBuffer k s3 = Some s4" "round_kept s2 s4"
        using packet_processed [OF s2(2) mk(2) _ magic2, of f] False unfolding not_less by blast
      moreover have "round_kept s s4"
        using s1(3-6) s2(3-6) s4(3) by (simp add: round_kept_def)
      ultimately show ?thesis
        using s1(1) s2(1) False \<open>\<not> recvBufSize s1 < 4\<close> magic mk(2) by (simp add: recv_round_def)
    qed
  qed
qed

lemma recv_loop_spec:
  "recv_ok s \<Longrightarrow> deliver (stream s) (room_view s) = Some res \<Longrightarrow>
   \<exists>r s'. recv_loop f s = Some (r, s') \<and> round_kept s s' \<and> round_ends s s'"
proof (induction f s rule: recv_loop.induct)
  case (1 f s)
  obtain r s1 where r: "recv_round f s = Some (r, s1)" "round_kept s s1" "isl r \<longrightarrow> round_ends s s1"
    using recv_round_spec [OF 1(2,3)] by blast
  show ?case
  proof (cases r)
    case (Inl b)
    then show ?thesis using r by (subst recv_loop.simps) simp
  next
    case (Inr f1)
    then have "recv_loop f s = recv_loop f1 s1" using r by (subst recv_loop.simps) simp
    moreover obtain r2 s2 where "recv_loop f1 s1 = Some (r2, s2)" "round_kept s1 s2" "round_ends s1 s2"
      using 1(1) [OF r(1) refl Inr] r(2) 1(3) unfolding round_kept_def by metis
    ultimately show ?thesis using r(2) by (auto simp: round_kept_def round_ends_def)
  qed
qed

primrec poll :: "nat \<Rightarrow> 'a mkw_scheme \<Rightarrow> 'a mkw_scheme option" where
  "poll 0 s = Some s"
| "poll (Suc n) s = do { (r, s') \<leftarrow> recvFromRoomManager s; poll n s' }"

lemma poll_spec:
  "recv_ok s \<Longrightarrow> matchMakingSocket s \<noteq> -1 \<Longrightarrow> deliver (stream s) (room_view s) = Some res \<Longrightarrow>
   length (so_pending s) < n \<Longrightarrow>
   \<exists>s'. poll n s = Some s' \<and> recv_ok s' \<and> so_pending s' = [] \<and> res = (buffered s', room_view s')"
proof (induction n arbitrary: s)
  case 0
  then show ?case by simp
next
  case (Suc n)
  obtain r s1 where r: "recvFromRoomManager s = Some (r, s1)" "round_kept s s1" "round_ends s s1"
    using recv_loop_spec [OF Suc.prems(1,3), of False] Suc.prems(2) by (auto simp: recvFromRoomManager_def)
  show ?case
  proof (cases n)
    case 0
    then have "so_pending s1 = []" using Suc.prems(4) r(2) by (simp add: round_kept_def)
    moreover have "res = (buffered s1, room_view s1)"
      using r Suc.prems(3) calculation by (auto simp: round_kept_def round_ends_def waiting_def stream_def)
    ultimately show ?thesis using 0 r by (simp add: round_kept_def)
  next
    case (Suc m)
    then have "length (so_pending s1) < n"
      using Suc.prems(4) r(2,3) by (auto simp: round_kept_def round_ends_def)
    then show ?thesis
      using Suc.IH [of s1] Suc.prems r by (simp add: round_kept_def)
  qed
qed

text \<open>
  Polling often enough processes the stream whatever the chunks are: all packets, in order, and the
  incomplete rest stays buffered.  No call faults and each returns.
\<close>

text \<open>C2: The packet loop of recvFromRoomManager refines a specification on byte streams. However the
  bytes of the TCP stream are cut into receives, what has been applied to the match-making info
  and the server address is what the specification applies to the stream, and the bytes not yet
  applied are what it leaves.\<close>

theorem recv_refines_deliver:
  assumes "recv_ok s" and "matchMakingSocket s \<noteq> -1"
    and "deliver (buffered s @ concat (so_inbox s)) (room_view s) = Some (rest, v)"
    and "length (concat (so_inbox s)) < n"
  shows "\<exists>s'. poll n s = Some s' \<and> recv_ok s' \<and> so_pending s' = [] \<and> buffered s' = rest \<and> room_view s' = v"
  using poll_spec [of s "(rest, v)" n] assms by (auto simp: stream_def so_pending_def)

text \<open>A connection on which the server's address arrives in three pieces.\<close>

definition mkw_start :: "bytes list \<Rightarrow> mkw" where
  "mkw_start cs = \<lparr>so_replies = [], so_inbox = cs, so_log = [], hasRequestedMKWServerAddress = False,
     mkwServerAddr = sockaddr_zero, wfcSearchId = 0, ping = replicate 5 0, hbsock = 0,
     recvMatchPacket = mm_zero, serverAddr = sockaddr_zero, matchMakingSocket = 3, connection = 0,
     recvBuf = replicate 256 0, recvBufSize = 0\<rparr>"

theorem recv_refines_deliver_witness:
  "\<exists>s'. poll 20 (mkw_start [[0x4d, 0x4b], [0x57, 0x53, 1, 2, 3, 4, 5], [6, 0x77]]) = Some s' \<and>
     buffered s' = [0x77] \<and> sa_addr (mkwServerAddr s') = 0x01020304 \<and> sa_port (mkwServerAddr s') = 0x0506"
proof -
  let ?s = "mkw_start [[0x4d, 0x4b], [0x57, 0x53, 1, 2, 3, 4, 5], [6, 0x77]]"
  let ?addr = "\<lparr>sa_len = SOCKADDR_SIZE, sa_family = 2, sa_port = 0x0506, sa_addr = 0x01020304\<rparr> :: sockaddr"
  have "deliver [0x4d, 0x4b, 0x57, 0x53, 1, 2, 3, 4, 5, 6, 0x77] (mm_zero, sockaddr_zero) =
      Some ([0x77], mm_zero, ?addr)"
    by code_simp
  then show ?thesis
    using recv_refines_deliver [of ?s "[0x77]" "(mm_zero, ?addr)" 20]
    by (auto simp: mkw_start_def recv_ok_def RECV_BUF_SIZE_def buffered_def room_view_def)
qed

end
