(* ===== verification/Room_Session.thy ===== *)
theory Room_Session
  imports Room_Stream
begin

text \<open>
  The life of the connection to the room manager, over every order of the operations of
  \<open>RoomManager.cc\<close> and every behaviour of the socket layer: which states are reachable, that the
  client holds at most one socket and closes what it opens, and what its requests contain.
\<close>

section \<open>The operations as steps\<close>

inductive room_step :: "'a mkw_scheme \<Rightarrow> 'a mkw_scheme \<Rightarrow> bool" where
  Connect: "connectToRoomManager s = (r, s') \<Longrightarrow> room_step s s'"
| Reset: "room_step s (resetRoomManagerConnection s)"
| Send: "sendToRoomManager message s = (r, s') \<Longrightarrow> room_step s s'"
| Receive: "recvFromRoomManager s = Some (r, s') \<Longrightarrow> room_step s s'"
| SearchId: "handleSearchIdPacket packet s = Some (r, s') \<Longrightarrow> room_step s s'"
| Race: "trySendRacePacketToMKWServer data s = (r, s') \<Longrightarrow> room_step s s'"
| Ready: "room_step s (sendReadyPacket s)"
| Pong: "room_step s (sendPong s)"

inductive_cases room_stepE: "room_step s s'"

text \<open>Sockets made and not closed, by the log of the calls.\<close>

fun opened :: "so_call \<times> int \<Rightarrow> int" where
  "opened (SOSocket a b c, r) = (if r = -1 then 0 else 1)"
| "opened (SOClose sock, r) = -1"
| "opened _ = 0"

definition open_sockets :: "'a mkw_scheme \<Rightarrow> int" where
  "open_sockets s = sum_list (map opened (so_log s))"

text \<open>One socket while \<open>g_matchMakingSocket\<close> is set, none otherwise; connected only with a socket.\<close>

definition conn_inv :: "'a mkw_scheme \<Rightarrow> bool" where
  "conn_inv s \<longleftrightarrow> open_sockets s = (if matchMakingSocket s = -1 then 0 else 1) \<and>
     (connection s = 0 \<longrightarrow> matchMakingSocket s \<noteq> -1)"

lemma open_sockets_call:
  "so_call c s = (r, s') \<Longrightarrow> open_sockets s' = open_sockets s + opened (c, r) \<and>
   matchMakingSocket s' = matchMakingSocket s \<and> connection s' = connection s"
  by (auto simp: so_call_def Let_def open_sockets_def)

lemma conn_inv_call:
  "conn_inv s \<Longrightarrow> opened (c, r) = 0 \<Longrightarrow> so_call c s = (r, s') \<Longrightarrow> conn_inv s'"
  using open_sockets_call [of c s r s'] by (simp add: conn_inv_def)

lemma conn_inv_frame:
  "conn_inv s \<Longrightarrow> so_log s' = so_log s \<Longrightarrow> matchMakingSocket s' = matchMakingSocket s \<Longrightarrow>
   connection s' = connection s \<Longrightarrow> conn_inv s'"
  by (simp add: conn_inv_def open_sockets_def)

lemma conn_inv_reset:
  assumes "conn_inv s"
  shows "conn_inv (resetRoomManagerConnection s)" and "matchMakingSocket s \<noteq> -1 \<Longrightarrow> connection (resetRoomManagerConnection s) = -1"
proof -
  obtain r s1 where "so_call (SOClose (matchMakingSocket s)) s = (r, s1)" by force
  then show "conn_inv (resetRoomManagerConnection s)"
    and "matchMakingSocket s \<noteq> -1 \<Longrightarrow> connection (resetRoomManagerConnection s) = -1"
    using assms open_sockets_call [of "SOClose (matchMakingSocket s)" s r s1]
    by (auto simp: resetRoomManagerConnection_def resetMatchMakingInfoPacket_def resetMKWServerInfo_def
        Let_def conn_inv_def open_sockets_def)
qed

lemma inet_aton_inv: "inet_aton host s = (a, s') \<Longrightarrow> conn_inv s \<Longrightarrow> conn_inv s' \<and> connection s' = connection s"
proof -
  have call: "conn_inv x' \<and> connection x' = connection x"
    if "so_call (SOInetAtoN host) x = (r, x')" "conn_inv x" for r and x x' :: "'a mkw_scheme"
    using conn_inv_call [OF that(2) _ that(1)] open_sockets_call [OF that(1)] by simp
  assume "inet_aton host s = (a, s')" "conn_inv s"
  then show ?thesis by (auto simp: inet_aton_def Let_def split: prod.splits if_splits dest: call) (metis call)
qed

lemma open_socket_inv:
  "open_socket s = (made, s') \<Longrightarrow> conn_inv s \<Longrightarrow> connection s \<noteq> 0 \<Longrightarrow>
   conn_inv s' \<and> connection s' = connection s \<and> (made \<longleftrightarrow> matchMakingSocket s' \<noteq> -1)"
  using open_sockets_call [of "SOSocket 2 1 0" s]
  by (cases "so_call (SOSocket 2 1 0) s")
    (auto simp: open_socket_def conn_inv_def open_sockets_def split: if_splits)

lemma set_nonblocking_inv:
  assumes res: "set_nonblocking s = (ok, s')" and inv: "conn_inv s" and c: "connection s = 0"
  shows "conn_inv s' \<and> (ok \<longleftrightarrow> connection s' = 0)"
proof -
  obtain r1 s1 where s1: "so_call (SOFcntl (matchMakingSocket s) SO_F_GETFL 0) s = (r1, s1)" by force
  obtain r2 s2 where s2: "so_call (SOFcntl (matchMakingSocket s1) SO_F_SETFL (r1 OR SO_O_NONBLOCK)) s1 = (r2, s2)"
    by force
  have i1: "conn_inv s1" "connection s1 = 0" "matchMakingSocket s1 \<noteq> -1"
    using conn_inv_call [OF inv _ s1] open_sockets_call [OF s1] c inv by (auto simp: conn_inv_def)
  have i2: "conn_inv s2" "connection s2 = 0" "matchMakingSocket s2 \<noteq> -1"
    using conn_inv_call [OF i1(1) _ s2] open_sockets_call [OF s2] i1 by auto
  show ?thesis
    using res s1 s2 i1 i2 conn_inv_reset [OF i1(1)] conn_inv_reset [OF i2(1)]
    by (auto simp: set_nonblocking_def split: if_splits)
qed

lemma connectToRoomManager_inv:
  assumes "conn_inv s"
  shows "case connectToRoomManager s of (ok, s') \<Rightarrow> conn_inv s' \<and> (ok \<longleftrightarrow> connection s' = 0)"
proof (cases "connection s = 0")
  case True
  then show ?thesis using assms by (simp add: connectToRoomManager_def)
next
  case False
  let ?s1 = "s\<lparr>serverAddr := (serverAddr s)\<lparr>sa_family := 2, sa_port := 28910\<rparr>\<rparr>"
  obtain a s2 where s2: "inet_aton SERVER_HOSTNAME ?s1 = (a, s2)" by force
  have "conn_inv ?s1" using assms by (rule conn_inv_frame) simp_all
  then have i2: "conn_inv s2" "connection s2 = connection s" using inet_aton_inv [OF s2] by simp_all
  let ?s3 = "s2\<lparr>serverAddr := (serverAddr s2)\<lparr>sa_addr := (case a of Some a \<Rightarrow> a | None \<Rightarrow> WFC_SERVER_ADDRESS)\<rparr>\<rparr>"
  obtain made s4 where s4: "open_socket ?s3 = (made, s4)" by force
  have "conn_inv ?s3" using i2(1) by (rule conn_inv_frame) simp_all
  then have i4: "conn_inv s4" "connection s4 \<noteq> 0" "made \<longleftrightarrow> matchMakingSocket s4 \<noteq> -1"
    using open_socket_inv [OF s4] i2(2) False by simp_all
  let ?s5 = "s4\<lparr>serverAddr := (serverAddr s4)\<lparr>sa_len := SOCKADDR_SIZE\<rparr>\<rparr>"
  obtain c s6 where s6: "so_call (SOConnect (matchMakingSocket s4) (serverAddr ?s5)) ?s5 = (c, s6)" by force
  let ?s7 = "s6\<lparr>connection := c\<rparr>"
  have "conn_inv ?s5" using i4(1) by (rule conn_inv_frame) simp_all
  then have i7: "made \<Longrightarrow> conn_inv ?s7"
    using open_sockets_call [OF s6] i4(3) by (auto simp: conn_inv_def open_sockets_def)
  obtain ok s8 where s8: "set_nonblocking ?s7 = (ok, s8)" by force
  show ?thesis
    using set_nonblocking_inv [OF s8] i4 i7 False s2 s4 s6 s8
    by (auto simp: connectToRoomManager_def Let_def)
qed

section \<open>Every reachable state\<close>

lemma conn_inv_sendto:
  "conn_inv s \<Longrightarrow> conn_inv (snd (so_call (SOSendTo sock data addr) s))"
  "conn_inv s \<Longrightarrow> conn_inv (snd (so_call (SOSend sock data) s))"
  using conn_inv_call [of s "SOSendTo sock data addr"] conn_inv_call [of s "SOSend sock data"]
  by (metis opened.simps(6,7) prod.collapse)+

definition conn_same :: "'a mkw_scheme \<Rightarrow> 'a mkw_scheme \<Rightarrow> bool" where
  "conn_same s s' \<longleftrightarrow> so_log s' = so_log s \<and> matchMakingSocket s' = matchMakingSocket s \<and>
     connection s' = connection s"

lemma conn_same_trans: "conn_same a b \<Longrightarrow> conn_same b c \<Longrightarrow> conn_same a c"
  by (simp add: conn_same_def)

lemma recvIntoBuffer_conn:
  assumes "recvIntoBuffer n s = Some (k, s')"
  shows "conn_same s s'"
proof -
  obtain r s1 where r: "so_recv (RECV_BUF_SIZE - recvBufSize s) s = (r, s1)" by force
  then obtain i where "s1 = s\<lparr>so_inbox := i\<rparr>" using so_recv_pending by blast
  then show ?thesis
    using assms r by (auto simp: recvIntoBuffer_def bind_Some_iff conn_same_def split: if_splits)
qed

lemma dispatch_conn: "dispatch_packet magic data f s = Some (f', s') \<Longrightarrow> conn_same s s'"
  by (auto simp: dispatch_packet_def processMKWServerInfoPacket_def setMKWServerAddress_def
      bind_Some_iff conn_same_def split: if_splits)

lemma consume_conn: "consumeBuffer n s = Some s' \<Longrightarrow> conn_same s s'"
  by (auto simp: consumeBuffer_def bind_Some_iff conn_same_def)

lemma recv_round_conn:
  assumes "recv_round f s = Some (r, s')"
  shows "conn_same s s'"
proof -
  obtain n s1 where s1: "recvIntoBuffer 4 s = Some (n, s1)"
    using assms by (auto simp: recv_round_def bind_Some_iff)
  note c1 = recvIntoBuffer_conn [OF s1]
  show ?thesis
  proof (cases "n < 4")
    case True
    then show ?thesis using assms s1 c1 by (auto simp: recv_round_def)
  next
    case False
    then obtain magic where magic: "read_u32 (recvBuf s1) 0 = Some magic"
      using assms s1 by (auto simp: recv_round_def bind_Some_iff)
    show ?thesis
    proof (cases "packet_size magic")
      case None
      then show ?thesis using assms s1 c1 False magic by (auto simp: recv_round_def conn_same_def)
    next
      case (Some k)
      then obtain n2 s2 where s2: "recvIntoBuffer k s1 = Some (n2, s2)"
        using assms s1 False magic by (auto simp: recv_round_def bind_Some_iff)
      have c2: "conn_same s s2" using c1 recvIntoBuffer_conn [OF s2] by (rule conn_same_trans)
      show ?thesis
        using assms s1 False magic Some s2 c2
        by (auto simp: recv_round_def bind_Some_iff split: if_splits
            intro: conn_same_trans [OF conn_same_trans] dest!: dispatch_conn consume_conn)
    qed
  qed
qed

lemma recv_loop_conn:
  "recv_loop f s = Some (r, s') \<Longrightarrow> conn_same s s'"
proof (induction f s arbitrary: r s' rule: recv_loop.induct)
  case (1 f s)
  obtain x s1 where x: "recv_round f s = Some (x, s1)"
    using 1(2) by (subst (asm) recv_loop.simps) (auto split: option.splits)
  show ?case
  proof (cases x)
    case (Inl b)
    then show ?thesis using 1(2) x recv_round_conn [OF x] by (subst (asm) recv_loop.simps) auto
  next
    case (Inr g)
    then have "recv_loop g s1 = Some (r, s')" using 1(2) x by (subst (asm) recv_loop.simps) simp
    then show ?thesis using 1(1) [OF x refl Inr] recv_round_conn [OF x] by (blast intro: conn_same_trans)
  qed
qed

lemma conn_inv_search_id:
  assumes "handleSearchIdPacket packet s = Some (r, s')" and "conn_inv s"
  shows "conn_inv s'"
proof -
  obtain i where i: "Bytes_Read Big_Endian packet 8 = Some (i :: u64)"
    using assms(1) by (auto simp: handleSearchIdPacket_def bind_Some_iff)
  let ?s1 = "s\<lparr>wfcSearchId := i\<rparr>"
  obtain b s2 where s2: "sendMessageToQR2 packet ?s1 = (b, s2)" by force
  have "conn_inv ?s1" using assms(2) by (rule conn_inv_frame) simp_all
  then have "conn_inv s2"
    using s2 conn_inv_sendto(1) [of ?s1] by (auto simp: sendMessageToQR2_def Let_def split: prod.splits if_splits)
      (metis snd_conv)+
  then show ?thesis
    using assms(1) i s2 connectToRoomManager_inv [of s2]
    by (auto simp: handleSearchIdPacket_def split: prod.splits if_splits)
qed

lemma conn_inv_step: "room_step s s' \<Longrightarrow> conn_inv s \<Longrightarrow> conn_inv s'"
proof (induction rule: room_step.induct)
  case (Connect s r s')
  then show ?case using connectToRoomManager_inv [of s] by auto
next
  case (Receive s r s')
  then show ?case
    using recv_loop_conn [of False s r s']
    by (auto simp: recvFromRoomManager_def conn_same_def intro: conn_inv_frame split: if_splits)
next
  case (Send message s r s')
  then show ?case
    using conn_inv_sendto(2) [of s "matchMakingSocket s" message]
    by (auto simp: sendToRoomManager_def split: prod.splits if_splits)
next
  case (Race data s r s')
  then show ?case
    using conn_inv_sendto(1) [of s "hbsock s" data "mkwServerAddr s"]
    by (auto simp: trySendRacePacketToMKWServer_def split: prod.splits if_splits)
qed (auto simp: conn_inv_reset conn_inv_sendto sendReadyPacket_def sendPong_def conn_inv_search_id)

inductive room_reachable :: "'a mkw_scheme \<Rightarrow> 'a mkw_scheme \<Rightarrow> bool" for s0 where
  start: "room_reachable s0 s0"
| step: "room_reachable s0 s \<Longrightarrow> room_step s s' \<Longrightarrow> room_reachable s0 s'"


text \<open>A client that has just started, and a run of the socket layer in which the connection works.\<close>

definition mkw_boot :: "int list \<Rightarrow> mkw" where
  "mkw_boot replies = (mkw_start [])\<lparr>so_replies := replies, matchMakingSocket := -1, connection := -1\<rparr>"


section \<open>Requests on the wire\<close>

lemma header_fields:
  "read_u32 (header_bytes h @ rest) 0 = Some (mh_magic h)"
  "rd (header_bytes h @ rest) 4 = Some (mrt_value (mh_type h))"
  "Bytes_Read Big_Endian (header_bytes h @ rest) 8 = Some (mh_searchId h)"
  "length (header_bytes h) = 0x10"
proof -
  show "read_u32 (header_bytes h @ rest) 0 = Some (mh_magic h)"
    using Bytes_Read_struct [where pre = "[]" and v = "mh_magic h" and n = 4 and off = 0]
    by (simp add: header_bytes_def read_u32_is_Read)
  show "rd (header_bytes h @ rest) 4 = Some (mrt_value (mh_type h))"
    by (simp add: header_bytes_def rd_def nth_append size_of_32)
  have "length (to_be (mh_magic h) @ [mrt_value (mh_type h)] @ replicate 3 0) = 8"
    by (simp add: size_of_32)
  then show "Bytes_Read Big_Endian (header_bytes h @ rest) 8 = Some (mh_searchId h)"
    using Bytes_Read_struct [where pre = "to_be (mh_magic h) @ [mrt_value (mh_type h)] @ replicate 3 0"
        and v = "mh_searchId h" and n = 8 and off = 8]
    by (simp add: header_bytes_def)
  show "length (header_bytes h) = 0x10" by (simp add: header_bytes_def size_of_32 size_of_64)
qed

lemma sendToRoomManager_log:
  "matchMakingSocket s \<noteq> -1 \<Longrightarrow> sendToRoomManager msg s = (ok, s') \<Longrightarrow>
   \<exists>r. so_log s' = so_log s @ [(SOSend (matchMakingSocket s) msg, r)] \<and> (ok \<longleftrightarrow> r \<noteq> 0)"
  by (auto simp: sendToRoomManager_def so_call_def Let_def)

lemma joinFriend_on_wire:
  assumes "matchMakingSocket s \<noteq> -1" and "sendJoinFriendRequest pid region s = (ok, s')"
  shows "\<exists>msg r. so_log s' = so_log s @ [(SOSend (matchMakingSocket s) msg, r)] \<and> length msg = 0x18 \<and>
    read_u32 msg 0 = Some MATCH_REQUEST_HEADER_MAGIC \<and> rd msg 4 = Some (mrt_value JoinFriend) \<and>
    Bytes_Read Big_Endian msg 8 = Some (wfcSearchId s) \<and>
    read_u32 msg 0x10 = Some pid \<and> rd msg 0x14 = Some (word_of_int (sr_value region))"
proof -
  let ?h = "createMatchRequestHeader JoinFriend s"
  let ?rest = "to_be pid @ [word_of_int (sr_value region)] @ replicate 3 0 :: bytes"
  have msg: "joinFriend_bytes ?h pid region = header_bytes ?h @ ?rest"
    by (simp add: joinFriend_bytes_def)
  obtain r where "so_log s' = so_log s @ [(SOSend (matchMakingSocket s) (header_bytes ?h @ ?rest), r)]"
    using sendToRoomManager_log [OF assms(1)] assms(2) unfolding sendJoinFriendRequest_def msg by blast
  moreover have "read_u32 (header_bytes ?h @ ?rest) 0x10 = Some pid"
    using Bytes_Read_struct [where pre = "header_bytes ?h" and v = pid and n = 4 and off = "0x10"]
    by (simp add: header_fields(4) read_u32_is_Read)
  moreover have "rd (header_bytes ?h @ ?rest) 0x14 = Some (word_of_int (sr_value region))"
    by (simp add: rd_def nth_append header_fields(4) size_of_32)
  moreover have "length (header_bytes ?h @ ?rest) = 0x18" by (simp add: header_fields(4) size_of_32)
  ultimately show ?thesis
    using header_fields(1-3) [of ?h ?rest] unfolding createMatchRequestHeader_def getSearchId_def
    by (intro exI conjI) (assumption | simp)+
qed

lemma joinFriend_on_wire_witness:
  "\<exists>msg r. so_log (snd (sendJoinFriendRequest 77 SR_WW (mkw_start []))) = [(SOSend 3 msg, r)] \<and>
     read_u32 msg 0x10 = Some 77 \<and> rd msg 0x14 = Some 1"
proof -
  let ?s = "mkw_start []"
  obtain ok s' where s': "sendJoinFriendRequest 77 SR_WW ?s = (ok, s')" by force
  have "matchMakingSocket ?s = 3" "so_log ?s = []" by (simp_all add: mkw_start_def)
  then show ?thesis using joinFriend_on_wire [OF _ s'] s' by auto
qed

lemma connectToRoomManager_result:
  assumes "open_sockets s = (if matchMakingSocket s = -1 then 0 else 1)"
    and "connection s = 0 \<Longrightarrow> matchMakingSocket s \<noteq> -1"
  shows "case connectToRoomManager s of (ok, s') \<Rightarrow>
    (ok \<longleftrightarrow> connection s' = 0) \<and> (if ok then open_sockets s' = 1
       else open_sockets s' = (if matchMakingSocket s' = -1 then 0 else 1))"
  using connectToRoomManager_inv [of s] assms by (auto simp: conn_inv_def)

lemma connectToRoomManager_result_witness:
  "case connectToRoomManager (mkw_boot [0, 7, -1]) of (ok, s') \<Rightarrow> (ok \<longleftrightarrow> connection s' = 0)"
  using connectToRoomManager_result [of "mkw_boot [0, 7, -1]"]
  by (simp add: open_sockets_def mkw_boot_def mkw_start_def split: prod.splits)

end
