(* ===== verification/Race_Packets.thy ===== *)
theory Race_Packets
  imports MKW_Server
begin

text \<open>
  The buffers a race packet is put together from: \<open>payload/game/net/RecordHolder.hh\<close>,
  \<open>RacePacketHolder\<close>, \<open>records/Header.hh\<close>, and the list of packets that wait to be sent
  (\<open>payload/sp/net/mkw_server/packets/OutgoingPacket.cc\<close>).
\<close>

section \<open>RecordHolder\<close>

text \<open>\<open>h_record\<close> is the memory \<open>m_record\<close> points to.\<close>

record holder =
  h_record :: bytes
  h_bufferSize :: nat
  h_recordSize :: nat

definition holder_reset :: "holder \<Rightarrow> holder option" where
  "holder_reset h = do {
     r \<leftarrow> wr_n (h_record h) 0 (replicate (h_bufferSize h) 0);
     Some (h\<lparr>h_record := r, h_recordSize := 0\<rparr>)
   }"

definition holder_copy :: "bytes \<Rightarrow> nat \<Rightarrow> holder \<Rightarrow> holder option" where
  "holder_copy src len h = do {
     d \<leftarrow> rd_n src 0 len;
     r \<leftarrow> wr_n (h_record h) 0 d;
     Some (h\<lparr>h_record := r, h_recordSize := len\<rparr>)
   }"

definition holder_append :: "bytes \<Rightarrow> nat \<Rightarrow> holder \<Rightarrow> holder option" where
  "holder_append src len h = do {
     d \<leftarrow> rd_n src 0 len;
     r \<leftarrow> wr_n (h_record h) (h_recordSize h) d;
     Some (h\<lparr>h_record := r, h_recordSize := h_recordSize h + len\<rparr>)
   }"

text \<open>The bytes a holder holds.\<close>

definition held :: "holder \<Rightarrow> bytes" where
  "held h = take (h_recordSize h) (h_record h)"

definition holder_ok :: "holder \<Rightarrow> bool" where
  "holder_ok h \<longleftrightarrow> h_bufferSize h = length (h_record h) \<and> h_recordSize h \<le> h_bufferSize h"

lemma holder_reset_ok:
  "holder_ok h \<Longrightarrow> \<exists>h'. holder_reset h = Some h' \<and> holder_ok h' \<and> held h' = [] \<and> h_bufferSize h' = h_bufferSize h"
  by (auto simp: holder_reset_def holder_ok_def held_def splice_def)

lemma holder_copy_ok:
  assumes "holder_ok h" and "len \<le> length src" and "len \<le> h_bufferSize h"
  shows "\<exists>h'. holder_copy src len h = Some h' \<and> holder_ok h' \<and> held h' = take len src \<and>
    h_bufferSize h' = h_bufferSize h"
  using assms by (auto simp: holder_copy_def holder_ok_def held_def splice_def)

lemma holder_append_ok:
  assumes "holder_ok h" and "len \<le> length src" and "h_recordSize h + len \<le> h_bufferSize h"
  shows "\<exists>h'. holder_append src len h = Some h' \<and> holder_ok h' \<and> held h' = held h @ take len src \<and>
    h_bufferSize h' = h_bufferSize h"
  using assms by (auto simp: holder_append_def holder_ok_def held_def splice_def min_def)

lemma length_held: "holder_ok h \<Longrightarrow> length (held h) = h_recordSize h"
  by (simp add: held_def holder_ok_def)

section \<open>RacePacketHolder\<close>

text \<open>The eight holders by record type; any other index is a null pointer.\<close>

type_synonym race_packet_holder = "holder list"

definition HEADER_RECORD :: nat where
  "HEADER_RECORD = 0"

primrec rph_size :: "race_packet_holder \<Rightarrow> nat \<Rightarrow> nat option" where
  "rph_size p 0 = Some 0"
| "rph_size p (Suc i) = do {
     total \<leftarrow> rph_size p i;
     h \<leftarrow> rd p i;
     Some (total + h_recordSize h)
   }"

definition RacePacketHolder_size :: "race_packet_holder \<Rightarrow> nat option" where
  "RacePacketHolder_size p = rph_size p 8"

primrec rph_reset :: "nat \<Rightarrow> race_packet_holder \<Rightarrow> race_packet_holder option" where
  "rph_reset 0 p = Some p"
| "rph_reset (Suc i) p = do {
     p \<leftarrow> rph_reset i p;
     h \<leftarrow> rd p i;
     h' \<leftarrow> holder_reset h;
     wr p i h'
   }"

definition RacePacketHolder_reset :: "race_packet_holder \<Rightarrow> race_packet_holder option" where
  "RacePacketHolder_reset p = rph_reset 8 p"

section \<open>Header\<close>

record net_header =
  nh_magic :: u8
  nh_myAid :: u8
  nh_sendToAids :: u16
  nh_crc32 :: u32
  nh_recordSizes :: bytes

definition HEADER_SIZE :: nat where
  "HEADER_SIZE = 0x10"

definition net_header_zero :: net_header where
  "net_header_zero = \<lparr>nh_magic = 0, nh_myAid = 0, nh_sendToAids = 0, nh_crc32 = 0, nh_recordSizes = replicate 8 0\<rparr>"

definition setRecordSize :: "nat \<Rightarrow> u8 \<Rightarrow> net_header \<Rightarrow> net_header option" where
  "setRecordSize recordId n h = do {
     r \<leftarrow> wr (nh_recordSizes h) recordId n;
     Some (h\<lparr>nh_recordSizes := r\<rparr>)
   }"

text \<open>\<open>getSize\<close>: the sum of the record sizes as a \<open>u32\<close>.\<close>

definition getSize :: "net_header \<Rightarrow> u32" where
  "getSize h = fold (\<lambda>b total. total + ucast b) (take 8 (nh_recordSizes h)) 0"

text \<open>The struct in memory.\<close>

definition net_header_bytes :: "net_header \<Rightarrow> bytes" where
  "net_header_bytes h = [nh_magic h, nh_myAid h] @ to_be (nh_sendToAids h) @ to_be (nh_crc32 h) @ nh_recordSizes h"

text \<open>\<open>setSendAids\<close> on a header that lies at the front of a buffer.\<close>

definition setSendAids :: "u16 \<Rightarrow> bytes \<Rightarrow> bytes option" where
  "setSendAids aids r = wr_n r 2 (to_be aids)"

definition set_crc32 :: "u32 \<Rightarrow> bytes \<Rightarrow> bytes option" where
  "set_crc32 crc r = wr_n r 4 (to_be crc)"

lemma length_net_header: "length (nh_recordSizes h) = 8 \<Longrightarrow> length (net_header_bytes h) = HEADER_SIZE"
  by (simp add: net_header_bytes_def HEADER_SIZE_def size_of_16 size_of_32)

lemma wr_n_front: "length xs = length ys \<Longrightarrow> length pre = i \<Longrightarrow> wr_n (pre @ xs @ rest) i ys = Some (pre @ ys @ rest)"
  by (simp add: wr_n_def splice_def)

lemma setSendAids_header:
  "setSendAids aids (net_header_bytes h @ rest) = Some (net_header_bytes (h\<lparr>nh_sendToAids := aids\<rparr>) @ rest)"
  using wr_n_front [of "to_be (nh_sendToAids h)" "to_be aids" "[nh_magic h, nh_myAid h]" 2
      "to_be (nh_crc32 h) @ nh_recordSizes h @ rest"]
  by (simp add: setSendAids_def net_header_bytes_def)

lemma set_crc32_header:
  "set_crc32 crc (net_header_bytes h @ rest) = Some (net_header_bytes (h\<lparr>nh_crc32 := crc\<rparr>) @ rest)"
  using wr_n_front [of "to_be (nh_crc32 h)" "to_be crc" "[nh_magic h, nh_myAid h] @ to_be (nh_sendToAids h)" 4
      "nh_recordSizes h @ rest"]
  by (simp add: set_crc32_def net_header_bytes_def size_of_16)

end
