(* ===== verification/Net_Manager.thy ===== *)
theory Net_Manager
  imports Race_Packets Room_Manager
begin

text \<open>
  \<open>payload/game/net/NetManager.cc\<close>: race packets go to the game server once per frame, one per
  distinct set of records, with the aids of its recipients in the header; match-making goes through
  the room manager.  The record \<open>net_manager\<close> extends the statics of \<open>mkw\<close> by the members of the
  class that the functions use.  Functions of the game itself are parameters: the checksum
  \<open>NETCalcCRC32\<close>, \<open>getFriendJoinableStatus\<close>, \<open>DWCi_GetProfileIDFromList\<close>.
\<close>

section \<open>State\<close>

datatype RoomType =
    RT_None | RT_VersusWorldWide | RT_VersusRegional | RT_BattleWorldWide | RT_BattleRegional
  | RT_HostPrivate | RT_GuestPrivate | RT_JoiningFriendVsWorldWide | RT_JoiningFriendVsRegional
  | RT_JoiningFriendBattleWorldWide | RT_JoiningFriendBattleRegional

datatype VoteMatchMakingSuspended = VM_None | VM_Disconnected | VM_VoteSuspend | VM_VoteUnsuspend

datatype FriendJoinableStatus =
    FJ_None | FJ_Offline | FJ_Online | FJ_OpenRoom | FJ_PlayingWithFriend | FJ_WorldWideVersus
  | FJ_JoinableRegionalVS | FJ_UnjoinableRegionalVS | FJ_WorldWideBattle | FJ_JoinableRegionalBattle
  | FJ_UnjoinableRegionalBattle | FJ_HostingGrandPrix | FJ_HostingBattle
  | FJ_PlayingWithFriendsRaceCount | FJ_PlayingWithFriendBattleCount

text \<open>A packet of \<open>OutgoingRacePackets\<close>; \<open>pk_data\<close> is the aid whose outgoing buffer it points to.\<close>

record packet =
  pk_data :: "nat option"
  pk_receivingAids :: u16
  pk_headerSizes :: u32

record net_manager = mkw +
  m_matchMakingInfos :: "mm_info list"
  m_currMMInfo :: nat
  m_roomType :: RoomType
  m_voteMMSuspension :: VoteMatchMakingSuspended
  m_sendRacePackets :: "race_packet_holder list list"
  m_recvRacePackets :: "race_packet_holder list list"
  m_outgoingRacePacket :: "holder list"
  m_shutdownScheduled :: bool
  m_vr :: u32
  m_br :: u32
  m_lastSendIdx :: "nat list"
  m_lastRecvIdx :: "nat list list"
  m_outgoingPackets :: "packet list"
  m_count :: nat

text \<open>Two-dimensional arrays.\<close>

definition rd2 :: "'b list list \<Rightarrow> nat \<Rightarrow> nat \<Rightarrow> 'b option" where
  "rd2 xss i j = do { xs \<leftarrow> rd xss i; rd xs j }"

definition wr2 :: "'b list list \<Rightarrow> nat \<Rightarrow> nat \<Rightarrow> 'b \<Rightarrow> 'b list list option" where
  "wr2 xss i j x = do { xs \<leftarrow> rd xss i; ys \<leftarrow> wr xs j x; wr xss i ys }"

section \<open>The room\<close>

definition currentMMInfo :: "'a net_manager_scheme \<Rightarrow> mm_info option" where
  "currentMMInfo s = rd (m_matchMakingInfos s) (m_currMMInfo s)"

definition myAid :: "'a net_manager_scheme \<Rightarrow> u8 option" where
  "myAid s = map_option mi_myAid (currentMMInfo s)"

definition numAids :: "'a net_manager_scheme \<Rightarrow> u32 option" where
  "numAids s = map_option mi_numAids (currentMMInfo s)"

definition aidInUse :: "u8 \<Rightarrow> 'a net_manager_scheme \<Rightarrow> bool option" where
  "aidInUse aid s = do { m \<leftarrow> currentMMInfo s; bf_on 12 (mi_availableAids m) aid }"

definition canSendToAid :: "u8 \<Rightarrow> 'a net_manager_scheme \<Rightarrow> bool option" where
  "canSendToAid aid s = do {
     used \<leftarrow> aidInUse aid s;
     if \<not> used then Some False else do { mine \<leftarrow> myAid s; Some (aid \<noteq> mine) }
   }"

definition hasFoundMatch :: "'a net_manager_scheme \<Rightarrow> bool option" where
  "hasFoundMatch s = do {
     mine \<leftarrow> myAid s;
     used \<leftarrow> aidInUse mine s;
     if \<not> used then Some False else do { n \<leftarrow> numAids s; Some (n > 1) }
   }"

definition lastSentRaceBuffer :: "nat \<Rightarrow> 'a net_manager_scheme \<Rightarrow> race_packet_holder option" where
  "lastSentRaceBuffer aid s = do { i \<leftarrow> rd (m_lastSendIdx s) aid; rd2 (m_sendRacePackets s) i aid }"

definition outgoingBuffer :: "nat \<Rightarrow> 'a net_manager_scheme \<Rightarrow> holder option" where
  "outgoingBuffer aid s = rd (m_outgoingRacePacket s) aid"

section \<open>The packets of a frame\<close>

definition outgoing_reset :: "'a net_manager_scheme \<Rightarrow> 'a net_manager_scheme" where
  "outgoing_reset s = s\<lparr>m_count := 0\<rparr>"

definition outgoing_count :: "'a net_manager_scheme \<Rightarrow> nat" where
  "outgoing_count s = m_count s"

text \<open>\<open>lookup\<close>: the first packet with the mask; -1 is \<^term>\<open>None\<close>.\<close>

fun lookup_from :: "packet list \<Rightarrow> nat \<Rightarrow> nat \<Rightarrow> u32 \<Rightarrow> nat option option" where
  "lookup_from ps 0 i sizesMask = Some None"
| "lookup_from ps (Suc n) i sizesMask = do {
     p \<leftarrow> rd ps i;
     if pk_headerSizes p = sizesMask then Some (Some i) else lookup_from ps n (i + 1) sizesMask
   }"

definition outgoing_lookup :: "u32 \<Rightarrow> 'a net_manager_scheme \<Rightarrow> nat option option" where
  "outgoing_lookup sizesMask s = lookup_from (m_outgoingPackets s) (m_count s) 0 sizesMask"

text \<open>\<open>Packet::addRecipient\<close> on the packet at index \<open>idx\<close>.\<close>

definition addRecipient :: "nat \<Rightarrow> nat \<Rightarrow> 'a net_manager_scheme \<Rightarrow> 'a net_manager_scheme option" where
  "addRecipient idx aid s = do {
     p \<leftarrow> rd (m_outgoingPackets s) idx;
     aids \<leftarrow> bf_set 12 (pk_receivingAids p) (of_nat aid);
     ps \<leftarrow> wr (m_outgoingPackets s) idx (p\<lparr>pk_receivingAids := aids\<rparr>);
     d \<leftarrow> pk_data p;
     h \<leftarrow> rd (m_outgoingRacePacket s) d;
     r \<leftarrow> setSendAids aids (h_record h);
     out \<leftarrow> wr (m_outgoingRacePacket s) d (h\<lparr>h_record := r\<rparr>);
     Some (s\<lparr>m_outgoingPackets := ps, m_outgoingRacePacket := out\<rparr>)
   }"

definition outgoing_setRecipient :: "nat \<Rightarrow> nat \<Rightarrow> 'a net_manager_scheme \<Rightarrow> 'a net_manager_scheme option" where
  "outgoing_setRecipient idx aid s = addRecipient idx aid s"

definition outgoing_push :: "nat \<Rightarrow> u32 \<Rightarrow> nat \<Rightarrow> u8 \<Rightarrow> 'a net_manager_scheme \<Rightarrow> (bool \<times> 'a net_manager_scheme) option" where
  "outgoing_push data headerSizes aid mine s = do {
     h \<leftarrow> rd (m_outgoingRacePacket s) data;
     (ok, r) \<leftarrow> applyMKWServerHeader (h_record h) mine s;
     if \<not> ok then Some (False, s)
     else do {
       out \<leftarrow> wr (m_outgoingRacePacket s) data (h\<lparr>h_record := r\<rparr>);
       ps \<leftarrow> wr (m_outgoingPackets s) (m_count s)
         \<lparr>pk_data = Some data, pk_receivingAids = 0, pk_headerSizes = headerSizes\<rparr>;
       let s = s\<lparr>m_outgoingRacePacket := out, m_outgoingPackets := ps\<rparr>;
       s \<leftarrow> addRecipient (m_count s) aid s;
       Some (True, s\<lparr>m_count := m_count s + 1\<rparr>)
     }
   }"

text \<open>\<open>operator[]\<close>: null beyond the count.\<close>

definition outgoing_at :: "nat \<Rightarrow> 'a net_manager_scheme \<Rightarrow> packet option option" where
  "outgoing_at i s = (if i \<ge> m_count s then Some None else map_option Some (rd (m_outgoingPackets s) i))"

section \<open>createRacePacket\<close>

text \<open>The header and the mask after the first \<open>i\<close> iterations of the loop over the records.\<close>

primrec header_loop :: "nat \<Rightarrow> race_packet_holder \<Rightarrow> (net_header \<times> u32) option" where
  "header_loop 0 sendBuffer = Some (net_header_zero, 0)"
| "header_loop (Suc i) sendBuffer = do {
     (header, headerSizes) \<leftarrow> header_loop i sendBuffer;
     rh \<leftarrow> rd sendBuffer i;
     let n = (if i = 0 then of_nat HEADER_SIZE else of_nat (h_recordSize rh));
     header \<leftarrow> setRecordSize i n header;
     Some (header, if n \<noteq> 0 then headerSizes OR push_bit i 1 else headerSizes)
   }"

text \<open>The records copied to the outgoing buffer and reset, likewise.\<close>

primrec copy_loop :: "nat \<Rightarrow> race_packet_holder \<Rightarrow> holder \<Rightarrow> (race_packet_holder \<times> holder) option" where
  "copy_loop 0 sendBuffer outgoing = Some (sendBuffer, outgoing)"
| "copy_loop (Suc i) sendBuffer outgoing = do {
     (sendBuffer, outgoing) \<leftarrow> copy_loop i sendBuffer outgoing;
     record \<leftarrow> rd sendBuffer i;
     if h_recordSize record \<noteq> 0 then do {
       outgoing \<leftarrow> holder_append (h_record record) (h_recordSize record) outgoing;
       record \<leftarrow> holder_reset record;
       sendBuffer \<leftarrow> wr sendBuffer i record;
       Some (sendBuffer, outgoing)
     } else Some (sendBuffer, outgoing)
   }"

definition export_unique :: "nat \<Rightarrow> nat \<Rightarrow> net_header \<Rightarrow> u32 \<Rightarrow> race_packet_holder \<Rightarrow> 'a net_manager_scheme \<Rightarrow> 'a net_manager_scheme option" where
  "export_unique sendBufferIdx aid header headerSizes sendBuffer s = do {
     h \<leftarrow> rd sendBuffer HEADER_RECORD;
     h \<leftarrow> holder_copy (net_header_bytes header) HEADER_SIZE h;
     sendBuffer \<leftarrow> wr sendBuffer HEADER_RECORD h;
     outgoing \<leftarrow> rd (m_outgoingRacePacket s) aid;
     outgoing \<leftarrow> holder_reset outgoing;
     (sendBuffer, outgoing) \<leftarrow> copy_loop 8 sendBuffer outgoing;
     bufs \<leftarrow> wr2 (m_sendRacePackets s) sendBufferIdx aid sendBuffer;
     outs \<leftarrow> wr (m_outgoingRacePacket s) aid outgoing;
     let s = s\<lparr>m_sendRacePackets := bufs, m_outgoingRacePacket := outs\<rparr>;
     mine \<leftarrow> myAid s;
     (ok, s) \<leftarrow> outgoing_push aid headerSizes aid mine s;
     Some s
   }"

text \<open>The body of the loop over the aids.\<close>

definition create_for :: "nat \<Rightarrow> 'a net_manager_scheme \<Rightarrow> 'a net_manager_scheme option" where
  "create_for aid s = do {
     can \<leftarrow> canSendToAid (of_nat aid) s;
     if \<not> can then Some s
     else do {
       sendBufferIdx \<leftarrow> rd (m_lastSendIdx s) aid;
       idxs \<leftarrow> wr (m_lastSendIdx s) aid (sendBufferIdx XOR 1);
       let s = s\<lparr>m_lastSendIdx := idxs\<rparr>;
       sendBuffer \<leftarrow> rd2 (m_sendRacePackets s) sendBufferIdx aid;
       (header, headerSizes) \<leftarrow> header_loop 8 sendBuffer;
       uniquePacketIdx \<leftarrow> outgoing_lookup headerSizes s;
       case uniquePacketIdx of
         Some i \<Rightarrow> outgoing_setRecipient i aid s
       | None \<Rightarrow> export_unique sendBufferIdx aid header headerSizes sendBuffer s
     }
   }"

primrec create_loop :: "nat list \<Rightarrow> 'a net_manager_scheme \<Rightarrow> 'a net_manager_scheme option" where
  "create_loop [] s = Some s"
| "create_loop (aid # aids) s = do { s \<leftarrow> create_for aid s; create_loop aids s }"

definition createRacePacket :: "'a net_manager_scheme \<Rightarrow> 'a net_manager_scheme option" where
  "createRacePacket s = do {
     found \<leftarrow> hasFoundMatch s;
     if \<not> found then Some s
     else if \<not> hasMKWServerAddress s then Some s
     else create_loop [0..<MAX_PLAYER_COUNT] (outgoing_reset s)
   }"

section \<open>Sending\<close>

definition sendRacePacketToMKWServer ::
  "(bytes \<Rightarrow> u32) \<Rightarrow> nat \<Rightarrow> 'a net_manager_scheme \<Rightarrow> (bool \<times> 'a net_manager_scheme) option" where
  "sendRacePacketToMKWServer NETCalcCRC32 packetIdx s = do {
     p \<leftarrow> outgoing_at packetIdx s;
     case p of None \<Rightarrow> Some (False, s)
     | Some p \<Rightarrow> (case pk_data p of None \<Rightarrow> Some (False, s)
       | Some d \<Rightarrow> do {
           h \<leftarrow> rd (m_outgoingRacePacket s) d;
           if h_recordSize h = 0 then Some (False, s)
           else do {
             covered \<leftarrow> rd_n (h_record h) 0 (h_recordSize h);
             r \<leftarrow> set_crc32 (NETCalcCRC32 covered) (h_record h);
             recordToSend \<leftarrow> rd_n r 0 (h_recordSize h);
             let (sendResult, s) = trySendRacePacketToMKWServer recordToSend s;
             h \<leftarrow> holder_reset (h\<lparr>h_record := r\<rparr>);
             out \<leftarrow> wr (m_outgoingRacePacket s) d h;
             Some (sendResult, s\<lparr>m_outgoingRacePacket := out\<rparr>)
           }
         })
   }"

primrec send_loop :: "(bytes \<Rightarrow> u32) \<Rightarrow> nat list \<Rightarrow> 'a net_manager_scheme \<Rightarrow> 'a net_manager_scheme option" where
  "send_loop crc [] s = Some s"
| "send_loop crc (i # is) s = do { (r, s) \<leftarrow> sendRacePacketToMKWServer crc i s; send_loop crc is s }"

definition sendRacePacket :: "(bytes \<Rightarrow> u32) \<Rightarrow> 'a net_manager_scheme \<Rightarrow> 'a net_manager_scheme option" where
  "sendRacePacket crc s = do {
     s \<leftarrow> send_loop crc [0..<outgoing_count s] s;
     Some (outgoing_reset s)
   }"

section \<open>Receiving\<close>

text \<open>
  The loop of \<open>processRacePacket\<close> after \<open>i\<close> iterations: the offset of \<open>dataPacketPtr\<close> and the state.
\<close>

primrec process_loop :: "u8 \<Rightarrow> bytes \<Rightarrow> nat \<Rightarrow> 'a net_manager_scheme \<Rightarrow> (nat \<times> 'a net_manager_scheme) option" where
  "process_loop aid packet 0 s = Some (0, s)"
| "process_loop aid packet (Suc i) s = do {
     (off, s) \<leftarrow> process_loop aid packet i s;
     recordSize \<leftarrow> rd packet (8 + i);
     if recordSize \<noteq> 0 then do {
       idxs \<leftarrow> rd (m_lastRecvIdx s) (unat aid);
       idx \<leftarrow> rd idxs i;
       p \<leftarrow> rd2 (m_recvRacePackets s) (idx XOR 1) (unat aid);
       h \<leftarrow> rd p i;
       h \<leftarrow> holder_reset h;
       h \<leftarrow> holder_copy (drop off packet) (unat recordSize) h;
       p \<leftarrow> wr p i h;
       bufs \<leftarrow> wr2 (m_recvRacePackets s) (idx XOR 1) (unat aid) p;
       idxs \<leftarrow> wr2 (m_lastRecvIdx s) (unat aid) i (idx XOR 1);
       Some (off + unat recordSize, s\<lparr>m_recvRacePackets := bufs, m_lastRecvIdx := idxs\<rparr>)
     } else Some (off, s)
   }"

definition processRacePacket ::
  "(bytes \<Rightarrow> u32) \<Rightarrow> u8 \<Rightarrow> bytes \<Rightarrow> 'a net_manager_scheme \<Rightarrow> 'a net_manager_scheme option" where
  "processRacePacket NETCalcCRC32 aid packet s = do {
     origCrc32 \<leftarrow> read_u32 packet 4;
     packet \<leftarrow> set_crc32 0 packet;
     if origCrc32 = NETCalcCRC32 packet then do {
       (off, s) \<leftarrow> process_loop aid packet 8 s;
       Some s
     } else Some s
   }"

section \<open>Match-making\<close>

datatype region = REGION_P | REGION_E | REGION_J | REGION_K

text \<open>\<open>REGION\<close> is fixed when the payload is built.\<close>

fun getSearchRegion :: "region \<Rightarrow> SearchRegion" where
  "getSearchRegion REGION_P = SR_EU"
| "getSearchRegion REGION_E = SR_NA"
| "getSearchRegion REGION_J = SR_JP"
| "getSearchRegion REGION_K = SR_KOR"

text \<open>\<open>init\<close>: \<open>replaced_init\<close> is the function of the game it hooks.\<close>

definition net_init :: "(u8 \<Rightarrow> 'a net_manager_scheme \<Rightarrow> 'a net_manager_scheme) \<Rightarrow> u8 \<Rightarrow> 'a net_manager_scheme \<Rightarrow> 'a net_manager_scheme" where
  "net_init replaced_init localPlayerCount s = outgoing_reset (replaced_init localPlayerCount s)"

definition scheduleShutdown :: "'a net_manager_scheme \<Rightarrow> 'a net_manager_scheme" where
  "scheduleShutdown s = resetRoomManagerConnection (s\<lparr>m_shutdownScheduled := True\<rparr>)"

text \<open>The two handlers are objects of the game, present or not; a present one is its \<open>reset\<close>.\<close>

definition cancelMatching ::
  "('a net_manager_scheme \<Rightarrow> 'a net_manager_scheme) option \<Rightarrow> ('a net_manager_scheme \<Rightarrow> 'a net_manager_scheme) option \<Rightarrow>
   'a net_manager_scheme \<Rightarrow> 'a net_manager_scheme" where
  "cancelMatching globeHandler roomHandler s =
     (let s = (case globeHandler of Some reset \<Rightarrow> reset s | None \<Rightarrow> s);
          s = (case roomHandler of Some reset \<Rightarrow> reset s | None \<Rightarrow> s);
          s = s\<lparr>m_voteMMSuspension := VM_Disconnected\<rparr>
      in snd (sendLeaveRoomRequest s))"

text \<open>The part of \<open>UserHandler\<close> that is read here.\<close>

record user_handler =
  uh_prepared :: bool
  uh_myVR :: u16
  uh_myBR :: u16

definition update_mm_info :: "mm_packet \<Rightarrow> mm_info \<Rightarrow> mm_info" where
  "update_mm_info p m =
     (let m = m\<lparr>mi_availableAids := bf_assign (mi_availableAids m) (mp_aidBitmap p)\<rparr>;
          (none, aids) = bf_none (mi_availableAids m);
          m = m\<lparr>mi_availableAids := aids\<rparr>
      in if none then mm_info_reset m else importMKWServerMMInfo p m)"

definition updateMatchMakingInfoAndRating :: "user_handler \<Rightarrow> 'a net_manager_scheme \<Rightarrow> 'a net_manager_scheme option" where
  "updateMatchMakingInfoAndRating userHandler s = do {
     (received, s) \<leftarrow> recvFromRoomManager s;
     if \<not> received then Some s
     else do {
       m0 \<leftarrow> rd (m_matchMakingInfos s) 0;
       infos \<leftarrow> wr (m_matchMakingInfos s) 0 (update_mm_info (recvMatchPacket s) m0);
       m1 \<leftarrow> rd infos 1;
       infos \<leftarrow> wr infos 1 (update_mm_info (recvMatchPacket s) m1);
       let s = s\<lparr>m_matchMakingInfos := infos\<rparr>;
       Some (if uh_prepared userHandler
             then s\<lparr>m_vr := ucast (uh_myVR userHandler), m_br := ucast (uh_myBR userHandler)\<rparr>
             else s)
     }
   }"

definition connectToAnybodyAsync :: "region \<Rightarrow> 'a net_manager_scheme \<Rightarrow> 'a net_manager_scheme" where
  "connectToAnybodyAsync R s =
     (let (ok, s) = connectToRoomManager s
      in if ok then
           let isWW = (m_roomType s = RT_VersusWorldWide \<or> m_roomType s = RT_BattleWorldWide);
               region = (if isWW then SR_WW else getSearchRegion R);
               isVS = (m_roomType s = RT_VersusWorldWide \<or> m_roomType s = RT_VersusRegional);
               mode = (if isVS then GM_VS else GM_Battle)
           in snd (sendSearchRoomRequest region mode s)
         else s)"

definition friend_region :: "region \<Rightarrow> FriendJoinableStatus \<Rightarrow> SearchRegion" where
  "friend_region R status =
     (case status of
        FJ_WorldWideVersus \<Rightarrow> SR_WW
      | FJ_WorldWideBattle \<Rightarrow> SR_WW
      | FJ_JoinableRegionalVS \<Rightarrow> getSearchRegion R
      | FJ_JoinableRegionalBattle \<Rightarrow> getSearchRegion R
      | _ \<Rightarrow> SR_NONE)"

definition connectToGameServerFromGroupId ::
  "region \<Rightarrow> (u32 \<Rightarrow> FriendJoinableStatus) \<Rightarrow> (u32 \<Rightarrow> u32) \<Rightarrow> 'a net_manager_scheme \<Rightarrow> 'a net_manager_scheme option" where
  "connectToGameServerFromGroupId R getFriendJoinableStatus getProfileID s = do {
     m \<leftarrow> currentMMInfo s;
     let friendId = mi_hostFriendId m;
     let searchRegion = friend_region R (getFriendJoinableStatus friendId);
     let friendProfileId = getProfileID friendId;
     let (ok, s) = connectToRoomManager s;
     Some (if ok then snd (sendJoinFriendRequest friendProfileId searchRegion s) else s)
   }"

text \<open>\<open>updateAddedFriendsCallback\<close>: \<open>replaced\<close> is the hooked callback of the game.\<close>

definition updateAddedFriendsCallback ::
  "('a net_manager_scheme \<Rightarrow> 'a net_manager_scheme) \<Rightarrow> u8 \<Rightarrow> 'a net_manager_scheme \<Rightarrow> 'a net_manager_scheme" where
  "updateAddedFriendsCallback replaced localPlayerCount s =
     (let (ok, s) = connectToRoomManager (replaced s)
      in if \<not> ok then s else snd (sendLocalPlayerCount localPlayerCount s))"

section \<open>The test for an empty room\<close>

text \<open>
  \<open>none()\<close> assigns where it should compare, so its result is always false: whatever the packet
  says, the information is imported, and an empty room never resets it.
\<close>

lemma update_never_resets: "update_mm_info p m = importMKWServerMMInfo p m"
  by (simp add: update_mm_info_def bf_none_def importMKWServerMMInfo_def bf_assign_def Let_def)

end
