(* ===== verification/Race_Create.thy ===== *)
theory Race_Create
  imports Race_Frame
begin

text \<open>
  \<open>createRacePacket\<close> implements the grouping of \<open>Race_Frame\<close>: after it, the waiting packets are
  the groups of the sendable aids, in order, and each points to a buffer with the header and the
  records of the first aid of its group.
\<close>

section \<open>Before the frame\<close>

definition FRAME_CAP :: nat where
  "FRAME_CAP = 0x2e0"

definition send_buf :: "'a net_manager_scheme \<Rightarrow> nat \<Rightarrow> race_packet_holder" where
  "send_buf s a = m_sendRacePackets s ! (m_lastSendIdx s ! a) ! a"

definition outgoing_ok :: "'a net_manager_scheme \<Rightarrow> bool" where
  "outgoing_ok s \<longleftrightarrow> length (m_outgoingRacePacket s) = 12 \<and> length (m_outgoingPackets s) = 12 \<and>
     (\<forall>h \<in> set (m_outgoingRacePacket s). holder_ok h \<and> FRAME_CAP \<le> h_bufferSize h)"

definition send_shape :: "'a net_manager_scheme \<Rightarrow> bool" where
  "send_shape s \<longleftrightarrow> length (m_sendRacePackets s) = 2 \<and> (\<forall>ps \<in> set (m_sendRacePackets s). length ps = 12) \<and>
     length (m_lastSendIdx s) = 12 \<and> (\<forall>i \<in> set (m_lastSendIdx s). i < 2)"

definition frame_ok :: "'a net_manager_scheme \<Rightarrow> bool" where
  "frame_ok s \<longleftrightarrow> hasMKWServerAddress s \<and> currentMMInfo s \<noteq> None \<and> outgoing_ok s \<and> send_shape s \<and>
     (\<forall>a<12. send_buffer_ok FRAME_CAP (send_buf s a))"

definition sendable :: "'a net_manager_scheme \<Rightarrow> nat \<Rightarrow> bool" where
  "sendable s a \<longleftrightarrow> canSendToAid (of_nat a) s = Some True"

lemma unat_aid: "a < 12 \<Longrightarrow> unat (of_nat a :: u8) = a"
  unfolding unat_of_nat by simp

lemma canSendToAid_total:
  assumes "currentMMInfo s = Some m" and "a < 12"
  shows "canSendToAid (of_nat a) s = Some (bit (mi_availableAids m) a \<and> of_nat a \<noteq> mi_myAid m)"
  using assms bf_on_bit [of "of_nat a" 12 "mi_availableAids m"]
  by (simp add: canSendToAid_def aidInUse_def myAid_def unat_aid)

section \<open>One recipient more\<close>

lemma addRecipient_spec:
  assumes p: "idx < length (m_outgoingPackets s)" "m_outgoingPackets s ! idx = p" "pk_data p = Some d"
    and d: "d < length (m_outgoingRacePacket s)" "outgoing_holds (m_outgoingRacePacket s ! d) hdr body"
    and a: "a < 12"
  shows "\<exists>aids h. addRecipient idx a s = Some (s\<lparr>m_outgoingPackets := (m_outgoingPackets s)[idx := p\<lparr>pk_receivingAids := aids\<rparr>],
      m_outgoingRacePacket := (m_outgoingRacePacket s)[d := h]\<rparr>) \<and>
    bf_members aids = insert a (bf_members (pk_receivingAids p)) \<and>
    outgoing_holds h (hdr\<lparr>nh_sendToAids := aids\<rparr>) body \<and>
    h_bufferSize h = h_bufferSize (m_outgoingRacePacket s ! d)"
proof -
  obtain aids where aids: "bf_set 12 (pk_receivingAids p) (of_nat a) = Some aids"
    "bf_members aids = insert a (bf_members (pk_receivingAids p))"
    using aids16.add_member [of "of_nat a" "pk_receivingAids p"] a by (auto simp: unat_aid)
  obtain r where r: "setSendAids aids (h_record (m_outgoingRacePacket s ! d)) = Some r"
    "outgoing_holds ((m_outgoingRacePacket s ! d)\<lparr>h_record := r\<rparr>) (hdr\<lparr>nh_sendToAids := aids\<rparr>) body"
    using outgoing_update [OF d(2), of "hdr\<lparr>nh_sendToAids := aids\<rparr>" "setSendAids aids"] setSendAids_header
    by auto
  show ?thesis
    using p d aids r
    by (intro exI [of _ aids] exI [of _ "(m_outgoingRacePacket s ! d)\<lparr>h_record := r\<rparr>"])
      (simp add: addRecipient_def)
qed

section \<open>A packet more\<close>

definition frame_header :: "u8 \<Rightarrow> race_packet_holder \<Rightarrow> u16 \<Rightarrow> net_header" where
  "frame_header mine p aids = \<lparr>nh_magic = MKW_SERVER_RACE_PACKET, nh_myAid = mine, nh_sendToAids = aids,
     nh_crc32 = 0, nh_recordSizes = record_sizes p\<rparr>"

lemma outgoing_push_spec:
  assumes addr: "hasMKWServerAddress s" and a: "a < 12" and out: "length (m_outgoingRacePacket s) = 12"
    and room: "m_count s < length (m_outgoingPackets s)"
    and h: "outgoing_holds (m_outgoingRacePacket s ! a) (net_header_zero\<lparr>nh_recordSizes := record_sizes p\<rparr>) body"
  shows "\<exists>aids h. outgoing_push a m a mine s = Some (True,
      s\<lparr>m_outgoingPackets := (m_outgoingPackets s)[m_count s := \<lparr>pk_data = Some a, pk_receivingAids = aids, pk_headerSizes = m\<rparr>],
        m_outgoingRacePacket := (m_outgoingRacePacket s)[a := h], m_count := m_count s + 1\<rparr>) \<and>
    bf_members aids = {a} \<and> outgoing_holds h (frame_header mine p aids) body \<and>
    h_bufferSize h = h_bufferSize (m_outgoingRacePacket s ! a)"
proof -
  let ?hdr = "net_header_zero\<lparr>nh_recordSizes := record_sizes p\<rparr>"
  let ?hdr1 = "?hdr\<lparr>nh_magic := MKW_SERVER_RACE_PACKET, nh_myAid := mine\<rparr>"
  let ?h = "m_outgoingRacePacket s ! a"
  obtain r where r: "applyMKWServerHeader (h_record ?h) mine s = Some (True, r)"
    "outgoing_holds (?h\<lparr>h_record := r\<rparr>) ?hdr1 body"
    using applyMKWServerHeader_ok [OF addr h] by blast
  let ?pk = "\<lparr>pk_data = Some a, pk_receivingAids = 0, pk_headerSizes = m\<rparr>"
  let ?s1 = "s\<lparr>m_outgoingRacePacket := (m_outgoingRacePacket s)[a := ?h\<lparr>h_record := r\<rparr>],
    m_outgoingPackets := (m_outgoingPackets s)[m_count s := ?pk]\<rparr>"
  obtain aids h2 where h2: "addRecipient (m_count s) a ?s1 = Some (?s1\<lparr>m_outgoingPackets := (m_outgoingPackets ?s1)[m_count s := ?pk\<lparr>pk_receivingAids := aids\<rparr>],
      m_outgoingRacePacket := (m_outgoingRacePacket ?s1)[a := h2]\<rparr>)"
    "bf_members aids = insert a (bf_members (pk_receivingAids ?pk))"
    "outgoing_holds h2 (?hdr1\<lparr>nh_sendToAids := aids\<rparr>) body"
    "h_bufferSize h2 = h_bufferSize (m_outgoingRacePacket ?s1 ! a)"
    using addRecipient_spec [of "m_count s" ?s1 ?pk a ?hdr1 body a] room a out r(2) by auto
  have "?hdr1\<lparr>nh_sendToAids := aids\<rparr> = frame_header mine p aids"
    by (simp add: frame_header_def net_header_zero_def)
  moreover have "bf_members aids = {a}" using h2(2) by (simp add: bf_members_def)
  moreover have "outgoing_push a m a mine s = Some (True,
      s\<lparr>m_outgoingPackets := (m_outgoingPackets s)[m_count s := \<lparr>pk_data = Some a, pk_receivingAids = aids, pk_headerSizes = m\<rparr>],
        m_outgoingRacePacket := (m_outgoingRacePacket s)[a := h2], m_count := m_count s + 1\<rparr>)"
    using r(1) h2(1) a out room by (simp add: outgoing_push_def Let_def)
  ultimately show ?thesis using h2(3,4) a out by auto
qed

lemma export_unique_spec:
  assumes addr: "hasMKWServerAddress s" and mine: "myAid s = Some mine" and a: "a < 12"
    and out: "outgoing_ok s" and room: "m_count s < 12" and p: "send_buffer_ok FRAME_CAP p"
    and bufs: "idx < length (m_sendRacePackets s)" "a < length (m_sendRacePackets s ! idx)"
  shows "\<exists>aids h p'. export_unique idx a (net_header_zero\<lparr>nh_recordSizes := record_sizes p\<rparr>) m p s = Some
      (s\<lparr>m_sendRacePackets := (m_sendRacePackets s)[idx := (m_sendRacePackets s ! idx)[a := p']],
        m_outgoingPackets := (m_outgoingPackets s)[m_count s := \<lparr>pk_data = Some a, pk_receivingAids = aids, pk_headerSizes = m\<rparr>],
        m_outgoingRacePacket := (m_outgoingRacePacket s)[a := h], m_count := m_count s + 1\<rparr>) \<and>
    bf_members aids = {a} \<and> outgoing_holds h (frame_header mine p aids) (record_bytes p) \<and>
    h_bufferSize h = h_bufferSize (m_outgoingRacePacket s ! a)"
proof -
  let ?hdr = "net_header_zero\<lparr>nh_recordSizes := record_sizes p\<rparr>"
  let ?o = "m_outgoingRacePacket s ! a"
  have len8: "length p = 8" "length (record_sizes p) = 8" using p by (simp_all add: send_buffer_ok_def record_sizes_def)
  have hb: "length (net_header_bytes ?hdr) = HEADER_SIZE" by (rule length_net_header) (simp add: len8)
  have p0: "holder_ok (p ! 0)" "HEADER_SIZE \<le> h_bufferSize (p ! 0)" using p len8(1) by (auto simp: send_buffer_ok_def)
  obtain h0 where h0: "holder_copy (net_header_bytes ?hdr) HEADER_SIZE (p ! 0) = Some h0" "holder_ok h0"
    "held h0 = net_header_bytes ?hdr"
    using holder_copy_ok [OF p0(1), of HEADER_SIZE "net_header_bytes ?hdr"] p0(2) hb by auto
  let ?p0 = "p[0 := h0]"
  have oa: "holder_ok ?o" "FRAME_CAP \<le> h_bufferSize ?o"
    using out a by (auto simp: outgoing_ok_def)
  obtain o0 where o0: "holder_reset ?o = Some o0" "holder_ok o0" "held o0 = []" "h_bufferSize o0 = h_bufferSize ?o"
    using holder_reset_ok [OF oa(1)] by blast
  have held0: "concat (map held (take 8 ?p0)) = net_header_bytes ?hdr @ record_bytes p"
    using len8(1) h0(3) by (cases p) (auto simp: record_bytes_def)
  have "h_recordSize o0 = 0" using length_held [OF o0(2)] o0(3) by simp
  moreover have "length (net_header_bytes ?hdr @ record_bytes p) \<le> h_bufferSize o0"
    using p hb oa(2) o0(4) by (simp add: send_buffer_ok_def)
  moreover have "\<forall>h \<in> set ?p0. holder_ok h"
    using p h0(2) by (auto simp: send_buffer_ok_def dest: set_update_subset_insert [THEN subsetD])
  ultimately obtain p' o1 where o1: "copy_loop 8 ?p0 o0 = Some (p', o1)" "holder_ok o1"
    "h_bufferSize o1 = h_bufferSize ?o" "held o1 = net_header_bytes ?hdr @ record_bytes p"
    using copy_loop_spec [of 8 ?p0 o0] o0 len8(1) held0 by auto
  let ?s1 = "s\<lparr>m_sendRacePackets := (m_sendRacePackets s)[idx := (m_sendRacePackets s ! idx)[a := p']],
    m_outgoingRacePacket := (m_outgoingRacePacket s)[a := o1]\<rparr>"
  have "outgoing_holds (m_outgoingRacePacket ?s1 ! a) ?hdr (record_bytes p)"
    using o1 a out len8 by (simp add: outgoing_holds_def outgoing_ok_def)
  then obtain aids h where push: "outgoing_push a m a mine ?s1 = Some (True,
      ?s1\<lparr>m_outgoingPackets := (m_outgoingPackets ?s1)[m_count ?s1 := \<lparr>pk_data = Some a, pk_receivingAids = aids, pk_headerSizes = m\<rparr>],
        m_outgoingRacePacket := (m_outgoingRacePacket ?s1)[a := h], m_count := m_count ?s1 + 1\<rparr>)"
    "bf_members aids = {a}" "outgoing_holds h (frame_header mine p aids) (record_bytes p)"
    "h_bufferSize h = h_bufferSize (m_outgoingRacePacket ?s1 ! a)"
    using outgoing_push_spec [of ?s1 a p "record_bytes p" m mine] addr a out room
    by (auto simp: hasMKWServerAddress_def outgoing_ok_def)
  have "myAid ?s1 = Some mine" using mine by (simp add: myAid_def currentMMInfo_def)
  then have "export_unique idx a ?hdr m p s = map_option snd (outgoing_push a m a mine ?s1)"
    using len8(1) h0(1) o0(1) o1(1) a out bufs
    by (cases "outgoing_push a m a mine ?s1")
      (auto simp: export_unique_def HEADER_RECORD_def outgoing_ok_def rd_def wr2_def)
  then show ?thesis
    using push a out o1(3) by (intro exI [of _ aids] exI [of _ h] exI [of _ p']) (simp add: outgoing_ok_def)
qed

section \<open>The loop over the aids\<close>

definition same_session :: "'a net_manager_scheme \<Rightarrow> 'a net_manager_scheme \<Rightarrow> bool" where
  "same_session s s' \<longleftrightarrow> m_matchMakingInfos s' = m_matchMakingInfos s \<and> m_currMMInfo s' = m_currMMInfo s \<and>
     mkwServerAddr s' = mkwServerAddr s \<and> hbsock s' = hbsock s \<and> so_log s' = so_log s \<and>
     so_replies s' = so_replies s"

lemma same_session_room:
  assumes "same_session s s'"
  shows "currentMMInfo s' = currentMMInfo s" "myAid s' = myAid s" "canSendToAid a s' = canSendToAid a s"
    "hasMKWServerAddress s' = hasMKWServerAddress s"
proof -
  show eq: "currentMMInfo s' = currentMMInfo s" and "hasMKWServerAddress s' = hasMKWServerAddress s"
    using assms by (simp_all add: same_session_def currentMMInfo_def hasMKWServerAddress_def)
  show "myAid s' = myAid s" "canSendToAid a s' = canSendToAid a s"
    by (simp_all only: canSendToAid_def aidInUse_def myAid_def eq)
qed

text \<open>Packet \<open>pk\<close> is the one of the group: its mask, its recipients, and a buffer with its bytes.\<close>

definition packet_of_group :: "'a net_manager_scheme \<Rightarrow> 'a net_manager_scheme \<Rightarrow> u32 \<times> nat list \<Rightarrow> packet \<Rightarrow> bool" where
  "packet_of_group s0 s = (\<lambda>(m, xs) pk. pk_headerSizes pk = m \<and> pk_data pk = Some (hd xs) \<and>
     bf_members (pk_receivingAids pk) = set xs \<and>
     outgoing_holds (m_outgoingRacePacket s ! hd xs)
       (frame_header (the (myAid s0)) (send_buf s0 (hd xs)) (pk_receivingAids pk)) (record_bytes (send_buf s0 (hd xs))))"

lemma packet_of_group_iff:
  "packet_of_group s0 s g pk \<longleftrightarrow> pk_headerSizes pk = fst g \<and> pk_data pk = Some (hd (snd g)) \<and>
     bf_members (pk_receivingAids pk) = set (snd g) \<and>
     outgoing_holds (m_outgoingRacePacket s ! hd (snd g))
       (frame_header (the (myAid s0)) (send_buf s0 (hd (snd g))) (pk_receivingAids pk))
       (record_bytes (send_buf s0 (hd (snd g))))"
  by (cases g) (simp add: packet_of_group_def)

definition frame_kind :: "'a net_manager_scheme \<Rightarrow> nat \<Rightarrow> u32" where
  "frame_kind s a = record_mask (send_buf s a)"

definition frame_groups :: "'a net_manager_scheme \<Rightarrow> nat list \<Rightarrow> (u32 \<times> nat list) list" where
  "frame_groups s ids = groups (frame_kind s) (filter (sendable s) ids)"

definition frame_inv :: "'a net_manager_scheme \<Rightarrow> nat list \<Rightarrow> 'a net_manager_scheme \<Rightarrow> bool" where
  "frame_inv s0 ids s \<longleftrightarrow> same_session s0 s \<and> outgoing_ok s \<and> send_shape s \<and>
     (\<forall>a<12. a \<notin> set ids \<longrightarrow> m_lastSendIdx s ! a = m_lastSendIdx s0 ! a \<and> send_buf s a = send_buf s0 a) \<and>
     m_count s = length (frame_groups s0 ids) \<and>
     (\<forall>i < m_count s. packet_of_group s0 s (frame_groups s0 ids ! i) (m_outgoingPackets s ! i))"

text \<open>\<open>lookup\<close> finds the group of a mask.\<close>

lemma lookup_from_spec:
  "i + n \<le> length ps \<Longrightarrow> \<exists>r. lookup_from ps n i m = Some r \<and>
     (case r of None \<Rightarrow> \<forall>j. i \<le> j \<and> j < i + n \<longrightarrow> pk_headerSizes (ps ! j) \<noteq> m
      | Some j \<Rightarrow> i \<le> j \<and> j < i + n \<and> pk_headerSizes (ps ! j) = m \<and>
          (\<forall>k. i \<le> k \<and> k < j \<longrightarrow> pk_headerSizes (ps ! k) \<noteq> m))"
proof (induction ps n i m rule: lookup_from.induct)
  case (1 ps i m)
  then show ?case by auto
next
  case (2 ps n i m)
  show ?case
  proof (cases "pk_headerSizes (ps ! i) = m")
    case True
    then show ?thesis using 2(2) by auto
  next
    case False
    have rd: "rd ps i = Some (ps ! i)" using 2(2) by simp
    obtain r where r: "lookup_from ps n (i + 1) m = Some r"
      "case r of None \<Rightarrow> \<forall>j. i + 1 \<le> j \<and> j < i + 1 + n \<longrightarrow> pk_headerSizes (ps ! j) \<noteq> m
       | Some j \<Rightarrow> i + 1 \<le> j \<and> j < i + 1 + n \<and> pk_headerSizes (ps ! j) = m \<and>
           (\<forall>k. i + 1 \<le> k \<and> k < j \<longrightarrow> pk_headerSizes (ps ! k) \<noteq> m)"
      using 2(1) [OF rd False] 2(2) by auto
    have step: "lookup_from ps (Suc n) i m = Some r" using r(1) False rd by simp
    have ext: "pk_headerSizes (ps ! k) \<noteq> m"
      if "i \<le> k" "i + 1 \<le> k \<Longrightarrow> pk_headerSizes (ps ! k) \<noteq> m" for k
      using that False by (cases "k = i") auto
    show ?thesis
    proof (cases r)
      case None
      then show ?thesis using step r(2) ext by auto
    next
      case (Some j)
      then show ?thesis using step r(2) ext by auto
    qed
  qed
qed

lemma groups_firsts:
  assumes "distinct ids" and "i < length (groups kind ids)" and "j < length (groups kind ids)" and "i \<noteq> j"
  shows "hd (snd (groups kind ids ! i)) \<noteq> hd (snd (groups kind ids ! j))"
proof -
  let ?gs = "groups kind ids"
  have mem: "kind (hd (snd (?gs ! k))) = fst (?gs ! k)" if "k < length ?gs" for k
  proof -
    have "(fst (?gs ! k), snd (?gs ! k)) \<in> set ?gs" using that by simp
    then have "hd (snd (?gs ! k)) \<in> set (filter (\<lambda>a. kind a = fst (?gs ! k)) ids)"
      using groups_members hd_in_set by metis
    then show ?thesis by simp
  qed
  have "fst (?gs ! i) \<noteq> fst (?gs ! j)"
    using groups_masks [of kind ids] assms(2-4) by (auto simp: distinct_conv_nth)
  then show ?thesis using mem [OF assms(2)] mem [OF assms(3)] by metis
qed

lemma groups_members_set: "g \<in> set (groups kind ids) \<Longrightarrow> set (snd g) \<subseteq> set ids \<and> snd g \<noteq> []"
  using groups_members [of "fst g" "snd g" kind ids] by auto

lemma length_groups: "length (groups kind ids) \<le> length ids"
proof -
  have "length gs \<le> length (concat (map snd gs))" if "\<forall>g \<in> set gs. snd g \<noteq> []" for gs :: "(u32 \<times> nat list) list"
    using that by (induction gs) (auto simp: Suc_le_eq neq_Nil_conv)
  then have "length (groups kind ids) \<le> size (mset (concat (map snd (groups kind ids))))"
    using groups_members_set by (metis size_mset)
  then show ?thesis by (simp add: groups_mset)
qed

lemma packet_of_group_frame:
  "packet_of_group s0 s g pk \<Longrightarrow>
   m_outgoingRacePacket s' ! hd (snd g) = m_outgoingRacePacket s ! hd (snd g) \<Longrightarrow> packet_of_group s0 s' g pk"
  by (simp add: packet_of_group_iff)

lemma outgoing_ok_update:
  assumes "outgoing_ok s" and "d < 12" and "holder_ok h" and "h_bufferSize h = h_bufferSize (m_outgoingRacePacket s ! d)"
    and "length ps = length (m_outgoingPackets s)"
  shows "outgoing_ok (s\<lparr>m_outgoingPackets := ps, m_outgoingRacePacket := (m_outgoingRacePacket s)[d := h]\<rparr>)"
proof -
  have "holder_ok x \<and> FRAME_CAP \<le> h_bufferSize x" if "x \<in> set ((m_outgoingRacePacket s)[d := h])" for x
    using that assms set_update_subset_insert [of "m_outgoingRacePacket s" d h] by (auto simp: outgoing_ok_def)
  then show ?thesis using assms by (simp add: outgoing_ok_def)
qed

text \<open>The flip of the send buffer, and what follows it.\<close>

definition flipped :: "nat \<Rightarrow> 'a net_manager_scheme \<Rightarrow> 'a net_manager_scheme" where
  "flipped a s = s\<lparr>m_lastSendIdx := (m_lastSendIdx s)[a := m_lastSendIdx s ! a XOR 1]\<rparr>"

lemma xor_1_less: "i < 2 \<Longrightarrow> i XOR 1 < (2 :: nat)"
  by (auto simp: less_2_cases_iff)

lemma create_for_sendable:
  assumes inv: "frame_inv s0 ids s" and ok: "frame_ok s0" and a: "a < 12" "a \<notin> set ids" "sendable s0 a"
  shows "create_for a s = do {
    u \<leftarrow> outgoing_lookup (frame_kind s0 a) (flipped a s);
    case u of Some i \<Rightarrow> addRecipient i a (flipped a s)
    | None \<Rightarrow> export_unique (m_lastSendIdx s0 ! a) a (net_header_zero\<lparr>nh_recordSizes := record_sizes (send_buf s0 a)\<rparr>)
        (frame_kind s0 a) (send_buf s0 a) (flipped a s) }"
proof -
  have can: "canSendToAid (of_nat a) s = Some True"
    using same_session_room(3) [of s0 s "of_nat a"] inv a(3) by (simp add: frame_inv_def sendable_def)
  have idx: "m_lastSendIdx s ! a = m_lastSendIdx s0 ! a" "send_buf s a = send_buf s0 a" "a < length (m_lastSendIdx s)"
    using inv a by (auto simp: frame_inv_def send_shape_def)
  have "m_lastSendIdx s ! a < 2" using inv idx(3) by (auto simp: frame_inv_def send_shape_def)
  then have row: "m_lastSendIdx s ! a < length (m_sendRacePackets s)"
    "a < length (m_sendRacePackets s ! (m_lastSendIdx s ! a))"
    using inv a by (auto simp: frame_inv_def send_shape_def)
  have len: "length (send_buf s0 a) = 8" using ok a by (auto simp: frame_ok_def send_buffer_ok_def)
  show ?thesis
    using can idx row header_loop_spec [OF len]
    by (simp add: create_for_def rd2_def flipped_def outgoing_setRecipient_def send_buf_def frame_kind_def
        Let_def cong: option.case_cong)
qed

lemma frame_inv_flipped:
  assumes "frame_inv s0 ids s" and "a < 12"
  shows "same_session s0 (flipped a s)" "outgoing_ok (flipped a s)" "send_shape (flipped a s)"
    "m_count (flipped a s) = m_count s" "m_outgoingPackets (flipped a s) = m_outgoingPackets s"
    "m_outgoingRacePacket (flipped a s) = m_outgoingRacePacket s"
    "b < 12 \<Longrightarrow> b \<notin> set (ids @ [a]) \<Longrightarrow> m_lastSendIdx (flipped a s) ! b = m_lastSendIdx s0 ! b \<and>
       send_buf (flipped a s) b = send_buf s0 b"
proof -
  have l: "length (m_lastSendIdx s) = 12" "\<forall>i \<in> set (m_lastSendIdx s). i < 2"
    using assms(1) by (auto simp: frame_inv_def send_shape_def)
  have "\<forall>i \<in> set ((m_lastSendIdx s)[a := m_lastSendIdx s ! a XOR 1]). i < 2"
    using l assms(2) set_update_subset_insert [of "m_lastSendIdx s" a "m_lastSendIdx s ! a XOR 1"]
      xor_1_less [of "m_lastSendIdx s ! a"] by auto
  then show "send_shape (flipped a s)" using assms(1) by (simp add: frame_inv_def send_shape_def flipped_def)
  show "same_session s0 (flipped a s)" "outgoing_ok (flipped a s)" "m_count (flipped a s) = m_count s"
    "m_outgoingPackets (flipped a s) = m_outgoingPackets s"
    "m_outgoingRacePacket (flipped a s) = m_outgoingRacePacket s"
    using assms(1) by (simp_all add: frame_inv_def same_session_def outgoing_ok_def flipped_def)
  show "b < 12 \<Longrightarrow> b \<notin> set (ids @ [a]) \<Longrightarrow> m_lastSendIdx (flipped a s) ! b = m_lastSendIdx s0 ! b \<and>
       send_buf (flipped a s) b = send_buf s0 b"
    using assms(1) by (auto simp: frame_inv_def flipped_def send_buf_def)
qed

lemma frame_groups_snoc:
  "frame_groups s (ids @ [a]) =
    (if sendable s a then add_group (frame_kind s a) a (frame_groups s ids) else frame_groups s ids)"
  by (simp add: frame_groups_def groups_snoc)

lemma frame_group_members:
  assumes "g \<in> set (frame_groups s ids)" and "\<forall>a \<in> set ids. a < 12"
  shows "snd g \<noteq> []" "hd (snd g) \<in> set ids" "hd (snd g) < 12"
proof -
  have "set (snd g) \<subseteq> set (filter (sendable s) ids)" "snd g \<noteq> []"
    using groups_members_set [of g "frame_kind s" "filter (sendable s) ids"] assms(1)
    by (simp_all add: frame_groups_def)
  moreover from this have "hd (snd g) \<in> set (filter (sendable s) ids)" by (meson hd_in_set subsetD)
  ultimately show "snd g \<noteq> []" "hd (snd g) \<in> set ids" "hd (snd g) < 12" using assms(2) by simp_all
qed

lemma frame_groups_length:
  assumes "distinct ids" and "\<forall>a \<in> set ids. a < 12"
  shows "length (frame_groups s ids) \<le> length ids" "length ids \<le> 12"
proof -
  have "length (frame_groups s ids) \<le> length (filter (sendable s) ids)"
    unfolding frame_groups_def by (rule length_groups)
  then show "length (frame_groups s ids) \<le> length ids" using length_filter_le le_trans by blast
  have "card (set ids) \<le> card {..<(12 :: nat)}" using assms(2) by (intro card_mono) auto
  then show "length ids \<le> 12" using assms(1) by (simp add: distinct_card)
qed

lemma frame_inv_packet:
  assumes "frame_inv s0 ids s" and "j < length (frame_groups s0 ids)"
  shows "packet_of_group s0 s (frame_groups s0 ids ! j) (m_outgoingPackets s ! j)"
    and "pk_headerSizes (m_outgoingPackets s ! j) = fst (frame_groups s0 ids ! j)"
proof -
  show "packet_of_group s0 s (frame_groups s0 ids ! j) (m_outgoingPackets s ! j)"
    using assms by (simp add: frame_inv_def)
  then show "pk_headerSizes (m_outgoingPackets s ! j) = fst (frame_groups s0 ids ! j)"
    unfolding packet_of_group_iff by blast
qed

text \<open>An aid whose group exists joins it.\<close>

lemma frame_inv_join:
  assumes inv: "frame_inv s0 ids s" and ids: "distinct ids" "\<forall>b \<in> set ids. b < 12"
    and a: "a < 12" "sendable s0 a"
    and i: "i < m_count s" "pk_headerSizes (m_outgoingPackets s ! i) = frame_kind s0 a"
      "\<forall>j<i. pk_headerSizes (m_outgoingPackets s ! j) \<noteq> frame_kind s0 a"
  shows "\<exists>s'. addRecipient i a (flipped a s) = Some s' \<and> frame_inv s0 (ids @ [a]) s'"
proof -
  let ?s1 = "flipped a s" and ?gs = "frame_groups s0 ids" and ?p = "m_outgoingPackets s ! i"
  let ?xs = "snd (?gs ! i)"
  note fl = frame_inv_flipped [OF inv a(1)]
  have cnt: "m_count s = length ?gs" using inv by (simp add: frame_inv_def)
  have il: "i < length ?gs" using i(1) cnt by simp
  note xs = frame_group_members [OF nth_mem [OF il] ids(2)]
  have pk: "pk_data ?p = Some (hd ?xs)" "bf_members (pk_receivingAids ?p) = set ?xs"
    "outgoing_holds (m_outgoingRacePacket s ! hd ?xs)
      (frame_header (the (myAid s0)) (send_buf s0 (hd ?xs)) (pk_receivingAids ?p)) (record_bytes (send_buf s0 (hd ?xs)))"
    using frame_inv_packet(1) [OF inv il] unfolding packet_of_group_iff by blast+
  have lens: "length (m_outgoingPackets s) = 12" "length (m_outgoingRacePacket s) = 12"
    using inv by (auto simp: frame_inv_def outgoing_ok_def)
  have i12: "i < 12" using il frame_groups_length [OF ids] le_trans less_le_trans by metis
  obtain aids h where upd: "addRecipient i a ?s1 = Some (?s1\<lparr>m_outgoingPackets := (m_outgoingPackets s)[i := ?p\<lparr>pk_receivingAids := aids\<rparr>],
      m_outgoingRacePacket := (m_outgoingRacePacket s)[hd ?xs := h]\<rparr>)"
    "bf_members aids = insert a (set ?xs)"
    "outgoing_holds h (frame_header (the (myAid s0)) (send_buf s0 (hd ?xs)) (pk_receivingAids ?p)\<lparr>nh_sendToAids := aids\<rparr>) (record_bytes (send_buf s0 (hd ?xs)))"
    "h_bufferSize h = h_bufferSize (m_outgoingRacePacket s ! hd ?xs)"
    using addRecipient_spec [OF _ refl _ _ _ a(1), of i ?s1 "hd ?xs"] pk xs(3) lens i12 unfolding fl(5,6) by metis
  let ?s' = "?s1\<lparr>m_outgoingPackets := (m_outgoingPackets s)[i := ?p\<lparr>pk_receivingAids := aids\<rparr>],
      m_outgoingRacePacket := (m_outgoingRacePacket s)[hd ?xs := h]\<rparr>"
  let ?g = "(frame_kind s0 a, ?xs @ [a])"
  have gs': "frame_groups s0 (ids @ [a]) = ?gs[i := ?g]"
    using add_group_old [of i ?gs "frame_kind s0 a" a] i frame_inv_packet(2) [OF inv] cnt a(2)
    by (simp add: frame_groups_snoc)
  have new: "packet_of_group s0 ?s' ?g (?p\<lparr>pk_receivingAids := aids\<rparr>)"
    using upd(2,3) pk(1) i(2) xs lens by (simp add: packet_of_group_iff frame_header_def)
  have "packet_of_group s0 ?s' (?gs[i := ?g] ! j) (m_outgoingPackets ?s' ! j)" if j: "j < length ?gs" for j
  proof (cases "j = i")
    case True
    then show ?thesis using new il lens i12 by simp
  next
    case False
    have "hd (snd (?gs ! i)) \<noteq> hd (snd (?gs ! j))"
      using groups_firsts [of "filter (sendable s0) ids" i "frame_kind s0" j] ids(1) il j False
      by (simp add: frame_groups_def)
    then have "m_outgoingRacePacket ?s' ! hd (snd (?gs ! j)) = m_outgoingRacePacket s ! hd (snd (?gs ! j))"
      by simp
    then show ?thesis using packet_of_group_frame [OF frame_inv_packet(1) [OF inv j]] False by simp
  qed
  moreover have "outgoing_ok ?s'"
    using outgoing_ok_update [OF fl(2) xs(3), of h] upd(3,4) fl(5,6) lens by (simp add: outgoing_holds_def)
  moreover have "same_session s0 ?s'" "send_shape ?s'" using fl(1,3) by (simp_all add: same_session_def send_shape_def)
  moreover have "b < 12 \<Longrightarrow> b \<notin> set (ids @ [a]) \<Longrightarrow> m_lastSendIdx ?s' ! b = m_lastSendIdx s0 ! b \<and> send_buf ?s' b = send_buf s0 b" for b
    using fl(7) [of b] by (auto simp: send_buf_def)
  ultimately have "frame_inv s0 (ids @ [a]) ?s'"
    using gs' cnt fl(4) unfolding frame_inv_def by simp
  then show ?thesis using upd(1) by blast
qed

text \<open>An aid whose group does not exist starts it.\<close>

lemma frame_inv_new:
  assumes inv: "frame_inv s0 ids s" and ids: "distinct (ids @ [a])" "\<forall>b \<in> set ids. b < 12"
    and ok: "frame_ok s0" and a: "a < 12" "sendable s0 a"
    and none: "\<forall>j<m_count s. pk_headerSizes (m_outgoingPackets s ! j) \<noteq> frame_kind s0 a"
  shows "\<exists>s'. export_unique (m_lastSendIdx s0 ! a) a (net_header_zero\<lparr>nh_recordSizes := record_sizes (send_buf s0 a)\<rparr>)
      (frame_kind s0 a) (send_buf s0 a) (flipped a s) = Some s' \<and> frame_inv s0 (ids @ [a]) s'"
proof -
  let ?s1 = "flipped a s" and ?gs = "frame_groups s0 ids" and ?idx = "m_lastSendIdx s0 ! a"
  note fl = frame_inv_flipped [OF inv a(1)]
  have cnt: "m_count s = length ?gs" using inv by (simp add: frame_inv_def)
  obtain mine where mine: "myAid s0 = Some mine" using ok by (auto simp: frame_ok_def myAid_def)
  have room: "m_count ?s1 < 12"
  proof -
    have "length (ids @ [a]) \<le> 12" using frame_groups_length(2) [OF ids(1)] ids(2) a(1) by simp
    then show ?thesis using frame_groups_length(1) [of ids s0] ids fl(4) cnt by simp
  qed
  have lens: "length (m_outgoingPackets s) = 12" "length (m_outgoingRacePacket s) = 12"
    using inv by (auto simp: frame_inv_def outgoing_ok_def)
  have "a < length (m_lastSendIdx s0)" "\<forall>i \<in> set (m_lastSendIdx s0). i < 2"
    using ok a(1) by (auto simp: frame_ok_def send_shape_def)
  then have "?idx < 2" by simp
  then have row: "?idx < length (m_sendRacePackets ?s1)" "a < length (m_sendRacePackets ?s1 ! ?idx)"
    using fl(3) a(1) by (simp_all add: send_shape_def)
  obtain aids h p' where ex: "export_unique ?idx a (net_header_zero\<lparr>nh_recordSizes := record_sizes (send_buf s0 a)\<rparr>)
        (frame_kind s0 a) (send_buf s0 a) ?s1 = Some
      (?s1\<lparr>m_sendRacePackets := (m_sendRacePackets ?s1)[?idx := (m_sendRacePackets ?s1 ! ?idx)[a := p']],
        m_outgoingPackets := (m_outgoingPackets ?s1)[m_count ?s1 := \<lparr>pk_data = Some a, pk_receivingAids = aids, pk_headerSizes = frame_kind s0 a\<rparr>],
        m_outgoingRacePacket := (m_outgoingRacePacket ?s1)[a := h], m_count := m_count ?s1 + 1\<rparr>)"
    "bf_members aids = {a}" "outgoing_holds h (frame_header mine (send_buf s0 a) aids) (record_bytes (send_buf s0 a))"
    "h_bufferSize h = h_bufferSize (m_outgoingRacePacket ?s1 ! a)"
    using export_unique_spec [OF _ _ a(1) fl(2) room _ row, of mine "send_buf s0 a" "frame_kind s0 a"]
      same_session_room(2,4) [OF fl(1)] mine ok a(1) by (auto simp: frame_ok_def)
  let ?pk = "\<lparr>pk_data = Some a, pk_receivingAids = aids, pk_headerSizes = frame_kind s0 a\<rparr>"
  let ?s' = "?s1\<lparr>m_sendRacePackets := (m_sendRacePackets ?s1)[?idx := (m_sendRacePackets ?s1 ! ?idx)[a := p']],
        m_outgoingPackets := (m_outgoingPackets ?s1)[m_count ?s1 := ?pk],
        m_outgoingRacePacket := (m_outgoingRacePacket ?s1)[a := h], m_count := m_count ?s1 + 1\<rparr>"
  let ?g = "(frame_kind s0 a, [a])"
  have "frame_kind s0 a \<notin> fst ` set ?gs"
    using none frame_inv_packet(2) [OF inv] cnt by (auto simp: in_set_conv_nth) (metis fst_conv)
  then have gs': "frame_groups s0 (ids @ [a]) = ?gs @ [?g]"
    using a(2) by (simp add: frame_groups_snoc add_group_new)
  have new: "packet_of_group s0 ?s' ?g ?pk"
    using ex(2,3) mine lens fl(6) a(1) by (simp add: packet_of_group_iff)
  have "packet_of_group s0 ?s' ((?gs @ [?g]) ! j) (m_outgoingPackets ?s' ! j)" if j: "j < length ?gs + 1" for j
  proof (cases "j = length ?gs")
    case True
    then show ?thesis using new fl(4,5) cnt lens room by simp
  next
    case False
    then have j: "j < length ?gs" using j by simp
    have "hd (snd (?gs ! j)) \<noteq> a" using frame_group_members(2) [OF nth_mem [OF j] ids(2)] ids(1) by auto
    then have "m_outgoingRacePacket ?s' ! hd (snd (?gs ! j)) = m_outgoingRacePacket s ! hd (snd (?gs ! j))"
      using fl(6) by simp
    then show ?thesis
      using packet_of_group_frame [OF frame_inv_packet(1) [OF inv j]] False fl(4,5) cnt j by (simp add: nth_append)
  qed
  moreover have "outgoing_ok ?s'"
    using outgoing_ok_update [OF fl(2) a(1), of h "(m_outgoingPackets ?s1)[m_count ?s1 := ?pk]"] ex(3,4)
    by (simp add: outgoing_holds_def outgoing_ok_def)
  moreover have "same_session s0 ?s'" using fl(1) by (simp add: same_session_def)
  moreover have "send_shape ?s'"
    using fl(3) row by (auto simp: send_shape_def dest!: set_update_subset_insert [THEN subsetD])
  moreover have "b < 12 \<Longrightarrow> b \<notin> set (ids @ [a]) \<Longrightarrow> m_lastSendIdx ?s' ! b = m_lastSendIdx s0 ! b \<and> send_buf ?s' b = send_buf s0 b" for b
    using fl(7) [of b] row by (auto simp: send_buf_def nth_list_update)
  ultimately have "frame_inv s0 (ids @ [a]) ?s'"
    using gs' cnt fl(4) unfolding frame_inv_def by simp
  then show ?thesis using ex(1) by blast
qed

lemma frame_inv_step:
  assumes inv: "frame_inv s0 ids s" and ids: "distinct (ids @ [a])" "\<forall>b \<in> set (ids @ [a]). b < 12"
    and ok: "frame_ok s0"
  shows "\<exists>s'. create_for a s = Some s' \<and> frame_inv s0 (ids @ [a]) s'"
proof (cases "sendable s0 a")
  case False
  obtain m where "currentMMInfo s0 = Some m" using ok by (auto simp: frame_ok_def)
  then have "canSendToAid (of_nat a) s = Some False"
    using canSendToAid_total [of s0 m a] same_session_room(3) [of s0 s "of_nat a"] inv ids False
    by (auto simp: frame_inv_def sendable_def)
  then have "create_for a s = Some s" by (simp add: create_for_def)
  moreover have "frame_inv s0 (ids @ [a]) s" using inv False by (simp add: frame_inv_def frame_groups_snoc)
  ultimately show ?thesis by blast
next
  case True
  have a: "a < 12" "a \<notin> set ids" and ids': "distinct ids" "\<forall>b \<in> set ids. b < 12" using ids by auto
  note fl = frame_inv_flipped [OF inv a(1)]
  have "m_count s \<le> length (m_outgoingPackets s)"
    using inv frame_groups_length(1) [OF ids', of s0] frame_groups_length(2) [OF ids']
    by (simp add: frame_inv_def outgoing_ok_def)
  then obtain u where u: "outgoing_lookup (frame_kind s0 a) (flipped a s) = Some u"
    "case u of None \<Rightarrow> \<forall>j<m_count s. pk_headerSizes (m_outgoingPackets s ! j) \<noteq> frame_kind s0 a
      | Some i \<Rightarrow> i < m_count s \<and> pk_headerSizes (m_outgoingPackets s ! i) = frame_kind s0 a \<and>
          (\<forall>j<i. pk_headerSizes (m_outgoingPackets s ! j) \<noteq> frame_kind s0 a)"
    using lookup_from_spec [of 0 "m_count s" "m_outgoingPackets s" "frame_kind s0 a"] fl(4,5)
    unfolding outgoing_lookup_def by (auto split: option.splits)
  note start = create_for_sendable [OF inv ok a True]
  show ?thesis
  proof (cases u)
    case None
    then show ?thesis using frame_inv_new [OF inv ids(1) ids'(2) ok a(1) True] u start by simp
  next
    case (Some i)
    then show ?thesis using frame_inv_join [OF inv ids' a(1) True, of i] u start by simp
  qed
qed

lemma create_loop_inv:
  "frame_inv s0 ids s \<Longrightarrow> distinct (ids @ rest) \<Longrightarrow> (\<forall>b \<in> set (ids @ rest). b < 12) \<Longrightarrow> frame_ok s0 \<Longrightarrow>
   \<exists>s'. create_loop rest s = Some s' \<and> frame_inv s0 (ids @ rest) s'"
proof (induction rest arbitrary: ids s)
  case Nil
  then show ?case by simp
next
  case (Cons a rest)
  obtain s1 where "create_for a s = Some s1" "frame_inv s0 (ids @ [a]) s1"
    using frame_inv_step [of s0 ids s a] Cons.prems by auto
  then show ?case using Cons.IH [of "ids @ [a]" s1] Cons.prems by simp
qed

end
