(* ===== verification/Race_Exchange.thy ===== *)
theory Race_Exchange
  imports Race_Create Room_Stream
begin

text \<open>
  A frame from end to end: the datagrams \<open>sendRacePacket\<close> hands to the socket, and what
  \<open>processRacePacket\<close> of another console makes of one of them.
\<close>

section \<open>The datagrams of a frame\<close>

definition aids_word :: "nat list \<Rightarrow> u16" where
  "aids_word xs = fold (\<lambda>a w. w OR push_bit a 1) xs 0"

lemma bf_members_inj: "bf_members (f :: 'a::len word) = bf_members g \<Longrightarrow> f = g"
  by (auto simp: bf_members_def set_eq_iff intro: bit_word_eqI)

lemma bf_members_aids_word: "\<forall>a \<in> set xs. a < 12 \<Longrightarrow> bf_members (aids_word xs) = set xs"
proof -
  have "bf_members (fold (\<lambda>a w. w OR push_bit a 1) xs w) = bf_members w \<union> set xs" if "\<forall>a \<in> set xs. a < 12" for w :: u16
    using that
  proof (induction xs arbitrary: w)
    case (Cons a xs)
    have "bf_members (w OR push_bit a 1) = insert a (bf_members w)"
      using Cons.prems by (auto simp: bf_members_def bit_or_iff bit_push_bit_iff bit_1_iff simp del: push_bit_of_1)
    then show ?case using Cons by simp
  qed simp
  then show "\<forall>a \<in> set xs. a < 12 \<Longrightarrow> bf_members (aids_word xs) = set xs"
    by (simp only: aids_word_def aids16.members_empty Un_empty_left)
qed

definition datagram_header :: "'a net_manager_scheme \<Rightarrow> nat list \<Rightarrow> net_header" where
  "datagram_header s xs = frame_header (the (myAid s)) (send_buf s (hd xs)) (aids_word xs)"

text \<open>The datagram of a group of aids: the checksum covers header and records, its own field zero.\<close>

definition datagram :: "(bytes \<Rightarrow> u32) \<Rightarrow> 'a net_manager_scheme \<Rightarrow> nat list \<Rightarrow> bytes" where
  "datagram crc s xs =
     (let hdr = datagram_header s xs; body = record_bytes (send_buf s (hd xs))
      in net_header_bytes (hdr\<lparr>nh_crc32 := crc (net_header_bytes hdr @ body)\<rparr>) @ body)"

definition send_event :: "(bytes \<Rightarrow> u32) \<Rightarrow> 'a net_manager_scheme \<Rightarrow> u32 \<times> nat list \<Rightarrow> so_call" where
  "send_event crc s g = SOSendTo (hbsock s) (datagram crc s (snd g)) (mkwServerAddr s)"

text \<open>One waiting packet goes out; its buffer is cleared, the others stay.\<close>

lemma send_one:
  assumes i: "i < m_count s" "m_count s \<le> 12" and ok: "outgoing_ok s" and addr: "hasMKWServerAddress s"
    and pk: "packet_of_group s0 s (m, xs) (m_outgoingPackets s ! i)"
    and xs: "\<forall>a \<in> set xs. a < 12" "xs \<noteq> []" and same: "hbsock s = hbsock s0" "mkwServerAddr s = mkwServerAddr s0"
  shows "\<exists>r h. sendRacePacketToMKWServer crc i s = Some (r \<noteq> 0,
      s\<lparr>so_replies := tl (so_replies s), so_log := so_log s @ [(send_event crc s0 (m, xs), r)],
        m_outgoingRacePacket := (m_outgoingRacePacket s)[hd xs := h]\<rparr>) \<and> holder_ok h \<and>
      h_bufferSize h = h_bufferSize (m_outgoingRacePacket s ! hd xs)"
proof -
  let ?p = "m_outgoingPackets s ! i" and ?h = "m_outgoingRacePacket s ! hd xs"
  let ?hdr = "datagram_header s0 xs" and ?body = "record_bytes (send_buf s0 (hd xs))"
  have d: "hd xs < 12" using xs by simp
  have lens: "length (m_outgoingPackets s) = 12" "length (m_outgoingRacePacket s) = 12"
    using ok by (auto simp: outgoing_ok_def)
  have "pk_receivingAids ?p = aids_word xs"
    using pk bf_members_aids_word [OF xs(1)] by (intro bf_members_inj) (simp add: packet_of_group_iff)
  then have holds: "outgoing_holds ?h ?hdr ?body"
    using pk by (simp add: packet_of_group_iff datagram_header_def)
  have sz: "h_recordSize ?h = HEADER_SIZE + length ?body" by (rule outgoing_record(2) [OF holds])
  have h_ok: "holder_ok ?h" using holds by (simp add: outgoing_holds_def)
  have covered: "rd_n (h_record ?h) 0 (h_recordSize ?h) = Some (net_header_bytes ?hdr @ ?body)"
    using holds by (simp add: outgoing_holds_def holder_ok_def held_def)
  let ?crc = "crc (net_header_bytes ?hdr @ ?body)"
  obtain r where r: "set_crc32 ?crc (h_record ?h) = Some r"
    "outgoing_holds (?h\<lparr>h_record := r\<rparr>) (?hdr\<lparr>nh_crc32 := ?crc\<rparr>) ?body"
    using outgoing_update [OF holds, of "?hdr\<lparr>nh_crc32 := ?crc\<rparr>" "set_crc32 ?crc"] set_crc32_header by auto
  have send: "rd_n r 0 (h_recordSize ?h) = Some (datagram crc s0 xs)"
    using r(2) by (simp add: outgoing_holds_def holder_ok_def held_def datagram_def Let_def)
  have "holder_ok (?h\<lparr>h_record := r\<rparr>)" using r(2) by (simp add: outgoing_holds_def)
  then obtain h where h: "holder_reset (?h\<lparr>h_record := r\<rparr>) = Some h" "holder_ok h"
    "h_bufferSize h = h_bufferSize ?h"
    using holder_reset_ok by fastforce
  have data: "pk_data ?p = Some (hd xs)" using pk by (simp add: packet_of_group_iff)
  let ?r = "case so_replies s of [] \<Rightarrow> -1 | r # _ \<Rightarrow> r"
  have "trySendRacePacketToMKWServer (datagram crc s0 xs) s =
      (?r \<noteq> 0, s\<lparr>so_replies := tl (so_replies s), so_log := so_log s @ [(send_event crc s0 (m, xs), ?r)]\<rparr>)"
    using addr same by (simp add: trySendRacePacketToMKWServer_def so_call_def Let_def send_event_def)
  then have "sendRacePacketToMKWServer crc i s = Some (?r \<noteq> 0,
      s\<lparr>so_replies := tl (so_replies s), so_log := so_log s @ [(send_event crc s0 (m, xs), ?r)],
        m_outgoingRacePacket := (m_outgoingRacePacket s)[hd xs := h]\<rparr>)"
    using i lens d data covered sz r(1) send h(1)
    by (simp add: sendRacePacketToMKWServer_def outgoing_at_def HEADER_SIZE_def)
  then show ?thesis using h(2,3) by blast
qed

lemma send_loop_groups:
  assumes inv: "frame_inv s0 ids s" and ids: "distinct ids" "\<forall>b \<in> set ids. b < 12"
    and addr: "hasMKWServerAddress s0"
  shows "k \<le> m_count s \<Longrightarrow> outgoing_ok t \<Longrightarrow> m_count t = m_count s \<Longrightarrow>
    m_outgoingPackets t = m_outgoingPackets s \<Longrightarrow> hbsock t = hbsock s0 \<Longrightarrow> mkwServerAddr t = mkwServerAddr s0 \<Longrightarrow>
    (\<forall>j. m_count s - k \<le> j \<and> j < m_count s \<longrightarrow>
       packet_of_group s0 t (frame_groups s0 ids ! j) (m_outgoingPackets s ! j)) \<Longrightarrow>
    \<exists>s'. send_loop crc [m_count s - k..<m_count s] t = Some s' \<and> outgoing_ok s' \<and>
      map fst (so_log s') = map fst (so_log t) @ map (send_event crc s0) (drop (m_count s - k) (frame_groups s0 ids))"
proof (induction k arbitrary: t)
  case 0
  have "length (frame_groups s0 ids) = m_count s" using inv by (simp add: frame_inv_def)
  then show ?case using 0 by simp
next
  case (Suc k)
  let ?gs = "frame_groups s0 ids" and ?i = "m_count s - Suc k"
  have cnt: "m_count s = length ?gs" using inv by (simp add: frame_inv_def)
  have i: "?i < m_count s" "?i < length ?gs" "Suc ?i = m_count s - k" using Suc.prems(1) cnt by auto
  let ?xs = "snd (?gs ! ?i)"
  have gi: "(fst (?gs ! ?i), ?xs) \<in> set (groups (frame_kind s0) (filter (sendable s0) ids))"
    using i(2) by (simp add: frame_groups_def)
  have xs: "\<forall>a \<in> set ?xs. a < 12" "?xs \<noteq> []"
    using groups_members [OF gi] ids(2) by auto
  have cnt12: "m_count t \<le> 12"
    using frame_groups_length(1) [OF ids, of s0] frame_groups_length(2) [OF ids] cnt Suc.prems(3) by simp
  have pk: "packet_of_group s0 t (fst (?gs ! ?i), ?xs) (m_outgoingPackets t ! ?i)"
    using Suc.prems(4,7) i by simp
  have it: "?i < m_count t" "hasMKWServerAddress t"
    using i(1) Suc.prems(3,6) addr by (simp_all add: hasMKWServerAddress_def)
  obtain r h where one: "sendRacePacketToMKWServer crc ?i t = Some (r \<noteq> 0,
      t\<lparr>so_replies := tl (so_replies t), so_log := so_log t @ [(send_event crc s0 (fst (?gs ! ?i), ?xs), r)],
        m_outgoingRacePacket := (m_outgoingRacePacket t)[hd ?xs := h]\<rparr>)" "holder_ok h"
    "h_bufferSize h = h_bufferSize (m_outgoingRacePacket t ! hd ?xs)"
    using send_one [OF it(1) cnt12 Suc.prems(2) it(2) pk xs Suc.prems(5,6), of crc] by blast
  let ?t = "t\<lparr>so_replies := tl (so_replies t), so_log := so_log t @ [(send_event crc s0 (fst (?gs ! ?i), ?xs), r)],
        m_outgoingRacePacket := (m_outgoingRacePacket t)[hd ?xs := h]\<rparr>"
  have "outgoing_ok ?t"
    using outgoing_ok_update [OF Suc.prems(2) _ one(2,3), of "m_outgoingPackets t"] xs
    by (simp add: outgoing_ok_def)
  moreover have "packet_of_group s0 ?t (?gs ! j) (m_outgoingPackets s ! j)"
    if j: "m_count s - k \<le> j" "j < m_count s" for j
  proof -
    have "hd (snd (?gs ! ?i)) \<noteq> hd (snd (?gs ! j))"
      using groups_firsts [of "filter (sendable s0) ids" ?i "frame_kind s0" j] ids(1) i j cnt
      by (simp add: frame_groups_def)
    then show ?thesis using packet_of_group_frame [of s0 t "?gs ! j"] Suc.prems(7) j by simp
  qed
  ultimately obtain s' where s': "send_loop crc [m_count s - k..<m_count s] ?t = Some s'" "outgoing_ok s'"
    "map fst (so_log s') = map fst (so_log ?t) @ map (send_event crc s0) (drop (m_count s - k) ?gs)"
    using Suc.IH [of ?t] Suc.prems by auto
  have "[?i..<m_count s] = ?i # [m_count s - k..<m_count s]" using i by (simp add: upt_conv_Cons)
  moreover have "drop ?i ?gs = ?gs ! ?i # drop (m_count s - k) ?gs"
    using i by (simp add: Cons_nth_drop_Suc [symmetric])
  ultimately show ?case using one(1) s' by simp
qed

section \<open>A frame of sending\<close>

definition all_aids :: "nat list" where
  "all_aids = [0..<MAX_PLAYER_COUNT]"

lemma all_aids_props: "distinct all_aids" "\<forall>a \<in> set all_aids. a < 12" "a < 12 \<Longrightarrow> a \<in> set all_aids"
  by (simp_all add: all_aids_def MAX_PLAYER_COUNT_def)

text \<open>The specification of a frame: what goes out, to whom.\<close>

definition frame_datagrams :: "(bytes \<Rightarrow> u32) \<Rightarrow> 'a net_manager_scheme \<Rightarrow> so_call list" where
  "frame_datagrams crc s = map (send_event crc s) (frame_groups s all_aids)"

lemma createRacePacket_inv:
  assumes ok: "frame_ok s" and found: "hasFoundMatch s = Some True"
  shows "\<exists>s1. createRacePacket s = Some s1 \<and> frame_inv s all_aids s1"
proof -
  have addr: "hasMKWServerAddress s" using ok by (simp add: frame_ok_def)
  have "frame_inv s [] (outgoing_reset s)"
    using ok by (simp add: frame_inv_def frame_ok_def same_session_def outgoing_ok_def send_shape_def
        send_buf_def outgoing_reset_def frame_groups_def groups_def)
  then obtain s1 where "create_loop all_aids (outgoing_reset s) = Some s1" "frame_inv s all_aids s1"
    using create_loop_inv [of s "[]" "outgoing_reset s" all_aids] ok all_aids_props(1,2) by auto
  then show ?thesis using found addr by (simp add: createRacePacket_def all_aids_def)
qed

text \<open>C5: createRacePacket followed by sendRacePacket sends exactly the datagrams of the specification.
  The aids in use are grouped by the kinds of records they get, one datagram per group in order of
  its first aid, with the records of that first aid and the bit set of the group's aids.\<close>

theorem frame_refines:
  assumes ok: "frame_ok s" and found: "hasFoundMatch s = Some True"
  shows "\<exists>s1 s2. createRacePacket s = Some s1 \<and> sendRacePacket crc s1 = Some s2 \<and> m_count s2 = 0 \<and>
    map fst (so_log s2) = map fst (so_log s) @ frame_datagrams crc s"
proof -
  obtain s1 where s1: "createRacePacket s = Some s1" "frame_inv s all_aids s1"
    using createRacePacket_inv [OF assms] by blast
  have same: "hbsock s1 = hbsock s" "mkwServerAddr s1 = mkwServerAddr s" "so_log s1 = so_log s" "outgoing_ok s1"
    and cnt: "m_count s1 = length (frame_groups s all_aids)"
    using s1(2) by (auto simp: frame_inv_def same_session_def)
  obtain s2 where s2: "send_loop crc [0..<m_count s1] s1 = Some s2"
    "map fst (so_log s2) = map fst (so_log s1) @ map (send_event crc s) (frame_groups s all_aids)"
    using send_loop_groups [OF s1(2) all_aids_props(1,2) _ order.refl same(4) refl refl same(1,2), of crc]
      frame_inv_packet(1) [OF s1(2)] cnt ok
    by (auto simp: frame_ok_def)
  then have "sendRacePacket crc s1 = Some (outgoing_reset s2)"
    by (simp add: sendRacePacket_def outgoing_count_def)
  then show ?thesis using s1(1) s2(2) same(3) by (simp add: outgoing_reset_def frame_datagrams_def)
qed

lemma ex1_index:
  assumes "distinct xs"
  shows "(\<exists>!i. i < length xs \<and> P (xs ! i)) \<longleftrightarrow> (\<exists>!x. x \<in> set xs \<and> P x)"
proof
  assume "\<exists>!i. i < length xs \<and> P (xs ! i)"
  then show "\<exists>!x. x \<in> set xs \<and> P x" by (metis in_set_conv_nth)
next
  assume "\<exists>!x. x \<in> set xs \<and> P x"
  then show "\<exists>!i. i < length xs \<and> P (xs ! i)" using assms by (metis in_set_conv_nth nth_eq_iff_index_eq)
qed

lemma datagram_recipients:
  assumes "a < 12"
  shows "sendable s a \<longleftrightarrow> (\<exists>!g. g \<in> set (frame_groups s all_aids) \<and> a \<in> set (snd g))"
    and "g \<in> set (frame_groups s all_aids) \<Longrightarrow> b \<in> set (snd g) \<Longrightarrow>
      sendable s b \<and> (\<forall>i<8. record_sizes (send_buf s b) ! i = 0 \<longleftrightarrow> record_sizes (send_buf s (hd (snd g))) ! i = 0)"
proof -
  let ?ids = "filter (sendable s) all_aids"
  have mem: "snd g = filter (\<lambda>b. frame_kind s b = fst g) ?ids \<and> snd g \<noteq> []" if "g \<in> set (frame_groups s all_aids)" for g
    using groups_members [of "fst g" "snd g" "frame_kind s" ?ids] that
    unfolding frame_groups_def by (metis prod.collapse)
  have uniq: "g = (frame_kind s a, filter (\<lambda>b. frame_kind s b = frame_kind s a) ?ids)"
    if "g \<in> set (frame_groups s all_aids)" "a \<in> set (snd g)" for g
    using mem [OF that(1)] that(2) by (cases g) auto
  show "sendable s a \<longleftrightarrow> (\<exists>!g. g \<in> set (frame_groups s all_aids) \<and> a \<in> set (snd g))"
  proof
    assume "sendable s a"
    then have ids: "a \<in> set ?ids" using all_aids_props(3) [OF assms] by simp
    then have "frame_kind s a \<in> fst ` set (frame_groups s all_aids)"
      using groups_masks [of "frame_kind s" ?ids] by (simp add: frame_groups_def)
    then obtain g where g: "g \<in> set (frame_groups s all_aids)" "fst g = frame_kind s a" by force
    then have "a \<in> set (snd g)" using mem [OF g(1)] ids by simp
    then show "\<exists>!g. g \<in> set (frame_groups s all_aids) \<and> a \<in> set (snd g)"
      using g(1) uniq by blast
  next
    assume "\<exists>!g. g \<in> set (frame_groups s all_aids) \<and> a \<in> set (snd g)"
    then obtain g where g: "g \<in> set (frame_groups s all_aids)" "a \<in> set (snd g)" by blast
    have "a \<in> set (filter (\<lambda>b. frame_kind s b = fst g) ?ids)" using mem [OF g(1)] g(2) by metis
    then show "sendable s a" by simp
  qed
  assume g: "g \<in> set (frame_groups s all_aids)" and b: "b \<in> set (snd g)"
  have all: "c \<in> set (snd g) \<Longrightarrow> sendable s c \<and> frame_kind s c = fst g" for c
  proof -
    assume "c \<in> set (snd g)"
    then have "c \<in> set (filter (\<lambda>b. frame_kind s b = fst g) ?ids)" using mem [OF g] by metis
    then show ?thesis by simp
  qed
  have "hd (snd g) \<in> set (snd g)" using mem [OF g] hd_in_set by blast
  then show "sendable s b \<and> (\<forall>i<8. record_sizes (send_buf s b) ! i = 0 \<longleftrightarrow> record_sizes (send_buf s (hd (snd g))) ! i = 0)"
    using all [OF b] all [of "hd (snd g)"] record_mask_eq_iff by (metis frame_kind_def)
qed


section \<open>Receiving\<close>

definition recv_shape :: "'a net_manager_scheme \<Rightarrow> bool" where
  "recv_shape r \<longleftrightarrow> length (m_recvRacePackets r) = 2 \<and>
     (\<forall>i<2. length (m_recvRacePackets r ! i) = 12 \<and>
        (\<forall>a<12. length (m_recvRacePackets r ! i ! a) = 8 \<and>
           (\<forall>k<8. holder_ok (m_recvRacePackets r ! i ! a ! k) \<and> 255 \<le> h_bufferSize (m_recvRacePackets r ! i ! a ! k)))) \<and>
     length (m_lastRecvIdx r) = 12 \<and> (\<forall>a<12. length (m_lastRecvIdx r ! a) = 8 \<and> (\<forall>k<8. m_lastRecvIdx r ! a ! k < 2))"

text \<open>The record of a kind received last from an aid.\<close>

definition latest :: "'a net_manager_scheme \<Rightarrow> nat \<Rightarrow> nat \<Rightarrow> bytes" where
  "latest r a k = held (m_recvRacePackets r ! (m_lastRecvIdx r ! a ! k) ! a ! k)"

definition store_record :: "nat \<Rightarrow> nat \<Rightarrow> holder \<Rightarrow> 'a net_manager_scheme \<Rightarrow> 'a net_manager_scheme" where
  "store_record a k h r =
     (let i = m_lastRecvIdx r ! a ! k XOR 1
      in r\<lparr>m_recvRacePackets := (m_recvRacePackets r)[i := (m_recvRacePackets r ! i)[a := (m_recvRacePackets r ! i ! a)[k := h]]],
          m_lastRecvIdx := (m_lastRecvIdx r)[a := (m_lastRecvIdx r ! a)[k := i]]\<rparr>)"

lemma recv_shape_idx:
  assumes "recv_shape r" and "a < 12" and "k < 8"
  shows "m_lastRecvIdx r ! a ! k XOR 1 < 2" "m_lastRecvIdx r ! a ! k < 2"
  using assms xor_1_less by (auto simp: recv_shape_def)

lemma store_record_shape:
  assumes shape: "recv_shape r" and ak: "a < 12" "k < 8" and h: "holder_ok h" "255 \<le> h_bufferSize h"
  shows "recv_shape (store_record a k h r)"
  unfolding recv_shape_def store_record_def Let_def
  using shape recv_shape_idx [OF shape ak] ak h
  by (auto simp: recv_shape_def nth_list_update)

lemma store_record_latest:
  assumes shape: "recv_shape r" and ak: "a < 12" "k < 8" and bj: "b < 12" "j < 8"
  shows "latest (store_record a k h r) b j = (if b = a \<and> j = k then held h else latest r b j)"
proof -
  let ?i = "m_lastRecvIdx r ! a ! k XOR 1"
  have lens: "length (m_lastRecvIdx r) = 12" "length (m_lastRecvIdx r ! a) = 8" "length (m_recvRacePackets r) = 2"
    "length (m_recvRacePackets r ! ?i) = 12" "length (m_recvRacePackets r ! ?i ! a) = 8" "?i < 2"
    using shape recv_shape_idx [OF shape ak] ak by (auto simp: recv_shape_def)
  show ?thesis
  proof (cases "b = a \<and> j = k")
    case True
    then show ?thesis using lens ak by (simp add: latest_def store_record_def Let_def)
  next
    case False
    then have idx: "m_lastRecvIdx (store_record a k h r) ! b ! j = m_lastRecvIdx r ! b ! j"
      using lens ak by (auto simp: store_record_def Let_def nth_list_update)
    have "m_recvRacePackets (store_record a k h r) ! x ! b ! j = m_recvRacePackets r ! x ! b ! j" if "x < 2" for x
      using that False lens ak by (auto simp: store_record_def Let_def nth_list_update)
    then have "latest (store_record a k h r) b j = latest r b j"
      using recv_shape_idx(2) [OF shape bj] by (simp add: latest_def idx)
    then show ?thesis using False by auto
  qed
qed

text \<open>One record: the loop body stores the next bytes of the packet.\<close>

lemma process_record:
  assumes shape: "recv_shape r" and a: "unat aid < 12" and k: "k < 8"
    and loop: "process_loop aid packet k r0 = Some (off, r)"
    and n: "rd packet (8 + k) = Some n" "n \<noteq> 0" and src: "off + unat n \<le> length packet"
  shows "\<exists>h. process_loop aid packet (Suc k) r0 = Some (off + unat n, store_record (unat aid) k h r) \<and>
    holder_ok h \<and> 255 \<le> h_bufferSize h \<and> held h = take (unat n) (drop off packet)"
proof -
  let ?a = "unat aid" and ?i = "m_lastRecvIdx r ! unat aid ! k XOR 1"
  let ?h = "m_recvRacePackets r ! ?i ! ?a ! k"
  have lens: "length (m_lastRecvIdx r) = 12" "length (m_lastRecvIdx r ! ?a) = 8" "length (m_recvRacePackets r) = 2"
    "length (m_recvRacePackets r ! ?i) = 12" "length (m_recvRacePackets r ! ?i ! ?a) = 8" "?i < 2"
    using shape recv_shape_idx [OF shape a k] a by (auto simp: recv_shape_def)
  have hok: "holder_ok ?h" "255 \<le> h_bufferSize ?h"
    using shape lens(6) a k by (auto simp: recv_shape_def)
  obtain h1 where h1: "holder_reset ?h = Some h1" "holder_ok h1" "h_bufferSize h1 = h_bufferSize ?h"
    using holder_reset_ok [OF hok(1)] by blast
  have "unat n \<le> 255" using unat_u8_less [of n] by linarith
  moreover have "unat n \<le> length (drop off packet)" using src by simp
  ultimately obtain h where h: "holder_copy (drop off packet) (unat n) h1 = Some h" "holder_ok h"
    "held h = take (unat n) (drop off packet)" "h_bufferSize h = h_bufferSize h1"
    using holder_copy_ok [OF h1(2), of "unat n" "drop off packet"] hok(2) h1(3) by auto
  have "process_loop aid packet (Suc k) r0 = Some (off + unat n, store_record ?a k h r)"
    using loop n lens a k h1(1) h(1) by (simp add: rd2_def wr2_def store_record_def Let_def)
  then show ?thesis using h hok(2) h1(3) by auto
qed

text \<open>A packet that is the concatenation of its records, as its size fields say.\<close>

definition sized_records :: "bytes \<Rightarrow> bytes list \<Rightarrow> bool" where
  "sized_records packet cs \<longleftrightarrow> packet = concat cs \<and> length cs = 8 \<and>
     (\<forall>k<8. length (cs ! k) < 256 \<and> rd packet (8 + k) = Some (of_nat (length (cs ! k))))"

lemma process_loop_records:
  assumes shape: "recv_shape r" and a: "unat aid < 12" and cs: "sized_records packet cs"
  shows "k \<le> 8 \<Longrightarrow> \<exists>r'. process_loop aid packet k r = Some (length (concat (take k cs)), r') \<and> recv_shape r' \<and>
    (\<forall>b<12. \<forall>j<8. latest r' b j = (if b = unat aid \<and> j < k \<and> cs ! j \<noteq> [] then cs ! j else latest r b j))"
proof (induction k)
  case 0
  then show ?case using shape by simp
next
  case (Suc k)
  let ?off = "length (concat (take k cs))" and ?c = "cs ! k"
  obtain r1 where r1: "process_loop aid packet k r = Some (?off, r1)" "recv_shape r1"
    "\<forall>b<12. \<forall>j<8. latest r1 b j = (if b = unat aid \<and> j < k \<and> cs ! j \<noteq> [] then cs ! j else latest r b j)"
    using Suc by auto
  have k: "k < 8" "k < length cs" using Suc.prems cs by (simp_all add: sized_records_def)
  have take: "take (Suc k) cs = take k cs @ [?c]" using k(2) by (rule take_Suc_conv_app_nth)
  have c: "length ?c < 256" "rd packet (8 + k) = Some (of_nat (length ?c))"
    using cs k(1) unfolding sized_records_def by blast+
  have n: "unat (of_nat (length ?c) :: u8) = length ?c" using c(1) unfolding unat_of_nat by simp
  have "cs = take k cs @ ?c # drop (Suc k) cs" using k(2) by (simp add: Cons_nth_drop_Suc)
  then have split: "packet = concat (take k cs) @ ?c @ concat (drop (Suc k) cs)"
    using cs unfolding sized_records_def by (metis concat.simps(2) concat_append)
  show ?case
  proof (cases "?c = []")
    case True
    then have "process_loop aid packet (Suc k) r = Some (?off, r1)" using r1(1) c(2) by simp
    then show ?thesis using r1 True take by (intro exI [of _ r1]) (auto simp: less_Suc_eq)
  next
    case False
    have "(of_nat (length ?c) :: u8) \<noteq> 0" using n False by (metis length_0_conv unat_0)
    then obtain h where h: "process_loop aid packet (Suc k) r = Some (?off + length ?c, store_record (unat aid) k h r1)"
      "holder_ok h" "255 \<le> h_bufferSize h" "held h = take (length ?c) (drop ?off packet)"
      using process_record [OF r1(2) a k(1) r1(1) c(2)] n split by auto
    have "held h = ?c" using h(4) split by simp
    then have "latest (store_record (unat aid) k h r1) b j =
        (if b = unat aid \<and> j < Suc k \<and> cs ! j \<noteq> [] then cs ! j else latest r b j)" if "b < 12" "j < 8" for b j
      using store_record_latest [OF r1(2) a k(1) that, of h] r1(3) that False by (auto simp: less_Suc_eq)
    then show ?thesis
      using h store_record_shape [OF r1(2) a k(1)] take by (intro exI [of _ "store_record (unat aid) k h r1"]) simp
  qed
qed

lemma datagram_header_simps [simp]:
  "nh_crc32 (datagram_header s xs) = 0"
  "nh_recordSizes (datagram_header s xs) = record_sizes (send_buf s (hd xs))"
  by (simp_all add: datagram_header_def frame_header_def)

lemma net_header_crc [simp]: "nh_crc32 h = 0 \<Longrightarrow> h\<lparr>nh_crc32 := c, nh_crc32 := 0\<rparr> = h" "nh_crc32 h = 0 \<Longrightarrow> h\<lparr>nh_crc32 := 0\<rparr> = h"
  by (cases h; simp)+

lemma read_crc: "read_u32 (net_header_bytes h @ rest) 4 = Some (nh_crc32 h)"
  using Bytes_Read_struct [where pre = "[nh_magic h, nh_myAid h] @ to_be (nh_sendToAids h)" and v = "nh_crc32 h"
      and n = 4 and off = 4]
  by (simp add: net_header_bytes_def read_u32_is_Read size_of_16)

lemma send_buffer_records:
  assumes "send_buffer_ok cap p"
  shows "\<exists>h0 hs. p = h0 # hs \<and> length hs = 7 \<and> (\<forall>k<7. holder_ok (hs ! k) \<and> h_recordSize (hs ! k) < 256)"
proof -
  have len: "length p = 8" using assms by (simp add: send_buffer_ok_def)
  then obtain h0 hs where p: "p = h0 # hs" by (cases p) auto
  have "holder_ok h \<and> h_recordSize h < 256" if "h \<in> set hs" for h
    using assms that by (simp add: send_buffer_ok_def p)
  then show ?thesis using p len by auto
qed

lemma datagram_sized:
  assumes "send_buffer_ok cap (send_buf s (hd xs))"
  shows "sized_records (net_header_bytes (datagram_header s xs) @ record_bytes (send_buf s (hd xs)))
    (net_header_bytes (datagram_header s xs) # map held (tl (send_buf s (hd xs))))"
proof -
  let ?h = "datagram_header s xs"
  obtain h0 hs where p: "send_buf s (hd xs) = h0 # hs" "length hs = 7"
    "\<forall>k<7. holder_ok (hs ! k) \<and> h_recordSize (hs ! k) < 256"
    using send_buffer_records [OF assms] by blast
  have sizes: "record_sizes (send_buf s (hd xs)) = of_nat HEADER_SIZE # map (\<lambda>h. of_nat (h_recordSize h)) hs"
    by (simp add: record_sizes_def p(1))
  have len: "length (net_header_bytes ?h) = HEADER_SIZE" by (rule length_net_header) (simp add: record_sizes_def p)
  have l8: "length (nh_recordSizes ?h) = 8" using p(2) by (simp add: sizes)
  have field: "rd (net_header_bytes ?h @ rest) (8 + k) = Some (nh_recordSizes ?h ! k)" if "k < 8" for k rest
    using that l8 by (simp add: net_header_bytes_def rd_def nth_append size_of_16 size_of_32 del: datagram_header_simps)
  have "length ((net_header_bytes ?h # map held hs) ! k) < 256 \<and>
      nh_recordSizes ?h ! k = of_nat (length ((net_header_bytes ?h # map held hs) ! k))" if "k < 8" for k
    using that p(2,3) len by (cases k) (auto simp: sizes HEADER_SIZE_def length_held)
  then show ?thesis using field p by (simp add: sized_records_def record_bytes_def)
qed


section \<open>A small room\<close>

text \<open>Three consoles, aids 0, 2 and 5; ours is 0.  It sends a race-info and an item record to both others.\<close>

definition demo_holder :: "nat \<Rightarrow> bytes \<Rightarrow> holder" where
  "demo_holder cap bs = \<lparr>h_record = bs @ replicate (cap - length bs) 0, h_bufferSize = cap, h_recordSize = length bs\<rparr>"

definition demo_buffer :: race_packet_holder where
  "demo_buffer = [demo_holder 16 [], demo_holder 255 [1, 2, 3], demo_holder 255 [], demo_holder 255 [],
     demo_holder 255 [], demo_holder 255 [], demo_holder 255 [9], demo_holder 255 []]"

definition demo_info :: mm_info where
  "demo_info = \<lparr>mi_numAids = 3, mi_numPlayers = 3, mi_availableAids = 0x25, mi_connectedToAids = 0,
     mi_groupId = 1, mi_hostFriendId = 0, mi_myLocalPlayerCount = 1, mi_myAid = 0, mi_hostAid = 0,
     mi_localPlayerCounts = replicate 12 dwc_user_zero, mi_isMatchMakingSuspended = False\<rparr>"

definition demo_net :: net_manager where
  "demo_net = mkw.extend ((mkw_start [])\<lparr>mkwServerAddr := \<lparr>sa_len = 8, sa_family = 2, sa_port = 9, sa_addr = 7\<rparr>\<rparr>)
     \<lparr>m_matchMakingInfos = [demo_info, demo_info], m_currMMInfo = 0, m_roomType = RT_None,
       m_voteMMSuspension = VM_None, m_sendRacePackets = replicate 2 (replicate 12 demo_buffer),
       m_recvRacePackets = replicate 2 (replicate 12 (replicate 8 (demo_holder 255 []))),
       m_outgoingRacePacket = replicate 12 (demo_holder 0x2e0 []), m_shutdownScheduled = False,
       m_vr = 0, m_br = 0, m_lastSendIdx = replicate 12 0, m_lastRecvIdx = replicate 12 (replicate 8 0),
       m_outgoingPackets = replicate 12 \<lparr>pk_data = None, pk_receivingAids = 0, pk_headerSizes = 0\<rparr>, m_count = 0\<rparr>"

lemma demo_holder_facts:
  "length bs \<le> cap \<Longrightarrow> holder_ok (demo_holder cap bs)" "held (demo_holder cap bs) = bs"
  "h_recordSize (demo_holder cap bs) = length bs" "h_bufferSize (demo_holder cap bs) = cap"
  by (simp_all add: demo_holder_def holder_ok_def held_def)

lemma demo_send_buf: "a < 12 \<Longrightarrow> send_buf demo_net a = demo_buffer"
  by (simp add: send_buf_def demo_net_def mkw.extend_def)

lemma demo_buffer_ok: "send_buffer_ok FRAME_CAP demo_buffer"
  by (simp add: send_buffer_ok_def demo_buffer_def demo_holder_facts HEADER_SIZE_def record_bytes_def FRAME_CAP_def)

lemma demo_frame_ok: "frame_ok demo_net"
proof -
  have "currentMMInfo demo_net = Some demo_info" by (simp add: currentMMInfo_def demo_net_def mkw.extend_def)
  moreover have "hasMKWServerAddress demo_net" by (simp add: hasMKWServerAddress_def demo_net_def mkw.extend_def)
  moreover have "outgoing_ok demo_net"
    by (simp add: outgoing_ok_def demo_net_def mkw.extend_def FRAME_CAP_def demo_holder_facts)
  moreover have "send_shape demo_net" by (simp add: send_shape_def demo_net_def mkw.extend_def)
  ultimately show ?thesis using demo_send_buf demo_buffer_ok by (simp add: frame_ok_def)
qed

lemma demo_found: "hasFoundMatch demo_net = Some True"
  by code_simp

lemma demo_groups: "frame_groups demo_net all_aids = [(0x43, [2, 5])]"
proof -
  have send: "sendable demo_net a \<longleftrightarrow> a \<in> {2, 5}" if "a < 12" for a
  proof -
    have "currentMMInfo demo_net = Some demo_info" by (simp add: currentMMInfo_def demo_net_def mkw.extend_def)
    then have *: "sendable demo_net a \<longleftrightarrow> bit (0x25 :: u32) a \<and> of_nat a \<noteq> (0 :: u8)"
      using canSendToAid_total [of demo_net demo_info a] that by (simp add: sendable_def) (simp add: demo_info_def)
    have "a \<in> {0, 1, 2, 3, 4, 5, 6, 7, 8, 9, 10, 11}"
      using that unfolding insert_iff empty_iff by presburger
    then show ?thesis unfolding * by (auto simp: bit_numeral_rec)
  qed
  have "filter (sendable demo_net) all_aids = filter (\<lambda>a. a \<in> {2, 5}) all_aids"
    using send all_aids_props(2) by (intro filter_cong) auto
  also have "\<dots> = [2, 5]" by code_simp
  finally have "filter (sendable demo_net) all_aids = [2, 5]" .
  moreover have "frame_kind demo_net a = 0x43" if "a < 12" for a
  proof -
    have "record_mask demo_buffer = 0x43" by code_simp
    then show ?thesis using demo_send_buf [OF that] by (simp add: frame_kind_def)
  qed
  ultimately show ?thesis by (simp add: frame_groups_def groups_def)
qed

theorem frame_refines_witness:
  "\<exists>s1 s2. createRacePacket demo_net = Some s1 \<and> sendRacePacket (\<lambda>_. 7) s1 = Some s2 \<and>
     map fst (so_log s2) = [SOSendTo 0 (datagram (\<lambda>_. 7) demo_net [2, 5]) (mkwServerAddr demo_net)]"
proof -
  have "so_log demo_net = []" "hbsock demo_net = 0" by (simp_all add: demo_net_def mkw_start_def mkw.extend_def)
  then show ?thesis
    using frame_refines [OF demo_frame_ok demo_found, of "\<lambda>_. 7"]
    by (auto simp: frame_datagrams_def demo_groups send_event_def)
qed



end
