(* ===== verification/Spec2Isabelle.thy ===== *)
theory Spec2Isabelle
  imports Ipc_Sync Settings_Page Fst_Dirs Early_Console Payload_Start Game_Archives U8_Reader Console_History Patcher Stub Loader WFC_Payload Stack_Trace Log_File SD_Sectors Usb_Sectors Load_Files Exchange Race_Events Save_State Text_Format Console_Commands Storage_Files Storage_Paths YAZ_Format LZ77_Decoder Room_Session Race_Exchange Circular_Buffer
begin

text \<open>
  A verification library for the MKW-Server client, a modification of a racing game for a console: its
  payload (\<open>payload/\<close>) is loaded into the game, replaces some of its functions and lets it play online
  against game servers of its own.  Two smaller programs, the stub and the loader, start the game with it.

  \<^bold>\<open>How the parts of the program work together.\<close>
  The stub (\<open>stub/\<close>) finds the newest archive of the modification and unpacks the loader from it.  The loader
  (\<open>loader/\<close>) lets the program on the disc load the game, refuses every game but the original one, and puts the
  payload behind it, whose patches (\<open>sp/Patcher.c\<close>) redirect functions of the game to the payload's.
  Before the game logs in, the client fetches a signed payload from the login server and runs it
  (\<open>sp/net/WiiLink.cc\<close>).  To find a room it keeps a TCP connection to the room manager
  (\<open>sp/net/mkw_server/RoomManager.cc\<close>), which sends the state of the room and the address of a game server.
  The state of the room is imported into the game's match-making info (\<open>game/net\<close>).  During a race the game
  fills one buffer per player and kind of record; once per frame \<open>NetManager\<close> groups the players whose records
  have the same sizes and sends one datagram per group to the game server (\<open>sp/net/mkw_server/MKWServer.cc\<close>),
  and stores what it receives.  Other datagrams tell when the race starts (\<open>revolution/dwc\<close>,
  \<open>game/net/RaceHandler.cc\<close>).  Files come from three storages behind one interface (\<open>sp/storage\<close>): a FAT volume
  on an SD card or a USB drive with their drivers, an archive in flash memory, and the disc; a path of the
  disc may be replaced by a file of the FAT volume.  A loader reads a file in one thread and decompresses it
  in another one.  Apart from these there are a console with formatted text and commands, a log file, stack
  traces with the names of symbols, and save states for practice.

  \<^bold>\<open>Conventions.\<close>
  A struct or class is a record with the names of its members (with a prefix where names clash), an operation
  is a function from the state to its result and the new state, named as in the source.  \<^term>\<open>None\<close> at the
  outside of a result is a fault: a failed assertion, a panic, a null pointer, an access outside of an object.
  Errors that the code reports are values.  Machine integers are words of their width; lengths and offsets are
  natural numbers where the code cannot wrap, and the lemmas that need it have the bound as a hypothesis.
  Loops are recursive functions that end by a measure; \<open>load_loop\<close>, \<open>lzma_loop\<close> and \<open>scan_prefixes\<close> depend on
  libraries and may run for ever, they are partial functions and the theorems prove that they return.  The
  loops of the loader that wait for a disc or for another processor (\<open>load_game\<close>, \<open>await_inserted\<close>,
  \<open>load_sections\<close>, \<open>await_message\<close>) are partial functions as well: they end only when the outside does what they
  wait for, and the theorem about the loader is one about the runs that end, of which its witness is one.  No
  fuel is used.  Threads are step relations (\<open>thread_step\<close>, \<open>log_run\<close>) or, where a protocol fixes the order, one
  sequence of steps.  Libraries that are not in the repository or are vendored are records of functions
  (\<open>fat_sdk\<close>, \<open>arc_sdk\<close>, \<open>dvd_sdk\<close>, \<open>lzma_sdk\<close>, \<open>ios_sdk\<close>, \<open>wwfc_sdk\<close>, \<open>game_fns\<close>, \<open>starlet\<close>,
  \<open>disc_code\<close>) over a world of any type;
  sockets follow a script of results and leave a log of the calls.  What a theorem needs of a library is a named
  predicate in its hypotheses (\<open>FAT_serves\<close>, \<open>sd_card\<close>, \<open>bot_law\<close>), and its witness has a library for which it holds.

  \<^bold>\<open>Foundations.\<close>
  \<open>Prelude\<close> has the types, faults and checked accesses.  \<open>Byte_IO\<close> models \<open>common/Bytes.hh\<close> and
  \<open>sp/Bytes.h\<close>: integers at any width and both byte orders, with the round trip.  \<open>Bit_Field\<close> is the template of
  \<open>common/BitField.hh\<close>, an implementation of sets of player ids (locale \<open>aid_set\<close>, at 16 and 32 bits).
  \<open>Circular_Buffer\<close> is \<open>sp/CircularBuffer.hh\<close>, an implementation of lists of bounded length (locale
  \<open>bounded_deque\<close>).  \<open>Socket_World\<close> and \<open>IOS_World\<close> are the interfaces to sockets and to the security processor.
  \<open>Main_Memory\<close> is memory as a function of addresses, for the programs that work on addresses.

  \<^bold>\<open>Start of the program.\<close>
  \<open>Starlet\<close> (\<open>common/IOS.cc\<close>): requests to the security processor, how the programs get and give back their
  privileges, and the import of a key, which writes nine words and no others.  \<open>Ipc_Sync\<close> (\<open>common/IOS.cc\<close>,
  \<open>common/ES.cc\<close>, \<open>common/Clock.cc\<close>): the registers through which a request goes, with the order of answers in
  which the exchange ends and the one in which it does not.  \<open>Boot_Font\<close>, \<open>Early_Console\<close> (\<open>common/Font.c\<close>,
  \<open>common/VI.cc\<close>, \<open>common/Console.cc\<close>): the pixels of the console, refined to a terminal.  \<open>Boot_FS\<close> (\<open>common/FS.cc\<close>): files in flash
  memory, over a relation that says what the processor may do with each request; a copy is a copy and leaves
  no handle open.  \<open>Stub_Archive\<close> and \<open>Stub\<close> (\<open>stub/\<close>): the archive with its lookup, refined to a search in a
  tree, and the choice of the newest loader.  \<open>Disc_Drive\<close>, \<open>Apploader\<close>, \<open>Loader\<close> (\<open>loader/\<close>): the disc, and that only
  the original game is started.  \<open>Patcher\<close> (\<open>sp/Patcher.c\<close>): the patches, over the encoding of the branch
  instruction.  \<open>Platform\<close> (\<open>sp/Host.cc\<close>, \<open>sp/IOSDolphin.cc\<close>): which console or emulator the program runs on.
  \<open>Payload_Start\<close> (\<open>sp/Payload.cc\<close>, \<open>sp/Rel.cc\<close>, \<open>sp/Time.cc\<close>): the steps of the payload's start; the module that
  it links is the original one.

  \<^bold>\<open>Network.\<close>
  \<open>WFC_Payload\<close>: the login payload; no login without one that has been verified, and what is done to its list of
  patches.  \<open>Match_Making\<close>: the packet with the state of the room, its validation and its import.  \<open>MKW_Server\<close>:
  addresses, search ids, pings.  \<open>Room_Manager\<close>: connection, requests and the receive loop; \<open>Room_Stream\<close> proves
  that the loop implements a function on byte streams, however the stream is cut; \<open>Room_Session\<close> has the
  connection as a state machine, its reachable states and that no socket leaks.  \<open>Race_Packets\<close>: the buffers of
  the records and the packet header.  \<open>Net_Manager\<close>: creation, sending and reception of race packets.
  \<open>Race_Frame\<close> specifies which datagrams a frame consists of, \<open>Race_Create\<close> proves that \<open>createRacePacket\<close>
  groups the players that way, \<open>Race_Exchange\<close> that sending and receiving move exactly the records of the sender
  to the receiver.  \<open>Race_Events\<close>: the start of a race, the ready packet and the replaced match-making functions.

  \<^bold>\<open>Storage.\<close>
  \<open>Handle_Pool\<close> has the pools of open files (locale \<open>handle_store\<close>, interpreted for the files and directories of
  every back end and for the dispatch over them).  \<open>Storage_Types\<close>, \<open>FAT_Storage\<close>, \<open>NAND_Storage\<close>, \<open>DVD_Storage\<close>:
  the back ends.  \<open>Storage_Dispatch\<close>: the interface, its handles and functions.  \<open>Storage_Handles\<close>: handles are
  exclusive and none leaks; \<open>Storage_Files\<close>: contents of files, replacement of a file without loss;
  \<open>Storage_Paths\<close>: which file a path of the disc stands for; \<open>Storage_Examples\<close>: concrete libraries.
  \<open>SD_Card\<close>, \<open>SD_Sectors\<close>: the driver of the SD card and what it promises, sectors.  \<open>Usb_Host\<close>, \<open>Usb_Storage\<close>,
  \<open>Usb_Sectors\<close>: the devices on the bus, the driver for mass storage and the same promise for it.
  \<open>Log_File\<close>: the log with its two buffers.  \<open>Fst_Dirs\<close> (\<open>revolution/dvd.c\<close>, \<open>revolution/arc.c\<close>): directories in a
  table of entries, which are functions of \<open>dvd_sdk\<close> and \<open>arc_sdk\<close> that the repository has the code of; reading a
  directory gives the children of the tree that the table was made from.

  \<^bold>\<open>Loading.\<close>
  \<open>Stream_Decoder\<close> is the interface of decoders that are fed in pieces and \<open>LZ_Format\<close> extends it by formats with
  a sliding window; \<open>YAZ_Decoder\<close>, \<open>YAZ_Format\<close> and \<open>LZ77_Decoder\<close> model two decoders, interpret both locales and
  prove that they never leave their buffers, that pieces do not matter and that decoding inverts encoding.
  \<open>LZMA_Decoder\<close> is the class around the vendored library.  \<open>Exchange\<close>: two threads that swap values, as a step
  relation; values arrive in order and nobody waits for ever.  \<open>Decomp_Loader\<close> is the loader with its two threads
  and \<open>Load_Files\<close> proves that it computes what reading the whole file and decoding it would give.
  \<open>Game_Archives\<close> (\<open>game/system\<close>, \<open>egg/core/eggDVDRipper.cc\<close>): the archives of the game with their names and states.
  \<open>U8_Reader\<close> (\<open>sp/U8Cursor.cc\<close>, \<open>sp/U8Iterator.cc\<close>): the entries of an archive and their paths.

  \<^bold>\<open>Tools.\<close>
  \<open>String_View\<close>, \<open>Text_Format\<close>, \<open>Console_Commands\<close>: lines, colour codes and commands of the console.
  \<open>Map_File\<close>, \<open>Stack_Trace\<close>: the lookup of symbols and the text of a stack trace.  \<open>Save_State\<close>: save states, the
  item wheel and the buttons.  \<open>Console_History\<close> (\<open>game/system/Console.c\<close>, \<open>sp/TypingBuffer.h\<close>): the lines of the
  console in the game and the line that is typed.  \<open>Settings_Page\<close> (\<open>game/ui/page/SettingsPage.cc\<close>,
  \<open>sp/settings\<close>): the settings and the sheets of their page, which show every setting once.

  \<^bold>\<open>Not modelled.\<close>
  The layouts, controls and drawing of the user interface, sounds, scenes and the other replaced functions of the
  game (\<open>game/ui\<close>, \<open>game/system\<close>, \<open>game/kart\<close> but for the parts above), which forward to the game's own code, most
  of which is not in the repository.  The text writer and the screens for fatal errors.  The declarations of the
  game and its libraries (\<open>nw4r\<close>, \<open>egg\<close>, \<open>revolution\<close>), of which only what the modelled code calls appears: they
  have no behaviour, and make up the larger part of the lines that no definition models.  The caches of the console.  Vendored
  libraries.  Logging to the console, sleeping and thread creation; the mutexes of the modelled code, whose
  critical sections are single steps here.
\<close>

end
